(* ===== verification/Py_Prelude.thy ===== *)
theory Py_Prelude
  imports
    Main
    "HOL-Library.Word"
    "HOL-Library.AList"
    "HOL-Library.List_Lexorder"
    "HOL-Library.Char_ord"
begin

text \<open>
  The Python level shared by every component: values read from JSON documents, dictionaries
  with insertion order, exceptions as a sum type, loops that may raise, byte strings and their
  hexadecimal and big-endian readings.

  Strings are \<open>char list\<close>; a \<open>char\<close> is a code point below 256, so the model covers the strings
  whose code points are below 256.  Floating-point numbers are not modelled.
\<close>

named_theorems py_simps "rewriting of the Python-level operations"

section \<open>Exceptions\<close>

text \<open>
  The built-in exceptions the modelled code lets escape.  A computation that may raise has type \<open>'e + 'a\<close>; \<^const>\<open>Inl\<close> carries the exception.
\<close>

datatype py_error =
    AttributeError
  | TypeError
  | IndexError
  | KeyError string
  | ValueError string
  | FileExistsError string
  | FileNotFoundError string
  | UnicodeError
  | StopIteration
  | RecursionError
  | NotADirectoryError
  | OSError string
  | RuntimeError string

definition bindE :: "'e + 'a \<Rightarrow> ('a \<Rightarrow> 'e + 'b) \<Rightarrow> 'e + 'b" where
  "bindE m f = (case m of Inl e \<Rightarrow> Inl e | Inr x \<Rightarrow> f x)"

lemma bindE_simps [simp, py_simps]:
  "bindE (Inl e) f = Inl e"
  "bindE (Inr x) f = f x"
  by (simp_all add: bindE_def)

lemma bindE_assoc: "bindE (bindE m f) g = bindE m (\<lambda>x. bindE (f x) g)"
  by (cases m) simp_all

lemma bindE_Inr_iff: "bindE m f = Inr y \<longleftrightarrow> (\<exists>x. m = Inr x \<and> f x = Inr y)"
  by (cases m) auto

lemma bindE_Inl_iff: "bindE m f = Inl e \<longleftrightarrow> m = Inl e \<or> (\<exists>x. m = Inr x \<and> f x = Inl e)"
  by (cases m) auto

lemma if_Inl_Inr_iff: "(if b then Inl e else m) = Inr y \<longleftrightarrow> \<not> b \<and> m = Inr y"
  by simp

lemma option_Inl_Inr_iff:
  "(case m of None \<Rightarrow> Inl e | Some x \<Rightarrow> f x) = Inr y \<longleftrightarrow> (\<exists>x. m = Some x \<and> f x = Inr y)"
  by (cases m) auto

lemmas ok_iff = bindE_Inr_iff if_Inl_Inr_iff option_Inl_Inr_iff

lemma returns: "(case m of Inl _ \<Rightarrow> False | Inr x \<Rightarrow> P x) \<Longrightarrow> \<exists>x. m = Inr x \<and> P x"
  by (cases m) auto

text \<open>A list comprehension whose element may raise, and a loop over a list that may raise.\<close>

fun mapE :: "('a \<Rightarrow> 'e + 'b) \<Rightarrow> 'a list \<Rightarrow> 'e + 'b list" where
  "mapE f [] = Inr []"
| "mapE f (x # xs) = bindE (f x) (\<lambda>y. bindE (mapE f xs) (\<lambda>ys. Inr (y # ys)))"

fun foldE :: "('s \<Rightarrow> 'a \<Rightarrow> 'e + 's) \<Rightarrow> 's \<Rightarrow> 'a list \<Rightarrow> 'e + 's" where
  "foldE f s [] = Inr s"
| "foldE f s (x # xs) = bindE (f s x) (\<lambda>s'. foldE f s' xs)"

lemma mapE_Inr_iff: "mapE f xs = Inr ys \<longleftrightarrow> list_all2 (\<lambda>x y. f x = Inr y) xs ys"
  by (induction xs arbitrary: ys) (auto simp: ok_iff list_all2_Cons1)

lemma mapE_result_in: "mapE f xs = Inr ys \<Longrightarrow> y \<in> set ys \<Longrightarrow> \<exists>x \<in> set xs. f x = Inr y"
  by (induction xs arbitrary: ys) (auto simp: bindE_Inr_iff)

lemma mapE_source_in: "mapE f xs = Inr ys \<Longrightarrow> x \<in> set xs \<Longrightarrow> \<exists>y \<in> set ys. f x = Inr y"
  by (induction xs arbitrary: ys) (auto simp: bindE_Inr_iff)

lemma mapE_set: "mapE f xs = Inr ys \<Longrightarrow> set ys = {y. \<exists>x \<in> set xs. f x = Inr y}"
  by (induction xs arbitrary: ys) (auto simp: bindE_Inr_iff)

lemma mapE_length: "mapE f xs = Inr ys \<Longrightarrow> length ys = length xs"
  by (simp add: mapE_Inr_iff list_all2_lengthD)

lemma foldE_append: "foldE f s (xs @ ys) = bindE (foldE f s xs) (\<lambda>s'. foldE f s' ys)"
proof (induction xs arbitrary: s)
  case Nil
  then show ?case by simp
next
  case (Cons x xs)
  then show ?case by (cases "f s x") simp_all
qed

lemma foldE_invariant:
  assumes step: "\<And>s x s'. P s \<Longrightarrow> x \<in> set xs \<Longrightarrow> f s x = Inr s' \<Longrightarrow> P s'"
    and run: "foldE f s xs = Inr s'" and start: "P s"
  shows "P s'"
  using step run start
proof (induction xs arbitrary: s)
  case Nil
  then show ?case by simp
next
  case (Cons x xs)
  from Cons.prems(2) obtain t where t: "f s x = Inr t" and rest: "foldE f t xs = Inr s'"
    by (auto simp: bindE_Inr_iff)
  have "P t" by (rule Cons.prems(1) [OF Cons.prems(3) _ t]) simp
  moreover have "\<And>s y s'. P s \<Longrightarrow> y \<in> set xs \<Longrightarrow> f s y = Inr s' \<Longrightarrow> P s'"
    by (rule Cons.prems(1)) simp_all
  ultimately show ?case using Cons.IH rest by blast
qed

section \<open>Values of JSON documents\<close>

text \<open>
  \<^verbatim>\<open>json.loads\<close> yields \<^verbatim>\<open>None\<close>, booleans, integers, strings, lists and dictionaries.  A dictionary
  is the association list of its items in insertion order.
\<close>

datatype pv =
    PNone
  | PBool bool
  | PInt int
  | PStr string
  | PList "pv list"
  | PDict "(string \<times> pv) list"

type_synonym obj = "(string \<times> pv) list"

definition dict_wf :: "obj \<Rightarrow> bool" where
  "dict_wf d \<longleftrightarrow> distinct (map fst d)"

text \<open>\<^verbatim>\<open>d.get(k)\<close>, \<^verbatim>\<open>d.get(k, x)\<close>, \<^verbatim>\<open>k in d\<close>, \<^verbatim>\<open>d[k] = v\<close> and \<^verbatim>\<open>d.setdefault(k, v)\<close>.\<close>

definition get_or :: "('k \<times> 'v) list \<Rightarrow> 'k \<Rightarrow> 'v \<Rightarrow> 'v" where
  "get_or d k x = (case map_of d k of None \<Rightarrow> x | Some v \<Rightarrow> v)"

abbreviation py_get :: "obj \<Rightarrow> string \<Rightarrow> pv" where
  "py_get d k \<equiv> get_or d k PNone"

definition has_key :: "('k \<times> 'v) list \<Rightarrow> 'k \<Rightarrow> bool" where
  "has_key d k \<longleftrightarrow> k \<in> set (map fst d)"

abbreviation dset :: "'k \<Rightarrow> 'v \<Rightarrow> ('k \<times> 'v) list \<Rightarrow> ('k \<times> 'v) list" where
  "dset \<equiv> AList.update"

definition dsetdefault :: "'k \<Rightarrow> 'v \<Rightarrow> ('k \<times> 'v) list \<Rightarrow> ('k \<times> 'v) list" where
  "dsetdefault k v d = (if has_key d k then d else d @ [(k, v)])"

definition dupdate :: "('k \<times> 'v) list \<Rightarrow> ('k \<times> 'v) list \<Rightarrow> ('k \<times> 'v) list" where
  "dupdate d e = foldl (\<lambda>acc kv. dset (fst kv) (snd kv) acc) d e"

definition without_keys :: "'k list \<Rightarrow> ('k \<times> 'v) list \<Rightarrow> ('k \<times> 'v) list" where
  "without_keys ks d = filter (\<lambda>kv. fst kv \<notin> set ks) d"

lemma has_key_map_of: "has_key d k \<longleftrightarrow> map_of d k \<noteq> None"
  by (simp add: has_key_def map_of_eq_None_iff)

lemma map_of_dset [simp]: "map_of (dset k v d) = (map_of d)(k \<mapsto> v)"
  by (simp add: update_conv')

lemma get_or_dset [simp]: "get_or (dset k v d) k' x = (if k' = k then v else get_or d k' x)"
  by (simp add: get_or_def)

lemma map_of_dsetdefault:
  "map_of (dsetdefault k v d) k' = (if k' = k \<and> \<not> has_key d k then Some v else map_of d k')"
  by (auto simp: dsetdefault_def has_key_map_of map_add_def split: option.splits)

lemma dset_fresh: "k \<notin> set (map fst d) \<Longrightarrow> dset k v d = d @ [(k, v)]"
  by (induction d) auto

lemma dict_wf_dset [intro]: "dict_wf d \<Longrightarrow> dict_wf (dset k v d)"
  by (simp add: dict_wf_def distinct_update)

lemma dict_wf_dsetdefault [intro]: "dict_wf d \<Longrightarrow> dict_wf (dsetdefault k v d)"
  by (auto simp: dict_wf_def dsetdefault_def has_key_def)

lemma dict_wf_dupdate [intro]: "dict_wf d \<Longrightarrow> dict_wf (dupdate d e)"
  unfolding dupdate_def by (induction e arbitrary: d) auto

lemma map_of_without_keys:
  "map_of (without_keys ks d) k = (if k \<in> set ks then None else map_of d k)"
  by (induction d) (auto simp: without_keys_def)

lemma dict_wf_without_keys [intro]: "dict_wf d \<Longrightarrow> dict_wf (without_keys ks d)"
  by (simp add: dict_wf_def without_keys_def distinct_map_filter)

lemma without_keys_dset:
  "k \<in> set ks \<Longrightarrow> without_keys ks (dset k v d) = without_keys ks d"
  by (induction d) (auto simp: without_keys_def)

text \<open>Truth value of an object, and \<^verbatim>\<open>isinstance\<close> tests.\<close>

fun truthy :: "pv \<Rightarrow> bool" where
  "truthy PNone = False"
| "truthy (PBool b) = b"
| "truthy (PInt i) = (i \<noteq> 0)"
| "truthy (PStr s) = (s \<noteq> [])"
| "truthy (PList xs) = (xs \<noteq> [])"
| "truthy (PDict d) = (d \<noteq> [])"

fun is_str :: "pv \<Rightarrow> bool" where "is_str (PStr s) = True" | "is_str v = False"
fun is_int :: "pv \<Rightarrow> bool" where "is_int (PInt i) = True" | "is_int v = False"
fun is_list :: "pv \<Rightarrow> bool" where "is_list (PList l) = True" | "is_list v = False"
fun is_dict :: "pv \<Rightarrow> bool" where "is_dict (PDict d) = True" | "is_dict v = False"

fun str_of :: "pv \<Rightarrow> string" where "str_of (PStr s) = s" | "str_of v = []"
fun int_of :: "pv \<Rightarrow> int" where "int_of (PInt i) = i" | "int_of v = 0"
fun list_of :: "pv \<Rightarrow> pv list" where "list_of (PList l) = l" | "list_of v = []"
fun dict_of :: "pv \<Rightarrow> obj" where "dict_of (PDict d) = d" | "dict_of v = []"

text \<open>\<^verbatim>\<open>set(d) == ks\<close> for a dictionary and a set of names.\<close>

definition keys_are :: "obj \<Rightarrow> string list \<Rightarrow> bool" where
  "keys_are d ks \<longleftrightarrow> list_all (\<lambda>k. has_key d k) ks \<and> list_all (\<lambda>kv. fst kv \<in> set ks) d"

lemma keys_are_iff: "keys_are d ks \<longleftrightarrow> set (map fst d) = set ks"
  by (auto simp: keys_are_def list_all_iff has_key_def)

text \<open>A dictionary key must be hashable; \<^verbatim>\<open>f.get(k)\<close> on a value that is no dictionary raises.\<close>

fun hashable :: "pv \<Rightarrow> bool" where
  "hashable (PList l) = False"
| "hashable (PDict d) = False"
| "hashable v = True"

fun as_dict :: "pv \<Rightarrow> py_error + obj" where
  "as_dict (PDict d) = Inr d"
| "as_dict v = Inl AttributeError"

lemma as_dict_Inr_iff [simp]: "as_dict v = Inr d \<longleftrightarrow> v = PDict d"
  by (cases v) auto

lemma truthy_simps [simp]: "truthy v \<Longrightarrow> v \<noteq> PNone"
  by auto

end
