(* ===== verification/Py_Bytes.thy ===== *)
theory Py_Bytes
  imports Py_Prelude
begin

text \<open>
  Byte strings and numerals: \<^verbatim>\<open>int.from_bytes\<close> and the shortest \<^verbatim>\<open>to_bytes\<close>, \<^verbatim>\<open>bytes.fromhex\<close>,
  \<^verbatim>\<open>bytes.hex\<close>, decimal printing and the hexadecimal readings of \<^verbatim>\<open>int\<close>.
\<close>

type_synonym byte = "8 word"
type_synonym bytes = "byte list"

section \<open>Big-endian integers\<close>

text \<open>\<^verbatim>\<open>int.from_bytes(value, "big")\<close>.\<close>

definition be_nat :: "bytes \<Rightarrow> nat" where
  "be_nat bs = foldl (\<lambda>acc b. acc * 256 + unat b) 0 bs"

text \<open>\<^verbatim>\<open>n.to_bytes((n.bit_length() + 7) // 8, "big")\<close>: the shortest encoding, empty for zero.\<close>

fun nat_be :: "nat \<Rightarrow> bytes" where
  "nat_be n = (if n = 0 then [] else nat_be (n div 256) @ [of_nat n])"

declare nat_be.simps [simp del]

lemma nat_be_0 [simp]: "nat_be 0 = []"
  by (simp add: nat_be.simps)

lemma nat_be_pos: "0 < n \<Longrightarrow> nat_be n = nat_be (n div 256) @ [of_nat n]"
  by (simp add: nat_be.simps [of n])

lemma be_nat_Nil [simp]: "be_nat [] = 0"
  by (simp add: be_nat_def)

lemma be_nat_snoc [simp]: "be_nat (bs @ [b]) = be_nat bs * 256 + unat b"
  by (simp add: be_nat_def)

lemma unat_byte_less: "unat (b :: byte) < 256"
  using unsigned_less [of b, where ?'a = nat] by simp

lemma unat_of_nat_byte: "unat (of_nat n :: byte) = n mod 256"
  by (simp add: unat_of_nat)

lemma be_nat_nat_be [simp]: "be_nat (nat_be n) = n"
proof (induction n rule: nat_be.induct)
  case (1 n)
  show ?case
  proof (cases "n = 0")
    case True
    then show ?thesis by simp
  next
    case False
    with 1 have "be_nat (nat_be (n div 256)) = n div 256" by simp
    with False show ?thesis by (simp add: nat_be_pos unat_of_nat_byte)
  qed
qed

text \<open>A byte string is minimal when it is empty or starts with a non-zero byte.\<close>

definition minimal_be :: "bytes \<Rightarrow> bool" where
  "minimal_be bs \<longleftrightarrow> bs = [] \<or> hd bs \<noteq> 0"

lemma nat_be_eq_Nil_iff: "nat_be n = [] \<longleftrightarrow> n = 0"
  by (subst nat_be.simps) simp

lemma minimal_nat_be: "minimal_be (nat_be n)"
proof (induction n rule: nat_be.induct)
  case (1 n)
  show ?case
  proof (cases "n = 0")
    case True
    then show ?thesis by (simp add: minimal_be_def)
  next
    case False
    show ?thesis
    proof (cases "n div 256 = 0")
      case True
      then have "n < 256" by auto
      then have "unat (of_nat n :: byte) = n" by (simp add: unat_of_nat_byte)
      with False have "(of_nat n :: byte) \<noteq> 0" by auto
      with True False show ?thesis by (simp add: nat_be_pos minimal_be_def)
    next
      case nz: False
      with 1 False have "minimal_be (nat_be (n div 256))" by simp
      moreover from nz have "nat_be (n div 256) \<noteq> []" by (simp only: nat_be_eq_Nil_iff) simp
      ultimately show ?thesis using False by (simp add: nat_be_pos minimal_be_def)
    qed
  qed
qed

lemma be_nat_pos: "bs \<noteq> [] \<Longrightarrow> hd bs \<noteq> 0 \<Longrightarrow> 0 < be_nat bs"
proof (induction bs rule: rev_induct)
  case Nil
  then show ?case by simp
next
  case (snoc b bs)
  show ?case
  proof (cases "bs = []")
    case True
    with snoc.prems show ?thesis using be_nat_snoc [of "[]" b] by (simp add: unat_gt_0)
  next
    case False
    with snoc show ?thesis by (simp add: hd_append)
  qed
qed

lemma nat_be_be_nat: "minimal_be bs \<Longrightarrow> nat_be (be_nat bs) = bs"
proof (induction bs rule: rev_induct)
  case Nil
  then show ?case by simp
next
  case (snoc b bs)
  have min: "minimal_be bs"
    using snoc.prems by (cases bs) (auto simp: minimal_be_def)
  have pos: "0 < be_nat (bs @ [b])"
    using snoc.prems be_nat_pos [of "bs @ [b]"] by (simp add: minimal_be_def del: be_nat_snoc)
  have dv: "be_nat (bs @ [b]) div 256 = be_nat bs"
    using unat_byte_less [of b] by simp
  have "(of_nat (be_nat (bs @ [b])) :: byte) = b"
  proof (rule word_unat_eq_iff [THEN iffD2])
    show "unat (of_nat (be_nat (bs @ [b])) :: byte) = unat b"
      using unat_byte_less [of b] by (simp add: unat_of_nat_byte del: of_nat_add of_nat_mult)
  qed
  then show ?case
    using snoc.IH [OF min] by (simp only: nat_be_pos [OF pos] dv)
qed

lemma nat_be_inverse_iff: "nat_be (be_nat bs) = bs \<longleftrightarrow> minimal_be bs"
  using nat_be_be_nat minimal_nat_be by metis

section \<open>Hexadecimal\<close>

fun hex_val :: "char \<Rightarrow> nat option" where
  "hex_val c =
     (let n = (of_char c :: nat) in
      if 48 \<le> n \<and> n \<le> 57 then Some (n - 48)
      else if 97 \<le> n \<and> n \<le> 102 then Some (n - 87)
      else if 65 \<le> n \<and> n \<le> 70 then Some (n - 55)
      else None)"

declare hex_val.simps [simp del]

definition is_hex_char :: "char \<Rightarrow> bool" where
  "is_hex_char c \<longleftrightarrow> hex_val c \<noteq> None"

definition hex_digit :: "nat \<Rightarrow> char" where
  "hex_digit n = (if n < 10 then char_of (n + 48) else char_of (n + 87))"

lemma hex_val_digit: "n < 16 \<Longrightarrow> hex_val (hex_digit n) = Some n"
  by (auto simp: hex_val.simps hex_digit_def Let_def)

lemma hex_val_less: "hex_val c = Some n \<Longrightarrow> n < 16"
  by (auto simp: hex_val.simps Let_def split: if_splits)

text \<open>\<^verbatim>\<open>bytes.fromhex(s)\<close> on a string without white space, and \<^verbatim>\<open>b.hex()\<close>.\<close>

fun from_hex :: "string \<Rightarrow> bytes option" where
  "from_hex [] = Some []"
| "from_hex [c] = None"
| "from_hex (c # d # s) =
     (case (hex_val c, hex_val d, from_hex s) of
        (Some a, Some b, Some bs) \<Rightarrow> Some (of_nat (a * 16 + b) # bs)
      | _ \<Rightarrow> None)"

definition to_hex :: "bytes \<Rightarrow> string" where
  "to_hex bs = concat (map (\<lambda>b. [hex_digit (unat b div 16), hex_digit (unat b mod 16)]) bs)"

lemma length_to_hex [simp]: "length (to_hex bs) = 2 * length bs"
  by (induction bs) (simp_all add: to_hex_def)

lemma from_hex_to_hex [simp]: "from_hex (to_hex bs) = Some bs"
proof (induction bs)
  case Nil
  then show ?case by (simp add: to_hex_def)
next
  case (Cons b bs)
  have "unat b div 16 < 16" using unat_byte_less [of b] by auto
  then show ?case using Cons by (simp add: to_hex_def hex_val_digit)
qed

lemma from_hex_length: "from_hex s = Some bs \<Longrightarrow> length s = 2 * length bs"
  by (induction s arbitrary: bs rule: from_hex.induct) (auto split: option.splits)

lemma from_hex_None_iff:
  "from_hex s = None \<longleftrightarrow> odd (length s) \<or> (\<exists>c \<in> set s. \<not> is_hex_char c)"
  by (induction s rule: from_hex.induct) (auto simp: is_hex_char_def split: option.splits)

text \<open>\<^verbatim>\<open>int(s, 16)\<close> on a string of hexadecimal digits.\<close>

definition hex_nat :: "string \<Rightarrow> nat" where
  "hex_nat s = foldl (\<lambda>acc c. acc * 16 + (case hex_val c of None \<Rightarrow> 0 | Some d \<Rightarrow> d)) 0 s"

section \<open>Decimal printing\<close>

text \<open>\<^verbatim>\<open>str(n)\<close> for an integer.\<close>

fun nat_str :: "nat \<Rightarrow> string" where
  "nat_str n = (if n < 10 then [char_of (n + 48)] else nat_str (n div 10) @ [char_of (n mod 10 + 48)])"

declare nat_str.simps [simp del]

definition int_str :: "int \<Rightarrow> string" where
  "int_str i = (if i < 0 then CHR ''-'' # nat_str (nat (- i)) else nat_str (nat i))"

definition dec_nat :: "string \<Rightarrow> nat" where
  "dec_nat s = foldl (\<lambda>acc c. acc * 10 + (of_char c - 48)) 0 s"

definition is_digit :: "char \<Rightarrow> bool" where
  "is_digit c \<longleftrightarrow> 48 \<le> (of_char c :: nat) \<and> (of_char c :: nat) \<le> 57"

lemma nat_str_digits: "list_all is_digit (nat_str n)"
proof (induction n rule: nat_str.induct)
  case (1 n)
  have "n mod 10 \<le> 9" by simp
  with 1 show ?case by (subst nat_str.simps) (simp add: is_digit_def [abs_def])
qed

lemma nat_str_not_Nil [simp]: "nat_str n \<noteq> []"
  by (subst nat_str.simps) simp

lemma dec_nat_nat_str [simp]: "dec_nat (nat_str n) = n"
proof (induction n rule: nat_str.induct)
  case (1 n)
  show ?case
  proof (cases "n < 10")
    case True
    then show ?thesis by (subst nat_str.simps) (simp add: dec_nat_def)
  next
    case False
    with 1 have "dec_nat (nat_str (n div 10)) = n div 10" by simp
    with False show ?thesis
      by (subst nat_str.simps) (simp add: dec_nat_def)
  qed
qed

lemma nat_str_inject [simp]: "nat_str m = nat_str n \<longleftrightarrow> m = n"
  using dec_nat_nat_str by metis

lemma hd_nat_str: "is_digit (hd (nat_str n))"
  using nat_str_digits [of n] nat_str_not_Nil [of n] by (cases "nat_str n") auto

lemma int_str_not_Nil [simp]: "int_str i \<noteq> []"
  by (simp add: int_str_def)

lemma int_str_inject [simp]: "int_str i = int_str j \<longleftrightarrow> i = j"
proof
  assume eq: "int_str i = int_str j"
  have nd: "\<not> is_digit CHR ''-''" by (simp add: is_digit_def)
  have sign: "i < 0 \<longleftrightarrow> j < 0"
  proof (rule ccontr)
    assume "(i < 0) \<noteq> (j < 0)"
    then have "\<exists>n. nat_str n \<noteq> [] \<and> hd (nat_str n) = CHR ''-''"
      using eq by (auto simp: int_str_def split: if_splits) (metis list.sel(1))+
    then show False using hd_nat_str nd by metis
  qed
  with eq show "i = j" by (auto simp: int_str_def split: if_splits)
qed simp

section \<open>Case folding\<close>

text \<open>\<^verbatim>\<open>c.lower()\<close> on the letters A to Z, and the copy for Latin-1 capitals.\<close>

definition lower_char :: "char \<Rightarrow> char" where
  "lower_char c =
     (let n = (of_char c :: nat) in
      if (65 \<le> n \<and> n \<le> 90) \<or> (192 \<le> n \<and> n \<le> 222 \<and> n \<noteq> 215) then char_of (n + 32) else c)"

definition lower :: "string \<Rightarrow> string" where
  "lower s = map lower_char s"

lemma lower_char_idem [simp]: "lower_char (lower_char c) = lower_char c"
  by (auto simp: lower_char_def Let_def)

lemma lower_idem [simp]: "lower (lower s) = lower s"
  by (simp add: lower_def)

lemma length_lower [simp]: "length (lower s) = length s"
  by (simp add: lower_def)

lemma hex_digit_plain: "d < 16 \<Longrightarrow> lower_char (hex_digit d) = hex_digit d \<and> is_hex_char (hex_digit d)"
  using hex_val_digit [of d] by (auto simp: lower_char_def hex_digit_def is_hex_char_def Let_def)

lemma lower_to_hex [simp]: "lower (to_hex bs) = to_hex bs"
proof (induction bs)
  case Nil
  then show ?case by (simp add: to_hex_def lower_def)
next
  case (Cons b bs)
  have "unat b div 16 < 16" using unat_byte_less [of b] by auto
  with Cons hex_digit_plain show ?case by (simp add: to_hex_def lower_def)
qed

lemma lower_append [simp]: "lower (s @ t) = lower s @ lower t"
  by (simp add: lower_def)

lemma lower_0x [simp]: "lower (CHR ''0'' # CHR ''x'' # s) = CHR ''0'' # CHR ''x'' # lower s"
  by (simp add: lower_def lower_char_def)

end
