(* ===== verification/Receipt_Inclusion.thy ===== *)
theory Receipt_Inclusion
  imports Py_Bytes
begin

text \<open>
  \<^verbatim>\<open>scripts/forensic/ethereum_receipt_inclusion.py\<close>: verification of one transaction and its
  receipt against a pinned block header.

  The packages \<^verbatim>\<open>rlp\<close>, \<^verbatim>\<open>eth_hash\<close> and \<^verbatim>\<open>eth_keys\<close> are not part of the repository; the record
  \<open>eth_lib\<close> holds what the code uses of them, and every definition takes such a record.  SHA-256 and
  the JSON text reader are fields of the same record.  The JSON reader returns the raw pairs of each
  object, duplicates included, as \<^verbatim>\<open>object_pairs_hook\<close> receives them.
\<close>

datatype rlp = RBytes bytes | RList "rlp list"

datatype incl_error = InclusionError string

record eth_lib =
  rlp_encode :: "rlp \<Rightarrow> bytes"
  rlp_encode_int :: "nat \<Rightarrow> bytes"
  rlp_decode :: "bytes \<Rightarrow> rlp option"
  keccak :: "bytes \<Rightarrow> bytes"
  secpk1_n :: nat
  recover :: "nat \<Rightarrow> nat \<Rightarrow> nat \<Rightarrow> bytes \<Rightarrow> string option"
  sha256_hex :: "bytes \<Rightarrow> string"
  json_pairs :: "bytes \<Rightarrow> pv option"

abbreviation fails :: "string \<Rightarrow> incl_error + 'a" where
  "fails msg \<equiv> Inl (InclusionError msg)"

fun is_rbytes :: "rlp \<Rightarrow> bool" where "is_rbytes (RBytes b) = True" | "is_rbytes (RList l) = False"
fun rbytes :: "rlp \<Rightarrow> bytes" where "rbytes (RBytes b) = b" | "rbytes (RList l) = []"
fun rlist :: "rlp \<Rightarrow> rlp list" where "rlist (RBytes b) = []" | "rlist (RList l) = l"

section \<open>Input decoding\<close>

text \<open>The \<^verbatim>\<open>pairs\<close> hook of \<^verbatim>\<open>_json_no_duplicates\<close>, applied to inner objects first.\<close>

fun first_duplicate :: "string list \<Rightarrow> string list \<Rightarrow> string option" where
  "first_duplicate seen [] = None"
| "first_duplicate seen (k # ks) =
     (if k \<in> set seen then Some k else first_duplicate (k # seen) ks)"

fun hook_value :: "string \<Rightarrow> pv \<Rightarrow> incl_error + pv"
  and hook_list :: "string \<Rightarrow> pv list \<Rightarrow> incl_error + pv list"
  and hook_items :: "string \<Rightarrow> (string \<times> pv) list \<Rightarrow> incl_error + (string \<times> pv) list" where
  "hook_value label (PDict rows) =
     bindE (hook_items label rows) (\<lambda>rows'.
       case first_duplicate [] (map fst rows) of
         Some key \<Rightarrow> fails (''duplicate JSON field in '' @ label @ '': '' @ key)
       | None \<Rightarrow> Inr (PDict rows'))"
| "hook_value label (PList xs) = bindE (hook_list label xs) (\<lambda>ys. Inr (PList ys))"
| "hook_value label v = Inr v"
| "hook_list label [] = Inr []"
| "hook_list label (x # xs) =
     bindE (hook_value label x) (\<lambda>y. bindE (hook_list label xs) (\<lambda>ys. Inr (y # ys)))"
| "hook_items label [] = Inr []"
| "hook_items label (kv # rest) =
     bindE (hook_value label (snd kv)) (\<lambda>w.
     bindE (hook_items label rest) (\<lambda>ws. Inr ((fst kv, w) # ws)))"

definition json_no_duplicates :: "eth_lib \<Rightarrow> bytes \<Rightarrow> string \<Rightarrow> incl_error + pv" where
  "json_no_duplicates L raw label =
     (case json_pairs L raw of
        None \<Rightarrow> fails (''invalid JSON in '' @ label)
      | Some v \<Rightarrow> hook_value label v)"

text \<open>\<^verbatim>\<open>HEX_RE.fullmatch\<close>, \<^verbatim>\<open>ADDRESS_RE.fullmatch\<close> and the quantity pattern.\<close>

definition hex_re :: "string \<Rightarrow> bool" where
  "hex_re s \<longleftrightarrow> take 2 s = ''0x'' \<and> even (length s) \<and> list_all is_hex_char (drop 2 s)"

definition address_re :: "string \<Rightarrow> bool" where
  "address_re s \<longleftrightarrow> take 2 s = ''0x'' \<and> length s = 42 \<and> list_all is_hex_char (drop 2 s)"

definition quantity_re :: "string \<Rightarrow> bool" where
  "quantity_re s \<longleftrightarrow>
     take 2 s = ''0x'' \<and>
     (case drop 2 s of
        [] \<Rightarrow> False
      | c # cs \<Rightarrow> (c = CHR ''0'' \<and> cs = []) \<or>
                  (c \<noteq> CHR ''0'' \<and> is_hex_char c \<and> list_all is_hex_char cs))"

definition hex_bytes :: "pv \<Rightarrow> string \<Rightarrow> nat option \<Rightarrow> incl_error + bytes" where
  "hex_bytes v label width =
     (if \<not> is_str v \<or> \<not> hex_re (str_of v)
      then fails (label @ '' must be even-length 0x-prefixed hex'')
      else case from_hex (drop 2 (str_of v)) of
             None \<Rightarrow> fails (label @ '' must be even-length 0x-prefixed hex'')
           | Some data \<Rightarrow>
               (case width of
                  None \<Rightarrow> Inr data
                | Some n \<Rightarrow> if length data \<noteq> n
                            then fails (label @ '' must be '' @ nat_str n @ '' bytes'')
                            else Inr data))"

definition quantity :: "pv \<Rightarrow> string \<Rightarrow> incl_error + nat" where
  "quantity v label =
     (if \<not> is_str v \<or> \<not> quantity_re (str_of v)
      then fails (label @ '' must be a canonical JSON-RPC quantity'')
      else Inr (hex_nat (drop 2 (str_of v))))"

definition rlp_int :: "bytes \<Rightarrow> string \<Rightarrow> incl_error + nat" where
  "rlp_int value label =
     (if value \<noteq> [] \<and> hd value = 0
      then fails (label @ '' is not a canonical RLP integer'')
      else Inr (be_nat value))"

text \<open>A hexadecimal string printed from bytes is read back.\<close>

lemma is_hex_char_digit: "n < 16 \<Longrightarrow> is_hex_char (hex_digit n)"
  by (simp add: is_hex_char_def hex_val_digit)

lemma to_hex_chars: "list_all is_hex_char (to_hex bs)"
proof (induction bs)
  case Nil
  then show ?case by (simp add: to_hex_def)
next
  case (Cons b bs)
  have "unat b div 16 < 16" using unat_byte_less [of b] by auto
  with Cons show ?case by (simp add: to_hex_def is_hex_char_digit)
qed

lemma hex_re_to_hex: "hex_re (CHR ''0'' # CHR ''x'' # to_hex bs)"
  by (simp add: hex_re_def to_hex_chars)

lemma hex_bytes_to_hex [simp]:
  "hex_bytes (PStr (CHR ''0'' # CHR ''x'' # to_hex bs)) label None = Inr bs"
  "hex_bytes (PStr (CHR ''0'' # CHR ''x'' # to_hex bs)) label (Some n) =
     (if length bs \<noteq> n then fails (label @ '' must be '' @ nat_str n @ '' bytes'') else Inr bs)"
  by (simp_all add: hex_bytes_def hex_re_to_hex)

section \<open>Trie proofs\<close>

definition nibbles :: "bytes \<Rightarrow> nat list" where
  "nibbles raw = concat (map (\<lambda>b. [unat b div 16, unat b mod 16]) raw)"

definition compact_path :: "bytes \<Rightarrow> incl_error + (nat list \<times> bool)" where
  "compact_path raw =
     (let ns = nibbles raw in
      if ns = [] \<or> hd ns \<notin> {0, 1, 2, 3} then fails ''invalid hex-prefix path''
      else let leaf = 2 \<le> hd ns; odd_len = hd ns mod 2 = 1 in
        if odd_len then Inr (tl ns, leaf)
        else if length ns < 2 \<or> ns ! 1 \<noteq> 0 then fails ''non-canonical even hex-prefix path''
        else Inr (drop 2 ns, leaf))"

text \<open>
  One pass of the loop reads the referenced node: a 32-byte reference names the next proof node by
  its hash, a shorter one is the node itself, which the proof may repeat.
\<close>

definition fetch_node ::
    "eth_lib \<Rightarrow> bytes list \<Rightarrow> bytes \<Rightarrow> nat \<Rightarrow> incl_error + (bytes \<times> nat)" where
  "fetch_node L proof_nodes expected_ref cursor =
     (if length expected_ref = 32 then
        if length proof_nodes \<le> cursor
        then fails ''proof ended before reaching a referenced node''
        else let node_raw = proof_nodes ! cursor in
          if keccak L node_raw \<noteq> expected_ref
          then fails ''trie node hash does not match its parent reference''
          else Inr (node_raw, cursor + 1)
      else if length expected_ref < 32 then
        Inr (expected_ref,
             if cursor < length proof_nodes \<and> proof_nodes ! cursor = expected_ref
             then cursor + 1 else cursor)
      else fails ''invalid trie child reference width'')"

definition parse_node :: "eth_lib \<Rightarrow> bytes \<Rightarrow> incl_error + rlp list" where
  "parse_node L node_raw =
     (case rlp_decode L node_raw of
        None \<Rightarrow> fails ''malformed RLP trie node''
      | Some node \<Rightarrow>
          if rlp_encode L node \<noteq> node_raw then fails ''non-canonical RLP trie node''
          else if is_rbytes node then fails ''trie node must be an RLP list''
          else Inr (rlist node))"

definition child_ref :: "eth_lib \<Rightarrow> rlp \<Rightarrow> bytes" where
  "child_ref L child = (if is_rbytes child then rbytes child else rlp_encode L child)"

fun trie_loop ::
    "eth_lib \<Rightarrow> bytes list \<Rightarrow> nat \<Rightarrow> nat list \<Rightarrow> bytes \<Rightarrow> nat \<Rightarrow> incl_error + bytes" where
  "trie_loop L proof_nodes 0 remaining expected_ref cursor =
     fails ''trie proof exceeded maximum node depth''"
| "trie_loop L proof_nodes (Suc steps_left) remaining expected_ref cursor =
     bindE (fetch_node L proof_nodes expected_ref cursor) (\<lambda>(node_raw, cursor).
     bindE (parse_node L node_raw) (\<lambda>node.
       if length node = 17 then
         if remaining = [] then
           if \<not> is_rbytes (node ! 16) \<or> cursor \<noteq> length proof_nodes
           then fails ''invalid branch value or unused proof nodes''
           else Inr (rbytes (node ! 16))
         else
           let expected_ref = child_ref L (node ! hd remaining) in
           if expected_ref = [] then fails ''receipt path terminates at an empty trie branch''
           else trie_loop L proof_nodes steps_left (tl remaining) expected_ref cursor
       else if length node \<noteq> 2 \<or> \<not> is_rbytes (node ! 0)
       then fails ''trie node must be a branch or compact-path pair''
       else bindE (compact_path (rbytes (node ! 0))) (\<lambda>(segment, is_leaf).
         if take (length segment) remaining \<noteq> segment
         then fails ''trie node path does not match transaction index''
         else let remaining = drop (length segment) remaining in
           if is_leaf then
             if remaining \<noteq> [] \<or> \<not> is_rbytes (node ! 1) \<or> cursor \<noteq> length proof_nodes
             then fails ''invalid leaf value, path remainder, or unused proof nodes''
             else Inr (rbytes (node ! 1))
           else
             let expected_ref = child_ref L (node ! 1) in
             if expected_ref = [] then fails ''extension node has an empty child reference''
             else trie_loop L proof_nodes steps_left remaining expected_ref cursor)))"

definition verify_indexed_trie_proof ::
    "eth_lib \<Rightarrow> bytes \<Rightarrow> int \<Rightarrow> bytes list \<Rightarrow> incl_error + bytes" where
  "verify_indexed_trie_proof L trie_root transaction_index proof_nodes =
     (if length trie_root \<noteq> 32 \<or> transaction_index < 0 \<or> proof_nodes = []
      then fails ''invalid trie root, index, or empty proof''
      else trie_loop L proof_nodes 128
             (nibbles (rlp_encode_int L (nat transaction_index))) trie_root 0)"


section \<open>Canonical integers and paths\<close>

lemma rlp_int_Inr_iff: "rlp_int v label = Inr n \<longleftrightarrow> v = nat_be n"
proof -
  have "rlp_int v label = Inr n \<longleftrightarrow> minimal_be v \<and> n = be_nat v"
    by (auto simp: rlp_int_def minimal_be_def)
  also have "\<dots> \<longleftrightarrow> v = nat_be n"
    using nat_be_be_nat [of v] minimal_nat_be [of n] by auto
  finally show ?thesis .
qed

text \<open>The hex-prefix encoding of a nibble path, from the published trie specification.\<close>

fun pack_nibbles :: "nat list \<Rightarrow> bytes" where
  "pack_nibbles (a # b # ns) = of_nat (a * 16 + b) # pack_nibbles ns"
| "pack_nibbles _ = []"

definition hp_encode :: "nat list \<Rightarrow> bool \<Rightarrow> bytes" where
  "hp_encode ns leaf =
     (let flag = if leaf then 2 else 0 in
      pack_nibbles (if odd (length ns) then (flag + 1) # ns else flag # 0 # ns))"

lemma nibbles_Cons: "nibbles (b # bs) = unat b div 16 # unat b mod 16 # nibbles bs"
  by (simp add: nibbles_def)

lemma nibbles_Nil [simp]: "nibbles [] = []"
  by (simp add: nibbles_def)

lemma nibbles_eq_Nil [simp]: "nibbles bs = [] \<longleftrightarrow> bs = []"
  by (cases bs) (simp_all add: nibbles_Cons)

lemma length_nibbles [simp]: "length (nibbles bs) = 2 * length bs"
  by (induction bs) (simp_all add: nibbles_Cons)

lemma nibbles_bound: "list_all (\<lambda>n. n < 16) (nibbles bs)"
proof (induction bs)
  case Nil
  then show ?case by simp
next
  case (Cons b bs)
  have "unat b div 16 < 16" using unat_byte_less [of b] by auto
  with Cons show ?case by (simp add: nibbles_Cons)
qed

lemma pack_nibbles_inverse [simp]: "pack_nibbles (nibbles bs) = bs"
  by (induction bs) (simp_all add: nibbles_Cons)

lemma nibbles_pack:
  "even (length ns) \<Longrightarrow> list_all (\<lambda>n. n < 16) ns \<Longrightarrow> nibbles (pack_nibbles ns) = ns"
proof (induction ns rule: pack_nibbles.induct)
  case (1 a b ns)
  then have "a * 16 + b < 256" by simp
  then have "unat (of_nat (a * 16 + b) :: byte) = a * 16 + b"
    by (simp only: unat_of_nat_byte mod_less)
  moreover have "b < 16" using 1 by simp
  ultimately show ?case using 1 by (simp add: nibbles_Cons)
qed simp_all

lemma nibbles_eq_iff:
  "nibbles raw = ns \<longleftrightarrow> even (length ns) \<and> list_all (\<lambda>n. n < 16) ns \<and> raw = pack_nibbles ns"
  using nibbles_pack nibbles_bound by auto

lemma hp_nibbles:
  assumes "list_all (\<lambda>n. n < 16) ns"
  shows "nibbles (hp_encode ns leaf) =
    (let flag = if leaf then 2 else 0 in
     if odd (length ns) then (flag + 1) # ns else flag # 0 # ns)"
  using assms by (simp add: hp_encode_def Let_def nibbles_pack)

lemma compact_path_hp_encode:
  assumes "list_all (\<lambda>n. n < 16) ns"
  shows "compact_path (hp_encode ns leaf) = Inr (ns, leaf)"
  by (simp add: compact_path_def hp_nibbles [OF assms] Let_def)

lemma compact_path_sound:
  assumes "compact_path raw = Inr (ns, leaf)"
  shows "list_all (\<lambda>n. n < 16) ns \<and> raw = hp_encode ns leaf"
proof -
  from assms obtain x xs where xs: "nibbles raw = x # xs" and x: "x \<in> {0, 1, 2, 3}"
    by (cases "nibbles raw") (auto simp: compact_path_def Let_def split: if_splits)
  have bound: "list_all (\<lambda>n. n < 16) xs" and len: "odd (length xs)"
    and raw: "raw = pack_nibbles (x # xs)"
    using nibbles_eq_iff [of raw "x # xs"] xs by simp_all
  show ?thesis
  proof (cases "x mod 2 = 1")
    case True
    then have "ns = xs" "leaf = (2 \<le> x)"
      using assms xs x by (auto simp: compact_path_def Let_def)
    then show ?thesis using True x bound len by (auto simp: raw hp_encode_def Let_def)
  next
    case False
    then obtain ys where "xs = 0 # ys" "ns = ys" "leaf = (2 \<le> x)"
      using assms xs x
      by (cases xs) (auto simp: compact_path_def Let_def split: if_splits)
    then show ?thesis using False x bound len by (auto simp: raw hp_encode_def Let_def)
  qed
qed

lemma compact_path_Inr_iff:
  "compact_path raw = Inr (ns, leaf) \<longleftrightarrow>
     list_all (\<lambda>n. n < 16) ns \<and> raw = hp_encode ns leaf"
  using compact_path_sound compact_path_hp_encode by blast


end
