(* ===== verification/Trie_Proofs.thy ===== *)
theory Trie_Proofs
  imports Receipt_Inclusion
begin

text \<open>
  What \<^verbatim>\<open>verify_indexed_trie_proof\<close> establishes: a declarative reading of the node path that the
  executable loop implements exactly, and the binding of a root and an index to one value.
\<close>

section \<open>What a trie proof establishes\<close>

text \<open>
  The declarative reading of a proof: \<open>trie_path L d ks ref nodes v\<close> holds when \<open>d\<close> nodes, the first
  named by \<open>ref\<close>, lead along the nibbles \<open>ks\<close> to the value \<open>v\<close> and use up the list \<open>nodes\<close>.
\<close>

inductive node_at :: "eth_lib \<Rightarrow> bytes \<Rightarrow> bytes list \<Rightarrow> rlp list \<Rightarrow> bytes list \<Rightarrow> bool"
  for L :: eth_lib where
  hashed: "length ref = 32 \<Longrightarrow> keccak L raw = ref \<Longrightarrow>
     rlp_decode L raw = Some (RList node) \<Longrightarrow> rlp_encode L (RList node) = raw \<Longrightarrow>
     node_at L ref (raw # rest) node rest"
| inlined: "length ref < 32 \<Longrightarrow> take 1 nodes \<noteq> [ref] \<Longrightarrow>
     rlp_decode L ref = Some (RList node) \<Longrightarrow> rlp_encode L (RList node) = ref \<Longrightarrow>
     node_at L ref nodes node nodes"
| repeated: "length ref < 32 \<Longrightarrow>
     rlp_decode L ref = Some (RList node) \<Longrightarrow> rlp_encode L (RList node) = ref \<Longrightarrow>
     node_at L ref (ref # rest) node rest"

inductive trie_path ::
    "eth_lib \<Rightarrow> nat \<Rightarrow> nat list \<Rightarrow> bytes \<Rightarrow> bytes list \<Rightarrow> bytes \<Rightarrow> bool"
  for L :: eth_lib where
  branch_value: "node_at L ref nodes node [] \<Longrightarrow> length node = 17 \<Longrightarrow> node ! 16 = RBytes v \<Longrightarrow>
     trie_path L (Suc d) [] ref nodes v"
| branch_child: "node_at L ref nodes node rest \<Longrightarrow> length node = 17 \<Longrightarrow>
     ref' = child_ref L (node ! k) \<Longrightarrow> ref' \<noteq> [] \<Longrightarrow>
     trie_path L d ks ref' rest v \<Longrightarrow> trie_path L (Suc d) (k # ks) ref nodes v"
| leaf: "node_at L ref nodes [RBytes (hp_encode ks True), RBytes v] [] \<Longrightarrow>
     list_all (\<lambda>n. n < 16) ks \<Longrightarrow> trie_path L (Suc d) ks ref nodes v"
| extension: "node_at L ref nodes [RBytes (hp_encode seg False), child] rest \<Longrightarrow>
     list_all (\<lambda>n. n < 16) seg \<Longrightarrow> ref' = child_ref L child \<Longrightarrow> ref' \<noteq> [] \<Longrightarrow>
     trie_path L d ks ref' rest v \<Longrightarrow> trie_path L (Suc d) (seg @ ks) ref nodes v"

inductive_cases trie_path_ZeroE: "trie_path L 0 ks ref nodes v"
inductive_cases trie_path_SucE: "trie_path L (Suc d) ks ref nodes v"
inductive_simps node_at_iff: "node_at L ref nodes node rest"

definition read_node ::
    "eth_lib \<Rightarrow> bytes list \<Rightarrow> bytes \<Rightarrow> nat \<Rightarrow> incl_error + (rlp list \<times> nat)" where
  "read_node L proof_nodes ref cursor =
     bindE (fetch_node L proof_nodes ref cursor) (\<lambda>(raw, cursor).
     bindE (parse_node L raw) (\<lambda>node. Inr (node, cursor)))"

lemma parse_node_Inr_iff:
  "parse_node L raw = Inr node \<longleftrightarrow>
     rlp_decode L raw = Some (RList node) \<and> rlp_encode L (RList node) = raw"
proof (cases "rlp_decode L raw")
  case None
  then show ?thesis by (simp add: parse_node_def)
next
  case (Some n)
  then show ?thesis by (cases n) (auto simp: parse_node_def)
qed

lemma drop_eq_iff:
  "c \<le> length xs \<Longrightarrow> c' \<le> length xs \<Longrightarrow> drop c xs = drop c' xs \<longleftrightarrow> c = c'"
  by (metis length_drop diff_diff_cancel)

lemma drop_eq_Cons_iff:
  "c' \<le> length xs \<Longrightarrow>
     drop c xs = x # drop c' xs \<longleftrightarrow> c < length xs \<and> x = xs ! c \<and> c' = Suc c"
proof -
  assume le: "c' \<le> length xs"
  show ?thesis
  proof (cases "c < length xs")
    case True
    then have "drop c xs = xs ! c # drop (Suc c) xs" by (simp add: Cons_nth_drop_Suc)
    with True le show ?thesis by (auto simp: drop_eq_iff)
  next
    case False
    then show ?thesis by simp
  qed
qed

lemma read_node_iff:
  assumes "c \<le> length P"
  shows "read_node L P ref c = Inr (node, c') \<longleftrightarrow>
    c' \<le> length P \<and> node_at L ref (drop c P) node (drop c' P)"
proof -
  have here: "take 1 (drop c P) = [ref] \<longleftrightarrow> c < length P \<and> P ! c = ref"
    by (cases "c < length P") (auto simp: take_Suc_conv_app_nth take_Suc hd_drop_conv_nth)
  show ?thesis
    using assms here
    by (auto simp: read_node_def bindE_Inr_iff fetch_node_def parse_node_Inr_iff node_at_iff Let_def
        drop_eq_iff drop_eq_Cons_iff split: if_splits)
qed

lemma node_at_raw:
  "node_at L ref nodes node rest \<Longrightarrow>
     \<exists>raw. rlp_decode L raw = Some (RList node) \<and>
       (if length ref = 32 then keccak L raw = ref else raw = ref)"
  by (cases rule: node_at.cases) auto

lemma node_at_det:
  assumes "node_at L ref nodes node rest" and "node_at L ref nodes' node' rest'"
  shows "node = node' \<or> (\<exists>a b. a \<noteq> b \<and> keccak L a = keccak L b)"
proof -
  obtain raw where r: "rlp_decode L raw = Some (RList node)"
    "if length ref = 32 then keccak L raw = ref else raw = ref"
    using node_at_raw [OF assms(1)] by blast
  obtain raw' where r': "rlp_decode L raw' = Some (RList node')"
    "if length ref = 32 then keccak L raw' = ref else raw' = ref"
    using node_at_raw [OF assms(2)] by blast
  show ?thesis
  proof (cases "raw = raw'")
    case True
    with r r' show ?thesis by simp
  next
    case False
    with r r' have "keccak L raw = keccak L raw'" by (simp split: if_splits)
    with False show ?thesis by blast
  qed
qed

lemma trie_loop_Suc:
  "trie_loop L P (Suc n) ks ref c =
     bindE (read_node L P ref c) (\<lambda>(node, c).
       if length node = 17 then
         if ks = [] then
           if \<not> is_rbytes (node ! 16) \<or> c \<noteq> length P
           then fails ''invalid branch value or unused proof nodes''
           else Inr (rbytes (node ! 16))
         else
           let r = child_ref L (node ! hd ks) in
           if r = [] then fails ''receipt path terminates at an empty trie branch''
           else trie_loop L P n (tl ks) r c
       else if length node \<noteq> 2 \<or> \<not> is_rbytes (node ! 0)
       then fails ''trie node must be a branch or compact-path pair''
       else bindE (compact_path (rbytes (node ! 0))) (\<lambda>(segment, is_leaf).
         if take (length segment) ks \<noteq> segment
         then fails ''trie node path does not match transaction index''
         else if is_leaf then
             if drop (length segment) ks \<noteq> [] \<or> \<not> is_rbytes (node ! 1) \<or> c \<noteq> length P
             then fails ''invalid leaf value, path remainder, or unused proof nodes''
             else Inr (rbytes (node ! 1))
           else
             let r = child_ref L (node ! 1) in
             if r = [] then fails ''extension node has an empty child reference''
             else trie_loop L P n (drop (length segment) ks) r c))"
  by (simp only: read_node_def trie_loop.simps bindE_assoc case_prod_unfold bindE_simps Let_def
      fst_conv snd_conv)

declare trie_loop.simps(2) [simp del]

lemma is_rbytes_iff: "is_rbytes x \<longleftrightarrow> (\<exists>b. x = RBytes b)"
  by (cases x) simp_all

lemma length_two_iff: "length xs = 2 \<longleftrightarrow> (\<exists>a b. xs = [a, b])"
  by (auto simp: length_Suc_conv numeral_2_eq_2)

lemma take_segment_iff: "take (length seg) ks = seg \<longleftrightarrow> (\<exists>r. ks = seg @ r)"
  by (metis append_eq_conv_conj append_take_drop_id)

lemma trie_loop_sound:
  "c \<le> length P \<Longrightarrow> trie_loop L P n ks ref c = Inr v \<Longrightarrow>
     \<exists>d \<le> n. trie_path L d ks ref (drop c P) v"
proof (induction n arbitrary: ks ref c)
  case 0
  then show ?case by simp
next
  case (Suc n)
  from Suc.prems obtain node c' where rd: "read_node L P ref c = Inr (node, c')"
    by (auto simp: trie_loop_Suc bindE_Inr_iff)
  then have c': "c' \<le> length P" and at: "node_at L ref (drop c P) node (drop c' P)"
    using read_node_iff [OF Suc.prems(1)] by auto
  note run = Suc.prems(2) [unfolded trie_loop_Suc rd bindE_simps prod.case]
  consider (val) "length node = 17" "ks = []"
    | (child) k ks' where "length node = 17" "ks = k # ks'"
    | (pair) "length node \<noteq> 17" by (cases ks) auto
  then show ?case
  proof cases
    case val
    with run obtain w where "node ! 16 = RBytes w" "c' = length P" "v = w"
      by (auto simp: is_rbytes_iff split: if_splits)
    with at val have "trie_path L (Suc n) ks ref (drop c P) v"
      by (auto intro: trie_path.branch_value)
    then show ?thesis by blast
  next
    case child
    then have "child_ref L (node ! k) \<noteq> []"
      and "trie_loop L P n ks' (child_ref L (node ! k)) c' = Inr v"
      using run by (auto simp: Let_def split: if_splits)
    then obtain d where "d \<le> n" and
      "trie_path L d ks' (child_ref L (node ! k)) (drop c' P) v"
      using Suc.IH [OF c'] by blast
    then have "trie_path L (Suc d) ks ref (drop c P) v"
      using trie_path.branch_child [OF at child(1) refl] child(2)
        \<open>child_ref L (node ! k) \<noteq> []\<close> by simp
    with \<open>d \<le> n\<close> show ?thesis by (intro exI [of _ "Suc d"]) simp
  next
    case pair
    with run obtain hp x where node: "node = [RBytes hp, x]"
      by (auto simp: is_rbytes_iff length_two_iff split: if_splits)
    with run pair obtain seg lf where cp: "compact_path hp = Inr (seg, lf)"
      by (auto simp: bindE_Inr_iff)
    then have hp: "hp = hp_encode seg lf" and seg: "list_all (\<lambda>n. n < 16) seg"
      by (auto simp: compact_path_Inr_iff)
    note run = run [unfolded node list.size, simplified, unfolded cp bindE_simps prod.case]
    from run obtain ks' where ks: "ks = seg @ ks'"
      using take_segment_iff [of seg ks] by (auto split: if_splits)
    show ?thesis
    proof (cases lf)
      case True
      with run ks obtain w where "x = RBytes w" "v = w" "ks = seg" "c' = length P"
        by (auto simp: is_rbytes_iff split: if_splits)
      with at node hp seg True have "trie_path L (Suc n) ks ref (drop c P) v"
        by (auto intro: trie_path.leaf)
      then show ?thesis by blast
    next
      case False
      then have "child_ref L x \<noteq> []" and "trie_loop L P n ks' (child_ref L x) c' = Inr v"
        using run ks by (auto simp: Let_def split: if_splits)
      then obtain d where "d \<le> n" and "trie_path L d ks' (child_ref L x) (drop c' P) v"
        using Suc.IH [OF c'] by blast
      then have "trie_path L (Suc d) (seg @ ks') ref (drop c P) v"
        using trie_path.extension [of L ref "drop c P" seg x "drop c' P" "child_ref L x" d ks' v]
          at seg \<open>child_ref L x \<noteq> []\<close> False by (simp add: node hp)
      with \<open>d \<le> n\<close> ks show ?thesis by (intro exI [of _ "Suc d"]) simp
    qed
  qed
qed


lemma read_nodeI:
  assumes "node_at L ref (drop c P) node rest" and "c \<le> length P"
  shows "\<exists>c' \<le> length P. rest = drop c' P \<and> read_node L P ref c = Inr (node, c')"
proof -
  have "rest = drop c P \<or> (\<exists>x. drop c P = x # rest)"
    using assms(1) by (cases rule: node_at.cases) auto
  then have "\<exists>c' \<le> length P. rest = drop c' P"
  proof
    assume "rest = drop c P"
    with assms(2) show ?thesis by blast
  next
    assume "\<exists>x. drop c P = x # rest"
    then have "c < length P" "rest = drop (Suc c) P"
      by (metis drop_eq_Nil linorder_not_le list.distinct(1)) (metis \<open>\<exists>x. drop c P = x # rest\<close> drop_Suc list.sel(3) tl_drop)
    then show ?thesis by (intro exI [of _ "Suc c"]) simp
  qed
  with assms show ?thesis by (auto simp: read_node_iff)
qed

lemma trie_loop_complete:
  "trie_path L d ks ref nodes v \<Longrightarrow> nodes = drop c P \<Longrightarrow> c \<le> length P \<Longrightarrow> d \<le> n \<Longrightarrow>
     trie_loop L P n ks ref c = Inr v"
proof (induction arbitrary: c n rule: trie_path.induct)
  case (branch_value ref nodes node v d)
  then obtain m where n: "n = Suc m" by (cases n) auto
  have "read_node L P ref c = Inr (node, length P)"
    using branch_value read_node_iff [of c P L ref node "length P"] by simp
  then show ?case using branch_value by (simp add: n trie_loop_Suc)
next
  case (branch_child ref nodes node rest ref' k d ks v)
  then obtain m where n: "n = Suc m" by (cases n) auto
  obtain c' where "c' \<le> length P" "rest = drop c' P" "read_node L P ref c = Inr (node, c')"
    using read_nodeI branch_child.hyps(1) branch_child.prems by blast
  then show ?case using branch_child n by (simp add: trie_loop_Suc)
next
  case (leaf ref nodes ks v d)
  then obtain m where n: "n = Suc m" by (cases n) auto
  have "read_node L P ref c = Inr ([RBytes (hp_encode ks True), RBytes v], length P)"
    using leaf read_node_iff [of c P L ref _ "length P"] by simp
  then show ?case using leaf by (simp add: n trie_loop_Suc compact_path_hp_encode)
next
  case (extension ref nodes seg child rest ref' d ks v)
  then obtain m where n: "n = Suc m" by (cases n) auto
  obtain c' where "c' \<le> length P" "rest = drop c' P"
    "read_node L P ref c = Inr ([RBytes (hp_encode seg False), child], c')"
    using read_nodeI extension.hyps(1) extension.prems by blast
  then show ?case using extension n by (simp add: trie_loop_Suc compact_path_hp_encode)
qed

lemma trie_loop_iff:
  "trie_loop L P n ks ref 0 = Inr v \<longleftrightarrow> (\<exists>d. d \<le> n \<and> trie_path L d ks ref P v)"
  using trie_loop_sound [of 0 P] trie_loop_complete [of L _ ks ref P v 0 P n] by auto

definition keccak_collision :: "eth_lib \<Rightarrow> bool" where
  "keccak_collision L \<longleftrightarrow> (\<exists>a b. a \<noteq> b \<and> keccak L a = keccak L b)"

lemma read_node_det:
  assumes "read_node L P ref c = Inr (node, c1)" and "read_node L P' ref c' = Inr (node', c1')"
    and "\<not> keccak_collision L"
  shows "node = node'"
proof -
  have raw: "\<exists>raw. parse_node L raw = Inr n \<and> (if length ref = 32 then keccak L raw = ref else raw = ref)"
    if "read_node L Q ref i = Inr (n, j)" for Q i n j
    using that by (auto simp: read_node_def bindE_Inr_iff fetch_node_def Let_def split: if_splits)
  from raw [OF assms(1)] raw [OF assms(2)] assms(3) show ?thesis
    unfolding keccak_collision_def by (metis Inr_inject)
qed

lemma trie_loop_binding:
  assumes "\<not> keccak_collision L"
  shows "trie_loop L P n ks ref c = Inr v \<Longrightarrow> trie_loop L P' n ks ref c' = Inr v' \<Longrightarrow> v = v'"
proof (induction n arbitrary: ks ref c c')
  case 0
  then show ?case by simp
next
  case (Suc n)
  from Suc.prems obtain node c1 node' c1' where
    rd: "read_node L P ref c = Inr (node, c1)" "read_node L P' ref c' = Inr (node', c1')"
    by (auto simp: trie_loop_Suc bindE_Inr_iff)
  then have same: "node' = node" using read_node_det assms by metis
  note runs = Suc.prems [unfolded trie_loop_Suc rd same bindE_simps prod.case]
  show ?case
  proof (cases "length node = 17")
    case True
    with runs show ?thesis by (auto simp: Let_def split: if_splits intro: Suc.IH)
  next
    case False
    with runs have "length node = 2" "is_rbytes (node ! 0)" by (auto split: if_splits)
    with False runs obtain seg lf where "compact_path (rbytes (node ! 0)) = Inr (seg, lf)"
      by (auto simp: bindE_Inr_iff)
    with runs \<open>length node = 2\<close> \<open>is_rbytes (node ! 0)\<close> show ?thesis
      by (auto simp: Let_def split: if_splits intro: Suc.IH)
  qed
qed

end
