(* ===== verification/Receipt_Case.thy ===== *)
theory Receipt_Case
  imports Trie_Proofs
begin

text \<open>
  The remainder of \<^verbatim>\<open>scripts/forensic/ethereum_receipt_inclusion.py\<close>: the consensus encoding of a
  JSON-RPC receipt with its bloom filter, sender recovery of a signed transaction, the identity of a
  block header, and \<^verbatim>\<open>verify_case\<close>, which ties them to a trusted header.
\<close>

unbundle bit_operations_syntax

section \<open>Bloom filter\<close>

definition bloom_bit :: "bytes \<Rightarrow> nat \<Rightarrow> nat" where
  "bloom_bit digest offset = be_nat (take 2 (drop offset digest)) mod 2048"

definition set_bloom_bit :: "bytes \<Rightarrow> nat \<Rightarrow> bytes" where
  "set_bloom_bit bloom b =
     (let i = 255 - b div 8 in bloom[i := (bloom ! i) OR push_bit (b mod 8) 1])"

definition add_bloom_value :: "eth_lib \<Rightarrow> bytes \<Rightarrow> bytes \<Rightarrow> bytes" where
  "add_bloom_value L bloom value =
     (let digest = keccak L value in
      foldl (\<lambda>bl offset. set_bloom_bit bl (bloom_bit digest offset)) bloom [0, 2, 4])"

definition log_values :: "obj \<Rightarrow> incl_error + bytes list" where
  "log_values log =
     bindE (hex_bytes (py_get log ''address'') ''log address'' (Some 20)) (\<lambda>address.
       if \<not> is_list (py_get log ''topics'') then fails ''log topics must be an array''
       else bindE (mapE (\<lambda>topic. hex_bytes topic ''log topic'' (Some 32))
                     (list_of (py_get log ''topics''))) (\<lambda>topics. Inr (address # topics)))"

definition logs_bloom :: "eth_lib \<Rightarrow> obj list \<Rightarrow> incl_error + bytes" where
  "logs_bloom L logs =
     foldE (\<lambda>bloom log. bindE (log_values log) (\<lambda>values.
              Inr (foldl (add_bloom_value L) bloom values)))
       (replicate 256 0) logs"

section \<open>Receipts\<close>

definition encode_log :: "pv \<Rightarrow> incl_error + rlp" where
  "encode_log log =
     (if \<not> is_dict log then fails ''receipt log must be an object''
      else
        bindE (hex_bytes (py_get (dict_of log) ''address'') ''log address'' (Some 20)) (\<lambda>address.
        if \<not> is_list (py_get (dict_of log) ''topics'') then fails ''log topics must be an array''
        else bindE (mapE (\<lambda>topic. hex_bytes topic ''log topic'' (Some 32))
                      (list_of (py_get (dict_of log) ''topics''))) (\<lambda>topic_bytes.
        bindE (hex_bytes (py_get (dict_of log) ''data'') ''log data'' None) (\<lambda>data.
        Inr (RList [RBytes address, RList (map RBytes topic_bytes), RBytes data])))))"

definition receipt_state :: "obj \<Rightarrow> incl_error + bytes" where
  "receipt_state receipt =
     (if py_get receipt ''status'' \<noteq> PNone then
        bindE (quantity (py_get receipt ''status'') ''receipt status'') (\<lambda>status.
        if status \<notin> {0, 1} then fails ''receipt status must be zero or one''
        else Inr (nat_be status))
      else if py_get receipt ''root'' \<noteq> PNone then
        hex_bytes (py_get receipt ''root'') ''pre-Byzantium receipt root'' (Some 32)
      else fails ''receipt must contain status or pre-Byzantium root'')"

definition encode_rpc_receipt :: "eth_lib \<Rightarrow> pv \<Rightarrow> incl_error + (bytes \<times> nat)" where
  "encode_rpc_receipt L receipt0 =
     (if \<not> is_dict receipt0 then fails ''receipt must be an object''
      else let receipt = dict_of receipt0 in
        bindE (quantity (get_or receipt ''type'' (PStr ''0x0'')) ''receipt type'') (\<lambda>receipt_type.
        if 127 < receipt_type then fails ''typed receipt type must fit in one EIP-2718 byte''
        else
        let prefix = (if receipt_type = 0 then [] else [of_nat receipt_type]) in
        bindE (receipt_state receipt) (\<lambda>state.
        bindE (quantity (py_get receipt ''cumulativeGasUsed'') ''cumulativeGasUsed'') (\<lambda>gas.
        bindE (hex_bytes (py_get receipt ''logsBloom'') ''logsBloom'' (Some 256)) (\<lambda>bloom.
        if \<not> is_list (py_get receipt ''logs'') then fails ''receipt logs must be an array''
        else
        let logs = list_of (py_get receipt ''logs'') in
        bindE (mapE encode_log logs) (\<lambda>encoded_logs.
        bindE (logs_bloom L (map dict_of logs)) (\<lambda>expected.
        if expected \<noteq> bloom then fails ''logsBloom does not match the receipt logs''
        else Inr (prefix @ rlp_encode L
                    (RList [RBytes state, RBytes (nat_be gas), RBytes bloom, RList encoded_logs]),
                  receipt_type))))))))"

section \<open>Signed transactions\<close>

definition access_entry_ok :: "rlp \<Rightarrow> bool" where
  "access_entry_ok e \<longleftrightarrow>
     (case e of
        RList [RBytes a, RList slots] \<Rightarrow>
          length a = 20 \<and> list_all (\<lambda>s. is_rbytes s \<and> length (rbytes s) = 32) slots
      | _ \<Rightarrow> False)"

record tx_sig =
  tx_chain_id :: nat
  tx_parity :: nat
  tx_r :: nat
  tx_s :: nat
  tx_payload :: bytes

definition parse_eip1559 :: "eth_lib \<Rightarrow> rlp list \<Rightarrow> incl_error + tx_sig" where
  "parse_eip1559 L p =
     (if length p \<noteq> 12 \<or> \<not> list_all is_rbytes (take 8 p) \<or> is_rbytes (p ! 8)
         \<or> \<not> list_all is_rbytes (drop 9 p)
      then fails ''EIP-1559 transaction fields are malformed''
      else
        bindE (rlp_int (rbytes (p ! 0)) ''transaction chain ID'') (\<lambda>chain_id.
        bindE (rlp_int (rbytes (p ! 1)) ''transaction nonce'') (\<lambda>nonce.
        bindE (rlp_int (rbytes (p ! 2)) ''transaction priority fee'') (\<lambda>priority_fee.
        bindE (rlp_int (rbytes (p ! 3)) ''transaction maximum fee'') (\<lambda>max_fee.
        bindE (rlp_int (rbytes (p ! 4)) ''transaction gas limit'') (\<lambda>gas_limit.
        bindE (rlp_int (rbytes (p ! 6)) ''transaction value'') (\<lambda>value.
        if chain_id < 1 \<or> max_fee < priority_fee
        then fails ''EIP-1559 transaction numeric fields are invalid''
        else if length (rbytes (p ! 5)) \<notin> {0, 20}
        then fails ''EIP-1559 transaction destination must be empty or 20 bytes''
        else if \<not> list_all access_entry_ok (rlist (p ! 8))
        then fails ''EIP-1559 access-list entry is malformed''
        else
        bindE (rlp_int (rbytes (p ! 9)) ''transaction y parity'') (\<lambda>parity.
        bindE (rlp_int (rbytes (p ! 10)) ''transaction signature r'') (\<lambda>r_value.
        bindE (rlp_int (rbytes (p ! 11)) ''transaction signature s'') (\<lambda>s_value.
        Inr \<lparr>tx_chain_id = chain_id, tx_parity = parity, tx_r = r_value, tx_s = s_value,
             tx_payload = 2 # rlp_encode L (RList (take 9 p))\<rparr>))))))))))"

definition parse_legacy :: "eth_lib \<Rightarrow> rlp list \<Rightarrow> incl_error + tx_sig" where
  "parse_legacy L p =
     (if length p \<noteq> 9 \<or> \<not> list_all is_rbytes p
      then fails ''legacy transaction must have 9 byte-string fields''
      else
        bindE (mapE (\<lambda>(i, label). rlp_int (rbytes (p ! i)) (''legacy transaction '' @ label))
          [(0, ''nonce''), (1, ''gas price''), (2, ''gas limit''), (4, ''value'')]) (\<lambda>_.
        if length (rbytes (p ! 3)) \<notin> {0, 20}
        then fails ''legacy transaction destination must be empty or 20 bytes''
        else
        bindE (rlp_int (rbytes (p ! 6)) ''legacy transaction v'') (\<lambda>v.
        if v < 35 then fails ''unprotected legacy transactions are not accepted''
        else
        let chain_id = (v - 35) div 2; parity = (v - 35) mod 2 in
        bindE (rlp_int (rbytes (p ! 7)) ''transaction signature r'') (\<lambda>r_value.
        bindE (rlp_int (rbytes (p ! 8)) ''transaction signature s'') (\<lambda>s_value.
        Inr \<lparr>tx_chain_id = chain_id, tx_parity = parity, tx_r = r_value, tx_s = s_value,
             tx_payload = rlp_encode L (RList (take 6 p @
               [RBytes (nat_be chain_id), RBytes [], RBytes []]))\<rparr>)))))"

definition recover_transaction :: "eth_lib \<Rightarrow> bytes \<Rightarrow> nat \<Rightarrow> incl_error + (string \<times> nat)" where
  "recover_transaction L raw expected_chain_id =
     (if raw = [] then fails ''signed transaction bytes are empty''
      else if unat (hd raw) < 128 \<and> hd raw \<noteq> 2
      then fails (''unsupported typed transaction type: '' @ nat_str (unat (hd raw)))
      else
        let tx_type = (if unat (hd raw) < 128 then unat (hd raw) else 0);
            payload_raw = (if unat (hd raw) < 128 then tl raw else raw) in
        case rlp_decode L payload_raw of
          None \<Rightarrow> fails ''malformed signed transaction RLP''
        | Some payload \<Rightarrow>
            if is_rbytes payload \<or> rlp_encode L payload \<noteq> payload_raw
            then fails ''signed transaction must be a canonical RLP list''
            else
            bindE (if tx_type = 2 then parse_eip1559 L (rlist payload)
                   else parse_legacy L (rlist payload)) (\<lambda>sg.
            if tx_chain_id sg \<noteq> expected_chain_id
            then fails ''signed transaction chain ID differs from trusted context''
            else if tx_parity sg \<notin> {0, 1} \<or>
                    \<not> (0 < tx_r sg \<and> tx_r sg < secpk1_n L \<and>
                       0 < tx_s sg \<and> tx_s sg \<le> secpk1_n L div 2)
            then fails ''transaction signature values are outside secp256k1 range''
            else case recover L (tx_parity sg) (tx_r sg) (tx_s sg) (keccak L (tx_payload sg)) of
              None \<Rightarrow> fails ''transaction sender recovery failed''
            | Some addr \<Rightarrow> Inr (addr, tx_type)))"

section \<open>Headers\<close>

record header_id =
  hdr_hash :: bytes
  hdr_number :: nat
  hdr_parent :: bytes
  hdr_txs_root :: bytes
  hdr_receipts_root :: bytes

definition header_identity :: "eth_lib \<Rightarrow> bytes \<Rightarrow> incl_error + header_id" where
  "header_identity L header_raw =
     (case rlp_decode L header_raw of
        None \<Rightarrow> fails ''malformed block header RLP''
      | Some node \<Rightarrow>
          if is_rbytes node \<or> rlp_encode L node \<noteq> header_raw \<or> length (rlist node) < 15
          then fails ''block header is not canonical or lacks required fields''
          else if \<not> list_all is_rbytes (rlist node)
          then fails ''block header has malformed fixed fields''
          else
          let f = (\<lambda>i. rbytes (rlist node ! i)) in
          if length (f 0) \<noteq> 32 \<or> length (f 1) \<noteq> 32 \<or> length (f 2) \<noteq> 20
             \<or> length (f 3) \<noteq> 32 \<or> length (f 4) \<noteq> 32 \<or> length (f 5) \<noteq> 32
             \<or> length (f 6) \<noteq> 256 \<or> 32 < length (f 12)
             \<or> length (f 13) \<noteq> 32 \<or> length (f 14) \<noteq> 8
          then fails ''block header fixed-width fields are malformed''
          else
          bindE (rlp_int (f 9) ''header gas limit'') (\<lambda>gas_limit.
          bindE (rlp_int (f 10) ''header gas used'') (\<lambda>gas_used.
          if gas_limit < gas_used then fails ''header gas used exceeds gas limit''
          else if \<not> list_all (\<lambda>i. f i = [] \<or> hd (f i) \<noteq> 0) [7, 8, 9, 10, 11]
          then fails ''block header numeric fields are not canonical''
          else bindE (rlp_int (f 8) ''header number'') (\<lambda>number.
          Inr \<lparr>hdr_hash = keccak L header_raw, hdr_number = number, hdr_parent = f 0,
               hdr_txs_root = f 4, hdr_receipts_root = f 5\<rparr>))))"

section \<open>The case verifier\<close>

definition case_fields :: "string list" where
  "case_fields = [''schema'', ''receipt'', ''transactionRaw'', ''transactionIndex'',
     ''transactionProof'', ''receiptProof'', ''blockHeaderRlp'', ''headerAncestry'',
     ''expectedSender'']"

definition trust_fields :: "string list" where
  "trust_fields = [''schema'', ''network'', ''chainFamily'', ''chainId'', ''anchorHeaderHash'',
     ''anchorHeaderNumber'', ''sourceId'', ''sourceRevision'', ''observedAt'', ''validUntil'',
     ''finalityStatus'']"

definition is_text :: "pv \<Rightarrow> bool" where
  "is_text v \<longleftrightarrow> is_str v \<and> str_of v \<noteq> []"

definition check_trust ::
    "eth_lib \<Rightarrow> bytes \<Rightarrow> string \<Rightarrow> int \<Rightarrow> incl_error + obj" where
  "check_trust L trust_context_bytes expected_sha256 now =
     (if 64 * 1024 < length trust_context_bytes then fails ''trusted context exceeds size limit''
      else if expected_sha256 \<noteq> sha256_hex L trust_context_bytes
      then fails ''trusted context digest does not match independent pin''
      else bindE (json_no_duplicates L trust_context_bytes ''trusted context'') (\<lambda>trust0.
      let trust = dict_of trust0 in
      if \<not> is_dict trust0 \<or> \<not> keys_are trust trust_fields
         \<or> py_get trust ''schema'' \<noteq> PStr ''prf-ethereum-header-trust-context.v2''
      then fails ''trusted context schema or fields are invalid''
      else if py_get trust ''chainFamily'' \<notin> {PStr ''ethereum-l1'', PStr ''op-stack-l2''}
      then fails ''unsupported chain family''
      else if \<not> is_int (py_get trust ''chainId'') \<or> int_of (py_get trust ''chainId'') < 1
      then fails ''trusted chain ID is invalid''
      else if \<not> list_all (\<lambda>k. is_text (py_get trust k)) [''network'', ''sourceId'', ''sourceRevision'']
      then fails ''trusted network or source identity is missing''
      else if \<not> list_all (\<lambda>k. is_int (py_get trust k))
                 [''anchorHeaderNumber'', ''observedAt'', ''validUntil'']
      then fails ''trusted header time or height is invalid''
      else
      let observed = int_of (py_get trust ''observedAt'');
          valid_until = int_of (py_get trust ''validUntil'') in
      if observed < 0 \<or> valid_until < observed \<or> now < 0
         \<or> \<not> (observed \<le> now \<and> now \<le> valid_until)
      then fails ''trusted header context is stale or not yet valid''
      else if py_get trust ''finalityStatus'' \<noteq> PStr ''unverified''
      then fails ''this verifier cannot establish a finality claim''
      else Inr trust))"

text \<open>One step of the ancestry loop: the state is the index, the hash, the height and the bytes read.\<close>

definition ancestry_step ::
    "eth_lib \<Rightarrow> nat \<times> bytes \<times> nat \<times> nat \<Rightarrow> pv \<Rightarrow> incl_error + (nat \<times> bytes \<times> nat \<times> nat)" where
  "ancestry_step L = (\<lambda>(index, current_hash, current_number, ancestry_bytes) encoded_header.
     bindE (hex_bytes encoded_header (''ancestry header '' @ nat_str index) None) (\<lambda>ancestor_raw.
     let ancestry_bytes = ancestry_bytes + length ancestor_raw in
     if 8 * 1024 * 1024 < ancestry_bytes then fails ''header ancestry exceeds byte-size limit''
     else bindE (header_identity L ancestor_raw) (\<lambda>h.
     if hdr_parent h \<noteq> current_hash \<or> hdr_number h \<noteq> current_number + 1
     then fails ''header ancestry parent or height link is invalid''
     else Inr (Suc index, hdr_hash h, hdr_number h, ancestry_bytes))))"

definition check_ancestry ::
    "eth_lib \<Rightarrow> obj \<Rightarrow> obj \<Rightarrow> bytes \<Rightarrow> incl_error + header_id" where
  "check_ancestry L kase trust pinned =
     bindE (hex_bytes (py_get kase ''blockHeaderRlp'') ''block header RLP'' None) (\<lambda>header_raw.
     if 64 * 1024 < length header_raw then fails ''block header exceeds size limit''
     else bindE (header_identity L header_raw) (\<lambda>h.
     let ancestry = py_get kase ''headerAncestry'' in
     if \<not> is_list ancestry \<or> 8192 < length (list_of ancestry)
     then fails ''header ancestry must be an array within the header-count limit''
     else bindE (foldE (ancestry_step L) (0, hdr_hash h, hdr_number h, 0) (list_of ancestry))
       (\<lambda>(_, current_hash, current_number, _).
     if current_hash \<noteq> pinned \<or>
        int current_number \<noteq> int_of (py_get trust ''anchorHeaderNumber'')
     then fails ''receipt block is not an ancestor of the trusted header anchor''
     else Inr h)))"

definition check_transaction ::
    "eth_lib \<Rightarrow> obj \<Rightarrow> obj \<Rightarrow> incl_error + (nat \<times> bytes \<times> string \<times> nat)" where
  "check_transaction L kase trust =
     (let tx_index = py_get kase ''transactionIndex'' in
      if \<not> is_int tx_index \<or> int_of tx_index < 0
      then fails ''transaction index must be a non-negative integer''
      else bindE (hex_bytes (py_get kase ''transactionRaw'') ''signed transaction'' None) (\<lambda>raw.
      if 128 * 1024 < length raw then fails ''signed transaction exceeds size limit''
      else bindE (recover_transaction L raw (nat (int_of (py_get trust ''chainId'')))) (\<lambda>(sender, tx_type).
      let expected = py_get kase ''expectedSender'' in
      if \<not> is_str expected \<or> \<not> address_re (str_of expected)
      then fails ''expected sender must be an Ethereum address''
      else if sender \<noteq> lower (str_of expected)
      then fails ''recovered sender differs from expected sender''
      else Inr (nat (int_of tx_index), raw, sender, tx_type))))"

definition check_receipt ::
    "eth_lib \<Rightarrow> obj \<Rightarrow> header_id \<Rightarrow> nat \<Rightarrow> bytes \<Rightarrow> nat \<Rightarrow> incl_error + bytes" where
  "check_receipt L kase h tx_index raw tx_type =
     (let receipt0 = py_get kase ''receipt''; receipt = dict_of receipt0 in
      if \<not> is_dict receipt0 then fails ''receipt must be an object''
      else bindE (hex_bytes (py_get receipt ''transactionHash'') ''receipt transaction hash'' (Some 32)) (\<lambda>th.
      if th \<noteq> keccak L raw then fails ''receipt transaction hash differs from signed transaction''
      else bindE (quantity (py_get receipt ''transactionIndex'') ''receipt transaction index'') (\<lambda>ti.
      if ti \<noteq> tx_index then fails ''receipt transaction index differs from proof key''
      else bindE (hex_bytes (py_get receipt ''blockHash'') ''receipt block hash'' (Some 32)) (\<lambda>bh.
      if bh \<noteq> hdr_hash h then fails ''receipt block hash differs from trusted header''
      else bindE (quantity (py_get receipt ''blockNumber'') ''receipt block number'') (\<lambda>bn.
      if bn \<noteq> hdr_number h then fails ''receipt block number differs from trusted header''
      else bindE (encode_rpc_receipt L receipt0) (\<lambda>(receipt_raw, receipt_type).
      if receipt_type \<noteq> tx_type then fails ''typed receipt and signed transaction types differ''
      else Inr receipt_raw))))))"

definition check_proofs ::
    "eth_lib \<Rightarrow> obj \<Rightarrow> header_id \<Rightarrow> nat \<Rightarrow> bytes \<Rightarrow> bytes \<Rightarrow> incl_error + unit" where
  "check_proofs L kase h tx_index raw receipt_raw =
     (let tp = py_get kase ''transactionProof''; rp = py_get kase ''receiptProof'' in
      if \<not> is_list tp \<or> 128 < length (list_of tp)
      then fails ''transaction proof is malformed or exceeds node-count limit''
      else bindE (mapE (\<lambda>item. hex_bytes item ''transaction proof node'' None) (list_of tp)) (\<lambda>tproof.
      if \<not> is_list rp then fails ''receipt proof must be an array''
      else if 128 < length (list_of rp) then fails ''receipt proof exceeds node-count limit''
      else bindE (mapE (\<lambda>item. hex_bytes item ''receipt proof node'' None) (list_of rp)) (\<lambda>rproof.
      if 4 * 1024 * 1024 < sum_list (map length (tproof @ rproof))
      then fails ''transaction and receipt proofs exceed byte-size limit''
      else bindE (verify_indexed_trie_proof L (hdr_txs_root h) (int tx_index) tproof) (\<lambda>included_tx.
      if included_tx \<noteq> raw then fails ''transaction proof value differs from signed transaction bytes''
      else bindE (verify_indexed_trie_proof L (hdr_receipts_root h) (int tx_index) rproof) (\<lambda>included.
      if included \<noteq> receipt_raw then fails ''receipt proof value differs from serialized RPC receipt''
      else Inr ())))))"

definition result_limitations :: "string list" where
  "result_limitations =
     [''trusted context digest must be obtained independently of the case bundle'',
      ''header and ancestry are not verified against a consensus light client'',
      ''finality is not established by this adapter'',
      ''provider agreement and signed observer statements do not authenticate chain state'']"

definition case_result ::
    "eth_lib \<Rightarrow> obj \<Rightarrow> obj \<Rightarrow> bytes \<Rightarrow> bytes \<Rightarrow> header_id \<Rightarrow> nat \<Rightarrow> bytes \<Rightarrow> string \<Rightarrow> nat
       \<Rightarrow> incl_error + obj" where
  "case_result L kase trust trust_context_bytes pinned h tx_index raw sender tx_type =
     (let receipt = dict_of (py_get kase ''receipt'') in
      bindE (if py_get receipt ''status'' \<noteq> PNone
             then bindE (quantity (py_get receipt ''status'') ''receipt status'') (\<lambda>n. Inr (PInt (int n)))
             else Inr (PStr ''pre-Byzantium'')) (\<lambda>status.
      Inr [(''schema'', PStr ''prf-ethereum-receipt-inclusion-result.v1''),
           (''status'', PStr ''receipt_inclusion_verified_under_external_header_pin''),
           (''network'', py_get trust ''network''),
           (''chainFamily'', py_get trust ''chainFamily''),
           (''chainId'', py_get trust ''chainId''),
           (''blockHash'', PStr (''0x'' @ to_hex (hdr_hash h))),
           (''blockNumber'', PInt (int (hdr_number h))),
           (''trustedAnchorHash'', PStr (''0x'' @ to_hex pinned)),
           (''trustedAnchorNumber'', py_get trust ''anchorHeaderNumber''),
           (''verifiedAncestryHeaderCount'',
              PInt (int (length (list_of (py_get kase ''headerAncestry''))))),
           (''transactionHash'', PStr (''0x'' @ to_hex (keccak L raw))),
           (''transactionInclusion'', PStr ''verified-at-receipt-index''),
           (''transactionIndex'', PInt (int tx_index)),
           (''transactionType'', PInt (int tx_type)),
           (''recoveredSender'', PStr sender),
           (''receiptStatus'', status),
           (''transactionsRoot'', PStr (''0x'' @ to_hex (hdr_txs_root h))),
           (''receiptsRoot'', PStr (''0x'' @ to_hex (hdr_receipts_root h))),
           (''trustedContextSha256'', PStr (sha256_hex L trust_context_bytes)),
           (''trustedHeaderSource'', PDict [(''id'', py_get trust ''sourceId''),
                                          (''revision'', py_get trust ''sourceRevision'')]),
           (''finality'', PStr ''unverified''),
           (''limitations'', PList (map PStr result_limitations))]))"

definition verify_case ::
    "eth_lib \<Rightarrow> pv \<Rightarrow> bytes \<Rightarrow> string \<Rightarrow> int \<Rightarrow> incl_error + obj" where
  "verify_case L case0 trust_context_bytes expected_sha256 now =
     (let kase = dict_of case0 in
      if \<not> is_dict case0 \<or> \<not> keys_are kase case_fields
         \<or> py_get kase ''schema'' \<noteq> PStr ''prf-ethereum-receipt-inclusion-case.v1''
      then fails ''case schema or fields are invalid''
      else bindE (check_trust L trust_context_bytes expected_sha256 now) (\<lambda>trust.
      bindE (hex_bytes (py_get trust ''anchorHeaderHash'') ''trusted anchor header hash'' (Some 32)) (\<lambda>pinned.
      bindE (check_ancestry L kase trust pinned) (\<lambda>h.
      bindE (check_transaction L kase trust) (\<lambda>(tx_index, raw, sender, tx_type).
      bindE (check_receipt L kase h tx_index raw tx_type) (\<lambda>receipt_raw.
      bindE (check_proofs L kase h tx_index raw receipt_raw) (\<lambda>_.
      case_result L kase trust trust_context_bytes pinned h tx_index raw sender tx_type)))))))"

end
