(* ===== verification/Receipt_Theorems.thy ===== *)
theory Receipt_Theorems
  imports Receipt_Case
begin

text \<open>
  Properties of the receipt verifier: the bloom filter is exact, the ancestry loop links the block
  to the trusted anchor, and an accepted case fixes one block, one transaction and one receipt.
\<close>

section \<open>The bloom filter\<close>

definition bloom_test :: "bytes \<Rightarrow> nat \<Rightarrow> bool" where
  "bloom_test bloom b = bit (bloom ! (255 - b div 8)) (b mod 8)"

definition bloom_positions :: "eth_lib \<Rightarrow> bytes list \<Rightarrow> nat list" where
  "bloom_positions L values =
     concat (map (\<lambda>v. map (bloom_bit (keccak L v)) [0, 2, 4]) values)"

lemma bloom_bit_less: "bloom_bit d off < 2048"
  by (simp add: bloom_bit_def)

lemma length_set_bloom_bit [simp]: "length (set_bloom_bit bl b) = length bl"
  by (simp add: set_bloom_bit_def Let_def)

lemma bloom_index_inj:
  fixes b c :: nat
  assumes "b < 2048" "c < 2048" "255 - c div 8 = 255 - b div 8" "c mod 8 = b mod 8"
  shows "c = b"
proof -
  have "b div 8 \<le> 255" "c div 8 \<le> 255" using assms(1,2) by auto
  with assms(3) have "c div 8 = b div 8" by linarith
  with assms(4) show ?thesis by (metis div_mult_mod_eq)
qed

lemma bit_byte_exp: "bit ((2 :: byte) ^ m) n \<longleftrightarrow> n < 8 \<and> m = n"
  by (auto simp: bit_simps)

lemma bloom_test_set:
  assumes "length bl = 256" "b < 2048" "c < 2048"
  shows "bloom_test (set_bloom_bit bl b) c \<longleftrightarrow> bloom_test bl c \<or> c = b"
proof (cases "255 - c div 8 = 255 - b div 8")
  case True
  then have "bloom_test (set_bloom_bit bl b) c \<longleftrightarrow> bloom_test bl c \<or> c mod 8 = b mod 8"
    using assms by (auto simp: bloom_test_def set_bloom_bit_def Let_def bit_or_iff bit_byte_exp)
  with True assms bloom_index_inj [of b c] show ?thesis by blast
next
  case False
  then show ?thesis using assms by (auto simp: bloom_test_def set_bloom_bit_def Let_def)
qed

lemma add_bloom_value_spec:
  assumes "length bl = 256" and "c < 2048"
  shows "length (add_bloom_value L bl v) = 256"
    and "bloom_test (add_bloom_value L bl v) c \<longleftrightarrow>
      bloom_test bl c \<or> c \<in> set (bloom_positions L [v])"
  using assms
  by (auto simp: add_bloom_value_def Let_def bloom_test_set bloom_bit_less bloom_positions_def)

lemma add_bloom_values_spec:
  assumes "length bl = 256" and "c < 2048"
  shows "length (foldl (add_bloom_value L) bl vs) = 256 \<and>
    (bloom_test (foldl (add_bloom_value L) bl vs) c \<longleftrightarrow>
       bloom_test bl c \<or> c \<in> set (bloom_positions L vs))"
  using assms(1)
proof (induction vs arbitrary: bl)
  case Nil
  then show ?case by (simp add: bloom_positions_def)
next
  case (Cons v vs)
  have "length (add_bloom_value L bl v) = 256"
    using add_bloom_value_spec(1) Cons.prems assms(2) by blast
  from Cons.IH [OF this] show ?case
    using add_bloom_value_spec(2) [OF Cons.prems assms(2), of L v]
    by (auto simp: bloom_positions_def)
qed

lemma logs_bloom_fold:
  assumes "foldE (\<lambda>bloom log. bindE (log_values log) (\<lambda>values.
              Inr (foldl (add_bloom_value L) bloom values))) bl logs = Inr bloom"
    and "length bl = 256"
  shows "\<exists>vss. mapE log_values logs = Inr vss \<and> bloom = foldl (add_bloom_value L) bl (concat vss)"
  using assms
proof (induction logs arbitrary: bl)
  case Nil
  then show ?case by simp
next
  case (Cons log logs)
  then obtain vs where vs: "log_values log = Inr vs" by (auto simp: bindE_Inr_iff)
  have "length (foldl (add_bloom_value L) bl vs) = 256"
    using add_bloom_values_spec [OF Cons.prems(2), of 0] by simp
  with Cons vs obtain vss where "mapE log_values logs = Inr vss"
    "bloom = foldl (add_bloom_value L) (foldl (add_bloom_value L) bl vs) (concat vss)"
    by fastforce
  with vs show ?case by (intro exI [of _ "vs # vss"]) simp
qed

lemma bloom_test_empty [simp]: "c < 2048 \<Longrightarrow> \<not> bloom_test (replicate 256 0) c"
  by (auto simp: bloom_test_def)

section \<open>Ancestry\<close>

text \<open>\<open>linked L h raws h'\<close>: each header of \<open>raws\<close> names its predecessor's hash and height.\<close>

fun linked :: "eth_lib \<Rightarrow> header_id \<Rightarrow> bytes list \<Rightarrow> header_id \<Rightarrow> bool" where
  "linked L h [] h' \<longleftrightarrow> h' = h"
| "linked L h (raw # raws) h' \<longleftrightarrow>
     (case header_identity L raw of
        Inl _ \<Rightarrow> False
      | Inr h1 \<Rightarrow> hdr_parent h1 = hdr_hash h \<and> hdr_number h1 = hdr_number h + 1 \<and>
                 linked L h1 raws h')"

lemma header_identity_hash: "header_identity L raw = Inr h \<Longrightarrow> hdr_hash h = keccak L raw"
  by (auto simp: header_identity_def ok_iff Let_def split: if_splits option.splits)

lemma header_identity_binding:
  assumes "header_identity L raw = Inr h" "header_identity L raw' = Inr h'"
    and "hdr_hash h = hdr_hash h'" "\<not> keccak_collision L"
  shows "h = h'"
proof -
  have "raw = raw'"
    using assms header_identity_hash unfolding keccak_collision_def by metis
  with assms show ?thesis by simp
qed

lemma ancestry_loop_linked:
  assumes "foldE (ancestry_step L) (i, hdr_hash h, hdr_number h, b) anc = Inr (j, H, N, b')"
  shows "\<exists>raws h'. linked L h raws h' \<and> hdr_hash h' = H \<and> hdr_number h' = N \<and>
    length raws = length anc"
  using assms
proof (induction anc arbitrary: i h b)
  case Nil
  then show ?case by (intro exI [of _ "[]"]) simp
next
  case (Cons x anc)
  then obtain raw h1 b1 where h1: "header_identity L raw = Inr h1"
    "hdr_parent h1 = hdr_hash h" "hdr_number h1 = hdr_number h + 1"
    and rest: "foldE (ancestry_step L) (Suc i, hdr_hash h1, hdr_number h1, b1) anc = Inr (j, H, N, b')"
    by (auto simp: ancestry_step_def bindE_Inr_iff Let_def split: if_splits)
  from Cons.IH [OF rest] obtain raws h' where "linked L h1 raws h'" "hdr_hash h' = H"
    "hdr_number h' = N" "length raws = length anc" by blast
  with h1 show ?case by (intro exI [of _ "raw # raws"] exI [of _ h']) simp
qed

lemma linked_number: "linked L h raws h' \<Longrightarrow> hdr_number h' = hdr_number h + length raws"
  by (induction raws arbitrary: h) (auto split: sum.splits)

lemma linked_binding:
  assumes "length raws = length raws'"
    and "linked L h raws e" "linked L h' raws' e'" "hdr_hash e = hdr_hash e'"
    and "header_identity L raw = Inr h" "header_identity L raw' = Inr h'"
    and "\<not> keccak_collision L"
  shows "h = h'"
  using assms
proof (induction raws raws' arbitrary: h h' raw raw' rule: list_induct2)
  case Nil
  then show ?case using header_identity_binding by (metis linked.simps(1))
next
  case (Cons r rs r' rs')
  from Cons.prems(1,2) obtain h1 h1' where
    h1: "header_identity L r = Inr h1" "hdr_parent h1 = hdr_hash h" "linked L h1 rs e" and
    h1': "header_identity L r' = Inr h1'" "hdr_parent h1' = hdr_hash h'" "linked L h1' rs' e'"
    by (auto split: sum.splits)
  have "h1 = h1'"
    by (rule Cons.IH [OF h1(3) h1'(3) Cons.prems(3) h1(1) h1'(1) Cons.prems(6)])
  with h1(2) h1'(2) have "hdr_hash h = hdr_hash h'" by simp
  then show ?case using header_identity_binding Cons.prems by metis
qed


section \<open>What an accepted case establishes\<close>

definition trust_window :: "obj \<Rightarrow> int \<Rightarrow> bool" where
  "trust_window trust now \<longleftrightarrow>
     0 \<le> int_of (py_get trust ''observedAt'') \<and>
     int_of (py_get trust ''observedAt'') \<le> now \<and> now \<le> int_of (py_get trust ''validUntil'')"

lemma check_trustD:
  assumes "check_trust L tb pin now = Inr trust"
  shows "sha256_hex L tb = pin" "json_no_duplicates L tb ''trusted context'' = Inr (PDict trust)"
    "keys_are trust trust_fields" "trust_window trust now" "1 \<le> int_of (py_get trust ''chainId'')"
    "is_int (py_get trust ''chainId'')" "length tb \<le> 65536"
proof -
  from assms obtain t0 where t0: "json_no_duplicates L tb ''trusted context'' = Inr t0"
    "is_dict t0" "trust = dict_of t0"
    by (auto simp: check_trust_def bindE_Inr_iff Let_def split: if_splits)
  then show "json_no_duplicates L tb ''trusted context'' = Inr (PDict trust)"
    by (cases t0) auto
  show "sha256_hex L tb = pin" "keys_are trust trust_fields" "trust_window trust now"
    "1 \<le> int_of (py_get trust ''chainId'')" "is_int (py_get trust ''chainId'')" "length tb \<le> 65536"
    using assms t0 by (simp_all add: check_trust_def Let_def trust_window_def split: if_splits)
qed

lemma check_ancestryD:
  assumes "check_ancestry L kase trust pinned = Inr h"
  shows "\<exists>raw raws h'. hex_bytes (py_get kase ''blockHeaderRlp'') ''block header RLP'' None = Inr raw \<and>
    header_identity L raw = Inr h \<and> linked L h raws h' \<and> hdr_hash h' = pinned \<and>
    int (hdr_number h') = int_of (py_get trust ''anchorHeaderNumber'')"
proof -
  from assms obtain raw i b where raw:
    "hex_bytes (py_get kase ''blockHeaderRlp'') ''block header RLP'' None = Inr raw"
    "header_identity L raw = Inr h"
    and loop: "\<exists>N. foldE (ancestry_step L) (0, hdr_hash h, hdr_number h, 0)
      (list_of (py_get kase ''headerAncestry'')) = Inr (i, pinned, N, b) \<and>
      int N = int_of (py_get trust ''anchorHeaderNumber'')"
    by (auto simp: check_ancestry_def bindE_Inr_iff Let_def split: if_splits)
  then obtain N where N: "foldE (ancestry_step L) (0, hdr_hash h, hdr_number h, 0)
      (list_of (py_get kase ''headerAncestry'')) = Inr (i, pinned, N, b)"
    "int N = int_of (py_get trust ''anchorHeaderNumber'')" by blast
  from ancestry_loop_linked [OF N(1)] raw N(2) show ?thesis by blast
qed

text \<open>The facts a successful run of \<^verbatim>\<open>verify_case\<close> has checked, as one statement.\<close>

definition established ::
    "eth_lib \<Rightarrow> obj \<Rightarrow> obj \<Rightarrow> header_id \<Rightarrow> nat \<Rightarrow> bytes \<Rightarrow> bytes \<Rightarrow> string \<Rightarrow> nat \<Rightarrow> bool" where
  "established L kase trust h idx raw rec sender ty \<longleftrightarrow>
     (\<exists>hraw raws anchor txnodes rcnodes dt dr.
        header_identity L hraw = Inr h \<and> linked L h raws anchor \<and>
        hex_bytes (py_get trust ''anchorHeaderHash'') ''trusted anchor header hash'' (Some 32)
          = Inr (hdr_hash anchor) \<and>
        int (hdr_number anchor) = int_of (py_get trust ''anchorHeaderNumber'') \<and>
        recover_transaction L raw (nat (int_of (py_get trust ''chainId''))) = Inr (sender, ty) \<and>
        py_get kase ''transactionIndex'' = PInt (int idx) \<and>
        encode_rpc_receipt L (py_get kase ''receipt'') = Inr (rec, ty) \<and>
        trie_path L dt (nibbles (rlp_encode_int L idx)) (hdr_txs_root h) txnodes raw \<and>
        trie_path L dr (nibbles (rlp_encode_int L idx)) (hdr_receipts_root h) rcnodes rec)"

lemma verify_indexed_trie_proof_iff:
  "verify_indexed_trie_proof L root idx nodes = Inr v \<longleftrightarrow>
     length root = 32 \<and> 0 \<le> idx \<and> nodes \<noteq> [] \<and>
     (\<exists>d. d \<le> 128 \<and> trie_path L d (nibbles (rlp_encode_int L (nat idx))) root nodes v)"
  by (auto simp: verify_indexed_trie_proof_def trie_loop_iff)

lemma check_proofsD:
  assumes "check_proofs L kase h idx raw rec = Inr ()"
  shows "\<exists>nodes nodes' d d'.
    trie_path L d (nibbles (rlp_encode_int L idx)) (hdr_txs_root h) nodes raw \<and>
    trie_path L d' (nibbles (rlp_encode_int L idx)) (hdr_receipts_root h) nodes' rec"
  using assms
  by (auto simp: check_proofs_def bindE_Inr_iff Let_def verify_indexed_trie_proof_iff split: if_splits)

lemma check_transactionD:
  assumes "check_transaction L kase trust = Inr (idx, raw, sender, ty)"
  shows "py_get kase ''transactionIndex'' = PInt (int idx)"
    "recover_transaction L raw (nat (int_of (py_get trust ''chainId''))) = Inr (sender, ty)"
    "sender = lower (str_of (py_get kase ''expectedSender''))"
    "hex_bytes (py_get kase ''transactionRaw'') ''signed transaction'' None = Inr raw"
  using assms
  by (cases "py_get kase ''transactionIndex''";
      auto simp: check_transaction_def bindE_Inr_iff Let_def split: if_splits)+

lemma check_receiptD:
  assumes "check_receipt L kase h idx raw ty = Inr rec"
  shows "encode_rpc_receipt L (py_get kase ''receipt'') = Inr (rec, ty)"
  using assms by (auto simp: check_receipt_def bindE_Inr_iff Let_def split: if_splits)

lemma verify_case_run:
  assumes "verify_case L case0 tb pin now = Inr res"
  obtains kase trust pinned h idx raw sender ty rec where
    "case0 = PDict kase" "check_trust L tb pin now = Inr trust"
    "hex_bytes (py_get trust ''anchorHeaderHash'') ''trusted anchor header hash'' (Some 32) = Inr pinned"
    "check_ancestry L kase trust pinned = Inr h"
    "check_transaction L kase trust = Inr (idx, raw, sender, ty)"
    "check_receipt L kase h idx raw ty = Inr rec"
    "check_proofs L kase h idx raw rec = Inr ()"
    "case_result L kase trust tb pinned h idx raw sender ty = Inr res"
  using assms
  by (cases case0) (auto simp: verify_case_def bindE_Inr_iff Let_def split: if_splits)


lemma case_result_fields:
  assumes "case_result L kase trust tb pinned h idx raw sender ty = Inr res"
  shows "py_get res ''blockHash'' = PStr (''0x'' @ to_hex (hdr_hash h))"
    "py_get res ''blockNumber'' = PInt (int (hdr_number h))"
    "py_get res ''transactionIndex'' = PInt (int idx)"
    "py_get res ''transactionHash'' = PStr (''0x'' @ to_hex (keccak L raw))"
    "py_get res ''transactionType'' = PInt (int ty)"
    "py_get res ''recoveredSender'' = PStr sender"
    "py_get res ''transactionsRoot'' = PStr (''0x'' @ to_hex (hdr_txs_root h))"
    "py_get res ''receiptsRoot'' = PStr (''0x'' @ to_hex (hdr_receipts_root h))"
    "py_get res ''finality'' = PStr ''unverified''"
  using assms by (auto simp: case_result_def bindE_Inr_iff Let_def get_or_def)

lemma established_if_run:
  assumes "check_ancestry L kase trust pinned = Inr h"
    "hex_bytes (py_get trust ''anchorHeaderHash'') ''trusted anchor header hash'' (Some 32) = Inr pinned"
    "check_transaction L kase trust = Inr (idx, raw, sender, ty)"
    "check_receipt L kase h idx raw ty = Inr rec" "check_proofs L kase h idx raw rec = Inr ()"
  shows "established L kase trust h idx raw rec sender ty"
  using check_ancestryD [OF assms(1)] check_transactionD [OF assms(3)] check_receiptD [OF assms(4)]
    check_proofsD [OF assms(5)] assms(2)
  unfolding established_def by metis

text \<open>Two cases established under one trusted context agree block by block and index by index.\<close>

lemma trie_path_binding:
  assumes "trie_path L d ks ref nodes v" "trie_path L d' ks ref nodes' v'" "\<not> keccak_collision L"
  shows "v = v'"
proof -
  have "trie_loop L nodes (max d d') ks ref 0 = Inr v" "trie_loop L nodes' (max d d') ks ref 0 = Inr v'"
    using assms by (auto simp: trie_loop_iff intro: max.cobounded1 max.cobounded2)
  then show ?thesis by (rule trie_loop_binding [OF assms(3)])
qed

lemma established_binding:
  assumes "established L kase trust h idx raw rec sender ty"
    and "established L kase' trust h' idx raw' rec' sender' ty'"
    and "hdr_number h = hdr_number h'" and nc: "\<not> keccak_collision L"
  shows "h = h' \<and> raw = raw' \<and> rec = rec' \<and> sender = sender' \<and> ty = ty'"
proof -
  obtain hraw raws anchor where a: "header_identity L hraw = Inr h" "linked L h raws anchor"
    "hex_bytes (py_get trust ''anchorHeaderHash'') ''trusted anchor header hash'' (Some 32)
       = Inr (hdr_hash anchor)"
    "int (hdr_number anchor) = int_of (py_get trust ''anchorHeaderNumber'')"
    using assms(1) unfolding established_def by blast
  obtain hraw' raws' anchor' where a': "header_identity L hraw' = Inr h'" "linked L h' raws' anchor'"
    "hex_bytes (py_get trust ''anchorHeaderHash'') ''trusted anchor header hash'' (Some 32)
       = Inr (hdr_hash anchor')"
    "int (hdr_number anchor') = int_of (py_get trust ''anchorHeaderNumber'')"
    using assms(2) unfolding established_def by blast
  have len: "length raws = length raws'"
    using linked_number [OF a(2)] linked_number [OF a'(2)] a(4) a'(4) assms(3) by simp
  have h: "h = h'"
    using linked_binding [OF len a(2) a'(2) _ a(1) a'(1) nc] a(3) a'(3) by simp
  have v: "raw = raw'" "rec = rec'"
    using assms(1,2) trie_path_binding [OF _ _ nc] unfolding established_def h by blast+
  have "(sender, ty) = (sender', ty')"
    using assms(1,2) unfolding established_def v by (metis Inr_inject)
  with h v show ?thesis by simp
qed

section \<open>Properties\<close>

text \<open>
  C38: \<^verbatim>\<open>_rlp_int\<close> accepts a byte string exactly when it is the shortest big-endian encoding of the
  integer it returns; leading zeros are rejected.
\<close>

theorem rlp_int_canonical: "rlp_int value label = Inr n \<longleftrightarrow> value = nat_be n"
  by (rule rlp_int_Inr_iff)

text \<open>
  C30: \<^verbatim>\<open>_compact_path\<close> inverts the hex-prefix encoding: it accepts a byte string exactly when that
  string is the encoding of a nibble path with its leaf flag, and returns that path and flag.
\<close>

theorem compact_path_roundtrip:
  "compact_path raw = Inr (ns, leaf) \<longleftrightarrow>
     list_all (\<lambda>n. n < 16) ns \<and> raw = hp_encode ns leaf"
  by (rule compact_path_Inr_iff)

text \<open>
  C14: \<^verbatim>\<open>verify_indexed_trie_proof\<close> returns a value exactly when the root is 32 bytes, the index is not
  negative, the proof is not empty, and a node path of at most 128 nodes along the key of the index
  leads from the root to that value and uses every proof node.
\<close>

theorem trie_proof_refines_path:
  "verify_indexed_trie_proof L root idx nodes = Inr v \<longleftrightarrow>
     length root = 32 \<and> 0 \<le> idx \<and> nodes \<noteq> [] \<and>
     (\<exists>d. d \<le> 128 \<and> trie_path L d (nibbles (rlp_encode_int L (nat idx))) root nodes v)"
  by (rule verify_indexed_trie_proof_iff)

text \<open>
  C9: A trie root and an index determine the proven value: two proofs that verify against the same
  root at the same index give the same value, or exhibit two byte strings with the same Keccak hash.
\<close>

theorem trie_proof_binding:
  assumes "verify_indexed_trie_proof L root idx nodes = Inr v"
    and "verify_indexed_trie_proof L root idx nodes' = Inr v'"
  shows "v = v' \<or> keccak_collision L"
  using assms trie_loop_binding [of L nodes 128 _ root 0 v nodes' 0 v']
  by (auto simp: verify_indexed_trie_proof_def split: if_splits)

text \<open>
  C38: \<^verbatim>\<open>_logs_bloom\<close> is exact: the filter has 256 bytes, and bit \<open>b\<close> of its 2048 bits is set if and
  only if \<open>b\<close> is one of the three positions of the address or of a topic of some log.
\<close>

theorem logs_bloom_exact:
  assumes "logs_bloom L logs = Inr bloom"
  shows "\<exists>vss. mapE log_values logs = Inr vss \<and> length bloom = 256 \<and>
    (\<forall>b < 2048. bloom_test bloom b \<longleftrightarrow> b \<in> set (bloom_positions L (concat vss)))"
proof -
  obtain vss where "mapE log_values logs = Inr vss"
    "bloom = foldl (add_bloom_value L) (replicate 256 0) (concat vss)"
    using logs_bloom_fold [OF assms [unfolded logs_bloom_def]] by auto
  then show ?thesis
    using add_bloom_values_spec [of "replicate 256 0" _ L "concat vss"]
      add_bloom_values_spec [of "replicate 256 0" 0 L "concat vss"] by auto
qed

text \<open>
  C1: Soundness of \<^verbatim>\<open>verify_case\<close>: when it returns a result, the trusted context has the pinned digest
  and is inside its validity window; the receipt's block is linked, header by header, to the trusted
  anchor; the signed transaction recovers to the reported sender on the trusted chain; and the node
  paths under the block's two roots lead at the reported index to that transaction and to the
  receipt's consensus encoding.
\<close>

theorem verify_case_sound:
  assumes "verify_case L case0 tb pin now = Inr res"
  shows "\<exists>kase trust h idx raw rec sender ty.
    case0 = PDict kase \<and> sha256_hex L tb = pin \<and>
    json_no_duplicates L tb ''trusted context'' = Inr (PDict trust) \<and> trust_window trust now \<and>
    established L kase trust h idx raw rec sender ty \<and>
    py_get res ''blockHash'' = PStr (''0x'' @ to_hex (hdr_hash h)) \<and>
    py_get res ''blockNumber'' = PInt (int (hdr_number h)) \<and>
    py_get res ''transactionIndex'' = PInt (int idx) \<and>
    py_get res ''transactionHash'' = PStr (''0x'' @ to_hex (keccak L raw)) \<and>
    py_get res ''recoveredSender'' = PStr sender \<and> py_get res ''finality'' = PStr ''unverified''"
proof -
  from assms obtain kase trust pinned h idx raw sender ty rec where run:
    "case0 = PDict kase" "check_trust L tb pin now = Inr trust"
    "hex_bytes (py_get trust ''anchorHeaderHash'') ''trusted anchor header hash'' (Some 32) = Inr pinned"
    "check_ancestry L kase trust pinned = Inr h"
    "check_transaction L kase trust = Inr (idx, raw, sender, ty)"
    "check_receipt L kase h idx raw ty = Inr rec" "check_proofs L kase h idx raw rec = Inr ()"
    "case_result L kase trust tb pinned h idx raw sender ty = Inr res"
    by (rule verify_case_run)
  note est = established_if_run [OF run(4,3,5,6,7)]
  show ?thesis
    using run(1) check_trustD [OF run(2)] est case_result_fields [OF run(8)] by blast
qed

text \<open>
  C4: Agreement of accepted cases: two cases accepted under the same trusted-context bytes that report
  the same block number and transaction index report the same block hash, roots, transaction hash,
  type and sender, or exhibit two byte strings with the same Keccak hash.
\<close>

theorem verify_case_binding:
  assumes "verify_case L c tb pin now = Inr res" and "verify_case L c' tb pin' now' = Inr res'"
    and "py_get res ''blockNumber'' = py_get res' ''blockNumber''"
    and "py_get res ''transactionIndex'' = py_get res' ''transactionIndex''"
  shows "keccak_collision L \<or>
    map (py_get res) [''blockHash'', ''transactionsRoot'', ''receiptsRoot'', ''transactionHash'',
      ''transactionType'', ''recoveredSender''] =
    map (py_get res') [''blockHash'', ''transactionsRoot'', ''receiptsRoot'', ''transactionHash'',
      ''transactionType'', ''recoveredSender'']"
proof -
  obtain kase trust pinned h idx raw sender ty rec where run:
    "check_trust L tb pin now = Inr trust"
    "hex_bytes (py_get trust ''anchorHeaderHash'') ''trusted anchor header hash'' (Some 32) = Inr pinned"
    "check_ancestry L kase trust pinned = Inr h"
    "check_transaction L kase trust = Inr (idx, raw, sender, ty)"
    "check_receipt L kase h idx raw ty = Inr rec" "check_proofs L kase h idx raw rec = Inr ()"
    "case_result L kase trust tb pinned h idx raw sender ty = Inr res"
    using verify_case_run [OF assms(1)] by metis
  obtain kase' trust' pinned' h' idx' raw' sender' ty' rec' where run':
    "check_trust L tb pin' now' = Inr trust'"
    "hex_bytes (py_get trust' ''anchorHeaderHash'') ''trusted anchor header hash'' (Some 32) = Inr pinned'"
    "check_ancestry L kase' trust' pinned' = Inr h'"
    "check_transaction L kase' trust' = Inr (idx', raw', sender', ty')"
    "check_receipt L kase' h' idx' raw' ty' = Inr rec'" "check_proofs L kase' h' idx' raw' rec' = Inr ()"
    "case_result L kase' trust' tb pinned' h' idx' raw' sender' ty' = Inr res'"
    using verify_case_run [OF assms(2)] by metis
  have "trust' = trust" using check_trustD(2) [OF run(1)] check_trustD(2) [OF run'(1)] by simp
  note est' = established_if_run [OF run'(3,2,4,5,6), unfolded this]
  note fields = case_result_fields [OF run(7)] case_result_fields [OF run'(7)]
  have "idx' = idx" "hdr_number h = hdr_number h'" using assms(3,4) fields by simp_all
  with established_binding [OF established_if_run [OF run(3,2,4,5,6)]] est' fields
  show ?thesis by auto
qed


section \<open>A concrete instance\<close>

text \<open>
  A small block with one transaction, under a library given by a table of four nodes: the header
  \<open>[1]\<close>, the transaction \<open>[200]\<close>, the transaction leaf \<open>[3]\<close> and the receipt leaf \<open>[4]\<close>.
\<close>

definition ex_pad :: "bytes \<Rightarrow> bytes" where
  "ex_pad bs = take 32 (bs @ replicate 32 0)"

definition ex_header :: rlp where
  "ex_header = RList (map RBytes
     [replicate 32 0, replicate 32 0, replicate 20 0, replicate 32 0, ex_pad [3], ex_pad [4],
      replicate 256 0, [], [7], [9], [5], [], [], replicate 32 0, replicate 8 0])"

definition ex_tx :: rlp where
  "ex_tx = RList (map RBytes [[], [1], [2], [], [], [], [37], [1], [1]])"

definition ex_receipt_rlp :: rlp where
  "ex_receipt_rlp = RList [RBytes [1], RBytes [5], RBytes (replicate 256 0), RList []]"

definition ex_key :: "nat list" where
  "ex_key = [8, 0]"

definition ex_tx_leaf :: rlp where
  "ex_tx_leaf = RList [RBytes (hp_encode ex_key True), RBytes [200]]"

definition ex_receipt_leaf :: rlp where
  "ex_receipt_leaf = RList [RBytes (hp_encode ex_key True), RBytes [5]]"

definition ex_trust :: obj where
  "ex_trust =
     [(''schema'', PStr ''prf-ethereum-header-trust-context.v2''), (''network'', PStr ''net''),
      (''chainFamily'', PStr ''ethereum-l1''), (''chainId'', PInt 1),
      (''anchorHeaderHash'', PStr (''0x'' @ to_hex (ex_pad [1]))), (''anchorHeaderNumber'', PInt 7),
      (''sourceId'', PStr ''s''), (''sourceRevision'', PStr ''r''), (''observedAt'', PInt 10),
      (''validUntil'', PInt 20), (''finalityStatus'', PStr ''unverified'')]"

definition ex_lib :: eth_lib where
  "ex_lib =
     \<lparr>rlp_encode = (\<lambda>n. if n = ex_header then [1] else if n = ex_tx_leaf then [3]
        else if n = ex_receipt_leaf then [4] else if n = ex_receipt_rlp then [5]
        else if n = ex_tx then [200] else [99]),
      rlp_encode_int = (\<lambda>n. if n = 0 then [128] else nat_be n),
      rlp_decode = (\<lambda>b. if b = [1] then Some ex_header else if b = [3] then Some ex_tx_leaf
        else if b = [4] then Some ex_receipt_leaf else if b = [200] then Some ex_tx else None),
      keccak = ex_pad, secpk1_n = 101,
      recover = (\<lambda>y r s h. Some (''0x'' @ replicate 40 (CHR ''a''))),
      sha256_hex = (\<lambda>b. to_hex (take 4 b)),
      json_pairs = (\<lambda>b. if b = [42] then Some (PDict ex_trust) else None)\<rparr>"

definition ex_receipt :: obj where
  "ex_receipt =
     [(''transactionHash'', PStr (''0x'' @ to_hex (ex_pad [200]))),
      (''transactionIndex'', PStr ''0x0''), (''blockHash'', PStr (''0x'' @ to_hex (ex_pad [1]))),
      (''blockNumber'', PStr ''0x7''), (''status'', PStr ''0x1''),
      (''cumulativeGasUsed'', PStr ''0x5''),
      (''logsBloom'', PStr (''0x'' @ to_hex (replicate 256 0))), (''logs'', PList [])]"

definition ex_kase :: "string \<Rightarrow> obj" where
  "ex_kase sender =
     [(''schema'', PStr ''prf-ethereum-receipt-inclusion-case.v1''),
      (''receipt'', PDict ex_receipt), (''transactionRaw'', PStr (''0x'' @ to_hex [200])),
      (''transactionIndex'', PInt 0), (''transactionProof'', PList [PStr (''0x'' @ to_hex [3])]),
      (''receiptProof'', PList [PStr (''0x'' @ to_hex [4])]), (''blockHeaderRlp'', PStr (''0x'' @ to_hex [1])),
      (''headerAncestry'', PList []),
      (''expectedSender'', PStr sender)]"

definition ex_header_id :: header_id where
  "ex_header_id = \<lparr>hdr_hash = ex_pad [1], hdr_number = 7, hdr_parent = replicate 32 0,
     hdr_txs_root = ex_pad [3], hdr_receipts_root = ex_pad [4]\<rparr>"

lemma ex_trust_read: "json_no_duplicates ex_lib [42] ''trusted context'' = Inr (PDict ex_trust)"
  by (simp add: json_no_duplicates_def ex_lib_def ex_trust_def)

lemma ex_trust_fields:
  "keys_are ex_trust trust_fields"
  "py_get ex_trust ''schema'' = PStr ''prf-ethereum-header-trust-context.v2''"
  "py_get ex_trust ''network'' = PStr ''net''" "py_get ex_trust ''chainFamily'' = PStr ''ethereum-l1''"
  "py_get ex_trust ''chainId'' = PInt 1" "py_get ex_trust ''anchorHeaderNumber'' = PInt 7"
  "py_get ex_trust ''anchorHeaderHash'' = PStr (''0x'' @ to_hex (ex_pad [1]))"
  "py_get ex_trust ''sourceId'' = PStr ''s''" "py_get ex_trust ''sourceRevision'' = PStr ''r''"
  "py_get ex_trust ''observedAt'' = PInt 10" "py_get ex_trust ''validUntil'' = PInt 20"
  "py_get ex_trust ''finalityStatus'' = PStr ''unverified''"
  by (simp_all add: ex_trust_def keys_are_def trust_fields_def has_key_def get_or_def)

lemma ex_trust_checked: "check_trust ex_lib [42] ''2a'' 15 = Inr ex_trust"
proof -
  have "sha256_hex ex_lib [42] = ''2a''" by code_simp
  then show ?thesis
    by (simp add: check_trust_def ex_trust_read ex_trust_fields is_text_def)
qed

lemma ex_header_read: "header_identity ex_lib [1] = Inr ex_header_id"
  by code_simp

lemma ex_sender_recovered:
  "recover_transaction ex_lib [200] 1 = Inr (''0x'' @ replicate 40 (CHR ''a''), 0)"
  by code_simp

lemma ex_tx_included: "verify_indexed_trie_proof ex_lib (ex_pad [3]) 0 [[3]] = Inr [200]"
  by code_simp

lemma ex_receipt_included: "verify_indexed_trie_proof ex_lib (ex_pad [4]) 0 [[4]] = Inr [5]"
  by code_simp

definition ex_upper :: string where "ex_upper = ''0x'' @ replicate 40 (CHR ''A'')"
definition ex_lower :: string where "ex_lower = ''0x'' @ replicate 40 (CHR ''a'')"

lemma ex_sender_text:
  "address_re ex_upper" "lower ex_upper = ex_lower" "address_re ex_lower" "lower ex_lower = ex_lower"
  by code_simp+

lemma ex_quantities:
  "quantity (PStr ''0x0'') label = Inr 0" "quantity (PStr ''0x1'') label = Inr 1"
  "quantity (PStr ''0x5'') label = Inr 5" "quantity (PStr ''0x7'') label = Inr 7"
  by (simp_all add: quantity_def quantity_re_def hex_nat_def is_hex_char_def hex_val.simps)

lemma ex_kase_fields:
  "keys_are (ex_kase s) case_fields"
  "py_get (ex_kase s) ''schema'' = PStr ''prf-ethereum-receipt-inclusion-case.v1''"
  "py_get (ex_kase s) ''receipt'' = PDict ex_receipt"
  "py_get (ex_kase s) ''transactionRaw'' = PStr (''0x'' @ to_hex [200])"
  "py_get (ex_kase s) ''transactionIndex'' = PInt 0"
  "py_get (ex_kase s) ''transactionProof'' = PList [PStr (''0x'' @ to_hex [3])]"
  "py_get (ex_kase s) ''receiptProof'' = PList [PStr (''0x'' @ to_hex [4])]"
  "py_get (ex_kase s) ''blockHeaderRlp'' = PStr (''0x'' @ to_hex [1])"
  "py_get (ex_kase s) ''headerAncestry'' = PList []"
  "py_get (ex_kase s) ''expectedSender'' = PStr s"
  by (simp_all add: ex_kase_def keys_are_def case_fields_def has_key_def get_or_def)

lemma ex_receipt_fields:
  "py_get ex_receipt ''transactionHash'' = PStr (''0x'' @ to_hex (ex_pad [200]))"
  "py_get ex_receipt ''transactionIndex'' = PStr ''0x0''"
  "py_get ex_receipt ''blockHash'' = PStr (''0x'' @ to_hex (ex_pad [1]))"
  "py_get ex_receipt ''blockNumber'' = PStr ''0x7''" "py_get ex_receipt ''status'' = PStr ''0x1''"
  "py_get ex_receipt ''cumulativeGasUsed'' = PStr ''0x5''"
  "py_get ex_receipt ''logsBloom'' = PStr (''0x'' @ to_hex (replicate 256 0))"
  "py_get ex_receipt ''logs'' = PList []" "get_or ex_receipt ''type'' x = x"
  by (simp_all add: ex_receipt_def get_or_def)

lemma ex_ancestry_checked:
  "check_ancestry ex_lib (ex_kase s) ex_trust (ex_pad [1]) = Inr ex_header_id"
  by (simp add: check_ancestry_def ex_kase_fields ex_trust_fields ex_header_read)
    (simp add: ex_header_id_def)

lemma ex_transaction_checked:
  assumes "s = ex_upper \<or> s = ex_lower"
  shows "check_transaction ex_lib (ex_kase s) ex_trust = Inr (0, [200], ex_lower, 0)"
  using assms ex_sender_recovered [folded ex_lower_def] ex_sender_text
  by (auto simp: check_transaction_def ex_kase_fields ex_trust_fields)

lemma ex_receipt_encoded: "encode_rpc_receipt ex_lib (PDict ex_receipt) = Inr ([5], 0)"
  by (simp add: encode_rpc_receipt_def ex_receipt_fields ex_quantities receipt_state_def
      logs_bloom_def)
    (simp add: ex_lib_def ex_header_def ex_tx_leaf_def ex_receipt_leaf_def
      ex_receipt_rlp_def nat_be.simps)

lemma ex_receipt_checked:
  "check_receipt ex_lib (ex_kase s) ex_header_id 0 [200] 0 = Inr [5]"
proof -
  have "keccak ex_lib [200] = ex_pad [200]" "hdr_hash ex_header_id = ex_pad [1]"
    "hdr_number ex_header_id = 7" "length (ex_pad bs) = 32" for bs
    by (simp_all add: ex_lib_def ex_header_id_def ex_pad_def)
  then show ?thesis
    by (simp add: check_receipt_def ex_kase_fields ex_receipt_fields ex_quantities ex_receipt_encoded)
qed

lemma ex_proofs_checked: "check_proofs ex_lib (ex_kase s) ex_header_id 0 [200] [5] = Inr ()"
proof -
  have "hdr_txs_root ex_header_id = ex_pad [3]" "hdr_receipts_root ex_header_id = ex_pad [4]"
    by (simp_all add: ex_header_id_def)
  then show ?thesis
    by (simp add: check_proofs_def ex_kase_fields ex_tx_included ex_receipt_included)
qed

lemma ex_anchor_read:
  "hex_bytes (py_get ex_trust ''anchorHeaderHash'') ''trusted anchor header hash'' (Some 32)
     = Inr (ex_pad [1])"
  by (simp add: ex_trust_fields ex_pad_def)

definition ex_result :: "string \<Rightarrow> obj" where
  "ex_result s = (case case_result ex_lib (ex_kase s) ex_trust [42] (ex_pad [1]) ex_header_id 0 [200]
      ex_lower 0 of Inr r \<Rightarrow> r | Inl _ \<Rightarrow> [])"

lemma ex_case_result:
  "case_result ex_lib (ex_kase s) ex_trust [42] (ex_pad [1]) ex_header_id 0 [200] ex_lower 0
     = Inr (ex_result s)"
  by (simp add: ex_result_def case_result_def ex_kase_fields ex_receipt_fields ex_quantities)

lemma ex_case_accepted:
  assumes "s = ex_upper \<or> s = ex_lower"
  shows "verify_case ex_lib (PDict (ex_kase s)) [42] ''2a'' 15 = Inr (ex_result s)"
  by (simp add: verify_case_def ex_kase_fields(1,2) ex_trust_checked ex_anchor_read
      ex_ancestry_checked ex_transaction_checked [OF assms] ex_receipt_checked ex_proofs_checked
      ex_case_result)

lemmas ex_upper_accepted = ex_case_accepted [OF disjI1 [OF refl]]
  and ex_lower_accepted = ex_case_accepted [OF disjI2 [OF refl]]

theorem trie_proof_binding_witness:
  "verify_indexed_trie_proof ex_lib (ex_pad [3]) 0 [[3]] = Inr [200] \<and>
     ([200] = [200 :: byte] \<or> keccak_collision ex_lib)"
  using trie_proof_binding [OF ex_tx_included ex_tx_included] ex_tx_included by blast

theorem logs_bloom_exact_witness:
  "\<exists>bloom vss. logs_bloom ex_lib [[(''address'', PStr (''0x'' @ to_hex (replicate 20 1))),
      (''topics'', PList [])]] = Inr bloom \<and> length bloom = 256 \<and> vss = [[replicate 20 (1 :: byte)]]
      \<and> bloom_test bloom 257 = (257 \<in> set (bloom_positions ex_lib (concat vss)))"
proof -
  let ?log = "[(''address'', PStr (''0x'' @ to_hex (replicate 20 1))), (''topics'', PList [])]"
  have v: "log_values ?log = Inr [replicate 20 1]"
    by (simp add: log_values_def get_or_def)
  then obtain bloom where b: "logs_bloom ex_lib [?log] = Inr bloom"
    by (simp add: logs_bloom_def)
  from logs_bloom_exact [OF b] v b show ?thesis by auto
qed

theorem verify_case_sound_witness:
  "\<exists>h idx raw rec sender ty. established ex_lib (ex_kase ex_upper) ex_trust h idx raw rec sender ty"
proof -
  from verify_case_sound [OF ex_upper_accepted] ex_trust_read show ?thesis by fastforce
qed

theorem verify_case_binding_witness:
  "ex_upper \<noteq> ex_lower \<and>
   verify_case ex_lib (PDict (ex_kase ex_upper)) [42] ''2a'' 15 = Inr (ex_result ex_upper) \<and>
   verify_case ex_lib (PDict (ex_kase ex_lower)) [42] ''2a'' 15 = Inr (ex_result ex_lower) \<and>
   (keccak_collision ex_lib \<or>
    map (py_get (ex_result ex_upper)) [''blockHash'', ''transactionsRoot'', ''receiptsRoot'',
      ''transactionHash'', ''transactionType'', ''recoveredSender''] =
    map (py_get (ex_result ex_lower)) [''blockHash'', ''transactionsRoot'', ''receiptsRoot'',
      ''transactionHash'', ''transactionType'', ''recoveredSender''])"
proof -
  note fields = case_result_fields [OF ex_case_result]
  have distinct: "ex_upper \<noteq> ex_lower" by (simp add: ex_upper_def ex_lower_def)
  have same: "py_get (ex_result ex_upper) ''blockNumber'' = py_get (ex_result ex_lower) ''blockNumber''"
    "py_get (ex_result ex_upper) ''transactionIndex'' = py_get (ex_result ex_lower) ''transactionIndex''"
    by (simp_all only: fields)
  show ?thesis
    using distinct ex_upper_accepted ex_lower_accepted
      verify_case_binding [OF ex_upper_accepted ex_lower_accepted same] by (intro conjI)
qed

end
