(* ===== verification/Json_Text.thy ===== *)
theory Json_Text
  imports Py_Bytes
begin

text \<open>
  The two printers of the standard library the program uses on JSON values: \<^verbatim>\<open>str\<close> and \<^verbatim>\<open>repr\<close> (inside
  messages), and the canonical encoding \<^verbatim>\<open>json.dumps(v, indent=2, sort_keys=True)\<close>, which every module
  under \<^verbatim>\<open>scripts/forensic\<close> hashes.  The main lemma is that the canonical encoding determines the value
  up to the order of dictionary items, so a hash of it commits to the value.
\<close>

section \<open>Printed values\<close>

definition repr_char :: "char \<Rightarrow> char \<Rightarrow> string" where
  "repr_char q c =
     (let n = (of_char c :: nat) in
      if c = q \<or> n = 92 then [CHR 0x5C, c]
      else if n = 10 then [CHR 0x5C, CHR ''n'']
      else if n = 13 then [CHR 0x5C, CHR ''r'']
      else if n = 9 then [CHR 0x5C, CHR ''t'']
      else if n < 32 \<or> (127 \<le> n \<and> n < 161) \<or> n = 173
      then [CHR 0x5C, CHR ''x'', hex_digit (n div 16), hex_digit (n mod 16)]
      else [c])"

definition repr_str :: "string \<Rightarrow> string" where
  "repr_str s =
     (let q = (if CHR 0x27 \<in> set s \<and> CHR 0x22 \<notin> set s then CHR 0x22 else CHR 0x27)
      in q # concat (map (repr_char q) s) @ [q])"

fun join :: "'a list \<Rightarrow> 'a list list \<Rightarrow> 'a list" where
  "join sep [] = []"
| "join sep [x] = x"
| "join sep (x # y # xs) = x @ sep @ join sep (y # xs)"

primrec py_repr :: "pv \<Rightarrow> string" where
  "py_repr PNone = ''None''"
| "py_repr (PBool b) = (if b then ''True'' else ''False'')"
| "py_repr (PInt i) = int_str i"
| "py_repr (PStr s) = repr_str s"
| "py_repr (PList xs) = ''['' @ join '', '' (map py_repr xs) @ '']''"
| "py_repr (PDict d) =
     ''{'' @ join '', '' (map (\<lambda>kr. repr_str (fst kr) @ '': '' @ snd kr) (map (map_prod id py_repr) d)) @ ''}''"

fun py_str :: "pv \<Rightarrow> string" where
  "py_str (PStr s) = s"
| "py_str v = py_repr v"

text \<open>\<^verbatim>\<open>needle in text\<close>.\<close>

fun contains :: "string \<Rightarrow> string \<Rightarrow> bool" where
  "contains needle [] = (needle = [])"
| "contains needle (c # cs) = (take (length needle) (c # cs) = needle \<or> contains needle cs)"

section \<open>Canonical JSON\<close>

definition json_char :: "char \<Rightarrow> string" where
  "json_char c =
     (let n = (of_char c :: nat) in
      if c = CHR 0x22 \<or> c = CHR 0x5C then [CHR 0x5C, c]
      else if c = CHR 0x0A then [CHR 0x5C, CHR ''n'']
      else if c = CHR 0x0D then [CHR 0x5C, CHR ''r'']
      else if c = CHR 0x09 then [CHR 0x5C, CHR ''t'']
      else if c = CHR 0x0C then [CHR 0x5C, CHR ''f'']
      else if c = CHR 0x08 then [CHR 0x5C, CHR ''b'']
      else if n < 32 \<or> 127 \<le> n
      then [CHR 0x5C, CHR ''u'', CHR ''0'', CHR ''0'', hex_digit (n div 16), hex_digit (n mod 16)]
      else [c])"

definition json_str :: "string \<Rightarrow> string" where
  "json_str s = CHR 0x22 # concat (map json_char s) @ [CHR 0x22]"

text \<open>\<^verbatim>\<open>json.dumps(v)\<close> with the default separators, items in insertion order.\<close>

primrec json_line :: "pv \<Rightarrow> string" where
  "json_line PNone = ''null''"
| "json_line (PBool b) = (if b then ''true'' else ''false'')"
| "json_line (PInt i) = int_str i"
| "json_line (PStr s) = json_str s"
| "json_line (PList xs) = ''['' @ join '', '' (map json_line xs) @ '']''"
| "json_line (PDict d) =
     ''{'' @ join '', '' (map (\<lambda>kr. json_str (fst kr) @ '': '' @ snd kr) (map (map_prod id json_line) d)) @ ''}''"

definition newline_indent :: "nat \<Rightarrow> string" where
  "newline_indent lvl = CHR 0x0A # replicate (2 * lvl) (CHR '' '')"

definition json_block :: "char \<Rightarrow> char \<Rightarrow> nat \<Rightarrow> string list \<Rightarrow> string" where
  "json_block opn cls lvl items =
     (if items = [] then [opn, cls]
      else opn # newline_indent (Suc lvl)
        @ join ('','' @ newline_indent (Suc lvl)) items @ newline_indent lvl @ [cls])"

text \<open>
  The encoder at nesting depth \<open>lvl\<close>.  Items of a dictionary are sorted by key; the sort is stable and
  keys are distinct, so sorting the encoded items by key gives the order of \<^verbatim>\<open>sorted(d.items())\<close>.
\<close>

primrec json_at :: "pv \<Rightarrow> nat \<Rightarrow> string" where
  "json_at PNone = (\<lambda>lvl. ''null'')"
| "json_at (PBool b) = (\<lambda>lvl. if b then ''true'' else ''false'')"
| "json_at (PInt i) = (\<lambda>lvl. int_str i)"
| "json_at (PStr s) = (\<lambda>lvl. json_str s)"
| "json_at (PList xs) = (\<lambda>lvl. json_block (CHR ''['') (CHR '']'') lvl
     (map (\<lambda>f. f (Suc lvl)) (map json_at xs)))"
| "json_at (PDict d) = (\<lambda>lvl. json_block (CHR ''{'') (CHR ''}'') lvl
     (map (\<lambda>kf. json_str (fst kf) @ '': '' @ snd kf (Suc lvl))
        (sort_key fst (map (map_prod id json_at) d))))"

definition json_dumps :: "pv \<Rightarrow> string" where
  "json_dumps v = json_at v 0"

text \<open>The value read back from its encoding: the same value with every dictionary sorted by key.\<close>

primrec canon :: "pv \<Rightarrow> pv" where
  "canon PNone = PNone"
| "canon (PBool b) = PBool b"
| "canon (PInt i) = PInt i"
| "canon (PStr s) = PStr s"
| "canon (PList xs) = PList (map canon xs)"
| "canon (PDict d) = PDict (sort_key fst (map (map_prod id canon) d))"

text \<open>The encoder without sorting.\<close>

primrec jtext :: "pv \<Rightarrow> nat \<Rightarrow> string" where
  "jtext PNone = (\<lambda>lvl. ''null'')"
| "jtext (PBool b) = (\<lambda>lvl. if b then ''true'' else ''false'')"
| "jtext (PInt i) = (\<lambda>lvl. int_str i)"
| "jtext (PStr s) = (\<lambda>lvl. json_str s)"
| "jtext (PList xs) = (\<lambda>lvl. json_block (CHR ''['') (CHR '']'') lvl
     (map (\<lambda>f. f (Suc lvl)) (map jtext xs)))"
| "jtext (PDict d) = (\<lambda>lvl. json_block (CHR ''{'') (CHR ''}'') lvl
     (map (\<lambda>kf. json_str (fst kf) @ '': '' @ snd kf (Suc lvl)) (map (map_prod id jtext) d)))"

lemma insort_map_prod:
  "insort_key fst (k, f v) (map (map_prod id f) d) = map (map_prod id f) (insort_key fst (k, v) d)"
  by (induction d) auto

lemma sort_map_prod: "sort_key fst (map (map_prod id f) d) = map (map_prod id f) (sort_key fst d)"
proof (induction d)
  case Nil
  then show ?case by simp
next
  case (Cons kv d)
  then show ?case using insort_map_prod [of _ f] by (cases kv) (simp add: id_def)
qed

lemma json_at_canon: "json_at v = jtext (canon v)"
proof (induction v)
  case (PList xs)
  then show ?case by (simp add: o_def cong: map_cong)
next
  case (PDict d)
  have "map (map_prod id json_at) d = map (map_prod id jtext) (map (map_prod id canon) d)"
    using PDict by (force simp: prod.map_comp)
  then show ?case by (simp add: sort_map_prod [symmetric] del: map_map)
qed simp_all

section \<open>The encoding determines the value\<close>

definition ends_value :: "string \<Rightarrow> bool" where
  "ends_value x \<longleftrightarrow> x = [] \<or> hd x = CHR '','' \<or> hd x = CHR 0x0A"

lemma ends_value_simps [simp]:
  "ends_value []" "ends_value (CHR '','' # x)" "ends_value (CHR 0x0A # x)"
  by (simp_all add: ends_value_def)

definition int_char :: "char \<Rightarrow> bool" where
  "int_char c \<longleftrightarrow> is_digit c \<or> c = CHR ''-''"

lemma int_str_chars: "list_all int_char (int_str i)"
  using nat_str_digits by (auto simp: int_str_def int_char_def list_all_iff)

lemma int_str_head: "int_str i @ x = c # r \<Longrightarrow> int_char c"
  using int_str_chars [of i] int_str_not_Nil [of i] by (cases "int_str i") auto

lemma int_str_prefix:
  assumes "int_str i @ x = int_str j @ y" and "ends_value x" and "ends_value y"
  shows "i = j \<and> x = y"
proof -
  have stop: "takeWhile int_char (int_str k @ z) = int_str k" if "ends_value z" for k z
    using that int_str_chars [of k]
    by (cases z) (auto simp: ends_value_def int_char_def is_digit_def list_all_iff takeWhile_append)
  from assms have "int_str i = int_str j" using stop by metis
  with assms(1) show ?thesis by simp
qed

lemma hex_digit_inject: "m < 16 \<Longrightarrow> n < 16 \<Longrightarrow> hex_digit m = hex_digit n \<longleftrightarrow> m = n"
  using hex_val_digit by (metis option.inject)

definition read_json_char :: "string \<Rightarrow> char \<times> string" where
  "read_json_char t =
     (if t ! 0 \<noteq> CHR 0x5C then (t ! 0, drop 1 t)
      else if t ! 1 = CHR ''n'' then (CHR 0x0A, drop 2 t)
      else if t ! 1 = CHR ''r'' then (CHR 0x0D, drop 2 t)
      else if t ! 1 = CHR ''t'' then (CHR 0x09, drop 2 t)
      else if t ! 1 = CHR ''f'' then (CHR 0x0C, drop 2 t)
      else if t ! 1 = CHR ''b'' then (CHR 0x08, drop 2 t)
      else if t ! 1 = CHR ''u''
      then (char_of (16 * the (hex_val (t ! 4)) + the (hex_val (t ! 5))), drop 6 t)
      else (t ! 1, drop 2 t))"

lemma of_char_less_256: "of_char c < (256 :: nat)"
  by simp

lemma read_json_char_code: "read_json_char (json_char c @ x) = (c, x)"
proof -
  have hex: "hex_val (hex_digit (of_char c div 16)) = Some (of_char c div 16)"
    "hex_val (hex_digit (of_char c mod 16)) = Some (of_char c mod 16)"
    using less_mult_imp_div_less [of "of_char c" 16 16] of_char_less_256 [of c]
    by (simp_all add: hex_val_digit)
  show ?thesis
    by (cases "c \<in> {CHR 0x22, CHR 0x5C, CHR 0x0A, CHR 0x0D, CHR 0x09, CHR 0x0C, CHR 0x08}")
      (auto simp: json_char_def Let_def read_json_char_def hex)
qed

lemma json_char_prefix: "json_char c @ x = json_char d @ y \<Longrightarrow> c = d \<and> x = y"
  using read_json_char_code by (metis prod.inject)

lemma json_char_head: "json_char c @ x \<noteq> CHR 0x22 # y"
  by (auto simp: json_char_def Let_def)

lemma json_chars_prefix:
  "concat (map json_char s) @ CHR 0x22 # x = concat (map json_char t) @ CHR 0x22 # y \<Longrightarrow> s = t \<and> x = y"
proof (induction s arbitrary: t)
  case Nil
  then show ?case by (cases t) (auto simp: json_char_head [symmetric])
next
  case (Cons c s)
  show ?case
  proof (cases t)
    case Nil
    then show ?thesis using Cons.prems by (simp add: json_char_head)
  next
    case (Cons d t')
    with Cons.prems json_char_prefix [of c "concat (map json_char s) @ CHR 0x22 # x" d]
      Cons.IH [of t'] show ?thesis by auto
  qed
qed

lemma json_str_prefix: "json_str s @ x = json_str t @ y \<Longrightarrow> s = t \<and> x = y"
  using json_chars_prefix [of s x t y] by (simp add: json_str_def)

lemma join_prefix:
  assumes elem: "\<And>v w x y. v \<in> set vs \<Longrightarrow> ends_value x \<Longrightarrow> ends_value y \<Longrightarrow>
      f v @ x = f w @ y \<Longrightarrow> v = w \<and> x = y"
    and eq: "join (CHR '','' # s) (map f vs) @ CHR 0x0A # x
      = join (CHR '','' # s) (map f ws) @ CHR 0x0A # y"
    and "vs \<noteq> []" and "ws \<noteq> []"
  shows "vs = ws \<and> x = y"
  using assms
proof (induction vs arbitrary: ws)
  case Nil
  then show ?case by simp
next
  case (Cons v vs)
  from Cons.prems(4) obtain w ws' where ws: "ws = w # ws'" by (cases ws) auto
  have first: "join (CHR '','' # s) (map f (u # us)) @ CHR 0x0A # z
      = f u @ (if us = [] then CHR 0x0A # z
               else CHR '','' # s @ join (CHR '','' # s) (map f us) @ CHR 0x0A # z)" for u us z
    by (cases us) simp_all
  have "v = w \<and> (if vs = [] then CHR 0x0A # x
               else CHR '','' # s @ join (CHR '','' # s) (map f vs) @ CHR 0x0A # x)
      = (if ws' = [] then CHR 0x0A # y
               else CHR '','' # s @ join (CHR '','' # s) (map f ws') @ CHR 0x0A # y)"
    by (rule Cons.prems(1)) (use Cons.prems(2) in \<open>simp_all add: ws first del: join.simps list.map\<close>)
  moreover have "vs = ws' \<and> x = y" if "vs \<noteq> []" "ws' \<noteq> []"
    "join (CHR '','' # s) (map f vs) @ CHR 0x0A # x = join (CHR '','' # s) (map f ws') @ CHR 0x0A # y"
    by (rule Cons.IH [OF _ that(3,1,2)]) (rule Cons.prems(1); simp)
  ultimately show ?case by (auto simp: ws split: if_splits)
qed

lemma json_block_prefix:
  assumes elem: "\<And>v w x y. v \<in> set vs \<Longrightarrow> ends_value x \<Longrightarrow> ends_value y \<Longrightarrow>
      f v @ x = f w @ y \<Longrightarrow> v = w \<and> x = y"
    and opens: "opn \<noteq> CHR 0x0A" "cls \<noteq> CHR 0x0A"
    and eq: "json_block opn cls lvl (map f vs) @ x = json_block opn cls lvl (map f ws) @ y"
  shows "vs = ws \<and> x = y"
proof (cases "vs = [] \<or> ws = []")
  case True
  with eq opens show ?thesis by (auto simp: json_block_def newline_indent_def split: if_splits)
next
  case False
  let ?s = "newline_indent (Suc lvl)" and ?e = "replicate (2 * lvl) (CHR '' '') @ [cls]"
  have unfold: "json_block opn cls lvl (map f us) @ z
      = opn # ?s @ join (CHR '','' # ?s) (map f us) @ CHR 0x0A # ?e @ z" if "us \<noteq> []" for us z
    using that by (simp add: json_block_def newline_indent_def)
  from False have vs: "vs \<noteq> []" and ws: "ws \<noteq> []" by simp_all
  from eq [unfolded unfold [OF vs] unfold [OF ws]]
  have tails: "join (CHR '','' # ?s) (map f vs) @ CHR 0x0A # ?e @ x
      = join (CHR '','' # ?s) (map f ws) @ CHR 0x0A # ?e @ y" by simp
  have "vs = ws \<and> ?e @ x = ?e @ y"
    by (rule join_prefix [OF _ tails vs ws]) (rule elem)
  then show ?thesis by simp
qed

lemma json_block_head: "json_block opn cls lvl items @ x = c # r \<Longrightarrow> c = opn"
  by (auto simp: json_block_def split: if_splits)

lemma json_str_head: "json_str s @ x = c # r \<Longrightarrow> c = CHR 0x22"
  by (simp add: json_str_def)

lemma jtext_lead:
  "hd (jtext v lvl @ x) =
     (case v of PNone \<Rightarrow> CHR ''n'' | PBool b \<Rightarrow> if b then CHR ''t'' else CHR ''f''
      | PInt i \<Rightarrow> hd (int_str i) | PStr s \<Rightarrow> CHR 0x22 | PList l \<Rightarrow> CHR ''['' | PDict d \<Rightarrow> CHR ''{'')"
  by (cases v) (auto simp: json_str_def json_block_def)

lemma int_str_lead: "int_char (hd (int_str i))"
  using int_str_head [of i "[]"] int_str_not_Nil [of i] by (metis append_Nil2 list.exhaust_sel)

lemma int_lead_distinct:
  "hd (int_str i) \<noteq> CHR ''n''" "hd (int_str i) \<noteq> CHR ''t''" "hd (int_str i) \<noteq> CHR ''f''"
  "hd (int_str i) \<noteq> CHR 0x22" "hd (int_str i) \<noteq> CHR ''[''" "hd (int_str i) \<noteq> CHR ''{''"
  using int_str_lead [of i] by (auto simp: int_char_def is_digit_def)

lemma jtext_same_shape:
  assumes "jtext v lvl @ x = jtext w lvl @ y"
  shows "(case v of PNone \<Rightarrow> w = PNone | PBool b \<Rightarrow> w = PBool b | PInt i \<Rightarrow> is_int w
    | PStr s \<Rightarrow> is_str w | PList l \<Rightarrow> is_list w | PDict d \<Rightarrow> is_dict w)"
proof -
  from assms have "hd (jtext v lvl @ x) = hd (jtext w lvl @ y)" by simp
  then show ?thesis
    unfolding jtext_lead
    by (cases v; cases w) (auto simp: int_lead_distinct int_lead_distinct [symmetric] split: if_splits)
qed

lemma jtext_prefix:
  assumes "jtext v lvl @ x = jtext w lvl @ y" and "ends_value x" and "ends_value y"
  shows "v = w \<and> x = y"
  using assms
proof (induction v arbitrary: w lvl x y)
  case PNone
  with jtext_same_shape [OF PNone(1)] show ?case by auto
next
  case (PBool b)
  with jtext_same_shape [OF PBool(1)] show ?case by auto
next
  case (PInt i)
  from jtext_same_shape [OF PInt(1)] obtain j where w: "w = PInt j" by (cases w) auto
  with PInt int_str_prefix [of i x j y] show ?case by auto
next
  case (PStr s)
  from jtext_same_shape [OF PStr(1)] obtain t where w: "w = PStr t" by (cases w) auto
  with PStr json_str_prefix [of s x t y] show ?case by auto
next
  case (PList l)
  from jtext_same_shape [OF PList.prems(1)] obtain l' where w: "w = PList l'" by (cases w) auto
  have "l = l' \<and> x = y"
    by (rule json_block_prefix [where f = "\<lambda>v. jtext v (Suc lvl)" and lvl = lvl])
      (use PList w in \<open>auto simp: o_def\<close>)
  with w show ?case by simp
next
  case (PDict d)
  from jtext_same_shape [OF PDict.prems(1)] obtain d' where w: "w = PDict d'" by (cases w) auto
  let ?f = "\<lambda>kv. json_str (fst kv) @ '': '' @ jtext (snd kv) (Suc lvl)"
  have item: "kv = kv' \<and> x' = y'" if "kv \<in> set d" "ends_value x'" "ends_value y'"
    "?f kv @ x' = ?f kv' @ y'" for kv kv' x' y'
  proof -
    from that(4) json_str_prefix [of "fst kv" "'': '' @ jtext (snd kv) (Suc lvl) @ x'"
        "fst kv'" "'': '' @ jtext (snd kv') (Suc lvl) @ y'"]
    have "fst kv = fst kv'" "jtext (snd kv) (Suc lvl) @ x' = jtext (snd kv') (Suc lvl) @ y'" by simp_all
    with PDict.IH [of kv "snd kv" "Suc lvl" x' "snd kv'" y'] that show ?thesis
      by (auto simp: prod_eq_iff snds.simps)
  qed
  have "d = d' \<and> x = y"
    by (rule json_block_prefix [where f = ?f and lvl = lvl, OF item])
      (use PDict.prems w in \<open>simp_all add: o_def\<close>)
  with w show ?case by simp
qed

lemma json_dumps_inject: "json_dumps v = json_dumps w \<longleftrightarrow> canon v = canon w"
  using jtext_prefix [of "canon v" 0 "[]" "canon w" "[]"] by (auto simp: json_dumps_def json_at_canon)

section \<open>Dictionaries up to the order of items\<close>

definition canon_items :: "obj \<Rightarrow> obj" where
  "canon_items d = sort_key fst (map (map_prod id canon) d)"

lemma canon_PDict: "canon (PDict d) = PDict (canon_items d)"
  by (simp add: canon_items_def)

lemma map_fst_canon_items: "map fst (canon_items d) = sort (map fst d)"
proof -
  have "map fst (insort_key fst x xs) = insort (fst x) (map fst xs)" for x and xs :: obj
    by (induction xs) auto
  then have "map fst (sort_key fst xs) = sort (map fst xs)" for xs :: obj
    by (induction xs) auto
  then show ?thesis by (simp add: canon_items_def comp_def)
qed

lemma dict_wf_canon_items [simp]: "dict_wf (canon_items d) \<longleftrightarrow> dict_wf d"
  by (simp add: dict_wf_def map_fst_canon_items)

lemma map_of_map_canon: "map_of (map (map_prod id canon) d) k = map_option canon (map_of d k)"
  by (induction d) auto

lemma map_of_canon_items: "dict_wf d \<Longrightarrow> map_of (canon_items d) k = map_option canon (map_of d k)"
proof -
  assume wf: "dict_wf d"
  have "map fst (map (map_prod id canon) d) = map fst d" by simp
  then have "distinct (map fst (map (map_prod id canon) d))" using wf by (simp only: dict_wf_def)
  moreover have "distinct (map fst (canon_items d))" using wf by (simp add: map_fst_canon_items dict_wf_def)
  moreover have "set (canon_items d) = set (map (map_prod id canon) d)" by (simp add: canon_items_def)
  ultimately have "map_of (canon_items d) = map_of (map (map_prod id canon) d)"
    using map_of_inject_set by blast
  then show "map_of (canon_items d) k = map_option canon (map_of d k)" by (simp only: map_of_map_canon)
qed

lemma py_get_canon_items: "dict_wf d \<Longrightarrow> py_get (canon_items d) k = canon (py_get d k)"
  by (simp add: get_or_def map_of_canon_items split: option.splits)

lemma canon_dict_eq_iff:
  assumes "dict_wf d" and "dict_wf e"
  shows "canon (PDict d) = canon (PDict e) \<longleftrightarrow>
    (\<forall>k. map_option canon (map_of d k) = map_option canon (map_of e k))"
proof
  assume "canon (PDict d) = canon (PDict e)"
  then show "\<forall>k. map_option canon (map_of d k) = map_option canon (map_of e k)"
    using assms map_of_canon_items by (metis canon_PDict pv.inject(5))
next
  assume "\<forall>k. map_option canon (map_of d k) = map_option canon (map_of e k)"
  then have "map_of (canon_items d) = map_of (canon_items e)"
    using assms by (simp add: fun_eq_iff map_of_canon_items)
  moreover have dist: "distinct (map fst (canon_items d))" "distinct (map fst (canon_items e))"
    using assms by (simp_all add: dict_wf_def map_fst_canon_items)
  ultimately have sets: "set (canon_items d) = set (canon_items e)"
    by (simp add: map_of_inject_set)
  have "canon_items d = canon_items e"
  proof (rule map_sorted_distinct_set_unique)
    show "inj_on fst (set (canon_items d) \<union> set (canon_items e))"
      using dist(1) sets by (simp add: distinct_map)
  qed (use dist sets in \<open>simp_all add: map_fst_canon_items\<close>)
  then show "canon (PDict d) = canon (PDict e)" by (simp only: canon_PDict)
qed

lemma canon_idem [simp]: "canon (canon v) = canon v"
proof (induction v)
  case (PDict d)
  have "map (map_prod id canon) (canon_items d) = canon_items d"
    using PDict by (force simp: canon_items_def prod.map_comp intro!: map_idI)
  then have "canon_items (canon_items d) = canon_items d"
    unfolding canon_items_def [of "canon_items d"]
    by (simp add: sort_key_id_if_sorted map_fst_canon_items)
  then show ?case by (simp only: canon_PDict)
qed simp_all

lemma canon_atoms [simp]:
  "canon v = PNone \<longleftrightarrow> v = PNone" "canon v = PStr s \<longleftrightarrow> v = PStr s" "canon v = PInt i \<longleftrightarrow> v = PInt i"
  "canon v = PBool b \<longleftrightarrow> v = PBool b" "truthy (canon v) = truthy v" "is_dict (canon v) = is_dict v"
  "is_str (canon v) = is_str v"
proof -
  have "sort_key fst (map (map_prod id canon) d) = [] \<longleftrightarrow> d = []" for d
    by (metis length_0_conv length_map length_sort)
  then show "truthy (canon v) = truthy v" by (cases v) simp_all
qed (cases v; simp)+

end
