(* ===== verification/Runner_Identity.thy ===== *)
theory Runner_Identity
  imports Json_Text
begin

text \<open>
  \<^verbatim>\<open>scripts/forensic/identity.py\<close>: the registry of runner identities.  A runner entry is a dictionary;
  the registry indexes the entries by \<^verbatim>\<open>runner/id\<close> and by \<^verbatim>\<open>runner/public-key\<close>.  Keys of the two indexes
  are JSON values, as the code takes them from the entry without a type check.
\<close>

record identity_registry =
  by_id :: "(pv \<times> obj) list"
  by_key :: "(pv \<times> obj) list"

definition registry_schema_version :: string where
  "registry_schema_version = ''runner-identity-registry.v1''"

definition valid_statuses :: "string list" where
  "valid_statuses = [''trusted'', ''unknown'', ''inactive'', ''revoked'']"

definition status_severities :: "(string \<times> string) list" where
  "status_severities =
     [(''trusted'', ''pass''), (''unknown'', ''warn''), (''inactive'', ''fail''), (''revoked'', ''fail'')]"

definition index_entry ::
    "pv \<Rightarrow> obj \<Rightarrow> (pv \<times> obj) list \<Rightarrow> py_error + (pv \<times> obj) list" where
  "index_entry k entry index =
     (if \<not> truthy k then Inr index
      else if \<not> hashable k then Inl TypeError
      else Inr (dset k entry index))"

definition add_identity :: "identity_registry \<Rightarrow> pv \<Rightarrow> py_error + identity_registry" where
  "add_identity R entry0 =
     bindE (as_dict entry0) (\<lambda>entry.
     bindE (index_entry (py_get entry ''runner/id'') entry (by_id R)) (\<lambda>ids.
     bindE (index_entry (py_get entry ''runner/public-key'') entry (by_key R)) (\<lambda>keys.
     Inr \<lparr>by_id = ids, by_key = keys\<rparr>)))"

definition registry_of :: "pv list \<Rightarrow> py_error + identity_registry" where
  "registry_of identities = foldE add_identity \<lparr>by_id = [], by_key = []\<rparr> identities"

text \<open>
  \<^verbatim>\<open>IdentityRegistry.load\<close> on the parsed document.  A missing \<^verbatim>\<open>runners\<close> field is the empty list; a
  string or dictionary there yields elements that are no dictionaries, any other value is not iterable.
\<close>

definition load_registry :: "pv \<Rightarrow> py_error + identity_registry" where
  "load_registry data0 =
     bindE (as_dict data0) (\<lambda>data.
     let sv = py_get data ''identity-registry/schema-version'' in
     if sv \<noteq> PStr registry_schema_version
     then Inl (ValueError (''Unknown registry schema version: '' @ py_str sv))
     else case get_or data ''runners'' (PList []) of
       PList runners \<Rightarrow> registry_of runners
     | v \<Rightarrow> if \<not> truthy v then registry_of []
            else if is_str v \<or> is_dict v then Inl AttributeError else Inl TypeError)"

definition lookup_index :: "(pv \<times> obj) list \<Rightarrow> pv \<Rightarrow> py_error + obj option" where
  "lookup_index index k = (if hashable k then Inr (map_of index k) else Inl TypeError)"

definition lookup_by_id :: "identity_registry \<Rightarrow> pv \<Rightarrow> py_error + obj option" where
  "lookup_by_id R = lookup_index (by_id R)"

definition lookup_by_key :: "identity_registry \<Rightarrow> pv \<Rightarrow> py_error + obj option" where
  "lookup_by_key R = lookup_index (by_key R)"

definition entry_of :: "obj option \<Rightarrow> obj" where
  "entry_of e = (case e of None \<Rightarrow> [] | Some d \<Rightarrow> d)"

definition runner_status :: "identity_registry \<Rightarrow> pv \<Rightarrow> pv \<Rightarrow> py_error + pv" where
  "runner_status R runner_id public_key =
     bindE (if truthy runner_id then lookup_by_id R runner_id else Inr None) (\<lambda>e1.
     bindE (if entry_of e1 = [] \<and> truthy public_key then lookup_by_key R public_key else Inr e1) (\<lambda>e2.
     if entry_of e2 = [] then Inr (PStr ''unknown'')
     else Inr (get_or (entry_of e2) ''runner/status'' (PStr ''unknown''))))"

definition status_severity :: "identity_registry \<Rightarrow> pv \<Rightarrow> pv \<Rightarrow> py_error + string" where
  "status_severity R runner_id public_key =
     bindE (runner_status R runner_id public_key) (\<lambda>s.
     if \<not> hashable s then Inl TypeError
     else if is_str s then Inr (get_or status_severities (str_of s) ''warn'') else Inr ''warn'')"

definition runner_public_key :: "identity_registry \<Rightarrow> pv \<Rightarrow> py_error + pv" where
  "runner_public_key R runner_id =
     bindE (lookup_by_id R runner_id) (\<lambda>e.
     if entry_of e = [] then Inr PNone else Inr (py_get (entry_of e) ''runner/public-key''))"

definition all_runners :: "identity_registry \<Rightarrow> obj list" where
  "all_runners R = map snd (by_id R)"

definition runner_count :: "identity_registry \<Rightarrow> nat" where
  "runner_count R = length (by_id R)"

definition make_registry :: "pv list \<Rightarrow> pv" where
  "make_registry runners =
     PDict [(''identity-registry/schema-version'', PStr registry_schema_version),
            (''runners'', PList runners)]"

section \<open>Invariant\<close>

text \<open>
  Both indexes have distinct keys, and every entry is stored under the identifier or public key it
  names, which is truthy.
\<close>

definition indexed_by :: "string \<Rightarrow> (pv \<times> obj) list \<Rightarrow> bool" where
  "indexed_by field index \<longleftrightarrow> distinct (map fst index) \<and>
     list_all (\<lambda>(k, e). truthy k \<and> hashable k \<and> py_get e field = k) index"

definition registry_inv :: "identity_registry \<Rightarrow> bool" where
  "registry_inv R \<longleftrightarrow> indexed_by ''runner/id'' (by_id R) \<and> indexed_by ''runner/public-key'' (by_key R)"

lemma set_dset_subset: "set (dset k v d) \<subseteq> insert (k, v) (set d)"
  by (induction d) auto

lemma indexed_by_index_entry:
  assumes "indexed_by field index" and "index_entry (py_get entry field) entry index = Inr index'"
  shows "indexed_by field index'"
  using assms set_dset_subset [of "py_get entry field" entry index]
  by (auto simp: index_entry_def indexed_by_def distinct_update list_all_iff split: if_splits)

lemma indexed_by_lookup:
  "indexed_by field index \<Longrightarrow> map_of index k = Some e \<Longrightarrow> py_get e field = k \<and> truthy k \<and> e \<noteq> []"
  by (auto simp: indexed_by_def list_all_iff get_or_def dest!: map_of_SomeD)

lemma registry_inv_add: "registry_inv R \<Longrightarrow> add_identity R e = Inr R' \<Longrightarrow> registry_inv R'"
  by (auto simp: add_identity_def registry_inv_def ok_iff intro: indexed_by_index_entry)

lemma registry_inv_of: "registry_of runners = Inr R \<Longrightarrow> registry_inv R"
  unfolding registry_of_def
  by (rule foldE_invariant [where P = registry_inv], erule (1) registry_inv_add, assumption)
    (simp add: registry_inv_def indexed_by_def)

lemma load_registry_Inr:
  assumes "load_registry data = Inr R"
  obtains runners where "registry_of runners = Inr R"
  using assms that
  by (auto simp only: load_registry_def bindE_Inr_iff Let_def Inl_Inr_False split: if_split_asm pv.split_asm)

lemma registry_inv_load: "load_registry data = Inr R \<Longrightarrow> registry_inv R"
  by (erule load_registry_Inr) (rule registry_inv_of)

text \<open>Looking up what a registration sequence registered: the last entry that names the identifier.\<close>

definition last_naming :: "string \<Rightarrow> pv list \<Rightarrow> pv \<Rightarrow> obj option" where
  "last_naming field entries k =
     (case filter (\<lambda>e. py_get (dict_of e) field = k) (rev entries) of
        [] \<Rightarrow> None | e # _ \<Rightarrow> Some (dict_of e))"

lemma last_naming_snoc:
  "last_naming field (es @ [e]) k =
     (if py_get (dict_of e) field = k then Some (dict_of e) else last_naming field es k)"
  by (simp add: last_naming_def)

lemma index_entry_map_of:
  "index_entry k e index = Inr index' \<Longrightarrow>
     map_of index' j = (if truthy k \<and> j = k then Some e else map_of index j)"
  by (auto simp: index_entry_def split: if_splits)

lemma registry_of_lookup:
  assumes "registry_of entries = Inr R" and "truthy k"
  shows "map_of (by_id R) k = last_naming ''runner/id'' entries k"
    and "map_of (by_key R) k = last_naming ''runner/public-key'' entries k"
proof -
  have "map_of (by_id R) k = last_naming ''runner/id'' entries k \<and>
    map_of (by_key R) k = last_naming ''runner/public-key'' entries k"
    using assms(1)
  proof (induction entries arbitrary: R rule: rev_induct)
    case Nil
    then show ?case by (auto simp: registry_of_def last_naming_def)
  next
    case (snoc e es)
    then obtain R0 d where "registry_of es = Inr R0" "e = PDict d"
      "index_entry (py_get d ''runner/id'') d (by_id R0) = Inr (by_id R)"
      "index_entry (py_get d ''runner/public-key'') d (by_key R0) = Inr (by_key R)"
      by (auto simp: registry_of_def foldE_append add_identity_def ok_iff)
    with snoc.IH assms(2) show ?case
      by (auto simp: last_naming_snoc dest!: index_entry_map_of [where j = k])
  qed
  then show "map_of (by_id R) k = last_naming ''runner/id'' entries k"
    and "map_of (by_key R) k = last_naming ''runner/public-key'' entries k" by simp_all
qed

end
