(* ===== verification/Runner_Signatures.thy ===== *)
theory Runner_Signatures
  imports Runner_Identity
begin

text \<open>
  \<^verbatim>\<open>scripts/forensic/signatures.py\<close>: signing and verification of runner messages.  The third-party
  package \<^verbatim>\<open>nacl\<close> and the hash are the fields of the parameter record \<open>crypto\<close>; the clock is an
  argument.  The hash is applied to canonical JSON, which is ASCII text.
\<close>

datatype verify_result = Verified | BadSignature | VerifyFailed string

record crypto =
  sha256_text :: "string \<Rightarrow> string"
  seed_public_key :: "string \<Rightarrow> string option"
  seed_sign :: "string \<Rightarrow> string \<Rightarrow> string"
  key_verify :: "pv \<Rightarrow> string \<Rightarrow> pv \<Rightarrow> verify_result"

section \<open>Canonical encodings\<close>

definition canonical_json :: "obj \<Rightarrow> string list \<Rightarrow> string" where
  "canonical_json data exclude =
     json_dumps (PDict (if exclude \<noteq> [] then without_keys exclude data else data))"

definition hash_exclude_keys :: "string list" where
  "hash_exclude_keys = [''runner-message/hash'', ''runner-message/signature'']"

definition sign_exclude_keys :: "string list" where
  "sign_exclude_keys = [''runner-message/signature'']"

definition message_hash :: "crypto \<Rightarrow> obj \<Rightarrow> string" where
  "message_hash C msg = sha256_text C (canonical_json msg hash_exclude_keys)"

section \<open>Key files\<close>

definition key_file_payload :: "string \<Rightarrow> string \<Rightarrow> string \<Rightarrow> obj" where
  "key_file_payload runner_id seed_b64 pub_b64 =
     [(''runner-key/schema-version'', PStr ''runner-key.v1''),
      (''runner-key/type'', PStr ''ed25519-seed''),
      (''runner-key/runner-id'', PStr runner_id),
      (''runner-key/private-seed-b64'', PStr seed_b64),
      (''runner-key/public-key-b64'', PStr pub_b64)]"

definition read_key_file :: "pv \<Rightarrow> py_error + obj" where
  "read_key_file data0 =
     bindE (as_dict data0) (\<lambda>data.
     let sv = py_get data ''runner-key/schema-version''; kt = py_get data ''runner-key/type'' in
     if sv \<noteq> PStr ''runner-key.v1''
     then Inl (ValueError (''Unknown key file schema version: '' @ py_str sv))
     else if kt \<noteq> PStr ''ed25519-seed'' then Inl (ValueError (''Unknown key type: '' @ py_str kt))
     else Inr data)"

section \<open>Signing\<close>

text \<open>
  \<^verbatim>\<open>SigningKey\<close> raises on a seed that is not the encoding of 32 bytes; the model's
  \<open>seed_public_key\<close> is \<^const>\<open>None\<close> there.
\<close>

definition signature_field :: "string \<Rightarrow> string \<Rightarrow> string \<Rightarrow> obj" where
  "signature_field verify_key_b64 sig_b64 now =
     [(''runner-signature/schema-version'', PStr ''runner-signature.v1''),
      (''runner-signature/algorithm'', PStr ''ed25519''),
      (''runner-signature/public-key'', PStr verify_key_b64),
      (''runner-signature/value'', PStr sig_b64),
      (''runner-signature/signed-at'', PStr now)]"

definition sign_message :: "crypto \<Rightarrow> string \<Rightarrow> obj \<Rightarrow> string \<Rightarrow> py_error + obj" where
  "sign_message C now msg0 seed_b64 =
     (let msg = dsetdefault ''runner-message/hash'' (PStr (message_hash C msg0)) msg0;
          payload = canonical_json msg sign_exclude_keys in
      case seed_public_key C seed_b64 of
        None \<Rightarrow> Inl (ValueError ''signing key'')
      | Some verify_key_b64 \<Rightarrow>
          Inr (dset ''runner-message/signature''
            (PDict (signature_field verify_key_b64 (seed_sign C seed_b64 payload) now)) msg))"

section \<open>Verification\<close>

record sig_result =
  outcome :: string
  result_runner_id :: pv
  result_public_key :: pv
  detail :: string

definition sig_outcome :: "string \<Rightarrow> pv \<Rightarrow> string \<Rightarrow> pv \<Rightarrow> sig_result" where
  "sig_outcome out runner_id text pk =
     \<lparr>outcome = out, result_runner_id = runner_id, result_public_key = pk, detail = text\<rparr>"

text \<open>The part of \<^verbatim>\<open>verify_message\<close> after the signature has verified.\<close>

definition status_stage :: "identity_registry \<Rightarrow> pv \<Rightarrow> pv \<Rightarrow> py_error + sig_result" where
  "status_stage R runner_id pk =
     bindE (runner_status R runner_id pk) (\<lambda>status.
     if status = PStr ''trusted''
     then Inr (sig_outcome ''valid-trusted'' runner_id ''Signature valid, runner is trusted'' pk)
     else if status = PStr ''unknown''
     then Inr (sig_outcome ''valid-unknown'' runner_id
                 ''Signature valid, runner is unknown (not in registry)'' pk)
     else if status = PStr ''inactive''
     then Inr (sig_outcome ''valid-inactive'' runner_id
                 ''Signature valid but runner status is inactive'' pk)
     else if status = PStr ''revoked''
     then Inr (sig_outcome ''valid-revoked'' runner_id
                 ''Signature valid but runner key is revoked'' pk)
     else Inr (sig_outcome ''valid-unknown'' runner_id
                 (''Signature valid, runner status '' @ [CHR 0x27] @ py_str status @ [CHR 0x27]) pk))"

definition key_stage :: "identity_registry \<Rightarrow> pv \<Rightarrow> pv \<Rightarrow> py_error + sig_result" where
  "key_stage R runner_id pk =
     bindE (if truthy pk then lookup_by_key R pk else Inr None) (\<lambda>key_entry.
     let reg_id = py_get (entry_of key_entry) ''runner/id'' in
     if entry_of key_entry \<noteq> [] \<and> truthy reg_id \<and> truthy runner_id \<and> reg_id \<noteq> runner_id
     then Inr (sig_outcome ''registry-key-mismatch'' runner_id
            (''Public key belongs to runner '' @ py_str reg_id @ '', not '' @ py_str runner_id) pk)
     else status_stage R runner_id pk)"

definition registry_outcome ::
    "identity_registry option \<Rightarrow> pv \<Rightarrow> pv \<Rightarrow> py_error + sig_result" where
  "registry_outcome registry runner_id pk =
     (case registry of
        None \<Rightarrow> Inr (sig_outcome ''valid-unknown'' runner_id
                  ''Signature valid, no identity registry provided'' pk)
      | Some R \<Rightarrow>
          bindE (if truthy runner_id then runner_public_key R runner_id else Inr PNone) (\<lambda>reg_pk.
          if truthy runner_id \<and> truthy reg_pk \<and> reg_pk \<noteq> pk
          then Inr (sig_outcome ''registry-key-mismatch'' runner_id
                 (''Runner-id '' @ py_str runner_id @ '' maps to different key in registry'') pk)
          else key_stage R runner_id pk))"

definition verify_message ::
    "crypto \<Rightarrow> identity_registry option \<Rightarrow> obj \<Rightarrow> py_error + sig_result" where
  "verify_message C registry msg =
     (let sig0 = py_get msg ''runner-message/signature'';
          runner_id = py_get msg ''runner-message/runner-id'';
          sig = dict_of sig0;
          sv = py_get sig ''runner-signature/schema-version'';
          algo = py_get sig ''runner-signature/algorithm'';
          pk = py_get sig ''runner-signature/public-key'';
          sig_b64 = py_get sig ''runner-signature/value'';
          msg_hash = py_get msg ''runner-message/hash'' in
      if \<not> truthy sig0 then Inr (sig_outcome ''unsigned'' runner_id ''No signature field'' PNone)
      else if \<not> is_dict sig0
      then Inr (sig_outcome ''malformed'' runner_id ''Signature is not a dict'' PNone)
      else if sv \<noteq> PStr ''runner-signature.v1''
      then Inr (sig_outcome ''malformed'' runner_id
                  (''Unexpected signature schema version: '' @ py_str sv) PNone)
      else if algo \<noteq> PStr ''ed25519''
      then Inr (sig_outcome ''malformed'' runner_id (''Unexpected algorithm: '' @ py_str algo) PNone)
      else if \<not> truthy pk
      then Inr (sig_outcome ''malformed'' runner_id ''Missing public-key in signature'' PNone)
      else if \<not> truthy sig_b64
      then Inr (sig_outcome ''malformed'' runner_id ''Missing signature value'' PNone)
      else if truthy msg_hash \<and> msg_hash \<noteq> PStr (message_hash C msg)
      then Inr (sig_outcome ''hash-mismatch'' runner_id ''Message hash changed after signing'' pk)
      else case key_verify C pk (canonical_json msg sign_exclude_keys) sig_b64 of
        BadSignature \<Rightarrow> Inr (sig_outcome ''invalid-signature'' runner_id
          ''Ed25519 signature does not verify against embedded public key'' pk)
      | VerifyFailed e \<Rightarrow> Inr (sig_outcome ''malformed'' runner_id
          (''Signature verification error: '' @ e) pk)
      | Verified \<Rightarrow> registry_outcome registry runner_id pk)"

section \<open>Commitment of the hash\<close>

definition hash_collision :: "crypto \<Rightarrow> bool" where
  "hash_collision C \<longleftrightarrow> (\<exists>a b. a \<noteq> b \<and> sha256_text C a = sha256_text C b)"

lemma sha256_text_eqD: "sha256_text C a = sha256_text C b \<Longrightarrow> a = b \<or> hash_collision C"
  by (auto simp: hash_collision_def)

lemma canonical_json_inject:
  "canonical_json d ks = canonical_json e ks \<longleftrightarrow>
     canon (PDict (without_keys ks d)) = canon (PDict (without_keys ks e))"
proof -
  have "(if ks \<noteq> [] then without_keys ks x else x) = without_keys ks x" for x :: obj
    by (simp add: without_keys_def)
  then show ?thesis by (simp only: canonical_json_def json_dumps_inject)
qed

text \<open>
  Two messages with the same hash agree on every field but the hash and the signature, up to the
  order of dictionary items, or exhibit a collision.
\<close>

lemma message_hash_commits:
  assumes "message_hash C m = message_hash C m'" and "dict_wf m" and "dict_wf m'"
    and "k \<notin> set hash_exclude_keys"
  shows "map_option canon (map_of m k) = map_option canon (map_of m' k) \<or> hash_collision C"
proof (cases "hash_collision C")
  case False
  with assms(1) have "canon (PDict (without_keys hash_exclude_keys m)) =
      canon (PDict (without_keys hash_exclude_keys m'))"
    by (auto simp: message_hash_def canonical_json_inject dest!: sha256_text_eqD)
  with canon_dict_eq_iff [OF dict_wf_without_keys dict_wf_without_keys, OF assms(2,3)] assms(4)
  show ?thesis by (metis map_of_without_keys)
qed simp

lemma message_hash_dset:
  "k \<in> set hash_exclude_keys \<Longrightarrow> message_hash C (dset k v m) = message_hash C m"
  by (simp add: message_hash_def canonical_json_def hash_exclude_keys_def without_keys_dset)

lemma message_hash_dsetdefault:
  "k \<in> set hash_exclude_keys \<Longrightarrow> message_hash C (dsetdefault k v m) = message_hash C m"
  by (auto simp: message_hash_def canonical_json_def hash_exclude_keys_def without_keys_def dsetdefault_def)

section \<open>Verification of a signed message\<close>

text \<open>
  The documented behaviour of Ed25519 as \<^verbatim>\<open>nacl\<close> exposes it: a signature made with a seed verifies
  under the public key of the seed; keys and signatures are non-empty text.
\<close>

definition signatures_verify :: "crypto \<Rightarrow> bool" where
  "signatures_verify C \<longleftrightarrow> (\<forall>seed pk payload. seed_public_key C seed = Some pk \<longrightarrow>
     pk \<noteq> [] \<and> seed_sign C seed payload \<noteq> [] \<and>
     key_verify C (PStr pk) payload (PStr (seed_sign C seed payload)) = Verified)"

lemma sign_message_Inr:
  assumes "sign_message C now msg seed = Inr smsg"
  obtains pk where "seed_public_key C seed = Some pk"
    "smsg = dset ''runner-message/signature'' (PDict (signature_field pk
       (seed_sign C seed (canonical_json (dsetdefault ''runner-message/hash'' (PStr (message_hash C msg)) msg)
          sign_exclude_keys)) now))
       (dsetdefault ''runner-message/hash'' (PStr (message_hash C msg)) msg)"
  using assms by (auto simp: sign_message_def Let_def split: option.splits)

lemma signature_field_get:
  "py_get (signature_field pk s now) ''runner-signature/schema-version'' = PStr ''runner-signature.v1''"
  "py_get (signature_field pk s now) ''runner-signature/algorithm'' = PStr ''ed25519''"
  "py_get (signature_field pk s now) ''runner-signature/public-key'' = PStr pk"
  "py_get (signature_field pk s now) ''runner-signature/value'' = PStr s"
  "signature_field pk s now \<noteq> []"
  by (simp_all add: signature_field_def get_or_def)

lemma verify_sign:
  assumes "signatures_verify C" and "sign_message C now msg seed = Inr smsg"
    and "\<not> truthy (py_get msg ''runner-message/hash'')
      \<or> py_get msg ''runner-message/hash'' = PStr (message_hash C msg)"
    and "seed_public_key C seed = Some pk"
  shows "verify_message C registry smsg =
    registry_outcome registry (py_get msg ''runner-message/runner-id'') (PStr pk)"
proof -
  let ?hashed = "dsetdefault ''runner-message/hash'' (PStr (message_hash C msg)) msg"
  obtain sig where smsg: "smsg = dset ''runner-message/signature''
      (PDict (signature_field pk sig now)) ?hashed"
    and sig: "sig = seed_sign C seed (canonical_json ?hashed sign_exclude_keys)"
    using sign_message_Inr [OF assms(2)] assms(4) by (metis option.inject)
  have payload: "canonical_json smsg sign_exclude_keys = canonical_json ?hashed sign_exclude_keys"
    by (simp add: smsg canonical_json_def sign_exclude_keys_def without_keys_dset)
  have hash: "message_hash C smsg = message_hash C msg"
    by (simp add: smsg message_hash_dset message_hash_dsetdefault hash_exclude_keys_def)
  have fields: "py_get smsg ''runner-message/signature'' = PDict (signature_field pk sig now)"
    "py_get smsg ''runner-message/runner-id'' = py_get msg ''runner-message/runner-id''"
    "\<not> truthy (py_get smsg ''runner-message/hash'')
       \<or> py_get smsg ''runner-message/hash'' = PStr (message_hash C smsg)"
    using assms(3) unfolding hash
    by (auto simp: smsg get_or_def map_of_dsetdefault has_key_map_of split: option.splits)
  have "pk \<noteq> []" "sig \<noteq> []" "key_verify C (PStr pk) (canonical_json ?hashed sign_exclude_keys) (PStr sig) = Verified"
    using assms(1,4) by (auto simp: signatures_verify_def sig)
  then show ?thesis
    using fields(3) by (auto simp: verify_message_def Let_def fields(1,2) signature_field_get payload)
qed

text \<open>What a \<^verbatim>\<open>valid-trusted\<close> verdict establishes.\<close>

definition vouched_by :: "identity_registry \<Rightarrow> pv \<Rightarrow> pv \<Rightarrow> bool" where
  "vouched_by R runner_id pk \<longleftrightarrow>
     runner_status R runner_id pk = Inr (PStr ''trusted'') \<and>
     (\<forall>e. truthy runner_id \<and> map_of (by_id R) runner_id = Some e \<longrightarrow>
        py_get e ''runner/public-key'' = pk \<or> \<not> truthy (py_get e ''runner/public-key'')) \<and>
     (\<forall>e. truthy runner_id \<and> map_of (by_key R) pk = Some e \<longrightarrow>
        py_get e ''runner/id'' = runner_id \<or> \<not> truthy (py_get e ''runner/id''))"

lemma sig_outcome_sel [simp]: "outcome (sig_outcome out r t p) = out"
  by (simp add: sig_outcome_def)

lemma registry_outcome_trusted:
  assumes "registry_outcome registry rid pk = Inr r" and "outcome r = ''valid-trusted''" and "truthy pk"
  obtains R where "registry = Some R" and "vouched_by R rid pk"
proof -
  from assms obtain R where R: "registry = Some R"
    by (cases registry) (auto simp: registry_outcome_def)
  obtain reg_pk where reg: "(if truthy rid then runner_public_key R rid else Inr PNone) = Inr reg_pk"
    and rest: "(if truthy rid \<and> truthy reg_pk \<and> reg_pk \<noteq> pk
        then Inr (sig_outcome ''registry-key-mismatch'' rid
          (''Runner-id '' @ py_str rid @ '' maps to different key in registry'') pk)
        else key_stage R rid pk) = Inr r"
    using assms(1) unfolding registry_outcome_def R Let_def option.case bindE_Inr_iff
    by blast
  have fwd: "\<not> (truthy rid \<and> truthy reg_pk \<and> reg_pk \<noteq> pk)"
    using rest assms(2) by (auto split: if_split_asm)
  with rest have "key_stage R rid pk = Inr r" by (simp only: if_False)
  with assms(3) obtain key_entry where key: "lookup_by_key R pk = Inr key_entry"
    and rest: "(if entry_of key_entry \<noteq> [] \<and> truthy (py_get (entry_of key_entry) ''runner/id'') \<and> truthy rid
            \<and> py_get (entry_of key_entry) ''runner/id'' \<noteq> rid
        then Inr (sig_outcome ''registry-key-mismatch'' rid
          (''Public key belongs to runner '' @ py_str (py_get (entry_of key_entry) ''runner/id'')
             @ '', not '' @ py_str rid) pk)
        else status_stage R rid pk) = Inr r"
    by (auto simp only: key_stage_def status_stage_def Let_def bindE_Inr_iff if_True simp_thms)
  have bwd: "\<not> (entry_of key_entry \<noteq> [] \<and> truthy (py_get (entry_of key_entry) ''runner/id'') \<and> truthy rid
       \<and> py_get (entry_of key_entry) ''runner/id'' \<noteq> rid)"
    using rest assms(2) by (auto split: if_split_asm)
  with rest have "status_stage R rid pk = Inr r" by (simp only: if_False)
  with assms(2) have status: "runner_status R rid pk = Inr (PStr ''trusted'')"
    by (auto simp: status_stage_def bindE_Inr_iff split: if_split_asm)
  have found: "e' = Some e" if "lookup_index index k = Inr e'" "map_of index k = Some e" for index k e e'
    using that by (auto simp: lookup_index_def split: if_splits)
  have id_ok: "py_get e ''runner/public-key'' = pk \<or> \<not> truthy (py_get e ''runner/public-key'')"
    if "truthy rid" "map_of (by_id R) rid = Some e" for e
  proof -
    from reg that(1) obtain e' where "lookup_index (by_id R) rid = Inr e'"
      and reg_pk: "(if entry_of e' = [] then Inr PNone else Inr (py_get (entry_of e') ''runner/public-key''))
        = (Inr reg_pk :: py_error + pv)"
      by (auto simp only: runner_public_key_def lookup_by_id_def bindE_Inr_iff if_True)
    from found [OF this(1) that(2)] reg_pk fwd that(1) show ?thesis
      by (cases "e = []") (auto simp: entry_of_def get_or_def)
  qed
  have key_ok: "py_get e ''runner/id'' = rid \<or> \<not> truthy (py_get e ''runner/id'')"
    if "truthy rid" "map_of (by_key R) pk = Some e" for e
  proof -
    from found [OF key [unfolded lookup_by_key_def] that(2)] bwd that(1) show ?thesis
      by (cases "e = []") (auto simp: entry_of_def get_or_def)
  qed
  from status id_ok key_ok have "vouched_by R rid pk" by (auto simp: vouched_by_def)
  with R show ?thesis by (rule that)
qed

lemma verify_message_trusted:
  assumes "verify_message C registry msg = Inr r" and "outcome r = ''valid-trusted''"
  obtains sig pk R where
    "py_get msg ''runner-message/signature'' = PDict sig"
    "py_get sig ''runner-signature/algorithm'' = PStr ''ed25519''"
    "py_get sig ''runner-signature/public-key'' = pk"
    "key_verify C pk (canonical_json msg sign_exclude_keys) (py_get sig ''runner-signature/value'') = Verified"
    "truthy (py_get msg ''runner-message/hash'') \<Longrightarrow>
       py_get msg ''runner-message/hash'' = PStr (message_hash C msg)"
    "registry = Some R" "vouched_by R (py_get msg ''runner-message/runner-id'') pk"
proof -
  let ?sig0 = "py_get msg ''runner-message/signature''"
  let ?pk = "py_get (dict_of ?sig0) ''runner-signature/public-key''"
  have facts: "truthy ?sig0" "is_dict ?sig0"
    "py_get (dict_of ?sig0) ''runner-signature/algorithm'' = PStr ''ed25519''"
    "truthy ?pk"
    "\<not> (truthy (py_get msg ''runner-message/hash'') \<and>
       py_get msg ''runner-message/hash'' \<noteq> PStr (message_hash C msg))"
    "key_verify C ?pk (canonical_json msg sign_exclude_keys)
       (py_get (dict_of ?sig0) ''runner-signature/value'') = Verified"
    "registry_outcome registry (py_get msg ''runner-message/runner-id'') ?pk = Inr r"
    using assms by (auto simp: verify_message_def Let_def split: if_split_asm verify_result.split_asm)
  from registry_outcome_trusted [OF facts(7) assms(2) facts(4)] obtain R where
    R: "registry = Some R" "vouched_by R (py_get msg ''runner-message/runner-id'') ?pk" .
  from facts(2) have "?sig0 = PDict (dict_of ?sig0)" by (cases ?sig0) auto
  with facts R show ?thesis by (intro that) auto
qed

section \<open>Properties\<close>

text \<open>
  A message whose hash field is absent or correct verifies after signing: the verdict on the signed
  message is the one the registry gives the signer's key, for every registry.  Adding the signature
  does not disturb the hash or the signed bytes.
\<close>

theorem signed_message_verifies:
  assumes "signatures_verify C" and "sign_message C now msg seed = Inr smsg"
    and "py_get msg ''runner-message/hash'' \<in> {PNone, PStr (message_hash C msg)}"
    and "seed_public_key C seed = Some pk"
  shows "verify_message C registry smsg =
    registry_outcome registry (py_get msg ''runner-message/runner-id'') (PStr pk)"
  using assms by (intro verify_sign) auto

text \<open>
  C27: Soundness of the \<^verbatim>\<open>valid-trusted\<close> verdict: the message carries an ed25519 signature over its
  canonical bytes that verifies under the embedded key, a hash field agrees with the content, the
  registry gives the runner or key the status trusted, and the registry binds neither the runner to
  another key nor the key to another runner.
\<close>

theorem trusted_verdict_sound:
  assumes "verify_message C registry msg = Inr r" and "outcome r = ''valid-trusted''"
  shows "\<exists>sig pk R. py_get msg ''runner-message/signature'' = PDict sig \<and>
    py_get sig ''runner-signature/algorithm'' = PStr ''ed25519'' \<and>
    py_get sig ''runner-signature/public-key'' = pk \<and>
    key_verify C pk (canonical_json msg sign_exclude_keys)
      (py_get sig ''runner-signature/value'') = Verified \<and>
    (truthy (py_get msg ''runner-message/hash'') \<longrightarrow>
       py_get msg ''runner-message/hash'' = PStr (message_hash C msg)) \<and>
    registry = Some R \<and> vouched_by R (py_get msg ''runner-message/runner-id'') pk"
  by (rule verify_message_trusted [OF assms]) blast

text \<open>
  The message hash commits to the content: two messages with the same hash agree on every field
  other than the hash and the signature, up to the order of dictionary items, or exhibit two texts
  with the same SHA-256 digest.
\<close>

theorem message_hash_binding:
  assumes "message_hash C m = message_hash C m'" and "dict_wf m" and "dict_wf m'"
  shows "hash_collision C \<or>
    list_all (\<lambda>k. map_option canon (map_of m k) = map_option canon (map_of m' k))
      (filter (\<lambda>k. k \<notin> set hash_exclude_keys) (map fst m @ map fst m'))"
  using message_hash_commits [OF assms] by (auto simp: list_all_iff)

subsection \<open>A concrete instance\<close>

definition demo_crypto :: crypto where
  "demo_crypto =
     \<lparr>sha256_text = (\<lambda>t. t),
      seed_public_key = (\<lambda>seed. if seed = [] then None else Some (CHR ''k'' # seed)),
      seed_sign = (\<lambda>seed payload. CHR ''s'' # seed @ CHR '':'' # payload),
      key_verify = (\<lambda>pk payload sig. case (pk, sig) of
          (PStr (k # seed), PStr s) \<Rightarrow>
            if s = CHR ''s'' # seed @ CHR '':'' # payload then Verified else BadSignature
        | _ \<Rightarrow> VerifyFailed ''encoding'')\<rparr>"

lemma demo_signatures_verify: "signatures_verify demo_crypto"
  by (auto simp: signatures_verify_def demo_crypto_def)

definition demo_message :: obj where
  "demo_message = [(''runner-message/type'', PStr ''announcement''),
     (''runner-message/runner-id'', PStr ''alice''), (''runner-message/hash'', PNone)]"

definition demo_registry :: identity_registry where
  "demo_registry =
     (let e = [(''runner/id'', PStr ''alice''), (''runner/public-key'', PStr ''ka''),
               (''runner/status'', PStr ''trusted'')] in
      \<lparr>by_id = [(PStr ''alice'', e)], by_key = [(PStr ''ka'', e)]\<rparr>)"

definition demo_signed :: obj where
  "demo_signed = (case sign_message demo_crypto ''now'' demo_message ''a'' of Inr m \<Rightarrow> m | Inl _ \<Rightarrow> [])"

lemma demo_signed_eq: "sign_message demo_crypto ''now'' demo_message ''a'' = Inr demo_signed"
  by (simp add: demo_signed_def sign_message_def Let_def demo_crypto_def)

lemma demo_registry_outcome:
  "registry_outcome (Some demo_registry) (PStr ''alice'') (PStr ''ka'') =
     Inr (sig_outcome ''valid-trusted'' (PStr ''alice'') ''Signature valid, runner is trusted'' (PStr ''ka''))"
  by code_simp

theorem signed_message_verifies_witness:
  "verify_message demo_crypto (Some demo_registry) demo_signed =
     Inr (sig_outcome ''valid-trusted'' (PStr ''alice'') ''Signature valid, runner is trusted'' (PStr ''ka''))"
proof -
  have get: "py_get demo_message ''runner-message/runner-id'' = PStr ''alice''"
    "py_get demo_message ''runner-message/hash'' = PNone"
    by (simp_all add: demo_message_def get_or_def)
  have key: "seed_public_key demo_crypto ''a'' = Some ''ka''" by (simp add: demo_crypto_def)
  show ?thesis
    using signed_message_verifies [OF demo_signatures_verify demo_signed_eq _ key] get
      demo_registry_outcome by simp
qed

lemma demo_signed_trusted:
  "verify_message demo_crypto (Some demo_registry) demo_signed =
     Inr (sig_outcome ''valid-trusted'' (PStr ''alice'') ''Signature valid, runner is trusted'' (PStr ''ka''))"
  using verify_sign [OF demo_signatures_verify demo_signed_eq _ , of "''ka''"] demo_registry_outcome
  by (simp add: demo_message_def get_or_def demo_crypto_def)

theorem trusted_verdict_sound_witness:
  "\<exists>sig pk. py_get demo_signed ''runner-message/signature'' = PDict sig \<and>
     key_verify demo_crypto pk (canonical_json demo_signed sign_exclude_keys)
       (py_get sig ''runner-signature/value'') = Verified \<and>
     vouched_by demo_registry (py_get demo_signed ''runner-message/runner-id'') pk"
  using trusted_verdict_sound [OF demo_signed_trusted] by auto

theorem message_hash_binding_witness:
  "\<not> hash_collision demo_crypto \<and>
   (hash_collision demo_crypto \<or>
    list_all (\<lambda>k. map_option canon (map_of demo_message k) = map_option canon (map_of (rev demo_message) k))
      (filter (\<lambda>k. k \<notin> set hash_exclude_keys) (map fst demo_message @ map fst (rev demo_message))))"
proof
  show "\<not> hash_collision demo_crypto" by (simp add: hash_collision_def demo_crypto_def)
  have "message_hash demo_crypto demo_message = message_hash demo_crypto (rev demo_message)"
    by code_simp
  from message_hash_binding [OF this] show "hash_collision demo_crypto \<or>
    list_all (\<lambda>k. map_option canon (map_of demo_message k) = map_option canon (map_of (rev demo_message) k))
      (filter (\<lambda>k. k \<notin> set hash_exclude_keys) (map fst demo_message @ map fst (rev demo_message)))"
    by (simp add: dict_wf_def demo_message_def)
qed

end
