(* ===== verification/Mailbox_Store.thy ===== *)
theory Mailbox_Store
  imports Runner_Signatures
begin

text \<open>
  \<^verbatim>\<open>scripts/forensic/mailbox.py\<close>: the mailbox directory, its content-addressed object store and the
  messages runners publish.  A mailbox is a set of directories and a map from paths (relative to the
  mailbox, as lists of components) to file contents: a JSON document, or a text that is not JSON.
  A document written with \<^verbatim>\<open>sort_keys\<close> is read back with its dictionaries sorted by key, which is
  \<^const>\<open>canon\<close>.  The clock and \<^verbatim>\<open>uuid4\<close> are arguments; a directory path is never also a file.
\<close>

type_synonym path = "string list"

datatype jfile = JsonFile pv | BadFile

record mailbox =
  dirs :: "path list"
  files :: "(path \<times> jfile) list"

section \<open>Files\<close>

definition path_exists :: "mailbox \<Rightarrow> path \<Rightarrow> bool" where
  "path_exists mb p \<longleftrightarrow> p \<in> set (dirs mb) \<or> has_key (files mb) p"

definition prefixes_of :: "path \<Rightarrow> path list" where
  "prefixes_of p = map (\<lambda>n. take n p) [0 ..< Suc (length p)]"

text \<open>\<^verbatim>\<open>p.mkdir(parents=True, exist_ok=True)\<close> and \<^verbatim>\<open>p.write_text(json.dumps(v, ...))\<close>.\<close>

definition mkdirs :: "path \<Rightarrow> mailbox \<Rightarrow> mailbox" where
  "mkdirs p mb = mb\<lparr>dirs := dirs mb @ filter (\<lambda>q. q \<notin> set (dirs mb)) (prefixes_of p)\<rparr>"

definition write_json :: "path \<Rightarrow> pv \<Rightarrow> mailbox \<Rightarrow> mailbox" where
  "write_json p v mb = mb\<lparr>files := dset p (JsonFile (canon v)) (files mb)\<rparr>"

definition children :: "mailbox \<Rightarrow> path \<Rightarrow> string list" where
  "children mb d = remdups (map last (filter (\<lambda>p. p \<noteq> [] \<and> butlast p = d) (dirs mb @ map fst (files mb))))"

definition has_json_suffix :: "string \<Rightarrow> bool" where
  "has_json_suffix n \<longleftrightarrow> 5 < length n \<and> drop (length n - 5) n = ''.json''"

definition json_stem :: "string \<Rightarrow> string" where
  "json_stem n = take (length n - 5) n"

text \<open>\<^verbatim>\<open>json.loads(p.read_text())\<close>, \<^const>\<open>None\<close> where it raises.\<close>

definition load_json :: "mailbox \<Rightarrow> path \<Rightarrow> pv option" where
  "load_json mb p = (case map_of (files mb) p of Some (JsonFile v) \<Rightarrow> Some v | _ \<Rightarrow> None)"

fun split_on :: "char \<Rightarrow> string \<Rightarrow> string list" where
  "split_on c [] = [[]]"
| "split_on c (x # xs) =
     (if x = c then [] # split_on c xs
      else case split_on c xs of [] \<Rightarrow> [[x]] | y # ys \<Rightarrow> (x # y) # ys)"

definition path_parts :: "string \<Rightarrow> path" where
  "path_parts s = filter (\<lambda>p. p \<noteq> [] \<and> p \<noteq> ''.'') (split_on (CHR ''/'') s)"

section \<open>Hashes of documents\<close>

definition self_hash :: "crypto \<Rightarrow> obj \<Rightarrow> string list \<Rightarrow> string" where
  "self_hash C data exclude = sha256_text C (canonical_json data exclude)"

section \<open>Object store\<close>

definition object_dir :: path where
  "object_dir = [''objects'', ''sha256'']"

definition object_path :: "string \<Rightarrow> path" where
  "object_path h = object_dir @ [take 2 h, h @ ''.json'']"

definition object_schema_version :: string where
  "object_schema_version = ''mailbox-object.v1''"

definition object_hash_algorithm :: string where
  "object_hash_algorithm = ''sha256-json-canonical-v1''"

definition stamp_object :: "obj \<Rightarrow> obj" where
  "stamp_object obj0 =
     dsetdefault ''object/hash'' PNone
       (dsetdefault ''object/hash-algorithm'' (PStr object_hash_algorithm)
         (dsetdefault ''object/schema-version'' (PStr object_schema_version) obj0))"

definition object_hash :: "crypto \<Rightarrow> string list \<Rightarrow> obj \<Rightarrow> string" where
  "object_hash C exclude obj0 = self_hash C (stamp_object obj0) (exclude @ [''object/hash''])"

definition stored_object :: "crypto \<Rightarrow> string list \<Rightarrow> obj \<Rightarrow> obj" where
  "stored_object C exclude obj0 =
     dset ''object/hash'' (PStr (object_hash C exclude obj0)) (stamp_object obj0)"

definition write_object :: "crypto \<Rightarrow> string list \<Rightarrow> mailbox \<Rightarrow> obj \<Rightarrow> mailbox \<times> string" where
  "write_object C exclude mb obj0 =
     (let h = object_hash C exclude obj0; p = object_path h in
      (write_json p (PDict (stored_object C exclude obj0)) (mkdirs (butlast p) mb), h))"

definition read_object :: "mailbox \<Rightarrow> string \<Rightarrow> pv option" where
  "read_object mb h =
     (case load_json mb (object_path h) of
        Some (PDict data) \<Rightarrow>
          let algo = py_get data ''object/hash-algorithm'' in
          if truthy algo \<and> algo \<noteq> PStr object_hash_algorithm then None else Some (PDict data)
      | _ \<Rightarrow> None)"

definition write_self_addressed ::
    "crypto \<Rightarrow> mailbox \<Rightarrow> obj \<Rightarrow> string list \<Rightarrow> mailbox \<times> string" where
  "write_self_addressed C mb obj0 exclude =
     (let h = self_hash C obj0 exclude;
          stamped = foldl (\<lambda>d k. if has_key d k then dset k (PStr h) d else d) obj0 exclude in
      (fst (write_object C exclude mb stamped), h))"

section \<open>Messages\<close>

definition make_message ::
    "crypto \<Rightarrow> string \<Rightarrow> string \<Rightarrow> string \<Rightarrow> obj \<Rightarrow> obj" where
  "make_message C now msg_type runner_id extra =
     (let msg = dupdate
            [(''runner-message/schema-version'', PStr ''runner-message.v1''),
             (''runner-message/type'', PStr msg_type),
             (''runner-message/timestamp'', PStr now),
             (''runner-message/hash'', PNone),
             (''runner-message/runner-id'', PStr runner_id),
             (''runner-message/signature'', PNone)] extra in
      dset ''runner-message/hash'' (PStr (self_hash C msg hash_exclude_keys)) msg)"

definition safe_filename :: "string list \<Rightarrow> string" where
  "safe_filename parts =
     join ''-'' (map (map (\<lambda>c. if c = CHR ''/'' then CHR ''-'' else c)) parts)"

definition write_message :: "mailbox \<Rightarrow> string \<Rightarrow> string \<Rightarrow> obj \<Rightarrow> mailbox" where
  "write_message mb rel_dir filename msg =
     (let d = path_parts rel_dir in write_json (d @ [filename]) (PDict msg) (mkdirs d mb))"

text \<open>
  \<^verbatim>\<open>init_mailbox\<close>: the subdirectories are created with \<^verbatim>\<open>mkdir()\<close>, which raises where they exist.
\<close>

definition mailbox_metadata :: "string \<Rightarrow> obj" where
  "mailbox_metadata now =
     [(''mailbox/schema-version'', PStr ''forensic-mailbox.v1''),
      (''mailbox/created-at'', PStr now),
      (''mailbox/spec-version'', PStr ''RUNNER_MAILBOX_SPEC_V1''),
      (''mailbox/transport'', PStr ''filesystem''),
      (''mailbox/runner-count'', PInt 0),
      (''mailbox/run-count'', PInt 0)]"

definition init_mailbox :: "string \<Rightarrow> mailbox \<Rightarrow> py_error + mailbox" where
  "init_mailbox now mb =
     (if path_exists mb [''mailbox.json''] then Inl (FileExistsError ''Mailbox already exists'')
      else if path_exists mb [''runners''] then Inl (FileExistsError ''runners'')
      else if path_exists mb object_dir then Inl (FileExistsError ''objects/sha256'')
      else Inr (write_json [''mailbox.json''] (PDict (mailbox_metadata now))
             (mkdirs object_dir (mkdirs [''runners''] mb))))"

definition write_runner_announcement ::
    "crypto \<Rightarrow> string \<Rightarrow> mailbox \<Rightarrow> string \<Rightarrow> string list \<Rightarrow> string \<Rightarrow> mailbox \<times> obj" where
  "write_runner_announcement C now mb runner_id capabilities note =
     (let extra = [(''runner-message/capabilities'', PList (map PStr capabilities))]
            @ (if note \<noteq> [] then [(''runner-message/note'', PStr note)] else []);
          msg = make_message C now ''announcement'' runner_id extra in
      (write_message mb (''runners/'' @ runner_id) ''runner.json'' msg, msg))"

definition is_hash_text :: "string \<Rightarrow> bool" where
  "is_hash_text s \<longleftrightarrow> length s = 64 \<and> list_all (\<lambda>c. c \<in> set ''0123456789abcdef'') s"

definition run_request_hash :: "crypto \<Rightarrow> string \<Rightarrow> string" where
  "run_request_hash C run_id = (if is_hash_text run_id then run_id else sha256_text C run_id)"

definition write_run_request ::
    "crypto \<Rightarrow> string \<Rightarrow> string \<Rightarrow> mailbox \<Rightarrow> pv \<Rightarrow> string \<Rightarrow> mailbox \<times> string" where
  "write_run_request C now uuid mb request_data run_id =
     (let rid = (if run_id \<noteq> [] then run_id else uuid); req_hash = run_request_hash C rid;
          req = [(''run-request/schema-version'', PStr ''run-request.v1''),
                 (''run-request/hash'', PStr req_hash),
                 (''run-request/run-id'', PStr rid),
                 (''run-request/timestamp'', PStr now),
                 (''run-request/data'', request_data)];
          d = [''runs'', req_hash] in
      (write_json (d @ [''request.json'']) (PDict req) (mkdirs d mb), req_hash))"

definition run_dir :: "string \<Rightarrow> path" where
  "run_dir rrh = ''runs'' # path_parts rrh"

text \<open>The file of a message in a subdirectory of a run: the runner and 16 characters of its hash.\<close>

definition publish_message :: "mailbox \<Rightarrow> string \<Rightarrow> string \<Rightarrow> string \<Rightarrow> obj \<Rightarrow> mailbox" where
  "publish_message mb rrh sub runner_id msg =
     write_message mb (''runs/'' @ rrh @ ''/'' @ sub)
       (safe_filename [runner_id, take 16 (str_of (py_get msg ''runner-message/hash''))] @ ''.json'') msg"

definition write_commitment ::
    "crypto \<Rightarrow> string \<Rightarrow> mailbox \<Rightarrow> string \<Rightarrow> string \<Rightarrow> obj \<Rightarrow> mailbox \<times> obj" where
  "write_commitment C now mb rrh runner_id extra =
     (let msg = make_message C now ''commitment'' runner_id
            (dupdate [(''runner-message/run-request-hash'', PStr rrh)] extra) in
      (publish_message mb rrh ''commitments'' runner_id msg, msg))"

definition optional_field :: "string \<Rightarrow> pv \<Rightarrow> obj" where
  "optional_field k v = (if truthy v then [(k, v)] else [])"

record submission =
  sub_summary :: pv
  sub_exit_code :: int
  sub_status :: string
  sub_bundle_path :: string
  sub_elapsed_ms :: "int option"
  sub_volatile :: pv
  sub_failures :: pv
  sub_artifacts :: pv

definition write_result_submission ::
    "crypto \<Rightarrow> string \<Rightarrow> mailbox \<Rightarrow> string \<Rightarrow> string \<Rightarrow> submission \<Rightarrow> mailbox \<times> obj" where
  "write_result_submission C now mb rrh runner_id s =
     (let extra =
            [(''runner-message/run-request-hash'', PStr rrh),
             (''runner-message/summary'', sub_summary s),
             (''runner-message/status'', PStr (sub_status s)),
             (''runner-message/exit-code'', PInt (sub_exit_code s))]
            @ (case sub_elapsed_ms s of None \<Rightarrow> [] | Some t \<Rightarrow> [(''runner-message/elapsed-ms'', PInt t)])
            @ optional_field ''runner-message/bundle-path'' (PStr (sub_bundle_path s))
            @ optional_field ''runner-message/volatile'' (sub_volatile s)
            @ optional_field ''runner-message/failures'' (sub_failures s)
            @ optional_field ''runner-message/artifacts'' (sub_artifacts s);
          msg = make_message C now ''result-submission'' runner_id extra in
      (publish_message mb rrh ''submissions'' runner_id msg, msg))"

definition write_error_report ::
    "crypto \<Rightarrow> string \<Rightarrow> mailbox \<Rightarrow> string \<Rightarrow> string \<Rightarrow> string \<Rightarrow> string \<Rightarrow> int \<Rightarrow> mailbox \<times> obj" where
  "write_error_report C now mb rrh runner_id error_kind error_message exit_code =
     (let msg = make_message C now ''error-report'' runner_id
            [(''runner-message/run-request-hash'', PStr rrh),
             (''runner-message/error-kind'', PStr error_kind),
             (''runner-message/error-message'', PStr error_message),
             (''runner-message/exit-code'', PInt exit_code)] in
      (publish_message mb rrh ''errors'' runner_id msg, msg))"

text \<open>\<^verbatim>\<open>list_result_submissions\<close>: the documents of the JSON files, in the order of the file names.\<close>

definition submissions_dir :: "string \<Rightarrow> path" where
  "submissions_dir rrh = run_dir rrh @ [''submissions'']"

definition list_result_submissions :: "mailbox \<Rightarrow> string \<Rightarrow> pv list" where
  "list_result_submissions mb rrh =
     (let d = submissions_dir rrh in
      if \<not> path_exists mb d then []
      else List.map_filter (\<lambda>n. if has_key (files mb) (d @ [n]) \<and> has_json_suffix n
                           then load_json mb (d @ [n]) else None)
             (sort (children mb d)))"

definition certificate_exclude :: "string list" where
  "certificate_exclude = [''consensus-certificate/hash'', ''consensus-certificate/signature'']"

text \<open>
  \<^verbatim>\<open>write_consensus_outputs\<close>: each given document is written under the run and then stored as an
  object; an empty document counts as not given.
\<close>

definition write_consensus_outputs ::
    "crypto \<Rightarrow> mailbox \<Rightarrow> string \<Rightarrow> obj \<Rightarrow> obj \<Rightarrow> obj \<Rightarrow> mailbox" where
  "write_consensus_outputs C mb rrh certificate disagreement evidence_node =
     (let d = run_dir rrh @ [''consensus''];
          outputs = [(''consensus-certificate.json'', certificate, certificate_exclude),
                     (''disagreement-report.json'', disagreement, [''disagreement/hash'']),
                     (''evidence-node.json'', evidence_node, [])];
          given = filter (\<lambda>(_, obj0, _). obj0 \<noteq> []) outputs;
          mb = foldl (\<lambda>m (name, obj0, _). write_json (d @ [name]) (PDict obj0) m) (mkdirs d mb) given in
      foldl (\<lambda>m (_, obj0, exclude). fst (write_object C exclude m obj0)) mb given)"

text \<open>
  \<^verbatim>\<open>write_bundle_artifact\<close>: the bundle directory is given by its path and its two candidate root files.
\<close>

definition bundle_root_of :: "(string \<Rightarrow> jfile option) \<Rightarrow> py_error + pv" where
  "bundle_root_of bundle =
     (let read = (\<lambda>f. case f of JsonFile v \<Rightarrow> Inr v | BadFile \<Rightarrow> Inl (ValueError ''JSON'')) in
      case bundle ''clojure-bundle-root.json'' of
        Some f \<Rightarrow> read f
      | None \<Rightarrow> (case bundle ''run-bundle-root.json'' of Some f \<Rightarrow> read f | None \<Rightarrow> Inr PNone))"

definition write_bundle_artifact ::
    "crypto \<Rightarrow> mailbox \<Rightarrow> string \<Rightarrow> string \<Rightarrow> (string \<Rightarrow> jfile option) \<Rightarrow> py_error + (mailbox \<times> string)" where
  "write_bundle_artifact C mb rrh bundle_path bundle =
     bindE (bundle_root_of bundle) (\<lambda>root.
     let d = run_dir rrh @ [''artifacts''];
         manifest = [(''artifact/schema-version'', PStr ''bundle-manifest.v1''),
                     (''artifact/bundle-path'', PStr bundle_path),
                     (''artifact/bundle-root'', root)];
         (mb', mh) = write_object C [] (mkdirs d mb) manifest in
     Inr (write_json (d @ [mh @ ''.json'']) (PDict manifest) mb', mh))"

definition mailbox_summary :: "string \<Rightarrow> mailbox \<Rightarrow> obj" where
  "mailbox_summary root mb =
     [(''mailbox/schema-version'', PStr ''forensic-mailbox.v1''),
      (''mailbox/path'', PStr root),
      (''mailbox/runner-count'',
         PInt (int (length (filter (\<lambda>p. take 1 p = [''runners''] \<and> 1 < length p \<and> last p = ''runner.json'')
                  (dirs mb @ map fst (files mb)))))),
      (''mailbox/run-count'',
         PInt (int (length (filter (\<lambda>p. length p = 2 \<and> hd p = ''runs'') (dirs mb)))))]"

end
