(* ===== verification/Submissions.thy ===== *)
theory Submissions
  imports Mailbox_Store
begin

text \<open>
  \<^verbatim>\<open>deduplicate_submissions\<close> of \<^verbatim>\<open>scripts/forensic/mailbox.py\<close>: one submission per runner, chosen among
  the messages with different hashes by the latest timestamp, brought to the shape the consensus
  module reads.  Timestamps are compared as strings or as integers; the comparison of two values of
  different kinds raises \<^verbatim>\<open>TypeError\<close>, as does a list or dictionary used as a set member.
\<close>

section \<open>Operations\<close>

definition is_space :: "char \<Rightarrow> bool" where
  "is_space c \<longleftrightarrow> (let n = (of_char c :: nat) in
     (9 \<le> n \<and> n \<le> 13) \<or> (28 \<le> n \<and> n \<le> 32) \<or> n = 133 \<or> n = 160)"

text \<open>A runner identifier is acceptable when it is a string that is not blank.\<close>

definition runner_id_of :: "obj \<Rightarrow> pv" where
  "runner_id_of msg = py_get msg ''runner-message/runner-id''"

definition valid_runner_id :: "pv \<Rightarrow> bool" where
  "valid_runner_id rid \<longleftrightarrow> truthy rid \<and> is_str rid \<and> \<not> list_all is_space (str_of rid)"

definition malformed_warning :: "obj \<Rightarrow> obj" where
  "malformed_warning msg =
     [(''warning/code'', PStr ''malformed-runner-id''),
      (''warning/message'', PStr (''Submission with malformed runner-id: '' @ py_repr (runner_id_of msg))),
      (''warning/submission-hash'', py_get msg ''runner-message/hash'')]"

definition group_step :: "(string \<times> obj list) list \<Rightarrow> obj \<Rightarrow> (string \<times> obj list) list" where
  "group_step by_runner msg =
     (let rid = str_of (runner_id_of msg) in
      if valid_runner_id (runner_id_of msg) then dset rid (get_or by_runner rid [] @ [msg]) by_runner
      else by_runner)"

definition group_by_runner :: "obj list \<Rightarrow> (string \<times> obj list) list" where
  "group_by_runner = foldl group_step []"

text \<open>The inner loop: messages whose hash has not been seen, in order.\<close>

definition hash_of :: "obj \<Rightarrow> pv" where
  "hash_of m = get_or m ''runner-message/hash'' (PStr [])"

fun unique_hashes :: "pv list \<Rightarrow> obj list \<Rightarrow> py_error + obj list" where
  "unique_hashes seen [] = Inr []"
| "unique_hashes seen (m # ms) =
     (if \<not> hashable (hash_of m) then Inl TypeError
      else if hash_of m \<in> set seen then unique_hashes seen ms
      else bindE (unique_hashes (hash_of m # seen) ms) (\<lambda>us. Inr (m # us)))"

text \<open>
  \<^verbatim>\<open>unique.sort(key=..., reverse=True)\<close> followed by \<^verbatim>\<open>unique[0]\<close>: a reversed sort keeps the order of
  equal elements, so this is the first message with the greatest timestamp.
\<close>

definition timestamp_of :: "obj \<Rightarrow> pv" where
  "timestamp_of m = get_or m ''runner-message/timestamp'' (PStr [])"

fun first_max :: "('a \<Rightarrow> 'k :: linorder) \<Rightarrow> 'a \<Rightarrow> 'a list \<Rightarrow> 'a" where
  "first_max f b [] = b"
| "first_max f b (x # xs) = first_max f (if f b < f x then x else b) xs"

definition latest :: "obj list \<Rightarrow> py_error + obj" where
  "latest ms =
     (if list_all (\<lambda>m. is_str (timestamp_of m)) ms
      then Inr (first_max (\<lambda>m. str_of (timestamp_of m)) (hd ms) (tl ms))
      else if list_all (\<lambda>m. is_int (timestamp_of m)) ms
      then Inr (first_max (\<lambda>m. int_of (timestamp_of m)) (hd ms) (tl ms))
      else Inl TypeError)"

definition equivocation_warning :: "string \<Rightarrow> nat \<Rightarrow> nat \<Rightarrow> obj" where
  "equivocation_warning rid submitted unique =
     [(''warning/code'', PStr ''runner-equivocation''),
      (''warning/message'', PStr (''Runner '' @ rid @ '' submitted '' @ nat_str unique @
         '' different result messages ('' @ nat_str submitted @ '' files, '' @ nat_str unique @
         '' unique hashes). Only the latest is accepted.'')),
      (''warning/runner-id'', PStr rid),
      (''warning/submission-count'', PInt (int submitted)),
      (''warning/unique-count'', PInt (int unique))]"

definition select_step ::
    "obj list \<times> obj list \<Rightarrow> string \<times> obj list \<Rightarrow> py_error + (obj list \<times> obj list)" where
  "select_step = (\<lambda>(valid, warnings) (rid, msgs).
     bindE (unique_hashes [] msgs) (\<lambda>unique.
     if 1 < length unique
     then bindE (latest unique) (\<lambda>m.
       Inr (valid @ [m], warnings @ [equivocation_warning rid (length msgs) (length unique)]))
     else Inr (valid @ unique, warnings)))"

definition normalize_submission :: "obj \<Rightarrow> obj" where
  "normalize_submission msg =
     [(''runner-message/schema-version'', PStr ''runner-message.v1''),
      (''runner-message/type'', PStr ''result-submission''),
      (''runner-message/timestamp'', py_get msg ''runner-message/timestamp''),
      (''runner-message/runner-id'', get_or msg ''runner-message/runner-id'' (PStr ''?'')),
      (''runner-message/run-id'', get_or msg ''runner-message/run-request-hash'' (PStr ''?'')),
      (''runner-message/status'', get_or msg ''runner-message/status'' (PStr ''fail'')),
      (''runner-message/exit-code'', get_or msg ''runner-message/exit-code'' (PInt (- 1))),
      (''runner-message/summary'', get_or msg ''runner-message/summary'' (PDict [])),
      (''runner-message/bundle-path'', py_get msg ''runner-message/bundle-path'')]"

definition deduplicate_submissions :: "pv list \<Rightarrow> py_error + (obj list \<times> obj list)" where
  "deduplicate_submissions docs =
     bindE (mapE as_dict docs) (\<lambda>messages.
     bindE (foldE select_step
              ([], map malformed_warning (filter (\<lambda>m. \<not> valid_runner_id (runner_id_of m)) messages))
              (group_by_runner messages)) (\<lambda>(valid, warnings).
     Inr (map normalize_submission valid, warnings)))"

definition load_result_submissions :: "mailbox \<Rightarrow> string \<Rightarrow> py_error + (obj list \<times> obj list)" where
  "load_result_submissions mb rrh = deduplicate_submissions (list_result_submissions mb rrh)"

section \<open>Grouping\<close>

definition of_runner :: "string \<Rightarrow> obj list \<Rightarrow> obj list" where
  "of_runner rid = filter (\<lambda>m. valid_runner_id (runner_id_of m) \<and> str_of (runner_id_of m) = rid)"

definition runner_names :: "obj list \<Rightarrow> string list" where
  "runner_names ms = map (\<lambda>m. str_of (runner_id_of m)) (filter (\<lambda>m. valid_runner_id (runner_id_of m)) ms)"

text \<open>Distinct elements in the order of their first occurrence.\<close>

definition first_seen :: "'a list \<Rightarrow> 'a list" where
  "first_seen xs = rev (remdups (rev xs))"

lemma first_seen_snoc: "first_seen (xs @ [x]) = (if x \<in> set xs then first_seen xs else first_seen xs @ [x])"
  by (simp add: first_seen_def)

lemma set_first_seen [simp]: "set (first_seen xs) = set xs"
  and distinct_first_seen [simp]: "distinct (first_seen xs)"
  by (simp_all add: first_seen_def)

lemma map_fst_dset: "map fst (dset k v d) = (if k \<in> set (map fst d) then map fst d else map fst d @ [k])"
  by (induction d) auto

lemma group_by_runner_snoc: "group_by_runner (ms @ [m]) = group_step (group_by_runner ms) m"
  by (simp add: group_by_runner_def)

lemma group_keys: "map fst (group_by_runner ms) = first_seen (runner_names ms)"
proof (induction ms rule: rev_induct)
  case Nil
  then show ?case by (simp add: group_by_runner_def runner_names_def first_seen_def)
next
  case (snoc m ms)
  then have "set (map fst (group_by_runner ms)) = set (runner_names ms)" by simp
  then show ?case
    using snoc by (simp add: group_by_runner_snoc group_step_def Let_def map_fst_dset runner_names_def
        first_seen_snoc)
qed

lemma group_get: "get_or (group_by_runner ms) rid [] = of_runner rid ms"
  by (induction ms rule: rev_induct)
    (auto simp: group_by_runner_snoc group_step_def Let_def of_runner_def group_by_runner_def get_or_def)

lemma group_by_runner_eq:
  "group_by_runner ms = map (\<lambda>rid. (rid, of_runner rid ms)) (first_seen (runner_names ms))"
proof -
  have dist: "distinct (map fst (group_by_runner ms))" by (simp add: group_keys)
  have "snd kv = of_runner (fst kv) ms" if "kv \<in> set (group_by_runner ms)" for kv
    using that map_of_is_SomeI [OF dist, of "fst kv" "snd kv"] group_get [of ms "fst kv"]
    by (simp add: get_or_def)
  then have "map (\<lambda>kv. (fst kv, of_runner (fst kv) ms)) (group_by_runner ms) = group_by_runner ms"
    by (intro map_idI) (auto simp: prod_eq_iff)
  then have "group_by_runner ms = map (\<lambda>rid. (rid, of_runner rid ms)) (map fst (group_by_runner ms))"
    by (simp add: o_def)
  then show ?thesis by (simp only: group_keys)
qed

lemma of_runner_not_Nil: "rid \<in> set (runner_names ms) \<Longrightarrow> of_runner rid ms \<noteq> []"
  by (auto simp: runner_names_def of_runner_def filter_empty_conv)

section \<open>Selection\<close>

lemma unique_hashes_sound:
  "unique_hashes seen ms = Inr us \<Longrightarrow> set us \<subseteq> set ms \<and> distinct (map hash_of us) \<and>
     (\<forall>m \<in> set us. hash_of m \<notin> set seen) \<and> hash_of ` set ms \<subseteq> set seen \<union> hash_of ` set us"
proof (induction seen ms arbitrary: us rule: unique_hashes.induct)
  case (1 seen)
  then show ?case by simp
next
  case (2 seen m ms)
  show ?case
  proof (cases "hash_of m \<in> set seen")
    case True
    with 2(1,3) show ?thesis by (auto split: if_splits)
  next
    case False
    with 2(3) obtain vs where "unique_hashes (hash_of m # seen) ms = Inr vs" "us = m # vs" "hashable (hash_of m)"
      by (auto simp: bindE_Inr_iff split: if_splits)
    note vs = this
    from 2(2) [OF _ False vs(1)] vs(3) have IH: "set vs \<subseteq> set ms" "distinct (map hash_of vs)"
      "\<forall>x \<in> set vs. hash_of x \<notin> set (hash_of m # seen)"
      "hash_of ` set ms \<subseteq> set (hash_of m # seen) \<union> hash_of ` set vs" by simp_all
    from IH(3) have "hash_of m \<notin> hash_of ` set vs" by auto
    with IH False show ?thesis unfolding vs(2) by auto
  qed
qed

lemma unique_hashes_not_Nil: "unique_hashes [] ms = Inr us \<Longrightarrow> ms \<noteq> [] \<Longrightarrow> us \<noteq> []"
  by (drule unique_hashes_sound) auto

lemma first_max_in: "first_max f b xs \<in> insert b (set xs)"
  by (induction xs arbitrary: b) (auto split: if_splits)

lemma first_max_ge: "x \<in> insert b (set xs) \<Longrightarrow> f x \<le> f (first_max f b xs)"
proof (induction xs arbitrary: b x)
  case (Cons y ys)
  have "f b \<le> f (first_max f (if f b < f y then y else b) ys)"
    "f y \<le> f (first_max f (if f b < f y then y else b) ys)"
    using Cons.IH [of "if f b < f y then y else b" "if f b < f y then y else b"]
    by (auto split: if_splits)
  with Cons.IH Cons.prems show ?case by auto
qed simp

text \<open>
  The message chosen for a runner: it is the first of its messages with its hash, and no first message
  with another hash is later.
\<close>

definition first_with_hash :: "obj list \<Rightarrow> obj \<Rightarrow> bool" where
  "first_with_hash ms m \<longleftrightarrow> (\<exists>a b. ms = a @ m # b \<and> hash_of m \<notin> hash_of ` set a)"

definition not_later :: "obj \<Rightarrow> obj \<Rightarrow> bool" where
  "not_later m m' \<longleftrightarrow> m = m'
     \<or> (is_str (timestamp_of m) \<and> is_str (timestamp_of m') \<and> str_of (timestamp_of m) \<le> str_of (timestamp_of m'))
     \<or> (is_int (timestamp_of m) \<and> is_int (timestamp_of m') \<and> int_of (timestamp_of m) \<le> int_of (timestamp_of m'))"

definition chosen_for :: "obj list \<Rightarrow> string \<Rightarrow> obj \<Rightarrow> bool" where
  "chosen_for ms rid m \<longleftrightarrow> first_with_hash (of_runner rid ms) m \<and>
     (\<forall>m'. first_with_hash (of_runner rid ms) m' \<longrightarrow> not_later m' m)"

lemma unique_hashes_set:
  "unique_hashes seen ms = Inr us \<Longrightarrow>
     m \<in> set us \<longleftrightarrow> (\<exists>a b. ms = a @ m # b \<and> hash_of m \<notin> set seen \<union> hash_of ` set a)"
proof (induction seen ms arbitrary: us rule: unique_hashes.induct)
  case (1 seen)
  then show ?case by simp
next
  case (2 seen x ms)
  have cons: "(\<exists>a b. x # ms = a @ m # b \<and> hash_of m \<notin> set seen \<union> hash_of ` set a) \<longleftrightarrow>
      (m = x \<and> hash_of x \<notin> set seen) \<or>
      (\<exists>a b. ms = a @ m # b \<and> hash_of m \<notin> insert (hash_of x) (set seen) \<union> hash_of ` set a)"
    (is "?L \<longleftrightarrow> ?R")
  proof
    assume ?L
    then obtain a b where "x # ms = a @ m # b" "hash_of m \<notin> set seen \<union> hash_of ` set a" by blast
    then show ?R by (cases a) auto
  next
    assume ?R
    then show ?L
    proof
      assume "m = x \<and> hash_of x \<notin> set seen"
      then show ?L by (intro exI [of _ "[]"] exI [of _ ms]) simp
    next
      assume "\<exists>a b. ms = a @ m # b \<and> hash_of m \<notin> insert (hash_of x) (set seen) \<union> hash_of ` set a"
      then obtain a b where "ms = a @ m # b" "hash_of m \<notin> insert (hash_of x) (set seen) \<union> hash_of ` set a"
        by blast
      then show ?L by (intro exI [of _ "x # a"] exI [of _ b]) simp
    qed
  qed
  show ?case
  proof (cases "hash_of x \<in> set seen")
    case True
    with 2(3) have rest: "hashable (hash_of x)" "unique_hashes seen ms = Inr us" by (auto split: if_splits)
    from 2(1) [OF _ True rest(2)] rest(1) True show ?thesis unfolding cons by (simp add: insert_absorb)
  next
    case False
    with 2(3) obtain vs where vs: "unique_hashes (hash_of x # seen) ms = Inr vs" "us = x # vs"
      "hashable (hash_of x)"
      by (auto simp: bindE_Inr_iff split: if_splits)
    from 2(2) [OF _ False vs(1)] vs(3) False show ?thesis unfolding cons vs(2) by auto
  qed
qed

lemma first_with_hash_iff: "unique_hashes [] ms = Inr us \<Longrightarrow> first_with_hash ms m \<longleftrightarrow> m \<in> set us"
  by (simp add: first_with_hash_def unique_hashes_set)

definition equivocates :: "obj list \<Rightarrow> string \<Rightarrow> bool" where
  "equivocates ms rid \<longleftrightarrow> 1 < card (hash_of ` set (of_runner rid ms))"

lemma first_max_of: "xs \<noteq> [] \<Longrightarrow> first_max f (hd xs) (tl xs) \<in> set xs"
  using first_max_in [of f "hd xs" "tl xs"] by (cases xs) auto

lemma latest_in: "latest us = Inr m \<Longrightarrow> us \<noteq> [] \<Longrightarrow> m \<in> set us"
  by (auto simp: latest_def first_max_of split: if_splits)

lemma unique_count:
  assumes "unique_hashes [] ms = Inr us"
  shows "length us = card (hash_of ` set ms)"
proof -
  from unique_hashes_sound [OF assms] have "hash_of ` set ms = set (map hash_of us)" "distinct (map hash_of us)"
    by auto
  then show ?thesis by (metis distinct_card length_map)
qed

lemma latest_not_later:
  assumes "latest us = Inr m" and "m' \<in> set us"
  shows "not_later m' m"
proof -
  from assms(2) have cons: "m' \<in> insert (hd us) (set (tl us))" "us \<noteq> []" by (cases us; auto)+
  consider "list_all (\<lambda>m. is_str (timestamp_of m)) us"
      "m = first_max (\<lambda>m. str_of (timestamp_of m)) (hd us) (tl us)"
    | "list_all (\<lambda>m. is_int (timestamp_of m)) us"
      "m = first_max (\<lambda>m. int_of (timestamp_of m)) (hd us) (tl us)"
    using assms(1) by (auto simp: latest_def split: if_splits)
  then show ?thesis
  proof cases
    case 1
    have "m \<in> set us" unfolding 1(2) by (rule first_max_of [OF cons(2)])
    moreover have "str_of (timestamp_of m') \<le> str_of (timestamp_of m)"
      unfolding 1(2) by (rule first_max_ge [OF cons(1)])
    ultimately show ?thesis using 1(1) assms(2) by (simp add: not_later_def list_all_iff)
  next
    case 2
    have "m \<in> set us" unfolding 2(2) by (rule first_max_of [OF cons(2)])
    moreover have "int_of (timestamp_of m') \<le> int_of (timestamp_of m)"
      unfolding 2(2) by (rule first_max_ge [OF cons(1)])
    ultimately show ?thesis using 2(1) assms(2) by (simp add: not_later_def list_all_iff)
  qed
qed

lemma chosen_latest:
  assumes "unique_hashes [] (of_runner rid ms) = Inr us" and "latest us = Inr m" and "us \<noteq> []"
  shows "chosen_for ms rid m"
  using assms latest_in latest_not_later by (auto simp: chosen_for_def first_with_hash_iff)

lemma chosen_single:
  assumes "unique_hashes [] (of_runner rid ms) = Inr [m]"
  shows "chosen_for ms rid m"
  using assms by (auto simp: chosen_for_def first_with_hash_iff not_later_def)

definition equivocation_warnings :: "obj list \<Rightarrow> obj list" where
  "equivocation_warnings ms =
     map (\<lambda>rid. equivocation_warning rid (length (of_runner rid ms)) (card (hash_of ` set (of_runner rid ms))))
       (filter (equivocates ms) (first_seen (runner_names ms)))"

lemma select_run:
  assumes "foldE select_step ([], ws) (map (\<lambda>rid. (rid, of_runner rid ms)) rids) = Inr (valid, ws')"
    and "set rids \<subseteq> set (runner_names ms)"
  shows "list_all2 (chosen_for ms) rids valid \<and>
    ws' = ws @ map (\<lambda>rid. equivocation_warning rid (length (of_runner rid ms))
                        (card (hash_of ` set (of_runner rid ms)))) (filter (equivocates ms) rids)"
  using assms
proof (induction rids arbitrary: valid ws' rule: rev_induct)
  case Nil
  then show ?case by simp
next
  case (snoc rid rids)
  from snoc.prems(1) obtain v1 w1 where
    start: "foldE select_step ([], ws) (map (\<lambda>rid. (rid, of_runner rid ms)) rids) = Inr (v1, w1)"
    and step: "select_step (v1, w1) (rid, of_runner rid ms) = Inr (valid, ws')"
    by (auto simp: foldE_append bindE_Inr_iff)
  note IH = snoc.IH [OF start]
  from step obtain us where us: "unique_hashes [] (of_runner rid ms) = Inr us"
    by (auto simp: select_step_def bindE_Inr_iff)
  have ne: "us \<noteq> []" using unique_hashes_not_Nil [OF us] of_runner_not_Nil snoc.prems(2) by auto
  show ?case
  proof (cases "1 < length us")
    case True
    with step us obtain m where m: "latest us = Inr m" "valid = v1 @ [m]"
      "ws' = w1 @ [equivocation_warning rid (length (of_runner rid ms)) (length us)]"
      by (auto simp: select_step_def bindE_Inr_iff)
    have "chosen_for ms rid m"
      by (rule chosen_latest [OF us m(1) ne])
    moreover have "equivocates ms rid" using True unique_count [OF us] by (simp add: equivocates_def)
    ultimately show ?thesis using IH snoc.prems(2) m unique_count [OF us] by (simp add: list_all2_appendI)
  next
    case False
    with ne obtain m where m: "us = [m]" by (cases us) auto
    with step us have "valid = v1 @ [m]" "ws' = w1" by (auto simp: select_step_def)
    moreover have "chosen_for ms rid m" using us m by (auto intro: chosen_single)
    moreover have "\<not> equivocates ms rid" using False unique_count [OF us] by (simp add: equivocates_def)
    ultimately show ?thesis using IH snoc.prems(2) by (simp add: list_all2_appendI)
  qed
qed

lemma deduplicate_run:
  assumes "deduplicate_submissions docs = Inr (valid, warnings)"
  obtains ms chosen where "docs = map PDict ms" "valid = map normalize_submission chosen"
    "list_all2 (chosen_for ms) (first_seen (runner_names ms)) chosen"
    "warnings = map malformed_warning (filter (\<lambda>m. \<not> valid_runner_id (runner_id_of m)) ms)
       @ equivocation_warnings ms"
proof -
  from assms obtain ms chosen where ms: "mapE as_dict docs = Inr ms"
    and run: "foldE select_step
        ([], map malformed_warning (filter (\<lambda>m. \<not> valid_runner_id (runner_id_of m)) ms))
        (group_by_runner ms) = Inr (chosen, warnings)"
    and valid: "valid = map normalize_submission chosen"
    by (auto simp: deduplicate_submissions_def bindE_Inr_iff)
  from ms have "docs = map PDict ms"
    by (auto simp: mapE_Inr_iff list_all2_conv_all_nth intro!: nth_equalityI)
  moreover note select_run [OF run [unfolded group_by_runner_eq]]
  ultimately show ?thesis using valid by (intro that) (auto simp: equivocation_warnings_def)
qed

section \<open>Repeated files\<close>

lemma unique_hashes_repeat:
  "set dup \<subseteq> set ms \<Longrightarrow> unique_hashes seen (ms @ dup) = unique_hashes seen ms"
proof -
  have absorb: "unique_hashes seen dup = Inr []"
    if "hash_of ` set dup \<subseteq> set seen" "\<forall>m \<in> set dup. hashable (hash_of m)" for seen
    using that by (induction dup) auto
  have "\<forall>m \<in> set ms. hashable (hash_of m) \<Longrightarrow> hash_of ` set dup \<subseteq> set seen \<union> hash_of ` set ms \<Longrightarrow>
      \<forall>m \<in> set dup. hashable (hash_of m) \<Longrightarrow> unique_hashes seen (ms @ dup) = unique_hashes seen ms" for seen ms
  proof (induction ms arbitrary: seen)
    case (Cons m ms)
    show ?case
    proof (cases "hash_of m \<in> set seen")
      case True
      with Cons.prems have "hash_of ` set dup \<subseteq> set seen \<union> hash_of ` set ms" by auto
      with Cons True show ?thesis by simp
    next
      case False
      with Cons.prems Cons.IH [of "hash_of m # seen"] show ?thesis by simp
    qed
  qed (simp add: absorb)
  moreover have "\<exists>m \<in> set ms. \<not> hashable (hash_of m) \<Longrightarrow> unique_hashes seen (ms @ xs) = Inl TypeError" for seen xs ms
    by (induction ms arbitrary: seen) auto
  note fails = this [of _ _ dup] this [of _ _ "[]"]
  assume sub: "set dup \<subseteq> set ms"
  then have dup: "hash_of ` set dup \<subseteq> set seen \<union> hash_of ` set ms" by blast
  show "unique_hashes seen (ms @ dup) = unique_hashes seen ms"
  proof (cases "\<forall>m \<in> set ms. hashable (hash_of m)")
    case True
    then have "\<forall>m \<in> set dup. hashable (hash_of m)" using sub by blast
    with True dup show ?thesis by (intro calculation) auto
  qed (use fails in auto)
qed

definition chosen_of :: "py_error + (obj list \<times> obj list) \<Rightarrow> py_error + obj list" where
  "chosen_of r = bindE r (\<lambda>(valid, _). Inr valid)"

lemma select_step_chosen:
  assumes "unique_hashes [] msgs = unique_hashes [] msgs'"
  shows "chosen_of (select_step (v, w) (rid, msgs)) = chosen_of (select_step (v, w') (rid, msgs'))"
  using assms
  by (cases "unique_hashes [] msgs'") (auto simp: select_step_def chosen_of_def bindE_assoc bindE_def split: sum.split)

lemma select_chosen:
  assumes "list_all2 (\<lambda>(_, ms) (_, ms'). unique_hashes [] ms = unique_hashes [] ms') gs gs'"
    and "list_all2 (\<lambda>(rid, _) (rid', _). rid = rid') gs gs'"
  shows "chosen_of (foldE select_step (v, w) gs) = chosen_of (foldE select_step (v, w') gs')"
  using assms
proof (induction gs gs' arbitrary: v w w' rule: list_all2_induct)
  case Nil
  then show ?case by (simp add: chosen_of_def)
next
  case (Cons g gs g' gs')
  obtain rid ms ms' where g: "g = (rid, ms)" "g' = (rid, ms')" and eq: "unique_hashes [] ms = unique_hashes [] ms'"
    using Cons by (cases g; cases g') auto
  from select_step_chosen [OF eq, of v w rid w'] show ?case
    using Cons unfolding g
    by (cases "select_step (v, w) (rid, ms)"; cases "select_step (v, w') (rid, ms')")
      (auto simp: chosen_of_def)
qed

lemma first_seen_repeat: "set ys \<subseteq> set xs \<Longrightarrow> first_seen (xs @ ys) = first_seen xs"
  by (induction ys rule: rev_induct) (auto simp: first_seen_snoc simp flip: append_assoc)

lemma mapE_as_dict_iff: "mapE as_dict docs = Inr ms \<longleftrightarrow> docs = map PDict ms"
  by (induction docs arbitrary: ms) (auto simp: bindE_Inr_iff)

lemma mapE_as_dict_fails: "mapE as_dict docs = Inl e \<longleftrightarrow> e = AttributeError \<and> \<not> list_all is_dict docs"
proof (induction docs)
  case (Cons v docs)
  then show ?case by (cases v) (auto simp: bindE_Inl_iff)
qed simp

lemma deduplicate_repeat:
  assumes "set docs' \<subseteq> set docs"
  shows "chosen_of (deduplicate_submissions (docs @ docs')) = chosen_of (deduplicate_submissions docs)"
proof (cases "list_all is_dict docs")
  case False
  then have "mapE as_dict docs = Inl AttributeError" "mapE as_dict (docs @ docs') = Inl AttributeError"
    by (simp_all add: mapE_as_dict_fails)
  then show ?thesis by (simp add: deduplicate_submissions_def)
next
  case True
  define ms dup where "ms = map dict_of docs" and "dup = map dict_of docs'"
  have dicts: "v = PDict (dict_of v)" if "v \<in> set docs" for v
    using True that by (cases v) (auto simp: list_all_iff)
  then have "docs = map PDict ms" "docs @ docs' = map PDict (ms @ dup)"
    using assms by (auto simp: ms_def dup_def intro!: map_idI [symmetric])
  then have ok: "mapE as_dict docs = Inr ms" "mapE as_dict (docs @ docs') = Inr (ms @ dup)"
    by (simp_all only: mapE_as_dict_iff)
  have sub: "set dup \<subseteq> set ms" using assms by (auto simp: ms_def dup_def)
  then have names: "first_seen (runner_names (ms @ dup)) = first_seen (runner_names ms)"
    unfolding runner_names_def filter_append map_append
    by (intro first_seen_repeat) (auto intro!: imageI)
  have "set (of_runner rid dup) \<subseteq> set (of_runner rid ms)" for rid using sub by (auto simp: of_runner_def)
  then have groups: "list_all2 (\<lambda>(_, ms) (_, ms'). unique_hashes [] ms = unique_hashes [] ms')
      (group_by_runner (ms @ dup)) (group_by_runner ms)"
    "list_all2 (\<lambda>(rid, _) (rid', _). rid = rid') (group_by_runner (ms @ dup)) (group_by_runner ms)"
    using unique_hashes_repeat unfolding group_by_runner_eq names
    by (auto simp: list_all2_map1 list_all2_map2 of_runner_def intro!: list_all2_refl)
  have chosen: "chosen_of (bindE r (\<lambda>(valid, ws). Inr (map normalize_submission valid, ws))) =
      bindE (chosen_of r) (\<lambda>valid. Inr (map normalize_submission valid))" for r
    by (cases r) (auto simp: chosen_of_def)
  show ?thesis
    unfolding deduplicate_submissions_def ok bindE_simps chosen
    by (rule arg_cong [OF select_chosen [OF groups]])
qed

section \<open>Properties\<close>

text \<open>
  C29: \<^verbatim>\<open>deduplicate_submissions\<close> returns exactly one submission per acceptable runner identifier, in the
  order in which the runners first appear: the normal form of the runner's first message with some
  hash, none of whose rivals with another hash has a later timestamp.  The warnings are one for every
  message with a malformed identifier and one for every runner with more than one hash.
\<close>

theorem deduplicate_one_per_runner:
  assumes "deduplicate_submissions docs = Inr (valid, warnings)"
  shows "\<exists>ms chosen. docs = map PDict ms \<and> valid = map normalize_submission chosen \<and>
    list_all2 (chosen_for ms) (first_seen (runner_names ms)) chosen \<and>
    warnings = map malformed_warning (filter (\<lambda>m. \<not> valid_runner_id (runner_id_of m)) ms)
      @ equivocation_warnings ms"
  by (rule deduplicate_run [OF assms]) blast

text \<open>
  Repeated files change nothing: appending documents that are already among the submissions leaves
  the submissions handed to consensus, or the exception, as they were.
\<close>

theorem resubmission_idempotent:
  assumes "set docs' \<subseteq> set docs"
  shows "chosen_of (deduplicate_submissions (docs @ docs')) = chosen_of (deduplicate_submissions docs)"
  by (rule deduplicate_repeat [OF assms])

subsection \<open>Concrete instances\<close>

definition demo_submissions :: "pv list" where
  "demo_submissions =
     [PDict [(''runner-message/runner-id'', PStr ''a''), (''runner-message/hash'', PStr ''1''),
             (''runner-message/timestamp'', PStr ''t1'')],
      PDict [(''runner-message/runner-id'', PStr ''b''), (''runner-message/hash'', PStr ''2'')],
      PDict [(''runner-message/runner-id'', PStr '' '')],
      PDict [(''runner-message/runner-id'', PStr ''a''), (''runner-message/hash'', PStr ''3''),
             (''runner-message/timestamp'', PStr ''t2''), (''runner-message/status'', PStr ''pass'')]]"

lemma demo_submissions_run:
  "case deduplicate_submissions demo_submissions of
     Inr (valid, warnings) \<Rightarrow>
       map (\<lambda>d. (py_get d ''runner-message/runner-id'', py_get d ''runner-message/status'')) valid =
         [(PStr ''a'', PStr ''pass''), (PStr ''b'', PStr ''fail'')] \<and>
       map (\<lambda>d. py_get d ''warning/code'') warnings =
         [PStr ''malformed-runner-id'', PStr ''runner-equivocation'']
   | Inl _ \<Rightarrow> False"
  by code_simp

theorem deduplicate_one_per_runner_witness:
  "\<exists>valid warnings ms chosen. deduplicate_submissions demo_submissions = Inr (valid, warnings) \<and>
     demo_submissions = map PDict ms \<and> valid = map normalize_submission chosen \<and>
     list_all2 (chosen_for ms) (first_seen (runner_names ms)) chosen \<and> length warnings = 2"
proof -
  from demo_submissions_run obtain valid warnings where
    r: "deduplicate_submissions demo_submissions = Inr (valid, warnings)"
    and codes: "map (\<lambda>d. py_get d ''warning/code'') warnings =
         [PStr ''malformed-runner-id'', PStr ''runner-equivocation'']"
    by (auto split: sum.splits)
  from arg_cong [OF codes, of length] have "length warnings = 2" by simp
  with deduplicate_one_per_runner [OF r] r show ?thesis by blast
qed

theorem resubmission_idempotent_witness:
  "chosen_of (deduplicate_submissions (demo_submissions @ [hd demo_submissions])) =
   chosen_of (deduplicate_submissions demo_submissions)"
  by (rule resubmission_idempotent) (simp add: demo_submissions_def)

end
