(* ===== verification/Content_Store.thy ===== *)
theory Content_Store
  imports Py_Prelude
begin

text \<open>
  The contract of a content-addressed store, shared by the clients of the mailbox: an object is put
  under an address computed from it and read back from that address as its view.  \<open>ok\<close> are the
  objects the store accepts.
\<close>

locale content_store =
  fixes put :: "'s \<Rightarrow> 'o \<Rightarrow> 's"
    and addr :: "'o \<Rightarrow> 'h"
    and get :: "'s \<Rightarrow> 'h \<Rightarrow> 'd option"
    and view :: "'o \<Rightarrow> 'd"
    and ok :: "'o \<Rightarrow> bool"
  assumes get_put: "ok x \<Longrightarrow> get (put s x) h = (if h = addr x then Some (view x) else get s h)"
begin

lemma get_put_same: "ok x \<Longrightarrow> get (put s x) (addr x) = Some (view x)"
  by (simp add: get_put)

lemma put_idempotent: "ok x \<Longrightarrow> get (put (put s x) x) = get (put s x)"
  by (rule ext) (simp add: get_put)

text \<open>After a sequence of writes an address holds the view of the last object with that address.\<close>

lemma get_puts:
  "list_all ok xs \<Longrightarrow>
     get (foldl put s xs) h =
       (case filter (\<lambda>x. addr x = h) (rev xs) of [] \<Rightarrow> get s h | x # _ \<Rightarrow> Some (view x))"
  by (induction xs rule: rev_induct) (simp_all add: get_put)

text \<open>
  Where the address determines the view, the order and the number of writes do not matter.
\<close>

lemma get_puts_set:
  assumes ok: "list_all ok xs" and inj: "\<And>x y. addr x = addr y \<Longrightarrow> ok x \<Longrightarrow> ok y \<Longrightarrow> view x = view y"
    and x: "x \<in> set xs"
  shows "get (foldl put s xs) (addr x) = Some (view x)"
proof -
  let ?same = "filter (\<lambda>y. addr y = addr x) (rev xs)"
  from x have "x \<in> set ?same" by simp
  then obtain y ys where ys: "?same = y # ys" by (cases ?same) auto
  then have "y \<in> set ?same" by simp
  with ok x have "view y = view x" by (intro inj) (auto simp: list_all_iff)
  with ok ys show ?thesis by (simp add: get_puts)
qed

lemma get_puts_other:
  assumes "list_all ok xs" and "h \<notin> addr ` set xs"
  shows "get (foldl put s xs) h = get s h"
proof -
  have "filter (\<lambda>y. addr y = h) (rev xs) = []" using assms(2) by (auto simp: filter_empty_conv)
  with assms(1) show ?thesis by (simp add: get_puts)
qed

lemma puts_order:
  assumes "list_all ok xs" and "set xs = set ys"
    and inj: "\<And>x y. addr x = addr y \<Longrightarrow> ok x \<Longrightarrow> ok y \<Longrightarrow> view x = view y"
  shows "get (foldl put s xs) = get (foldl put s ys)"
proof
  fix h
  have oky: "list_all ok ys" using assms(1,2) by (simp add: list_all_iff)
  show "get (foldl put s xs) h = get (foldl put s ys) h"
  proof (cases "h \<in> addr ` set xs")
    case True
    then obtain x where "x \<in> set xs" "h = addr x" by blast
    then show ?thesis using get_puts_set [OF assms(1) inj] get_puts_set [OF oky inj] assms(2) by simp
  next
    case False
    then show ?thesis using get_puts_other [OF assms(1)] get_puts_other [OF oky] assms(2) by simp
  qed
qed

end

end
