(* ===== verification/Object_Store.thy ===== *)
theory Object_Store
  imports Mailbox_Store Content_Store
begin

text \<open>
  The object store of the mailbox keeps the content-store contract; an object hash commits to the
  object; a published message carries its own hash and is found again by the reader of submissions.
\<close>

section \<open>Files\<close>

lemma load_json_write [simp]:
  "load_json (write_json p v mb) q = (if q = p then Some (canon v) else load_json mb q)"
  by (simp add: load_json_def write_json_def)

lemma load_json_mkdirs [simp]: "load_json (mkdirs p mb) = load_json mb"
  by (simp add: load_json_def mkdirs_def fun_eq_iff)

lemma has_key_files [simp]:
  "has_key (files (write_json p v mb)) q \<longleftrightarrow> q = p \<or> has_key (files mb) q"
  "files (mkdirs p mb) = files mb"
  by (auto simp: write_json_def mkdirs_def has_key_map_of)

lemma path_exists_write [simp]: "path_exists (write_json p v mb) q \<longleftrightarrow> q = p \<or> path_exists mb q"
  by (auto simp: path_exists_def write_json_def has_key_map_of)

lemma path_exists_mkdirs [simp]: "path_exists (mkdirs p mb) q \<longleftrightarrow> q \<in> set (prefixes_of p) \<or> path_exists mb q"
  by (auto simp: path_exists_def mkdirs_def)

lemma prefixes_of_self [simp]: "p \<in> set (prefixes_of p)"
  by (auto simp: prefixes_of_def image_iff intro: bexI [of _ "length p"])

lemma children_iff:
  "n \<in> set (children mb d) \<longleftrightarrow> d @ [n] \<in> set (dirs mb) \<or> has_key (files mb) (d @ [n])"
proof -
  have "p \<noteq> [] \<and> butlast p = d \<and> last p = n \<longleftrightarrow> p = d @ [n]" for p
    by (metis append_butlast_last_id butlast_snoc last_snoc snoc_eq_iff_butlast)
  moreover have "n \<in> set (children mb d) \<longleftrightarrow>
      (\<exists>p \<in> set (dirs mb @ map fst (files mb)). p \<noteq> [] \<and> butlast p = d \<and> last p = n)"
    by (auto simp: children_def)
  ultimately have "n \<in> set (children mb d) \<longleftrightarrow> (\<exists>p \<in> set (dirs mb @ map fst (files mb)). p = d @ [n])"
    by (simp only:)
  then show ?thesis by (simp add: has_key_def)
qed

section \<open>The store contract\<close>

lemma object_path_inject [simp]: "object_path h = object_path h' \<longleftrightarrow> h = h'"
  by (auto simp: object_path_def)

lemma dict_wf_stamp [intro]: "dict_wf x \<Longrightarrow> dict_wf (stamp_object x)"
  by (auto simp: stamp_object_def)

lemma dict_wf_stored [intro]: "dict_wf x \<Longrightarrow> dict_wf (stored_object C ex x)"
  by (auto simp: stored_object_def)

text \<open>The objects the store reads back: their algorithm field is absent, empty or the store's own.\<close>

definition storable :: "obj \<Rightarrow> bool" where
  "storable x \<longleftrightarrow> dict_wf x \<and>
     (\<not> truthy (py_get (stamp_object x) ''object/hash-algorithm'')
      \<or> py_get (stamp_object x) ''object/hash-algorithm'' = PStr object_hash_algorithm)"

lemma read_write_object:
  assumes "storable x"
  shows "read_object (fst (write_object C ex mb x)) h =
    (if h = object_hash C ex x then Some (canon (PDict (stored_object C ex x))) else read_object mb h)"
proof -
  have wf: "dict_wf (stored_object C ex x)" using assms by (auto simp: storable_def)
  let ?algo = "py_get (canon_items (stored_object C ex x)) ''object/hash-algorithm''"
  have "?algo = canon (py_get (stamp_object x) ''object/hash-algorithm'')"
    using wf by (simp add: py_get_canon_items stored_object_def)
  then have "\<not> truthy ?algo \<or> ?algo = PStr object_hash_algorithm"
    using assms by (auto simp: storable_def)
  then show ?thesis
    by (auto simp: write_object_def Let_def read_object_def canon_PDict simp del: canon.simps)
qed

interpretation objects: content_store "\<lambda>mb x. fst (write_object C ex mb x)" "object_hash C ex"
    read_object "\<lambda>x. canon (PDict (stored_object C ex x))" storable for C ex
  by unfold_locales (rule read_write_object)

section \<open>Commitment of the object hash\<close>

lemma self_hash_canon_items:
  assumes "dict_wf d"
  shows "self_hash C (canon_items d) ks = self_hash C d ks"
proof -
  have "canon (PDict (without_keys ks (canon_items d))) = canon (PDict (without_keys ks d))"
    using assms
    by (subst canon_dict_eq_iff)
      (auto simp: map_of_without_keys map_of_canon_items option.map_comp comp_def)
  then have "canonical_json (canon_items d) ks = canonical_json d ks" by (simp only: canonical_json_inject)
  then show ?thesis by (simp only: self_hash_def)
qed

lemma self_hash_dset_excluded: "k \<in> set ks \<Longrightarrow> self_hash C (dset k v d) ks = self_hash C d ks"
  by (auto simp: self_hash_def canonical_json_def without_keys_dset)

lemma self_hash_eqD:
  assumes "self_hash C d ks = self_hash C e ks" and "\<not> hash_collision C"
  shows "canon (PDict (without_keys ks d)) = canon (PDict (without_keys ks e))"
  using assms by (auto simp: self_hash_def canonical_json_inject dest!: sha256_text_eqD)

lemma object_hash_eqD:
  assumes "object_hash C ex x = object_hash C ex y" and "\<not> hash_collision C"
    and "dict_wf x" and "dict_wf y" and "k \<notin> set ex" and "k \<noteq> ''object/hash''"
  shows "map_option canon (map_of (stamp_object x) k) = map_option canon (map_of (stamp_object y) k)"
proof -
  let ?ks = "ex @ [''object/hash'']"
  from self_hash_eqD [OF assms(1) [unfolded object_hash_def] assms(2)]
  have "map_option canon (map_of (without_keys ?ks (stamp_object x)) k) =
      map_option canon (map_of (without_keys ?ks (stamp_object y)) k)"
    using assms(3,4) by (subst (asm) canon_dict_eq_iff) auto
  with assms(5,6) show ?thesis by (simp add: map_of_without_keys)
qed

lemma stored_object_view:
  assumes "object_hash C [] x = object_hash C [] y" and "\<not> hash_collision C"
    and "dict_wf x" and "dict_wf y"
  shows "canon (PDict (stored_object C [] x)) = canon (PDict (stored_object C [] y))"
proof -
  have "map_option canon (map_of (stored_object C [] x) k) = map_option canon (map_of (stored_object C [] y) k)" for k
    using assms object_hash_eqD [OF assms, of k] by (cases "k = ''object/hash''") (simp_all add: stored_object_def)
  with assms(3,4) show ?thesis by (subst canon_dict_eq_iff) auto
qed

section \<open>Messages\<close>

lemma self_hash_message: "self_hash C msg hash_exclude_keys = message_hash C msg"
  by (simp add: self_hash_def message_hash_def)

lemma excluded_fields:
  "''runner-message/hash'' \<in> set hash_exclude_keys"
  "''runner-message/signature'' \<in> set hash_exclude_keys"
  by (simp_all add: hash_exclude_keys_def)

lemma make_message_hash:
  "py_get (make_message C now t rid extra) ''runner-message/hash'' =
     PStr (message_hash C (make_message C now t rid extra))"
  by (simp only: make_message_def Let_def self_hash_message message_hash_dset excluded_fields
      get_or_dset if_True simp_thms)

lemma dict_wf_make_message: "dict_wf (make_message C now t rid extra)"
  unfolding make_message_def Let_def
  by (intro dict_wf_dset dict_wf_dupdate) (simp add: dict_wf_def)

lemma split_on_append: "split_on c (a @ c # b) = split_on c a @ split_on c b"
proof (induction a)
  case Nil
  then show ?case by simp
next
  case (Cons x a)
  have "split_on c a \<noteq> []" for a by (cases a) (auto split: list.splits)
  with Cons show ?case by (auto split: list.splits)
qed

lemma path_parts_append: "path_parts (a @ CHR ''/'' # b) = path_parts a @ path_parts b"
  by (simp add: path_parts_def split_on_append)

lemma path_parts_plain: "CHR ''/'' \<notin> set s \<Longrightarrow> s \<noteq> [] \<Longrightarrow> s \<noteq> ''.'' \<Longrightarrow> path_parts s = [s]"
proof -
  have "CHR ''/'' \<notin> set s \<Longrightarrow> split_on (CHR ''/'') s = [s]" by (induction s) auto
  then show "CHR ''/'' \<notin> set s \<Longrightarrow> s \<noteq> [] \<Longrightarrow> s \<noteq> ''.'' \<Longrightarrow> path_parts s = [s]"
    by (simp add: path_parts_def)
qed

lemma run_parts:
  assumes "CHR ''/'' \<notin> set sub" and "sub \<noteq> []" and "sub \<noteq> ''.''"
  shows "path_parts (''runs/'' @ rrh @ ''/'' @ sub) = run_dir rrh @ [sub]"
proof -
  have "path_parts (''runs'' @ CHR ''/'' # rrh @ CHR ''/'' # sub) = path_parts ''runs'' @ path_parts rrh @ [sub]"
    by (simp only: path_parts_append path_parts_plain [OF assms])
  then show ?thesis by (simp add: run_dir_def path_parts_plain)
qed

lemma has_json_suffix_app [simp]: "has_json_suffix (s @ ''.json'') \<longleftrightarrow> s \<noteq> []"
  by (cases s) (simp_all add: has_json_suffix_def)

lemma json_stem_app [simp]: "json_stem (s @ ''.json'') = s"
  by (simp add: json_stem_def)

lemma safe_filename_not_Nil [simp]: "safe_filename [a, b] \<noteq> []"
  by (simp add: safe_filename_def)

definition submission_file :: "string \<Rightarrow> obj \<Rightarrow> string" where
  "submission_file rid msg =
     safe_filename [rid, take 16 (str_of (py_get msg ''runner-message/hash''))] @ ''.json''"

lemma publish_submission:
  "publish_message mb rrh ''submissions'' rid msg =
     write_json (submissions_dir rrh @ [submission_file rid msg]) (PDict msg)
       (mkdirs (submissions_dir rrh) mb)"
proof -
  have "path_parts (''runs/'' @ rrh @ ''/'' @ ''submissions'') = submissions_dir rrh"
    unfolding submissions_dir_def by (rule run_parts) simp_all
  then show ?thesis
    by (simp only: publish_message_def write_message_def Let_def submission_file_def)
qed

lemma listed_iff:
  assumes "path_exists mb (submissions_dir rrh)"
  shows "v \<in> set (list_result_submissions mb rrh) \<longleftrightarrow>
    (\<exists>n. has_key (files mb) (submissions_dir rrh @ [n]) \<and> has_json_suffix n \<and>
       load_json mb (submissions_dir rrh @ [n]) = Some v)"
  using assms
  by (auto simp: list_result_submissions_def Let_def List.map_filter_def children_iff image_iff
      split: if_splits)

lemma listed_after_publish:
  "v \<in> set (list_result_submissions (publish_message mb rrh ''submissions'' rid msg) rrh) \<longleftrightarrow>
    v = canon (PDict msg) \<or>
    (\<exists>n. n \<noteq> submission_file rid msg \<and> has_json_suffix n \<and>
       load_json mb (submissions_dir rrh @ [n]) = Some v)"
proof -
  let ?mb' = "publish_message mb rrh ''submissions'' rid msg"
  have key: "load_json mb p = Some v \<Longrightarrow> has_key (files mb) p" for p v
    by (auto simp: load_json_def has_key_map_of split: option.splits)
  have named: "has_json_suffix (submission_file rid msg)" by (simp add: submission_file_def)
  have "path_exists ?mb' (submissions_dir rrh)" by (simp add: publish_submission)
  from listed_iff [OF this] show ?thesis
    using named key by (auto simp: publish_submission split: if_splits)
qed

section \<open>Properties\<close>

text \<open>
  The object store reads back what was written: after any sequence of writes of storable objects,
  in any order and with repetitions, the hash of each object leads to that object with its stamps,
  provided the hash function shows no collision.
\<close>

theorem object_store_reads_back:
  assumes "list_all storable xs" and "x \<in> set xs" and "\<not> hash_collision C"
  shows "read_object (foldl (\<lambda>mb y. fst (write_object C [] mb y)) mb xs) (object_hash C [] x) =
    Some (canon (PDict (stored_object C [] x)))"
proof (rule objects.get_puts_set [OF assms(1) _ assms(2)])
  fix y z assume "object_hash C [] y = object_hash C [] z" "storable y" "storable z"
  then show "canon (PDict (stored_object C [] y)) = canon (PDict (stored_object C [] z))"
    by (intro stored_object_view [OF _ assms(3)]) (simp_all add: storable_def)
qed

text \<open>
  The order of writes does not matter: two sequences that write the same objects leave stores that
  answer every lookup alike, provided the hash function shows no collision.
\<close>

theorem object_store_order_irrelevant:
  assumes "list_all storable xs" and "set xs = set ys" and "\<not> hash_collision C"
  shows "read_object (foldl (\<lambda>mb y. fst (write_object C [] mb y)) mb xs) =
    read_object (foldl (\<lambda>mb y. fst (write_object C [] mb y)) mb ys)"
proof (rule objects.puts_order [OF assms(1,2)])
  fix y z assume "object_hash C [] y = object_hash C [] z" "storable y" "storable z"
  then show "canon (PDict (stored_object C [] y)) = canon (PDict (stored_object C [] z))"
    by (intro stored_object_view [OF _ assms(3)]) (simp_all add: storable_def)
qed

text \<open>
  An object hash commits to the object: two objects stored under the same hash agree, up to the
  order of dictionary items, on every field that is not excluded from the hash, the store's schema
  and algorithm stamps included, or exhibit a collision of the hash function.
\<close>

theorem object_hash_binding:
  assumes "snd (write_object C ex mb x) = snd (write_object C ex mb' y)" and "dict_wf x" and "dict_wf y"
  shows "hash_collision C \<or>
    list_all (\<lambda>k. map_option canon (map_of (stamp_object x) k) = map_option canon (map_of (stamp_object y) k))
      (filter (\<lambda>k. k \<notin> set (''object/hash'' # ex)) (map fst (stamp_object x) @ map fst (stamp_object y)))"
  using assms object_hash_eqD [of C ex x y]
  by (auto simp: write_object_def Let_def list_all_iff)

text \<open>
  A published result is found: after \<^verbatim>\<open>write_result_submission\<close> the listing of the run's submissions
  holds exactly the new message and what the other JSON files held, and the message's hash field is the
  hash of its content.
\<close>

theorem published_submission_found:
  assumes "write_result_submission C now mb rrh rid s = (mb', msg)"
  shows "(v \<in> set (list_result_submissions mb' rrh) \<longleftrightarrow>
      v = canon (PDict msg) \<or>
      (\<exists>n. n \<noteq> submission_file rid msg \<and> has_json_suffix n \<and>
         load_json mb (submissions_dir rrh @ [n]) = Some v)) \<and>
    py_get msg ''runner-message/hash'' = PStr (message_hash C msg)"
proof -
  from assms obtain extra where msg: "msg = make_message C now ''result-submission'' rid extra"
    and mb': "mb' = publish_message mb rrh ''submissions'' rid msg"
    by (auto simp: write_result_submission_def Let_def)
  show ?thesis unfolding mb' using listed_after_publish make_message_hash msg by blast
qed

subsection \<open>Concrete instances\<close>

definition demo_objects :: "obj list" where
  "demo_objects = [[(''a'', PInt 1)], [(''b'', PList []), (''a'', PNone)], [(''a'', PInt 1)]]"

lemma demo_objects_storable: "list_all storable demo_objects"
  by (auto simp: demo_objects_def storable_def dict_wf_def stamp_object_def dsetdefault_def has_key_def
      get_or_def)

lemma demo_no_collision: "\<not> hash_collision demo_crypto"
  by (simp add: hash_collision_def demo_crypto_def)

theorem object_store_reads_back_witness:
  "read_object (foldl (\<lambda>mb y. fst (write_object demo_crypto [] mb y)) \<lparr>dirs = [], files = []\<rparr> demo_objects)
      (object_hash demo_crypto [] [(''a'', PInt 1)]) =
    Some (canon (PDict (stored_object demo_crypto [] [(''a'', PInt 1)])))"
  by (rule object_store_reads_back [OF demo_objects_storable _ demo_no_collision])
    (simp add: demo_objects_def)

theorem object_store_order_irrelevant_witness:
  "read_object (foldl (\<lambda>mb y. fst (write_object demo_crypto [] mb y)) \<lparr>dirs = [], files = []\<rparr> demo_objects) =
   read_object (foldl (\<lambda>mb y. fst (write_object demo_crypto [] mb y)) \<lparr>dirs = [], files = []\<rparr>
     [[(''b'', PList []), (''a'', PNone)], [(''a'', PInt 1)]])"
  by (rule object_store_order_irrelevant [OF demo_objects_storable _ demo_no_collision])
    (auto simp: demo_objects_def)

theorem object_hash_binding_witness:
  "hash_collision demo_crypto \<or>
    list_all (\<lambda>k. map_option canon (map_of (stamp_object [(''a'', PInt 1), (''b'', PNone)]) k) =
        map_option canon (map_of (stamp_object [(''b'', PNone), (''a'', PInt 1)]) k))
      (filter (\<lambda>k. k \<notin> set [''object/hash'']) (map fst (stamp_object [(''a'', PInt 1), (''b'', PNone)]) @
        map fst (stamp_object [(''b'', PNone), (''a'', PInt 1)])))"
proof (rule object_hash_binding)
  show "snd (write_object demo_crypto [] \<lparr>dirs = [], files = []\<rparr> [(''a'', PInt 1), (''b'', PNone)]) =
    snd (write_object demo_crypto [] \<lparr>dirs = [], files = []\<rparr> [(''b'', PNone), (''a'', PInt 1)])"
    by code_simp
qed (simp_all add: dict_wf_def)

theorem published_submission_found_witness:
  "\<exists>mb' msg. write_result_submission demo_crypto ''now'' \<lparr>dirs = [], files = []\<rparr> ''run'' ''alice''
      \<lparr>sub_summary = PDict [], sub_exit_code = 0, sub_status = ''pass'', sub_bundle_path = [],
       sub_elapsed_ms = None, sub_volatile = PNone, sub_failures = PNone, sub_artifacts = PNone\<rparr> = (mb', msg) \<and>
    canon (PDict msg) \<in> set (list_result_submissions mb' ''run'')"
proof -
  obtain mb' msg where w: "write_result_submission demo_crypto ''now'' \<lparr>dirs = [], files = []\<rparr> ''run'' ''alice''
      \<lparr>sub_summary = PDict [], sub_exit_code = 0, sub_status = ''pass'', sub_bundle_path = [],
       sub_elapsed_ms = None, sub_volatile = PNone, sub_failures = PNone, sub_artifacts = PNone\<rparr> = (mb', msg)"
    by (rule prod.exhaust)
  from published_submission_found [OF w, of "canon (PDict msg)"] w show ?thesis by blast
qed

end
