(* ===== verification/Mailbox_Validate.thy ===== *)
theory Mailbox_Validate
  imports Submissions Object_Store
begin

text \<open>
  \<^verbatim>\<open>validate_mailbox\<close> of \<^verbatim>\<open>scripts/forensic/mailbox.py\<close> and the verdict of its command.  The function is
  split along its sections; each section returns the checks it appends.  \<open>root\<close> is the printed path of
  the mailbox.
\<close>

section \<open>Checks\<close>

record check =
  check_status :: string
  check_key :: string
  check_message :: string

definition mk_check :: "string \<Rightarrow> string \<Rightarrow> string \<Rightarrow> check" where
  "mk_check status key msg = \<lparr>check_status = status, check_key = key, check_message = msg\<rparr>"

lemma mk_check_sel [simp]:
  "check_status (mk_check s k m) = s" "check_key (mk_check s k m) = k"
  by (simp_all add: mk_check_def)

definition apply_strict :: "bool \<Rightarrow> check list \<Rightarrow> check list" where
  "apply_strict strict checks =
     (if \<not> strict then checks
      else map (\<lambda>c. if check_status c = ''warn'' then c\<lparr>check_status := ''fail''\<rparr> else c) checks)"

section \<open>Submissions\<close>

text \<open>\<^verbatim>\<open>h[:16] if h else "?"\<close>: only a string can be sliced and put into a message.\<close>

definition short_hash :: "pv \<Rightarrow> py_error + string" where
  "short_hash h = (if \<not> truthy h then Inr ''?'' else if is_str h then Inr (take 16 (str_of h)) else Inl TypeError)"

definition read_submission_files :: "mailbox \<Rightarrow> string \<Rightarrow> (string \<times> pv option) list" where
  "read_submission_files mb rrh =
     (let d = submissions_dir rrh in
      if \<not> path_exists mb d then []
      else map (\<lambda>n. (n, load_json mb (d @ [n]))) (filter has_json_suffix (sort (children mb d))))"

definition parse_failures :: "(string \<times> pv option) list \<Rightarrow> check list" where
  "parse_failures fs =
     map (\<lambda>(n, _). mk_check ''fail'' (''submission-parse-'' @ take 20 n) (''Submission '' @ n @ '' is not valid JSON''))
       (filter (\<lambda>(_, v). v = None) fs)"

definition warning_check :: "obj \<Rightarrow> check" where
  "warning_check w =
     mk_check ''warn'' (''submission-'' @ py_str (get_or w ''warning/code'' (PStr ''dedup'')))
       (py_str (get_or w ''warning/message'' (PStr [])))"

definition signature_checks :: "bool \<Rightarrow> string \<Rightarrow> string \<Rightarrow> sig_result \<Rightarrow> check list" where
  "signature_checks require_signatures rid short r =
     (let key = ''submission-signature-'' @ short; out = outcome r; sub = ''Submission '' @ rid in
      if out = ''unsigned'' then
        if require_signatures then [mk_check ''fail'' key (sub @ '' is unsigned (signatures required)'')]
        else [mk_check ''info'' key (sub @ '' is unsigned'')]
      else if out = ''valid-trusted'' then [mk_check ''pass'' key (sub @ '' signature valid, trusted'')]
      else if out = ''valid-unknown'' then [mk_check ''warn'' key (sub @ '' signature valid, unknown key'')]
      else if out = ''valid-inactive'' \<or> out = ''valid-revoked''
      then [mk_check ''fail'' key (sub @ '' signature valid but '' @ drop 6 out)]
      else if out = ''invalid-signature''
      then [mk_check ''fail'' key (sub @ '' invalid signature: '' @ detail r)]
      else if out = ''malformed'' then [mk_check ''fail'' key (sub @ '' malformed signature'')]
      else [])"

definition hash_checks :: "crypto \<Rightarrow> bool \<Rightarrow> string \<Rightarrow> string \<Rightarrow> obj \<Rightarrow> check list" where
  "hash_checks C require_signatures rid short msg =
     (let h = hash_of msg; ok = (h = PStr (self_hash C msg hash_exclude_keys));
          key = ''submission-hash-'' @ short in
      if truthy h
      then [mk_check (if ok then ''pass'' else ''fail'') key
              (''Submission '' @ rid @ '' hash '' @ (if ok then ''verifies'' else ''MISMATCH''))]
      else [mk_check (if \<not> require_signatures then ''warn'' else ''fail'') key
              (''Submission '' @ rid @ '' missing runner-message/hash'')])"

definition schema_checks :: "string \<Rightarrow> string \<Rightarrow> obj \<Rightarrow> check list" where
  "schema_checks rid short msg =
     (let sv = py_get msg ''runner-message/schema-version'' in
      if truthy sv \<and> sv \<noteq> PStr ''runner-message.v1''
      then [mk_check ''warn'' (''submission-schema-'' @ short)
              (''Submission '' @ rid @ '' schema-version: '' @ py_str sv)]
      else [])"

definition run_checks :: "string \<Rightarrow> string \<Rightarrow> string \<Rightarrow> obj \<Rightarrow> check list" where
  "run_checks rrh rid short msg =
     (let r = py_get msg ''runner-message/run-request-hash'' in
      if truthy r \<and> r \<noteq> PStr rrh
      then [mk_check ''fail'' (''submission-rrh-'' @ short)
              (''Submission '' @ rid @ '' run-request-hash MISMATCH'')]
      else [])"

definition message_checks ::
    "crypto \<Rightarrow> identity_registry option \<Rightarrow> string \<Rightarrow> bool \<Rightarrow> obj \<Rightarrow> py_error + check list" where
  "message_checks C registry rrh require_signatures msg =
     (let rid = py_str (get_or msg ''runner-message/runner-id'' (PStr ''?'')) in
      bindE (short_hash (hash_of msg)) (\<lambda>short.
      bindE (verify_message C registry msg) (\<lambda>r.
      Inr (hash_checks C require_signatures rid short msg @ schema_checks rid short msg
           @ run_checks rrh rid short msg @ signature_checks require_signatures rid short r))))"

section \<open>Equivocation\<close>

text \<open>\<^verbatim>\<open>seen.setdefault(k, []).append(h)\<close>.\<close>

definition append_seen :: "pv \<Rightarrow> pv \<Rightarrow> (pv \<times> pv list) list \<Rightarrow> py_error + (pv \<times> pv list) list" where
  "append_seen k h seen =
     (if hashable k then Inr (dset k (get_or seen k [] @ [h]) seen) else Inl TypeError)"

definition signer_key :: "obj \<Rightarrow> pv" where
  "signer_key msg =
     (let s = py_get msg ''runner-message/signature'' in
      if is_dict s then py_get (dict_of s) ''runner-signature/public-key'' else PNone)"

type_synonym seen = "(pv \<times> pv list) list"

definition track_step :: "seen \<times> seen \<Rightarrow> obj \<Rightarrow> py_error + (seen \<times> seen)" where
  "track_step = (\<lambda>(runners, keys) msg.
     let h = hash_of msg; pk = signer_key msg in
     if \<not> truthy h then Inr (runners, keys)
     else bindE (append_seen (get_or msg ''runner-message/runner-id'' (PStr ''?'')) h runners) (\<lambda>runners.
          bindE (if truthy pk then append_seen pk h keys else Inr keys) (\<lambda>keys.
          Inr (runners, keys))))"

definition runner_equivocation :: "pv \<times> pv list \<Rightarrow> check list" where
  "runner_equivocation = (\<lambda>(rid, hashes).
     let n = length (remdups hashes) in
     if 1 < n
     then [mk_check ''warn'' (''equivocation-runner-'' @ py_str rid)
             (''Runner '' @ py_str rid @ '' submitted '' @ nat_str n @ '' different result hashes'')]
     else [])"

definition key_equivocation :: "pv \<times> pv list \<Rightarrow> py_error + check list" where
  "key_equivocation = (\<lambda>(pk, hashes).
     let n = length (remdups hashes) in
     if 1 < n then
       if is_str pk
       then Inr [mk_check ''fail'' (''equivocation-crypto-'' @ take 16 (str_of pk))
              (''Same key signed '' @ nat_str n @ '' different result hashes'')]
       else Inl TypeError
     else Inr [])"

definition equivocation_checks :: "obj list \<Rightarrow> py_error + check list" where
  "equivocation_checks messages =
     bindE (foldE track_step ([], []) messages) (\<lambda>(runners, keys).
     bindE (mapE key_equivocation keys) (\<lambda>ks.
     Inr (concat (map runner_equivocation runners) @ concat ks)))"

definition submission_checks ::
    "crypto \<Rightarrow> mailbox \<Rightarrow> string \<Rightarrow> identity_registry option \<Rightarrow> bool \<Rightarrow> py_error + check list" where
  "submission_checks C mb rrh registry require_signatures =
     (let fs = read_submission_files mb rrh; raw = List.map_filter snd fs in
      bindE (deduplicate_submissions raw) (\<lambda>(valid, warnings).
      bindE (mapE as_dict raw) (\<lambda>messages.
      bindE (mapE (message_checks C registry rrh require_signatures) messages) (\<lambda>per_message.
      bindE (equivocation_checks messages) (\<lambda>equivocations.
      Inr (parse_failures fs @ map warning_check warnings
           @ [mk_check (if valid \<noteq> [] then ''pass'' else ''info'') ''submission-count''
                (nat_str (length valid) @ '' valid submission(s) from '' @ nat_str (length raw) @ '' file(s)'')]
           @ concat per_message @ equivocations))))))"

section \<open>Consensus outputs\<close>

definition certificate_parse_failure :: check where
  "certificate_parse_failure = mk_check ''fail'' ''certificate-parse'' ''Certificate is not valid JSON''"

definition certificate_hash_checks :: "crypto \<Rightarrow> obj \<Rightarrow> check list" where
  "certificate_hash_checks C cert =
     (let ch = py_get cert ''consensus-certificate/hash'';
          ok = (ch = PStr (self_hash C cert certificate_exclude)) in
      if truthy ch
      then [mk_check (if ok then ''pass'' else ''fail'') ''certificate-hash''
              (if ok then ''Certificate hash verifies'' else ''Certificate hash MISMATCH'')]
      else [])"

definition certificate_signature_checks ::
    "crypto \<Rightarrow> identity_registry option \<Rightarrow> obj \<Rightarrow> py_error + check list" where
  "certificate_signature_checks C registry cert =
     (let ch = py_get cert ''consensus-certificate/hash'';
          cert_sig = py_get cert ''consensus-certificate/signature'' in
      if \<not> truthy cert_sig then Inr []
      else bindE (verify_message C registry
                    [(''runner-message/signature'', cert_sig), (''runner-message/hash'', ch)]) (\<lambda>r.
      Inr [mk_check (if outcome r \<in> {''valid-trusted'', ''valid-unknown''} then ''pass'' else ''fail'')
             ''certificate-signature'' (''Certificate signature: '' @ outcome r)]))"

definition certificate_path_check :: "obj \<Rightarrow> check" where
  "certificate_path_check cert =
     (let has_abs = list_ex (\<lambda>marker. contains marker (json_line (PDict cert))) [''/tmp/'', ''/var/'', ''/home/''] in
      mk_check (if has_abs then ''warn'' else ''pass'') ''certificate-no-abs-paths''
        (if \<not> has_abs then ''No absolute paths in certificate'' else ''Certificate contains absolute paths''))"

definition certificate_checks ::
    "crypto \<Rightarrow> identity_registry option \<Rightarrow> pv option \<Rightarrow> check list" where
  "certificate_checks C registry doc =
     (case doc of
        Some (PDict cert) \<Rightarrow>
          certificate_hash_checks C cert
          @ (case certificate_signature_checks C registry cert of
               Inl _ \<Rightarrow> [certificate_parse_failure]
             | Inr cs \<Rightarrow> cs @ [certificate_path_check cert])
      | _ \<Rightarrow> [certificate_parse_failure])"

definition evidence_checks :: "pv option \<Rightarrow> check list" where
  "evidence_checks doc =
     (let bad = mk_check ''fail'' ''evidence-node-parse'' ''Evidence node is not valid JSON'' in
      case doc of
        Some (PDict ev) \<Rightarrow>
          (case get_or ev ''execution'' (PDict []) of
             PDict e \<Rightarrow>
               let eid = py_get e ''execution-id'' in
               [mk_check (if eid = PStr ''execution/consensus'' then ''pass'' else ''warn'')
                  ''evidence-node-execution-id'' (''Evidence node execution-id: '' @ py_str eid)]
           | _ \<Rightarrow> [bad])
      | _ \<Rightarrow> [bad])"

definition consensus_checks ::
    "crypto \<Rightarrow> mailbox \<Rightarrow> string \<Rightarrow> identity_registry option \<Rightarrow> check list" where
  "consensus_checks C mb rrh registry =
     (let d = run_dir rrh @ [''consensus'']; there = (\<lambda>n. path_exists mb (d @ [n])); doc = (\<lambda>n. load_json mb (d @ [n])) in
      if \<not> path_exists mb d then [mk_check ''info'' ''consensus-dir'' ''No consensus outputs yet'']
      else
        (if there ''consensus-certificate.json''
         then certificate_checks C registry (doc ''consensus-certificate.json'') else [])
        @ (if there ''disagreement-report.json''
           then [mk_check ''pass'' ''disagreement-exists'' ''Disagreement report present''] else [])
        @ (if there ''evidence-node.json'' then evidence_checks (doc ''evidence-node.json'')
           else [mk_check ''info'' ''evidence-node-exists'' ''No evidence node present'']))"

section \<open>Object store\<close>

definition object_parse_warning :: "string \<Rightarrow> check" where
  "object_parse_warning n =
     mk_check ''warn'' (''object-parse-'' @ take 16 (json_stem n)) (''Object '' @ n @ '' is not valid JSON'')"

definition object_checks :: "string \<Rightarrow> pv option \<Rightarrow> check list" where
  "object_checks n doc =
     (let fname_hash = json_stem n; short = take 16 fname_hash in
      case doc of
        Some (PDict odata) \<Rightarrow>
          let o_algo = py_get odata ''object/hash-algorithm'';
              o_sv = py_get odata ''object/schema-version'';
              o_hash = py_get odata ''object/hash'';
              mismatch = (truthy o_hash \<and> o_hash \<noteq> PStr fname_hash) in
          if mismatch \<and> \<not> is_str o_hash \<and> \<not> is_list o_hash then [object_parse_warning n]
          else
            (if mismatch
             then [mk_check ''fail'' (''object-hash-'' @ short)
                     (''Object hash mismatch: file='' @ short @ ''... content='' @
                      (if is_str o_hash then take 16 (str_of o_hash) else py_str (PList (take 16 (list_of o_hash))))
                      @ ''...'')]
             else [])
            @ (if truthy o_algo \<and> o_algo \<noteq> PStr object_hash_algorithm
               then [mk_check ''warn'' (''object-algorithm-'' @ short) (''Object algorithm: '' @ py_str o_algo)] else [])
            @ (if truthy o_sv \<and> o_sv \<noteq> PStr object_schema_version
               then [mk_check ''warn'' (''object-schema-'' @ short) (''Object schema-version: '' @ py_str o_sv)] else [])
      | _ \<Rightarrow> [object_parse_warning n])"

definition stored_files :: "mailbox \<Rightarrow> (string \<times> pv option) list" where
  "stored_files mb =
     concat (map (\<lambda>p. map (\<lambda>n. (n, load_json mb (object_dir @ [p, n])))
                        (filter has_json_suffix (children mb (object_dir @ [p]))))
               (filter (\<lambda>p. object_dir @ [p] \<in> set (dirs mb)) (children mb object_dir)))"

definition object_store_checks :: "mailbox \<Rightarrow> check list" where
  "object_store_checks mb =
     (if \<not> path_exists mb object_dir
      then [mk_check ''info'' ''object-store'' ''Object store directory not found'']
      else concat (map (\<lambda>(n, doc). object_checks n doc) (stored_files mb))
           @ (if stored_files mb = [] then [mk_check ''info'' ''object-count'' ''No objects in store''] else []))"

section \<open>The validator\<close>

definition run_request_checks :: "pv option \<Rightarrow> check list" where
  "run_request_checks doc =
     (case doc of
        Some (PDict d) \<Rightarrow>
          let sv = py_get d ''run-request/schema-version'' in
          [mk_check (if sv = PStr ''run-request.v1'' then ''pass'' else ''warn'') ''run-request-valid''
             (''Run request schema-version: '' @ py_str sv)]
      | _ \<Rightarrow> [mk_check ''fail'' ''run-request-valid'' ''Run request is not valid JSON''])"

definition validate_run ::
    "crypto \<Rightarrow> mailbox \<Rightarrow> string \<Rightarrow> identity_registry option \<Rightarrow> bool \<Rightarrow> py_error + check list" where
  "validate_run C mb rrh registry require_signatures =
     (let rr_file = run_dir rrh @ [''request.json''] in
      if \<not> path_exists mb rr_file
      then Inr [mk_check ''fail'' ''run-request-exists'' (''Run request '' @ take 16 rrh @ ''... not found'')]
      else bindE (submission_checks C mb rrh registry require_signatures) (\<lambda>subs.
        Inr ([mk_check ''pass'' ''run-request-exists'' (''Run request '' @ take 16 rrh @ ''... found'')]
             @ run_request_checks (load_json mb rr_file) @ subs
             @ consensus_checks C mb rrh registry @ object_store_checks mb)))"

definition validate_mailbox ::
    "crypto \<Rightarrow> string \<Rightarrow> mailbox \<Rightarrow> string \<Rightarrow> identity_registry option \<Rightarrow> bool \<Rightarrow> bool
       \<Rightarrow> py_error + check list" where
  "validate_mailbox C root mb rrh registry strict require_signatures =
     (if \<not> path_exists mb [''mailbox.json'']
      then Inr [mk_check ''fail'' ''mailbox-exists'' (''mailbox.json not found at '' @ root @ ''/mailbox.json'')]
      else if load_json mb [''mailbox.json''] = None
      then Inr [mk_check ''fail'' ''mailbox-exists'' ''mailbox.json is not valid JSON'']
      else
        let first = mk_check ''pass'' ''mailbox-exists'' ''mailbox.json exists and is valid'' in
        if rrh = []
        then Inr (apply_strict strict
               (first # (if path_exists mb [''runs'']
                         then [mk_check ''info'' ''run-count''
                                 (nat_str (length (filter (\<lambda>n. [''runs'', n] \<in> set (dirs mb)) (children mb [''runs''])))
                                  @ '' run request(s)'')]
                         else [])))
        else bindE (validate_run C mb rrh registry require_signatures) (\<lambda>cs.
             Inr (apply_strict strict (first # cs))))"

text \<open>The report of the command line: counts by status, and the exit code.\<close>

definition count_status :: "string \<Rightarrow> check list \<Rightarrow> nat" where
  "count_status s cs = length (filter (\<lambda>c. check_status c = s) cs)"

definition validate_summary :: "check list \<Rightarrow> obj" where
  "validate_summary cs =
     [(''total'', PInt (int (length cs))), (''pass'', PInt (int (count_status ''pass'' cs))),
      (''info'', PInt (int (count_status ''info'' cs))), (''warn'', PInt (int (count_status ''warn'' cs))),
      (''fail'', PInt (int (count_status ''fail'' cs)))]"

definition validate_exit_code :: "check list \<Rightarrow> int" where
  "validate_exit_code cs = (if count_status ''fail'' cs \<noteq> 0 then 1 else 0)"

end
