(* ===== verification/Mailbox_Theorems.thy ===== *)
theory Mailbox_Theorems
  imports Mailbox_Validate
begin

text \<open>
  What a strict validation of a mailbox establishes about the submissions of a run, what it does not
  establish, and the fate of certificate signatures.
\<close>

section \<open>Clean reports\<close>

definition clean :: "check list \<Rightarrow> bool" where
  "clean cs \<longleftrightarrow> list_all (\<lambda>c. check_status c \<noteq> ''warn'' \<and> check_status c \<noteq> ''fail'') cs"

lemma clean_simps [simp]:
  "clean []" "clean (c # cs) \<longleftrightarrow> check_status c \<noteq> ''warn'' \<and> check_status c \<noteq> ''fail'' \<and> clean cs"
  "clean (cs @ ds) \<longleftrightarrow> clean cs \<and> clean ds"
  by (auto simp: clean_def)

lemma clean_concat: "clean (concat css) \<longleftrightarrow> list_all clean css"
  by (induction css) simp_all

lemma strict_exit_code: "validate_exit_code (apply_strict True cs) = 0 \<longleftrightarrow> clean cs"
proof -
  have "count_status ''fail'' ds = 0 \<longleftrightarrow> list_all (\<lambda>c. check_status c \<noteq> ''fail'') ds" for ds
    by (induction ds) (simp_all add: count_status_def)
  moreover have "check_status (if check_status c = ''warn'' then c\<lparr>check_status := ''fail''\<rparr> else c) \<noteq> ''fail''
      \<longleftrightarrow> check_status c \<noteq> ''warn'' \<and> check_status c \<noteq> ''fail''" for c
    by simp
  ultimately show ?thesis
    by (simp add: validate_exit_code_def apply_strict_def clean_def list.pred_map comp_def)
      (auto simp: list_all_iff)
qed

section \<open>Outcomes\<close>

definition registry_outcomes :: "string list" where
  "registry_outcomes = [''valid-trusted'', ''valid-unknown'', ''valid-inactive'', ''valid-revoked'',
     ''registry-key-mismatch'']"

lemma registry_outcome_names [simp]:
  "''valid-trusted'' \<in> set registry_outcomes" "''valid-unknown'' \<in> set registry_outcomes"
  "''valid-inactive'' \<in> set registry_outcomes" "''valid-revoked'' \<in> set registry_outcomes"
  "''registry-key-mismatch'' \<in> set registry_outcomes" "''hash-mismatch'' \<notin> set registry_outcomes"
  by (simp_all add: registry_outcomes_def)

lemma if_Inr_cases: "(if c then Inr x else m) = Inr r \<Longrightarrow> (c \<and> r = x) \<or> (\<not> c \<and> m = Inr r)"
  by (simp split: if_split_asm)

lemma status_stage_outcome: "status_stage R rid pk = Inr r \<Longrightarrow> outcome r \<in> set registry_outcomes"
  unfolding status_stage_def bindE_Inr_iff
  by (elim exE conjE if_Inr_cases [elim_format] disjE) (simp_all, clarsimp)

lemma key_stage_outcome: "key_stage R rid pk = Inr r \<Longrightarrow> outcome r \<in> set registry_outcomes"
  unfolding key_stage_def bindE_Inr_iff Let_def
  by (elim exE conjE if_Inr_cases [elim_format] disjE) (simp_all add: status_stage_outcome)

lemma registry_outcome_outcome: "registry_outcome reg rid pk = Inr r \<Longrightarrow> outcome r \<in> set registry_outcomes"
proof (cases reg)
  case (Some R)
  assume "registry_outcome reg rid pk = Inr r"
  then show ?thesis
    unfolding registry_outcome_def Some option.case bindE_Inr_iff
    by (elim exE conjE if_Inr_cases [elim_format] disjE) (simp_all add: key_stage_outcome)
qed (auto simp: registry_outcome_def)

lemma verify_message_cases:
  assumes "verify_message C reg msg = Inr r"
  shows "outcome r \<in> {''unsigned'', ''malformed'', ''invalid-signature''}
    \<or> (outcome r = ''hash-mismatch'' \<and> truthy (py_get msg ''runner-message/hash'') \<and>
        py_get msg ''runner-message/hash'' \<noteq> PStr (message_hash C msg))
    \<or> outcome r \<in> set registry_outcomes"
  using assms unfolding verify_message_def Let_def
  by (elim if_Inr_cases [elim_format] disjE conjE)
    (simp_all, (clarsimp simp: registry_outcome_outcome split: verify_result.split_asm)+)

section \<open>Submissions of a clean report\<close>

lemma clean_signature_checks:
  assumes "clean (signature_checks True rid short r)" and "outcome r \<notin> {''hash-mismatch''}"
    and "outcome r \<in> {''unsigned'', ''malformed'', ''invalid-signature''} \<union> {''hash-mismatch''} \<union> set registry_outcomes"
  shows "outcome r \<in> {''valid-trusted'', ''registry-key-mismatch''}"
  using assms unfolding registry_outcomes_def
  by (elim UnE) (auto simp: signature_checks_def Let_def)

lemma clean_hash_checks: "clean (hash_checks C True rid short msg) \<Longrightarrow>
    truthy (hash_of msg) \<and> py_get msg ''runner-message/hash'' = PStr (message_hash C msg)"
proof -
  assume c: "clean (hash_checks C True rid short msg)"
  then have h: "hash_of msg = PStr (message_hash C msg)" "truthy (hash_of msg)"
    by (auto simp: hash_checks_def Let_def self_hash_message split: if_split_asm)
  then show ?thesis by (auto simp: hash_of_def get_or_def split: option.splits)
qed

text \<open>The signature of a message verifies, over its canonical bytes, under the key the message itself carries.\<close>

definition verifies_own_key :: "crypto \<Rightarrow> obj \<Rightarrow> bool" where
  "verifies_own_key C msg \<longleftrightarrow>
     (let sig = dict_of (py_get msg ''runner-message/signature'') in
      truthy (py_get sig ''runner-signature/public-key'') \<and>
      key_verify C (py_get sig ''runner-signature/public-key'') (canonical_json msg sign_exclude_keys)
        (py_get sig ''runner-signature/value'') = Verified)"

lemma registry_verdict_verifies:
  assumes "verify_message C registry msg = Inr r" and "outcome r \<in> {''valid-trusted'', ''registry-key-mismatch''}"
  shows "verifies_own_key C msg"
  using assms by (auto simp: verify_message_def verifies_own_key_def Let_def split: if_split_asm verify_result.split_asm)

text \<open>What a strict report with required signatures establishes about one message.\<close>

definition submission_ok ::
    "crypto \<Rightarrow> identity_registry option \<Rightarrow> string \<Rightarrow> obj \<Rightarrow> bool" where
  "submission_ok C registry rrh msg \<longleftrightarrow>
     truthy (hash_of msg) \<and> py_get msg ''runner-message/hash'' = PStr (message_hash C msg) \<and>
     py_get msg ''runner-message/schema-version'' \<in> {PStr ''runner-message.v1''} \<union> {v. \<not> truthy v} \<and>
     py_get msg ''runner-message/run-request-hash'' \<in> {PStr rrh} \<union> {v. \<not> truthy v} \<and>
     verifies_own_key C msg \<and>
     (\<exists>r. verify_message C registry msg = Inr r \<and>
        outcome r \<in> {''valid-trusted'', ''registry-key-mismatch''})"

lemma clean_message_checks:
  assumes "message_checks C registry rrh True msg = Inr cs" and "clean cs"
  shows "submission_ok C registry rrh msg"
proof -
  from assms obtain rid short r where r: "verify_message C registry msg = Inr r"
    and hash: "clean (hash_checks C True rid short msg)" and schema: "clean (schema_checks rid short msg)"
    and run: "clean (run_checks rrh rid short msg)" and sig: "clean (signature_checks True rid short r)"
    by (auto simp: message_checks_def Let_def bindE_Inr_iff)
  note h = clean_hash_checks [OF hash]
  have "outcome r \<in> {''valid-trusted'', ''registry-key-mismatch''}"
    by (rule clean_signature_checks [OF sig]) (use verify_message_cases [OF r] h in auto)
  moreover from this have "verifies_own_key C msg" by (intro registry_verdict_verifies [OF r])
  moreover have "py_get msg ''runner-message/schema-version'' \<in> {PStr ''runner-message.v1''} \<union> {v. \<not> truthy v}"
    using schema by (auto simp: schema_checks_def Let_def split: if_split_asm)
  moreover have "py_get msg ''runner-message/run-request-hash'' \<in> {PStr rrh} \<union> {v. \<not> truthy v}"
    using run by (auto simp: run_checks_def Let_def split: if_split_asm)
  ultimately show ?thesis using h r by (auto simp: submission_ok_def)
qed

section \<open>Equivocation of a clean report\<close>

lemma track_runners:
  assumes "foldE track_step (runners, keys) ms = Inr (runners', keys')"
    and "m \<in> set ms" and "truthy (hash_of m)"
  shows "hash_of m \<in> set (get_or runners' (get_or m ''runner-message/runner-id'' (PStr ''?'')) [])"
proof -
  let ?rid = "get_or m ''runner-message/runner-id'' (PStr ''?'')"
  have keep: "set (get_or runners k []) \<subseteq> set (get_or runners' k [])"
    if "foldE track_step (runners, keys) ms = Inr (runners', keys')" for runners keys ms runners' keys' k
    using that
  proof (induction ms arbitrary: runners keys)
    case (Cons x ms)
    from Cons.prems obtain r k1 where step: "track_step (runners, keys) x = Inr (r, k1)"
      and rest: "foldE track_step (r, k1) ms = Inr (runners', keys')" by (auto simp: bindE_Inr_iff)
    have "set (get_or runners k []) \<subseteq> set (get_or r k [])"
      using step by (auto simp: track_step_def append_seen_def Let_def bindE_Inr_iff split: if_split_asm)
    with Cons.IH [OF rest] show ?case by blast
  qed simp
  show ?thesis
    using assms
  proof (induction ms arbitrary: runners keys)
    case (Cons x ms)
    from Cons.prems(1) obtain r k1 where step: "track_step (runners, keys) x = Inr (r, k1)"
      and rest: "foldE track_step (r, k1) ms = Inr (runners', keys')" by (auto simp: bindE_Inr_iff)
    show ?case
    proof (cases "m = x")
      case True
      then have "hash_of m \<in> set (get_or r ?rid [])"
        using step Cons.prems(3)
        by (auto simp: track_step_def append_seen_def Let_def bindE_Inr_iff split: if_split_asm)
      with keep [OF rest] show ?thesis by blast
    next
      case False
      with Cons.IH [OF rest] Cons.prems show ?thesis by simp
    qed
  qed simp
qed

lemma clean_runner_equivocation:
  assumes "clean (concat (map runner_equivocation runners))" and "h \<in> set (get_or runners k [])"
    and "h' \<in> set (get_or runners k [])"
  shows "h = h'"
proof -
  from assms(2) obtain hs where hs: "map_of runners k = Some hs" "get_or runners k [] = hs"
    by (cases "map_of runners k") (auto simp: get_or_def)
  have "clean (runner_equivocation (k, hs))"
    using assms(1) map_of_SomeD [OF hs(1)] by (auto simp: clean_concat list_all_iff)
  then have "length (remdups hs) \<le> 1"
    by (auto simp: runner_equivocation_def Let_def split: if_split_asm)
  then have "card (set hs) \<le> 1" by (simp add: length_remdups_card_conv)
  with assms(2,3) hs(2) show ?thesis by (metis List.finite_set card_le_Suc0_iff_eq One_nat_def)
qed

definition one_hash_per_runner :: "obj list \<Rightarrow> bool" where
  "one_hash_per_runner ms \<longleftrightarrow> list_all (\<lambda>m. list_all (\<lambda>m'.
     get_or m ''runner-message/runner-id'' (PStr ''?'') = get_or m' ''runner-message/runner-id'' (PStr ''?'')
     \<longrightarrow> hash_of m = hash_of m') ms) ms"

lemma clean_equivocation_checks:
  assumes "equivocation_checks ms = Inr cs" and "clean cs" and "\<forall>m \<in> set ms. truthy (hash_of m)"
  shows "one_hash_per_runner ms"
proof -
  from assms(1,2) obtain runners keys where run: "foldE track_step ([], []) ms = Inr (runners, keys)"
    and clean: "clean (concat (map runner_equivocation runners))"
    by (auto simp: equivocation_checks_def bindE_Inr_iff)
  have "hash_of m = hash_of m'" if "m \<in> set ms" "m' \<in> set ms"
    "get_or m ''runner-message/runner-id'' (PStr ''?'') = get_or m' ''runner-message/runner-id'' (PStr ''?'')" for m m'
  proof -
    have "hash_of m \<in> set (get_or runners (get_or m ''runner-message/runner-id'' (PStr ''?'')) [])"
      using that(1) assms(3) by (intro track_runners [OF run]) simp_all
    moreover have "hash_of m' \<in> set (get_or runners (get_or m ''runner-message/runner-id'' (PStr ''?'')) [])"
      unfolding that(3) using that(2) assms(3) by (intro track_runners [OF run]) simp_all
    ultimately show ?thesis by (rule clean_runner_equivocation [OF clean])
  qed
  then show ?thesis unfolding one_hash_per_runner_def list_all_iff by blast
qed

section \<open>The whole report\<close>

lemma clean_submission_checks:
  assumes "submission_checks C mb rrh registry True = Inr cs" and "clean cs"
  obtains ms where "map snd (read_submission_files mb rrh) = map (Some \<circ> PDict) ms"
    "list_all (submission_ok C registry rrh) ms" "one_hash_per_runner ms"
proof -
  let ?fs = "read_submission_files mb rrh"
  from assms obtain valid warnings ms css es where
    ms: "mapE as_dict (List.map_filter snd ?fs) = Inr ms"
    and per: "mapE (message_checks C registry rrh True) ms = Inr css"
    and eqv: "equivocation_checks ms = Inr es"
    and clean: "clean (parse_failures ?fs)" "list_all clean css" "clean es"
    by (auto simp: submission_checks_def Let_def bindE_Inr_iff clean_concat)
  have parsed: "snd f \<noteq> None" if "f \<in> set ?fs" for f
    using clean(1) that by (cases f) (auto simp: parse_failures_def clean_def list_all_iff)
  have docs: "List.map_filter snd ?fs = map PDict ms" using ms by (simp only: mapE_as_dict_iff)
  have "map snd ?fs = map Some (List.map_filter snd ?fs)"
    using parsed by (induction ?fs) (auto simp: List.map_filter_def)
  then have "map snd ?fs = map (Some \<circ> PDict) ms" by (simp add: docs)
  moreover have ok: "list_all (submission_ok C registry rrh) ms"
    using per clean(2) clean_message_checks
    by (auto simp: mapE_Inr_iff list_all2_conv_all_nth list_all_length)
  moreover have "one_hash_per_runner ms"
  proof (rule clean_equivocation_checks [OF eqv clean(3)])
    show "\<forall>m \<in> set ms. truthy (hash_of m)"
    proof
      fix m assume "m \<in> set ms"
      with ok show "truthy (hash_of m)" by (auto simp: submission_ok_def list_all_iff)
    qed
  qed
  ultimately show ?thesis by (rule that)
qed

lemma clean_report:
  assumes "validate_mailbox C root mb rrh registry True True = Inr cs" and "validate_exit_code cs = 0"
    and "rrh \<noteq> []"
  obtains ms where "map snd (read_submission_files mb rrh) = map (Some \<circ> PDict) ms"
    "list_all (submission_ok C registry rrh) ms" "one_hash_per_runner ms"
proof -
  have bad: "validate_exit_code [mk_check ''fail'' k m] \<noteq> 0" for k m
    by (simp add: validate_exit_code_def count_status_def)
  from assms bad obtain c1 ds where run: "validate_run C mb rrh registry True = Inr ds"
    and cs: "cs = apply_strict True (c1 # ds)"
    by (auto simp: validate_mailbox_def Let_def bindE_Inr_iff split: if_split_asm)
  from assms(2) have clean: "clean ds" unfolding cs strict_exit_code by simp
  then obtain subs where "submission_checks C mb rrh registry True = Inr subs" "clean subs"
    using run by (auto simp: validate_run_def Let_def bindE_Inr_iff split: if_split_asm)
  then show ?thesis using that by (rule clean_submission_checks)
qed

section \<open>Certificate signatures\<close>

lemma certificate_signature_outcome:
  assumes "truthy (py_get cert ''consensus-certificate/signature'')"
    and "truthy (py_get cert ''consensus-certificate/hash'')"
    and "py_get cert ''consensus-certificate/hash'' \<noteq> PStr (sha256_text C ''{}'')"
  obtains out where "out \<in> {''malformed'', ''hash-mismatch''}"
    "certificate_signature_checks C registry cert =
       Inr [mk_check ''fail'' ''certificate-signature'' (''Certificate signature: '' @ out)]"
proof -
  let ?m = "[(''runner-message/signature'', py_get cert ''consensus-certificate/signature''),
             (''runner-message/hash'', py_get cert ''consensus-certificate/hash'')]"
  have hash: "message_hash C ?m = sha256_text C ''{}''"
    by (simp add: message_hash_def canonical_json_def hash_exclude_keys_def without_keys_def
        json_dumps_def json_block_def)
  have get: "py_get ?m ''runner-message/signature'' = py_get cert ''consensus-certificate/signature''"
    "py_get ?m ''runner-message/hash'' = py_get cert ''consensus-certificate/hash''"
    by (simp_all add: get_or_def)
  have "\<exists>r. verify_message C registry ?m = Inr r \<and> outcome r \<in> {''malformed'', ''hash-mismatch''}"
    using assms unfolding verify_message_def Let_def get hash
    by (auto split: if_split)
  then obtain r where "verify_message C registry ?m = Inr r" "outcome r \<in> {''malformed'', ''hash-mismatch''}"
    by blast
  with assms(1) show ?thesis
    by (intro that [of "outcome r"]) (auto simp: certificate_signature_checks_def Let_def)
qed

section \<open>Properties\<close>

text \<open>
  C20: A strict validation with required signatures that ends with exit code 0 establishes, for every
  JSON file in the run's submissions directory: it is a dictionary whose hash field is the hash of its
  content, whose schema version and run, where given, are the expected ones, and whose signature
  verifies under the key it carries.  Its verdict is \<^verbatim>\<open>valid-trusted\<close> or \<^verbatim>\<open>registry-key-mismatch\<close>: the
  validator does not report that the registry has the runner or the key for another.  Messages of one runner all have one hash.
\<close>

theorem strict_validation_sound:
  assumes "validate_mailbox C root mb rrh registry True True = Inr cs" and "validate_exit_code cs = 0"
    and "rrh \<noteq> []"
  shows "\<exists>ms. map snd (read_submission_files mb rrh) = map (Some \<circ> PDict) ms \<and>
    list_all (submission_ok C registry rrh) ms \<and> one_hash_per_runner ms"
  by (rule clean_report [OF assms]) blast

text \<open>
  The verdict \<^verbatim>\<open>registry-key-mismatch\<close> leaves no trace in the report: a message with that verdict gets
  the checks of its hash, schema and run only, so a correctly hashed message that claims another
  runner's identifier adds neither a warning nor a failure, also where signatures are required.
\<close>

lemma key_mismatch_not_reported:
  assumes "verify_message C registry msg = Inr r" and "outcome r = ''registry-key-mismatch''"
    and "short_hash (hash_of msg) = Inr short"
  shows "message_checks C registry rrh require_signatures msg =
    (let rid = py_str (get_or msg ''runner-message/runner-id'' (PStr ''?'')) in
     Inr (hash_checks C require_signatures rid short msg @ schema_checks rid short msg
          @ run_checks rrh rid short msg))"
  using assms by (simp add: message_checks_def Let_def signature_checks_def)

text \<open>
  A signature on a consensus certificate never passes: unless the certificate's hash is the hash of
  the empty document, the validator reports its signature as failed, whatever was signed and
  whichever registry is given.
\<close>

theorem certificate_signature_always_fails:
  assumes "truthy (py_get cert ''consensus-certificate/signature'')"
    and "truthy (py_get cert ''consensus-certificate/hash'')"
    and "py_get cert ''consensus-certificate/hash'' \<noteq> PStr (sha256_text C ''{}'')"
  shows "\<exists>text. certificate_signature_checks C registry cert =
    Inr [mk_check ''fail'' ''certificate-signature'' text]"
  by (rule certificate_signature_outcome [OF assms]) blast

subsection \<open>Concrete instances\<close>

text \<open>A mailbox with one signed submission of alice, and one where mallory signs as alice.\<close>

definition demo_mailbox :: "obj \<Rightarrow> mailbox" where
  "demo_mailbox msg = publish_message
     (write_json [''runs'', ''r1'', ''request.json''] (PDict [(''run-request/schema-version'', PStr ''run-request.v1'')])
        \<lparr>dirs = [[]], files = [([''mailbox.json''], JsonFile (PDict []))]\<rparr>)
     ''r1'' ''submissions'' ''alice'' msg"

definition demo_hashed :: "string \<Rightarrow> obj" where
  "demo_hashed seed = (case sign_message demo_crypto ''now''
       [(''runner-message/type'', PStr ''x''), (''runner-message/runner-id'', PStr ''alice'')] seed of
     Inr m \<Rightarrow> m | Inl _ \<Rightarrow> [])"

definition demo_report :: "string \<Rightarrow> py_error + check list" where
  "demo_report seed = validate_mailbox demo_crypto ''/m'' (demo_mailbox (demo_hashed seed)) ''r1''
     (Some demo_registry) True True"

lemma demo_report_exit:
  "(case demo_report ''a'' of Inr cs \<Rightarrow> validate_exit_code cs = 0 | Inl _ \<Rightarrow> False)"
  "(case demo_report ''m'' of Inr cs \<Rightarrow> validate_exit_code cs = 0 | Inl _ \<Rightarrow> False)"
  by code_simp+

definition demo_outcome :: "string \<Rightarrow> string" where
  "demo_outcome seed = (case verify_message demo_crypto (Some demo_registry) (demo_hashed seed) of
     Inr r \<Rightarrow> outcome r | Inl _ \<Rightarrow> [])"

lemma demo_mismatch: "demo_outcome ''m'' = ''registry-key-mismatch''" "demo_outcome ''a'' = ''valid-trusted''"
  by code_simp+

lemma demo_mallory:
  obtains r where "verify_message demo_crypto (Some demo_registry) (demo_hashed ''m'') = Inr r"
    "outcome r = ''registry-key-mismatch''"
  using demo_mismatch(1) by (auto simp: demo_outcome_def split: sum.splits)

text \<open>
  An impersonated submission passes the strictest validation: with the registry binding alice to her
  key, a submission in alice's name signed with another key has the verdict
  \<^verbatim>\<open>registry-key-mismatch\<close>, and validating its mailbox with \<^verbatim>\<open>--strict --require-signatures\<close> exits with 0.
\<close>

theorem impersonation_passes_strict_validation:
  "\<exists>r cs. verify_message demo_crypto (Some demo_registry) (demo_hashed ''m'') = Inr r \<and>
     outcome r = ''registry-key-mismatch'' \<and>
     py_get (demo_hashed ''m'') ''runner-message/runner-id'' = PStr ''alice'' \<and>
     validate_mailbox demo_crypto ''/m'' (demo_mailbox (demo_hashed ''m'')) ''r1'' (Some demo_registry) True True
       = Inr cs \<and> validate_exit_code cs = 0"
proof -
  have "py_get (demo_hashed ''m'') ''runner-message/runner-id'' = PStr ''alice''" by code_simp
  with demo_report_exit(2) show ?thesis
    by (rule_tac demo_mallory) (auto simp: demo_report_def split: sum.splits)
qed

theorem strict_validation_sound_witness:
  "\<exists>ms. map snd (read_submission_files (demo_mailbox (demo_hashed ''a'')) ''r1'') = map (Some \<circ> PDict) ms \<and>
     list_all (submission_ok demo_crypto (Some demo_registry) ''r1'') ms \<and> one_hash_per_runner ms \<and> length ms = 1"
proof -
  from demo_report_exit(1) obtain cs where cs: "validate_mailbox demo_crypto ''/m''
      (demo_mailbox (demo_hashed ''a'')) ''r1'' (Some demo_registry) True True = Inr cs"
    "validate_exit_code cs = 0"
    by (auto simp: demo_report_def split: sum.splits)
  from strict_validation_sound [OF cs] obtain ms where ms:
    "map snd (read_submission_files (demo_mailbox (demo_hashed ''a'')) ''r1'') = map (Some \<circ> PDict) ms"
    "list_all (submission_ok demo_crypto (Some demo_registry) ''r1'') ms" "one_hash_per_runner ms"
    by auto
  have "length (map snd (read_submission_files (demo_mailbox (demo_hashed ''a'')) ''r1'')) = 1" by code_simp
  with ms show ?thesis by (metis length_map)
qed

definition demo_certificate :: obj where
  "demo_certificate =
     [(''consensus-certificate/hash'', PStr ''h''),
      (''consensus-certificate/signature'', PDict (signature_field ''ka'' ''sig'' ''now''))]"

theorem certificate_signature_always_fails_witness:
  "\<exists>text. certificate_signature_checks demo_crypto (Some demo_registry) demo_certificate =
     Inr [mk_check ''fail'' ''certificate-signature'' text]"
  by (rule certificate_signature_always_fails)
    (simp_all add: demo_certificate_def get_or_def signature_field_def demo_crypto_def)

end
