(* ===== verification/Consensus.thy ===== *)
theory Consensus
  imports Submissions Object_Store
begin

text \<open>
  \<^verbatim>\<open>scripts/forensic/consensus.py\<close>: the comparison surface of a bundle, per-field agreement, the verdict,
  the certificate, the disagreement report and the round.  A run directory is its name, its printed
  path and its files; executing a run is outside the model, its result is an argument.  Clock readings
  are arguments.
\<close>

section \<open>The comparison surface\<close>

definition consensus_fields :: "string list" where
  "consensus_fields =
     [''bundle/hash'', ''overview/hash'', ''execution/summary/status'',
      ''execution/summary/totals/total'', ''execution/summary/totals/passed'',
      ''execution/summary/totals/failed'', ''execution/summary/totals/expected-failed'',
      ''execution/summary/totals/unexpected-failed'', ''source/tree-hash'',
      ''source/tree-hash-algorithm'']"

definition volatile_fields_excluded :: "string list" where
  "volatile_fields_excluded = [''execution/node-hash'', ''execution/content-hash'', ''execution/record-hash'']"

fun deep_get_parts :: "pv \<Rightarrow> string list \<Rightarrow> pv" where
  "deep_get_parts current [] = current"
| "deep_get_parts current (p # ps) =
     (case current of PDict d \<Rightarrow> deep_get_parts (py_get d p) ps | _ \<Rightarrow> PNone)"

definition deep_get :: "obj \<Rightarrow> string \<Rightarrow> pv" where
  "deep_get d path = deep_get_parts (PDict d) (split_on (CHR ''/'') path)"

definition put_present :: "string \<Rightarrow> pv \<Rightarrow> obj \<Rightarrow> obj" where
  "put_present k v d = (if v \<noteq> PNone then dset k v d else d)"

definition build_summary :: "obj \<Rightarrow> obj" where
  "build_summary bundle =
     (let summary = foldl (\<lambda>s field. put_present field (deep_get bundle field) s) [] consensus_fields;
          snapshot = deep_get bundle ''registry/snapshot'' in
      case snapshot of
        PDict d \<Rightarrow> foldl (\<lambda>s (k, v). put_present (''registry/snapshot/'' @ k) v s) summary d
      | _ \<Rightarrow> summary)"

section \<open>Submissions of run directories\<close>

record run_dir_files =
  run_name :: string
  run_path :: string
  run_files :: "string \<Rightarrow> jfile option"

definition load_bundle :: "jfile \<Rightarrow> obj option" where
  "load_bundle f = (case f of JsonFile (PDict d) \<Rightarrow> Some d | _ \<Rightarrow> None)"

definition find_bundle_root :: "run_dir_files \<Rightarrow> jfile option" where
  "find_bundle_root r =
     (case run_files r ''clojure-bundle-root.json'' of
        Some f \<Rightarrow> Some f | None \<Rightarrow> run_files r ''run-bundle-root.json'')"

definition bundle_of :: "run_dir_files \<Rightarrow> obj" where
  "bundle_of r = (case find_bundle_root r of None \<Rightarrow> [] | Some f \<Rightarrow> (case load_bundle f of None \<Rightarrow> [] | Some d \<Rightarrow> d))"

definition volatile_of :: "obj \<Rightarrow> obj" where
  "volatile_of bundle =
     foldl (\<lambda>d vf. if truthy (deep_get bundle vf) then dset vf (deep_get bundle vf) d else d) []
       volatile_fields_excluded"

definition directory_submission :: "string \<Rightarrow> nat \<Rightarrow> run_dir_files \<Rightarrow> obj" where
  "directory_submission now i r =
     (let bundle = bundle_of r in
      [(''runner-message/schema-version'', PStr ''runner-message.v1''),
       (''runner-message/type'', PStr ''result-submission''),
       (''runner-message/timestamp'', PStr now),
       (''runner-message/runner-id'', PStr (''runner/local-forensic-'' @ nat_str i)),
       (''runner-message/run-id'', PStr (run_name r)),
       (''runner-message/status'', PStr (if bundle \<noteq> [] then ''pass'' else ''fail'')),
       (''runner-message/exit-code'', if bundle \<noteq> [] then deep_get bundle ''run/exit-code'' else PInt (- 1)),
       (''runner-message/bundle-path'', PStr (run_path r))]
      @ (if bundle \<noteq> [] then [(''runner-message/summary'', PDict (build_summary bundle))] else [])
      @ (if bundle \<noteq> [] \<and> volatile_of bundle \<noteq> []
         then [(''runner-message/volatile'', PDict (volatile_of bundle))] else []))"

definition collect_submissions :: "string \<Rightarrow> run_dir_files list \<Rightarrow> obj list" where
  "collect_submissions now run_dirs = map (\<lambda>(i, r). directory_submission now i r) (enumerate 0 run_dirs)"

section \<open>Agreement\<close>

record agreement =
  ag_field :: string
  ag_status :: string
  ag_winning :: string
  ag_count :: nat
  ag_total :: nat
  ag_threshold :: int
  ag_values :: "(string \<times> nat) list"

definition summary_of :: "obj \<Rightarrow> py_error + obj" where
  "summary_of s = as_dict (get_or s ''runner-message/summary'' (PDict []))"

text \<open>\<^verbatim>\<open>Counter(values)\<close>: the distinct values in order of first occurrence, with their counts.\<close>

definition counter :: "'a list \<Rightarrow> ('a \<times> nat) list" where
  "counter xs = map (\<lambda>x. (x, count_list xs x)) (first_seen xs)"

definition most_common_first :: "('a \<times> nat) list \<Rightarrow> 'a \<times> nat" where
  "most_common_first c = first_max snd (hd c) (tl c)"

definition most_common :: "('a \<times> nat) list \<Rightarrow> ('a \<times> nat) list" where
  "most_common c = sort_key (\<lambda>(_, n). - int n) c"

definition field_values :: "obj list \<Rightarrow> string \<Rightarrow> string list" where
  "field_values summaries field = map py_str (filter (\<lambda>v. v \<noteq> PNone) (map (\<lambda>s. py_get s field) summaries))"

definition field_agreement :: "obj list \<Rightarrow> int \<Rightarrow> string \<Rightarrow> agreement" where
  "field_agreement summaries threshold field =
     (let c = counter (field_values summaries field); (winning, n) = most_common_first c in
      \<lparr>ag_field = field, ag_status = (if threshold \<le> int n then ''confirmed'' else ''diverged''),
       ag_winning = winning, ag_count = n, ag_total = length summaries, ag_threshold = threshold,
       ag_values = most_common c\<rparr>)"

definition default_threshold :: "nat \<Rightarrow> int" where
  "default_threshold n = max 2 (int n - 1)"

definition threshold_or_default :: "int option \<Rightarrow> nat \<Rightarrow> int" where
  "threshold_or_default threshold n = (case threshold of None \<Rightarrow> default_threshold n | Some t \<Rightarrow> t)"

definition all_fields :: "obj list \<Rightarrow> string list" where
  "all_fields summaries = sort (remdups (concat (map (map fst) summaries)))"

definition agreement_of :: "obj list \<Rightarrow> int \<Rightarrow> agreement list" where
  "agreement_of summaries threshold =
     map (field_agreement summaries threshold)
       (filter (\<lambda>field. field_values summaries field \<noteq> []) (all_fields summaries))"

definition compute_agreement :: "obj list \<Rightarrow> int option \<Rightarrow> py_error + agreement list" where
  "compute_agreement submissions threshold =
     (if submissions = [] then Inr []
      else bindE (mapE summary_of submissions) (\<lambda>summaries.
        Inr (agreement_of summaries (threshold_or_default threshold (length submissions)))))"

section \<open>Verdict\<close>

definition is_zero :: "pv \<Rightarrow> bool" where
  "is_zero v \<longleftrightarrow> v = PInt 0 \<or> v = PBool False"

definition compute_verdict :: "agreement list \<Rightarrow> pv list \<Rightarrow> string" where
  "compute_verdict agreement exit_codes =
     (if agreement = [] then ''inconclusive''
      else if list_all (\<lambda>a. ag_status a = ''diverged'') agreement then ''diverged''
      else if list_ex (\<lambda>a. ag_status a = ''diverged'') agreement then ''diverged''
      else if list_ex (\<lambda>ec. \<not> is_zero ec) exit_codes then ''confirmed-with-failures''
      else ''confirmed'')"

definition agreed_hash :: "agreement list \<Rightarrow> string option" where
  "agreed_hash agreement =
     map_option ag_winning
       (List.find (\<lambda>a. ag_field a = ''overview/hash'' \<and> ag_status a = ''confirmed'') agreement)"

section \<open>Certificate\<close>

definition participant :: "string option \<Rightarrow> obj \<Rightarrow> py_error + obj" where
  "participant ah s =
     bindE (summary_of s) (\<lambda>summary.
     Inr [(''runner-id'', get_or s ''runner-message/runner-id'' (PStr ''?'')),
          (''bundle/hash'', py_get summary ''bundle/hash''),
          (''overview/hash'', py_get summary ''overview/hash''),
          (''status'', get_or s ''runner-message/status'' (PStr ''?'')),
          (''agree'', PBool (ah \<noteq> None \<and> ah \<noteq> Some [] \<and> py_get summary ''overview/hash'' = PStr (the ah)))])"

text \<open>
  \<^verbatim>\<open>participants.sort(key=...)\<close> compares pairs: the second components are compared only where the
  first are equal.  Values of one kind, strings or integers, are comparable; equal values are always.
\<close>

definition comparable :: "pv \<Rightarrow> pv \<Rightarrow> bool" where
  "comparable v w \<longleftrightarrow> v = w \<or> (is_str v \<and> is_str w) \<or> (is_int v \<and> is_int w)"

definition participant_id :: "obj \<Rightarrow> pv" where
  "participant_id p = get_or p ''runner-id'' (PStr [])"

definition participant_hash :: "obj \<Rightarrow> pv" where
  "participant_hash p = (let h = get_or p ''bundle/hash'' (PStr []) in if truthy h then h else PStr [])"

definition sortable :: "obj list \<Rightarrow> bool" where
  "sortable ps \<longleftrightarrow> list_all (\<lambda>p. list_all (\<lambda>q. comparable (participant_id p) (participant_id q) \<and>
     (participant_id p = participant_id q \<longrightarrow> comparable (participant_hash p) (participant_hash q))) ps) ps"

definition sort_participants :: "obj list \<Rightarrow> py_error + obj list" where
  "sort_participants ps =
     (if \<not> sortable ps then Inl TypeError
      else Inr (sort_key (\<lambda>p. str_of (participant_id p))
        (sort_key (\<lambda>p. int_of (participant_id p))
          (sort_key (\<lambda>p. str_of (participant_hash p))
            (sort_key (\<lambda>p. int_of (participant_hash p)) ps)))))"

definition certificate_body ::
    "string \<Rightarrow> string \<Rightarrow> string \<Rightarrow> string option \<Rightarrow> obj list \<Rightarrow> int \<Rightarrow> obj" where
  "certificate_body now round_id verdict ah participants threshold =
     [(''consensus-certificate/schema-version'', PStr ''consensus-certificate.v1''),
      (''consensus-certificate/round-id'', PStr round_id),
      (''consensus-certificate/status'', PStr verdict),
      (''consensus-certificate/agreed-hash'', case ah of None \<Rightarrow> PNone | Some h \<Rightarrow> PStr h),
      (''consensus-certificate/agreed-hash-type'', PStr ''overview/hash''),
      (''consensus-certificate/participants'', PInt (int (length participants))),
      (''consensus-certificate/threshold'', PInt threshold),
      (''consensus-certificate/agreement-count'',
         PInt (int (length (filter (\<lambda>p. truthy (py_get p ''agree'')) participants)))),
      (''consensus-certificate/timestamp'', PStr now),
      (''consensus-certificate/participant-list'', PList (map PDict participants)),
      (''consensus-certificate/hash'', PNone),
      (''consensus-certificate/signature'', PNone)]"

definition build_certificate ::
    "crypto \<Rightarrow> string \<Rightarrow> string \<Rightarrow> string \<Rightarrow> agreement list \<Rightarrow> obj list \<Rightarrow> int \<Rightarrow> py_error + obj" where
  "build_certificate C now round_id verdict agreement submissions threshold =
     (let ah = agreed_hash agreement in
      bindE (mapE (participant ah) submissions) (\<lambda>ps.
      bindE (sort_participants ps) (\<lambda>participants.
      let cert = certificate_body now round_id verdict ah participants threshold in
      Inr (dset ''consensus-certificate/hash'' (PStr (self_hash C cert certificate_exclude)) cert))))"

section \<open>Disagreement report\<close>

definition agreement_obj :: "agreement \<Rightarrow> obj" where
  "agreement_obj a =
     [(''field'', PStr (ag_field a)), (''status'', PStr (ag_status a)), (''winning-value'', PStr (ag_winning a)),
      (''agreement-count'', PInt (int (ag_count a))), (''total-runs'', PInt (int (ag_total a))),
      (''threshold'', PInt (ag_threshold a)),
      (''values'', PDict (map (\<lambda>(v, n). (v, PInt (int n))) (ag_values a)))]"

definition diverged_fields :: "agreement list \<Rightarrow> agreement list" where
  "diverged_fields = filter (\<lambda>a. ag_status a = ''diverged'')"

definition runner_divergence :: "agreement list \<Rightarrow> obj \<Rightarrow> py_error + obj" where
  "runner_divergence diverged s =
     bindE (if diverged = [] then Inr [] else summary_of s) (\<lambda>summary.
     Inr [(''runner-id'', get_or s ''runner-message/runner-id'' (PStr ''?'')),
          (''status'', get_or s ''runner-message/status'' (PStr ''?'')),
          (''divergent-fields'', PList (map (PStr \<circ> ag_field)
             (filter (\<lambda>a. py_str (py_get summary (ag_field a)) \<noteq> ag_winning a) diverged)))])"

definition disagreement_body :: "string \<Rightarrow> string \<Rightarrow> string \<Rightarrow> agreement list \<Rightarrow> obj list \<Rightarrow> obj" where
  "disagreement_body now round_id verdict agreement runners =
     (let diverged = diverged_fields agreement in
      [(''disagreement/schema-version'', PStr ''disagreement-report.v1''),
       (''disagreement/round-id'', PStr round_id),
       (''disagreement/status'', PStr verdict),
       (''disagreement/timestamp'', PStr now),
       (''disagreement/summary'', PDict
          [(''fields-compared'', PInt (int (length agreement))),
           (''fields-agreed'', PInt (int (length agreement) - int (length diverged))),
           (''fields-diverged'', PInt (int (length diverged)))]),
       (''disagreement/fields'', PList (map (PDict \<circ> agreement_obj) diverged)),
       (''disagreement/runners'', PList (map PDict runners)),
       (''disagreement/hash'', PNone)])"

definition build_disagreement ::
    "crypto \<Rightarrow> string \<Rightarrow> string \<Rightarrow> string \<Rightarrow> agreement list \<Rightarrow> obj list \<Rightarrow> py_error + obj" where
  "build_disagreement C now round_id verdict agreement submissions =
     bindE (mapE (runner_divergence (diverged_fields agreement)) submissions) (\<lambda>runners.
     let report = disagreement_body now round_id verdict agreement runners in
     Inr (dset ''disagreement/hash'' (PStr (self_hash C report [''disagreement/hash''])) report))"

section \<open>Evidence node\<close>

definition evidence_node :: "string \<Rightarrow> string \<Rightarrow> string \<Rightarrow> obj" where
  "evidence_node now cert_hash verdict =
     [(''node-hash'', PStr cert_hash), (''schema-version'', PInt 1), (''node-id'', PStr cert_hash),
      (''timestamp'', PStr now),
      (''execution'', PDict [(''execution-id'', PStr ''execution/consensus''),
                            (''execution-kind'', PStr ''consensus-verification''),
                            (''runner'', PStr ''coordinator/local-filesystem'')]),
      (''result'', PDict [(''status'', PStr (if verdict = ''confirmed'' then ''pass'' else ''fail''))]),
      (''evidence'', PDict [(''inputs-hash'', PStr cert_hash), (''outputs-hash'', PStr cert_hash)]),
      (''parent-hashes'', PList [])]"

section \<open>The round\<close>

text \<open>
  Where the submissions come from: a mailbox, run directories, or fresh runs, each with its exit code,
  elapsed time and the latest directory of the output base.
\<close>

record fresh_run =
  fr_exit_code :: int
  fr_elapsed_ms :: int
  fr_timestamp :: string
  fr_latest :: "run_dir_files option"

datatype round_source = FromMailbox mailbox string | FromDirs "run_dir_files list" | FreshRuns "fresh_run list"

definition fresh_submission :: "string \<Rightarrow> nat \<Rightarrow> fresh_run \<Rightarrow> obj" where
  "fresh_submission round_id i f =
     [(''runner-message/schema-version'', PStr ''runner-message.v1''),
      (''runner-message/type'', PStr ''result-submission''),
      (''runner-message/timestamp'', PStr (fr_timestamp f)),
      (''runner-message/runner-id'', PStr (''runner/local-forensic-'' @ nat_str i)),
      (''runner-message/run-id'', PStr (case fr_latest f of
         Some r \<Rightarrow> run_name r | None \<Rightarrow> round_id @ ''-runner-'' @ nat_str i)),
      (''runner-message/status'', PStr (if fr_exit_code f = 0 then ''pass'' else ''fail'')),
      (''runner-message/exit-code'', PInt (fr_exit_code f)),
      (''runner-message/elapsed-ms'', PInt (fr_elapsed_ms f)),
      (''runner-message/bundle-path'', case fr_latest f of Some r \<Rightarrow> PStr (run_path r) | None \<Rightarrow> PNone)]
     @ (case fr_latest f of
          Some r \<Rightarrow> if bundle_of r \<noteq> []
                   then [(''runner-message/summary'', PDict (build_summary (bundle_of r)))] else []
        | None \<Rightarrow> [])"

record clock =
  t_collect :: string
  t_started :: string
  t_completed :: string
  t_certificate :: string
  t_disagreement :: string
  t_node :: string
  t_writeback :: string

definition collect :: "clock \<Rightarrow> string \<Rightarrow> round_source \<Rightarrow> py_error + obj list" where
  "collect T round_id source =
     (case source of
        FromMailbox mb rrh \<Rightarrow> bindE (load_result_submissions mb rrh) (\<lambda>(subs, _). Inr subs)
      | FromDirs ds \<Rightarrow> Inr (collect_submissions (t_collect T) ds)
      | FreshRuns fs \<Rightarrow> Inr (map (\<lambda>(i, f). fresh_submission round_id i f) (enumerate 0 fs)))"

definition round_manifest ::
    "clock \<Rightarrow> string \<Rightarrow> string \<Rightarrow> int \<Rightarrow> agreement list \<Rightarrow> obj list \<Rightarrow> obj" where
  "round_manifest T round_id verdict threshold agreement submissions =
     [(''consensus/schema-version'', PStr ''consensus-round.v1''),
      (''consensus/round-id'', PStr round_id),
      (''consensus/status'', PStr verdict),
      (''consensus/type'', PStr ''local-repeated-execution''),
      (''consensus/coordinator-id'', PStr ''coordinator/local-filesystem''),
      (''consensus/started-at'', PStr (t_started T)),
      (''consensus/completed-at'', PStr (t_completed T)),
      (''consensus/runner-count'', PInt (int (length submissions))),
      (''consensus/threshold'', PInt threshold),
      (''consensus/participants'', PList (map (\<lambda>s. PDict
         [(''runner-id'', get_or s ''runner-message/runner-id'' (PStr ''?'')),
          (''status'', get_or s ''runner-message/status'' (PStr ''?''))]) submissions)),
      (''consensus/submission-count'', PInt (int (length submissions))),
      (''consensus/fields-compared'', PInt (int (length agreement))),
      (''consensus/fields-agreed'',
         PInt (int (length (filter (\<lambda>a. ag_status a = ''confirmed'') agreement)))),
      (''consensus/fields-diverged'', PInt (int (length (diverged_fields agreement)))),
      (''consensus/volatile-fields-excluded'', PList (map PStr volatile_fields_excluded)),
      (''consensus/agreement'', PList (map (PDict \<circ> agreement_obj) agreement)),
      (''consensus/verdict'', PStr verdict)]"

record round_output =
  out_certificate :: obj
  out_disagreement :: "obj option"
  out_node :: obj
  out_mailbox :: "mailbox option"
  out_manifest :: obj

definition writeback ::
    "crypto \<Rightarrow> clock \<Rightarrow> string \<Rightarrow> string \<Rightarrow> agreement list \<Rightarrow> obj list \<Rightarrow> obj \<Rightarrow> obj \<Rightarrow> round_source
       \<Rightarrow> py_error + mailbox option" where
  "writeback C T round_id verdict agreement submissions cert node source =
     (case source of
        FromMailbox mb rrh \<Rightarrow>
          bindE (if verdict = ''diverged''
                 then build_disagreement C (t_writeback T) round_id verdict agreement submissions
                 else Inr []) (\<lambda>dis.
          Inr (Some (write_consensus_outputs C mb rrh cert dis node)))
      | _ \<Rightarrow> Inr None)"

definition run_consensus ::
    "crypto \<Rightarrow> clock \<Rightarrow> string \<Rightarrow> int option \<Rightarrow> round_source \<Rightarrow> py_error + round_output" where
  "run_consensus C T round_id threshold0 source =
     bindE (collect T round_id source) (\<lambda>submissions.
     let threshold = threshold_or_default threshold0 (length submissions) in
     bindE (compute_agreement submissions (Some threshold)) (\<lambda>agreement.
     let verdict = compute_verdict agreement
           (map (\<lambda>s. get_or s ''runner-message/exit-code'' (PInt (- 1))) submissions) in
     bindE (build_certificate C (t_certificate T) round_id verdict agreement submissions threshold) (\<lambda>cert.
     bindE (if verdict = ''diverged''
            then bindE (build_disagreement C (t_disagreement T) round_id verdict agreement submissions) (Inr \<circ> Some)
            else Inr None) (\<lambda>dis.
     let node = evidence_node (t_node T)
           (case agreed_hash agreement of Some h \<Rightarrow> if h = [] then ''none'' else h | None \<Rightarrow> ''none'') verdict in
     bindE (writeback C T round_id verdict agreement submissions cert node source) (\<lambda>mb.
     Inr \<lparr>out_certificate = cert, out_disagreement = dis, out_node = node, out_mailbox = mb,
          out_manifest = round_manifest T round_id verdict threshold agreement submissions\<rparr>)))))"

definition consensus_exit_code :: "obj \<Rightarrow> int" where
  "consensus_exit_code manifest =
     (if get_or manifest ''consensus/status'' (PStr ''failed'') \<in> {PStr ''confirmed'', PStr ''confirmed-with-failures''}
      then 0 else 1)"

end
