(* ===== verification/Consensus_Theorems.thy ===== *)
theory Consensus_Theorems
  imports Consensus Mailbox_Validate "HOL-Library.Multiset"
begin

text \<open>
  Correctness of the agreement, the verdict and the artifacts of a consensus round.
\<close>

section \<open>Counting\<close>

lemma count_list_mset: "count_list xs x = count (mset xs) x"
  by (induction xs) auto

lemma most_common_first_counter:
  assumes "xs \<noteq> []" and "most_common_first (counter xs) = (w, n)"
  shows "w \<in> set xs" and "n = count_list xs w" and "count_list xs v \<le> n"
proof -
  have set: "set (counter xs) = (\<lambda>x. (x, count_list xs x)) ` set xs" by (simp add: counter_def)
  then have ne: "counter xs \<noteq> []" using assms(1) by (metis image_is_empty set_empty)
  have "(w, n) \<in> set (counter xs)"
    using first_max_of [OF ne, of snd] assms(2) by (simp add: most_common_first_def)
  then show "w \<in> set xs" "n = count_list xs w" unfolding set by auto
  show "count_list xs v \<le> n"
  proof (cases "v \<in> set xs")
    case True
    then have "(v, count_list xs v) \<in> insert (hd (counter xs)) (set (tl (counter xs)))"
      using ne set by (cases "counter xs") auto
    from first_max_ge [OF this, of snd] assms(2) show ?thesis by (simp add: most_common_first_def)
  next
    case False
    then show ?thesis by (simp add: count_list_0_iff)
  qed
qed

definition votes :: "obj list \<Rightarrow> string \<Rightarrow> string \<Rightarrow> nat" where
  "votes ss field v = length (filter (\<lambda>s. py_get s field \<noteq> PNone \<and> py_str (py_get s field) = v) ss)"

lemma votes_count: "count_list (field_values ss field) v = votes ss field v"
  by (induction ss) (simp_all add: field_values_def votes_def)

lemma field_agreement_facts:
  assumes "field_values ss field \<noteq> []"
  shows "ag_count (field_agreement ss t field) = votes ss field (ag_winning (field_agreement ss t field))"
    and "votes ss field v \<le> ag_count (field_agreement ss t field)"
    and "ag_status (field_agreement ss t field) =
      (if t \<le> int (ag_count (field_agreement ss t field)) then ''confirmed'' else ''diverged'')"
    and "0 < ag_count (field_agreement ss t field)"
proof -
  obtain w n where wn: "most_common_first (counter (field_values ss field)) = (w, n)" by fastforce
  note m = most_common_first_counter [OF assms wn, unfolded votes_count]
  have sel: "ag_winning (field_agreement ss t field) = w" "ag_count (field_agreement ss t field) = n"
    "ag_status (field_agreement ss t field) = (if t \<le> int n then ''confirmed'' else ''diverged'')"
    by (simp_all add: field_agreement_def wn)
  show "ag_count (field_agreement ss t field) = votes ss field (ag_winning (field_agreement ss t field))"
    "votes ss field v \<le> ag_count (field_agreement ss t field)"
    "ag_status (field_agreement ss t field) =
      (if t \<le> int (ag_count (field_agreement ss t field)) then ''confirmed'' else ''diverged'')"
    using m by (simp_all add: sel)
  have "votes ss field w \<noteq> 0" using m(1) by (simp add: count_list_0_iff flip: votes_count)
  then show "0 < ag_count (field_agreement ss t field)" using m(2) by (simp add: sel)
qed

lemma field_agreement_field [simp]: "ag_field (field_agreement ss t field) = field"
  by (simp add: field_agreement_def split_def Let_def)

section \<open>Order of the submissions\<close>

lemma votes_size: "votes ss field v =
    size (filter_mset (\<lambda>s. py_get s field \<noteq> PNone \<and> py_str (py_get s field) = v) (mset ss))"
  by (simp add: votes_def flip: mset_filter)

lemma votes_mset: "mset ss = mset ss' \<Longrightarrow> votes ss field v = votes ss' field v"
  by (simp only: votes_size)

lemma field_values_mset: "mset ss = mset ss' \<Longrightarrow> mset (field_values ss field) = mset (field_values ss' field)"
  by (simp add: field_values_def)

lemma all_fields_mset: "mset ss = mset ss' \<Longrightarrow> all_fields ss = all_fields ss'"
proof -
  assume "mset ss = mset ss'"
  then have "set ss = set ss'" by (rule mset_eq_setD)
  then show ?thesis unfolding all_fields_def
    by (intro sorted_distinct_set_unique) auto
qed

lemma two_majorities:
  assumes "length ss < 2 * n" and "n \<le> votes ss field v" and "n \<le> votes ss field w"
  shows "v = w"
proof (rule ccontr)
  assume "v \<noteq> w"
  have "votes ss field v + votes ss field w \<le> length ss"
    using \<open>v \<noteq> w\<close> by (induction ss) (auto simp: votes_def)
  with assms show False by simp
qed

lemma field_agreement_mset:
  assumes "mset ss = mset ss'" and "field_values ss field \<noteq> []"
  shows "ag_count (field_agreement ss t field) = ag_count (field_agreement ss' t field)"
    and "ag_status (field_agreement ss t field) = ag_status (field_agreement ss' t field)"
    and "int (length ss) < 2 * t \<Longrightarrow> ag_status (field_agreement ss t field) = ''confirmed'' \<Longrightarrow>
      ag_winning (field_agreement ss t field) = ag_winning (field_agreement ss' t field)"
proof -
  have ne': "field_values ss' field \<noteq> []"
    using field_values_mset [OF assms(1), of field] assms(2) by auto
  note f = field_agreement_facts [OF assms(2), where t = t] field_agreement_facts [OF ne', where t = t]
  note vm = votes_mset [OF assms(1)]
  show count: "ag_count (field_agreement ss t field) = ag_count (field_agreement ss' t field)"
    using f(1) f(2) f(5) f(6) vm by (metis le_antisym)
  show "ag_status (field_agreement ss t field) = ag_status (field_agreement ss' t field)"
    using f(3,7) count by simp
  assume maj: "int (length ss) < 2 * t" and "ag_status (field_agreement ss t field) = ''confirmed''"
  then have "t \<le> int (ag_count (field_agreement ss t field))" using f(3) by (auto split: if_splits)
  with maj have len: "length ss < 2 * ag_count (field_agreement ss t field)" by simp
  show "ag_winning (field_agreement ss t field) = ag_winning (field_agreement ss' t field)"
    by (rule two_majorities [OF len, where field = field]) (use f(1,5) count vm in simp_all)
qed

lemma agreement_of_mset:
  assumes "mset ss = mset ss'"
  shows "list_all2 (\<lambda>a b. ag_field a = ag_field b \<and> ag_status a = ag_status b \<and>
      (int (length ss) < 2 * t \<longrightarrow> ag_status a = ''confirmed'' \<longrightarrow> ag_winning a = ag_winning b))
    (agreement_of ss t) (agreement_of ss' t)"
proof -
  have ne: "field_values ss field = [] \<longleftrightarrow> field_values ss' field = []" for field
    using field_values_mset [OF assms, of field] by auto
  have "list_all2 (\<lambda>a b. ag_field a = ag_field b \<and> ag_status a = ag_status b \<and>
      (int (length ss) < 2 * t \<longrightarrow> ag_status a = ''confirmed'' \<longrightarrow> ag_winning a = ag_winning b))
    (map (field_agreement ss t) (filter (\<lambda>f. field_values ss f \<noteq> []) fs))
    (map (field_agreement ss' t) (filter (\<lambda>f. field_values ss f \<noteq> []) fs))" for fs
    using field_agreement_mset [OF assms] by (induction fs) auto
  then show ?thesis unfolding agreement_of_def all_fields_mset [OF assms] using ne by simp
qed

lemma verdict_statuses:
  assumes "list_all2 (\<lambda>a b. ag_status a = ag_status b) ag ag'"
    and "list_ex (\<lambda>ec. \<not> is_zero ec) ecs \<longleftrightarrow> list_ex (\<lambda>ec. \<not> is_zero ec) ecs'"
  shows "compute_verdict ag ecs = compute_verdict ag' ecs'"
proof -
  have "list_all P (map ag_status ag) \<longleftrightarrow> list_all P (map ag_status ag')" for P
    using assms(1) by (induction rule: list_all2_induct) auto
  from this [of "\<lambda>s. s = ''diverged''"] this [of "\<lambda>s. s \<noteq> ''diverged''"]
  have "list_all (\<lambda>a. ag_status a = ''diverged'') ag = list_all (\<lambda>a. ag_status a = ''diverged'') ag'"
    "list_ex (\<lambda>a. ag_status a = ''diverged'') ag = list_ex (\<lambda>a. ag_status a = ''diverged'') ag'"
    by (simp_all add: list.pred_map comp_def list_all_iff list_ex_iff) blast
  moreover have "ag = [] \<longleftrightarrow> ag' = []" using assms(1) by auto
  ultimately show ?thesis using assms(2) by (simp add: compute_verdict_def)
qed

lemma agreed_hash_related:
  assumes "list_all2 (\<lambda>a b. ag_field a = ag_field b \<and> ag_status a = ag_status b \<and>
      (ag_status a = ''confirmed'' \<longrightarrow> ag_winning a = ag_winning b)) ag ag'"
  shows "agreed_hash ag = agreed_hash ag'"
  using assms by (induction rule: list_all2_induct) (auto simp: agreed_hash_def)

lemma mapE_perm:
  assumes "mapE f xs = Inr ys" and "mset xs = mset xs'"
  obtains ys' where "mapE f xs' = Inr ys'" "mset ys' = mset ys"
proof -
  have ok: "f x = Inr (projr (f x))" if "x \<in> set xs" for x
    using assms(1) that by (auto simp: mapE_Inr_iff list_all2_conv_all_nth in_set_conv_nth)
  have "mapE f zs = Inr (map (\<lambda>x. projr (f x)) zs)" if "set zs \<subseteq> set xs" for zs
    using that
  proof (induction zs)
    case (Cons z zs)
    then have "f z = Inr (projr (f z))" using ok by simp
    then obtain y where "f z = Inr y" by blast
    with Cons show ?case by simp
  qed simp
  moreover have "set xs' = set xs" using assms(2) mset_eq_setD by metis
  ultimately have "mapE f xs' = Inr (map (\<lambda>x. projr (f x)) xs')" "ys = map (\<lambda>x. projr (f x)) xs"
    using assms(1) by auto
  then show ?thesis using assms(2) by (intro that) auto
qed

definition exit_codes :: "obj list \<Rightarrow> pv list" where
  "exit_codes subs = map (\<lambda>s. get_or s ''runner-message/exit-code'' (PInt (- 1))) subs"

lemma agreement_perm:
  assumes "compute_agreement subs (Some t) = Inr ag" and "mset subs' = mset subs"
    and "int (length subs) < 2 * t"
  obtains ag' where "compute_agreement subs' (Some t) = Inr ag'" "agreed_hash ag' = agreed_hash ag"
    "compute_verdict ag' (exit_codes subs') = compute_verdict ag (exit_codes subs)"
proof (cases "subs = []")
  case True
  with assms show ?thesis by (intro that [of ag]) auto
next
  case False
  with assms(2) have ne': "subs' \<noteq> []" by auto
  from assms(1) False obtain ss where ss: "mapE summary_of subs = Inr ss" and ag: "ag = agreement_of ss t"
    by (auto simp: compute_agreement_def bindE_Inr_iff threshold_or_default_def)
  obtain ss' where ss': "mapE summary_of subs' = Inr ss'" "mset ss' = mset ss"
    by (rule mapE_perm [OF ss assms(2) [symmetric]])
  have len: "int (length ss) < 2 * t" using assms(3) mapE_length [OF ss] by simp
  note rel = agreement_of_mset [OF ss'(2) [symmetric], of t, folded ag] 
  have "agreed_hash ag = agreed_hash (agreement_of ss' t)"
    by (rule agreed_hash_related) (use rel len in \<open>auto elim!: list_all2_mono\<close>)
  moreover have "compute_verdict ag (exit_codes subs) = compute_verdict (agreement_of ss' t) (exit_codes subs')"
  proof (rule verdict_statuses)
    show "list_all2 (\<lambda>a b. ag_status a = ag_status b) ag (agreement_of ss' t)"
      using rel by (auto elim!: list_all2_mono)
    have "set (exit_codes subs) = set (exit_codes subs')"
      using mset_eq_setD [OF assms(2)] by (simp add: exit_codes_def)
    then show "list_ex (\<lambda>ec. \<not> is_zero ec) (exit_codes subs) = list_ex (\<lambda>ec. \<not> is_zero ec) (exit_codes subs')"
      by (simp add: list_ex_iff)
  qed
  moreover have "compute_agreement subs' (Some t) = Inr (agreement_of ss' t)"
    using ne' ss'(1) by (simp add: compute_agreement_def threshold_or_default_def)
  ultimately show ?thesis by (intro that) auto
qed

lemma default_threshold_majority: "int n < 2 * default_threshold n"
  unfolding default_threshold_def max_def by (cases "2 \<le> int n - 1") simp_all

section \<open>Verdicts\<close>

lemma agreement_statuses:
  "a \<in> set (agreement_of ss t) \<Longrightarrow> ag_status a = ''confirmed'' \<or> ag_status a = ''diverged''"
  by (auto simp: agreement_of_def field_agreement_facts(3) split: if_split_asm)

lemma verdict_confirmed:
  assumes "\<forall>a \<in> set ag. ag_status a = ''confirmed'' \<or> ag_status a = ''diverged''"
  shows "compute_verdict ag ecs = ''confirmed'' \<longleftrightarrow>
    ag \<noteq> [] \<and> list_all (\<lambda>a. ag_status a = ''confirmed'') ag \<and> list_all is_zero ecs"
proof -
  have "''diverged'' \<noteq> ''confirmed''" by simp
  then have "ag_status a = ''diverged'' \<longleftrightarrow> ag_status a \<noteq> ''confirmed''" if "a \<in> set ag" for a
    using assms that by metis
  then have "list_ex (\<lambda>a. ag_status a = ''diverged'') ag \<longleftrightarrow> \<not> list_all (\<lambda>a. ag_status a = ''confirmed'') ag"
    unfolding list_ex_iff list_all_iff by blast
  moreover have "ag \<noteq> [] \<Longrightarrow> list_all (\<lambda>a. ag_status a = ''diverged'') ag \<Longrightarrow>
      list_ex (\<lambda>a. ag_status a = ''diverged'') ag"
    by (cases ag) auto
  moreover have "list_ex (\<lambda>ec. \<not> is_zero ec) ecs \<longleftrightarrow> \<not> list_all is_zero ecs"
    by (simp add: list_ex_iff list_all_iff)
  ultimately show ?thesis by (auto simp: compute_verdict_def)
qed

section \<open>Certificates\<close>

lemma dict_wf_certificate_body: "dict_wf (certificate_body now rid v ah ps t)"
  by (simp add: certificate_body_def dict_wf_def)

lemma build_certificate_shape:
  assumes "build_certificate C now rid verdict ag subs t = Inr cert"
  obtains ps where "length ps = length subs"
    "cert = dset ''consensus-certificate/hash''
       (PStr (self_hash C (certificate_body now rid verdict (agreed_hash ag) ps t) certificate_exclude))
       (certificate_body now rid verdict (agreed_hash ag) ps t)"
proof -
  from assms obtain ps qs where "mapE (participant (agreed_hash ag)) subs = Inr ps"
    "sort_participants ps = Inr qs"
    "cert = dset ''consensus-certificate/hash''
       (PStr (self_hash C (certificate_body now rid verdict (agreed_hash ag) qs t) certificate_exclude))
       (certificate_body now rid verdict (agreed_hash ag) qs t)"
    by (auto simp: build_certificate_def Let_def bindE_Inr_iff)
  moreover from this have "length qs = length subs"
    using mapE_length by (auto simp: sort_participants_def split: if_splits)
  ultimately show ?thesis by (intro that) auto
qed

lemma certificate_hash:
  assumes "build_certificate C now rid verdict ag subs t = Inr cert"
  shows "dict_wf cert" and "py_get cert ''consensus-certificate/hash'' = PStr (self_hash C cert certificate_exclude)"
proof -
  from assms obtain ps where cert: "cert = dset ''consensus-certificate/hash''
       (PStr (self_hash C (certificate_body now rid verdict (agreed_hash ag) ps t) certificate_exclude))
       (certificate_body now rid verdict (agreed_hash ag) ps t)"
    by (rule build_certificate_shape)
  show "dict_wf cert" unfolding cert by (intro dict_wf_dset dict_wf_certificate_body)
  have "''consensus-certificate/hash'' \<in> set certificate_exclude" by (simp add: certificate_exclude_def)
  then show "py_get cert ''consensus-certificate/hash'' = PStr (self_hash C cert certificate_exclude)"
    unfolding cert by (simp add: self_hash_dset_excluded)
qed

lemma write_object_elsewhere:
  "hd p \<noteq> ''objects'' \<Longrightarrow> load_json (fst (write_object C ex mb x)) p = load_json mb p"
  by (auto simp: write_object_def Let_def object_path_def object_dir_def)

lemma writeback_certificate:
  assumes "cert \<noteq> []"
  shows "load_json (write_consensus_outputs C mb rrh cert dis node)
    (run_dir rrh @ [''consensus'', ''consensus-certificate.json'']) = Some (canon (PDict cert))"
proof -
  let ?p = "run_dir rrh @ [''consensus'', ''consensus-certificate.json'']"
  have "load_json (foldl (\<lambda>m (name, obj0, ex). fst (write_object C ex m obj0)) m os) ?p = load_json m ?p" for m and os :: "(string \<times> obj \<times> string list) list"
    by (induction os arbitrary: m) (auto simp: write_object_elsewhere run_dir_def)
  note later = this
  show ?thesis
    using assms unfolding write_consensus_outputs_def Let_def later by simp
qed

lemma round_output_certificate:
  assumes "run_consensus C T rid t0 source = Inr out"
  obtains ag subs t where
    "build_certificate C (t_certificate T) rid
       (compute_verdict ag (exit_codes subs)) ag subs t = Inr (out_certificate out)"
    "collect T rid source = Inr subs" "t = threshold_or_default t0 (length subs)"
    "compute_agreement subs (Some t) = Inr ag"
    "out_manifest out = round_manifest T rid (compute_verdict ag (exit_codes subs)) t ag subs"
    "\<And>mb rrh. source = FromMailbox mb rrh \<Longrightarrow>
       \<exists>dis. out_mailbox out = Some (write_consensus_outputs C mb rrh (out_certificate out) dis (out_node out))"
proof -
  from assms [unfolded run_consensus_def Let_def bindE_Inr_iff, folded exit_codes_def]
  obtain subs ag cert dis mb where run: "collect T rid source = Inr subs"
    "compute_agreement subs (Some (threshold_or_default t0 (length subs))) = Inr ag"
    "build_certificate C (t_certificate T) rid (compute_verdict ag (exit_codes subs)) ag subs
       (threshold_or_default t0 (length subs)) = Inr cert"
    "writeback C T rid (compute_verdict ag (exit_codes subs)) ag subs cert (out_node out) source = Inr mb"
    "out_certificate out = cert" "out_mailbox out = mb"
    "out_manifest out = round_manifest T rid (compute_verdict ag (exit_codes subs))
       (threshold_or_default t0 (length subs)) ag subs"
    by (elim exE conjE) (auto simp only: sum.inject round_output.select_convs)
  have "\<exists>dis. out_mailbox out = Some (write_consensus_outputs C mb rrh (out_certificate out) dis (out_node out))"
    if "source = FromMailbox mb rrh" for mb rrh
    using run(4-6) that by (auto simp: writeback_def bindE_Inr_iff split: if_split_asm) metis+
  with run show ?thesis by (intro that) auto
qed

section \<open>Flat bundle roots\<close>

text \<open>
  The bundle roots the runner writes have flat keys such as \<^verbatim>\<open>bundle/hash\<close>; none of the first components
  of the compared paths is a key of its own.
\<close>

definition flat_bundle :: "obj \<Rightarrow> bool" where
  "flat_bundle d \<longleftrightarrow>
     list_all (\<lambda>k. \<not> has_key d k) [''bundle'', ''overview'', ''execution'', ''source'', ''registry'']"

lemma split_consensus_fields:
  "map (\<lambda>f. hd (split_on (CHR ''/'') f)) consensus_fields =
     [''bundle'', ''overview'', ''execution'', ''execution'', ''execution'', ''execution'', ''execution'',
      ''execution'', ''source'', ''source'']"
  "list_all (\<lambda>f. 1 < length (split_on (CHR ''/'') f)) consensus_fields"
  "split_on (CHR ''/'') ''registry/snapshot'' = [''registry'', ''snapshot'']"
  by code_simp+

lemma deep_get_missing:
  assumes "\<not> has_key d (hd (split_on (CHR ''/'') f))" and "1 < length (split_on (CHR ''/'') f)"
  shows "deep_get d f = PNone"
proof -
  from assms(2) obtain p q ps where "split_on (CHR ''/'') f = p # q # ps"
    by (metis One_nat_def length_Cons list.size(3) neq_Nil_conv not_less_iff_gr_or_eq not_less_zero)
  with assms(1) show ?thesis by (simp add: deep_get_def get_or_def has_key_map_of)
qed

lemma build_summary_flat:
  assumes "flat_bundle d"
  shows "build_summary d = []"
proof -
  have "deep_get d f = PNone" if "f \<in> set consensus_fields" for f
  proof (rule deep_get_missing)
    have "hd (split_on (CHR ''/'') f) \<in> set (map (\<lambda>f. hd (split_on (CHR ''/'') f)) consensus_fields)"
      using that by simp
    then show "\<not> has_key d (hd (split_on (CHR ''/'') f))"
      using assms unfolding split_consensus_fields flat_bundle_def by auto
    show "1 < length (split_on (CHR ''/'') f)"
      using split_consensus_fields(2) that by (simp add: list_all_iff)
  qed
  then have "foldl (\<lambda>s field. put_present field (deep_get d field) s) s0 fs = s0" if "set fs \<subseteq> set consensus_fields" for fs s0
    using that by (induction fs) (auto simp: put_present_def)
  moreover have "deep_get d ''registry/snapshot'' = PNone"
    by (rule deep_get_missing) (use assms in \<open>simp_all add: split_consensus_fields(3) flat_bundle_def\<close>)
  ultimately show ?thesis by (simp add: build_summary_def)
qed

lemma flat_submission:
  assumes "flat_bundle (bundle_of r)"
  shows "summary_of (directory_submission now i r) = Inr []"
  using build_summary_flat [OF assms]
  by (auto simp: summary_of_def directory_submission_def Let_def get_or_def)

lemma flat_agreement:
  assumes "list_all (\<lambda>r. flat_bundle (bundle_of r)) ds"
  shows "compute_agreement (collect_submissions now ds) t = Inr []"
proof -
  have "mapE summary_of (map (\<lambda>(i, r). directory_submission now i r) (enumerate n ds)) = Inr (map (\<lambda>_. []) ds)" for n
    using assms by (induction ds arbitrary: n) (auto simp: flat_submission)
  moreover have "agreement_of (map (\<lambda>_. []) ds) t' = []" for t'
  proof -
    have "concat (map (map fst) (map (\<lambda>_. []) ds :: obj list)) = []" by simp
    then have "all_fields (map (\<lambda>_. []) ds) = []"
      unfolding all_fields_def by (simp only: remdups.simps sort_key_simps)
    then show ?thesis by (simp add: agreement_of_def)
  qed
  ultimately show ?thesis by (simp add: compute_agreement_def collect_submissions_def)
qed

section \<open>Properties\<close>

text \<open>
  The agreement on a field is exact: its count is the number of submissions whose summary prints the
  winning value, no value is printed by more submissions, the count is positive, and the field is
  confirmed exactly when the count reaches the threshold.
\<close>

theorem field_agreement_correct:
  assumes "compute_agreement subs (Some t) = Inr ag" and "a \<in> set ag"
  shows "\<exists>ss. mapE summary_of subs = Inr ss \<and> 0 < ag_count a \<and>
    ag_count a = votes ss (ag_field a) (ag_winning a) \<and> (\<forall>v. votes ss (ag_field a) v \<le> ag_count a) \<and>
    ag_status a = (if t \<le> int (ag_count a) then ''confirmed'' else ''diverged'')"
  using assms field_agreement_facts
  by (auto simp: compute_agreement_def agreement_of_def bindE_Inr_iff threshold_or_default_def split: if_splits)

text \<open>
  C32: Under a majority threshold the outcome of a round does not depend on the order of the submissions:
  any permutation yields the same agreed hash and the same verdict.  (The default threshold is a
  majority for every number of submissions.)
\<close>

theorem consensus_order_independent:
  assumes "compute_agreement subs (Some t) = Inr ag" and "mset subs' = mset subs"
    and "int (length subs) < 2 * t"
  shows "\<exists>ag'. compute_agreement subs' (Some t) = Inr ag' \<and> agreed_hash ag' = agreed_hash ag \<and>
    compute_verdict ag' (exit_codes subs') = compute_verdict ag (exit_codes subs)"
  by (rule agreement_perm [OF assms]) blast

text \<open>
  The verdict of a round is \<^verbatim>\<open>confirmed\<close> exactly when some field was compared, every compared field
  is confirmed and every exit code is zero.
\<close>

theorem verdict_confirmed_iff:
  assumes "compute_agreement subs t = Inr ag"
  shows "compute_verdict ag (exit_codes subs) = ''confirmed'' \<longleftrightarrow>
    ag \<noteq> [] \<and> list_all (\<lambda>a. ag_status a = ''confirmed'') ag \<and> list_all is_zero (exit_codes subs)"
proof (rule verdict_confirmed)
  show "\<forall>a \<in> set ag. ag_status a = ''confirmed'' \<or> ag_status a = ''diverged''"
    using assms by (auto simp: compute_agreement_def bindE_Inr_iff dest!: agreement_statuses split: if_splits)
qed

text \<open>
  The certificate a round writes back into the mailbox is read from its file unchanged up to the
  order of items, and the validator's certificate-hash check on it passes.
\<close>

theorem round_certificate_verifies:
  assumes "run_consensus C T rid t (FromMailbox mb rrh) = Inr out" and "out_mailbox out = Some mb'"
  shows "load_json mb' (run_dir rrh @ [''consensus'', ''consensus-certificate.json'']) =
      Some (PDict (canon_items (out_certificate out))) \<and>
    list_all (\<lambda>c. check_status c = ''pass'') (certificate_hash_checks C (canon_items (out_certificate out)))"
proof -
  from assms(1) obtain ag subs t' dis where
    cert: "build_certificate C (t_certificate T) rid (compute_verdict ag (exit_codes subs)) ag subs t'
       = Inr (out_certificate out)"
    and "out_mailbox out = Some (write_consensus_outputs C mb rrh (out_certificate out) dis (out_node out))"
    by (rule round_output_certificate) metis
  with assms(2) have mb': "mb' = write_consensus_outputs C mb rrh (out_certificate out) dis (out_node out)" by simp
  note h = certificate_hash [OF cert]
  have "out_certificate out \<noteq> []" using h(2) by (auto simp: get_or_def)
  from writeback_certificate [OF this]
  have "load_json mb' (run_dir rrh @ [''consensus'', ''consensus-certificate.json'']) =
      Some (PDict (canon_items (out_certificate out)))"
    unfolding mb' by (simp only: canon_PDict)
  moreover have "list_all (\<lambda>c. check_status c = ''pass'') (certificate_hash_checks C (canon_items (out_certificate out)))"
    using h by (simp add: certificate_hash_checks_def Let_def py_get_canon_items self_hash_canon_items)
  ultimately show ?thesis ..
qed

text \<open>
  Flat bundle roots are not compared at all: when the run directories hold bundle roots with flat
  keys, as the runner writes them, the round is inconclusive, without an agreed hash, and the command
  exits with 1, whatever hashes the bundles carry.
\<close>

theorem flat_bundles_inconclusive:
  assumes "list_all (\<lambda>r. flat_bundle (bundle_of r)) ds" and "run_consensus C T rid t (FromDirs ds) = Inr out"
  shows "py_get (out_manifest out) ''consensus/status'' = PStr ''inconclusive'' \<and>
    py_get (out_manifest out) ''consensus/fields-compared'' = PInt 0 \<and>
    py_get (out_certificate out) ''consensus-certificate/agreed-hash'' = PNone \<and>
    consensus_exit_code (out_manifest out) = 1"
proof -
  from assms(2) obtain ag subs t' where
    cert: "build_certificate C (t_certificate T) rid (compute_verdict ag (exit_codes subs)) ag subs t'
       = Inr (out_certificate out)"
    and subs: "collect T rid (FromDirs ds) = Inr subs" and ag: "compute_agreement subs (Some t') = Inr ag"
    and man: "out_manifest out = round_manifest T rid (compute_verdict ag (exit_codes subs)) t' ag subs"
    by (rule round_output_certificate) metis
  from subs ag flat_agreement [OF assms(1)] have "ag = []" by (auto simp: collect_def)
  with cert obtain ps where cert': "out_certificate out = dset ''consensus-certificate/hash''
       (PStr (self_hash C (certificate_body (t_certificate T) rid ''inconclusive'' None ps t') certificate_exclude))
       (certificate_body (t_certificate T) rid ''inconclusive'' None ps t')"
    by (auto simp: agreed_hash_def compute_verdict_def elim!: build_certificate_shape)
  have man': "out_manifest out = round_manifest T rid ''inconclusive'' t' [] subs"
    using man \<open>ag = []\<close> by (simp add: compute_verdict_def)
  show ?thesis
    unfolding cert' man'
    by (simp add: round_manifest_def certificate_body_def get_or_def consensus_exit_code_def diverged_fields_def)
qed

text \<open>
  The certificate hash covers the clock: two certificates of the same round, verdict, agreement and
  submissions built at different times have different hashes, or exhibit a collision.
\<close>

theorem certificate_hash_depends_on_time:
  assumes "build_certificate C now rid v ag subs t = Inr cert"
    and "build_certificate C now' rid v ag subs t = Inr cert'" and "now \<noteq> now'"
  shows "py_get cert ''consensus-certificate/hash'' \<noteq> py_get cert' ''consensus-certificate/hash'' \<or> hash_collision C"
proof (rule ccontr)
  assume "\<not> ?thesis"
  then have nc: "\<not> hash_collision C" and eq: "self_hash C cert certificate_exclude = self_hash C cert' certificate_exclude"
    using certificate_hash(2) [OF assms(1)] certificate_hash(2) [OF assms(2)] by auto
  let ?k = "''consensus-certificate/timestamp''"
  have "?k \<notin> set certificate_exclude" by (simp add: certificate_exclude_def)
  then have "map_option canon (map_of cert ?k) = map_option canon (map_of cert' ?k)"
    using self_hash_eqD [OF eq nc] certificate_hash(1) [OF assms(1)] certificate_hash(1) [OF assms(2)]
    by (subst (asm) canon_dict_eq_iff) (auto simp: map_of_without_keys dest!: spec [of _ ?k])
  moreover have "map_of cert ?k = Some (PStr now)"
    by (rule build_certificate_shape [OF assms(1)]) (simp add: certificate_body_def)
  moreover have "map_of cert' ?k = Some (PStr now')"
    by (rule build_certificate_shape [OF assms(2)]) (simp add: certificate_body_def)
  ultimately show False using assms(3) by simp
qed

subsection \<open>Concrete instances\<close>

definition tiny_crypto :: crypto where
  "tiny_crypto = demo_crypto\<lparr>sha256_text := (\<lambda>t. nat_str (length t))\<rparr>"

definition demo_clock :: clock where
  "demo_clock = \<lparr>t_collect = ''t0'', t_started = ''t1'', t_completed = ''t2'', t_certificate = ''t3'',
     t_disagreement = ''t4'', t_node = ''t5'', t_writeback = ''t6''\<rparr>"

definition vote :: "string \<Rightarrow> string \<Rightarrow> obj" where
  "vote rid h = [(''runner-message/runner-id'', PStr rid), (''runner-message/exit-code'', PInt 0),
     (''runner-message/hash'', PStr rid),
     (''runner-message/summary'', PDict [(''overview/hash'', PStr h)])]"

definition demo_votes :: "obj list" where
  "demo_votes = [vote ''a'' ''x'', vote ''b'' ''y'', vote ''c'' ''x'']"

definition demo_agreement :: "agreement list" where
  "demo_agreement = [\<lparr>ag_field = ''overview/hash'', ag_status = ''confirmed'', ag_winning = ''x'', ag_count = 2,
     ag_total = 3, ag_threshold = 2, ag_values = [(''x'', 2), (''y'', 1)]\<rparr>]"

lemma demo_votes_agreement: "compute_agreement demo_votes (Some 2) = Inr demo_agreement"
  by code_simp

theorem field_agreement_correct_witness:
  "\<exists>ss. mapE summary_of demo_votes = Inr ss \<and> votes ss ''overview/hash'' ''x'' = 2 \<and>
     votes ss ''overview/hash'' ''y'' \<le> 2"
proof -
  have "hd demo_agreement \<in> set demo_agreement" by (simp add: demo_agreement_def)
  from field_agreement_correct [OF demo_votes_agreement this] show ?thesis
    by (auto simp: demo_agreement_def)
qed

theorem consensus_order_independent_witness:
  "\<exists>ag'. compute_agreement (rev demo_votes) (Some 2) = Inr ag' \<and> agreed_hash ag' = Some ''x''"
proof -
  have "agreed_hash demo_agreement = Some ''x''" by (simp add: demo_agreement_def agreed_hash_def)
  then show ?thesis
    using consensus_order_independent [OF demo_votes_agreement, of "rev demo_votes"]
    by (auto simp: demo_votes_def)
qed

theorem verdict_confirmed_iff_witness:
  "compute_verdict demo_agreement (exit_codes demo_votes) = ''confirmed''"
  using verdict_confirmed_iff [OF demo_votes_agreement]
  by (simp add: demo_agreement_def exit_codes_def demo_votes_def vote_def get_or_def is_zero_def)

definition demo_vote_box :: mailbox where
  "demo_vote_box = foldl (\<lambda>mb m. publish_message mb ''r1'' ''submissions''
       (str_of (py_get m ''runner-message/runner-id'')) m)
     \<lparr>dirs = [[]], files = []\<rparr> demo_votes"

lemma round_succeeds:
  assumes "collect T rid source = Inr subs"
    and "compute_agreement subs (Some (threshold_or_default t (length subs))) = Inr ag"
    and "compute_verdict ag (exit_codes subs) \<noteq> ''diverged''"
    and "(case mapE (participant (agreed_hash ag)) subs of Inr ps \<Rightarrow> sortable ps | Inl _ \<Rightarrow> False)"
  shows "\<exists>out. run_consensus C T rid t source = Inr out \<and>
    (out_mailbox out \<noteq> None \<or> (\<forall>mb rrh. source \<noteq> FromMailbox mb rrh))"
  using assms
  by (auto simp: run_consensus_def Let_def writeback_def build_certificate_def sort_participants_def
      exit_codes_def split: sum.splits round_source.splits)

lemma demo_round:
  obtains out where "run_consensus tiny_crypto demo_clock ''round'' None (FromMailbox demo_vote_box ''r1'') = Inr out"
    "out_mailbox out \<noteq> None"
proof -
  have "load_result_submissions demo_vote_box ''r1'' = Inr (map normalize_submission demo_votes, [])"
    "compute_agreement (map normalize_submission demo_votes) (Some 2) = Inr demo_agreement"
    "compute_verdict demo_agreement (exit_codes (map normalize_submission demo_votes)) = ''confirmed''"
    "(case mapE (participant (agreed_hash demo_agreement)) (map normalize_submission demo_votes) of
        Inr ps \<Rightarrow> sortable ps | Inl _ \<Rightarrow> False)"
    by code_simp+
  then show ?thesis
    using round_succeeds [of demo_clock "''round''" "FromMailbox demo_vote_box ''r1''"
        "map normalize_submission demo_votes" None demo_agreement tiny_crypto] that
    by (auto simp: collect_def threshold_or_default_def default_threshold_def demo_votes_def)
qed

theorem round_certificate_verifies_witness:
  "\<exists>out mb'. run_consensus tiny_crypto demo_clock ''round'' None (FromMailbox demo_vote_box ''r1'') = Inr out \<and>
     load_json mb' (run_dir ''r1'' @ [''consensus'', ''consensus-certificate.json'']) =
       Some (PDict (canon_items (out_certificate out)))"
proof -
  obtain out mb' where out:
    "run_consensus tiny_crypto demo_clock ''round'' None (FromMailbox demo_vote_box ''r1'') = Inr out"
    "out_mailbox out = Some mb'"
    by (rule demo_round) auto
  from round_certificate_verifies [OF out(1,2)] out show ?thesis by blast
qed

definition flat_run :: "string \<Rightarrow> run_dir_files" where
  "flat_run h = \<lparr>run_name = h, run_path = h, run_files = (\<lambda>n. if n = ''run-bundle-root.json''
     then Some (JsonFile (PDict [(''bundle/hash'', PStr h), (''overview/hash'', PStr h)])) else None)\<rparr>"

lemma flat_run_flat: "list_all (\<lambda>r. flat_bundle (bundle_of r)) [flat_run ''x'', flat_run ''y'']"
  by code_simp

lemma flat_round:
  "\<exists>out. run_consensus tiny_crypto demo_clock ''round'' None (FromDirs [flat_run ''x'', flat_run ''y'']) = Inr out"
proof -
  have "(case mapE (participant None) (collect_submissions ''t0'' [flat_run ''x'', flat_run ''y'']) of
      Inr ps \<Rightarrow> sortable ps | Inl _ \<Rightarrow> False)"
    by code_simp
  then show ?thesis
    using round_succeeds [of demo_clock "''round''" "FromDirs [flat_run ''x'', flat_run ''y'']"
        "collect_submissions ''t0'' [flat_run ''x'', flat_run ''y'']" None "[]" tiny_crypto]
    by (auto simp: collect_def flat_agreement [OF flat_run_flat] demo_clock_def compute_verdict_def
        agreed_hash_def)
qed

theorem flat_bundles_inconclusive_witness:
  "\<exists>out. run_consensus tiny_crypto demo_clock ''round'' None (FromDirs [flat_run ''x'', flat_run ''y'']) = Inr out \<and>
     py_get (out_manifest out) ''consensus/status'' = PStr ''inconclusive''"
  using flat_round flat_bundles_inconclusive [OF flat_run_flat] by blast

theorem certificate_hash_depends_on_time_witness:
  "\<exists>cert cert'. build_certificate demo_crypto ''t1'' ''r'' ''confirmed'' demo_agreement demo_votes 2 = Inr cert \<and>
     build_certificate demo_crypto ''t2'' ''r'' ''confirmed'' demo_agreement demo_votes 2 = Inr cert' \<and>
     py_get cert ''consensus-certificate/hash'' \<noteq> py_get cert' ''consensus-certificate/hash''"
proof -
  have ok: "\<exists>cert. build_certificate demo_crypto t ''r'' ''confirmed'' demo_agreement demo_votes 2 = Inr cert" for t
  proof -
    have "case mapE (participant (agreed_hash demo_agreement)) demo_votes of
        Inr ps \<Rightarrow> sortable ps | Inl _ \<Rightarrow> False"
      by code_simp
    then show ?thesis
      by (auto simp: build_certificate_def Let_def sort_participants_def split: sum.splits)
  qed
  obtain cert where c: "build_certificate demo_crypto ''t1'' ''r'' ''confirmed'' demo_agreement demo_votes 2 = Inr cert"
    using ok by blast
  obtain cert' where c': "build_certificate demo_crypto ''t2'' ''r'' ''confirmed'' demo_agreement demo_votes 2 = Inr cert'"
    using ok by blast
  from certificate_hash_depends_on_time [OF c c'] demo_no_collision c c' show ?thesis by auto
qed

end
