(* ===== verification/Quorum.thy ===== *)
theory Quorum
  imports Consensus_Theorems
begin

text \<open>
  \<^verbatim>\<open>scripts/forensic/quorum.py\<close>: comparison of repeated runs of one suite.  Executing a run is outside
  the model: its exit code, the parsed bundle root (\<^const>\<open>PNone\<close> where there is none) and its elapsed
  time are arguments.
\<close>

section \<open>Fields of a bundle\<close>

definition quorum_fields :: "string list" where
  "quorum_fields =
     [''bundle/hash'', ''overview/hash'', ''execution/summary/status'',
      ''execution/summary/totals/total'', ''execution/summary/totals/passed'',
      ''execution/summary/totals/failed'', ''execution/summary/totals/expected-failed'',
      ''execution/summary/totals/unexpected-failed'', ''source/tree-hash'',
      ''source/tree-hash-algorithm'']"

text \<open>The loop over the proper prefixes of a path, longest first.\<close>

fun extract_prefix :: "obj \<Rightarrow> string list \<Rightarrow> nat \<Rightarrow> pv" where
  "extract_prefix bundle parts 0 = PNone"
| "extract_prefix bundle parts (Suc n) =
     (let prefix = join ''/'' (take (Suc n) parts) in
      if has_key bundle prefix then deep_get_parts (py_get bundle prefix) (drop (Suc n) parts)
      else extract_prefix bundle parts n)"

definition extract_field :: "obj \<Rightarrow> string \<Rightarrow> pv" where
  "extract_field bundle field =
     (if has_key bundle field then py_get bundle field
      else let parts = split_on (CHR ''/'') field in extract_prefix bundle parts (length parts - 1))"

text \<open>
  \<^verbatim>\<open>collect_snapshot_fields\<close> iterates over the snapshot: the keys of a dictionary, the elements of a list
  or the characters of a string; a number is not iterable.
\<close>

definition collect_snapshot_fields :: "obj \<Rightarrow> py_error + string list" where
  "collect_snapshot_fields bundle =
     (let snap = py_get bundle ''registry/snapshot''; name = (\<lambda>k. ''registry/snapshot/'' @ k) in
      if \<not> truthy snap then Inr []
      else case snap of
        PDict d \<Rightarrow> Inr (map (name \<circ> fst) d)
      | PList xs \<Rightarrow> Inr (map (name \<circ> py_str) xs)
      | PStr s \<Rightarrow> Inr (map (\<lambda>c. name [c]) s)
      | _ \<Rightarrow> Inl TypeError)"

section \<open>Agreement on a field\<close>

record quorum_agreement =
  qa_field :: string
  qa_status :: string
  qa_winning :: "string option"
  qa_count :: nat
  qa_total :: nat
  qa_threshold :: int

definition bundle_values :: "pv list \<Rightarrow> string \<Rightarrow> pv list" where
  "bundle_values bundles field =
     filter (\<lambda>v. v \<noteq> PNone) (map (\<lambda>b. if truthy b then extract_field (dict_of b) field else PNone) bundles)"

definition compute_field_agreement :: "pv list \<Rightarrow> string \<Rightarrow> int \<Rightarrow> py_error + quorum_agreement" where
  "compute_field_agreement bundles field threshold =
     (let non_null = bundle_values bundles field in
      if non_null = []
      then Inr \<lparr>qa_field = field, qa_status = ''insufficient-data'', qa_winning = None, qa_count = 0,
                qa_total = length bundles, qa_threshold = threshold\<rparr>
      else if \<not> list_all hashable non_null then Inl TypeError
      else
        let (winning, n) = most_common_first (counter non_null);
            status = (if threshold \<le> int n then ''confirmed''
                      else if n = length non_null then ''confirmed''
                      else if length (remdups non_null) = 1 then ''confirmed''
                      else ''insufficient-agreement'') in
        Inr \<lparr>qa_field = field, qa_status = status,
             qa_winning = (if truthy winning then Some (take 40 (py_str winning)) else None),
             qa_count = n, qa_total = length bundles, qa_threshold = threshold\<rparr>)"

section \<open>The quorum\<close>

record quorum_run =
  qr_exit_code :: int
  qr_bundle :: pv
  qr_elapsed_ms :: int

definition quorum_default_threshold :: "nat \<Rightarrow> int" where
  "quorum_default_threshold run_count = max 2 (int run_count - 1)"

definition snapshot_fields_of :: "pv list \<Rightarrow> py_error + string list" where
  "snapshot_fields_of bundles =
     bindE (mapE (\<lambda>b. bindE (as_dict b) collect_snapshot_fields) (filter truthy bundles)) (\<lambda>fss.
     Inr (sort (remdups (concat fss))))"

definition quorum_agreements :: "pv list \<Rightarrow> int \<Rightarrow> py_error + quorum_agreement list" where
  "quorum_agreements bundles threshold =
     bindE (snapshot_fields_of bundles) (\<lambda>snap.
     bindE (mapE (\<lambda>field. compute_field_agreement bundles field threshold) (quorum_fields @ snap)) (\<lambda>rs.
     Inr (filter (\<lambda>r. qa_status r \<noteq> ''insufficient-data'') rs)))"

definition quorum_status :: "pv list \<Rightarrow> quorum_agreement list \<Rightarrow> string" where
  "quorum_status bundles agreement =
     (let confirmed = length (filter (\<lambda>a. qa_status a = ''confirmed'') agreement);
          insufficient = length (filter (\<lambda>a. qa_status a = ''insufficient-agreement'') agreement);
          total = length agreement in
      if \<not> list_all (\<lambda>b. b \<noteq> PNone) bundles then ''failed''
      else if 0 < insufficient then ''non-deterministic''
      else if confirmed = total \<and> 0 < total then ''confirmed''
      else if total = 0 then ''inconclusive''
      else ''inconclusive'')"

text \<open>
  The identity metadata are taken from \<^verbatim>\<open>first_bundle\<close>, which the loop over the bundles overwrites with
  every bundle that is not empty.
\<close>

definition identity_bundle :: "pv list \<Rightarrow> obj" where
  "identity_bundle bundles = foldl (\<lambda>fb b. if truthy b then dict_of b else fb) [] bundles"

definition quorum_identity :: "string \<Rightarrow> pv list \<Rightarrow> py_error + obj" where
  "quorum_identity suite_key bundles =
     (let fb = identity_bundle bundles;
          base = [(''suite-key'', PStr (if suite_key \<noteq> [] then suite_key else ''registry-default''))];
          snap = py_get fb ''registry/snapshot''; ov = py_get fb ''overview'' in
      if fb = [] then Inr base
      else bindE (if truthy snap then as_dict snap else Inr []) (\<lambda>d.
        Inr (base
          @ [(''bundle/hash'', py_get fb ''bundle/hash''), (''overview/hash'', py_get fb ''overview/hash''),
             (''execution/summary'', py_get fb ''execution/summary''),
             (''source/tree-hash'', py_get fb ''source/tree-hash''),
             (''source/tree-hash-algorithm'', py_get fb ''source/tree-hash-algorithm''),
             (''registry/snapshot-hashes'', PDict (map (\<lambda>(k, v). (k, PStr (take 16 (py_str v)))) d)),
             (''overview'', if truthy ov then ov else PDict [])])))"

record quorum_report =
  rep_status :: string
  rep_threshold :: int
  rep_success_count :: nat
  rep_failure_count :: nat
  rep_identity :: obj
  rep_agreement :: "quorum_agreement list"

definition quorum :: "string \<Rightarrow> int option \<Rightarrow> quorum_run list \<Rightarrow> py_error + (quorum_report \<times> int)" where
  "quorum suite_key threshold0 runs =
     (let threshold = (case threshold0 of None \<Rightarrow> quorum_default_threshold (length runs) | Some t \<Rightarrow> t);
          bundles = map qr_bundle runs in
      bindE (quorum_agreements bundles threshold) (\<lambda>agreement.
      bindE (quorum_identity suite_key bundles) (\<lambda>identity.
      let status = quorum_status bundles agreement in
      Inr (\<lparr>rep_status = status, rep_threshold = threshold,
            rep_success_count = length (filter (\<lambda>r. qr_exit_code r = 0) runs),
            rep_failure_count = length (filter (\<lambda>r. qr_exit_code r \<noteq> 0) runs),
            rep_identity = identity, rep_agreement = agreement\<rparr>,
           if status = ''confirmed'' then 0 else 1))))"

section \<open>Lemmas\<close>

lemma extract_flat: "has_key bundle field \<Longrightarrow> extract_field bundle field = py_get bundle field"
  by (simp add: extract_field_def)

lemma count_list_length: "count_list xs x = length xs \<longleftrightarrow> (\<forall>y \<in> set xs. y = x)"
proof (induction xs)
  case (Cons y xs)
  have "count_list xs x \<le> length xs" by (induction xs) auto
  with Cons show ?case by auto
qed simp

text \<open>A field is confirmed when its most common value reaches the threshold, or when no two runs differ.\<close>

lemma field_confirmed_iff:
  assumes "compute_field_agreement bundles field t = Inr a"
  shows "qa_status a = ''confirmed'' \<longleftrightarrow> bundle_values bundles field \<noteq> [] \<and>
    ((\<exists>v. t \<le> int (count_list (bundle_values bundles field) v) \<and> v \<in> set (bundle_values bundles field))
     \<or> (\<exists>v. \<forall>w \<in> set (bundle_values bundles field). w = v))"
proof (cases "bundle_values bundles field = []")
  case True
  with assms show ?thesis by (auto simp: compute_field_agreement_def)
next
  case False
  let ?vs = "bundle_values bundles field"
  obtain w n where wn: "most_common_first (counter ?vs) = (w, n)" by fastforce
  note m = most_common_first_counter [OF False wn]
  have status: "qa_status a = (if t \<le> int n \<or> n = length ?vs \<or> length (remdups ?vs) = 1
      then ''confirmed'' else ''insufficient-agreement'')"
    using assms False wn by (auto simp: compute_field_agreement_def Let_def split: if_splits)
  have all_same: "n = length ?vs \<longleftrightarrow> (\<exists>v. \<forall>u \<in> set ?vs. u = v)"
    unfolding m(2) count_list_length using m(1) by metis
  have one: "length (remdups ?vs) = 1 \<longleftrightarrow> (\<exists>v. \<forall>u \<in> set ?vs. u = v)"
  proof -
    have "length (remdups ?vs) = card (set ?vs)" by (rule length_remdups_card_conv)
    moreover have "card (set ?vs) = 1 \<longleftrightarrow> (\<exists>v. \<forall>u \<in> set ?vs. u = v)"
      using m(1) by (auto simp: card_1_singleton_iff)
    ultimately show ?thesis by simp
  qed
  have reach: "t \<le> int n \<longleftrightarrow> (\<exists>v. t \<le> int (count_list ?vs v) \<and> v \<in> set ?vs)"
    using m by (metis (no_types, lifting) of_nat_mono order.trans)
  show ?thesis unfolding status all_same one reach using False by simp
qed

lemma quorum_statuses:
  assumes "quorum_agreements bundles t = Inr ag" and "a \<in> set ag"
  shows "qa_status a = ''confirmed'' \<or> qa_status a = ''insufficient-agreement''"
proof -
  from assms obtain field where "compute_field_agreement bundles field t = Inr a" "qa_status a \<noteq> ''insufficient-data''"
    by (auto simp: quorum_agreements_def bindE_Inr_iff dest!: mapE_result_in)
  then show ?thesis by (auto simp: compute_field_agreement_def Let_def split: if_splits prod.splits)
qed

lemma status_confirmed:
  assumes "\<forall>a \<in> set ag. qa_status a = ''confirmed'' \<or> qa_status a = ''insufficient-agreement''"
  shows "quorum_status bundles ag = ''confirmed'' \<longleftrightarrow>
    list_all (\<lambda>b. b \<noteq> PNone) bundles \<and> ag \<noteq> [] \<and> list_all (\<lambda>a. qa_status a = ''confirmed'') ag"
proof -
  have "''insufficient-agreement'' \<noteq> ''confirmed''" by simp
  then have "qa_status a = ''insufficient-agreement'' \<longleftrightarrow> qa_status a \<noteq> ''confirmed''" if "a \<in> set ag" for a
    using assms that by metis
  then have "length (filter (\<lambda>a. qa_status a = ''insufficient-agreement'') ag) = 0 \<longleftrightarrow>
      list_all (\<lambda>a. qa_status a = ''confirmed'') ag"
    unfolding length_0_conv filter_empty_conv list_all_iff by blast
  moreover have "length (filter (\<lambda>a. qa_status a = ''confirmed'') ag) = length ag" if "list_all (\<lambda>a. qa_status a = ''confirmed'') ag"
    using that by (induction ag) auto
  ultimately show ?thesis by (auto simp: quorum_status_def Let_def)
qed

section \<open>Properties\<close>

text \<open>
  A field counts as confirmed exactly when some run has a value for it and either a value is reached
  by at least the threshold of runs, or no two runs that have a value differ.
\<close>

theorem quorum_field_confirmed_iff:
  assumes "compute_field_agreement bundles field t = Inr a"
  shows "qa_status a = ''confirmed'' \<longleftrightarrow> bundle_values bundles field \<noteq> [] \<and>
    ((\<exists>v. t \<le> int (count_list (bundle_values bundles field) v) \<and> v \<in> set (bundle_values bundles field))
     \<or> (\<exists>v. list_all (\<lambda>w. w = v) (bundle_values bundles field)))"
  using field_confirmed_iff [OF assms] by (simp add: list_all_iff)

text \<open>
  The quorum command exits with 0 exactly when every run produced a bundle root, some field had a
  value, and every field with a value is confirmed.
\<close>

theorem quorum_exit_iff:
  assumes "quorum suite t runs = Inr (report, code)"
  shows "code = 0 \<longleftrightarrow> list_all (\<lambda>r. qr_bundle r \<noteq> PNone) runs \<and> rep_agreement report \<noteq> [] \<and>
    list_all (\<lambda>a. qa_status a = ''confirmed'') (rep_agreement report)"
proof -
  from assms obtain thr ag where ag: "quorum_agreements (map qr_bundle runs) thr = Inr ag" "rep_agreement report = ag"
    and code: "code = (if quorum_status (map qr_bundle runs) ag = ''confirmed'' then 0 else 1)"
    by (auto simp: quorum_def Let_def bindE_Inr_iff)
  have "\<forall>a \<in> set ag. qa_status a = ''confirmed'' \<or> qa_status a = ''insufficient-agreement''"
    using quorum_statuses [OF ag(1)] by blast
  from status_confirmed [OF this] ag(2) code show ?thesis by (simp add: list.pred_map comp_def)
qed

text \<open>
  A single run with a value confirms a field below any threshold: where every other run lacks the
  field, its status is \<^verbatim>\<open>confirmed\<close> with an agreement count of one.
\<close>

theorem quorum_confirms_below_threshold:
  assumes "bundle_values bundles field = [v]" and "hashable v"
  shows "\<exists>a. compute_field_agreement bundles field t = Inr a \<and> qa_status a = ''confirmed'' \<and> qa_count a = 1"
proof -
  have "counter [v] = [(v, 1)]" by (simp add: counter_def first_seen_def)
  with assms show ?thesis by (auto simp: compute_field_agreement_def most_common_first_def Let_def)
qed

text \<open>
  The identity of the report is that of the last bundle that is not empty.
\<close>

lemma quorum_identity_last:
  "identity_bundle bundles = (case filter truthy (rev bundles) of [] \<Rightarrow> [] | b # _ \<Rightarrow> dict_of b)"
  by (induction bundles rule: rev_induct) (simp_all add: identity_bundle_def)

subsection \<open>Concrete instances\<close>

definition demo_bundles :: "pv list" where
  "demo_bundles =
     [PDict [(''overview/hash'', PStr ''x''), (''execution/summary'', PDict [(''status'', PStr ''pass'')])],
      PDict [(''overview/hash'', PStr ''x'')], PDict [(''overview/hash'', PStr ''x'')]]"

theorem quorum_field_confirmed_iff_witness:
  "\<exists>a. compute_field_agreement demo_bundles ''overview/hash'' 2 = Inr a \<and> qa_status a = ''confirmed'' \<and>
     (\<exists>v. list_all (\<lambda>w. w = v) (bundle_values demo_bundles ''overview/hash''))"
proof -
  have "case compute_field_agreement demo_bundles ''overview/hash'' 2 of Inr a \<Rightarrow> qa_status a = ''confirmed'' | Inl _ \<Rightarrow> False"
    by code_simp
  then obtain a where a: "compute_field_agreement demo_bundles ''overview/hash'' 2 = Inr a" "qa_status a = ''confirmed''"
    by (auto split: sum.splits)
  have "list_all (\<lambda>w. w = PStr ''x'') (bundle_values demo_bundles ''overview/hash'')" by code_simp
  with quorum_field_confirmed_iff [OF a(1)] a show ?thesis by blast
qed

definition demo_quorum_runs :: "quorum_run list" where
  "demo_quorum_runs = map (\<lambda>b. \<lparr>qr_exit_code = 0, qr_bundle = b, qr_elapsed_ms = 1\<rparr>) demo_bundles"

theorem quorum_exit_iff_witness:
  "\<exists>report. quorum [] None demo_quorum_runs = Inr (report, 0) \<and> rep_agreement report \<noteq> []"
proof -
  have "case quorum [] None demo_quorum_runs of Inr (report, code) \<Rightarrow> code = 0 | Inl _ \<Rightarrow> False" by code_simp
  then obtain report where r: "quorum [] None demo_quorum_runs = Inr (report, 0)" by (auto split: sum.splits)
  from quorum_exit_iff [OF r] r show ?thesis by blast
qed

theorem quorum_confirms_below_threshold_witness:
  "\<exists>a. compute_field_agreement demo_bundles ''execution/summary/status'' 3 = Inr a \<and> qa_status a = ''confirmed''"
proof -
  have "bundle_values demo_bundles ''execution/summary/status'' = [PStr ''pass'']" by code_simp
  from quorum_confirms_below_threshold [OF this] show ?thesis by auto
qed

end
