(* ===== verification/Py_Read.thy ===== *)
theory Py_Read
  imports Json_Text
begin

text \<open>
  Reading values the way the evidence verifiers do: subscripts, \<^verbatim>\<open>.get\<close>, \<^verbatim>\<open>len\<close>, iteration,
  \<^verbatim>\<open>.lower()\<close>, \<^verbatim>\<open>int(...)\<close> and \<^verbatim>\<open>==\<close> on a value of any JSON type, each with the exception it raises on
  a value of the wrong type; conditions joined by \<^verbatim>\<open>or\<close> whose operands may raise; and sequences of
  checks.  The collection \<open>read_iff\<close> turns a successful read into an equation about the value read.
\<close>

section \<open>Errors of the evidence verifiers\<close>

text \<open>
  \<^verbatim>\<open>pro28_receipts.EvidenceError\<close> and its two RPC subclasses are raised on purpose; the built-in
  exceptions of \<open>py_error\<close> escape on values of the wrong type.
\<close>

datatype ev_error =
    EvidenceError string
  | RpcUnavailable string
  | RpcMethodError string
  | Builtin py_error

abbreviation evidence_error :: "string \<Rightarrow> ev_error + 'a" where
  "evidence_error m \<equiv> Inl (EvidenceError m)"

definition require :: "bool \<Rightarrow> string \<Rightarrow> ev_error + unit" where
  "require b m = (if b then Inr () else evidence_error m)"

definition reject_if :: "ev_error + bool \<Rightarrow> string \<Rightarrow> ev_error + unit" where
  "reject_if c m = bindE c (\<lambda>b. require (\<not> b) m)"

definition thenE :: "ev_error + unit \<Rightarrow> ev_error + 'a \<Rightarrow> ev_error + 'a" where
  "thenE c m = bindE c (\<lambda>_. m)"

text \<open>\<^verbatim>\<open>c1 or c2 or ...\<close>: the operands are evaluated from the left until one is true or raises.\<close>

fun anyE :: "(ev_error + bool) list \<Rightarrow> ev_error + bool" where
  "anyE [] = Inr False"
| "anyE (c # cs) = bindE c (\<lambda>b. if b then Inr True else anyE cs)"

text \<open>Checks made one after the other.\<close>

fun checks :: "(ev_error + unit) list \<Rightarrow> ev_error + unit" where
  "checks [] = Inr ()"
| "checks (c # cs) = thenE c (checks cs)"

definition eqE :: "ev_error + 'a \<Rightarrow> ev_error + 'a \<Rightarrow> ev_error + bool" where
  "eqE a b = bindE a (\<lambda>x. bindE b (\<lambda>y. Inr (x = y)))"

definition neqE :: "ev_error + 'a \<Rightarrow> ev_error + 'a \<Rightarrow> ev_error + bool" where
  "neqE a b = bindE a (\<lambda>x. bindE b (\<lambda>y. Inr (x \<noteq> y)))"

lemma require_Inr_iff: "require b m = Inr u \<longleftrightarrow> b"
  by (simp add: require_def)

lemma reject_if_Inr_iff: "reject_if c m = Inr u \<longleftrightarrow> c = Inr False"
  by (auto simp: reject_if_def bindE_Inr_iff require_def)

lemma thenE_Inr_iff: "thenE c m = Inr x \<longleftrightarrow> c = Inr () \<and> m = Inr x"
  by (auto simp: thenE_def bindE_Inr_iff)

lemma anyE_False_iff: "anyE cs = Inr False \<longleftrightarrow> list_all (\<lambda>c. c = Inr False) cs"
  by (induction cs) (auto simp: anyE.simps bindE_Inr_iff if_split_asm)

lemma checks_Inr_iff: "checks cs = Inr u \<longleftrightarrow> list_all (\<lambda>c. c = Inr ()) cs"
  by (induction cs) (auto simp: checks.simps thenE_Inr_iff)

lemma neqE_False_iff: "neqE a b = Inr False \<longleftrightarrow> (\<exists>x. a = Inr x \<and> b = Inr x)"
  by (auto simp: neqE_def bindE_Inr_iff)

lemma eqE_True_iff: "eqE a b = Inr True \<longleftrightarrow> (\<exists>x. a = Inr x \<and> b = Inr x)"
  by (auto simp: eqE_def bindE_Inr_iff)

declare anyE.simps [simp del] checks.simps [simp del]

lemmas check_iff =
  require_Inr_iff reject_if_Inr_iff thenE_Inr_iff anyE_False_iff checks_Inr_iff neqE_False_iff eqE_True_iff

section \<open>Subscripts and methods\<close>

text \<open>\<^verbatim>\<open>v[k]\<close> for a name and for an index, \<^verbatim>\<open>v.get(k, x)\<close>, \<^verbatim>\<open>len(v)\<close>, \<^verbatim>\<open>for x in v\<close> and \<^verbatim>\<open>k in v\<close>.\<close>

fun item :: "pv \<Rightarrow> string \<Rightarrow> ev_error + pv" where
  "item (PDict d) k = (case map_of d k of None \<Rightarrow> Inl (Builtin (KeyError k)) | Some v \<Rightarrow> Inr v)"
| "item v k = Inl (Builtin TypeError)"

fun nth_item :: "pv \<Rightarrow> nat \<Rightarrow> ev_error + pv" where
  "nth_item (PList xs) i = (if i < length xs then Inr (xs ! i) else Inl (Builtin IndexError))"
| "nth_item (PStr s) i = (if i < length s then Inr (PStr [s ! i]) else Inl (Builtin IndexError))"
| "nth_item (PDict d) i = Inl (Builtin (KeyError (nat_str i)))"
| "nth_item v i = Inl (Builtin TypeError)"

fun get_in :: "pv \<Rightarrow> string \<Rightarrow> pv \<Rightarrow> ev_error + pv" where
  "get_in (PDict d) k x = Inr (get_or d k x)"
| "get_in v k x = Inl (Builtin AttributeError)"

abbreviation get_none :: "pv \<Rightarrow> string \<Rightarrow> ev_error + pv" where
  "get_none v k \<equiv> get_in v k PNone"

fun len_of :: "pv \<Rightarrow> ev_error + nat" where
  "len_of (PList xs) = Inr (length xs)"
| "len_of (PStr s) = Inr (length s)"
| "len_of (PDict d) = Inr (length d)"
| "len_of v = Inl (Builtin TypeError)"

fun iter_of :: "pv \<Rightarrow> ev_error + pv list" where
  "iter_of (PList xs) = Inr xs"
| "iter_of (PStr s) = Inr (map (\<lambda>c. PStr [c]) s)"
| "iter_of (PDict d) = Inr (map (\<lambda>kv. PStr (fst kv)) d)"
| "iter_of v = Inl (Builtin TypeError)"

fun has_item :: "pv \<Rightarrow> string \<Rightarrow> ev_error + bool" where
  "has_item (PDict d) k = Inr (has_key d k)"
| "has_item (PList xs) k = Inr (PStr k \<in> set xs)"
| "has_item (PStr s) k = Inr (contains k s)"
| "has_item v k = Inl (Builtin TypeError)"

text \<open>\<^verbatim>\<open>v.lower()\<close> and the string methods on a value that may be no string.\<close>

fun text_of :: "pv \<Rightarrow> ev_error + string" where
  "text_of (PStr s) = Inr s"
| "text_of v = Inl (Builtin AttributeError)"

definition starts_with :: "string \<Rightarrow> string \<Rightarrow> bool" where
  "starts_with p s \<longleftrightarrow> take (length p) s = p"

definition removeprefix :: "string \<Rightarrow> string \<Rightarrow> string" where
  "removeprefix p s = (if starts_with p s then drop (length p) s else s)"

definition ends_with :: "string \<Rightarrow> string \<Rightarrow> bool" where
  "ends_with p s \<longleftrightarrow> length p \<le> length s \<and> drop (length s - length p) s = p"

lemma item_Inr_iff: "item v k = Inr x \<longleftrightarrow> (\<exists>d. v = PDict d \<and> map_of d k = Some x)"
  by (cases v) (auto split: option.splits)

lemma nth_item_list: "nth_item (PList xs) i = Inr x \<longleftrightarrow> i < length xs \<and> x = xs ! i"
  by auto

lemma get_in_Inr_iff: "get_in v k x = Inr y \<longleftrightarrow> (\<exists>d. v = PDict d \<and> y = get_or d k x)"
  by (cases v) auto

lemma text_of_Inr_iff: "text_of v = Inr s \<longleftrightarrow> v = PStr s"
  by (cases v) auto

lemma item_get: "item v k = Inr x \<Longrightarrow> get_in v k y = Inr x"
  by (auto simp: item_Inr_iff get_or_def)

lemmas read_iff = item_Inr_iff get_in_Inr_iff text_of_Inr_iff

section \<open>Integers\<close>

text \<open>
  \<^verbatim>\<open>int(s, base)\<close> on text: white space around the numeral, a sign, the prefix \<^verbatim>\<open>0x\<close> for base 16 and
  single underscores between digits are accepted.
\<close>

definition int_space :: "char \<Rightarrow> bool" where
  "int_space c \<longleftrightarrow> (let n = (of_char c :: nat) in (9 \<le> n \<and> n \<le> 13) \<or> n = 32 \<or> n = 0x85 \<or> n = 0xA0)"

fun read_digits :: "nat \<Rightarrow> bool \<Rightarrow> nat \<Rightarrow> string \<Rightarrow> nat option" where
  "read_digits base after_digit acc [] = (if after_digit then Some acc else None)"
| "read_digits base after_digit acc (c # cs) =
     (if c = CHR ''_'' then (if after_digit \<and> cs \<noteq> [] then read_digits base False acc cs else None)
      else case hex_val c of
             None \<Rightarrow> None
           | Some d \<Rightarrow> if d < base then read_digits base True (acc * base + d) cs else None)"

definition read_magnitude :: "nat \<Rightarrow> string \<Rightarrow> nat option" where
  "read_magnitude base s =
     (if base = 16 \<and> (starts_with ''0x'' s \<or> starts_with ''0X'' s)
      then let r = drop 2 s in read_digits 16 False 0 (if starts_with ''_'' r then tl r else r)
      else read_digits base False 0 s)"

definition int_text :: "nat \<Rightarrow> string \<Rightarrow> int option" where
  "int_text base s =
     (let t = rev (dropWhile int_space (rev (dropWhile int_space s)))
      in if starts_with ''-'' t then map_option (\<lambda>n. - int n) (read_magnitude base (tl t))
         else if starts_with ''+'' t then map_option int (read_magnitude base (tl t))
         else map_option int (read_magnitude base t))"

definition int_of_text :: "nat \<Rightarrow> string \<Rightarrow> ev_error + int" where
  "int_of_text base s =
     (case int_text base s of
        None \<Rightarrow> Inl (Builtin (ValueError (''invalid literal for int() with base '' @ nat_str base)))
      | Some i \<Rightarrow> Inr i)"

text \<open>\<^verbatim>\<open>bytes.fromhex(s)\<close>, which skips ASCII white space between the bytes.\<close>

definition ascii_space :: "char \<Rightarrow> bool" where
  "ascii_space c \<longleftrightarrow> (let n = (of_char c :: nat) in (9 \<le> n \<and> n \<le> 13) \<or> n = 32)"

fun fromhex :: "string \<Rightarrow> bytes option" where
  "fromhex [] = Some []"
| "fromhex [c] = (if ascii_space c then Some [] else None)"
| "fromhex (c # d # s) =
     (if ascii_space c then fromhex (d # s)
      else case (hex_val c, hex_val d) of
             (Some a, Some b) \<Rightarrow> map_option (\<lambda>bs. of_nat (a * 16 + b) # bs) (fromhex s)
           | _ \<Rightarrow> None)"

definition fromhexE :: "string \<Rightarrow> ev_error + bytes" where
  "fromhexE s = (case fromhex s of None \<Rightarrow> Inl (Builtin (ValueError ''non-hexadecimal number found in fromhex() arg'')) | Some b \<Rightarrow> Inr b)"

lemma hex_char_no_space: "hex_val c = Some n \<Longrightarrow> \<not> ascii_space c"
  by (auto simp: hex_val.simps ascii_space_def Let_def split: if_splits)

lemma from_hex_fromhex: "from_hex s = Some bs \<Longrightarrow> fromhex s = Some bs"
  by (induction s arbitrary: bs rule: from_hex.induct)
     (auto split: option.splits dest: hex_char_no_space)

lemma fromhex_to_hex [simp]: "fromhex (to_hex bs) = Some bs"
  using from_hex_fromhex from_hex_to_hex by blast

section \<open>Equality\<close>

text \<open>
  \<^verbatim>\<open>==\<close> on JSON values: \<^verbatim>\<open>True == 1\<close> and \<^verbatim>\<open>False == 0\<close>, dictionaries are compared without regard to
  the order of their items.
\<close>

primrec plain :: "pv \<Rightarrow> pv" where
  "plain PNone = PNone"
| "plain (PBool b) = PInt (of_bool b)"
| "plain (PInt i) = PInt i"
| "plain (PStr s) = PStr s"
| "plain (PList xs) = PList (map plain xs)"
| "plain (PDict d) = PDict (map (map_prod id plain) d)"

definition py_eq :: "pv \<Rightarrow> pv \<Rightarrow> bool" where
  "py_eq v w \<longleftrightarrow> canon (plain v) = canon (plain w)"

lemma py_eq_refl [simp]: "py_eq v v"
  by (simp add: py_eq_def)

lemma py_eq_sym: "py_eq v w \<longleftrightarrow> py_eq w v"
  by (auto simp: py_eq_def)

lemma py_eq_trans: "py_eq u v \<Longrightarrow> py_eq v w \<Longrightarrow> py_eq u w"
  by (simp add: py_eq_def)

lemma plain_str_iff: "plain v = PStr s \<longleftrightarrow> v = PStr s"
  by (cases v) auto

lemma plain_none_iff: "plain v = PNone \<longleftrightarrow> v = PNone"
  by (cases v) auto

lemma py_eq_str [simp]: "py_eq v (PStr s) \<longleftrightarrow> v = PStr s" "py_eq (PStr s) v \<longleftrightarrow> v = PStr s"
  by (auto simp: py_eq_def plain_str_iff) (metis canon_atoms(2) plain_str_iff)+

lemma py_eq_none [simp]: "py_eq v PNone \<longleftrightarrow> v = PNone" "py_eq PNone v \<longleftrightarrow> v = PNone"
  by (auto simp: py_eq_def plain_none_iff) (metis canon_atoms(1) plain_none_iff)+

text \<open>The number a value is equal to, if any.\<close>

fun num_of :: "pv \<Rightarrow> int option" where
  "num_of (PInt i) = Some i"
| "num_of (PBool b) = Some (of_bool b)"
| "num_of v = None"

lemma num_of_plain: "num_of v = Some i \<longleftrightarrow> plain v = PInt i"
  by (cases v) auto

lemma py_eq_int [simp]: "py_eq v (PInt i) \<longleftrightarrow> num_of v = Some i"
  unfolding py_eq_def num_of_plain by simp

text \<open>\<^verbatim>\<open>isinstance(v, int)\<close> holds for booleans too.\<close>

definition is_number :: "pv \<Rightarrow> bool" where
  "is_number v \<longleftrightarrow> num_of v \<noteq> None"

section \<open>Text\<close>

definition newline :: string where
  "newline = [CHR 0x0A]"

definition str_space :: "char \<Rightarrow> bool" where
  "str_space c \<longleftrightarrow> (let n = (of_char c :: nat) in
     (9 \<le> n \<and> n \<le> 13) \<or> (0x1C \<le> n \<and> n \<le> 0x20) \<or> n = 0x85 \<or> n = 0xA0)"

definition strip :: "string \<Rightarrow> string" where
  "strip s = rev (dropWhile str_space (rev (dropWhile str_space s)))"

text \<open>\<^verbatim>\<open>s.isdigit()\<close>, which holds of the superscripts one, two and three as well.\<close>

definition isdigit_char :: "char \<Rightarrow> bool" where
  "isdigit_char c \<longleftrightarrow> is_digit c \<or> c \<in> {CHR 0xB2, CHR 0xB3, CHR 0xB9}"

definition isdigit :: "string \<Rightarrow> bool" where
  "isdigit s \<longleftrightarrow> s \<noteq> [] \<and> list_all isdigit_char s"

end
