(* ===== verification/Execution_Receipts.thy ===== *)
theory Execution_Receipts
  imports Py_Read
begin

text \<open>
  The retained receipts of a local protected withdrawal (\<^verbatim>\<open>scripts/forensic/pro28_receipts.py\<close>):
  loading the four broadcast groups, extracting the ERC-20 transfers, picking the one transfer that
  matches, and reading words of call data.

  A bundle directory is a function from relative paths to file contents.  The digest functions, the
  JSON reader and the \<^verbatim>\<open>cast keccak\<close> command are parameters.
\<close>

record evidence_lib =
  sha256_hex :: "string \<Rightarrow> string"
  json_loads :: "string \<Rightarrow> pv option"
  keccak_cli :: "string \<Rightarrow> string option"

type_synonym raw_dir = "string \<Rightarrow> string option"

section \<open>Constants and scalar readers\<close>

definition transfer_topic :: string where
  "transfer_topic = ''0xddf252ad1be2c89b69c2b068fc378daa952ba7f163c4a11628f55a4df523b3ef''"

definition groups :: "string list" where
  "groups = [''deployment'', ''funding'', ''activation'', ''withdrawals'']"

definition recipients :: "(string \<times> (string \<times> nat)) list" where
  "recipients =
    [(''0x1111111111111111111111111111111111111111'', (''claim-a'', 35)),
     (''0x2222222222222222222222222222222222222222'', (''claim-b'', 21)),
     (''0x3333333333333333333333333333333333333333'', (''claim-c'', 14))]"

definition path_name :: "string \<Rightarrow> string" where
  "path_name p = rev (takeWhile (\<lambda>c. c \<noteq> CHR ''/'') (rev p))"

definition read_json :: "evidence_lib \<Rightarrow> raw_dir \<Rightarrow> string \<Rightarrow> ev_error + pv" where
  "read_json L raw p =
     (case Option.bind (raw p) (json_loads L) of
        None \<Rightarrow> evidence_error (''cannot read valid JSON: '' @ path_name p)
      | Some v \<Rightarrow> Inr v)"

definition norm_text :: "pv \<Rightarrow> ev_error + string" where
  "norm_text v = bindE (text_of v) (\<lambda>s. Inr (lower s))"

definition fixed_hex_bytes :: "pv \<Rightarrow> nat \<Rightarrow> string \<Rightarrow> ev_error + bytes" where
  "fixed_hex_bytes v n label =
     (case v of
        PStr s \<Rightarrow>
          if starts_with ''0x'' s \<and> length s = 2 + n * 2
          then if list_all is_hex_char (drop 2 s)
               then fromhexE (drop 2 s)
               else evidence_error (label @ '' contains non-hex data'')
          else evidence_error (label @ '' must be exactly '' @ nat_str n @ '' bytes of 0x-prefixed hex'')
      | _ \<Rightarrow> evidence_error (label @ '' must be exactly '' @ nat_str n @ '' bytes of 0x-prefixed hex''))"

definition to_int :: "pv \<Rightarrow> ev_error + int" where
  "to_int v =
     (case num_of v of
        Some i \<Rightarrow> Inr i
      | None \<Rightarrow> bindE (text_of v) (\<lambda>s. int_of_text (if starts_with ''0x'' s then 16 else 10) s))"

text \<open>\<^verbatim>\<open>int(v, 16)\<close>.\<close>

definition int16 :: "pv \<Rightarrow> ev_error + int" where
  "int16 v = (case v of PStr s \<Rightarrow> int_of_text 16 s | _ \<Rightarrow> Inl (Builtin TypeError))"

text \<open>The reads \<^verbatim>\<open>_norm(v[k])\<close>, \<^verbatim>\<open>_norm(v.get(k, ""))\<close>, \<^verbatim>\<open>_int(v[k])\<close> and \<^verbatim>\<open>_int(v.get(k, "-1"))\<close>.\<close>

definition norm_item :: "pv \<Rightarrow> string \<Rightarrow> ev_error + string" where
  "norm_item v k = bindE (item v k) norm_text"

definition norm_get :: "pv \<Rightarrow> string \<Rightarrow> ev_error + string" where
  "norm_get v k = bindE (get_in v k (PStr [])) norm_text"

definition int_item :: "pv \<Rightarrow> string \<Rightarrow> ev_error + int" where
  "int_item v k = bindE (item v k) to_int"

definition int_get :: "pv \<Rightarrow> string \<Rightarrow> ev_error + int" where
  "int_get v k = bindE (get_in v k (PStr ''-1'')) to_int"

fun word_chunks :: "string \<Rightarrow> string list" where
  "word_chunks s = (if s = [] then [] else take 64 s # word_chunks (drop 64 s))"

declare word_chunks.simps [simp del]

definition public_words :: "string \<Rightarrow> ev_error + string list" where
  "public_words v =
     (let enc = removeprefix ''0x'' v
      in thenE (require (length enc = 9 * 64) ''public values must contain exactly nine 32-byte words'')
         (if fromhex enc = None then evidence_error ''public values contain non-hex data''
          else Inr (map (\<lambda>w. ''0x'' @ lower w) (word_chunks enc))))"

section \<open>Loading the broadcasts\<close>

record tx_entry =
  entry_group :: string
  entry_tx :: pv
  entry_receipt :: pv

type_synonym tx_map = "(string \<times> tx_entry) list"

record load_state =
  loaded :: tx_map
  source_files :: "(string \<times> string) list"
  seen_log_indexes :: "(string \<times> int) list"

text \<open>A log must carry its receipt's transaction, block and index, and a log index not seen in that block.\<close>

definition log_context_differs :: "string \<Rightarrow> pv \<Rightarrow> pv \<Rightarrow> ev_error + bool" where
  "log_context_differs h receipt log = anyE
     [neqE (norm_get log ''transactionHash'') (Inr h),
      neqE (norm_get log ''blockHash'') (norm_item receipt ''blockHash''),
      neqE (int_get log ''blockNumber'') (int_item receipt ''blockNumber''),
      neqE (int_get log ''transactionIndex'') (int_item receipt ''transactionIndex'')]"

definition load_log :: "string \<Rightarrow> pv \<Rightarrow> (string \<times> int) list \<Rightarrow> pv \<Rightarrow> ev_error + (string \<times> int) list" where
  "load_log h receipt seen log =
     bindE (get_none log ''removed'') (\<lambda>r.
     thenE (require (r \<noteq> PBool True) (''transaction '' @ h @ '' has a removed log''))
    (thenE (reject_if (log_context_differs h receipt log)
              (''transaction '' @ h @ '' log context differs from receipt''))
    (bindE (norm_item receipt ''blockHash'') (\<lambda>b.
     bindE (int_item log ''logIndex'') (\<lambda>i.
     thenE (require ((b, i) \<notin> set seen) ''duplicate log index in one observed block'')
       (Inr (seen @ [(b, i)])))))))"

text \<open>The checks of one receipt against its transaction envelope, before its logs.\<close>

definition calldata_ok :: "pv \<Rightarrow> bool" where
  "calldata_ok v =
     (case v of PStr s \<Rightarrow> starts_with ''0x'' s \<and> even (length s) \<and> list_all is_hex_char (drop 2 s) | _ \<Rightarrow> False)"

definition absent_field :: "pv \<Rightarrow> string \<Rightarrow> ev_error + bool" where
  "absent_field v k = bindE (has_item v k) (\<lambda>b. if b then bindE (item v k) (\<lambda>x. Inr (x = PNone)) else Inr True)"

definition ignoreE :: "ev_error + 'a \<Rightarrow> ev_error + unit" where
  "ignoreE m = bindE m (\<lambda>_. Inr ())"

definition check_broadcast :: "string \<Rightarrow> pv \<Rightarrow> pv \<Rightarrow> ev_error + unit" where
  "check_broadcast h tx receipt =
     bindE (get_in tx ''transaction'' (PDict [])) (\<lambda>ctx. checks
       [reject_if (neqE (norm_get tx ''hash'') (Inr h)) ''broadcast transaction hash mismatch'',
        reject_if (anyE [Inr (\<not> is_dict ctx), neqE (norm_get ctx ''hash'') (Inr h)])
          ''broadcast transaction envelope hash mismatch'',
        reject_if (neqE (norm_get ctx ''chainId'') (Inr ''0x7a69''))
          ''broadcast transaction is not on local chain 31337'',
        bindE (get_none receipt ''status'') (\<lambda>s.
          require (s = PStr ''0x1'') (''transaction '' @ h @ '' did not succeed'')),
        checks (map (\<lambda>k. reject_if (absent_field receipt k) (''transaction '' @ h @ '' receipt lacks '' @ k))
          [''transactionIndex'', ''blockNumber'', ''blockHash'']),
        ignoreE (bindE (item receipt ''blockHash'') (\<lambda>b. fixed_hex_bytes b 32 ''receipt block hash'')),
        ignoreE (bindE (get_none ctx ''from'') (\<lambda>a. fixed_hex_bytes a 20 ''broadcast transaction sender'')),
        bindE (get_none ctx ''input'') (\<lambda>c.
          require (calldata_ok c) ''broadcast transaction calldata is malformed''),
        bindE (get_none ctx ''to'') (\<lambda>t.
          if t = PNone then Inr () else ignoreE (fixed_hex_bytes t 20 ''broadcast transaction target''))])"

definition load_receipt ::
  "string \<Rightarrow> (string \<times> pv) list \<Rightarrow> load_state \<Rightarrow> pv \<Rightarrow> ev_error + load_state" where
  "load_receipt grp tx_by_hash st receipt =
     bindE (norm_item receipt ''transactionHash'') (\<lambda>h.
     bindE (item (PDict tx_by_hash) h) (\<lambda>tx.
     thenE (check_broadcast h tx receipt)
    (bindE (bindE (get_in receipt ''logs'' (PList [])) iter_of) (\<lambda>logs.
     bindE (foldE (load_log h receipt) (seen_log_indexes st) logs) (\<lambda>seen.
       Inr (st\<lparr>loaded := dset h \<lparr>entry_group = grp, entry_tx = tx, entry_receipt = receipt\<rparr> (loaded st),
               seen_log_indexes := seen\<rparr>))))))"

text \<open>One broadcast file: its runner source, the one-to-one match of identities, then its receipts.\<close>

definition runner_source ::
  "evidence_lib \<Rightarrow> raw_dir \<Rightarrow> string \<Rightarrow> pv \<Rightarrow> ev_error + (string \<times> string) list" where
  "runner_source L raw grp payload =
     bindE (get_none payload ''schema'') (\<lambda>s.
     if s = PStr ''eae.rpc-bound-broadcast.v1'' then
       (case raw (''runner-broadcast/'' @ grp @ ''.json'') of
          None \<Rightarrow> evidence_error (grp @ '' RPC-bound broadcast lacks its retained runner source'')
        | Some body \<Rightarrow>
            bindE (get_none payload ''sourceBroadcastSha256'') (\<lambda>d.
            thenE (require (d = PStr (''sha256:'' @ sha256_hex L body))
                    (grp @ '' RPC-bound broadcast does not bind its runner source bytes''))
              (Inr [(''runner-broadcast/'' @ grp @ ''.json'', sha256_hex L body)])))
     else Inr [])"

definition identities_match :: "string list \<Rightarrow> string list \<Rightarrow> bool" where
  "identities_match a b \<longleftrightarrow>
     length a = length b \<and> distinct a \<and> distinct b \<and> set a = set b"

definition load_group :: "evidence_lib \<Rightarrow> raw_dir \<Rightarrow> load_state \<Rightarrow> string \<Rightarrow> ev_error + load_state" where
  "load_group L raw st grp =
     bindE (read_json L raw (''broadcast/'' @ grp @ ''.json'')) (\<lambda>payload.
     bindE (get_none payload ''transactions'') (\<lambda>txs.
     bindE (get_none payload ''receipts'') (\<lambda>rcs.
     thenE (require (is_list txs \<and> is_list rcs)
              (grp @ '' broadcast must contain transactions and receipts''))
    (bindE (runner_source L raw grp payload) (\<lambda>src.
     bindE (mapE (\<lambda>row. norm_item row ''hash'') (list_of txs)) (\<lambda>tx_hashes.
     bindE (mapE (\<lambda>row. norm_item row ''transactionHash'') (list_of rcs)) (\<lambda>receipt_hashes.
     thenE (require (identities_match tx_hashes receipt_hashes)
              (grp @ '' transaction/receipt identities do not match one-to-one''))
    (thenE (checks (map (\<lambda>h. ignoreE (fixed_hex_bytes (PStr h) 32 ''transaction hash'')) tx_hashes))
    (foldE (load_receipt grp (dupdate [] (zip tx_hashes (list_of txs))))
       (st\<lparr>source_files := dset grp (sha256_hex L (the (raw (''broadcast/'' @ grp @ ''.json''))))
              (dupdate (source_files st) src)\<rparr>)
       (list_of rcs))))))))))"

definition empty_load :: load_state where
  "empty_load = \<lparr>loaded = [], source_files = [], seen_log_indexes = []\<rparr>"

definition load_receipts :: "evidence_lib \<Rightarrow> raw_dir \<Rightarrow> ev_error + tx_map \<times> (string \<times> string) list" where
  "load_receipts L raw =
     bindE (foldE (load_group L raw) empty_load groups) (\<lambda>st.
     thenE (require (length (loaded st) = 41)
              (''expected 41 successful transactions, found '' @ nat_str (length (loaded st))))
       (Inr (loaded st, source_files st)))"

section \<open>Transfers\<close>

record transfer =
  tr_chain :: pv
  tr_hash :: string
  tr_index :: int
  tr_block :: int
  tr_block_hash :: string
  tr_status :: int
  tr_log_index :: int
  tr_emitter :: string
  tr_from :: string
  tr_to :: string
  tr_amount :: nat
  tr_group :: string

text \<open>A log is skipped unless the token emitted it and its first topic is the Transfer signature.\<close>

definition skip_log :: "string \<Rightarrow> pv \<Rightarrow> pv \<Rightarrow> ev_error + bool" where
  "skip_log token log topics = anyE
     [neqE (norm_get log ''address'') (Inr token),
      Inr (\<not> truthy topics),
      neqE (bindE (nth_item topics 0) norm_text) (Inr transfer_topic)]"

definition transfer_of_log :: "string \<Rightarrow> pv \<Rightarrow> string \<Rightarrow> tx_entry \<Rightarrow> pv \<Rightarrow> pv \<Rightarrow> ev_error + transfer" where
  "transfer_of_log token chain h e log topics =
     thenE (bindE (len_of topics) (\<lambda>n. require (n = 3) ''ERC-20 Transfer log has malformed topic count''))
    (bindE (bindE (iter_of topics) (mapE (\<lambda>t. fixed_hex_bytes t 32 ''ERC-20 Transfer topic''))) (\<lambda>words.
     thenE (require (take 12 (words ! 1) = replicate 12 0 \<and> take 12 (words ! 2) = replicate 12 0)
              ''ERC-20 Transfer address topic is not canonically zero-padded'')
    (bindE (bindE (get_none log ''data'') (\<lambda>d. fixed_hex_bytes d 32 ''ERC-20 Transfer amount'')) (\<lambda>amount.
     thenE (reject_if (neqE (norm_item log ''transactionHash'') (Inr h))
              ''Transfer log references a different transaction'')
    (bindE (int_item (entry_receipt e) ''transactionIndex'') (\<lambda>ti.
     bindE (int_item (entry_receipt e) ''blockNumber'') (\<lambda>bn.
     bindE (norm_item (entry_receipt e) ''blockHash'') (\<lambda>bh.
     bindE (int_item (entry_receipt e) ''status'') (\<lambda>s.
     bindE (int_item log ''logIndex'') (\<lambda>li.
     bindE (norm_item log ''address'') (\<lambda>a.
       Inr \<lparr>tr_chain = chain, tr_hash = h, tr_index = ti, tr_block = bn, tr_block_hash = bh,
            tr_status = s, tr_log_index = li, tr_emitter = a,
            tr_from = ''0x'' @ to_hex (drop 12 (words ! 1)),
            tr_to = ''0x'' @ to_hex (drop 12 (words ! 2)),
            tr_amount = be_nat amount, tr_group = entry_group e\<rparr>)))))))))))"

definition log_transfers :: "string \<Rightarrow> pv \<Rightarrow> string \<Rightarrow> tx_entry \<Rightarrow> pv \<Rightarrow> ev_error + transfer list" where
  "log_transfers token chain h e log =
     bindE (get_in log ''topics'' (PList [])) (\<lambda>topics.
     bindE (skip_log token log topics) (\<lambda>skip.
     if skip then Inr [] else bindE (transfer_of_log token chain h e log topics) (\<lambda>t. Inr [t])))"

definition transfer_events :: "tx_map \<Rightarrow> string \<Rightarrow> pv \<Rightarrow> ev_error + transfer list" where
  "transfer_events txs token chain =
     bindE (mapE (\<lambda>(h, e).
        bindE (bindE (get_in (entry_receipt e) ''logs'' (PList [])) iter_of) (\<lambda>logs.
        bindE (mapE (log_transfers token chain h e) logs) (\<lambda>ts. Inr (concat ts)))) txs)
       (\<lambda>tss. Inr (concat tss))"

definition event_matches :: "string \<Rightarrow> string \<Rightarrow> nat \<Rightarrow> string \<Rightarrow> transfer \<Rightarrow> bool" where
  "event_matches src tgt amount grp ev \<longleftrightarrow>
     tr_from ev = src \<and> tr_to ev = tgt \<and> tr_amount ev = amount \<and> tr_group ev = grp"

definition exact_event :: "transfer list \<Rightarrow> string \<Rightarrow> string \<Rightarrow> nat \<Rightarrow> string \<Rightarrow> ev_error + transfer" where
  "exact_event evs src tgt amount grp =
     (case filter (event_matches src tgt amount grp) evs of
        [ev] \<Rightarrow> Inr ev
      | ms \<Rightarrow> evidence_error (''expected one '' @ nat_str amount @ ''-unit Transfer '' @ src @ ''->'' @ tgt
                @ '' in '' @ grp @ ''; found '' @ nat_str (length ms)))"

section \<open>Call data\<close>

definition calldata_word :: "bytes \<Rightarrow> nat \<Rightarrow> ev_error + nat" where
  "calldata_word cd off =
     (if length cd < off + 32 then evidence_error ''transaction calldata is truncated''
      else Inr (be_nat (take 32 (drop off cd))))"

definition call_data :: "tx_entry \<Rightarrow> ev_error + pv \<times> bytes" where
  "call_data e =
     bindE (get_in (entry_tx e) ''transaction'' (PDict [])) (\<lambda>tx.
     bindE (get_in tx ''input'' (PStr [])) (\<lambda>enc.
     thenE (require (is_str enc \<and> starts_with ''0x'' (str_of enc))
              ''transaction is missing its signed call payload'')
       (case fromhex (drop 2 (str_of enc)) of
          None \<Rightarrow> evidence_error ''transaction call payload is not hexadecimal''
        | Some b \<Rightarrow> Inr (tx, b))))"

end
