(* ===== verification/Execution_Loading.thy ===== *)
theory Execution_Loading
  imports Execution_Receipts
begin

text \<open>
  What a successful load of the broadcasts establishes: every entry pairs a successful receipt with
  the transaction of the same hash, every log carries the context of its receipt, and no two logs of
  the retained execution have the same block and log index.
\<close>

section \<open>Logs\<close>

definition logs_of :: "pv \<Rightarrow> pv list" where
  "logs_of receipt =
     (case bindE (get_in receipt ''logs'' (PList [])) iter_of of Inl e \<Rightarrow> [] | Inr logs \<Rightarrow> logs)"

definition log_id :: "pv \<Rightarrow> pv \<Rightarrow> string \<times> int" where
  "log_id receipt log =
     (case (norm_item receipt ''blockHash'', int_item log ''logIndex'') of
        (Inr b, Inr i) \<Rightarrow> (b, i)
      | _ \<Rightarrow> ([], 0))"

definition log_ids :: "tx_entry \<Rightarrow> (string \<times> int) list" where
  "log_ids e = map (log_id (entry_receipt e)) (logs_of (entry_receipt e))"

text \<open>A log is bound to its receipt when it names the same transaction, block and position.\<close>

definition log_bound :: "string \<Rightarrow> pv \<Rightarrow> pv \<Rightarrow> bool" where
  "log_bound h receipt log \<longleftrightarrow>
     norm_get log ''transactionHash'' = Inr h
     \<and> norm_get log ''blockHash'' = norm_item receipt ''blockHash''
     \<and> int_get log ''blockNumber'' = int_item receipt ''blockNumber''
     \<and> int_get log ''transactionIndex'' = int_item receipt ''transactionIndex''"

lemma load_log_iff:
  "load_log h receipt seen log = Inr seen' \<Longrightarrow>
     log_bound h receipt log \<and> log_id receipt log \<notin> set seen \<and> seen' = seen @ [log_id receipt log]"
  by (auto simp: load_log_def log_context_differs_def log_bound_def log_id_def bindE_Inr_iff check_iff)

lemma load_logs:
  "foldE (load_log h receipt) seen logs = Inr seen' \<Longrightarrow>
     list_all (log_bound h receipt) logs \<and> seen' = seen @ map (log_id receipt) logs
     \<and> (distinct seen \<longrightarrow> distinct seen')"
proof (induction logs arbitrary: seen)
  case Nil
  then show ?case by simp
next
  case (Cons log logs)
  then obtain s where s: "load_log h receipt seen log = Inr s" "foldE (load_log h receipt) s logs = Inr seen'"
    by (auto simp: bindE_Inr_iff)
  from load_log_iff [OF s(1)] have a: "log_bound h receipt log" "log_id receipt log \<notin> set seen"
    "s = seen @ [log_id receipt log]" by auto
  from Cons.IH [OF s(2)] have b: "list_all (log_bound h receipt) logs" "seen' = s @ map (log_id receipt) logs"
    "distinct s \<longrightarrow> distinct seen'" by blast+
  have "distinct seen \<longrightarrow> distinct s" using a by simp
  with a b show ?case by simp
qed

section \<open>Entries\<close>

text \<open>What is known of an entry of the loaded map, in terms of the two JSON objects it pairs.\<close>

definition entry_bound :: "string \<Rightarrow> tx_entry \<Rightarrow> bool" where
  "entry_bound h e \<longleftrightarrow>
     entry_group e \<in> set groups
     \<and> norm_item (entry_receipt e) ''transactionHash'' = Inr h
     \<and> norm_get (entry_tx e) ''hash'' = Inr h
     \<and> item (entry_receipt e) ''status'' = Inr (PStr ''0x1'')
     \<and> list_all (log_bound h (entry_receipt e)) (logs_of (entry_receipt e))"

lemma check_broadcast_status: "check_broadcast h tx receipt = Inr u \<Longrightarrow> item receipt ''status'' = Inr (PStr ''0x1'')"
  by (auto simp: check_broadcast_def bindE_Inr_iff check_iff get_in_Inr_iff get_or_def split: option.splits)

lemma check_broadcast_hash: "check_broadcast h tx receipt = Inr u \<Longrightarrow> norm_get tx ''hash'' = Inr h"
  by (auto simp: check_broadcast_def bindE_Inr_iff check_iff)

lemma load_receipt_steps:
  assumes "load_receipt grp tbl st receipt = Inr st'" and "grp \<in> set groups"
  obtains h e where
    "entry_receipt e = receipt" "entry_bound h e"
    "loaded st' = dset h e (loaded st)"
    "seen_log_indexes st' = seen_log_indexes st @ log_ids e"
    "distinct (seen_log_indexes st) \<longrightarrow> distinct (seen_log_indexes st')"
proof -
  from assms(1) obtain h tx logs seen where
    h: "norm_item receipt ''transactionHash'' = Inr h" and chk: "check_broadcast h tx receipt = Inr ()"
    and logs: "bindE (get_in receipt ''logs'' (PList [])) iter_of = Inr logs"
    and seen: "foldE (load_log h receipt) (seen_log_indexes st) logs = Inr seen"
    and st': "st' = st\<lparr>loaded := dset h \<lparr>entry_group = grp, entry_tx = tx, entry_receipt = receipt\<rparr> (loaded st),
               seen_log_indexes := seen\<rparr>"
    unfolding load_receipt_def by (simp only: bindE_Inr_iff thenE_Inr_iff) auto
  let ?e = "\<lparr>entry_group = grp, entry_tx = tx, entry_receipt = receipt\<rparr>"
  have lo: "logs_of receipt = logs" using logs by (simp add: logs_of_def)
  have "entry_bound h ?e"
    using h assms(2) lo load_logs [OF seen] check_broadcast_status [OF chk] check_broadcast_hash [OF chk]
    by (simp add: entry_bound_def)
  moreover have "seen = seen_log_indexes st @ log_ids ?e" "distinct (seen_log_indexes st) \<longrightarrow> distinct seen"
    using load_logs [OF seen] unfolding log_ids_def tx_entry.simps lo by blast+
  ultimately show thesis
    using that [of ?e h] by (simp add: st' del: distinct_append)
qed

section \<open>The invariant of the load\<close>

definition all_log_ids :: "tx_map \<Rightarrow> (string \<times> int) list" where
  "all_log_ids txs = concat (map (\<lambda>he. log_ids (snd he)) txs)"

definition load_inv :: "load_state \<Rightarrow> bool" where
  "load_inv st \<longleftrightarrow>
     distinct (map fst (loaded st)) \<and> (\<forall>he \<in> set (loaded st). entry_bound (fst he) (snd he))
     \<and> distinct (seen_log_indexes st)
     \<and> set (all_log_ids (loaded st)) \<subseteq> set (seen_log_indexes st)
     \<and> distinct (all_log_ids (loaded st))"

lemma set_all_log_ids_dset:
  "set (all_log_ids (dset h e txs)) \<subseteq> set (log_ids e) \<union> set (all_log_ids txs)"
  by (induction txs) (auto simp: all_log_ids_def)

lemma distinct_all_log_ids_dset:
  "distinct (all_log_ids txs) \<Longrightarrow> distinct (log_ids e) \<Longrightarrow> set (log_ids e) \<inter> set (all_log_ids txs) = {} \<Longrightarrow>
     distinct (all_log_ids (dset h e txs))"
proof (induction txs)
  case Nil
  then show ?case by (simp add: all_log_ids_def)
next
  case (Cons he txs)
  have c: "all_log_ids (he # txs) = log_ids (snd he) @ all_log_ids txs" by (simp add: all_log_ids_def)
  show ?case
  proof (cases "fst he = h")
    case True
    then have "all_log_ids (dset h e (he # txs)) = log_ids e @ all_log_ids txs"
      by (cases he) (simp add: all_log_ids_def)
    with Cons.prems show ?thesis unfolding c by auto
  next
    case False
    then have u: "all_log_ids (dset h e (he # txs)) = log_ids (snd he) @ all_log_ids (dset h e txs)"
      by (cases he) (simp add: all_log_ids_def)
    have "distinct (all_log_ids (dset h e txs))" using Cons unfolding c by auto
    with u Cons.prems set_all_log_ids_dset [of h e txs] show ?thesis unfolding c by auto
  qed
qed

lemma in_set_dset: "he \<in> set (dset h e txs) \<Longrightarrow> he = (h, e) \<or> he \<in> set txs"
  by (induction txs) (auto split: if_splits)

lemma load_receipt_inv:
  assumes "load_inv st" and "load_receipt grp tbl st receipt = Inr st'" and "grp \<in> set groups"
  shows "load_inv st'"
proof -
  from load_receipt_steps [OF assms(2,3)] obtain h e where
    e: "entry_bound h e" and l: "loaded st' = dset h e (loaded st)"
    and s: "seen_log_indexes st' = seen_log_indexes st @ log_ids e"
    and d: "distinct (seen_log_indexes st) \<longrightarrow> distinct (seen_log_indexes st')" by metis
  have ds: "distinct (seen_log_indexes st @ log_ids e)" using d s assms(1) by (simp add: load_inv_def)
  have "\<forall>he \<in> set (dset h e (loaded st)). entry_bound (fst he) (snd he)"
  proof
    fix he assume "he \<in> set (dset h e (loaded st))"
    then have "he = (h, e) \<or> he \<in> set (loaded st)" by (rule in_set_dset)
    then show "entry_bound (fst he) (snd he)" using e assms(1) by (auto simp: load_inv_def)
  qed
  moreover have "distinct (all_log_ids (dset h e (loaded st)))"
    using ds assms(1) by (intro distinct_all_log_ids_dset) (auto simp: load_inv_def)
  moreover have "distinct (map fst (dset h e (loaded st)))"
    using assms(1) by (simp add: load_inv_def distinct_update)
  ultimately show ?thesis
    using ds l s assms(1) set_all_log_ids_dset [of h e "loaded st"] by (auto simp: load_inv_def)
qed

lemma load_group_inv:
  assumes "load_inv st" and "load_group L raw st grp = Inr st'" and "grp \<in> set groups"
  shows "load_inv st'"
proof -
  from assms(2) obtain tbl srcs rows where
    run: "foldE (load_receipt grp tbl) (st\<lparr>source_files := srcs\<rparr>) rows = Inr st'"
    unfolding load_group_def by (simp only: bindE_Inr_iff thenE_Inr_iff) auto
  have "load_inv (st\<lparr>source_files := srcs\<rparr>)" using assms(1) by (simp add: load_inv_def)
  with run show ?thesis
    by (rule foldE_invariant [rotated]) (rule load_receipt_inv [OF _ _ assms(3)])
qed

lemma load_groups_inv:
  assumes "foldE (load_group L raw) empty_load groups = Inr st"
  shows "load_inv st"
  by (rule foldE_invariant [OF load_group_inv assms])
     (auto simp: load_inv_def empty_load_def all_log_ids_def)

section \<open>A bundle that loads\<close>

text \<open>Forty-one successful transactions with one log each, spread over the four groups.\<close>

definition demo_hash :: "nat \<Rightarrow> string" where
  "demo_hash n = ''0x'' @ [hex_digit (n div 16), hex_digit (n mod 16)] @ replicate 62 (CHR ''0'')"

definition demo_tx :: "string \<Rightarrow> pv" where
  "demo_tx h = PDict [(''hash'', PStr h),
     (''transaction'', PDict [(''hash'', PStr h), (''chainId'', PStr ''0x7a69''),
        (''from'', PStr ''0x1111111111111111111111111111111111111111''), (''input'', PStr ''0x''), (''to'', PNone)])]"

definition demo_log :: "string \<Rightarrow> pv" where
  "demo_log h = PDict [(''transactionHash'', PStr h), (''blockHash'', PStr h), (''blockNumber'', PInt 7),
     (''transactionIndex'', PInt 0), (''logIndex'', PInt 0)]"

definition demo_receipt :: "string \<Rightarrow> pv" where
  "demo_receipt h = PDict [(''transactionHash'', PStr h), (''status'', PStr ''0x1''), (''transactionIndex'', PInt 0),
     (''blockNumber'', PInt 7), (''blockHash'', PStr h), (''logs'', PList [demo_log h])]"

definition demo_broadcast :: "nat list \<Rightarrow> pv" where
  "demo_broadcast ns = PDict [(''transactions'', PList (map (demo_tx \<circ> demo_hash) ns)),
     (''receipts'', PList (map (demo_receipt \<circ> demo_hash) ns))]"

definition demo_bounds :: "string \<Rightarrow> nat \<times> nat" where
  "demo_bounds g =
     (if g = ''deployment'' then (0, 11) else if g = ''funding'' then (11, 21)
      else if g = ''activation'' then (21, 31) else (31, 41))"

definition demo_group_rows :: "string \<Rightarrow> nat list" where
  "demo_group_rows g = [fst (demo_bounds g)..<snd (demo_bounds g)]"

definition demo_loads :: "string \<Rightarrow> pv option" where
  "demo_loads p = map_option (demo_broadcast \<circ> demo_group_rows)
     (map_of (map (\<lambda>g. (''broadcast/'' @ g @ ''.json'', g)) groups) p)"

definition demo_lib :: evidence_lib where
  "demo_lib = \<lparr>sha256_hex = id, json_loads = demo_loads, keccak_cli = Some\<rparr>"

definition good_hash :: "string \<Rightarrow> bool" where
  "good_hash h \<longleftrightarrow> lower h = h \<and> (\<forall>l. ignoreE (fixed_hex_bytes (PStr h) 32 l) = Inr ())"

lemma good_demo_hash: "n < 256 \<Longrightarrow> good_hash (demo_hash n)"
proof -
  assume n: "n < 256"
  have low: "lower_char (hex_digit d) = hex_digit d" and hex: "is_hex_char (hex_digit d)" if "d < 16" for d
    using that hex_digit_plain by auto
  have zero: "is_hex_char CHR ''0''" by (simp add: is_hex_char_def hex_val.simps)
  let ?s = "drop 2 (demo_hash n)"
  have s: "starts_with ''0x'' (demo_hash n)" "length (demo_hash n) = 66" "length ?s = 64"
    by (simp_all add: demo_hash_def starts_with_def)
  have d: "n div 16 < 16" "n mod 16 < 16" using n by auto
  have l: "lower (demo_hash n) = demo_hash n"
    using low d by (simp add: demo_hash_def lower_def) (simp add: lower_char_def)
  have all: "list_all is_hex_char ?s"
    using hex d zero by (auto simp: demo_hash_def list_all_iff)
  have "fromhex ?s \<noteq> None"
  proof -
    have "from_hex ?s \<noteq> None" using s(3) all by (simp add: from_hex_None_iff list_all_iff)
    then show ?thesis using from_hex_fromhex by fastforce
  qed
  then have "ignoreE (fixed_hex_bytes (PStr (demo_hash n)) 32 lab) = Inr ()" for lab
    using s all by (auto simp: fixed_hex_bytes_def fromhexE_def ignoreE_def split: option.splits)
  with l show ?thesis by (simp add: good_hash_def)
qed

lemma demo_hash_inject: "m < 256 \<Longrightarrow> n < 256 \<Longrightarrow> demo_hash m = demo_hash n \<longleftrightarrow> m = n"
proof
  assume m: "m < 256" and n: "n < 256" and eq: "demo_hash m = demo_hash n"
  then have "hex_val (hex_digit (m div 16)) = hex_val (hex_digit (n div 16))"
    "hex_val (hex_digit (m mod 16)) = hex_val (hex_digit (n mod 16))" by (simp_all add: demo_hash_def)
  moreover have "m div 16 < 16" "n div 16 < 16" "m mod 16 < 16" "n mod 16 < 16" using m n by auto
  ultimately have "m div 16 = n div 16" "m mod 16 = n mod 16" by (simp_all add: hex_val_digit)
  then show "m = n" by (metis div_mult_mod_eq)
qed simp

definition demo_entry :: "string \<Rightarrow> string \<Rightarrow> tx_entry" where
  "demo_entry grp h = \<lparr>entry_group = grp, entry_tx = demo_tx h, entry_receipt = demo_receipt h\<rparr>"

lemma dupdate_fresh: "distinct (map fst (d @ e)) \<Longrightarrow> dupdate d e = d @ e"
proof (induction e arbitrary: d)
  case Nil
  then show ?case by (simp add: dupdate_def)
next
  case (Cons kv e)
  then have "dset (fst kv) (snd kv) d = d @ [kv]" by (subst dset_fresh) auto
  with Cons.IH [of "d @ [kv]"] Cons.prems show ?case by (simp add: dupdate_def)
qed

lemma demo_check_broadcast: "good_hash h \<Longrightarrow> check_broadcast h (demo_tx h) (demo_receipt h) = Inr ()"
proof -
  assume g: "good_hash h"
  have sender: "ignoreE (fixed_hex_bytes (PStr ''0x1111111111111111111111111111111111111111'') 20 l) = Inr ()" for l
    by (simp add: ignoreE_def fixed_hex_bytes_def starts_with_def is_hex_char_def hex_val.simps fromhexE_def ascii_space_def)
  show ?thesis
    using g sender
    by (simp add: check_broadcast_def demo_tx_def demo_receipt_def check_iff good_hash_def norm_get_def norm_text_def
        get_or_def absent_field_def has_key_def calldata_ok_def starts_with_def lower_def lower_char_def)
qed

lemma demo_load_receipt:
  assumes "good_hash h" and "map_of tbl h = Some (demo_tx h)" and "(h, 0) \<notin> set (seen_log_indexes st)"
    and "h \<notin> set (map fst (loaded st))"
  shows "load_receipt grp tbl st (demo_receipt h) = Inr (st\<lparr>loaded := loaded st @ [(h, demo_entry grp h)],
           seen_log_indexes := seen_log_indexes st @ [(h, 0)]\<rparr>)"
proof -
  have h: "norm_item (demo_receipt h) ''transactionHash'' = Inr h" "norm_item (demo_receipt h) ''blockHash'' = Inr h"
    using assms(1) by (simp_all add: norm_item_def norm_text_def demo_receipt_def good_hash_def)
  have logs: "bindE (get_in (demo_receipt h) ''logs'' (PList [])) iter_of = Inr [demo_log h]"
    by (simp add: demo_receipt_def get_or_def)
  have d: "log_context_differs h (demo_receipt h) (demo_log h) = Inr False"
    using assms(1) h
    by (simp add: log_context_differs_def check_iff demo_log_def norm_get_def get_or_def norm_text_def good_hash_def
        int_get_def to_int_def)
       (simp add: int_item_def demo_receipt_def to_int_def)
  have "load_log h (demo_receipt h) (seen_log_indexes st) (demo_log h) = Inr (seen_log_indexes st @ [(h, 0)])"
    using assms(3) h
    by (simp add: load_log_def d demo_log_def get_or_def thenE_def require_def reject_if_def int_item_def to_int_def)
       (simp add: d [unfolded demo_log_def])
  then show ?thesis
    using assms demo_check_broadcast [OF assms(1)] h logs
    by (simp add: load_receipt_def thenE_def dset_fresh demo_entry_def del: item.simps)
       (simp add: dset_fresh)
qed

lemma demo_load_receipts:
  assumes "\<forall>h \<in> set hs. good_hash h \<and> map_of tbl h = Some (demo_tx h)"
    and "distinct (map fst (loaded st) @ hs)" and "seen_log_indexes st = map (\<lambda>he. (fst he, 0)) (loaded st)"
  shows "foldE (load_receipt grp tbl) st (map demo_receipt hs) =
    Inr (st\<lparr>loaded := loaded st @ map (\<lambda>h. (h, demo_entry grp h)) hs,
            seen_log_indexes := seen_log_indexes st @ map (\<lambda>h. (h, 0)) hs\<rparr>)"
  using assms
proof (induction hs arbitrary: st)
  case Nil
  then show ?case by simp
next
  case (Cons h hs)
  let ?s = "st\<lparr>loaded := loaded st @ [(h, demo_entry grp h)], seen_log_indexes := seen_log_indexes st @ [(h, 0)]\<rparr>"
  have "load_receipt grp tbl st (demo_receipt h) = Inr ?s"
    using Cons.prems by (intro demo_load_receipt) auto
  moreover have "foldE (load_receipt grp tbl) ?s (map demo_receipt hs) =
    Inr (?s\<lparr>loaded := loaded ?s @ map (\<lambda>h. (h, demo_entry grp h)) hs,
            seen_log_indexes := seen_log_indexes ?s @ map (\<lambda>h. (h, 0)) hs\<rparr>)"
    using Cons.prems by (intro Cons.IH) auto
  ultimately show ?case by simp
qed

lemma demo_load_group:
  assumes "json_loads demo_lib (''broadcast/'' @ grp @ ''.json'') = Some (demo_broadcast ns)"
    and "\<forall>n \<in> set ns. n < 256" and "distinct ns" and "seen_log_indexes st = map (\<lambda>he. (fst he, 0)) (loaded st)"
    and "map fst (loaded st) = map demo_hash ms" and "distinct (ms @ ns)" and "\<forall>m \<in> set ms. m < 256"
  shows "\<exists>srcs. load_group demo_lib Some st grp =
    Inr (st\<lparr>loaded := loaded st @ map (\<lambda>n. (demo_hash n, demo_entry grp (demo_hash n))) ns,
            source_files := srcs, seen_log_indexes := seen_log_indexes st @ map (\<lambda>n. (demo_hash n, 0)) ns\<rparr>)"
proof -
  let ?hs = "map demo_hash ns"
  let ?tbl = "dupdate [] (zip ?hs (map (demo_tx \<circ> demo_hash) ns))"
  have inj: "inj_on demo_hash {..<256}" using demo_hash_inject by (auto intro: inj_onI)
  have dist: "distinct (map demo_hash (ms @ ns))"
  proof -
    have "set (ms @ ns) \<subseteq> {..<256}" using assms(2,7) by auto
    then have "inj_on demo_hash (set (ms @ ns))" by (rule inj_on_subset [OF inj])
    with assms(6) show ?thesis by (simp only: distinct_map)
  qed
  have tbl: "?tbl = map (\<lambda>n. (demo_hash n, demo_tx (demo_hash n))) ns"
    using dist by (subst dupdate_fresh) (auto simp: zip_map_map zip_same_conv_map comp_def)
  have good: "\<forall>h \<in> set ?hs. good_hash h \<and> map_of ?tbl h = Some (demo_tx h)"
  proof
    fix h assume "h \<in> set ?hs"
    moreover have "distinct (map fst ?tbl)" using dist by (simp only: tbl) (simp add: comp_def)
    ultimately show "good_hash h \<and> map_of ?tbl h = Some (demo_tx h)"
      using assms(2) good_demo_hash by (auto simp: tbl intro!: map_of_is_SomeI)
  qed
  have hashes: "mapE (\<lambda>row. norm_item row ''hash'') (map (demo_tx \<circ> demo_hash) ns) = Inr ?hs"
    "mapE (\<lambda>row. norm_item row ''transactionHash'') (map (demo_receipt \<circ> demo_hash) ns) = Inr ?hs"
    using good by (simp_all add: mapE_Inr_iff list_all2_conv_all_nth norm_item_def norm_text_def demo_tx_def
        demo_receipt_def good_hash_def)
  have checked: "checks (map (\<lambda>h. ignoreE (fixed_hex_bytes (PStr h) 32 ''transaction hash'')) ?hs) = Inr ()"
    using good by (simp add: checks_Inr_iff list_all_iff good_hash_def)
  have run: "foldE (load_receipt grp ?tbl) (st\<lparr>source_files := srcs\<rparr>) (map demo_receipt ?hs) =
    Inr (st\<lparr>loaded := loaded st @ map (\<lambda>n. (demo_hash n, demo_entry grp (demo_hash n))) ns,
            source_files := srcs, seen_log_indexes := seen_log_indexes st @ map (\<lambda>n. (demo_hash n, 0)) ns\<rparr>)" for srcs
    using demo_load_receipts [OF good, of "st\<lparr>source_files := srcs\<rparr>" grp] dist assms(4,5) by (simp add: comp_def)
  have src: "runner_source demo_lib Some grp (demo_broadcast ns) = Inr []"
    by (simp add: runner_source_def demo_broadcast_def get_or_def)
  have rj: "read_json demo_lib Some (''broadcast/'' @ grp @ ''.json'') = Inr (demo_broadcast ns)"
    using assms(1) by (simp add: read_json_def)
  have rows: "get_none (demo_broadcast ns) ''transactions'' = Inr (PList (map (demo_tx \<circ> demo_hash) ns))"
    "get_none (demo_broadcast ns) ''receipts'' = Inr (PList (map (demo_receipt \<circ> demo_hash) ns))"
    by (simp_all add: demo_broadcast_def get_or_def)
  have im: "identities_match ?hs ?hs" using dist by (simp add: identities_match_def)
  show ?thesis
    unfolding load_group_def rj bindE_simps rows src is_list.simps list_of.simps hashes checked thenE_def require_def
    using run im by (simp add: comp_def) blast
qed

definition demo_txs :: "string \<Rightarrow> tx_map" where
  "demo_txs grp = map (\<lambda>n. (demo_hash n, demo_entry grp (demo_hash n))) (demo_group_rows grp)"

definition demo_loaded :: tx_map where
  "demo_loaded = concat (map demo_txs groups)"

lemma demo_load_step:
  assumes "grp \<in> set groups" and "map fst (loaded st) = map demo_hash [0..<fst (demo_bounds grp)]"
    and "seen_log_indexes st = map (\<lambda>he. (fst he, 0)) (loaded st)"
  shows "\<exists>st'. load_group demo_lib Some st grp = Inr st' \<and> loaded st' = loaded st @ demo_txs grp
    \<and> seen_log_indexes st' = map (\<lambda>he. (fst he, 0)) (loaded st')
    \<and> map fst (loaded st') = map demo_hash [0..<snd (demo_bounds grp)]"
proof -
  have doc: "json_loads demo_lib (''broadcast/'' @ grp @ ''.json'') = Some (demo_broadcast (demo_group_rows grp))"
    using assms(1) by (auto simp: demo_lib_def demo_loads_def groups_def)
  obtain m n where mn: "demo_bounds grp = (m, n)" by (cases "demo_bounds grp")
  then have le: "m \<le> n" "n < 256" by (auto simp: demo_bounds_def split: if_splits)
  have rows: "demo_group_rows grp = [m..<n]" by (simp add: demo_group_rows_def mn)
  have all: "[0..<m] @ [m..<n] = [0..<n]" using le upt_add_eq_append [of 0 m "n - m"] by simp
  have "\<exists>srcs. load_group demo_lib Some st grp =
    Inr (st\<lparr>loaded := loaded st @ map (\<lambda>n. (demo_hash n, demo_entry grp (demo_hash n))) [m..<n],
            source_files := srcs, seen_log_indexes := seen_log_indexes st @ map (\<lambda>n. (demo_hash n, 0)) [m..<n]\<rparr>)"
    using doc [unfolded rows] assms(2,3) le
    by (intro demo_load_group [where ms = "[0..<m]"]) (simp_all add: mn all del: distinct_append)
  moreover have "map demo_hash [0..<m] @ map demo_hash [m..<n] = map demo_hash [0..<n]"
    by (simp only: all flip: map_append)
  ultimately show ?thesis using assms(2,3) by (auto simp: demo_txs_def rows mn comp_def)
qed

lemma demo_load: "\<exists>srcs. load_receipts demo_lib Some = Inr (demo_loaded, srcs)"
proof -
  have bounds: "demo_bounds ''deployment'' = (0, 11)" "demo_bounds ''funding'' = (11, 21)"
    "demo_bounds ''activation'' = (21, 31)" "demo_bounds ''withdrawals'' = (31, 41)"
    by (simp_all add: demo_bounds_def)
  have grp: "''deployment'' \<in> set groups" "''funding'' \<in> set groups" "''activation'' \<in> set groups"
    "''withdrawals'' \<in> set groups" by (simp_all add: groups_def)
  have start: "map fst (loaded empty_load) = map demo_hash [0..<0]"
    "seen_log_indexes empty_load = map (\<lambda>he. (fst he, 0)) (loaded empty_load)" by (simp_all add: empty_load_def)
  from demo_load_step [OF grp(1), unfolded bounds fst_conv snd_conv, OF start] obtain s1 where
    s1: "load_group demo_lib Some empty_load ''deployment'' = Inr s1" "loaded s1 = loaded empty_load @ demo_txs ''deployment''"
    "map fst (loaded s1) = map demo_hash [0..<11]" "seen_log_indexes s1 = map (\<lambda>he. (fst he, 0)) (loaded s1)" by blast
  from demo_load_step [OF grp(2), unfolded bounds fst_conv snd_conv, OF s1(3,4)] obtain s2 where
    s2: "load_group demo_lib Some s1 ''funding'' = Inr s2" "loaded s2 = loaded s1 @ demo_txs ''funding''"
    "map fst (loaded s2) = map demo_hash [0..<21]" "seen_log_indexes s2 = map (\<lambda>he. (fst he, 0)) (loaded s2)" by blast
  from demo_load_step [OF grp(3), unfolded bounds fst_conv snd_conv, OF s2(3,4)] obtain s3 where
    s3: "load_group demo_lib Some s2 ''activation'' = Inr s3" "loaded s3 = loaded s2 @ demo_txs ''activation''"
    "map fst (loaded s3) = map demo_hash [0..<31]" "seen_log_indexes s3 = map (\<lambda>he. (fst he, 0)) (loaded s3)" by blast
  from demo_load_step [OF grp(4), unfolded bounds fst_conv snd_conv, OF s3(3,4)] obtain s4 where
    s4: "load_group demo_lib Some s3 ''withdrawals'' = Inr s4" "loaded s4 = loaded s3 @ demo_txs ''withdrawals''"
    "map fst (loaded s4) = map demo_hash [0..<41]" by blast
  have "loaded s4 = demo_loaded"
    using s1 s2 s3 s4 by (simp add: demo_loaded_def groups_def empty_load_def)
  moreover have "length (loaded s4) = 41" using arg_cong [OF s4(3), of length] by (simp only: length_map length_upt)
  ultimately show ?thesis
    using s1(1) s2(1) s3(1) s4(1) by (simp add: load_receipts_def groups_def thenE_def require_def)
qed

section \<open>Loaded receipts are bound\<close>

text \<open>
  C21: when the broadcasts load, there are exactly 41 transactions with pairwise different hashes; each
  pairs a receipt of status 0x1 with the transaction of its own hash, every log of a receipt names that
  receipt's transaction, block and position, and no two logs of the execution share block and log index.
\<close>

theorem loaded_receipts_bound:
  assumes "load_receipts L raw = Inr (txs, srcs)"
  shows "length txs = 41 \<and> distinct (map fst txs) \<and> list_all (\<lambda>(h, e). entry_bound h e) txs
    \<and> distinct (all_log_ids txs)"
proof -
  from assms obtain st where st: "foldE (load_group L raw) empty_load groups = Inr st"
    and txs: "txs = loaded st" "length txs = 41"
    by (auto simp: load_receipts_def bindE_Inr_iff check_iff)
  from load_groups_inv [OF st] txs show ?thesis by (auto simp: load_inv_def list_all_iff)
qed

theorem loaded_receipts_bound_witness:
  "length demo_loaded = 41 \<and> distinct (map fst demo_loaded) \<and> list_all (\<lambda>(h, e). entry_bound h e) demo_loaded
    \<and> distinct (all_log_ids demo_loaded)"
  using demo_load loaded_receipts_bound by blast

end
