(* ===== verification/Execution_Bindings.thy ===== *)
theory Execution_Bindings
  imports Execution_Receipts
begin

text \<open>
  Binding the observed transfers to the calls that caused them (\<^verbatim>\<open>_verify_economic_transaction_bindings\<close>
  of \<^verbatim>\<open>scripts/forensic/pro28_receipts.py\<close>): the sponsor's deposit, the operator's funding call and the
  three withdrawals, each opened from its ABI-encoded call data; and the ABI encoder of the proof
  verifier's call.
\<close>

section \<open>Words\<close>

text \<open>\<^verbatim>\<open>n.to_bytes(32, "big")\<close> for a value below \<open>2 ^ 256\<close>, and the address in its last 20 bytes.\<close>

definition word_bytes :: "nat \<Rightarrow> bytes" where
  "word_bytes n = replicate (32 - length (nat_be n)) 0 @ nat_be n"

definition abi_word :: "nat \<Rightarrow> ev_error + bytes" where
  "abi_word n =
     (if 2 ^ 256 \<le> n then evidence_error ''ABI word value is outside uint256 range'' else Inr (word_bytes n))"

definition word_address :: "nat \<Rightarrow> string" where
  "word_address n = ''0x'' @ to_hex (drop 12 (word_bytes n))"

text \<open>\<^verbatim>\<open>bytes.decode("utf-8")\<close> as code points; \<open>None\<close> is \<^verbatim>\<open>UnicodeDecodeError\<close>.\<close>

definition utf8_tail :: "nat \<Rightarrow> bool" where
  "utf8_tail b \<longleftrightarrow> 0x80 \<le> b \<and> b < 0xC0"

fun utf8_decode :: "nat list \<Rightarrow> nat list option" where
  "utf8_decode [] = Some []"
| "utf8_decode (a # bs) =
     (if a < 0x80 then map_option (Cons a) (utf8_decode bs)
      else case bs of
        [] \<Rightarrow> None
      | b # cs \<Rightarrow>
          if \<not> utf8_tail b then None
          else if 0xC2 \<le> a \<and> a < 0xE0
          then map_option (Cons ((a - 0xC0) * 64 + (b - 0x80))) (utf8_decode cs)
          else case cs of
            [] \<Rightarrow> None
          | c # ds \<Rightarrow>
              if \<not> utf8_tail c then None
              else if 0xE0 \<le> a \<and> a < 0xF0
              then let p = (a - 0xE0) * 4096 + (b - 0x80) * 64 + (c - 0x80)
                   in if p < 0x800 \<or> (0xD800 \<le> p \<and> p < 0xE000) then None
                      else map_option (Cons p) (utf8_decode ds)
              else case ds of
                [] \<Rightarrow> None
              | d # es \<Rightarrow>
                  if \<not> utf8_tail d \<or> a < 0xF0 \<or> 0xF4 < a then None
                  else let p = (a - 0xF0) * 262144 + (b - 0x80) * 4096 + (c - 0x80) * 64 + (d - 0x80)
                       in if p < 0x10000 \<or> 0x10FFFF < p then None
                          else map_option (Cons p) (utf8_decode es))"

section \<open>Events and rows\<close>

definition row_for :: "tx_map \<Rightarrow> transfer \<Rightarrow> ev_error + tx_entry" where
  "row_for txs ev =
     (case map_of txs (tr_hash ev) of
        None \<Rightarrow> evidence_error ''economic event references an unknown transaction''
      | Some e \<Rightarrow> Inr e)"

fun filterE :: "('a \<Rightarrow> 'e + bool) \<Rightarrow> 'a list \<Rightarrow> 'e + 'a list" where
  "filterE f [] = Inr []"
| "filterE f (x # xs) =
     bindE (f x) (\<lambda>b. bindE (filterE f xs) (\<lambda>ys. Inr (if b then x # ys else ys)))"

text \<open>The logs a contract emitted under one event signature.\<close>

definition event_logs :: "pv \<Rightarrow> string \<Rightarrow> string \<Rightarrow> ev_error + pv list" where
  "event_logs receipt emitter topic =
     bindE (bindE (get_in receipt ''logs'' (PList [])) iter_of) (filterE (\<lambda>log.
       bindE (norm_get log ''address'') (\<lambda>a.
       if a = emitter
       then eqE (bindE (bindE (get_in log ''topics'' (PList [PStr []])) (\<lambda>ts. nth_item ts 0)) norm_text) (Inr topic)
       else Inr False)))"

definition topic_count_differs :: "pv \<Rightarrow> nat \<Rightarrow> ev_error + bool" where
  "topic_count_differs log n = neqE (bindE (get_in log ''topics'' (PList [])) len_of) (Inr n)"

definition topic_at :: "pv \<Rightarrow> nat \<Rightarrow> ev_error + string" where
  "topic_at log i = bindE (bindE (item log ''topics'') (\<lambda>ts. nth_item ts i)) norm_text"

definition data_int :: "pv \<Rightarrow> ev_error + int" where
  "data_int log = bindE (get_in log ''data'' (PStr ''0x0'')) to_int"

definition selector_is :: "bytes \<Rightarrow> string \<Rightarrow> bool" where
  "selector_is cd sel \<longleftrightarrow> to_hex (take 4 cd) = sel"

section \<open>The sponsor's deposit\<close>

definition deposit_topic :: string where
  "deposit_topic = ''0x2da466a7b24304f47e87fa2e1e5a81b9831ce54fec19055ce277ca2f39ba42c4''"

definition deposit_bound :: "tx_map \<Rightarrow> string \<Rightarrow> string \<Rightarrow> transfer \<Rightarrow> ev_error + unit" where
  "deposit_bound txs sponsor reserve dep =
     bindE (row_for txs dep) (\<lambda>row.
     bindE (call_data row) (\<lambda>(tx, cd).
     thenE (reject_if (anyE
         [Inr (entry_group row \<noteq> ''deployment''),
          neqE (norm_get tx ''from'') (Inr sponsor),
          neqE (norm_get tx ''to'') (Inr reserve),
          Inr (\<not> selector_is cd ''b6b55f25''),
          Inr (length cd \<noteq> 36),
          neqE (calldata_word cd 4) (Inr (tr_amount dep))])
         ''sponsor deposit log is not bound to the matching reserve.deposit(amount) call'')
    (bindE (event_logs (entry_receipt row) reserve deposit_topic) (\<lambda>logs.
       reject_if (anyE
         [Inr (length logs \<noteq> 1),
          topic_count_differs (hd logs) 2,
          bindE (topic_at (hd logs) 1) (\<lambda>t. Inr (\<not> ends_with (drop 2 sponsor) t)),
          neqE (data_int (hd logs)) (Inr (int (tr_amount dep)))])
         ''reserve deposit call lacks its matching Deposited(from, amount) event''))))"

section \<open>The operator's funding\<close>

definition ratified_topic :: string where
  "ratified_topic = ''0xcf3311c8bdef5e68826cabf9475980bb15b15f4b9d1bfdfc3308b1be90de815c''"

definition is_binding_call :: "tx_entry \<Rightarrow> ev_error + bool" where
  "is_binding_call e =
     (if entry_group e = ''funding'' then bindE (call_data e) (\<lambda>(tx, cd). Inr (selector_is cd ''28bf4b07''))
      else Inr False)"

definition funding_bound :: "tx_map \<Rightarrow> pv \<Rightarrow> pv \<Rightarrow> transfer \<Rightarrow> ev_error + unit" where
  "funding_bound txs manifest contracts fund =
     bindE (row_for txs fund) (\<lambda>row.
     bindE (call_data row) (\<lambda>(tx, cd).
     bindE (filterE is_binding_call (map snd txs)) (\<lambda>binding_calls.
     thenE (require (length binding_calls = 1)
              ''funding evidence lacks exactly one execution-caller binding call'')
    (bindE (call_data (hd binding_calls)) (\<lambda>(btx, bcd).
     bindE (calldata_word bcd 4) (\<lambda>op.
     thenE (reject_if (anyE
         [neqE (norm_get btx ''to'') (norm_item contracts ''ratificationController''),
          Inr (length bcd \<noteq> 36),
          neqE (norm_get tx ''to'') (Inr (lower (word_address op))),
          Inr (\<not> selector_is cd ''9a5a276f''),
          Inr (length cd \<noteq> 68),
          neqE (bindE (calldata_word cd 4) (\<lambda>n. Inr (int n))) (bindE (item manifest ''reserveStateCommitment'') int16),
          neqE (bindE (calldata_word cd 36) (\<lambda>n. Inr (lower (word_address n))))
            (bindE (item manifest ''localOnly'') (\<lambda>l. norm_item l ''residualRecipient''))])
         ''allocator funding log is not bound to the prepared operation's fund call'')
    (bindE (norm_item contracts ''ratificationController'') (\<lambda>ctl.
     bindE (event_logs (entry_receipt row) ctl ratified_topic) (\<lambda>logs.
       reject_if (anyE
         [Inr (length logs \<noteq> 1),
          topic_count_differs (hd logs) 3,
          neqE (topic_at (hd logs) 1) (norm_item manifest ''operationId''),
          neqE (data_int (hd logs)) (Inr (int (tr_amount fund)))])
         ''allocator funding receipt lacks the operation-bound ratification event'')))))))))"

section \<open>The withdrawals\<close>

record claim_event =
  claim_id :: string
  claim_beneficiary :: string
  claim_amount :: nat
  claim_transfer :: transfer

definition claim_indices :: "(string \<times> nat) list" where
  "claim_indices = [(''claim-a'', 0), (''claim-b'', 1), (''claim-c'', 2)]"

text \<open>The opening of a withdraw call: claim index, identity, beneficiary and amount.\<close>

record claim_opening =
  open_index :: nat
  open_id :: "nat list"
  open_beneficiary :: string
  open_amount :: nat

definition claim_identity :: "bytes \<Rightarrow> nat \<Rightarrow> nat \<Rightarrow> ev_error + nat list" where
  "claim_identity cd start off =
     (let cs = start + off
      in bindE (calldata_word cd cs) (\<lambda>len.
         thenE (require (len \<le> 128 \<and> cs + 32 + len \<le> length cd) ''withdraw claim identity bytes are malformed'')
           (case utf8_decode (map unat (take len (drop (cs + 32) cd))) of
              None \<Rightarrow> evidence_error ''claim transaction identity is not UTF-8''
            | Some cp \<Rightarrow> Inr cp)))"

definition open_withdraw :: "bytes \<Rightarrow> ev_error + claim_opening" where
  "open_withdraw cd =
     bindE (calldata_word cd 36) (\<lambda>toff.
     thenE (require (toff mod 32 = 0) ''withdraw source tuple offset is noncanonical'')
    (let start = 4 + toff
     in bindE (calldata_word cd start) (\<lambda>idx.
        bindE (calldata_word cd (start + 32)) (\<lambda>boff.
        bindE (calldata_word cd (start + 64)) (\<lambda>bw.
        thenE (require (take 12 (word_bytes bw) = replicate 12 0)
                 ''withdraw beneficiary address is not canonically ABI-padded'')
       (bindE (calldata_word cd (start + 96)) (\<lambda>amt.
        thenE (require (boff mod 32 = 0) ''withdraw claim-bytes offset is noncanonical'')
       (bindE (claim_identity cd start boff) (\<lambda>cid.
          Inr \<lparr>open_index = idx, open_id = cid, open_beneficiary = word_address bw, open_amount = amt\<rparr>)))))))))"

definition opening_matches :: "string \<Rightarrow> claim_event \<Rightarrow> claim_opening \<Rightarrow> bool" where
  "opening_matches allocator claim o' \<longleftrightarrow>
     open_id o' = map of_char (claim_id claim)
     \<and> Some (open_index o') = map_of claim_indices (claim_id claim)
     \<and> lower (open_beneficiary o') = claim_beneficiary claim
     \<and> open_amount o' = claim_amount claim
     \<and> lower (tr_from (claim_transfer claim)) = allocator
     \<and> lower (tr_to (claim_transfer claim)) = claim_beneficiary claim"

definition claim_bound :: "tx_map \<Rightarrow> string \<Rightarrow> int \<Rightarrow> claim_event \<Rightarrow> ev_error + unit" where
  "claim_bound txs allocator operation_id claim =
     bindE (row_for txs (claim_transfer claim)) (\<lambda>row.
     bindE (call_data row) (\<lambda>(tx, cd).
     thenE (reject_if (anyE
         [Inr (entry_group row \<noteq> ''withdrawals''),
          neqE (norm_get tx ''to'') (Inr allocator),
          Inr (\<not> selector_is cd ''7c365406''),
          neqE (bindE (calldata_word cd 4) (\<lambda>n. Inr (int n))) (Inr operation_id)])
         ''claim payout is not bound to the matching allocator.withdraw call'')
    (bindE (open_withdraw cd) (\<lambda>o'.
       require (opening_matches allocator claim o')
         ''claim transaction opening differs from the observed payout identity''))))"

definition verify_economic_transaction_bindings ::
  "tx_map \<Rightarrow> pv \<Rightarrow> transfer \<Rightarrow> transfer \<Rightarrow> claim_event list \<Rightarrow> ev_error + unit" where
  "verify_economic_transaction_bindings txs manifest dep fund claims =
     bindE (item manifest ''contracts'') (\<lambda>contracts.
     bindE (norm_item manifest ''deployer'') (\<lambda>sponsor.
     bindE (norm_item contracts ''reserve'') (\<lambda>reserve.
     bindE (norm_item contracts ''allocator'') (\<lambda>allocator.
     bindE (bindE (item manifest ''operationId'') int16) (\<lambda>operation_id.
       checks ([deposit_bound txs sponsor reserve dep, funding_bound txs manifest contracts fund]
               @ map (claim_bound txs allocator operation_id) claims))))))"

section \<open>The proof verifier's call\<close>

definition abi_dynamic :: "bytes \<Rightarrow> ev_error + bytes" where
  "abi_dynamic v =
     bindE (abi_word (length v)) (\<lambda>w. Inr (w @ v @ replicate ((32 - length v mod 32) mod 32) 0))"

definition verify_selector :: bytes where
  "verify_selector = [0x41, 0x49, 0x3c, 0x60]"

definition sp1_verify_calldata :: "string \<Rightarrow> bytes \<Rightarrow> bytes \<Rightarrow> ev_error + string" where
  "sp1_verify_calldata vkey public_values proof =
     (case fromhex (removeprefix ''0x'' vkey) of
        None \<Rightarrow> evidence_error ''Groth16 VKey is not hexadecimal''
      | Some key \<Rightarrow>
          thenE (require (length key = 32) ''Groth16 VKey must be exactly bytes32'')
         (bindE (abi_dynamic public_values) (\<lambda>pv.
          bindE (abi_word 96) (\<lambda>w1.
          bindE (abi_word (96 + length pv)) (\<lambda>w2.
          bindE (abi_dynamic proof) (\<lambda>pf.
            Inr (''0x'' @ to_hex (verify_selector @ key @ w1 @ w2 @ pv @ pf))))))))"

end
