(* ===== verification/Call_Data_Proofs.thy ===== *)
theory Call_Data_Proofs
  imports Execution_Bindings
begin

text \<open>
  Call data is read back as it was encoded: words at their offsets, dynamic byte strings behind their
  offset and length, and the arguments of a canonical withdraw call.
\<close>

section \<open>Words at offsets\<close>

lemma be_nat_zeros: "be_nat (replicate k 0 @ bs) = be_nat bs"
proof (induction bs rule: rev_induct)
  case Nil
  have "be_nat (replicate k 0) = 0"
  proof (induction k)
    case (Suc k)
    have "replicate (Suc k) (0 :: byte) = replicate k 0 @ [0]" by (simp add: replicate_append_same)
    with Suc show ?case by (simp only: be_nat_snoc) simp
  qed simp
  then show ?case by simp
next
  case (snoc b bs)
  then show ?case using be_nat_snoc [of "replicate k 0 @ bs" b] by simp
qed

lemma length_nat_be: "n < 256 ^ k \<Longrightarrow> length (nat_be n) \<le> k"
proof (induction k arbitrary: n)
  case 0
  then show ?case by simp
next
  case (Suc k)
  show ?case
  proof (cases "n = 0")
    case False
    have "n div 256 < 256 ^ k" using Suc.prems by (simp add: less_mult_imp_div_less mult.commute)
    with Suc.IH False show ?thesis by (simp add: nat_be_pos)
  qed simp
qed

lemma power_256: "(2 :: nat) ^ 256 = 256 ^ 32" "(2 :: nat) ^ 160 = 256 ^ 20"
  by simp_all

lemma length_word_bytes [simp]: "n < 2 ^ 256 \<Longrightarrow> length (word_bytes n) = 32"
  using length_nat_be [of n 32] by (simp only: power_256 word_bytes_def length_append length_replicate) simp

lemma be_nat_word_bytes [simp]: "be_nat (word_bytes n) = n"
  by (simp add: word_bytes_def be_nat_zeros)

lemma word_bytes_address: "n < 2 ^ 160 \<Longrightarrow> take 12 (word_bytes n) = replicate 12 0"
  using length_nat_be [of n 20] by (simp only: power_256 word_bytes_def) (simp add: min_def)

lemma calldata_word_at: "n < 2 ^ 256 \<Longrightarrow> length pre = off \<Longrightarrow> calldata_word (pre @ word_bytes n @ post) off = Inr n"
  by (auto simp: calldata_word_def)

lemma calldata_words:
  "list_all (\<lambda>n. n < 2 ^ 256) ns \<Longrightarrow> i < length ns \<Longrightarrow> off = length pre + 32 * i \<Longrightarrow>
     calldata_word (pre @ concat (map word_bytes ns) @ post) off = Inr (ns ! i)"
proof (induction ns arbitrary: i pre off)
  case Nil
  then show ?case by simp
next
  case (Cons n ns)
  show ?case
  proof (cases i)
    case 0
    with Cons.prems show ?thesis
      using calldata_word_at [of n pre off "concat (map word_bytes ns) @ post"] by simp
  next
    case (Suc j)
    with Cons.prems Cons.IH [of j off "pre @ word_bytes n"] show ?thesis by simp
  qed
qed

section \<open>Dynamic byte strings\<close>

text \<open>Reading a dynamic argument the ABI way: offset, length, bytes.\<close>

definition read_dynamic :: "bytes \<Rightarrow> nat \<Rightarrow> ev_error + bytes" where
  "read_dynamic cd off =
     bindE (calldata_word cd off) (\<lambda>p.
     bindE (calldata_word cd (4 + p)) (\<lambda>n.
       if length cd < 4 + p + 32 + n then evidence_error ''transaction calldata is truncated''
       else Inr (take n (drop (4 + p + 32) cd))))"

lemma abi_word_Inr_iff: "abi_word n = Inr w \<longleftrightarrow> n < 2 ^ 256 \<and> w = word_bytes n"
  by (auto simp: abi_word_def)

lemma abi_dynamic_Inr_iff:
  "abi_dynamic v = Inr d \<longleftrightarrow>
     length v < 2 ^ 256 \<and> d = word_bytes (length v) @ v @ replicate ((32 - length v mod 32) mod 32) 0"
  by (auto simp: abi_dynamic_def bindE_Inr_iff abi_word_Inr_iff)

lemma read_dynamic_at:
  assumes "calldata_word cd off = Inr p" and "cd = pre @ word_bytes (length v) @ v @ post"
    and "length pre = 4 + p" and "length v < 2 ^ 256"
  shows "read_dynamic cd off = Inr v"
  using assms(1) calldata_word_at [OF assms(4,3), of "v @ post"] assms(3,4)
  by (simp add: read_dynamic_def assms(2))

text \<open>
  The call data built for the pinned proof verifier carries the verification key, the public values
  and the proof unchanged: after the selector comes the key, and the ABI reader recovers both byte
  strings from their offsets.
\<close>

theorem sp1_calldata_roundtrip:
  assumes "sp1_verify_calldata vkey public_values proof = Inr s"
  shows "\<exists>cd key. s = ''0x'' @ to_hex cd \<and> fromhex (removeprefix ''0x'' vkey) = Some key
    \<and> take 4 cd = verify_selector \<and> take 32 (drop 4 cd) = key
    \<and> read_dynamic cd 36 = Inr public_values \<and> read_dynamic cd 68 = Inr proof"
proof -
  from assms obtain key pv pf where
    key: "fromhex (removeprefix ''0x'' vkey) = Some key" "length key = 32"
    and pv: "abi_dynamic public_values = Inr pv" and pf: "abi_dynamic proof = Inr pf"
    and off: "96 + length pv < 2 ^ 256"
    and s: "s = ''0x'' @ to_hex (verify_selector @ key @ word_bytes 96 @ word_bytes (96 + length pv) @ pv @ pf)"
    by (auto simp: sp1_verify_calldata_def bindE_Inr_iff check_iff abi_word_Inr_iff split: option.splits)
  let ?cd = "verify_selector @ key @ word_bytes 96 @ word_bytes (96 + length pv) @ pv @ pf"
  have sel: "length verify_selector = 4" by (simp add: verify_selector_def)
  have l96: "length (word_bytes 96) = 32" by simp
  have lp: "length (word_bytes (96 + length pv)) = 32" using off by simp
  have w1: "calldata_word ?cd 36 = Inr 96"
    using calldata_word_at [of 96 "verify_selector @ key" 36] sel key(2) by simp
  have w2: "calldata_word ?cd 68 = Inr (96 + length pv)"
    using calldata_word_at [OF off, of "verify_selector @ key @ word_bytes 96" 68] sel key(2) l96 by simp
  from pv pf have dyn: "length public_values < 2 ^ 256" "length proof < 2 ^ 256"
    "\<exists>post. pv = word_bytes (length public_values) @ public_values @ post"
    "\<exists>post. pf = word_bytes (length proof) @ proof @ post"
    by (auto simp: abi_dynamic_Inr_iff)
  from dyn(3) obtain p1 where p1: "pv = word_bytes (length public_values) @ public_values @ p1" ..
  from dyn(4) obtain p2 where p2: "pf = word_bytes (length proof) @ proof @ p2" ..
  have "read_dynamic ?cd 36 = Inr public_values"
    using sel key(2) l96 lp dyn(1) p1
    by (intro read_dynamic_at [OF w1, where pre = "verify_selector @ key @ word_bytes 96 @ word_bytes (96 + length pv)"
          and post = "p1 @ pf"]) simp_all
  moreover have "read_dynamic ?cd 68 = Inr proof"
    using sel key(2) l96 lp dyn(2) p2
    by (intro read_dynamic_at [OF w2, where pre = "verify_selector @ key @ word_bytes 96 @ word_bytes (96 + length pv) @ pv"
          and post = p2]) simp_all
  moreover have "take 4 ?cd = verify_selector" "take 32 (drop 4 ?cd) = key" using sel key(2) by simp_all
  ultimately show ?thesis using s key(1) by blast
qed

lemma removeprefix_append [simp]: "removeprefix p (p @ s) = s"
  by (simp add: removeprefix_def starts_with_def)

lemma sp1_calldata_exists:
  assumes "length key = 32" and "length public_values < 2 ^ 128" and "length proof < 2 ^ 128"
  shows "\<exists>s. sp1_verify_calldata (''0x'' @ to_hex key) public_values proof = Inr s"
proof -
  have dyn: "abi_dynamic v = Inr (word_bytes (length v) @ v @ replicate ((32 - length v mod 32) mod 32) 0)"
    if "length v < 2 ^ 128" for v using that by (simp add: abi_dynamic_Inr_iff)
  have "96 + (length (word_bytes (length public_values)) + (length public_values + (32 - length public_values mod 32) mod 32))
    < 2 ^ 256" using assms(2) by simp
  then show ?thesis
    using assms dyn
    by (simp add: sp1_verify_calldata_def removeprefix_append [of "''0x''", simplified] thenE_def require_def abi_word_def)
qed

theorem sp1_calldata_roundtrip_witness:
  "\<exists>s. sp1_verify_calldata (''0x'' @ to_hex (replicate 32 0xab)) [1, 2, 3] [4] = Inr s \<and>
    (\<exists>cd key. s = ''0x'' @ to_hex cd \<and> fromhex (removeprefix ''0x'' (''0x'' @ to_hex (replicate 32 0xab))) = Some key
    \<and> take 4 cd = verify_selector \<and> take 32 (drop 4 cd) = key
    \<and> read_dynamic cd 36 = Inr [1, 2, 3] \<and> read_dynamic cd 68 = Inr [4])"
proof -
  have "length (replicate 32 0xab :: bytes) = 32" "length [1, 2, 3 :: byte] < 2 ^ 128" "length [4 :: byte] < 2 ^ 128"
    by simp_all
  from sp1_calldata_exists [OF this] obtain s
    where s: "sp1_verify_calldata (''0x'' @ to_hex (replicate 32 0xab)) [1, 2, 3] [4] = Inr s" ..
  show ?thesis by (rule exI, rule conjI [OF s sp1_calldata_roundtrip [OF s]])
qed

section \<open>The arguments of a withdraw call\<close>

definition withdraw_selector :: bytes where
  "withdraw_selector = [0x7c, 0x36, 0x54, 0x06]"

text \<open>The canonical ABI encoding of \<^verbatim>\<open>withdraw(operation, (index, claim, beneficiary, amount))\<close>.\<close>

definition withdraw_call :: "nat \<Rightarrow> nat \<Rightarrow> bytes \<Rightarrow> nat \<Rightarrow> nat \<Rightarrow> bytes" where
  "withdraw_call op idx cid ben amt =
     withdraw_selector @ concat (map word_bytes [op, 64, idx, 128, ben, amt, length cid])
     @ cid @ replicate ((32 - length cid mod 32) mod 32) 0"

lemma utf8_decode_ascii: "list_all (\<lambda>a. a < 0x80) as \<Longrightarrow> utf8_decode as = Some as"
  by (induction as) auto

lemma selector_withdraw: "selector_is (withdraw_call op idx cid ben amt) ''7c365406''"
proof -
  have "to_hex withdraw_selector = ''7c365406''" by code_simp
  moreover have "take 4 (withdraw_call op idx cid ben amt) = withdraw_selector"
    by (simp add: withdraw_call_def withdraw_selector_def)
  ultimately show ?thesis by (simp add: selector_is_def)
qed

lemma withdraw_words:
  assumes "list_all (\<lambda>n. n < 2 ^ 256) [op, idx, ben, amt]" and "length cid \<le> 128"
    and "i < 7" and "off = 4 + 32 * i"
  shows "calldata_word (withdraw_call op idx cid ben amt) off = Inr ([op, 64, idx, 128, ben, amt, length cid] ! i)"
proof -
  have "length cid < 2 ^ 256" using assms(2) by simp
  then show ?thesis
    unfolding withdraw_call_def using assms
    by (intro calldata_words) (simp_all add: withdraw_selector_def)
qed

lemma open_withdraw_call:
  assumes "list_all (\<lambda>n. n < 2 ^ 256) [op, idx, ben, amt]" and "ben < 2 ^ 160" and "length cid \<le> 128"
    and ascii: "list_all (\<lambda>b. unat b < 0x80) cid"
  shows "open_withdraw (withdraw_call op idx cid ben amt) =
    Inr \<lparr>open_index = idx, open_id = map unat cid, open_beneficiary = word_address ben, open_amount = amt\<rparr>"
proof -
  let ?cd = "withdraw_call op idx cid ben amt"
  have w: "calldata_word ?cd 36 = Inr 64" "calldata_word ?cd 68 = Inr idx" "calldata_word ?cd 100 = Inr 128"
    "calldata_word ?cd 132 = Inr ben" "calldata_word ?cd 164 = Inr amt" "calldata_word ?cd 196 = Inr (length cid)"
    using withdraw_words [OF assms(1,3), of 1] withdraw_words [OF assms(1,3), of 2] withdraw_words [OF assms(1,3), of 3]
      withdraw_words [OF assms(1,3), of 4] withdraw_words [OF assms(1,3), of 5] withdraw_words [OF assms(1,3), of 6]
    by simp_all
  have head: "length (withdraw_selector @ concat (map word_bytes [op, 64, idx, 128, ben, amt, length cid])) = 228"
    using assms(1,3) by (simp add: withdraw_selector_def)
  then have body: "take (length cid) (drop 228 ?cd) = cid" "228 + length cid \<le> length ?cd"
    by (simp_all add: withdraw_call_def del: concat.simps list.map)
  have cid: "claim_identity ?cd 68 128 = Inr (map unat cid)"
    using w(6) body assms(3) ascii
    by (simp add: claim_identity_def thenE_def require_def utf8_decode_ascii list_all_length Let_def)
  show ?thesis
    using w cid word_bytes_address [OF assms(2)] by (simp add: open_withdraw_def thenE_def require_def)
qed

text \<open>
  For a withdrawal whose call data is the canonical encoding of (operation, index, claim identity,
  beneficiary, amount), the binding check accepts exactly when the operation is the deployed one, the
  opened identity, index, beneficiary and amount are the claim's, and the transfer goes from the
  allocator to that beneficiary.
\<close>

theorem claim_bound_iff:
  assumes "map_of txs (tr_hash (claim_transfer claim)) = Some e" and "entry_group e = ''withdrawals''"
    and "call_data e = Inr (tx, withdraw_call op idx cid ben amt)" and "norm_get tx ''to'' = Inr allocator"
    and "list_all (\<lambda>n. n < 2 ^ 256) [op, idx, ben, amt]" and "ben < 2 ^ 160" and "length cid \<le> 128"
    and "list_all (\<lambda>b. unat b < 0x80) cid"
  shows "claim_bound txs allocator operation_id claim = Inr () \<longleftrightarrow>
    int op = operation_id \<and> map unat cid = map of_char (claim_id claim)
    \<and> map_of claim_indices (claim_id claim) = Some idx
    \<and> lower (word_address ben) = claim_beneficiary claim \<and> amt = claim_amount claim
    \<and> lower (tr_from (claim_transfer claim)) = allocator
    \<and> lower (tr_to (claim_transfer claim)) = claim_beneficiary claim"
proof -
  have op: "calldata_word (withdraw_call op idx cid ben amt) 4 = Inr op"
    using withdraw_words [OF assms(5,7), of 0] by simp
  show ?thesis
    using assms(1-4) open_withdraw_call [OF assms(5-8)] op selector_withdraw [of op idx cid ben amt]
    by (simp add: claim_bound_def row_for_def check_iff opening_matches_def) (auto simp: bindE_Inr_iff)
qed

definition demo_claim :: claim_event where
  "demo_claim = \<lparr>claim_id = ''claim-b'', claim_beneficiary = word_address 0x2222, claim_amount = 21,
     claim_transfer = \<lparr>tr_chain = PInt 31337, tr_hash = ''0xaa'', tr_index = 0, tr_block = 9, tr_block_hash = ''0xbb'',
       tr_status = 1, tr_log_index = 0, tr_emitter = ''0xcc'', tr_from = ''0xdd'', tr_to = word_address 0x2222,
       tr_amount = 21, tr_group = ''withdrawals''\<rparr>\<rparr>"

definition demo_withdrawal :: "nat \<Rightarrow> tx_entry" where
  "demo_withdrawal amt =
     \<lparr>entry_group = ''withdrawals'',
      entry_tx = PDict [(''transaction'', PDict [(''to'', PStr ''0xDD''),
        (''input'', PStr (''0x'' @ to_hex (withdraw_call 5 1 (map of_char ''claim-b'') 0x2222 amt)))])],
      entry_receipt = PDict []\<rparr>"

theorem claim_bound_iff_witness:
  "claim_bound [(''0xaa'', demo_withdrawal 21)] ''0xdd'' 5 demo_claim = Inr ()
   \<and> claim_bound [(''0xaa'', demo_withdrawal 22)] ''0xdd'' 5 demo_claim \<noteq> Inr ()"
proof -
  let ?tx = "\<lambda>amt. PDict [(''to'', PStr ''0xDD''),
    (''input'', PStr (''0x'' @ to_hex (withdraw_call 5 1 (map of_char ''claim-b'') 0x2222 amt)))]"
  have cd: "call_data (demo_withdrawal amt) = Inr (?tx amt, withdraw_call 5 1 (map of_char ''claim-b'') 0x2222 amt)" for amt
    by (simp add: call_data_def demo_withdrawal_def get_or_def starts_with_def thenE_def require_def)
  have to: "norm_get (?tx amt) ''to'' = Inr ''0xdd''" for amt
  proof -
    have "lower ''0xDD'' = ''0xdd''" by code_simp
    then show ?thesis by (simp add: norm_get_def norm_text_def get_or_def)
  qed
  have "lower (word_address 0x2222) = word_address 0x2222" by (simp add: word_address_def)
  moreover have "map unat (map of_char ''claim-b'' :: bytes) = map of_char ''claim-b''" by code_simp
  moreover have "list_all (\<lambda>b. unat b < 0x80) (map of_char ''claim-b'' :: bytes)" by code_simp
  moreover have "lower ''0xdd'' = ''0xdd''" by code_simp
  ultimately show ?thesis
    using claim_bound_iff [OF _ _ cd [of 21] to [of 21], where operation_id = 5 and claim = demo_claim]
      claim_bound_iff [OF _ _ cd [of 22] to [of 22], where operation_id = 5 and claim = demo_claim]
    by (simp add: demo_claim_def claim_indices_def) (simp add: demo_withdrawal_def)
qed

end
