(* ===== verification/Terminal_State.thy ===== *)
theory Terminal_State
  imports Execution_Receipts
begin

text \<open>
  Two retained observations of \<^verbatim>\<open>scripts/forensic/pro28_receipts.py\<close>: the runtime code of the deployed
  contracts (\<^verbatim>\<open>_verify_runtime_observations\<close>) and the block-pinned terminal state
  (\<^verbatim>\<open>_verify_terminal_state_observation\<close>).  The \<^verbatim>\<open>cast keccak\<close> command is the parameter \<open>keccak_cli\<close>:
  its trimmed output, or \<open>None\<close> when it fails.
\<close>

section \<open>Further readers\<close>

abbreviation sub_dict :: "pv \<Rightarrow> string \<Rightarrow> ev_error + pv" where
  "sub_dict v k \<equiv> get_in v k (PDict [])"

text \<open>\<^verbatim>\<open>v[k]\<close> for a key that is itself a value, and \<^verbatim>\<open>int(v)\<close>, \<^verbatim>\<open>v != w\<close> for two values read.\<close>

definition subscript :: "pv \<Rightarrow> pv \<Rightarrow> ev_error + pv" where
  "subscript v k =
     (case k of
        PStr s \<Rightarrow> item v s
      | _ \<Rightarrow> (case v of
          PDict d \<Rightarrow> Inl (Builtin (if hashable k then KeyError (py_str k) else TypeError))
        | PList xs \<Rightarrow> (case num_of k of
              None \<Rightarrow> Inl (Builtin TypeError)
            | Some i \<Rightarrow> if 0 \<le> i then nth_item v (nat i)
                         else if nat (- i) \<le> length xs then nth_item v (length xs - nat (- i))
                         else Inl (Builtin IndexError))
        | _ \<Rightarrow> Inl (Builtin TypeError)))"

definition py_int :: "pv \<Rightarrow> ev_error + int" where
  "py_int v =
     (case num_of v of
        Some i \<Rightarrow> Inr i
      | None \<Rightarrow> (case v of PStr s \<Rightarrow> int_of_text 10 s | _ \<Rightarrow> Inl (Builtin TypeError)))"

definition differsE :: "ev_error + pv \<Rightarrow> ev_error + pv \<Rightarrow> ev_error + bool" where
  "differsE a b = bindE a (\<lambda>x. bindE b (\<lambda>y. Inr (\<not> py_eq x y)))"

definition lower_item :: "pv \<Rightarrow> string \<Rightarrow> ev_error + string" where
  "lower_item v k = bindE (item v k) norm_text"

definition chars_of :: "bytes \<Rightarrow> string" where
  "chars_of bs = map (\<lambda>b. char_of (unat b)) bs"

text \<open>A value looked up in a set display of strings: unhashable values raise.\<close>

definition in_strings :: "pv \<Rightarrow> string list \<Rightarrow> ev_error + bool" where
  "in_strings v ss = (if hashable v then Inr (v \<in> set (map PStr ss)) else Inl (Builtin TypeError))"

section \<open>Runtime code\<close>

definition runtime_row :: "evidence_lib \<Rightarrow> pv \<Rightarrow> string \<times> pv \<Rightarrow> ev_error + unit" where
  "runtime_row L rows na = (case na of (name, address) \<Rightarrow>
     bindE (item rows name) (\<lambda>row.
     bindE (get_in row ''runtimeCode'' (PStr [])) (\<lambda>code.
     thenE (reject_if (neqE (norm_get row ''address'') (norm_text address))
              (''runtime-code address differs for '' @ name))
    (bindE (text_of code) (\<lambda>c.
     thenE (require (starts_with ''0x'' c \<and> 2 < length c \<and> even (length (drop 2 c)))
              (''runtime code is missing or malformed for '' @ name))
       (case fromhex (drop 2 c) of
          None \<Rightarrow> evidence_error (''runtime code is not hexadecimal for '' @ name)
        | Some body \<Rightarrow> checks
            [reject_if (anyE
               [differsE (Inr (PInt (int (length body)))) (get_none row ''runtimeCodeBytes''),
                neqE (Inr (''0x'' @ sha256_hex L (chars_of body))) (norm_get row ''sha256'')])
               (''runtime-code byte length or SHA-256 differs for '' @ name),
             (case keccak_cli L c of
                None \<Rightarrow> evidence_error (''runtime-code Keccak identity differs for '' @ name)
              | Some k \<Rightarrow> reject_if (neqE (Inr (lower k)) (norm_get row ''keccak256''))
                  (''runtime-code Keccak identity differs for '' @ name))])))))) "

definition same_names :: "pv \<Rightarrow> pv \<Rightarrow> ev_error + bool" where
  "same_names rows expected =
     bindE (iter_of rows) (\<lambda>a. bindE (iter_of expected) (\<lambda>b.
     if list_all hashable b then Inr (set a = set b) else Inl (Builtin TypeError)))"

definition dict_items :: "pv \<Rightarrow> ev_error + obj" where
  "dict_items v = (case v of PDict d \<Rightarrow> Inr d | _ \<Rightarrow> Inl (Builtin AttributeError))"

definition verify_runtime_observations ::
  "evidence_lib \<Rightarrow> raw_dir \<Rightarrow> pv \<Rightarrow> ev_error + pv option" where
  "verify_runtime_observations L raw manifest =
     (if raw ''runtime-code-observations.json'' = None then Inr None
      else bindE (read_json L raw ''runtime-code-observations.json'') (\<lambda>obs.
        thenE (reject_if (differsE (get_none obs ''schema'') (Inr (PStr ''eae.local-runtime-code-observations.v1'')))
                 ''unexpected runtime-code observation schema'')
       (thenE (reject_if (differsE (get_none obs ''classification'')
                   (Inr (PStr ''localOnly Anvil RPC observation; not a public-chain attestation'')))
                 ''runtime-code observations lost their local-only classification'')
       (thenE (reject_if (anyE [differsE (get_none obs ''chainId'') (get_none manifest ''chainId''),
                                differsE (get_none obs ''chainId'') (Inr (PInt 31337))])
                 ''runtime-code observation chain differs from deployment'')
       (thenE (reject_if (anyE
                 [bindE (get_none obs ''blockNumber'') (\<lambda>n. Inr (\<not> is_number n)),
                  bindE (bindE (get_in obs ''blockHash'' (PStr [])) text_of) (\<lambda>h. Inr (\<not> starts_with ''0x'' h))])
                 ''runtime-code observations lack a block identity'')
       (bindE (get_none obs ''contracts'') (\<lambda>rows.
        bindE (sub_dict manifest ''contracts'') (\<lambda>expected.
        thenE (reject_if (anyE [Inr (\<not> is_dict rows), bindE (same_names rows expected) (\<lambda>b. Inr (\<not> b))])
                 ''runtime-code observations must cover exactly the deployed contracts'')
       (bindE (dict_items expected) (\<lambda>named.
        thenE (checks (map (runtime_row L rows) named))
          (Inr (Some obs)))))))))))) "

section \<open>Terminal state\<close>

definition observation_schema :: string where
  "observation_schema = ''eae.pro-56-live-state-observation.v1''"

definition observation_binds :: "pv \<Rightarrow> pv \<Rightarrow> pv \<Rightarrow> pv \<Rightarrow> ev_error + unit" where
  "observation_binds obs manifest manifest_digest capture = checks
     [reject_if (differsE (get_none obs ''schema'') (Inr (PStr observation_schema)))
        ''unexpected terminal-state observation schema'',
      reject_if (anyE [differsE (get_none obs ''chainId'') (get_none manifest ''chainId''),
                       differsE (get_none obs ''chainId'') (Inr (PInt 31337))])
        ''terminal-state observation chain identity differs from deployment'',
      reject_if (differsE (get_none obs ''classification'')
          (Inr (PStr ''localOnly provider-relative eth_call observation; no public-chain or consensus claim'')))
        ''terminal-state observation lost its local-only qualification'',
      reject_if (anyE
        [differsE (get_none obs ''deploymentManifestDigest'') (Inr manifest_digest),
         differsE (get_none obs ''environmentId'') (get_none capture ''captureId''),
         differsE (get_none obs ''sourceRevision'') (bindE (sub_dict capture ''source'') (\<lambda>s. get_none s ''revision'')),
         neqE (norm_get obs ''operationId'') (norm_get manifest ''operationId''),
         neqE (norm_get obs ''preparedOperationRoot'') (norm_get manifest ''preparedOperationRoot'')])
        ''terminal-state observation does not bind the captured deployment and operation'']"

definition max_int :: "int list \<Rightarrow> int" where
  "max_int xs = foldl max (hd xs) (tl xs)"

definition receipt_blocks :: "tx_map \<Rightarrow> ev_error + int list" where
  "receipt_blocks txs = mapE (\<lambda>he. int_item (entry_receipt (snd he)) ''blockNumber'') txs"

text \<open>The observation's block: its number, its normalised hash, and not before the last receipt.\<close>

definition observation_block :: "pv \<Rightarrow> tx_map \<Rightarrow> ev_error + int \<times> pv \<times> string" where
  "observation_block obs txs =
     bindE (sub_dict obs ''observationBlock'') (\<lambda>block.
     bindE (get_none block ''number'') (\<lambda>number.
     bindE (norm_get block ''hash'') (\<lambda>h.
     thenE (require (case num_of number of None \<Rightarrow> False | Some n \<Rightarrow> 0 \<le> n \<and> length h = 66)
              ''terminal-state observation lacks a valid block identity'')
    (thenE (require (fromhex (removeprefix ''0x'' h) \<noteq> None)
              ''terminal-state observation block hash is malformed'')
    (bindE (receipt_blocks txs) (\<lambda>bs.
     thenE (require (max_int bs \<le> the (num_of number))
              ''terminal-state observation predates the latest retained execution receipt'')
       (Inr (the (num_of number), number, h))))))))"

text \<open>The retained live check of the same block, and the anchors it lists.\<close>

definition live_check_differs ::
  "pv \<Rightarrow> pv \<Rightarrow> pv \<Rightarrow> pv \<Rightarrow> int \<Rightarrow> pv \<Rightarrow> string \<Rightarrow> ev_error + bool" where
  "live_check_differs live obs manifest manifest_digest n number h =
     bindE (sub_dict live ''runtimeAnchor'') (\<lambda>anchor. anyE
       [differsE (get_none live ''schema'') (Inr (PStr ''prf.forensic-live-chain-check.v2'')),
        differsE (get_none live ''status'') (Inr (PStr ''passed'')),
        differsE (get_none live ''chainId'') (item manifest ''chainId''),
        differsE (get_none live ''environmentId'') (get_none obs ''environmentId''),
        differsE (get_none live ''deploymentManifestDigest'') (Inr manifest_digest),
        neqE (norm_get live ''operationId'') (lower_item manifest ''operationId''),
        neqE (norm_get live ''preparedOperationRoot'') (lower_item manifest ''preparedOperationRoot''),
        differsE (get_none anchor ''blockNumber'') (Inr number),
        neqE (norm_get anchor ''blockHash'') (Inr h),
        bindE (get_in live ''latestBlockNumber'' (PInt (-1))) (\<lambda>l.
          case num_of l of None \<Rightarrow> Inl (Builtin TypeError) | Some i \<Rightarrow> Inr (i < n))])"

definition receipt_anchors :: "tx_map \<Rightarrow> ev_error + (string \<times> int \<times> string) list" where
  "receipt_anchors txs = mapE (\<lambda>(h, e).
     bindE (int_item (entry_receipt e) ''blockNumber'') (\<lambda>n.
     bindE (norm_item (entry_receipt e) ''blockHash'') (\<lambda>b. Inr (lower h, n, b)))) txs"

definition check_anchors :: "pv \<Rightarrow> ev_error + (string \<times> pv \<times> string) list" where
  "check_anchors live =
     bindE (bindE (get_in live ''transactionAnchors'' (PList [])) iter_of) (mapE (\<lambda>row.
       bindE (norm_get row ''transactionHash'') (\<lambda>h.
       bindE (get_none row ''blockNumber'') (\<lambda>n.
       bindE (norm_get row ''blockHash'') (\<lambda>b.
         if hashable n then Inr (h, n, b) else Inl (Builtin TypeError))))))"

definition anchors_covered :: "(string \<times> int \<times> string) list \<Rightarrow> (string \<times> pv \<times> string) list \<Rightarrow> bool" where
  "anchors_covered ra ca \<longleftrightarrow>
     list_all (\<lambda>(h, n, b). list_ex (\<lambda>(h', n', b'). h' = h \<and> num_of n' = Some n \<and> b' = b) ca) ra"

definition terminal_anchored ::
  "evidence_lib \<Rightarrow> raw_dir \<Rightarrow> pv \<Rightarrow> pv \<Rightarrow> pv \<Rightarrow> int \<times> pv \<times> string \<Rightarrow> tx_map \<Rightarrow> ev_error + unit" where
  "terminal_anchored L raw obs manifest manifest_digest blk txs = (case blk of (n, number, h) \<Rightarrow>
     thenE (require (raw ''live-chain-check.json'' \<noteq> None)
              ''terminal-state observation lacks its retained live-chain context check'')
    (bindE (read_json L raw ''live-chain-check.json'') (\<lambda>live.
     thenE (reject_if (live_check_differs live obs manifest manifest_digest n number h)
              ''terminal-state block does not match its live-chain context check'')
    (bindE (receipt_anchors txs) (\<lambda>ra.
     bindE (check_anchors live) (\<lambda>ca.
       require (anchors_covered ra ca)
         ''live-chain context check omits or substitutes retained transaction anchors'')))))) "

section \<open>The reads of the observation\<close>

definition expected_scalars :: "(string \<times> (string list \<times> int)) list" where
  "expected_scalars =
    [(''reserveTokenBalance'', ([''reserveTokenBalance''], 10)),
     (''allocatorTokenBalance'', ([''allocatorTokenBalance''], 0)),
     (''aliceTokenBalance'', ([''recipientTokenBalances'', ''alice''], 35)),
     (''bobTokenBalance'', ([''recipientTokenBalances'', ''bob''], 21)),
     (''carolTokenBalance'', ([''recipientTokenBalances'', ''carol''], 14)),
     (''claimedAmount'', ([''claimedAmount''], 70)),
     (''claimedCount'', ([''claimedCount''], 3)),
     (''outstandingLiability'', ([''outstandingLiability''], 0)),
     (''reserveTotalReserved'', ([''reserveTotalReserved''], 0))]"

definition read_names :: "string list" where
  "read_names = map fst expected_scalars @ [''entitlementOperation'']"

text \<open>The dictionary of reads by name; a later read of the same name replaces an earlier one.\<close>

definition reads_by_name :: "pv list \<Rightarrow> ev_error + (pv \<times> pv) list" where
  "reads_by_name rows =
     foldE (\<lambda>acc row. bindE (get_none row ''name'') (\<lambda>n.
              if hashable n then Inr (dset n row acc) else Inl (Builtin TypeError)))
       [] (filter is_dict rows)"

definition read_targets :: "pv \<Rightarrow> pv \<Rightarrow> ev_error + (string \<times> (pv \<times> pv list \<times> string)) list" where
  "read_targets contracts manifest =
     bindE (item contracts ''token'') (\<lambda>token. bindE (item contracts ''reserve'') (\<lambda>reserve.
     bindE (item contracts ''allocator'') (\<lambda>allocator. bindE (item manifest ''operationId'') (\<lambda>op.
     Inr
      [(''reserveTokenBalance'', (token, [reserve], ''balanceOf(address)(uint256)'')),
       (''allocatorTokenBalance'', (token, [allocator], ''balanceOf(address)(uint256)'')),
       (''aliceTokenBalance'', (token, [PStr ''0x1111111111111111111111111111111111111111''], ''balanceOf(address)(uint256)'')),
       (''bobTokenBalance'', (token, [PStr ''0x2222222222222222222222222222222222222222''], ''balanceOf(address)(uint256)'')),
       (''carolTokenBalance'', (token, [PStr ''0x3333333333333333333333333333333333333333''], ''balanceOf(address)(uint256)'')),
       (''claimedAmount'', (allocator, [op], ''claimedAmount(bytes32)(uint256)'')),
       (''claimedCount'', (allocator, [op], ''claimedCount(bytes32)(uint256)'')),
       (''outstandingLiability'', (allocator, [op], ''outstandingLiability(bytes32)(uint256)'')),
       (''reserveTotalReserved'', (reserve, [], ''totalReserved()(uint256)'')),
       (''entitlementOperation'', (allocator, [op], ''entitlementOperation(bytes32)''))]))))"

definition read_target_ok :: "(string \<times> (pv \<times> pv list \<times> string)) list \<Rightarrow> pv \<times> pv \<Rightarrow> ev_error + unit" where
  "read_target_ok targets nr = (case map_of targets (str_of (fst nr)) of
     None \<Rightarrow> Inl (Builtin (KeyError (str_of (fst nr))))
   | Some (target, arguments, signature) \<Rightarrow>
       reject_if (anyE
         [neqE (norm_get (snd nr) ''to'') (norm_text target),
          neqE (bindE (bindE (get_in (snd nr) ''arguments'' (PList [])) iter_of) (mapE norm_text))
               (mapE norm_text arguments),
          differsE (get_none (snd nr) ''signature'') (Inr (PStr signature))])
         (''terminal-state read target or selector differs for '' @ str_of (fst nr)))"

fun decoded_at :: "pv \<Rightarrow> string list \<Rightarrow> pv" where
  "decoded_at v [] = v"
| "decoded_at v (k # ks) = decoded_at (case v of PDict d \<Rightarrow> get_or d k (PDict []) | _ \<Rightarrow> PDict []) ks"

definition scalar_ok :: "(pv \<times> pv) list \<Rightarrow> pv \<Rightarrow> string \<times> (string list \<times> int) \<Rightarrow> ev_error + unit" where
  "scalar_ok by_name state s = (case s of (name, (path, expected)) \<Rightarrow>
     (case map_of by_name (PStr name) of
        None \<Rightarrow> Inl (Builtin (KeyError name))
      | Some row \<Rightarrow>
          reject_if (anyE
            [neqE (bindE (get_in row ''rawResult'' (PStr ''-1'')) to_int) (Inr expected),
             Inr (\<not> py_eq (decoded_at state path) (PInt expected))])
            (''terminal-state accounting read differs for '' @ name)))"

definition reads_ok :: "pv \<Rightarrow> pv \<Rightarrow> pv \<Rightarrow> int \<times> pv \<times> string \<Rightarrow> ev_error + (pv \<times> pv) list" where
  "reads_ok obs contracts manifest blk = (case blk of (n, number, h) \<Rightarrow>
     bindE (get_none obs ''reads'') (\<lambda>reads.
     thenE (require (is_list reads) ''terminal-state observation has no read list'')
    (bindE (reads_by_name (list_of reads)) (\<lambda>by_name.
     thenE (require (length by_name = length (list_of reads)
                \<and> set (map fst by_name) = set (map PStr read_names))
              ''terminal-state observation reads are incomplete, duplicated or unexpected'')
    (thenE (checks (map (\<lambda>row. reject_if (anyE
                [differsE (get_none row ''blockNumber'') (Inr number), neqE (norm_get row ''blockHash'') (Inr h)])
                ''terminal-state reads do not share the declared block context'') (list_of reads)))
    (bindE (read_targets contracts manifest) (\<lambda>targets.
     thenE (checks (map (read_target_ok targets) by_name)) (Inr by_name))))))))"

section \<open>The decoded operation\<close>

definition text_keys :: "string list" where
  "text_keys = [''allocationBindingRoot'', ''descriptorRoot'', ''evmEntitlementTableRoot'', ''allocationClaimRoot'',
     ''beneficiaryProfileWord'', ''token'', ''residualRecipient'', ''representation'']"

definition operation_field_ok :: "pv \<Rightarrow> string \<times> pv \<Rightarrow> ev_error + unit" where
  "operation_field_ok operation ke = (case ke of (key, expected) \<Rightarrow>
     bindE (get_none operation key) (\<lambda>actual.
       require (if key \<in> set text_keys
                then is_str actual \<and> is_str expected \<and> lower (str_of actual) = lower (str_of expected)
                else py_eq actual expected)
         (''terminal-state entitlement operation differs for '' @ key)))"

definition operation_words_of :: "(pv \<times> pv) list \<Rightarrow> ev_error + string list" where
  "operation_words_of by_name =
     (case map_of by_name (PStr ''entitlementOperation'') of
        None \<Rightarrow> Inl (Builtin (KeyError ''entitlementOperation''))
      | Some row \<Rightarrow>
          bindE (bindE (get_in row ''rawResult'' (PStr [])) text_of) (\<lambda>r.
          (let enc = removeprefix ''0x'' r
           in thenE (require (length enc = 12 * 64)
                       ''terminal-state entitlement operation has an unexpected ABI shape'')
              (if fromhex enc = None
               then evidence_error ''terminal-state entitlement operation is malformed ABI data''
               else Inr (map (\<lambda>w. ''0x'' @ lower w) (word_chunks enc))))))"

definition operation_ok ::
  "pv \<Rightarrow> pv \<Rightarrow> pv \<Rightarrow> string list \<Rightarrow> string list \<Rightarrow> ev_error + unit" where
  "operation_ok operation contracts manifest public_values words =
     bindE (item contracts ''token'') (\<lambda>token.
     bindE (bindE (item manifest ''localOnly'') (\<lambda>l. item l ''residualRecipient'')) (\<lambda>recipient.
     bindE (get_none operation ''representation'') (\<lambda>representation.
     thenE (checks (map (operation_field_ok operation)
       [(''stateEnum'', PInt 5), (''allocationBindingRoot'', PStr (public_values ! 3)),
        (''descriptorRoot'', PStr (public_values ! 4)), (''evmEntitlementTableRoot'', PStr (public_values ! 5)),
        (''entitlementCount'', PInt 3), (''entitlementTotal'', PInt 70),
        (''allocationClaimRoot'', PStr (public_values ! 8)), (''beneficiaryProfileWord'', PStr (words ! 7)),
        (''token'', token), (''amount'', PInt 70), (''residualRecipient'', recipient),
        (''representation'', representation)]))
    (bindE (mapE (\<lambda>s. int_of_text 16 s) [public_values ! 3, public_values ! 4, public_values ! 5, public_values ! 8]) (\<lambda>roots.
     bindE (bindE (item operation ''beneficiaryProfileWord'') int16) (\<lambda>profile.
     bindE (int16 token) (\<lambda>tok.
     bindE (int16 recipient) (\<lambda>rcp.
     bindE (bindE (item operation ''representation'') int16) (\<lambda>rep.
     thenE (reject_if (anyE (map2 (\<lambda>w v. neqE (int_of_text 16 w) (Inr v)) words
                [5, roots ! 0, roots ! 1, roots ! 2, 3, 70, roots ! 3, profile, tok, 70, rcp, rep]))
              ''terminal-state entitlement ABI words differ from the decoded operation'')
       (reject_if (differsE (get_none operation ''stateName'') (Inr (PStr ''Closed'')))
          ''terminal-state entitlement operation is not Closed''))))))))))"

definition declared_reconciliation :: "(string \<times> pv) list" where
  "declared_reconciliation =
    [(''matches'', PBool True), (''allocatorFunding'', PInt 70), (''sourceDeposit'', PInt 80),
     (''liabilityExpected'', PInt 0), (''allocatorBalanceExpected'', PInt 0), (''reserveBalanceExpected'', PInt 10),
     (''payouts'', PDict [(''alice'', PInt 35), (''bob'', PInt 21), (''carol'', PInt 14)])]"

definition reconciliation_ok :: "pv \<Rightarrow> ev_error + unit" where
  "reconciliation_ok obs =
     bindE (sub_dict obs ''reconciliation'') (\<lambda>r. reject_if (anyE
       (map (\<lambda>(k, v). bindE (get_none r k) (\<lambda>x.
          Inr (if k = ''matches'' then x \<noteq> PBool True else \<not> py_eq x v))) declared_reconciliation))
       ''terminal-state observation's declared reconciliation does not match the validated state'')"

text \<open>An object display whose entries are read from left to right.\<close>

definition dictE :: "(string \<times> (ev_error + pv)) list \<Rightarrow> ev_error + pv" where
  "dictE kvs = bindE (mapE (\<lambda>(k, m). bindE m (\<lambda>v. Inr (k, v))) kvs) (\<lambda>d. Inr (PDict d))"

definition verify_terminal_state_observation ::
  "evidence_lib \<Rightarrow> raw_dir \<Rightarrow> string \<Rightarrow> string option \<Rightarrow> string \<Rightarrow> pv \<Rightarrow> pv \<Rightarrow> pv \<Rightarrow> string list \<Rightarrow> tx_map
   \<Rightarrow> ev_error + pv" where
  "verify_terminal_state_observation L raw obs_name obs_file label manifest manifest_digest capture public_values txs =
     bindE (read_json L (\<lambda>_. obs_file) obs_name) (\<lambda>obs.
     thenE (observation_binds obs manifest manifest_digest capture)
    (thenE (reject_if (differsE (get_none obs ''sourceReplayDirectory'') (Inr (PStr label)))
              ''terminal-state observation names a different source replay'')
    (bindE (observation_block obs txs) (\<lambda>blk.
     thenE (terminal_anchored L raw obs manifest manifest_digest blk txs)
    (bindE (item manifest ''contracts'') (\<lambda>contracts.
     bindE (reads_ok obs contracts manifest blk) (\<lambda>by_name.
     bindE (sub_dict obs ''decodedState'') (\<lambda>state.
     bindE (sub_dict state ''entitlementOperation'') (\<lambda>operation.
     thenE (checks (map (scalar_ok by_name state) expected_scalars))
    (bindE (operation_words_of by_name) (\<lambda>words.
     thenE (operation_ok operation contracts manifest public_values words)
    (thenE (reconciliation_ok obs)
    (dictE
      [(''schema'', item obs ''schema''),
       (''status'', Inr (PStr ''validated provider-relative local eth_call observation'')),
       (''chainId'', Inr (PInt 31337)),
       (''environmentId'', item obs ''environmentId''),
       (''operationId'', item obs ''operationId''),
       (''preparedOperationRoot'', item obs ''preparedOperationRoot''),
       (''blockNumber'', Inr (fst (snd blk))),
       (''blockHash'', Inr (PStr (snd (snd blk)))),
       (''artifactSha256'', Inr (PStr (sha256_hex L (the obs_file)))),
       (''decodedState'', Inr state),
       (''limitations'', get_in obs ''limitations'' (PList []))])))))))))))))"

end
