(* ===== verification/Json_Compact.thy ===== *)
theory Json_Compact
  imports Json_Text
begin

text \<open>
  Canonical JSON without white space, as the reports of \<^verbatim>\<open>scripts/forensic/pro28_receipts.py\<close> and the
  publisher commitment of \<^verbatim>\<open>scripts/validate/publisher_commitment.py\<close> hash it.  Like the indented
  encoding it determines the value up to the order of object items.
\<close>

text \<open>\<^verbatim>\<open>json.dumps(v, sort_keys=True, separators=(",", ":"))\<close>.\<close>

primrec json_tight :: "pv \<Rightarrow> string" where
  "json_tight PNone = ''null''"
| "json_tight (PBool b) = (if b then ''true'' else ''false'')"
| "json_tight (PInt i) = int_str i"
| "json_tight (PStr s) = json_str s"
| "json_tight (PList xs) = ''['' @ join '','' (map json_tight xs) @ '']''"
| "json_tight (PDict d) =
     ''{'' @ join '','' (map (\<lambda>kr. json_str (fst kr) @ '':'' @ snd kr) (map (map_prod id json_tight) d)) @ ''}''"

definition json_compact :: "pv \<Rightarrow> string" where
  "json_compact v = json_tight (canon v)"

definition ends_tight :: "string \<Rightarrow> bool" where
  "ends_tight x \<longleftrightarrow> x = [] \<or> hd x = CHR '','' \<or> hd x = CHR '']'' \<or> hd x = CHR ''}''"

lemma ends_tight_simps [simp]:
  "ends_tight []" "ends_tight (CHR '','' # x)" "ends_tight (CHR '']'' # x)" "ends_tight (CHR ''}'' # x)"
  by (simp_all add: ends_tight_def)

lemma int_str_tight:
  assumes "int_str i @ x = int_str j @ y" and "ends_tight x" and "ends_tight y"
  shows "i = j \<and> x = y"
proof -
  have stop: "takeWhile int_char (int_str k @ z) = int_str k" if "ends_tight z" for k z
    using that int_str_chars [of k]
    by (cases z) (auto simp: ends_tight_def int_char_def is_digit_def list_all_iff takeWhile_append)
  from assms have "int_str i = int_str j" using stop by metis
  with assms(1) show ?thesis by simp
qed

text \<open>
  The items of a bracket: when each of them can be split off, so can the list.  No item starts with the
  closing bracket.
\<close>

lemma tight_items:
  assumes item: "\<And>v w x y. v \<in> set vs \<Longrightarrow> ends_tight x \<Longrightarrow> ends_tight y \<Longrightarrow> f v @ x = f w @ y \<Longrightarrow> v = w \<and> x = y"
    and lead: "\<And>v z. hd (f v @ z) \<noteq> cls" "\<And>v. f v \<noteq> []"
    and cls: "cls = CHR '']'' \<or> cls = CHR ''}''"
    and eq: "join '','' (map f vs) @ cls # x = join '','' (map f ws) @ cls # y"
  shows "vs = ws \<and> x = y"
  using item eq
proof (induction vs arbitrary: ws)
  case Nil
  show ?case
  proof (cases ws)
    case (Cons w ws')
    then obtain z where "cls # x = f w @ z" using Nil(2) by (cases ws') auto
    then have "hd (f w @ z) = cls" by (metis list.sel(1))
    with lead show ?thesis by simp
  qed (use Nil in simp)
next
  case (Cons v vs)
  have first: "join '','' (map f (u # us)) @ cls # z
      = f u @ (if us = [] then cls # z else CHR '','' # join '','' (map f us) @ cls # z)" for u us z
    by (cases us) simp_all
  have tail: "ends_tight (if us = [] then cls # z else CHR '','' # join '','' (map f us) @ cls # z)" for us z
    using cls by auto
  show ?case
  proof (cases ws)
    case Nil
    then have "hd (f v @ (if vs = [] then cls # x else CHR '','' # join '','' (map f vs) @ cls # x)) = cls"
      using Cons.prems(2) unfolding first by simp
    with lead show ?thesis by blast
  next
    case ws: (Cons w ws')
    have "v = w \<and> (if vs = [] then cls # x else CHR '','' # join '','' (map f vs) @ cls # x)
      = (if ws' = [] then cls # y else CHR '','' # join '','' (map f ws') @ cls # y)"
      by (rule Cons.prems(1)) (use Cons.prems(2) tail in \<open>simp_all add: ws first del: join.simps list.map\<close>)
    moreover have "vs = ws' \<and> x = y" if "join '','' (map f vs) @ cls # x = join '','' (map f ws') @ cls # y"
      by (rule Cons.IH [OF _ that]) (rule Cons.prems(1); simp)
    ultimately show ?thesis using cls by (auto simp: ws split: if_splits)
  qed
qed

lemma json_tight_lead:
  "hd (json_tight v @ x) =
     (case v of PNone \<Rightarrow> CHR ''n'' | PBool b \<Rightarrow> if b then CHR ''t'' else CHR ''f''
      | PInt i \<Rightarrow> hd (int_str i) | PStr s \<Rightarrow> CHR 0x22 | PList l \<Rightarrow> CHR ''['' | PDict d \<Rightarrow> CHR ''{'')"
  by (cases v) (auto simp: json_str_def)

lemma json_tight_not_closed: "hd (json_tight v @ x) \<noteq> CHR '']''" "json_tight v \<noteq> []"
proof -
  have "hd (int_str i) \<noteq> CHR '']''" for i using int_str_lead [of i] by (auto simp: int_char_def is_digit_def)
  then show "hd (json_tight v @ x) \<noteq> CHR '']''" unfolding json_tight_lead by (cases v) simp_all
  show "json_tight v \<noteq> []" by (cases v) (simp_all add: json_str_def)
qed

lemma json_tight_shape:
  assumes "json_tight v @ x = json_tight w @ y"
  shows "(case v of PNone \<Rightarrow> w = PNone | PBool b \<Rightarrow> w = PBool b | PInt i \<Rightarrow> is_int w
    | PStr s \<Rightarrow> is_str w | PList l \<Rightarrow> is_list w | PDict d \<Rightarrow> is_dict w)"
proof -
  from assms have "hd (json_tight v @ x) = hd (json_tight w @ y)" by simp
  then show ?thesis
    unfolding json_tight_lead
    by (cases v; cases w) (auto simp: int_lead_distinct int_lead_distinct [symmetric] split: if_splits)
qed

lemma json_tight_prefix:
  assumes "json_tight v @ x = json_tight w @ y" and "ends_tight x" and "ends_tight y"
  shows "v = w \<and> x = y"
  using assms
proof (induction v arbitrary: w x y)
  case PNone
  with json_tight_shape [OF PNone(1)] show ?case by auto
next
  case (PBool b)
  with json_tight_shape [OF PBool(1)] show ?case by auto
next
  case (PInt i)
  from json_tight_shape [OF PInt(1)] obtain j where w: "w = PInt j" by (cases w) auto
  with PInt int_str_tight [of i x j y] show ?case by auto
next
  case (PStr s)
  from json_tight_shape [OF PStr(1)] obtain t where w: "w = PStr t" by (cases w) auto
  with PStr json_str_prefix [of s x t y] show ?case by auto
next
  case (PList l)
  from json_tight_shape [OF PList.prems(1)] obtain l' where w: "w = PList l'" by (cases w) auto
  have "l = l' \<and> x = y"
    by (rule tight_items [where f = json_tight and cls = "CHR '']''", OF _ json_tight_not_closed])
      (use PList w in auto)
  with w show ?case by simp
next
  case (PDict d)
  from json_tight_shape [OF PDict.prems(1)] obtain d' where w: "w = PDict d'" by (cases w) auto
  let ?f = "\<lambda>kv. json_str (fst kv) @ '':'' @ json_tight (snd kv)"
  have item: "kv = kv' \<and> x' = y'" if "kv \<in> set d" "ends_tight x'" "ends_tight y'"
    "?f kv @ x' = ?f kv' @ y'" for kv kv' x' y'
  proof -
    from that(4) json_str_prefix [of "fst kv" "'':'' @ json_tight (snd kv) @ x'" "fst kv'" "'':'' @ json_tight (snd kv') @ y'"]
    have "fst kv = fst kv'" "json_tight (snd kv) @ x' = json_tight (snd kv') @ y'" by simp_all
    with PDict.IH [of kv "snd kv" x' "snd kv'" y'] that show ?thesis
      by (auto simp: prod_eq_iff snds.simps)
  qed
  have lead: "hd (?f kv @ z) \<noteq> CHR ''}''" "?f kv \<noteq> []" for kv z by (simp_all add: json_str_def)
  have "d = d' \<and> x = y"
    by (rule tight_items [where f = ?f and cls = "CHR ''}''", OF item lead])
      (use PDict.prems w in \<open>simp_all add: o_def\<close>)
  with w show ?case by simp
qed

lemma json_compact_inject: "json_compact v = json_compact w \<longleftrightarrow> canon v = canon w"
  using json_tight_prefix [of "canon v" "[]" "canon w" "[]"] by (auto simp: json_compact_def)

end
