(* ===== verification/Execution_Reconstruction.thy ===== *)
theory Execution_Reconstruction
  imports Execution_Bindings Terminal_State Json_Compact
begin

text \<open>
  \<^verbatim>\<open>reconstruct\<close>, \<^verbatim>\<open>verify\<close> and \<^verbatim>\<open>verification_result\<close> of \<^verbatim>\<open>scripts/forensic/pro28_receipts.py\<close>: the
  cross-links between manifest, witness, proof fixture and source vector, the economic events of the
  loaded receipts, the deterministic report, and the verdict of the command line against a digest pin.
\<close>

section \<open>Text\<close>

definition read_text :: "raw_dir \<Rightarrow> string \<Rightarrow> ev_error + string" where
  "read_text raw p = (case raw p of None \<Rightarrow> Inl (Builtin (FileNotFoundError p)) | Some s \<Rightarrow> Inr s)"

definition file_sha256 :: "evidence_lib \<Rightarrow> raw_dir \<Rightarrow> string \<Rightarrow> string" where
  "file_sha256 L raw p = sha256_hex L (the (raw p))"

section \<open>The cross-links of the proof documents\<close>

record documents =
  manifest :: pv
  witness :: pv
  provenance :: pv
  fixture :: pv
  vector :: pv

definition read_documents :: "evidence_lib \<Rightarrow> raw_dir \<Rightarrow> ev_error + documents" where
  "read_documents L raw =
     bindE (read_json L raw ''deployment-manifest.json'') (\<lambda>m.
     bindE (read_json L raw ''witness.json'') (\<lambda>w.
     bindE (read_json L raw ''witness-provenance.json'') (\<lambda>p.
     bindE (read_json L raw ''proof-fixture.json'') (\<lambda>f.
     bindE (read_json L raw ''source/source-bound-entitlement-v1.json'') (\<lambda>v.
       Inr \<lparr>manifest = m, witness = w, provenance = p, fixture = f, vector = v\<rparr>)))))"

definition manifest_digest_of :: "evidence_lib \<Rightarrow> obj \<Rightarrow> string" where
  "manifest_digest_of L m = ''sha256:'' @ sha256_hex L (json_compact (PDict (without_keys [''manifestDigest''] m)) @ newline)"

definition check_manifest :: "evidence_lib \<Rightarrow> pv \<Rightarrow> ev_error + pv" where
  "check_manifest L m =
     bindE (get_in m ''manifestDigest'' (PStr [])) (\<lambda>d.
     thenE (checks
       [require (d = PStr (manifest_digest_of L (dict_of m))) ''deployment manifest digest mismatch'',
        reject_if (anyE [differsE (get_none m ''chainId'') (Inr (PInt 31337)),
                         bindE (get_none m ''localOnly'') (\<lambda>l. Inr (\<not> truthy l))])
          ''evidence must be explicitly local-only chain 31337'',
        reject_if (differsE (get_none m ''schema'') (Inr (PStr ''prf-evm.gate-e-entitlement-deployment.v1'')))
          ''unexpected deployment manifest schema''])
       (Inr d))"

definition gate_e :: "documents \<Rightarrow> ev_error + pv" where
  "gate_e D = sub_dict (fixture D) ''gate_e''"

definition proof_bytes_of :: "documents \<Rightarrow> ev_error + bytes" where
  "proof_bytes_of D = bindE (bindE (item (fixture D) ''proof'') text_of) (\<lambda>s. fromhexE (removeprefix ''0x'' s))"

definition check_fixture :: "evidence_lib \<Rightarrow> raw_dir \<Rightarrow> documents \<Rightarrow> pv \<Rightarrow> ev_error + unit" where
  "check_fixture L raw D digest = (let f = fixture D; m = manifest D; p = provenance D;
       wh = file_sha256 L raw ''witness.json''; vh = file_sha256 L raw ''source/source-bound-entitlement-v1.json'' in checks
     [reject_if (neqE (bindE (sub_dict f ''source'') (\<lambda>s. norm_get s ''witness_sha256'')) (Inr (''0x'' @ wh)))
        ''proof fixture does not bind the retained witness bytes'',
      reject_if (differsE (get_none p ''witness_sha256'') (Inr (PStr (''sha256:'' @ wh))))
        ''witness provenance digest mismatch'',
      reject_if (neqE (bindE (gate_e D) (\<lambda>g. norm_get g ''source_bundle_sha256'')) (Inr (''0x'' @ vh)))
        ''proof fixture does not bind the retained conformance bundle'',
      reject_if (differsE (get_none p ''bundle_sha256'') (Inr (PStr (''sha256:'' @ vh))))
        ''witness provenance bundle digest mismatch'',
      reject_if (differsE (bindE (gate_e D) (\<lambda>g. get_none g ''manifest_digest'')) (Inr digest))
        ''proof fixture does not bind the retained deployment manifest'',
      reject_if (differsE (get_none p ''manifest_digest'') (Inr digest))
        ''witness provenance does not bind the retained manifest'',
      reject_if (differsE (get_none f ''proof_system'') (Inr (PStr ''groth16'')))
        ''only the pinned Groth16 proof fixture is accepted'',
      reject_if (anyE
        [differsE (get_none f ''program_id'') (get_none m ''programId''),
         neqE (norm_get f ''vkey'') (norm_get m ''programVKey''),
         neqE (norm_get f ''elf_sha256'') (norm_get m ''programElfSha256''),
         differsE (get_none f ''public_values_schema'') (Inr (PStr ''prf/source-bound-entitlement-public-values.v1''))])
        ''proof/program identity differs from deployment identity'',
      bindE (proof_bytes_of D) (\<lambda>b.
        reject_if (neqE (bindE (gate_e D) (\<lambda>g. norm_get g ''proof_sha256'')) (Inr (''0x'' @ sha256_hex L (chars_of b))))
          ''proof byte digest mismatch'')])"

text \<open>The optional capture metadata, and the proof identity it recorded.\<close>

definition read_capture :: "evidence_lib \<Rightarrow> raw_dir \<Rightarrow> ev_error + pv option" where
  "read_capture L raw =
     (if raw ''capture-metadata.json'' = None then Inr None
      else bindE (read_json L raw ''capture-metadata.json'') (\<lambda>c. Inr (Some c)))"

definition check_captured_proof :: "evidence_lib \<Rightarrow> raw_dir \<Rightarrow> documents \<Rightarrow> pv option \<Rightarrow> ev_error + unit" where
  "check_captured_proof L raw D capture =
     (case capture of None \<Rightarrow> Inr () | Some c \<Rightarrow>
        bindE (get_none c ''proof'') (\<lambda>cp.
        if \<not> is_dict cp then Inr () else
          reject_if (anyE
            [neqE (norm_get cp ''fixtureSha256'') (Inr (''0x'' @ file_sha256 L raw ''proof-fixture.json'')),
             differsE (get_none cp ''proofSystem'') (get_none (fixture D) ''proof_system''),
             differsE (get_none cp ''programId'') (get_none (fixture D) ''program_id''),
             neqE (norm_get cp ''vkey'') (norm_get (fixture D) ''vkey''),
             neqE (norm_get cp ''elfSha256'') (norm_get (fixture D) ''elf_sha256''),
             neqE (norm_get cp ''witnessSha256'') (bindE (gate_e D) (\<lambda>g. norm_get g ''witness_sha256''))])
            ''captured proof identity does not bind the retained fixture and operation''))"

definition expected_vector_of :: "documents \<Rightarrow> ev_error + pv" where
  "expected_vector_of D =
     bindE (item (vector D) ''expected'') (\<lambda>e.
     bindE (bindE (item (fixture D) ''gate_e'') (\<lambda>g. item g ''vector_id'')) (\<lambda>k. subscript e k))"

definition check_public_values :: "documents \<Rightarrow> pv \<Rightarrow> string list \<Rightarrow> ev_error + unit" where
  "check_public_values D ev words = (let m = manifest D in checks
     [reject_if (differsE (bindE (item (fixture D) ''gate_e'') (\<lambda>g. item g ''vector_id'')) (Inr (PStr ''A-minimum-realistic'')))
        ''unexpected source vector selection'',
      reject_if (differsE (get_none (witness D) ''realized-statement-input'')
          (bindE (sub_dict (vector D) ''base-input'') (\<lambda>b. get_none b ''realized-statement-input'')))
        ''deployment witness economic allocation facts differ from selected source vector'',
      reject_if (neqE (Inr (words ! 4))
          (bindE (bindE (item ev ''entitlement-representation-descriptor-root'') text_of)
             (\<lambda>s. Inr (''0x'' @ lower (removeprefix ''0x'' s)))))
        ''public descriptor root differs from the selected source vector'',
      reject_if (neqE (to_int (PStr (words ! 6))) (bindE (item ev ''entitlement-count'') py_int))
        ''public entitlement count differs from the selected source vector'',
      reject_if (neqE (to_int (PStr (words ! 7))) (bindE (item ev ''entitlement-total'') py_int))
        ''public entitlement total differs from the selected source vector'',
      reject_if (neqE (Inr (words ! 1)) (lower_item m ''preparedOperationRoot''))
        ''public prepared-operation root differs from deployment manifest'',
      reject_if (neqE (Inr (words ! 2)) (lower_item m ''reserveStateCommitment''))
        ''public reserve commitment differs from deployment manifest'',
      reject_if (neqE (bindE (item (fixture D) ''gate_e'') (\<lambda>g. lower_item g ''operation_id'')) (lower_item m ''operationId''))
        ''proof fixture operation identity differs from manifest''])"

definition check_prepared :: "documents \<Rightarrow> ev_error + unit" where
  "check_prepared D = (let m = manifest D in
     bindE (sub_dict (witness D) ''prepared-operation'') (\<lambda>p. reject_if (anyE
       [bindE (get_none p ''chain-id'') (\<lambda>c. Inr (py_str c \<noteq> ''31337'')),
        neqE (norm_get p ''operation-id'') (lower_item m ''operationId''),
        neqE (norm_get p ''allocator'') (bindE (item m ''contracts'') (\<lambda>c. lower_item c ''allocator'')),
        neqE (norm_get p ''reserve'') (bindE (item m ''contracts'') (\<lambda>c. lower_item c ''reserve'')),
        neqE (norm_get p ''token'') (bindE (item m ''contracts'') (\<lambda>c. lower_item c ''token'')),
        neqE (norm_get p ''configuration-root'') (lower_item m ''configurationRoot'')])
       ''raw witness prepared-operation context differs from deployment manifest''))"

section \<open>Economic events\<close>

record economics =
  eco_sponsor :: string
  eco_reserve :: string
  eco_allocator :: string
  eco_deposit :: transfer
  eco_funding :: transfer
  eco_claims :: "claim_event list"

definition claim_events :: "transfer list \<Rightarrow> string \<Rightarrow> ev_error + claim_event list" where
  "claim_events evs allocator = mapE (\<lambda>(beneficiary, (cid, amount)).
     bindE (exact_event evs allocator beneficiary amount ''withdrawals'') (\<lambda>t.
       Inr \<lparr>claim_id = cid, claim_beneficiary = beneficiary, claim_amount = amount, claim_transfer = t\<rparr>)) recipients"

definition economic_events :: "tx_map \<Rightarrow> pv \<Rightarrow> ev_error + economics" where
  "economic_events txs m =
     bindE (item m ''contracts'') (\<lambda>contracts.
     bindE (norm_item contracts ''token'') (\<lambda>token.
     bindE (norm_item contracts ''reserve'') (\<lambda>reserve.
     bindE (norm_item contracts ''allocator'') (\<lambda>allocator.
     bindE (norm_item m ''deployer'') (\<lambda>sponsor.
     bindE (item m ''chainId'') (\<lambda>chain.
     bindE (transfer_events txs token chain) (\<lambda>evs.
     bindE (exact_event evs sponsor reserve 80 ''deployment'') (\<lambda>dep.
     bindE (exact_event evs reserve allocator 70 ''funding'') (\<lambda>fund.
     bindE (claim_events evs allocator) (\<lambda>claims.
     thenE (verify_economic_transaction_bindings txs m dep fund claims)
       (Inr \<lparr>eco_sponsor = sponsor, eco_reserve = reserve, eco_allocator = allocator,
             eco_deposit = dep, eco_funding = fund, eco_claims = claims\<rparr>)))))))))))"

definition entitlement_rows :: "pv \<Rightarrow> ev_error + (pv \<times> pv) list" where
  "entitlement_rows ev =
     bindE (bindE (item ev ''ordered-entitlements'') iter_of) (foldE (\<lambda>acc row.
       bindE (item row ''claim-id'') (\<lambda>k.
         if hashable k then Inr (dset k row acc) else Inl (Builtin TypeError))) [])"

definition claim_entitled :: "(pv \<times> pv) list \<Rightarrow> claim_event \<Rightarrow> ev_error + unit" where
  "claim_entitled rows claim =
     (let expected = get_or rows (PStr (claim_id claim)) PNone in
      reject_if (anyE
        [Inr (\<not> truthy expected),
         neqE (norm_item expected ''beneficiary'') (Inr (claim_beneficiary claim)),
         neqE (bindE (item expected ''amount'') py_int) (Inr (int (claim_amount claim)))])
        ''observed claimant transfer does not match vector entitlement identity'')"

definition suite_line :: string where
  "suite_line = ''Suite result: ok. 4 passed; 0 failed; 0 skipped''"

definition final_state_lines :: "string list" where
  "final_state_lines = [''reserve_balance=10'', ''allocator_balance=0'', ''beneficiary_1111_balance=35'',
     ''beneficiary_2222_balance=21'', ''beneficiary_3333_balance=14'']"

definition check_logs :: "raw_dir \<Rightarrow> ev_error + string \<times> string" where
  "check_logs raw =
     bindE (read_text raw ''fork-test.log'') (\<lambda>test_log.
     thenE (require (contains suite_line test_log)
              ''retained real-proof Foundry suite did not report four passing tests'')
    (bindE (read_text raw ''final-state.log'') (\<lambda>t. let final_state = strip t in
     thenE (checks (map (\<lambda>r. require (contains r final_state)
              (''terminal state lacks expected accounting observation: '' @ r)) final_state_lines))
       (Inr (test_log, final_state)))))"

section \<open>The report\<close>

definition present_files :: "raw_dir \<Rightarrow> string list \<Rightarrow> string list" where
  "present_files raw ps = filter (\<lambda>p. raw p \<noteq> None) ps"

definition artifact_paths :: "raw_dir \<Rightarrow> bool \<Rightarrow> bool \<Rightarrow> bool \<Rightarrow> string list" where
  "artifact_paths raw terminal runtime capture =
     [''deployment-manifest.json'', ''witness.json'', ''witness-provenance.json'', ''proof-fixture.json'',
      ''source/source-bound-entitlement-v1.json'']
     @ map (\<lambda>g. ''broadcast/'' @ g @ ''.json'') groups
     @ present_files raw (map (\<lambda>g. ''runner-broadcast/'' @ g @ ''.json'') groups)
     @ [''fork-test.log'', ''final-state.log'']
     @ (if terminal then [''live-chain-check.json''] else [])
     @ present_files raw [''funding.log'', ''activation.log'', ''withdrawal.log'']
     @ (if runtime then [''runtime-code-observations.json''] else [])
     @ (if capture then [''capture-metadata.json''] else [])"

definition file_hash :: "evidence_lib \<Rightarrow> raw_dir \<Rightarrow> string \<Rightarrow> ev_error + pv" where
  "file_hash L raw p = bindE (read_text raw p) (\<lambda>body.
     Inr (PDict [(''sha256'', PStr (sha256_hex L body)), (''bytes'', PInt (int (length body)))]))"

definition check_capture_binding :: "pv option \<Rightarrow> pv \<Rightarrow> ev_error + unit" where
  "check_capture_binding capture digest =
     (case capture of None \<Rightarrow> Inr () | Some c \<Rightarrow> checks
        [reject_if (anyE
           [bindE (bindE (get_none c ''schema'')
               (\<lambda>s. in_strings s [''eae.pro-28-capture-metadata.v1'', ''eae.pro-28-capture-metadata.v2''])) (\<lambda>b. Inr (\<not> b)),
            differsE (get_none c ''chainId'') (Inr (PInt 31337))])
           ''capture metadata schema or chain identity is invalid'',
         reject_if (differsE (get_none c ''deploymentManifestDigest'') (Inr digest))
           ''capture metadata does not bind the retained deployment manifest''])"

definition transfer_pv :: "transfer \<Rightarrow> pv" where
  "transfer_pv t = PDict
    [(''chainId'', tr_chain t), (''transactionHash'', PStr (tr_hash t)), (''transactionIndex'', PInt (tr_index t)),
     (''blockNumber'', PInt (tr_block t)), (''blockHash'', PStr (tr_block_hash t)), (''receiptStatus'', PInt (tr_status t)),
     (''logIndex'', PInt (tr_log_index t)), (''emitter'', PStr (tr_emitter t)), (''from'', PStr (tr_from t)),
     (''to'', PStr (tr_to t)), (''amount'', PInt (int (tr_amount t))), (''group'', PStr (tr_group t))]"

definition economic_event :: "string \<Rightarrow> (string \<times> pv) list \<Rightarrow> string \<Rightarrow> string \<Rightarrow> nat \<Rightarrow> transfer \<Rightarrow> pv" where
  "economic_event knd extra src tgt amount t = PDict
    ([(''kind'', PStr knd)] @ extra @ [(''from'', PStr src), (''to'', PStr tgt), (''amount'', PInt (int amount)),
      (''receipt'', transfer_pv t)])"

definition claim_payouts :: "economics \<Rightarrow> pv" where
  "claim_payouts E = PDict (map (\<lambda>c. (claim_id c, PInt (int (claim_amount c)))) (eco_claims E))"

definition event_list :: "economics \<Rightarrow> pv" where
  "event_list E = PList
    ([economic_event ''sponsorDeposit'' [] (eco_sponsor E) (eco_reserve E) 80 (eco_deposit E),
      economic_event ''allocatorFunding'' [] (eco_reserve E) (eco_allocator E) 70 (eco_funding E)]
     @ map (\<lambda>c. economic_event ''entitlementClaim'' [(''claimId'', PStr (claim_id c))] (eco_allocator E)
              (claim_beneficiary c) (claim_amount c) (claim_transfer c)) (eco_claims E))"

definition runtime_identity :: "pv option \<Rightarrow> ev_error + pv" where
  "runtime_identity observed =
     (case observed of
        None \<Rightarrow> Inr (PDict [(''status'', PStr ''not present in retained replay package''),
          (''binding'', PStr ''source revision, compiler settings and deployment transaction inputs are retained; runtime code hashes were not captured'')])
      | Some r \<Rightarrow> dictE
          [(''status'', Inr (PStr ''captured and content-hash verified from local Anvil RPC'')),
           (''classification'', item r ''classification''),
           (''blockNumber'', item r ''blockNumber''),
           (''blockHash'', item r ''blockHash''),
           (''contracts'', bindE (bindE (item r ''contracts'') dict_items) (\<lambda>rows.
              dictE (map (\<lambda>(name, row). (name, dictE (map (\<lambda>k. (k, item row k))
                [''address'', ''runtimeCodeBytes'', ''keccak256'', ''sha256'']))) rows)))])"

end
