(* ===== verification/Execution_Report.thy ===== *)
theory Execution_Report
  imports Execution_Reconstruction
begin

text \<open>
  The report of \<^verbatim>\<open>reconstruct\<close> section by section, the pin check of \<^verbatim>\<open>verify\<close> and the verdict of
  \<^verbatim>\<open>verification_result\<close> (\<^verbatim>\<open>scripts/forensic/pro28_receipts.py\<close>).
\<close>

section \<open>What was established\<close>

record facts =
  f_docs :: documents
  f_digest :: pv
  f_capture :: "pv option"
  f_words :: "string list"
  f_txs :: tx_map
  f_sources :: "(string \<times> string) list"
  f_runtime :: "pv option"
  f_terminal :: "pv option"
  f_eco :: economics
  f_test_log :: string
  f_final_state :: string

text \<open>The optional terminal observation: its file name, content and the replay label it must name.\<close>

type_synonym terminal_arg = "(string \<times> string option \<times> string) option"

definition read_terminal ::
  "evidence_lib \<Rightarrow> raw_dir \<Rightarrow> terminal_arg \<Rightarrow> pv \<Rightarrow> pv \<Rightarrow> pv option \<Rightarrow> string list \<Rightarrow> tx_map \<Rightarrow> ev_error + pv option" where
  "read_terminal L raw arg m digest capture words txs =
     (case arg of None \<Rightarrow> Inr None
      | Some (name, content, label) \<Rightarrow>
          (case capture of
             None \<Rightarrow> evidence_error ''terminal-state verification requires capture metadata''
           | Some c \<Rightarrow> bindE (verify_terminal_state_observation L raw name content label m digest c words txs)
               (\<lambda>t. Inr (Some t))))"

definition establish :: "evidence_lib \<Rightarrow> raw_dir \<Rightarrow> terminal_arg \<Rightarrow> ev_error + facts" where
  "establish L raw arg =
     bindE (read_documents L raw) (\<lambda>D.
     bindE (check_manifest L (manifest D)) (\<lambda>digest.
     thenE (check_fixture L raw D digest)
    (bindE (read_capture L raw) (\<lambda>capture.
     thenE (check_captured_proof L raw D capture)
    (bindE (bindE (bindE (item (fixture D) ''public_values'') text_of) public_words) (\<lambda>words.
     bindE (expected_vector_of D) (\<lambda>ev.
     thenE (check_public_values D ev words)
    (thenE (check_prepared D)
    (bindE (load_receipts L raw) (\<lambda>(txs, sources).
     bindE (verify_runtime_observations L raw (manifest D)) (\<lambda>runtime.
     bindE (read_terminal L raw arg (manifest D) digest capture words txs) (\<lambda>terminal.
     bindE (economic_events txs (manifest D)) (\<lambda>eco.
     bindE (entitlement_rows ev) (\<lambda>rows.
     thenE (checks (map (claim_entitled rows) (eco_claims eco)))
    (bindE (check_logs raw) (\<lambda>(test_log, final_state).
     thenE (check_capture_binding capture digest)
       (Inr \<lparr>f_docs = D, f_digest = digest, f_capture = capture, f_words = words, f_txs = txs, f_sources = sources,
             f_runtime = runtime, f_terminal = terminal, f_eco = eco, f_test_log = test_log,
             f_final_state = final_state\<rparr>)))))))))))))))))"

section \<open>Sections of the report\<close>

definition report_paths :: "raw_dir \<Rightarrow> facts \<Rightarrow> string list" where
  "report_paths raw F =
     artifact_paths raw (f_terminal F \<noteq> None) (f_runtime F \<noteq> None) (f_capture F \<noteq> None)"

definition last_block :: "facts \<Rightarrow> ev_error + pv" where
  "last_block F = bindE (receipt_blocks (f_txs F)) (\<lambda>bs. Inr (PInt (max_int bs)))"

definition source_section :: "facts \<Rightarrow> ev_error + pv" where
  "source_section F = dictE
    [(''repository'', Inr (PStr ''protocol-robustness/prf-evm'')),
     (''revision'', Inr (PStr ''4cfa2f96a4938d23abda609dfff9052b177ef8af'')),
     (''replay'', case f_capture F of
        None \<Rightarrow> Inr (PStr ''fresh Anvil replay by a separate agent/workspace; see issue evidence provenance'')
      | Some c \<Rightarrow> item c ''replay'')]"

definition economic_status :: "pv option \<Rightarrow> string" where
  "economic_status terminal =
     (if terminal \<noteq> None
      then ''passed against receipt transfers and validated provider-relative terminal eth_call observation''
      else ''receipt transfers cross-linked; terminal balances and liability remain unverified'')"

definition or_else :: "pv option \<Rightarrow> pv \<Rightarrow> pv" where
  "or_else m d = (case m of None \<Rightarrow> d | Some t \<Rightarrow> if truthy t then t else d)"

definition liability_closed :: "pv option \<Rightarrow> ev_error + pv" where
  "liability_closed terminal =
     (case terminal of None \<Rightarrow> Inr PNone
      | Some t \<Rightarrow> bindE (bindE (item t ''decodedState'') (\<lambda>s. item s ''outstandingLiability''))
          (\<lambda>v. Inr (PBool (py_eq v (PInt 0)))))"

definition results_section :: "evidence_lib \<Rightarrow> raw_dir \<Rightarrow> facts \<Rightarrow> ev_error + pv" where
  "results_section L raw F = (let fx = fixture (f_docs F) in dictE
    [(''structuralIntegrity'', Inr (PDict
       [(''status'', PStr ''passed''), (''validator'', PStr ''scripts/forensic/pro28_receipts.py''),
        (''checkedArtifacts'', PList (map PStr (report_paths raw F)))])),
     (''cryptographicVerification'', dictE
       [(''status'', Inr (PStr ''not_independently_verified'')),
        (''programId'', item fx ''program_id''), (''proofSystem'', item fx ''proof_system''), (''vkey'', item fx ''vkey''),
        (''reason'', Inr (PStr ''the retained Foundry log is mutable execution output; this verifier does not rerun the pinned SP1 verifier''))]),
     (''proofTestRunObservation'', Inr (PDict
       [(''status'', PStr (if contains suite_line (f_test_log F) then ''success_string_observed'' else ''success_string_absent'')),
        (''scope'', PStr ''retained Foundry test-log text only; does not establish cryptographic proof validity''),
        (''testOutputSha256'', PStr (''0x'' @ sha256_hex L (f_test_log F)))])),
     (''executionObservation'', dictE
       [(''status'', Inr (PStr ''receipt cross-links passed'')), (''chainId'', Inr (PInt 31337)),
        (''localOnly'', Inr (PBool True)), (''successfulReceiptCount'', Inr (PInt (int (length (f_txs F))))),
        (''finalObservedBlock'', last_block F)]),
     (''economicReconciliation'', dictE
       [(''status'', Inr (PStr (economic_status (f_terminal F)))),
        (''sourceDeposit'', Inr (PInt 80)), (''allocatorFunding'', Inr (PInt 70)),
        (''claimPayouts'', Inr (claim_payouts (f_eco F))),
        (''liabilityClosed'', liability_closed (f_terminal F)),
        (''terminalStateObservation'', Inr (or_else (f_terminal F) (PDict
          [(''status'', PStr ''not independently observed''),
           (''reason'', PStr ''final-state.log is retained as text and is not accepted as authoritative terminal state'')])))]),
     (''provenanceLimitations'', Inr (PList
       [PStr ''Local Anvil observations are not public-chain evidence or proof of canonical chain state.'',
        PStr ''Runtime code bytes are retained and their hashes recomputed; the local RPC observation is unsigned.'',
        PStr ''The superseded V3 summary lacks receipt and log indexes and is not receipt-level payout evidence.''])),
     (''unverifiedClaims'', Inr (PList
       [PStr ''No Base Sepolia execution, public deployment qualification, or organizationally independent verification is claimed.'']))])"

definition proof_section :: "evidence_lib \<Rightarrow> facts \<Rightarrow> ev_error + pv" where
  "proof_section L F = (let fx = fixture (f_docs F); g = item fx ''gate_e'' in dictE
    [(''programId'', item fx ''program_id''), (''proofSystem'', item fx ''proof_system''), (''vkey'', item fx ''vkey''),
     (''elfSha256'', item fx ''elf_sha256''), (''schema'', item fx ''public_values_schema''),
     (''publicValuesBytes'', item fx ''public_values_length''),
     (''proofSha256'', bindE g (\<lambda>x. item x ''proof_sha256'')),
     (''publicValuesSha256'', bindE (bindE (item fx ''public_values'') text_of) (\<lambda>s.
        bindE (fromhexE (removeprefix ''0x'' s)) (\<lambda>b. Inr (PStr (''0x'' @ sha256_hex L (chars_of b)))))),
     (''sourceBundleSha256'', bindE g (\<lambda>x. item x ''source_bundle_sha256'')),
     (''vectorId'', bindE g (\<lambda>x. item x ''vector_id'')),
     (''witnessSha256'', bindE g (\<lambda>x. item x ''witness_sha256'')),
     (''words'', Inr (PList (map PStr (f_words F)))),
     (''allocationSpecificOutput'', Inr (PStr ''deployment-bound roots are checked against the manifest and witness; portable source-vector roots are not substituted for deployment-specific roots'')),
     (''cryptographicVerification'', Inr (PStr ''not independently verified; retained Foundry output is not treated as cryptographic verification''))])"

definition sum_amounts :: "economics \<Rightarrow> nat" where
  "sum_amounts E = sum_list (map claim_amount (eco_claims E))"

definition accounting_section :: "facts \<Rightarrow> ev_error + pv" where
  "accounting_section F = dictE
    [(''sponsorDeposit'', Inr (PInt 80)), (''protectedReserveRemainder'', Inr (PInt 10)),
     (''allocatorFunding'', Inr (PInt 70)), (''claimPayouts'', Inr (claim_payouts (f_eco F))),
     (''totalClaimPayouts'', Inr (PInt (int (sum_amounts (f_eco F))))),
     (''finalStateObservation'', bindE (last_block F) (\<lambda>b. Inr (or_else (f_terminal F) (PDict
        [(''status'', PStr ''unverified log text''), (''text'', PStr (f_final_state F)), (''receiptMaxBlock'', b)])))),
     (''carolEntitlement'', Inr (PInt 14)), (''carolProtectedRefundInThisExecution'', Inr (PInt 0)),
     (''note'', Inr (PStr ''Carol's 14-unit entitlement is recorded separately from the 10-unit protected-capital refund described by the superseded V3 Foundry summary.''))]"

definition receipt_counts :: "tx_map \<Rightarrow> pv" where
  "receipt_counts txs = PDict (map (\<lambda>g.
     (g, PInt (int (length (filter (\<lambda>he. entry_group (snd he) = g) txs))))) groups)"

definition runner_hashes :: "(string \<times> string) list \<Rightarrow> pv" where
  "runner_hashes sources = PDict (map (\<lambda>(k, v). (k, PStr (''sha256:'' @ v)))
     (filter (\<lambda>kv. starts_with ''runner-broadcast/'' (fst kv)) (sort_key fst sources)))"

definition artifact_hashes :: "evidence_lib \<Rightarrow> raw_dir \<Rightarrow> terminal_arg \<Rightarrow> facts \<Rightarrow> ev_error + pv" where
  "artifact_hashes L raw arg F = dictE
    (map (\<lambda>p. (p, file_hash L raw p)) (report_paths raw F)
     @ (case arg of None \<Rightarrow> []
        | Some (name, content, label) \<Rightarrow>
            [(''terminal-state-observation.json'', file_hash L (\<lambda>_. content) name)]))"

definition report_of :: "evidence_lib \<Rightarrow> raw_dir \<Rightarrow> terminal_arg \<Rightarrow> facts \<Rightarrow> ev_error + pv" where
  "report_of L raw arg F = (let m = manifest (f_docs F) in dictE
    [(''schema'', Inr (PStr ''eae.pro-28-authentic-local-execution.v2'')),
     (''classification'', Inr (PStr ''local Anvil observation on chain 31337; not public-chain execution or chain-state proof'')),
     (''source'', source_section F),
     (''verificationResults'', results_section L raw F),
     (''chainId'', Inr (PInt 31337)),
     (''deploymentManifestDigest'', Inr (f_digest F)),
     (''operationId'', item m ''operationId''),
     (''preparedOperationRoot'', item m ''preparedOperationRoot''),
     (''proof'', proof_section L F),
     (''contractAddresses'', item m ''contracts''),
     (''runtimeCodeIdentity'', runtime_identity (f_runtime F)),
     (''receiptCounts'', Inr (receipt_counts (f_txs F))),
     (''successfulReceiptCount'', Inr (PInt (int (length (f_txs F))))),
     (''economicEvents'', Inr (event_list (f_eco F))),
     (''accounting'', accounting_section F),
     (''artifactHashes'', artifact_hashes L raw arg F),
     (''runnerBroadcastSourceHashes'', Inr (runner_hashes (f_sources F)))])"

definition reconstruct :: "evidence_lib \<Rightarrow> raw_dir \<Rightarrow> terminal_arg \<Rightarrow> ev_error + pv" where
  "reconstruct L raw arg = bindE (establish L raw arg) (report_of L raw arg)"

section \<open>Digest pins\<close>

definition rendered :: "pv \<Rightarrow> string" where
  "rendered report = json_dumps report @ newline"

definition pin_char :: "char \<Rightarrow> bool" where
  "pin_char c \<longleftrightarrow> c \<in> set ''0123456789abcdef''"

definition normalized_pin :: "string \<Rightarrow> string" where
  "normalized_pin pin = lower (removeprefix ''sha256:'' pin)"

definition check_pin :: "evidence_lib \<Rightarrow> pv \<Rightarrow> string \<Rightarrow> ev_error + unit" where
  "check_pin L report pin = checks
     [require (length (normalized_pin pin) = 64 \<and> list_all pin_char (normalized_pin pin))
        ''trusted report SHA-256 pin is malformed'',
      require (sha256_hex L (rendered report) = normalized_pin pin)
        ''reconstructed receipt report differs from trusted SHA-256 pin'']"

definition verify_report ::
  "evidence_lib \<Rightarrow> raw_dir \<Rightarrow> (string \<times> string option) option \<Rightarrow> string option \<Rightarrow> terminal_arg \<Rightarrow> ev_error + pv" where
  "verify_report L raw expected pin arg =
     bindE (reconstruct L raw arg) (\<lambda>report.
     thenE (case pin of None \<Rightarrow> Inr () | Some p \<Rightarrow> check_pin L report p)
    (thenE (case expected of None \<Rightarrow> Inr ()
            | Some (name, content) \<Rightarrow> bindE (read_json L (\<lambda>_. content) name) (\<lambda>e.
                require (py_eq e report) ''reconstructed receipt report differs from retained expected report''))
       (Inr report)))"

section \<open>The verdict\<close>

definition profile_name :: string where
  "profile_name = ''pro28-local-reconstruction-pin-v1''"

definition reconciled_statuses :: "string list" where
  "reconciled_statuses = [economic_status None, economic_status (Some PNone)]"

definition demanded_payouts :: pv where
  "demanded_payouts = PDict [(''claim-a'', PInt 35), (''claim-b'', PInt 21), (''claim-c'', PInt 14)]"

definition report_incomplete :: "pv \<Rightarrow> pv \<Rightarrow> ev_error + bool" where
  "report_incomplete report structural =
     (let results = sub_dict report ''verificationResults''; acc = sub_dict report ''accounting'' in anyE
       [differsE (get_none report ''schema'') (Inr (PStr ''eae.pro-28-authentic-local-execution.v2'')),
        differsE (get_none report ''chainId'') (Inr (PInt 31337)),
        differsE (get_none structural ''status'') (Inr (PStr ''passed'')),
        differsE (get_none structural ''validator'') (Inr (PStr ''scripts/forensic/pro28_receipts.py'')),
        differsE (bindE (bindE results (\<lambda>r. sub_dict r ''executionObservation'')) (\<lambda>o'. get_none o' ''status''))
          (Inr (PStr ''receipt cross-links passed'')),
        bindE (bindE (bindE (bindE results (\<lambda>r. sub_dict r ''economicReconciliation'')) (\<lambda>e. get_none e ''status''))
          (\<lambda>s. in_strings s reconciled_statuses)) (\<lambda>b. Inr (\<not> b)),
        differsE (bindE acc (\<lambda>a. get_none a ''sponsorDeposit'')) (Inr (PInt 80)),
        differsE (bindE acc (\<lambda>a. get_none a ''allocatorFunding'')) (Inr (PInt 70)),
        differsE (bindE acc (\<lambda>a. get_none a ''claimPayouts'')) (Inr demanded_payouts),
        differsE (bindE acc (\<lambda>a. get_none a ''totalClaimPayouts'')) (Inr (PInt 70)),
        differsE (get_none report ''successfulReceiptCount'') (Inr (PInt 41))])"

definition check_mode :: "string \<Rightarrow> string option \<Rightarrow> ev_error + unit" where
  "check_mode mode pin = checks
     [require (mode \<in> set [''inspect'', ''verify'']) ''unsupported verification mode'',
      require (\<not> (mode = ''verify'' \<and> pin = None))
        ''verification requires an independently supplied trusted report SHA-256 pin'',
      require (\<not> (mode = ''inspect'' \<and> pin \<noteq> None))
        ''inspection mode cannot consume a trusted verification pin; use --mode verify'']"

definition terminal_status :: "pv \<Rightarrow> ev_error + string" where
  "terminal_status report =
     bindE (bindE (bindE (item report ''verificationResults'') (\<lambda>r. item r ''economicReconciliation'')) (\<lambda>e. item e ''status''))
       (\<lambda>s. bindE (text_of s) (\<lambda>t. Inr
         (if starts_with ''receipt transfers cross-linked'' t
          then ''receipt_transfers_reconciled_terminal_state_unverified''
          else ''receipt_transfers_and_provider_relative_terminal_observation_reconciled'')))"

definition crypto_status :: "pv \<Rightarrow> obj \<Rightarrow> ev_error + pv" where
  "crypto_status report optional =
     bindE (bindE (sub_dict (PDict optional) ''groth16'') (\<lambda>g. get_none g ''status'')) (\<lambda>s.
     if truthy s then Inr s
     else bindE (bindE (sub_dict report ''verificationResults'') (\<lambda>r. sub_dict r ''cryptographicVerification''))
            (\<lambda>c. get_in c ''status'' (PStr ''not_reported'')))"

definition chain_state :: "pv \<Rightarrow> ev_error + string" where
  "chain_state report =
     bindE (bindE (sub_dict report ''accounting'') (\<lambda>a. get_none a ''finalStateObservation'')) (\<lambda>o'.
       case o' of
         PDict d \<Rightarrow> Inr (if starts_with ''validated provider-relative'' (py_str (get_or d ''status'' (PStr [])))
                         then ''provider_relative_only'' else ''not_authenticated_by_this_profile'')
       | _ \<Rightarrow> Inr ''not_authenticated_by_this_profile'')"

definition optional_check :: "evidence_lib \<Rightarrow> pv \<Rightarrow> ev_error + pv" where
  "optional_check L v = dictE
    [(''status'', get_in v ''status'' (PStr ''unknown'')),
     (''scope'', bindE (get_in v ''scope'' (PStr ''check-specific'')) (\<lambda>s. get_in v ''classification'' s)),
     (''reportSha256'', Inr (PStr (''0x'' @ sha256_hex L (json_compact v @ newline))))]"

definition verification_result ::
  "evidence_lib \<Rightarrow> pv \<Rightarrow> string \<Rightarrow> string option \<Rightarrow> obj \<Rightarrow> ev_error + pv" where
  "verification_result L report mode pin optional =
     thenE (check_mode mode pin)
    (bindE (bindE (sub_dict report ''verificationResults'') (\<lambda>r. sub_dict r ''structuralIntegrity'')) (\<lambda>structural.
     bindE (get_none report ''successfulReceiptCount'') (\<lambda>count.
     thenE (reject_if (report_incomplete report structural) ''required structural or receipt checks are missing'')
    (thenE (if mode = ''verify'' then check_pin L report (the pin) else Inr ())
    (dictE
      [(''schema'', Inr (PStr ''eae.pro-28-cli-verification-result.v1'')),
       (''mode'', Inr (PStr mode)),
       (''status'', Inr (PStr (if mode = ''verify'' then ''verified_within_profile'' else ''inspection_unanchored''))),
       (''profile'', Inr (if mode = ''verify'' then PStr profile_name else PNone)),
       (''trustContext'', Inr (case pin of None \<Rightarrow> PNone | Some p \<Rightarrow> PDict
          [(''kind'', PStr ''operator-supplied-report-sha256''), (''sha256'', PStr (normalized_pin p)),
           (''source'', PStr ''independent of the evidence bundle; caller must obtain through a trusted revision or authenticated channel'')])),
       (''requiredChecks'', Inr (PList (map PStr ([''structuralIntegrity'', ''receiptCrossLinks'', ''economicReceiptReconciliation'']
          @ (if mode = ''verify'' then [''trustedReconstructionPin''] else []))))),
       (''checks'', dictE
         [(''structuralIntegrity'', get_none structural ''status''),
          (''receiptCrossLinks'', Inr (PDict [(''status'', PStr ''passed''), (''successfulReceiptCount'', count),
             (''meaning'', PStr ''internal transaction, receipt and log consistency; not external receipt authentication'')])),
          (''economicReceiptReconciliation'', bindE (terminal_status report) (\<lambda>s. Inr (PDict
            [(''status'', PStr s), (''sponsorDeposit'', PInt 80), (''allocatorFunding'', PInt 70),
             (''claimPayouts'', demanded_payouts), (''liabilityClosure'', PStr ''not established by this profile'')]))),
          (''trustedReconstructionPin'', Inr (PStr (if mode = ''verify'' then ''matched'' else ''not_run''))),
          (''cryptographicProof'', crypto_status report optional),
          (''chainState'', bindE (chain_state report) (\<lambda>s. Inr (PStr s)))]),
       (''optionalChecks'', dictE (map (\<lambda>(k, v). (k, optional_check L v)) optional)),
       (''limitations'', Inr (PList
         [PStr ''A matching report digest binds this reconstruction to the operator-supplied pin; it does not authenticate the receipts or their inclusion in a canonical chain.'',
          PStr ''No consensus, finality, RPC-provider honesty, or public-chain claim is made.'',
          PStr ''Cryptographic proof verification is independent and remains not verified unless the pinned verifier is actually run.'',
          PStr ''The digest is trusted only if the operator obtains it independently of the evidence bundle.'']))])))))"

end
