(* ===== verification/Verdict_Theorems.thy ===== *)
theory Verdict_Theorems
  imports Execution_Report
begin

text \<open>
  The verdict of the receipt verifier: a report verified against a pin is determined by the pin, the
  verified status is given only to a pinned report, and every report built from established facts
  passes the inspection.
\<close>

section \<open>Reading an object display\<close>

lemma dictE_item:
  assumes "dictE kvs = Inr v" and "map_of kvs k = Some m"
  shows "\<exists>x. m = Inr x \<and> item v k = Inr x"
proof -
  from assms(1) obtain d where d: "mapE (\<lambda>(k, m). bindE m (\<lambda>v. Inr (k, v))) kvs = Inr d" "v = PDict d"
    by (auto simp: dictE_def bindE_Inr_iff)
  from d(1) assms(2) have "\<exists>x. m = Inr x \<and> map_of d k = Some x"
  proof (induction kvs arbitrary: d)
    case Nil
    then show ?case by simp
  next
    case (Cons km kvs)
    then obtain x d' where "snd km = Inr x" "d = (fst km, x) # d'"
      "mapE (\<lambda>(k, m). bindE m (\<lambda>v. Inr (k, v))) kvs = Inr d'"
      by (cases km) (auto simp: bindE_Inr_iff)
    with Cons show ?case by (cases km) (auto split: if_splits)
  qed
  then obtain x where "m = Inr x" "map_of d k = Some x" by blast
  with d(2) show ?thesis by simp
qed

lemma dictE_total: "list_all (\<lambda>km. \<not> isl (snd km)) kvs \<Longrightarrow> \<exists>v. dictE kvs = Inr v"
proof -
  assume "list_all (\<lambda>km. \<not> isl (snd km)) kvs"
  then have "\<exists>d. mapE (\<lambda>(k, m). bindE m (\<lambda>v. Inr (k, v))) kvs = Inr d"
  proof (induction kvs)
    case (Cons km kvs)
    then show ?case by (cases km; cases "snd km") auto
  qed simp
  then show ?thesis by (auto simp: dictE_def)
qed

section \<open>Pins\<close>

lemma verification_result_Inr:
  assumes "verification_result L report mode pin optional = Inr v"
  shows "mode \<in> {''inspect'', ''verify''} \<and> (mode = ''verify'' \<longleftrightarrow> pin \<noteq> None)
    \<and> (mode = ''verify'' \<longrightarrow> check_pin L report (the pin) = Inr ())
    \<and> item v ''status'' = Inr (PStr (if mode = ''verify'' then ''verified_within_profile'' else ''inspection_unanchored''))"
proof -
  have "\<exists>kvs. check_mode mode pin = Inr () \<and> (if mode = ''verify'' then check_pin L report (the pin) else Inr ()) = Inr ()
    \<and> dictE kvs = Inr v
    \<and> map_of kvs ''status'' =
        Some (Inr (PStr (if mode = ''verify'' then ''verified_within_profile'' else ''inspection_unanchored'')))"
    using assms unfolding verification_result_def thenE_Inr_iff bindE_Inr_iff
    apply (elim exE conjE)
    apply (intro exI conjI)
       apply assumption
      apply assumption
     apply assumption
    apply simp
    done
  then obtain kvs where
    mode: "check_mode mode pin = Inr ()" and chk: "(if mode = ''verify'' then check_pin L report (the pin) else Inr ()) = Inr ()"
    and v: "dictE kvs = Inr v" and status: "map_of kvs ''status'' =
      Some (Inr (PStr (if mode = ''verify'' then ''verified_within_profile'' else ''inspection_unanchored'')))" by blast
  from mode have "mode \<in> {''inspect'', ''verify''}" "mode = ''verify'' \<longleftrightarrow> pin \<noteq> None"
    by (auto simp: check_mode_def check_iff)
  with dictE_item [OF v status] chk show ?thesis by (simp split: if_splits)
qed

text \<open>
  Two reports that verification accepts against one trusted pin are the same up to the order of
  object items, or two different texts with the same digest have been exhibited.
\<close>

theorem verified_pin_commits:
  assumes "verification_result L r1 ''verify'' (Some pin) o1 = Inr v1"
    and "verification_result L r2 ''verify'' (Some pin) o2 = Inr v2"
  shows "canon r1 = canon r2 \<or> (\<exists>s t. s \<noteq> t \<and> sha256_hex L s = sha256_hex L t)"
proof -
  have "sha256_hex L (rendered r1) = sha256_hex L (rendered r2)"
    using verification_result_Inr [OF assms(1)] verification_result_Inr [OF assms(2)]
    by (simp add: check_pin_def check_iff)
  moreover have "canon r1 = canon r2" if "rendered r1 = rendered r2"
    using that by (simp add: rendered_def json_dumps_inject)
  ultimately show ?thesis by blast
qed

text \<open>
  A verdict is either inspection_unanchored, in inspection mode and without a pin, or
  verified_within_profile, in verification mode with a pin equal to the digest of the rendered report.
\<close>

theorem verified_status_needs_pin:
  assumes "verification_result L report mode pin optional = Inr v"
  shows "(mode = ''inspect'' \<and> pin = None \<and> item v ''status'' = Inr (PStr ''inspection_unanchored''))
    \<or> (mode = ''verify'' \<and> (\<exists>p. pin = Some p \<and> normalized_pin p = sha256_hex L (rendered report))
       \<and> item v ''status'' = Inr (PStr ''verified_within_profile''))"
proof (cases "mode = ''verify''")
  case True
  with verification_result_Inr [OF assms] obtain p where "pin = Some p" "check_pin L report p = Inr ()"
    "item v ''status'' = Inr (PStr ''verified_within_profile'')" by auto
  with True show ?thesis by (simp add: check_pin_def check_iff)
next
  case False
  with verification_result_Inr [OF assms] show ?thesis by auto
qed

section \<open>Established facts pass the inspection\<close>

text \<open>What the reconstruction has established about the facts it reports.\<close>

definition facts_established :: "facts \<Rightarrow> bool" where
  "facts_established F \<longleftrightarrow>
     length (f_txs F) = 41
     \<and> map (\<lambda>c. (claim_id c, claim_amount c)) (eco_claims (f_eco F)) = map snd recipients"

lemma claim_events_rows:
  "claim_events evs allocator = Inr cs \<Longrightarrow> map (\<lambda>c. (claim_id c, claim_amount c)) cs = map snd recipients"
  by (auto simp: claim_events_def recipients_def bindE_Inr_iff)

lemma establish_facts: "establish L raw arg = Inr F \<Longrightarrow> facts_established F"
  unfolding establish_def thenE_Inr_iff bindE_Inr_iff
  by (elim exE conjE)
     (auto simp: facts_established_def load_receipts_def economic_events_def bindE_Inr_iff check_iff claim_events_rows)

lemma payouts_demanded: "facts_established F \<Longrightarrow> claim_payouts (f_eco F) = demanded_payouts"
proof -
  assume "facts_established F"
  then have rows: "map (\<lambda>c. (claim_id c, claim_amount c)) (eco_claims (f_eco F)) = map snd recipients"
    by (simp add: facts_established_def)
  have split: "map (\<lambda>c. (claim_id c, PInt (int (claim_amount c)))) cs =
    map (\<lambda>(k, n). (k, PInt (int n))) (map (\<lambda>c. (claim_id c, claim_amount c)) cs)" for cs
    by simp
  show ?thesis unfolding claim_payouts_def split rows by (simp add: recipients_def demanded_payouts_def)
qed

lemma payouts_sum: "facts_established F \<Longrightarrow> sum_amounts (f_eco F) = 70"
proof -
  assume "facts_established F"
  then have rows: "map (\<lambda>c. (claim_id c, claim_amount c)) (eco_claims (f_eco F)) = map snd recipients"
    by (simp add: facts_established_def)
  have split: "map claim_amount cs = map snd (map (\<lambda>c. (claim_id c, claim_amount c)) cs)" for cs by simp
  show ?thesis unfolding sum_amounts_def split rows by (simp add: recipients_def)
qed

lemma established_report_accepted:
  assumes "report_of L raw arg F = Inr r" and "facts_established F" and "check_mode mode pin = Inr ()"
    and "(if mode = ''verify'' then check_pin L r (the pin) else Inr ()) = Inr ()"
  shows "\<exists>v. verification_result L r mode pin [] = Inr v
    \<and> bindE (item r ''accounting'') (\<lambda>a. item a ''totalClaimPayouts'') = Inr (PInt 70)
    \<and> bindE (item r ''accounting'') (\<lambda>a. item a ''allocatorFunding'') = Inr (PInt 70)"
proof -
  note r = dictE_item [OF assms(1) [unfolded report_of_def Let_def]]
  have top: "item r ''schema'' = Inr (PStr ''eae.pro-28-authentic-local-execution.v2'')" "item r ''chainId'' = Inr (PInt 31337)"
    "item r ''successfulReceiptCount'' = Inr (PInt 41)"
    using r [of "''schema''"] r [of "''chainId''"] r [of "''successfulReceiptCount''"] assms(2)
    by (simp_all add: facts_established_def)
  obtain res where res: "results_section L raw F = Inr res" "item r ''verificationResults'' = Inr res"
    using r [of "''verificationResults''"] by auto
  obtain acc where acc: "accounting_section F = Inr acc" "item r ''accounting'' = Inr acc"
    using r [of "''accounting''"] by auto
  note a = dictE_item [OF acc(1) [unfolded accounting_section_def]]
  have ac: "item acc ''sponsorDeposit'' = Inr (PInt 80)" "item acc ''allocatorFunding'' = Inr (PInt 70)"
    "item acc ''claimPayouts'' = Inr demanded_payouts" "item acc ''totalClaimPayouts'' = Inr (PInt 70)"
    using a [of "''sponsorDeposit''"] a [of "''allocatorFunding''"] a [of "''claimPayouts''"] a [of "''totalClaimPayouts''"]
      payouts_demanded [OF assms(2)] payouts_sum [OF assms(2)] by simp_all
  obtain fs where fs: "item acc ''finalStateObservation'' = Inr fs"
    using a [of "''finalStateObservation''"] by auto
  note s = dictE_item [OF res(1) [unfolded results_section_def Let_def]]
  obtain st where st: "item res ''structuralIntegrity'' = Inr st" "item st ''status'' = Inr (PStr ''passed'')"
    "item st ''validator'' = Inr (PStr ''scripts/forensic/pro28_receipts.py'')"
    using s [of "''structuralIntegrity''"] by auto
  obtain ex where ex: "item res ''executionObservation'' = Inr ex" "item ex ''status'' = Inr (PStr ''receipt cross-links passed'')"
    using s [of "''executionObservation''"] dictE_item [where k = "''status''"] by fastforce
  obtain ec where ec: "item res ''economicReconciliation'' = Inr ec" "item ec ''status'' = Inr (PStr (economic_status (f_terminal F)))"
    using s [of "''economicReconciliation''"] dictE_item [where k = "''status''"] by fastforce
  obtain cr where cr: "item res ''cryptographicVerification'' = Inr cr" "item cr ''status'' = Inr (PStr ''not_independently_verified'')"
    using s [of "''cryptographicVerification''"] dictE_item [where k = "''status''"] by fastforce
  have es: "in_strings (PStr (economic_status (f_terminal F))) reconciled_statuses = Inr True"
    by (auto simp: in_strings_def reconciled_statuses_def economic_status_def)
  have complete: "report_incomplete r st = Inr False"
    by (simp add: report_incomplete_def check_iff differsE_def item_get [OF top(1)] item_get [OF top(2)] item_get [OF top(3)]
        item_get [OF st(2)] item_get [OF st(3)] item_get [OF res(2)] item_get [OF ex(1)] item_get [OF ex(2)]
        item_get [OF ec(1)] item_get [OF ec(2)] es item_get [OF acc(2)] item_get [OF ac(1)] item_get [OF ac(2)]
        item_get [OF ac(3)] item_get [OF ac(4)])
  have tst: "\<exists>t. terminal_status r = Inr t"
    by (simp add: terminal_status_def res(2) ec)
  have cst: "\<exists>c. crypto_status r [] = Inr c"
    by (simp add: crypto_status_def get_or_def item_get [OF res(2)] item_get [OF cr(1)] item_get [OF cr(2)])
  have chs: "\<exists>c. chain_state r = Inr c"
    by (simp add: chain_state_def item_get [OF acc(2)] item_get [OF fs] split: pv.split)
  from tst cst chs obtain t c h where tch: "terminal_status r = Inr t" "crypto_status r [] = Inr c" "chain_state r = Inr h"
    by blast
  have checks: "\<not> isl (dictE
         [(''structuralIntegrity'', Inr (PStr ''passed'')),
          (''receiptCrossLinks'', Inr x), (''economicReceiptReconciliation'', Inr y),
          (''trustedReconstructionPin'', Inr z), (''cryptographicProof'', Inr c), (''chainState'', Inr w)])" for x y z w
    by (simp add: dictE_def)
  have empty: "dictE [] = Inr (PDict [])" by (simp add: dictE_def)
  have "\<exists>v. verification_result L r mode pin [] = Inr v"
    unfolding verification_result_def assms(3,4)
    by (simp add: thenE_def require_def reject_if_def complete item_get [OF res(2)]
          item_get [OF st(1)] item_get [OF top(3)] tch empty split del: if_split)
       (rule dictE_total, simp add: checks item_get [OF st(2)])
  then show ?thesis by (auto simp: acc(2) ac)
qed


text \<open>
  C24: a report made of established facts, that is of 41 loaded transactions and of the three entitled
  claims, is complete: it accounts for claim payouts of 70 in total, equal to the allocator's funding, and
  inspection accepts it and calls it unanchored.
\<close>

theorem report_passes_inspection:
  assumes "report_of L raw arg F = Inr r" and "facts_established F"
  shows "\<exists>v. verification_result L r ''inspect'' None [] = Inr v
    \<and> item v ''status'' = Inr (PStr ''inspection_unanchored'')
    \<and> bindE (item r ''accounting'') (\<lambda>a. item a ''totalClaimPayouts'') = Inr (PInt 70)
    \<and> bindE (item r ''accounting'') (\<lambda>a. item a ''allocatorFunding'') = Inr (PInt 70)"
  using established_report_accepted [OF assms, of "''inspect''" None] verification_result_Inr
  by (fastforce simp: check_mode_def check_iff)

section \<open>A report\<close>

lemma mapE_total: "list_all (\<lambda>x. \<not> isl (f x)) xs \<Longrightarrow> \<exists>ys. mapE f xs = Inr ys"
proof (induction xs)
  case (Cons x xs)
  then show ?case by (cases "f x") auto
qed simp

definition sample_transfer :: transfer where
  "sample_transfer = \<lparr>tr_chain = PInt 31337, tr_hash = ''0xaa'', tr_index = 0, tr_block = 9, tr_block_hash = ''0xbb'',
     tr_status = 1, tr_log_index = 0, tr_emitter = ''0xcc'', tr_from = ''0xdd'', tr_to = ''0xee'', tr_amount = 80,
     tr_group = ''deployment''\<rparr>"

definition sample_facts :: facts where
  "sample_facts =
    \<lparr>f_docs = \<lparr>manifest = PDict [(''operationId'', PStr ''0x05''), (''preparedOperationRoot'', PStr ''0x06''), (''contracts'', PDict [])],
        witness = PDict [], provenance = PDict [],
        fixture = PDict [(''program_id'', PStr ''p''), (''proof_system'', PStr ''groth16''), (''vkey'', PStr ''0x07''),
          (''elf_sha256'', PStr ''0x08''), (''public_values_schema'', PStr ''s''), (''public_values_length'', PInt 0),
          (''public_values'', PStr ''0x''),
          (''gate_e'', PDict [(''proof_sha256'', PStr ''0x09''), (''source_bundle_sha256'', PStr ''0x0a''),
             (''vector_id'', PStr ''A-minimum-realistic''), (''witness_sha256'', PStr ''0x0b'')])],
        vector = PDict []\<rparr>,
     f_digest = PStr ''sha256:00'', f_capture = None, f_words = [],
     f_txs = map (\<lambda>n. (nat_str n, \<lparr>entry_group = ''withdrawals'', entry_tx = PDict [],
        entry_receipt = PDict [(''blockNumber'', PInt (int n))]\<rparr>)) [0..<41],
     f_sources = [], f_runtime = None, f_terminal = None,
     f_eco = \<lparr>eco_sponsor = ''0x01'', eco_reserve = ''0x02'', eco_allocator = ''0x03'', eco_deposit = sample_transfer,
        eco_funding = sample_transfer,
        eco_claims = map (\<lambda>(b, (c, n)). \<lparr>claim_id = c, claim_beneficiary = b, claim_amount = n,
          claim_transfer = sample_transfer\<rparr>) recipients\<rparr>,
     f_test_log = suite_line, f_final_state = []\<rparr>"

definition sample_lib :: evidence_lib where
  "sample_lib = \<lparr>sha256_hex = (\<lambda>_. replicate 64 CHR ''a''), json_loads = (\<lambda>_. None), keccak_cli = Some\<rparr>"

lemma sample_facts_established: "facts_established sample_facts"
  by (simp add: facts_established_def sample_facts_def recipients_def del: upt_rec_numeral)

lemma sample_last_block: "\<exists>b. last_block sample_facts = Inr b"
proof -
  have "\<exists>bs. receipt_blocks (f_txs sample_facts) = Inr bs"
    unfolding receipt_blocks_def
    by (rule mapE_total) (simp add: sample_facts_def list_all_iff int_item_def to_int_def del: upt_rec_numeral upt.simps)
  then show ?thesis by (auto simp: last_block_def)
qed

lemma sample_report: "\<exists>r. report_of sample_lib Some None sample_facts = Inr r"
proof -
  obtain b where b: "last_block sample_facts = Inr b" using sample_last_block ..
  have "list_all (\<lambda>km. \<not> isl (snd km))
    (map (\<lambda>p. (p, file_hash sample_lib Some p)) (report_paths Some sample_facts))"
    by (simp add: list_all_iff file_hash_def read_text_def)
  from dictE_total [OF this] have hashes: "\<not> isl (artifact_hashes sample_lib Some None sample_facts)"
    by (auto simp: artifact_hashes_def)
  have "\<not> isl (source_section sample_facts)" "\<not> isl (proof_section sample_lib sample_facts)"
    "\<not> isl (results_section sample_lib Some sample_facts)" "\<not> isl (accounting_section sample_facts)"
    by (simp_all add: source_section_def proof_section_def results_section_def accounting_section_def b)
       (simp_all add: sample_facts_def dictE_def fromhexE_def removeprefix_def starts_with_def liability_closed_def)
  with hashes show ?thesis
    unfolding report_of_def Let_def
    by (intro dictE_total) (simp add: sample_facts_def runtime_identity_def)
qed

abbreviation sample_pin :: string where
  "sample_pin \<equiv> replicate 64 CHR ''a''"

lemma sample_check_pin: "check_pin sample_lib r sample_pin = Inr ()"
proof -
  have "normalized_pin sample_pin = sample_pin" by code_simp
  moreover have "list_all pin_char sample_pin" by (simp add: list_all_iff pin_char_def)
  ultimately show ?thesis by (simp add: check_pin_def check_iff sample_lib_def)
qed

lemma sample_verified:
  "\<exists>r v. report_of sample_lib Some None sample_facts = Inr r
    \<and> verification_result sample_lib r ''verify'' (Some sample_pin) [] = Inr v"
proof -
  obtain r where r: "report_of sample_lib Some None sample_facts = Inr r" using sample_report ..
  have "check_mode ''verify'' (Some sample_pin) = Inr ()" by (simp add: check_mode_def check_iff)
  from established_report_accepted [OF r sample_facts_established this] sample_check_pin [of r] r
  show ?thesis by auto
qed

theorem verified_pin_commits_witness:
  "\<exists>r v. verification_result sample_lib r ''verify'' (Some sample_pin) [] = Inr v
    \<and> (canon r = canon r \<or> (\<exists>s t. s \<noteq> t \<and> sha256_hex sample_lib s = sha256_hex sample_lib t))"
  using sample_verified verified_pin_commits by blast

theorem verified_status_needs_pin_witness:
  "\<exists>r v. verification_result sample_lib r ''verify'' (Some sample_pin) [] = Inr v
    \<and> (\<exists>p. Some sample_pin = Some p \<and> normalized_pin p = sha256_hex sample_lib (rendered r))
    \<and> item v ''status'' = Inr (PStr ''verified_within_profile'')"
proof -
  obtain r v where v: "verification_result sample_lib r ''verify'' (Some sample_pin) [] = Inr v"
    using sample_verified by blast
  from verified_status_needs_pin [OF v] v show ?thesis by blast
qed

theorem report_passes_inspection_witness:
  "\<exists>r v. report_of sample_lib Some None sample_facts = Inr r
    \<and> verification_result sample_lib r ''inspect'' None [] = Inr v
    \<and> item v ''status'' = Inr (PStr ''inspection_unanchored'')
    \<and> bindE (item r ''accounting'') (\<lambda>a. item a ''totalClaimPayouts'') = Inr (PInt 70)
    \<and> bindE (item r ''accounting'') (\<lambda>a. item a ''allocatorFunding'') = Inr (PInt 70)"
  using sample_report sample_facts_established report_passes_inspection by blast

end
