(* ===== verification/Live_Chain.thy ===== *)
theory Live_Chain
  imports Execution_Report
begin

text \<open>
  Rechecking retained receipts against a live node (\<^verbatim>\<open>_rpc\<close>, \<^verbatim>\<open>_block_by_number\<close>,
  \<^verbatim>\<open>_block_reference\<close>, \<^verbatim>\<open>local_chain_fingerprint\<close>, \<^verbatim>\<open>_normalize_log\<close> and \<^verbatim>\<open>verify_live_chain_context\<close> of
  \<^verbatim>\<open>scripts/forensic/pro28_receipts.py\<close>).

  The node is a parameter: the decoded answer to a JSON-RPC request, or \<open>None\<close> when it cannot be
  reached or its answer is no JSON.  It is a function of the request, so it stands for a node whose
  chain does not change during one check.
\<close>

type_synonym node = "pv \<Rightarrow> pv option"

section \<open>Requests\<close>

definition rpc_request :: "string \<Rightarrow> pv list \<Rightarrow> pv" where
  "rpc_request m ps = PDict [(''jsonrpc'', PStr ''2.0''), (''id'', PInt 1), (''method'', PStr m), (''params'', PList ps)]"

definition rpc :: "node \<Rightarrow> string \<Rightarrow> pv list \<Rightarrow> ev_error + pv" where
  "rpc N m ps =
     (case N (rpc_request m ps) of
        None \<Rightarrow> Inl (RpcUnavailable (''live RPC failed for '' @ m))
      | Some payload \<Rightarrow>
          bindE (get_none payload ''error'') (\<lambda>e.
          bindE (has_item payload ''result'') (\<lambda>r.
          if truthy e \<or> \<not> r
          then Inl (RpcMethodError (''live RPC returned an error for '' @ m @ '': '' @ py_str e))
          else item payload ''result'')))"

fun hex_text :: "nat \<Rightarrow> string" where
  "hex_text n = (if n < 16 then [hex_digit n] else hex_text (n div 16) @ [hex_digit (n mod 16)])"

declare hex_text.simps [simp del]

definition quantity_of :: "int \<Rightarrow> string" where
  "quantity_of i = (if i < 0 then ''-0x'' @ hex_text (nat (- i)) else ''0x'' @ hex_text (nat i))"

definition block_by_number :: "node \<Rightarrow> int \<Rightarrow> ev_error + pv" where
  "block_by_number N n =
     bindE (rpc N ''eth_getBlockByNumber'' [PStr (quantity_of n), PBool False]) (\<lambda>block.
     thenE (reject_if (anyE [Inr (\<not> is_dict block), neqE (int_get block ''number'') (Inr n)])
              (''canonical block '' @ int_str n @ '' is unavailable''))
       (Inr block))"

definition block_ref :: "string \<Rightarrow> pv" where
  "block_ref h = PDict [(''blockHash'', PStr h), (''requireCanonical'', PBool True)]"

definition block_reference :: "node \<Rightarrow> string \<Rightarrow> ev_error + pv" where
  "block_reference N h =
     bindE (rpc N ''eth_getBlockByHash'' [PStr h, PBool False]) (\<lambda>block.
     thenE (reject_if (anyE [Inr (\<not> is_dict block), neqE (norm_get block ''hash'') (Inr (lower h))])
              (''block '' @ h @ '' is unavailable by hash''))
       (Inr (block_ref h)))"

definition local_chain_fingerprint :: "evidence_lib \<Rightarrow> int \<Rightarrow> string \<Rightarrow> ev_error + string" where
  "local_chain_fingerprint L chain_id genesis =
     (let h = lower genesis in
      thenE (require (length h = 66 \<and> starts_with ''0x'' h)
               ''local chain identity has an invalid genesis block hash'')
     (thenE (require (fromhex (drop 2 h) \<noteq> None)
               ''local chain identity has an invalid genesis block hash'')
        (Inr (''sha256:'' @ sha256_hex L
           (''prf.local-chain-fingerprint.v1'' @ newline @ int_str chain_id @ newline @ h @ newline)))))"

record live_log =
  ll_address :: string
  ll_topics :: "string list"
  ll_data :: string
  ll_log_index :: int
  ll_tx_hash :: string
  ll_tx_index :: int
  ll_block :: int
  ll_block_hash :: string
  ll_removed :: bool

definition normalize_log :: "pv \<Rightarrow> ev_error + live_log" where
  "normalize_log log =
     bindE (norm_get log ''address'') (\<lambda>a.
     bindE (bindE (bindE (get_in log ''topics'' (PList [])) iter_of) (mapE norm_text)) (\<lambda>ts.
     bindE (norm_get log ''data'') (\<lambda>d.
     bindE (int_get log ''logIndex'') (\<lambda>li.
     bindE (norm_get log ''transactionHash'') (\<lambda>th.
     bindE (int_get log ''transactionIndex'') (\<lambda>ti.
     bindE (int_get log ''blockNumber'') (\<lambda>bn.
     bindE (norm_get log ''blockHash'') (\<lambda>bh.
     bindE (get_in log ''removed'' (PBool False)) (\<lambda>r.
       Inr \<lparr>ll_address = a, ll_topics = ts, ll_data = d, ll_log_index = li, ll_tx_hash = th, ll_tx_index = ti,
            ll_block = bn, ll_block_hash = bh, ll_removed = truthy r\<rparr>)))))))))"

section \<open>The identity of the chain\<close>

definition check_local_only :: "pv \<Rightarrow> pv \<Rightarrow> pv \<Rightarrow> ev_error + unit" where
  "check_local_only m c r = checks
     [reject_if (anyE
        [bindE (bindE (get_none c ''schema'')
            (\<lambda>s. in_strings s [''eae.pro-28-capture-metadata.v1'', ''eae.pro-28-capture-metadata.v2''])) (\<lambda>b. Inr (\<not> b)),
         bindE (get_none c ''captureId'') (\<lambda>i. Inr (\<not> is_str i)),
         bindE (item c ''captureId'') (\<lambda>i. Inr (\<not> truthy i)),
         bindE (get_none m ''localOnly'') (\<lambda>l. Inr (\<not> truthy l)),
         bindE (bindE (get_in c ''classification'' (PStr [])) text_of) (\<lambda>t. Inr (\<not> starts_with ''localOnly'' t)),
         bindE (get_none c ''publicNetworkTransactionsSubmitted'') (\<lambda>p. Inr (p \<noteq> PBool False))])
        ''live check requires explicitly local-only evidence'',
      reject_if (anyE [differsE (get_none c ''chainId'') (get_none m ''chainId''),
                       differsE (get_none r ''chainId'') (get_none m ''chainId'')])
        ''deployment, capture and runtime observation chain IDs differ'',
      reject_if (anyE
        [differsE (bindE (sub_dict c ''runtimeObservation'') (\<lambda>o'. get_none o' ''codeFetchedAtBlock'')) (get_none r ''blockNumber''),
         differsE (bindE (sub_dict c ''runtimeObservation'') (\<lambda>o'. get_none o' ''contractsObserved''))
           (bindE (bindE (sub_dict r ''contracts'') len_of) (\<lambda>n. Inr (PInt (int n))))])
        ''capture metadata does not bind the runtime observation block and contract count'']"

definition captured_identity :: "pv \<Rightarrow> pv \<Rightarrow> ev_error + pv" where
  "captured_identity m c =
     bindE (get_none c ''localChainIdentity'') (\<lambda>ci.
     thenE (reject_if (anyE
         [differsE (get_none c ''schema'') (Inr (PStr ''eae.pro-28-capture-metadata.v2'')),
          Inr (\<not> is_dict ci),
          differsE (get_none ci ''schema'') (Inr (PStr ''prf.local-chain-fingerprint.v1'')),
          differsE (get_none ci ''chainId'') (item m ''chainId''),
          bindE (get_none ci ''genesisBlockHash'') (\<lambda>g. Inr (\<not> is_str g)),
          bindE (get_none ci ''fingerprint'') (\<lambda>f. Inr (\<not> is_str f))])
         ''capture metadata lacks an observed local-chain fingerprint; fresh capture required'')
       (Inr ci))"

record chain_identity =
  ci_chain :: int
  ci_genesis :: string
  ci_fingerprint :: string

definition check_identity :: "evidence_lib \<Rightarrow> node \<Rightarrow> pv \<Rightarrow> pv \<Rightarrow> ev_error + chain_identity" where
  "check_identity L N m ci =
     bindE (bindE (rpc N ''eth_chainId'' []) to_int) (\<lambda>chain_id.
     bindE (item m ''chainId'') (\<lambda>declared.
     thenE (require (py_eq declared (PInt chain_id))
              (''live RPC chain ID '' @ int_str chain_id @ '' differs from evidence chain ID '' @ py_str declared))
    (thenE (reject_if (differsE (item ci ''chainId'') (Inr (PInt chain_id)))
              ''captured local-chain identity has a different chain ID'')
    (bindE (block_by_number N 0) (\<lambda>genesis.
     bindE (norm_get genesis ''hash'') (\<lambda>live.
     bindE (bindE (item ci ''genesisBlockHash'') text_of) (\<lambda>captured.
     bindE (local_chain_fingerprint L chain_id captured) (\<lambda>fp.
     thenE (reject_if (anyE [Inr (live \<noteq> lower captured), differsE (item ci ''fingerprint'') (Inr (PStr fp))])
              ''live RPC local-chain fingerprint differs from captured identity'')
       (Inr \<lparr>ci_chain = chain_id, ci_genesis = live, ci_fingerprint = fp\<rparr>)))))))))"

section \<open>Canonical blocks\<close>

definition number_of :: "pv \<Rightarrow> ev_error + int" where
  "number_of v = (case num_of v of None \<Rightarrow> Inl (Builtin TypeError) | Some n \<Rightarrow> Inr n)"

definition entry_block :: "tx_entry \<Rightarrow> ev_error + int" where
  "entry_block e = int_item (entry_receipt e) ''blockNumber''"

text \<open>Blocks to check: the runtime anchor and every receipt's block, none above the head.\<close>

definition observed_blocks :: "int \<Rightarrow> int \<Rightarrow> tx_map \<Rightarrow> ev_error + int list" where
  "observed_blocks anchor latest txs =
     bindE (mapE (\<lambda>he. bindE (entry_block (snd he)) (\<lambda>n.
        thenE (require (n \<le> latest) ''retained transaction block is above the live chain head'') (Inr n))) txs)
       (\<lambda>ns. Inr (sort (remdups (anchor # ns))))"

definition retained_hashes :: "int \<Rightarrow> string \<Rightarrow> tx_map \<Rightarrow> int \<Rightarrow> ev_error + string list" where
  "retained_hashes anchor anchor_hash txs n =
     bindE (filterE (\<lambda>he. bindE (entry_block (snd he)) (\<lambda>k. Inr (k = n))) txs) (\<lambda>here.
     bindE (mapE (\<lambda>he. norm_item (entry_receipt (snd he)) ''blockHash'') here) (\<lambda>hs.
       Inr (remdups ((if n = anchor then [anchor_hash] else []) @ hs))))"

definition check_header :: "node \<Rightarrow> int \<Rightarrow> string \<Rightarrow> tx_map \<Rightarrow> int \<Rightarrow> ev_error + int \<times> pv" where
  "check_header N anchor anchor_hash txs n =
     bindE (retained_hashes anchor anchor_hash txs n) (\<lambda>hs.
     thenE (require (length hs = 1) (''retained observations conflict on block '' @ int_str n))
    (bindE (block_by_number N n) (\<lambda>header.
     thenE (reject_if (neqE (norm_get header ''hash'') (Inr (hd hs)))
              (''block '' @ int_str n @ '' is orphaned or replaced on the live RPC''))
    (thenE (if n > 0
            then bindE (block_by_number N (n - 1)) (\<lambda>parent.
                   reject_if (neqE (norm_get header ''parentHash'') (norm_get parent ''hash''))
                     (''block '' @ int_str n @ '' parent link differs from the live canonical chain''))
            else Inr ())
       (Inr (n, header))))))"

definition threshold_of :: "int option \<Rightarrow> int" where
  "threshold_of m = (case m of None \<Rightarrow> 0 | Some k \<Rightarrow> max 0 k)"

definition canonical_headers ::
  "node \<Rightarrow> int \<Rightarrow> int \<Rightarrow> int \<Rightarrow> string \<Rightarrow> tx_map \<Rightarrow> ev_error + (int \<times> pv) list" where
  "canonical_headers N threshold latest anchor anchor_hash txs =
     thenE (require (anchor \<le> latest) ''runtime observation block is above the live chain head'')
    (bindE (observed_blocks anchor latest txs) (\<lambda>ns.
     bindE (mapE (check_header N anchor anchor_hash txs) ns) (\<lambda>headers.
     thenE (require (list_all (\<lambda>n. threshold \<le> latest - n + 1) ns)
              ''one or more source blocks do not meet the requested confirmation threshold'')
       (Inr headers))))"

section \<open>Receipts, transactions and code\<close>

definition check_live_receipt :: "node \<Rightarrow> string \<Rightarrow> tx_entry \<Rightarrow> ev_error + unit" where
  "check_live_receipt N h e = (let expected = entry_receipt e in
     bindE (rpc N ''eth_getTransactionReceipt'' [PStr h]) (\<lambda>live.
     thenE (require (is_dict live) (''transaction receipt '' @ h @ '' is unavailable''))
    (thenE (checks (map (\<lambda>k.
        thenE (reject_if (anyE [bindE (has_item expected k) (\<lambda>b. Inr (\<not> b)), bindE (has_item live k) (\<lambda>b. Inr (\<not> b))])
                 (''transaction '' @ h @ '' is missing '' @ k @ '' in a receipt''))
          (reject_if (if k \<in> set [''blockNumber'', ''transactionIndex'', ''status'']
                      then neqE (int_item expected k) (int_item live k)
                      else neqE (norm_item expected k) (norm_item live k))
             (''live receipt '' @ h @ '' differs at '' @ k)))
        [''transactionHash'', ''blockHash'', ''blockNumber'', ''transactionIndex'', ''status'']))
    (bindE (bindE (bindE (get_in expected ''logs'' (PList [])) iter_of) (mapE normalize_log)) (\<lambda>a.
     bindE (bindE (bindE (get_in live ''logs'' (PList [])) iter_of) (mapE normalize_log)) (\<lambda>b.
       require (a = b) (''live receipt '' @ h @ '' logs differ from retained evidence'')))))))"

definition block_txs :: "node \<Rightarrow> int \<Rightarrow> ev_error + pv" where
  "block_txs N n =
     bindE (rpc N ''eth_getBlockByNumber'' [PStr (quantity_of n), PBool True]) (\<lambda>b. get_in b ''transactions'' (PList []))"

text \<open>\<^verbatim>\<open>txs[i]\<close> with Python's negative indices.\<close>

definition at_index :: "pv \<Rightarrow> int \<Rightarrow> ev_error + pv" where
  "at_index v i = subscript v (PInt i)"

definition payload_field_ok :: "string \<Rightarrow> pv \<Rightarrow> pv \<Rightarrow> string \<Rightarrow> ev_error + unit" where
  "payload_field_ok h retained live k =
     thenE (reject_if (anyE [bindE (has_item retained k) (\<lambda>b. Inr (\<not> b)), bindE (has_item live k) (\<lambda>b. Inr (\<not> b))])
              (''transaction '' @ h @ '' is missing '' @ k @ '' from its retained or live call payload''))
    (bindE (item retained k) (\<lambda>a. bindE (item live k) (\<lambda>b.
       reject_if
         (if k \<in> set [''from'', ''to'', ''input'']
          then if k = ''to'' \<and> (a = PNone \<or> b = PNone) then Inr (\<not> (a = PNone \<and> b = PNone))
               else neqE (norm_text a) (norm_text b)
          else neqE (to_int a) (to_int b))
         (''live transaction '' @ h @ '' differs from retained '' @ k))))"

definition check_live_transaction :: "node \<Rightarrow> int \<Rightarrow> (int \<times> pv) list \<Rightarrow> string \<Rightarrow> tx_entry \<Rightarrow> ev_error + unit" where
  "check_live_transaction N chain_id headers h e =
     bindE (entry_block e) (\<lambda>n.
     bindE (case map_of headers n of None \<Rightarrow> Inl (Builtin (KeyError (int_str n))) | Some b \<Rightarrow> Inr b) (\<lambda>block.
     bindE (int_item (entry_receipt e) ''transactionIndex'') (\<lambda>i.
     bindE (block_txs N n) (\<lambda>txs.
     thenE (reject_if (anyE [bindE (len_of txs) (\<lambda>k. Inr (int k \<le> i)),
                             neqE (bindE (at_index txs i) (\<lambda>t. norm_get t ''hash'')) (Inr h)])
              (''transaction '' @ h @ '' is not at its retained index in the live block''))
    (bindE (rpc N ''eth_getTransactionByHash'' [PStr h]) (\<lambda>live.
     thenE (reject_if (anyE [Inr (\<not> is_dict live), neqE (int_get live ''chainId'') (Inr chain_id)])
              (''transaction '' @ h @ '' is missing or has a different live chain identity''))
    (thenE (reject_if (anyE [neqE (int_get live ''transactionIndex'') (Inr i),
                             neqE (norm_get live ''blockHash'') (norm_item block ''hash'')])
              (''transaction '' @ h @ '' live block/index differs from its receipt''))
    (bindE (sub_dict (entry_tx e) ''transaction'') (\<lambda>retained.
       checks (map (payload_field_ok h retained live)
         [''from'', ''to'', ''input'', ''value'', ''nonce'', ''gas'', ''chainId'']))))))))))"

definition implementation_slot :: string where
  "implementation_slot = ''0x360894a13ba1a3210667c828492db98dca3e2076cc3735a920a3ca505d382bbc''"

definition last40 :: "string \<Rightarrow> string" where
  "last40 s = drop (length s - 40) s"

definition check_proxy :: "node \<Rightarrow> pv \<Rightarrow> string \<Rightarrow> pv \<Rightarrow> pv \<Rightarrow> ev_error + unit" where
  "check_proxy N anchor_ref name row address =
     bindE (get_none row ''implementationAddress'') (\<lambda>impl.
     if \<not> truthy impl then Inr () else
     bindE (bindE (rpc N ''eth_getStorageAt'' [address, PStr implementation_slot, anchor_ref]) text_of) (\<lambda>at_anchor.
     bindE (bindE (rpc N ''eth_getStorageAt'' [address, PStr implementation_slot, PStr ''latest'']) text_of) (\<lambda>latest.
     thenE (reject_if (anyE [neqE (Inr (lower (''0x'' @ last40 at_anchor))) (norm_text impl),
                             Inr (lower at_anchor \<noteq> lower latest)])
              (''proxy implementation for '' @ name @ '' changed or differs from the captured identity''))
    (bindE (bindE (rpc N ''eth_getCode'' [impl, anchor_ref]) norm_text) (\<lambda>code.
     thenE (reject_if (neqE (Inr code) (norm_get row ''implementationRuntimeCode''))
              (''implementation code for '' @ name @ '' differs at the captured block''))
       (reject_if (neqE (bindE (rpc N ''eth_getCode'' [impl, PStr ''latest'']) norm_text) (Inr code))
          (''implementation code for '' @ name @ '' changed after the captured block'')))))))"

definition check_contract :: "node \<Rightarrow> pv \<Rightarrow> string \<times> pv \<Rightarrow> ev_error + unit" where
  "check_contract N anchor_ref nr = (case nr of (name, row) \<Rightarrow>
     bindE (item row ''address'') (\<lambda>address.
     bindE (rpc N ''eth_getCode'' [address, anchor_ref]) (\<lambda>anchored.
     bindE (rpc N ''eth_getCode'' [address, PStr ''latest'']) (\<lambda>current.
     thenE (reject_if (neqE (norm_text anchored) (norm_item row ''runtimeCode''))
              (''runtime code for '' @ name @ '' differs at the captured block''))
    (thenE (reject_if (neqE (norm_text current) (norm_text anchored))
              (''runtime code for '' @ name @ '' changed after the captured block''))
       (check_proxy N anchor_ref name row address))))))"

section \<open>The check\<close>

definition transaction_anchor :: "string \<times> tx_entry \<Rightarrow> ev_error + pv" where
  "transaction_anchor he = (let r = entry_receipt (snd he); num = (\<lambda>k. bindE (int_item r k) (\<lambda>i. Inr (PInt i))) in dictE
     [(''transactionHash'', Inr (PStr (fst he))), (''blockNumber'', num ''blockNumber''),
      (''blockHash'', bindE (norm_item r ''blockHash'') (\<lambda>h. Inr (PStr h))),
      (''transactionIndex'', num ''transactionIndex''), (''status'', num ''status'')])"

definition contract_identity :: "pv \<Rightarrow> ev_error + pv" where
  "contract_identity row =
     bindE (get_none row ''implementationAddress'') (\<lambda>impl. dictE
       (map (\<lambda>k. (k, item row k)) [''address'', ''sha256'', ''keccak256'']
        @ (if truthy impl then [(''implementationAddress'', Inr impl)] else [])))"

definition live_report ::
  "pv \<Rightarrow> pv \<Rightarrow> pv \<Rightarrow> chain_identity \<Rightarrow> int \<Rightarrow> int \<Rightarrow> string \<Rightarrow> int \<Rightarrow> (int \<times> pv) list \<Rightarrow> tx_map \<Rightarrow> ev_error + pv" where
  "live_report m c r I anchor latest anchor_hash threshold headers txs = dictE
     [(''schema'', Inr (PStr ''prf.forensic-live-chain-check.v2'')), (''status'', Inr (PStr ''passed'')),
      (''classification'', Inr (PStr ''localOnly provider-relative canonicality check; not public-chain finality or independent consensus proof'')),
      (''environmentId'', item c ''captureId''),
      (''localChainIdentity'', Inr (PDict
         [(''schema'', PStr ''prf.local-chain-fingerprint.v1''), (''chainId'', PInt (ci_chain I)),
          (''genesisBlockHash'', PStr (ci_genesis I)), (''fingerprint'', PStr (ci_fingerprint I)),
          (''scope'', PStr ''chain lineage fingerprint; does not uniquely identify an RPC provider or Anvil process'')])),
      (''chainId'', Inr (PInt (ci_chain I))),
      (''deploymentManifestDigest'', item m ''manifestDigest''),
      (''operationId'', item m ''operationId''),
      (''preparedOperationRoot'', item m ''preparedOperationRoot''),
      (''configurationRoot'', item m ''configurationRoot''),
      (''sourceRevision'', bindE (sub_dict c ''source'') (\<lambda>s. get_none s ''revision'')),
      (''runtimeAnchor'', dictE
         [(''blockNumber'', Inr (PInt anchor)), (''blockHash'', Inr (PStr anchor_hash)),
          (''parentHash'', bindE (case map_of headers anchor of None \<Rightarrow> Inl (Builtin (KeyError (int_str anchor))) | Some b \<Rightarrow> Inr b)
             (\<lambda>b. bindE (norm_item b ''parentHash'') (\<lambda>h. Inr (PStr h))))]),
      (''latestBlockNumber'', Inr (PInt latest)),
      (''minimumConfirmationsRequested'', Inr (PInt threshold)),
      (''minimumConfirmationsObserved'', Inr (PInt (Min (set (map (\<lambda>nb. latest - fst nb + 1) headers))))),
      (''canonicality'', Inr (PStr ''all transaction and runtime anchors matched this RPC's current canonical chain'')),
      (''transactionsChecked'', Inr (PInt (int (length txs)))),
      (''transactionAnchors'', bindE (mapE transaction_anchor (sort_key fst txs)) (\<lambda>as. Inr (PList as))),
      (''contractsChecked'', bindE (bindE (item r ''contracts'') dict_items) (\<lambda>rows. Inr (PInt (int (length rows))))),
      (''contractRuntimeIdentities'', bindE (bindE (item r ''contracts'') dict_items) (\<lambda>rows.
         dictE (map (\<lambda>nr. (fst nr, contract_identity (snd nr))) (sort_key fst rows)))),
      (''runtimeCodeCurrentAtLatest'', Inr (PBool True)), (''validAtCheckOnly'', Inr (PBool True)),
      (''finalityClaimed'', Inr (PBool False))]"

definition verify_live_chain_context :: "evidence_lib \<Rightarrow> raw_dir \<Rightarrow> node \<Rightarrow> int option \<Rightarrow> ev_error + pv" where
  "verify_live_chain_context L raw N min_confirmations =
     thenE (ignoreE (reconstruct L raw None))
    (bindE (read_json L raw ''deployment-manifest.json'') (\<lambda>m.
     bindE (read_json L raw ''capture-metadata.json'') (\<lambda>c.
     bindE (read_json L raw ''runtime-code-observations.json'') (\<lambda>r.
     thenE (check_local_only m c r)
    (bindE (captured_identity m c) (\<lambda>ci.
     bindE (check_identity L N m ci) (\<lambda>I.
     bindE (bindE (rpc N ''eth_blockNumber'' []) to_int) (\<lambda>latest.
     bindE (load_receipts L raw) (\<lambda>(txs, sources).
     bindE (bindE (item r ''blockNumber'') number_of) (\<lambda>anchor.
     bindE (norm_item r ''blockHash'') (\<lambda>anchor_hash.
     bindE (canonical_headers N (threshold_of min_confirmations) latest anchor anchor_hash txs) (\<lambda>headers.
     thenE (checks (map (\<lambda>(h, e). thenE (check_live_receipt N h e) (check_live_transaction N (ci_chain I) headers h e)) txs))
    (bindE (block_reference N anchor_hash) (\<lambda>anchor_ref.
     bindE (bindE (item r ''contracts'') dict_items) (\<lambda>rows.
     thenE (checks (map (check_contract N anchor_ref) rows))
       (live_report m c r I anchor latest anchor_hash (threshold_of min_confirmations) headers txs))))))))))))))))"

end
