(* ===== verification/Live_Chain_Theorems.thy ===== *)
theory Live_Chain_Theorems
  imports Live_Chain
begin

text \<open>
  What the block stage of the live check establishes: every retained receipt's block is the node's
  block of that number, linked to its parent, not above the head and confirmed deeply enough.
\<close>

lemma filterE_set: "filterE f xs = Inr ys \<Longrightarrow> set ys = {x \<in> set xs. f x = Inr True}"
  by (induction xs arbitrary: ys) (auto simp: bindE_Inr_iff split: if_splits)

lemma filterE_total: "filterE f xs = Inr ys \<Longrightarrow> x \<in> set xs \<Longrightarrow> \<exists>b. f x = Inr b"
  by (induction xs arbitrary: ys) (auto simp: bindE_Inr_iff)

section \<open>Retained hashes\<close>

lemma retained_hash_in:
  assumes "retained_hashes anchor ah txs n = Inr hs" and "he \<in> set txs" and "entry_block (snd he) = Inr n"
  shows "\<exists>b. norm_item (entry_receipt (snd he)) ''blockHash'' = Inr b \<and> b \<in> set hs"
proof -
  from assms(1) obtain here bs where
    here: "filterE (\<lambda>he. bindE (entry_block (snd he)) (\<lambda>k. Inr (k = n))) txs = Inr here"
    and bs: "mapE (\<lambda>he. norm_item (entry_receipt (snd he)) ''blockHash'') here = Inr bs"
    and hs: "hs = remdups ((if n = anchor then [ah] else []) @ bs)"
    by (auto simp: retained_hashes_def bindE_Inr_iff)
  have "he \<in> set here" using filterE_set [OF here] assms(2,3) by simp
  from mapE_source_in [OF bs this] hs show ?thesis by auto
qed

lemma retained_anchor: "retained_hashes anchor ah txs anchor = Inr hs \<Longrightarrow> ah \<in> set hs"
  by (auto simp: retained_hashes_def bindE_Inr_iff)

section \<open>Headers\<close>

definition parent_linked :: "node \<Rightarrow> int \<Rightarrow> pv \<Rightarrow> bool" where
  "parent_linked N n header \<longleftrightarrow>
     (\<exists>parent h. block_by_number N (n - 1) = Inr parent \<and> norm_get parent ''hash'' = Inr h
        \<and> norm_get header ''parentHash'' = Inr h)"

definition on_chain :: "node \<Rightarrow> (int \<times> pv) list \<Rightarrow> int \<Rightarrow> int \<Rightarrow> int \<Rightarrow> string \<Rightarrow> bool" where
  "on_chain N headers latest threshold n b \<longleftrightarrow>
     (\<exists>header. map_of headers n = Some header \<and> block_by_number N n = Inr header \<and> norm_get header ''hash'' = Inr b
        \<and> n \<le> latest \<and> threshold \<le> latest - n + 1 \<and> (n \<le> 0 \<or> parent_linked N n header))"

lemma check_header_Inr:
  assumes "check_header N anchor ah txs n = Inr nh"
  shows "\<exists>hs. retained_hashes anchor ah txs n = Inr hs \<and> length hs = 1 \<and> fst nh = n
    \<and> block_by_number N n = Inr (snd nh) \<and> norm_get (snd nh) ''hash'' = Inr (hd hs)
    \<and> (n \<le> 0 \<or> parent_linked N n (snd nh))"
  using assms
  by (cases "n > 0") (auto simp: check_header_def bindE_Inr_iff check_iff parent_linked_def)

lemma check_headers_keys: "mapE (check_header N anchor ah txs) ns = Inr headers \<Longrightarrow> map fst headers = ns"
  by (induction ns arbitrary: headers) (auto simp: bindE_Inr_iff dest: check_header_Inr)

lemma checked_header:
  assumes "mapE (check_header N anchor ah txs) ns = Inr headers" and "distinct ns" and "n \<in> set ns"
  shows "\<exists>header hs. map_of headers n = Some header \<and> retained_hashes anchor ah txs n = Inr hs \<and> length hs = 1
    \<and> block_by_number N n = Inr header \<and> norm_get header ''hash'' = Inr (hd hs)
    \<and> (n \<le> 0 \<or> parent_linked N n header)"
proof -
  from mapE_source_in [OF assms(1,3)] obtain nh where nh: "nh \<in> set headers" "check_header N anchor ah txs n = Inr nh"
    by blast
  from check_header_Inr [OF nh(2)] have "fst nh = n" by blast
  moreover have "distinct (map fst headers)" using check_headers_keys [OF assms(1)] assms(2) by simp
  ultimately have "map_of headers n = Some (snd nh)" using nh(1) by (auto intro: map_of_is_SomeI)
  with check_header_Inr [OF nh(2)] show ?thesis by blast
qed

lemma observed_blocks_in:
  assumes "observed_blocks anchor latest txs = Inr ns"
  shows "distinct ns \<and> anchor \<in> set ns \<and> (he \<in> set txs \<longrightarrow> (\<exists>n. entry_block (snd he) = Inr n \<and> n \<in> set ns \<and> n \<le> latest))"
proof -
  from assms obtain ks where ks: "mapE (\<lambda>he. bindE (entry_block (snd he)) (\<lambda>n.
        thenE (require (n \<le> latest) ''retained transaction block is above the live chain head'') (Inr n))) txs = Inr ks"
    and ns: "ns = sort (remdups (anchor # ks))" by (auto simp: observed_blocks_def bindE_Inr_iff)
  from mapE_source_in [OF ks, of he] ns show ?thesis by (auto simp: bindE_Inr_iff check_iff simp del: remdups.simps)
qed

text \<open>
  When the block stage of the live check passes, every retained transaction lies in the block the
  node now has at that height: same hash, linked to the hash of the node's block below, not above the
  head and with at least the requested number of confirmations; the runtime anchor likewise.
\<close>

theorem live_blocks_canonical:
  assumes "canonical_headers N threshold latest anchor ah txs = Inr headers"
  shows "list_all (\<lambda>(h, e). \<exists>n b. entry_block e = Inr n \<and> norm_item (entry_receipt e) ''blockHash'' = Inr b
      \<and> on_chain N headers latest threshold n b) txs
    \<and> on_chain N headers latest threshold anchor ah"
proof -
  from assms obtain ns where a: "anchor \<le> latest" and ns: "observed_blocks anchor latest txs = Inr ns"
    and hd: "mapE (check_header N anchor ah txs) ns = Inr headers"
    and th: "list_all (\<lambda>n. threshold \<le> latest - n + 1) ns"
    by (auto simp: canonical_headers_def bindE_Inr_iff check_iff)
  note ob = observed_blocks_in [OF ns]
  have single: "length hs = 1 \<Longrightarrow> b \<in> set hs \<Longrightarrow> hd hs = b" for hs :: "string list" and b
    by (cases hs) auto
  have dist: "distinct ns" using ob by blast
  have tx: "\<exists>n b. entry_block (snd he) = Inr n \<and> norm_item (entry_receipt (snd he)) ''blockHash'' = Inr b
      \<and> on_chain N headers latest threshold n b" if he: "he \<in> set txs" for he
  proof -
    from ob he obtain n where n: "entry_block (snd he) = Inr n" "n \<in> set ns" "n \<le> latest" by blast
    from checked_header [OF hd dist n(2)] obtain header hs where
      h: "map_of headers n = Some header" "retained_hashes anchor ah txs n = Inr hs" "length hs = 1"
      "block_by_number N n = Inr header" "norm_get header ''hash'' = Inr (hd hs)" "n \<le> 0 \<or> parent_linked N n header" by blast
    from retained_hash_in [OF h(2) he n(1)] obtain b where
      b: "norm_item (entry_receipt (snd he)) ''blockHash'' = Inr b" "b \<in> set hs" by blast
    have "on_chain N headers latest threshold n b"
      using h single [OF h(3) b(2)] n th by (auto simp: on_chain_def list_all_iff)
    with n(1) b(1) show ?thesis by blast
  qed
  have "anchor \<in> set ns" using ob by blast
  from checked_header [OF hd dist this] obtain header hs where
    h: "map_of headers anchor = Some header" "retained_hashes anchor ah txs anchor = Inr hs" "length hs = 1"
    "block_by_number N anchor = Inr header" "norm_get header ''hash'' = Inr (hd hs)"
    "anchor \<le> 0 \<or> parent_linked N anchor header" by blast
  have "on_chain N headers latest threshold anchor ah"
    using h single [OF h(3) retained_anchor [OF h(2)]] a th \<open>anchor \<in> set ns\<close> by (auto simp: on_chain_def list_all_iff)
  with tx show ?thesis by (auto simp: list_all_iff)
qed

text \<open>A node with blocks 4 to 6, and two transactions retained in blocks 5 and 6.\<close>

definition sample_block :: "string \<Rightarrow> string \<Rightarrow> string \<Rightarrow> pv" where
  "sample_block n h p = PDict [(''number'', PStr n), (''hash'', PStr h), (''parentHash'', PStr p)]"

definition sample_node :: node where
  "sample_node req = map_option (\<lambda>b. PDict [(''result'', b)])
     (map_of
       [(rpc_request ''eth_getBlockByNumber'' [PStr ''0x4'', PBool False], sample_block ''0x4'' ''0xAA'' ''0x99''),
        (rpc_request ''eth_getBlockByNumber'' [PStr ''0x5'', PBool False], sample_block ''0x5'' ''0xbb'' ''0xaa''),
        (rpc_request ''eth_getBlockByNumber'' [PStr ''0x6'', PBool False], sample_block ''0x6'' ''0xcc'' ''0xBB'')] req)"

definition sample_entry :: "string \<Rightarrow> string \<Rightarrow> tx_entry" where
  "sample_entry n h = \<lparr>entry_group = ''funding'', entry_tx = PDict [],
     entry_receipt = PDict [(''blockNumber'', PStr n), (''blockHash'', PStr h)]\<rparr>"

definition sample_txs :: tx_map where
  "sample_txs = [(''0x01'', sample_entry ''0x5'' ''0xBB''), (''0x02'', sample_entry ''0x6'' ''0xcc'')]"

theorem live_blocks_canonical_witness:
  "\<exists>headers. canonical_headers sample_node 2 7 6 ''0xcc'' sample_txs = Inr headers
    \<and> list_all (\<lambda>(h, e). \<exists>n b. entry_block e = Inr n \<and> norm_item (entry_receipt e) ''blockHash'' = Inr b
      \<and> on_chain sample_node headers 7 2 n b) sample_txs
    \<and> on_chain sample_node headers 7 2 6 ''0xcc''"
proof -
  have "canonical_headers sample_node 2 7 6 ''0xcc'' sample_txs =
    Inr [(5, sample_block ''0x5'' ''0xbb'' ''0xaa''), (6, sample_block ''0x6'' ''0xcc'' ''0xBB'')]"
    by code_simp
  from live_blocks_canonical [OF this] this show ?thesis by blast
qed

end
