(* ===== verification/Token_Accounting.thy ===== *)
theory Token_Accounting
  imports Live_Chain "HOL-Library.Product_Lexorder"
begin

text \<open>
  Transaction-level token accounting (\<^verbatim>\<open>scripts/forensic/pro29_token_accounting.py\<close>): the transfer rows
  of the retained receipts and of the node's own log sweep, the reconciliation of balance and supply
  deltas with those rows, and the capture that reads every transaction boundary.
\<close>

section \<open>Readers\<close>

definition zero_address :: string where
  "zero_address = ''0x0000000000000000000000000000000000000000''"

definition quantity_int :: "pv \<Rightarrow> ev_error + int" where
  "quantity_int v =
     (case v of PStr s \<Rightarrow> int_of_text (if starts_with ''0x'' s then 16 else 10) s | _ \<Rightarrow> py_int v)"

definition abi_result_word :: "pv \<Rightarrow> string \<Rightarrow> ev_error + int" where
  "abi_result_word v label =
     (case v of
        PStr s \<Rightarrow>
          if starts_with ''0x'' s \<and> length s = 66
          then (case int_text 16 (drop 2 s) of
                  None \<Rightarrow> evidence_error (label @ '' returned non-hex data'')
                | Some i \<Rightarrow> Inr i)
          else evidence_error (label @ '' must return one ABI word'')
      | _ \<Rightarrow> evidence_error (label @ '' must return one ABI word''))"

definition address_word :: "string \<Rightarrow> ev_error + string" where
  "address_word a =
     thenE (ignoreE (fixed_hex_bytes (PStr a) 20 ''token-account address''))
       (let s = lower (removeprefix ''0x'' a) in Inr (replicate (64 - length s) CHR ''0'' @ s))"

section \<open>Transfer rows\<close>

record token_row =
  row_tx :: string
  row_chain :: int
  row_block :: int
  row_block_hash :: string
  row_index :: int
  row_log :: int
  row_token :: string
  row_from :: string
  row_to :: string
  row_amount :: int

definition row_order :: "token_row \<Rightarrow> int \<times> int \<times> int" where
  "row_order r = (row_block r, row_index r, row_log r)"

definition padded_address :: "bytes \<Rightarrow> bool" where
  "padded_address w \<longleftrightarrow> take 12 w = replicate 12 0"

definition receipt_row :: "string \<Rightarrow> string \<Rightarrow> tx_entry \<Rightarrow> pv \<Rightarrow> pv \<Rightarrow> ev_error + token_row" where
  "receipt_row token h e log topics =
     thenE (bindE (len_of topics) (\<lambda>n. require (n = 3) ''token Transfer has malformed topic count''))
    (bindE (bindE (nth_item topics 1) (\<lambda>t. fixed_hex_bytes t 32 ''Transfer from topic'')) (\<lambda>f.
     bindE (bindE (nth_item topics 2) (\<lambda>t. fixed_hex_bytes t 32 ''Transfer to topic'')) (\<lambda>t.
     thenE (require (padded_address f \<and> padded_address t) ''Transfer address topic is not canonically padded'')
    (bindE (bindE (get_none log ''data'') (\<lambda>d. fixed_hex_bytes d 32 ''Transfer amount'')) (\<lambda>amount.
     bindE (bindE (item (entry_tx e) ''transaction'') (\<lambda>x. int_item x ''chainId'')) (\<lambda>chain.
     bindE (bindE (item (entry_receipt e) ''blockNumber'') quantity_int) (\<lambda>bn.
     bindE (norm_item (entry_receipt e) ''blockHash'') (\<lambda>bh.
     bindE (bindE (item (entry_receipt e) ''transactionIndex'') quantity_int) (\<lambda>ti.
     bindE (bindE (item log ''logIndex'') quantity_int) (\<lambda>li.
       Inr \<lparr>row_tx = h, row_chain = chain, row_block = bn, row_block_hash = bh, row_index = ti, row_log = li,
            row_token = token, row_from = ''0x'' @ to_hex (drop 12 f), row_to = ''0x'' @ to_hex (drop 12 t),
            row_amount = int (be_nat amount)\<rparr>))))))))))"

definition receipt_log_rows :: "string \<Rightarrow> string \<Rightarrow> tx_entry \<Rightarrow> pv \<Rightarrow> ev_error + token_row list" where
  "receipt_log_rows token h e log =
     bindE (get_in log ''topics'' (PList [])) (\<lambda>topics.
     bindE (skip_log token log topics) (\<lambda>skip.
     if skip then Inr [] else bindE (receipt_row token h e log topics) (\<lambda>r. Inr [r])))"

definition transfer_rows_from_receipts :: "tx_map \<Rightarrow> string \<Rightarrow> ev_error + token_row list" where
  "transfer_rows_from_receipts txs token =
     bindE (mapE (\<lambda>(h, e).
        bindE (bindE (get_in (entry_receipt e) ''logs'' (PList [])) iter_of) (\<lambda>logs.
        bindE (mapE (receipt_log_rows token h e) logs) (\<lambda>rs. Inr (concat rs)))) txs)
       (\<lambda>rss. Inr (sort_key row_order (concat rss)))"

text \<open>The rows of \<^verbatim>\<open>eth_getLogs\<close>; the sweep names the token and the Transfer topic itself.\<close>

definition swept_row :: "int \<Rightarrow> pv \<Rightarrow> ev_error + token_row" where
  "swept_row chain_id log =
     bindE (normalize_log log) (\<lambda>n.
     thenE (require (\<not> ll_removed n) ''chain-wide Transfer sweep contains a removed log'')
    (thenE (require (length (ll_topics n) = 3) ''chain-wide token Transfer has malformed topic count'')
    (bindE (fromhexE (drop 2 (ll_topics n ! 1))) (\<lambda>f.
     bindE (fromhexE (drop 2 (ll_topics n ! 2))) (\<lambda>t.
     thenE (require (length f = 32 \<and> length t = 32 \<and> padded_address f \<and> padded_address t)
              ''chain-wide Transfer address topic is malformed'')
    (bindE (fixed_hex_bytes (PStr (ll_data n)) 32 ''Transfer amount'') (\<lambda>amount.
       Inr \<lparr>row_tx = ll_tx_hash n, row_chain = chain_id, row_block = ll_block n, row_block_hash = ll_block_hash n,
            row_index = ll_tx_index n, row_log = ll_log_index n, row_token = lower (ll_address n),
            row_from = ''0x'' @ to_hex (drop 12 f), row_to = ''0x'' @ to_hex (drop 12 t),
            row_amount = int (be_nat amount)\<rparr>)))))))"

definition rpc_transfer_rows :: "node \<Rightarrow> string \<Rightarrow> int \<Rightarrow> int \<Rightarrow> int \<Rightarrow> ev_error + token_row list" where
  "rpc_transfer_rows N token chain_id start end =
     bindE (rpc N ''eth_getLogs'' [PDict
       [(''address'', PStr token), (''fromBlock'', PStr (quantity_of start)), (''toBlock'', PStr (quantity_of end)),
        (''topics'', PList [PStr transfer_topic])]]) (\<lambda>logs.
     thenE (require (is_list logs) ''eth_getLogs did not return a list'')
    (bindE (mapE (swept_row chain_id) (list_of logs)) (\<lambda>rows. Inr (sort_key row_order rows))))"

definition assert_transfer_coverage :: "token_row list \<Rightarrow> token_row list \<Rightarrow> ev_error + unit" where
  "assert_transfer_coverage receipt_rows rpc_rows =
     require (receipt_rows = rpc_rows) ''chain-wide Transfer sweep differs from all retained transaction receipts''"

section \<open>Reconciling deltas\<close>

type_synonym balances = "(string \<times> int) list"

text \<open>One transfer moves the expected deltas of its two accounts; the zero address is mint and burn.\<close>

definition debit :: "balances \<times> int \<Rightarrow> string \<Rightarrow> int \<Rightarrow> ev_error + balances \<times> int" where
  "debit st source amount = (case st of (expected, supply) \<Rightarrow>
     if source = zero_address then Inr (expected, supply + amount)
     else (case map_of expected source of
             None \<Rightarrow> evidence_error ''Transfer source is absent from balance observations''
           | Some d \<Rightarrow> Inr (dset source (d - amount) expected, supply)))"

definition credit :: "balances \<times> int \<Rightarrow> string \<Rightarrow> int \<Rightarrow> ev_error + balances \<times> int" where
  "credit st target amount = (case st of (expected, supply) \<Rightarrow>
     if target = zero_address then Inr (expected, supply - amount)
     else (case map_of expected target of
             None \<Rightarrow> evidence_error ''Transfer recipient is absent from balance observations''
           | Some d \<Rightarrow> Inr (dset target (d + amount) expected, supply)))"

definition apply_event :: "balances \<times> int \<Rightarrow> token_row \<Rightarrow> ev_error + balances \<times> int" where
  "apply_event st ev =
     thenE (require (0 \<le> row_amount ev) ''Transfer amount must be a nonnegative integer'')
    (bindE (debit st (row_from ev) (row_amount ev)) (\<lambda>st'. credit st' (row_to ev) (row_amount ev)))"

definition account_delta :: "balances \<Rightarrow> string \<times> int \<Rightarrow> ev_error + string \<times> int" where
  "account_delta after ab =
     (case map_of after (fst ab) of
        None \<Rightarrow> Inl (Builtin (KeyError (fst ab)))
      | Some a \<Rightarrow>
          thenE (require (0 \<le> snd ab \<and> 0 \<le> a) ''balance snapshots must be nonnegative integers'')
            (Inr (fst ab, a - snd ab)))"

text \<open>Two dictionaries with the same keys are equal when they agree on every key.\<close>

definition same_deltas :: "balances \<Rightarrow> balances \<Rightarrow> bool" where
  "same_deltas a b \<longleftrightarrow>
     set (map fst a) = set (map fst b) \<and> list_all (\<lambda>k. map_of a k = map_of b k) (map fst a)"

definition validate_transaction_deltas ::
  "token_row list \<Rightarrow> balances \<Rightarrow> balances \<Rightarrow> int \<Rightarrow> int \<Rightarrow> ev_error + balances" where
  "validate_transaction_deltas events before after supply_before supply_after =
     thenE (require (set (map fst after) = set (map fst before))
              ''before/after balance snapshots cover different accounts'')
    (bindE (foldE apply_event (map (\<lambda>ab. (fst ab, 0)) before, 0) events) (\<lambda>(expected, supply_delta).
     bindE (mapE (account_delta after) before) (\<lambda>actual.
     thenE (require (same_deltas actual expected) ''balance deltas do not reconcile to Transfer events'')
    (thenE (require (supply_after - supply_before = supply_delta)
              ''totalSupply delta does not reconcile to mint/burn events'')
       (Inr actual)))))"

section \<open>Boundaries\<close>

definition call_word :: "node \<Rightarrow> string \<Rightarrow> string \<Rightarrow> pv \<Rightarrow> string \<Rightarrow> ev_error + int" where
  "call_word N token cd ref label =
     bindE (rpc N ''eth_call'' [PDict [(''to'', PStr token), (''data'', PStr cd)], ref]) (\<lambda>v. abi_result_word v label)"

definition read_balances :: "node \<Rightarrow> string \<Rightarrow> string list \<Rightarrow> pv \<Rightarrow> string \<Rightarrow> ev_error + balances" where
  "read_balances N token accounts ref label =
     mapE (\<lambda>a. bindE (address_word a) (\<lambda>w.
        bindE (call_word N token (''0x70a08231'' @ w) ref (''balanceOf('' @ label @ '')'')) (\<lambda>b. Inr (a, b)))) accounts"

text \<open>Balances and supply at one block; all zero when the token has no code there.\<close>

definition read_state ::
  "node \<Rightarrow> string \<Rightarrow> string list \<Rightarrow> bool \<Rightarrow> pv option \<Rightarrow> string \<Rightarrow> ev_error + balances \<times> int" where
  "read_state N token accounts deployed ref label =
     (if \<not> deployed then Inr (map (\<lambda>a. (a, 0)) accounts, 0)
      else (case ref of
         None \<Rightarrow> evidence_error ''deployed token lacks a preceding canonical block''
       | Some r \<Rightarrow>
           bindE (read_balances N token accounts r label) (\<lambda>bs.
           bindE (call_word N token ''0x18160ddd'' r (''totalSupply('' @ label @ '')'')) (\<lambda>s. Inr (bs, s)))))"

definition entry_key :: "tx_entry \<Rightarrow> ev_error + int \<times> int" where
  "entry_key e =
     bindE (bindE (item (entry_receipt e) ''blockNumber'') quantity_int) (\<lambda>b.
     bindE (bindE (item (entry_receipt e) ''transactionIndex'') quantity_int) (\<lambda>i. Inr (b, i)))"

definition ordered_entries :: "tx_map \<Rightarrow> ev_error + ((int \<times> int) \<times> string \<times> tx_entry) list" where
  "ordered_entries txs =
     bindE (mapE (\<lambda>he. bindE (entry_key (snd he)) (\<lambda>k. Inr (k, he))) txs) (\<lambda>ks. Inr (sort_key fst ks))"

definition block_numbers :: "((int \<times> int) \<times> string \<times> tx_entry) list \<Rightarrow> int list" where
  "block_numbers ordered = map (\<lambda>k. fst (fst k)) ordered"

definition min_int :: "int list \<Rightarrow> int" where
  "min_int xs = foldl min (hd xs) (tl xs)"

definition contiguous_blocks :: "int list \<Rightarrow> ev_error + unit" where
  "contiguous_blocks bs = checks
     [require (distinct bs) ''per-transaction snapshots require one transaction per block'',
      require (set bs = set [min_int bs..max_int bs])
        ''captured execution has an unobserved block between transaction boundaries'']"

definition tx_block :: "node \<Rightarrow> (int \<times> int) \<times> string \<times> tx_entry \<Rightarrow> ev_error + int \<times> pv" where
  "tx_block N k = (case k of ((number, index), h, e) \<Rightarrow>
     bindE (block_by_number N number) (\<lambda>block.
     bindE (block_txs N number) (\<lambda>txs.
     bindE (len_of txs) (\<lambda>n.
     thenE (require (n = 1) (''block '' @ int_str number @ '' has '' @ nat_str n
              @ '' transactions; intermediate balances are unavailable''))
    (thenE (reject_if (anyE
        [neqE (bindE (nth_item txs 0) (\<lambda>t. norm_get t ''hash'')) (norm_item (entry_receipt e) ''transactionHash''),
         Inr (index \<noteq> 0)])
        (''block '' @ int_str number @ '' transaction does not match retained receipt at index zero''))
       (Inr (number, block)))))))"

record observation =
  ob_tx :: string
  ob_number :: int
  ob_index :: int
  ob_block :: pv
  ob_before_block :: "pv option"
  ob_code_before :: bool
  ob_code_after :: bool
  ob_before :: balances
  ob_after :: balances
  ob_supply_before :: int
  ob_supply_after :: int
  ob_deltas :: balances
  ob_events :: "token_row list"

definition hash_ref :: "pv \<Rightarrow> ev_error + pv" where
  "hash_ref block = bindE (item block ''hash'') (\<lambda>h. Inr (PDict [(''blockHash'', h), (''requireCanonical'', PBool True)]))"

definition previous_block :: "node \<Rightarrow> int \<Rightarrow> ev_error + (pv \<times> pv) option" where
  "previous_block N number =
     (if number - 1 < 0 then Inr None
      else bindE (block_by_number N (number - 1)) (\<lambda>b. bindE (hash_ref b) (\<lambda>r. Inr (Some (b, r)))))"

definition code_present :: "node \<Rightarrow> string \<Rightarrow> pv \<Rightarrow> ev_error + bool" where
  "code_present N token ref = bindE (rpc N ''eth_getCode'' [PStr token, ref]) (\<lambda>c. Inr (c \<noteq> PStr ''0x''))"

definition for_transaction :: "string \<Rightarrow> ev_error + 'a \<Rightarrow> ev_error + 'a" where
  "for_transaction h m = (case m of Inl (EvidenceError t) \<Rightarrow> evidence_error (t @ '' for '' @ h) | _ \<Rightarrow> m)"

definition observe ::
  "node \<Rightarrow> string \<Rightarrow> string list \<Rightarrow> int \<Rightarrow> (int \<times> pv) list \<Rightarrow> token_row list
   \<Rightarrow> (int \<times> int) \<times> string \<times> tx_entry \<Rightarrow> ev_error + observation" where
  "observe N token accounts deployed_at blocks rows k = (case k of ((number, index), h, e) \<Rightarrow>
     bindE (case map_of blocks number of None \<Rightarrow> Inl (Builtin (KeyError (int_str number))) | Some b \<Rightarrow> Inr b) (\<lambda>block.
     bindE (previous_block N number) (\<lambda>prev.
     bindE (hash_ref block) (\<lambda>after_ref.
     bindE (case prev of None \<Rightarrow> Inr False | Some (b, r) \<Rightarrow> code_present N token r) (\<lambda>cb.
     bindE (code_present N token after_ref) (\<lambda>ca.
     thenE (require (\<not> (number < deployed_at \<and> ca)) ''token code appeared before its retained deployment event'')
    (thenE (require (\<not> (deployed_at \<le> number \<and> \<not> ca)) ''token code is absent after its retained deployment event'')
    (bindE (read_state N token accounts cb (map_option snd prev) ''before'') (\<lambda>(before, sb).
     bindE (read_state N token accounts ca (Some after_ref) ''after'') (\<lambda>(after, sa).
     (let events = filter (\<lambda>r. row_tx r = h) rows
      in bindE (for_transaction h (validate_transaction_deltas events before after sb sa)) (\<lambda>deltas.
         Inr \<lparr>ob_tx = h, ob_number = number, ob_index = index, ob_block = block, ob_before_block = map_option fst prev,
              ob_code_before = cb, ob_code_after = ca, ob_before = before, ob_after = after,
              ob_supply_before = sb, ob_supply_after = sa, ob_deltas = deltas, ob_events = events\<rparr>))))))))))))"

definition deployment_block :: "token_row list \<Rightarrow> ev_error + int" where
  "deployment_block rows =
     (case filter (\<lambda>r. row_from r = zero_address \<and> row_to r \<noteq> zero_address) rows of
        [r] \<Rightarrow> Inr (row_block r)
      | _ \<Rightarrow> evidence_error ''expected exactly one local token mint/deployment event'')"

definition checked_accounts :: "pv \<Rightarrow> token_row list \<Rightarrow> ev_error + string list" where
  "checked_accounts m rows =
     bindE (norm_item m ''deployer'') (\<lambda>d.
     bindE (bindE (item m ''contracts'') (\<lambda>c. norm_item c ''reserve'')) (\<lambda>r.
     bindE (bindE (item m ''contracts'') (\<lambda>c. norm_item c ''allocator'')) (\<lambda>a.
       Inr (sort (remdups ([d, r, a] @ map (\<lambda>x. lower (fst x)) recipients
              @ filter (\<lambda>x. x \<noteq> zero_address) (map row_from rows @ map row_to rows)))))))"

section \<open>The capture\<close>

record accounting =
  ac_ordered :: "((int \<times> int) \<times> string \<times> tx_entry) list"
  ac_receipt_rows :: "token_row list"
  ac_rpc_rows :: "token_row list"
  ac_accounts :: "string list"
  ac_history :: "observation list"
  ac_blocks :: "(int \<times> pv) list"

definition establish_accounting :: "node \<Rightarrow> pv \<Rightarrow> string \<Rightarrow> tx_map \<Rightarrow> ev_error + accounting" where
  "establish_accounting N m token txs =
     bindE (ordered_entries txs) (\<lambda>ordered.
     thenE (contiguous_blocks (block_numbers ordered))
    (bindE (mapE (tx_block N) ordered) (\<lambda>blocks.
     bindE (transfer_rows_from_receipts txs token) (\<lambda>rows.
     bindE (bindE (item m ''chainId'') number_of) (\<lambda>chain.
     bindE (rpc_transfer_rows N token chain (min_int (block_numbers ordered)) (max_int (block_numbers ordered))) (\<lambda>swept.
     thenE (assert_transfer_coverage rows swept)
    (bindE (deployment_block rows) (\<lambda>deployed_at.
     bindE (checked_accounts m rows) (\<lambda>accounts.
     bindE (mapE (observe N token accounts deployed_at blocks rows) ordered) (\<lambda>history.
       Inr \<lparr>ac_ordered = ordered, ac_receipt_rows = rows, ac_rpc_rows = swept, ac_accounts = accounts,
            ac_history = history, ac_blocks = blocks\<rparr>))))))))))"

definition balances_pv :: "balances \<Rightarrow> pv" where
  "balances_pv bs = PDict (map (\<lambda>(a, n). (a, PInt n)) bs)"

definition row_pv :: "token_row \<Rightarrow> pv" where
  "row_pv r = PDict
    [(''transactionHash'', PStr (row_tx r)), (''chainId'', PInt (row_chain r)), (''blockNumber'', PInt (row_block r)),
     (''blockHash'', PStr (row_block_hash r)), (''transactionIndex'', PInt (row_index r)), (''logIndex'', PInt (row_log r)),
     (''token'', PStr (row_token r)), (''from'', PStr (row_from r)), (''to'', PStr (row_to r)), (''amount'', PInt (row_amount r))]"

definition block_point :: "int \<Rightarrow> pv \<Rightarrow> ev_error + pv" where
  "block_point n b = bindE (norm_item b ''hash'') (\<lambda>h. Inr (PDict [(''number'', PInt n), (''hash'', PStr h)]))"

definition observation_pv :: "observation \<Rightarrow> ev_error + pv" where
  "observation_pv o' = dictE
    [(''transactionHash'', Inr (PStr (ob_tx o'))), (''blockNumber'', Inr (PInt (ob_number o'))),
     (''blockHash'', bindE (norm_item (ob_block o') ''hash'') (\<lambda>h. Inr (PStr h))),
     (''parentHash'', bindE (norm_item (ob_block o') ''parentHash'') (\<lambda>h. Inr (PStr h))),
     (''transactionIndex'', Inr (PInt (ob_index o'))),
     (''beforeBlock'', case ob_before_block o' of None \<Rightarrow> Inr PNone | Some b \<Rightarrow> block_point (ob_number o' - 1) b),
     (''afterBlock'', block_point (ob_number o') (ob_block o')),
     (''tokenCodePresentBefore'', Inr (PBool (ob_code_before o'))),
     (''tokenCodePresentAfter'', Inr (PBool (ob_code_after o'))),
     (''totalSupplyBefore'', Inr (PInt (ob_supply_before o'))), (''totalSupplyAfter'', Inr (PInt (ob_supply_after o'))),
     (''balancesBefore'', Inr (balances_pv (ob_before o'))), (''balancesAfter'', Inr (balances_pv (ob_after o'))),
     (''balanceDeltas'', Inr (balances_pv (ob_deltas o'))), (''transferEvents'', Inr (PList (map row_pv (ob_events o'))))]"

definition coverage_section :: "accounting \<Rightarrow> pv" where
  "coverage_section A = PDict
    [(''executionTransactions'', PInt (int (length (ac_ordered A)))),
     (''transactionsWithUniqueBlockBoundary'', PInt (int (length (ac_history A)))),
     (''transferLogsInReceipts'', PInt (int (length (ac_receipt_rows A)))),
     (''transferLogsFromRpcSweep'', PInt (int (length (ac_rpc_rows A)))),
     (''transferReceiptCoverage'', PStr ''complete within captured blocks for this RPC''),
     (''fromBlock'', PInt (min_int (block_numbers (ac_ordered A)))),
     (''toBlock'', PInt (max_int (block_numbers (ac_ordered A)))),
     (''checkedAccounts'', PList (map PStr (ac_accounts A))),
     (''allBalanceDeltasMatchTransferLogs'', PBool True), (''supplyDeltasMatchMintBurnLogs'', PBool True)]"

definition final_state :: "accounting \<Rightarrow> balances \<times> int" where
  "final_state A =
     (if ac_history A = [] then (map (\<lambda>a. (a, 0)) (ac_accounts A), 0)
      else (ob_after (last (ac_history A)), ob_supply_after (last (ac_history A))))"

definition token_section :: "string \<Rightarrow> pv \<Rightarrow> int \<Rightarrow> ev_error + pv" where
  "token_section token runtime decimals = dictE
    [(''address'', Inr (PStr token)),
     (''runtimeCodeSha256'', bindE (lower_item runtime ''sha256'') (\<lambda>s. Inr (PStr s))),
     (''runtimeCodeKeccak256'', bindE (lower_item runtime ''keccak256'') (\<lambda>s. Inr (PStr s))),
     (''decimals'', Inr (PInt decimals)),
     (''behaviorScope'', Inr (PStr ''Pinned local token runtime only; no fee-on-transfer, rebasing, native-value, or arbitrary-token claim.''))]"

definition accounting_limitations :: "string list" where
  "accounting_limitations =
    [''The RPC provider supplies both historical state reads and eth_getLogs; this is provider-relative evidence.'',
     ''Intermediate same-block states are unsupported and cause rejection rather than inferred ordering.'',
     ''Only the pinned local token implementation is covered; fee-on-transfer, rebasing and arbitrary token behavior are excluded.'',
     ''This is not a public-chain finality or consensus proof.'']"

definition capture_accounting :: "evidence_lib \<Rightarrow> raw_dir \<Rightarrow> node \<Rightarrow> ev_error + pv" where
  "capture_accounting L raw N =
     thenE (ignoreE (reconstruct L raw None))
    (bindE (verify_live_chain_context L raw N None) (\<lambda>live.
     bindE (read_json L raw ''deployment-manifest.json'') (\<lambda>m.
     bindE (read_json L raw ''capture-metadata.json'') (\<lambda>c.
     bindE (load_receipts L raw) (\<lambda>(txs, sources).
     bindE (bindE (item m ''contracts'') (\<lambda>cs. norm_item cs ''token'')) (\<lambda>token.
     bindE (establish_accounting N m token txs) (\<lambda>A.
     bindE (case map_of (ac_blocks A) (max_int (block_numbers (ac_ordered A))) of
              None \<Rightarrow> Inl (Builtin (KeyError ''end'')) | Some b \<Rightarrow> norm_item b ''hash'') (\<lambda>h.
     bindE (call_word N token ''0x313ce567'' (block_ref h) ''decimals'') (\<lambda>decimals.
     bindE (bindE (bindE (read_json L raw ''runtime-code-observations.json'') (\<lambda>r. item r ''contracts'')) (\<lambda>r. item r ''token'')) (\<lambda>runtime.
     dictE
      [(''schema'', Inr (PStr ''eae.pro-29-token-accounting-observations.v1'')),
       (''classification'', Inr (PStr ''localOnly provider-relative Anvil observation; not public-chain finality or consensus proof'')),
       (''deploymentManifestDigest'', item m ''manifestDigest''),
       (''captureId'', item c ''captureId''),
       (''sourceRevision'', bindE (sub_dict c ''source'') (\<lambda>s. get_none s ''revision'')),
       (''chainId'', item m ''chainId''),
       (''localChainIdentity'', item live ''localChainIdentity''),
       (''token'', token_section token runtime decimals),
       (''coverage'', Inr (coverage_section A)),
       (''transactions'', bindE (mapE observation_pv (ac_history A)) (\<lambda>os. Inr (PList os))),
       (''finalBalances'', Inr (balances_pv (fst (final_state A)))),
       (''finalTotalSupply'', Inr (PInt (snd (final_state A)))),
       (''limitations'', Inr (PList (map PStr accounting_limitations)))]))))))))))"

definition verify_accounting :: "evidence_lib \<Rightarrow> raw_dir \<Rightarrow> pv \<Rightarrow> node \<Rightarrow> ev_error + pv" where
  "verify_accounting L raw supplied N =
     bindE (capture_accounting L raw N) (\<lambda>regenerated.
     thenE (require (py_eq supplied regenerated)
              ''token accounting observations differ from independent live reconstruction'')
       (Inr regenerated))"

end
