(* ===== verification/Token_Theorems.thy ===== *)
theory Token_Theorems
  imports Token_Accounting
begin

text \<open>
  Conservation: the balance deltas accepted for a transaction are the net flows of its transfers and
  add up to the supply delta; over a captured history the states of consecutive transactions meet, so
  the sum of the balances equals the total supply at every boundary.
\<close>

abbreviation total :: "balances \<Rightarrow> int" where
  "total bs \<equiv> sum_list (map snd bs)"

section \<open>Deltas of one transaction\<close>

lemma total_dset: "distinct (map fst bs) \<Longrightarrow> map_of bs k = Some d \<Longrightarrow> total (dset k v bs) = total bs - d + v"
proof (induction bs)
  case (Cons b bs)
  then show ?case by (cases b) (auto split: if_splits dest: map_of_SomeD)
qed simp

lemma keys_dset: "map_of bs k = Some d \<Longrightarrow> map fst (dset k v bs) = map fst bs"
  by (induction bs) (auto split: if_splits)

definition net_flow :: "token_row list \<Rightarrow> string \<Rightarrow> int" where
  "net_flow events a = sum_list (map (\<lambda>e. (if row_to e = a then row_amount e else 0)
     - (if row_from e = a then row_amount e else 0)) events)"

definition minted :: "token_row list \<Rightarrow> int" where
  "minted events = - net_flow events zero_address"

text \<open>The running state of the reconciliation: same keys, balanced, and the net flows so far.\<close>

definition running :: "balances \<Rightarrow> token_row list \<Rightarrow> balances \<times> int \<Rightarrow> bool" where
  "running before past st \<longleftrightarrow>
     map fst (fst st) = map fst before \<and> total (fst st) = snd st \<and> snd st = minted past
     \<and> (\<forall>a d. a \<noteq> zero_address \<longrightarrow> map_of (fst st) a = Some d \<longrightarrow> d = net_flow past a)"

lemma debit_Inr:
  assumes "debit (ex, s) a n = Inr st" and "distinct (map fst ex)"
  shows "(a = zero_address \<and> st = (ex, s + n)) \<or>
    (a \<noteq> zero_address \<and> (\<exists>d. map_of ex a = Some d \<and> st = (dset a (d - n) ex, s)
       \<and> total (dset a (d - n) ex) = total ex - n \<and> map fst (dset a (d - n) ex) = map fst ex))"
  using assms by (auto simp: debit_def total_dset keys_dset split: if_splits option.splits)

lemma credit_Inr:
  assumes "credit (ex, s) a n = Inr st" and "distinct (map fst ex)"
  shows "(a = zero_address \<and> st = (ex, s - n)) \<or>
    (a \<noteq> zero_address \<and> (\<exists>d. map_of ex a = Some d \<and> st = (dset a (d + n) ex, s)
       \<and> total (dset a (d + n) ex) = total ex + n \<and> map fst (dset a (d + n) ex) = map fst ex))"
  using assms by (auto simp: credit_def total_dset keys_dset split: if_splits option.splits)

lemma net_flow_snoc: "net_flow (past @ [e]) a = net_flow past a
    + (if row_to e = a then row_amount e else 0) - (if row_from e = a then row_amount e else 0)"
  by (simp add: net_flow_def)

lemma apply_event_running:
  assumes "running before past st" and "apply_event st e = Inr st'" and "distinct (map fst before)"
  shows "running before (past @ [e]) st'"
proof -
  obtain ex s where st: "st = (ex, s)" by (cases st)
  from assms(2) st obtain mid where mid: "debit (ex, s) (row_from e) (row_amount e) = Inr mid"
    "credit mid (row_to e) (row_amount e) = Inr st'"
    by (auto simp: apply_event_def check_iff bindE_Inr_iff)
  obtain ex1 s1 where m: "mid = (ex1, s1)" by (cases mid)
  have d0: "distinct (map fst ex)" using assms(1,3) st by (simp add: running_def)
  note deb = debit_Inr [OF mid(1) d0]
  have d1: "distinct (map fst ex1)" using deb m d0 by auto
  note cre = credit_Inr [OF mid(2) [unfolded m] d1]
  show ?thesis
    using assms(1) deb cre st m
    by (auto simp: running_def minted_def net_flow_snoc split: if_splits)
qed

lemma events_running:
  assumes "running before past st" and "foldE apply_event st events = Inr st'" and "distinct (map fst before)"
  shows "running before (past @ events) st'"
  using assms
proof (induction events arbitrary: past st)
  case Nil
  then show ?case by simp
next
  case (Cons e events)
  then obtain t where t: "apply_event st e = Inr t" "foldE apply_event t events = Inr st'"
    by (auto simp: bindE_Inr_iff)
  from Cons.IH [OF apply_event_running [OF Cons.prems(1) t(1) Cons.prems(3)] t(2) Cons.prems(3)]
  show ?case by simp
qed

lemma total_zeros: "total (map (\<lambda>ab. (fst ab, 0)) bs) = 0"
  by (induction bs) auto

lemma total_same_deltas:
  assumes "same_deltas a b" and "distinct (map fst a)" and "distinct (map fst b)"
  shows "total a = total b"
proof -
  have m: "map_of a = map_of b"
  proof
    fix k show "map_of a k = map_of b k"
    proof (cases "k \<in> set (map fst a)")
      case True
      with assms(1) show ?thesis unfolding same_deltas_def list_all_iff by blast
    next
      case False
      have "k \<notin> set (map fst b)" using False assms(1) unfolding same_deltas_def by blast
      with False have "map_of a k = None" "map_of b k = None" by (simp_all add: map_of_eq_None_iff)
      then show ?thesis by simp
    qed
  qed
  have "total x = sum (\<lambda>k. the (map_of x k)) (set (map fst x))" if "distinct (map fst x)" for x :: balances
    using that
  proof (induction x)
    case (Cons kv x)
    have "(\<Sum>k\<in>set (map fst x). the (map_of (kv # x) k)) = (\<Sum>k\<in>set (map fst x). the (map_of x k))"
      using Cons.prems by (intro sum.cong) (auto simp: image_iff)
    with Cons show ?case by (cases kv) simp
  qed simp
  with assms m show ?thesis by (simp add: same_deltas_def)
qed

lemma account_deltas:
  "mapE (account_delta after) before = Inr actual \<Longrightarrow>
     map fst actual = map fst before \<and> (\<forall>a d. (a, d) \<in> set actual \<longrightarrow> (\<exists>b. (a, b) \<in> set before \<and> map_of after a = Some (b + d)))"
proof (induction before arbitrary: actual)
  case (Cons ab before)
  then show ?case
    by (auto simp: bindE_Inr_iff account_delta_def check_iff split: option.splits) (metis surjective_pairing)+
qed simp

lemma total_actual:
  assumes "mapE (account_delta after) before = Inr actual" and "distinct (map fst before)"
  shows "total actual = (\<Sum>k\<in>set (map fst before). the (map_of after k)) - total before"
  using assms
proof (induction before arbitrary: actual)
  case (Cons ab before)
  then show ?case
    by (cases ab) (auto simp: bindE_Inr_iff account_delta_def check_iff split: option.splits)
qed simp

lemma validated_deltas:
  assumes "validate_transaction_deltas events before after sb sa = Inr actual" and "distinct (map fst before)"
  shows "map fst actual = map fst before \<and> total actual = sa - sb \<and> sa - sb = minted events
    \<and> (\<forall>(a, d) \<in> set actual. (a \<noteq> zero_address \<longrightarrow> d = net_flow events a)
         \<and> (\<exists>b. (a, b) \<in> set before \<and> map_of after a = Some (b + d)))
    \<and> set (map fst after) = set (map fst before)
    \<and> total actual = (\<Sum>k\<in>set (map fst before). the (map_of after k)) - total before"
proof -
  from assms(1) obtain ex s where
    keys: "set (map fst after) = set (map fst before)"
    and run: "foldE apply_event (map (\<lambda>ab. (fst ab, 0)) before, 0) events = Inr (ex, s)"
    and act: "mapE (account_delta after) before = Inr actual"
    and same: "same_deltas actual ex" and s: "sa - sb = s"
    by (auto simp: validate_transaction_deltas_def bindE_Inr_iff check_iff)
  have "running before [] (map (\<lambda>ab. (fst ab, 0)) before, 0)"
    by (auto simp: running_def minted_def net_flow_def total_zeros comp_def dest: map_of_SomeD)
  from events_running [OF this run assms(2)] have r: "running before events (ex, s)" by simp
  note ad = account_deltas [OF act]
  have dact: "distinct (map fst actual)" "distinct (map fst ex)" using ad r assms(2) by (simp_all add: running_def)
  have tot: "total actual = s" using total_same_deltas [OF same dact] r by (simp add: running_def)
  have "d = net_flow events a" if "(a, d) \<in> set actual" "a \<noteq> zero_address" for a d
  proof -
    have "map_of actual a = Some d" using that(1) dact(1) by (auto intro: map_of_is_SomeI)
    moreover have "a \<in> set (map fst actual)" using that(1) by force
    ultimately have "map_of ex a = Some d" using same unfolding same_deltas_def list_all_iff by metis
    with r that(2) show ?thesis by (auto simp: running_def)
  qed
  with ad keys tot s r total_actual [OF act assms(2)] show ?thesis by (fastforce simp: running_def)
qed

lemma total_by_keys: "distinct (map fst x) \<Longrightarrow> total x = (\<Sum>k\<in>set (map fst x). the (map_of x k))"
proof (induction x)
  case (Cons kv x)
  have "(\<Sum>k\<in>set (map fst x). the (map_of (kv # x) k)) = (\<Sum>k\<in>set (map fst x). the (map_of x k))"
    using Cons.prems by (intro sum.cong) (auto simp: image_iff)
  with Cons show ?case by (cases kv) simp
qed simp

lemma validated_totals:
  assumes "validate_transaction_deltas events before after sb sa = Inr actual"
    and "distinct (map fst before)" and "distinct (map fst after)"
  shows "total after - total before = sa - sb"
  using validated_deltas [OF assms(1,2)] total_by_keys [OF assms(3)] by auto

text \<open>
  When the deltas of a transaction are accepted, every account's observed change is the net flow of
  the transfers for it, the change of the total supply is what was minted less what was burnt, and the
  sum of the balances changes by exactly the same amount.
\<close>

theorem accepted_deltas_conserve:
  assumes "validate_transaction_deltas events before after sb sa = Inr actual"
    and "distinct (map fst before)" and "distinct (map fst after)"
  shows "list_all (\<lambda>(a, d). d = the (map_of after a) - the (map_of before a)
      \<and> (a = zero_address \<or> d = net_flow events a)) actual
    \<and> map fst actual = map fst before \<and> sa - sb = minted events \<and> total after - total before = sa - sb"
proof -
  note v = validated_deltas [OF assms(1,2)]
  have "d = the (map_of after a) - the (map_of before a) \<and> (a = zero_address \<or> d = net_flow events a)"
    if "(a, d) \<in> set actual" for a d
  proof -
    from v that obtain b where b: "(a, b) \<in> set before" "map_of after a = Some (b + d)"
      "a \<noteq> zero_address \<longrightarrow> d = net_flow events a" by blast
    have "map_of before a = Some b" using b(1) assms(2) by (auto intro: map_of_is_SomeI)
    with b show ?thesis by auto
  qed
  with v validated_totals [OF assms] show ?thesis by (auto simp: list_all_iff)
qed

definition sample_row :: "string \<Rightarrow> string \<Rightarrow> string \<Rightarrow> int \<Rightarrow> token_row" where
  "sample_row h src tgt n = \<lparr>row_tx = h, row_chain = 31337, row_block = 1, row_block_hash = ''0x01'', row_index = 0,
     row_log = 0, row_token = ''0x09'', row_from = src, row_to = tgt, row_amount = n\<rparr>"

theorem accepted_deltas_conserve_witness:
  "\<exists>actual. validate_transaction_deltas
      [sample_row ''t'' zero_address ''a'' 50, sample_row ''t'' ''a'' ''b'' 30, sample_row ''t'' ''b'' zero_address 5]
      [(''a'', 10), (''b'', 1)] [(''a'', 30), (''b'', 26)] 11 56 = Inr actual
    \<and> list_all (\<lambda>(a, d). d = the (map_of [(''a'', 30), (''b'', 26)] a) - the (map_of [(''a'', 10), (''b'', 1)] a)
      \<and> (a = zero_address \<or> d = net_flow
        [sample_row ''t'' zero_address ''a'' 50, sample_row ''t'' ''a'' ''b'' 30, sample_row ''t'' ''b'' zero_address 5] a)) actual
    \<and> total [(''a'', 30), (''b'', 26 :: int)] - total [(''a'', 10), (''b'', 1)] = 56 - 11"
proof -
  have "validate_transaction_deltas
      [sample_row ''t'' zero_address ''a'' 50, sample_row ''t'' ''a'' ''b'' 30, sample_row ''t'' ''b'' zero_address 5]
      [(''a'', 10), (''b'', 1)] [(''a'', 30), (''b'', 26)] 11 56 = Inr [(''a'', 20), (''b'', 25)]"
    by code_simp
  from accepted_deltas_conserve [OF this] this show ?thesis by auto
qed

section \<open>A captured history\<close>

lemma read_balances_keys: "read_balances N token accounts r l = Inr bs \<Longrightarrow> map fst bs = accounts"
  unfolding read_balances_def
  by (induction accounts arbitrary: bs) (auto simp: bindE_Inr_iff)

lemma read_state_keys: "read_state N token accounts d r l = Inr (bs, s) \<Longrightarrow> map fst bs = accounts"
  by (auto simp: read_state_def bindE_Inr_iff comp_def read_balances_keys split: if_splits option.splits)

text \<open>The labels only name the boundary in messages.\<close>

lemma abi_result_word_label: "abi_result_word v l = Inr n \<Longrightarrow> abi_result_word v l' = Inr n"
  by (cases v) (auto simp: abi_result_word_def split: if_splits option.splits)

lemma call_word_label: "call_word N token cd r l = Inr n \<Longrightarrow> call_word N token cd r l' = Inr n"
  by (auto simp: call_word_def bindE_Inr_iff intro: abi_result_word_label)

lemma read_balances_label: "read_balances N token accounts r l = Inr bs \<Longrightarrow> read_balances N token accounts r l' = Inr bs"
  unfolding read_balances_def
  by (induction accounts arbitrary: bs) (auto simp: bindE_Inr_iff intro: call_word_label)

lemma read_state_label: "read_state N token accounts d r l = Inr st \<Longrightarrow> read_state N token accounts d r l' = Inr st"
  by (auto simp: read_state_def bindE_Inr_iff split: if_splits option.splits intro: read_balances_label call_word_label)

lemma for_transaction_Inr: "for_transaction h m = Inr x \<longleftrightarrow> m = Inr x"
  by (auto simp: for_transaction_def split: sum.splits ev_error.splits)

text \<open>The facts of one observation.\<close>

lemma observe_Inr:
  assumes "observe N token accounts dep blocks rows k = Inr ob"
  shows "\<exists>block r prev. map_of blocks (fst (fst k)) = Some block \<and> hash_ref block = Inr r
    \<and> previous_block N (fst (fst k)) = Inr prev \<and> ob_number ob = fst (fst k)
    \<and> code_present N token r = Inr (ob_code_after ob)
    \<and> (case prev of None \<Rightarrow> \<not> ob_code_before ob | Some (b, r') \<Rightarrow> code_present N token r' = Inr (ob_code_before ob))
    \<and> read_state N token accounts (ob_code_before ob) (map_option snd prev) ''before'' = Inr (ob_before ob, ob_supply_before ob)
    \<and> read_state N token accounts (ob_code_after ob) (Some r) ''after'' = Inr (ob_after ob, ob_supply_after ob)
    \<and> validate_transaction_deltas (ob_events ob) (ob_before ob) (ob_after ob) (ob_supply_before ob) (ob_supply_after ob)
        = Inr (ob_deltas ob)"
proof -
  obtain number index h e where k: "k = ((number, index), h, e)" by (cases k) auto
  have "\<exists>block prev r cb ca before sb after sa deltas.
      (case map_of blocks number of None \<Rightarrow> Inl (Builtin (KeyError (int_str number))) | Some b \<Rightarrow> Inr b) = Inr block
      \<and> previous_block N number = Inr prev \<and> hash_ref block = Inr r
      \<and> (case prev of None \<Rightarrow> Inr False | Some (b, r) \<Rightarrow> code_present N token r) = Inr cb
      \<and> code_present N token r = Inr ca
      \<and> read_state N token accounts cb (map_option snd prev) ''before'' = Inr (before, sb)
      \<and> read_state N token accounts ca (Some r) ''after'' = Inr (after, sa)
      \<and> validate_transaction_deltas (filter (\<lambda>r. row_tx r = h) rows) before after sb sa = Inr deltas
      \<and> ob = \<lparr>ob_tx = h, ob_number = number, ob_index = index, ob_block = block, ob_before_block = map_option fst prev,
              ob_code_before = cb, ob_code_after = ca, ob_before = before, ob_after = after,
              ob_supply_before = sb, ob_supply_after = sa, ob_deltas = deltas, ob_events = filter (\<lambda>r. row_tx r = h) rows\<rparr>"
    using assms unfolding observe_def k prod.case Let_def bindE_Inr_iff thenE_Inr_iff for_transaction_Inr split_paired_Ex
    apply (elim exE conjE)
    apply (intro exI conjI)
            apply assumption+
    apply (drule sum.inject(2) [THEN iffD1])
    apply (erule sym)
    done
  then obtain block prev r cb ca before sb after sa deltas where
    b: "map_of blocks number = Some block" and f: "previous_block N number = Inr prev" "hash_ref block = Inr r"
      "(case prev of None \<Rightarrow> Inr False | Some (b, r) \<Rightarrow> code_present N token r) = Inr cb" "code_present N token r = Inr ca"
      "read_state N token accounts cb (map_option snd prev) ''before'' = Inr (before, sb)"
      "read_state N token accounts ca (Some r) ''after'' = Inr (after, sa)"
      "validate_transaction_deltas (filter (\<lambda>r. row_tx r = h) rows) before after sb sa = Inr deltas"
    and ob: "ob = \<lparr>ob_tx = h, ob_number = number, ob_index = index, ob_block = block, ob_before_block = map_option fst prev,
              ob_code_before = cb, ob_code_after = ca, ob_before = before, ob_after = after,
              ob_supply_before = sb, ob_supply_after = sa, ob_deltas = deltas, ob_events = filter (\<lambda>r. row_tx r = h) rows\<rparr>"
    unfolding option_Inl_Inr_iff by (elim exE conjE) (simp only: sum.inject)
  show ?thesis
    unfolding k fst_conv using b f
    by (intro exI [of _ block] exI [of _ r] exI [of _ prev]) (cases prev, auto simp: ob)
qed

lemma observed_totals:
  assumes "observe N token accounts dep blocks rows k = Inr ob" and "distinct accounts"
  shows "total (ob_after ob) - total (ob_before ob) = ob_supply_after ob - ob_supply_before ob"
proof -
  from observe_Inr [OF assms(1)] obtain r1 r2 where
    "read_state N token accounts (ob_code_before ob) r1 ''before'' = Inr (ob_before ob, ob_supply_before ob)"
    "read_state N token accounts (ob_code_after ob) r2 ''after'' = Inr (ob_after ob, ob_supply_after ob)"
    and v: "validate_transaction_deltas (ob_events ob) (ob_before ob) (ob_after ob) (ob_supply_before ob) (ob_supply_after ob)
        = Inr (ob_deltas ob)" by blast
  then have "map fst (ob_before ob) = accounts" "map fst (ob_after ob) = accounts" using read_state_keys by blast+
  with validated_totals [OF v] assms(2) show ?thesis by simp
qed

text \<open>The state after a transaction is the state before the transaction of the next block.\<close>

lemma observed_meet:
  assumes "observe N token accounts dep blocks rows k = Inr ob" and "observe N token accounts dep blocks rows k' = Inr ob'"
    and "fst (fst k') = fst (fst k) + 1" and "0 \<le> fst (fst k)"
    and blocks: "\<And>n b. map_of blocks n = Some b \<Longrightarrow> block_by_number N n = Inr b"
  shows "ob_before ob' = ob_after ob \<and> ob_supply_before ob' = ob_supply_after ob"
proof -
  from observe_Inr [OF assms(1)] obtain block r where
    b: "map_of blocks (fst (fst k)) = Some block" "hash_ref block = Inr r" "code_present N token r = Inr (ob_code_after ob)"
    "read_state N token accounts (ob_code_after ob) (Some r) ''after'' = Inr (ob_after ob, ob_supply_after ob)" by blast
  have "previous_block N (fst (fst k')) = Inr (Some (block, r))"
    using blocks [OF b(1)] b(2) assms(3,4) by (simp add: previous_block_def)
  with observe_Inr [OF assms(2)] have c: "code_present N token r = Inr (ob_code_before ob')"
    "read_state N token accounts (ob_code_before ob') (Some r) ''before'' = Inr (ob_before ob', ob_supply_before ob')" by auto
  from c(1) b(3) have "ob_code_before ob' = ob_code_after ob" by simp
  with read_state_label [OF b(4), of "''before''"] c(2) show ?thesis by simp
qed

lemma tx_blocks_lookup:
  "mapE (tx_block N) ks = Inr blocks \<Longrightarrow> map_of blocks n = Some b \<Longrightarrow> block_by_number N n = Inr b"
proof (induction ks arbitrary: blocks)
  case (Cons k ks)
  then obtain nb bs where nb: "tx_block N k = Inr nb" "mapE (tx_block N) ks = Inr bs" "blocks = nb # bs"
    by (auto simp: bindE_Inr_iff)
  have "block_by_number N (fst nb) = Inr (snd nb)"
    using nb(1) by (cases k) (auto simp: tx_block_def bindE_Inr_iff check_iff)
  with Cons.IH [OF nb(2)] Cons.prems(2) nb(3) show ?case by (cases nb) (auto split: if_splits)
qed simp

definition balanced :: "observation \<Rightarrow> bool" where
  "balanced ob \<longleftrightarrow> total (ob_before ob) = ob_supply_before ob \<and> total (ob_after ob) = ob_supply_after ob"

definition meets :: "observation \<Rightarrow> observation \<Rightarrow> bool" where
  "meets ob ob' \<longleftrightarrow> ob_before ob' = ob_after ob \<and> ob_supply_before ob' = ob_supply_after ob"

lemma successively_upto: "successively (\<lambda>i j. j = i + 1) [a..b]"
proof (induction "nat (b - a + 1)" arbitrary: a)
  case 0
  then show ?case by simp
next
  case (Suc n)
  then have ab: "a \<le> b" by simp
  have "successively (\<lambda>i j. j = i + 1) [a + 1..b]" using Suc by simp
  moreover have "[a + 1..b] = [] \<or> hd [a + 1..b] = a + 1" by (cases "a + 1 \<le> b") (simp_all add: upto.simps)
  ultimately show ?case unfolding upto_rec1 [OF ab] by (auto simp: successively_Cons)
qed

lemma ordered_numbers:
  assumes "ordered_entries txs = Inr ordered" and "contiguous_blocks (block_numbers ordered) = Inr ()"
  shows "successively (\<lambda>k k'. fst (fst k') = fst (fst k) + 1) ordered"
proof -
  let ?bs = "block_numbers ordered"
  from assms(1) obtain ks where "ordered = sort_key fst ks" by (auto simp: ordered_entries_def bindE_Inr_iff)
  then have "sorted (map fst ordered)" by simp
  then have "sorted (map fst (map fst ordered))"
    by (induction ordered) (auto simp: less_eq_prod_def split: if_splits)
  then have "sorted ?bs" by (simp add: block_numbers_def comp_def)
  moreover from assms(2) have "distinct ?bs" "set ?bs = set [min_int ?bs..max_int ?bs]"
    by (simp_all add: contiguous_blocks_def check_iff)
  ultimately have "?bs = [min_int ?bs..max_int ?bs]"
    by (intro sorted_distinct_set_unique) simp_all
  with successively_upto have "successively (\<lambda>i j. j = i + 1) ?bs" by metis
  then show ?thesis by (simp add: block_numbers_def successively_map)
qed

lemma history_balanced:
  assumes "mapE (observe N token accounts dep blocks rows) ks = Inr history"
    and "successively (\<lambda>k k'. fst (fst k') = fst (fst k) + 1) ks" and "list_all (\<lambda>k. 0 \<le> fst (fst k)) ks"
    and "distinct accounts" and "\<And>n b. map_of blocks n = Some b \<Longrightarrow> block_by_number N n = Inr b"
    and "history \<noteq> [] \<longrightarrow> total (ob_before (hd history)) = ob_supply_before (hd history)"
  shows "list_all balanced history \<and> successively meets history"
  using assms
proof (induction ks arbitrary: history)
  case Nil
  then show ?case by simp
next
  case (Cons k ks)
  from Cons.prems(1) obtain ob rest where ob: "observe N token accounts dep blocks rows k = Inr ob"
    "mapE (observe N token accounts dep blocks rows) ks = Inr rest" "history = ob # rest"
    by (auto simp: bindE_Inr_iff)
  have bal: "balanced ob"
    using observed_totals [OF ob(1) Cons.prems(4)] Cons.prems(6) ob(3) by (simp add: balanced_def)
  have meet: "rest \<noteq> [] \<longrightarrow> meets ob (hd rest)"
  proof
    assume "rest \<noteq> []"
    with ob(2) obtain k' ks' ob' rest' where k': "ks = k' # ks'" "rest = ob' # rest'"
      "observe N token accounts dep blocks rows k' = Inr ob'"
      by (cases ks) (auto simp: bindE_Inr_iff)
    with observed_meet [OF ob(1) k'(3) _ _ Cons.prems(5)] Cons.prems(2,3)
    show "meets ob (hd rest)" by (simp add: meets_def)
  qed
  have "rest \<noteq> [] \<longrightarrow> total (ob_before (hd rest)) = ob_supply_before (hd rest)"
    using bal meet by (simp add: balanced_def meets_def)
  moreover have "successively (\<lambda>k k'. fst (fst k') = fst (fst k) + 1) ks" "list_all (\<lambda>k. 0 \<le> fst (fst k)) ks"
    using Cons.prems(2,3) by (auto simp: successively_Cons)
  ultimately have "list_all balanced rest \<and> successively meets rest"
    using Cons.IH [OF ob(2)] Cons.prems(4,5) by blast
  with bal meet ob(3) show ?case by (auto simp: successively_Cons)
qed

text \<open>
  C10: over a captured history of contiguous blocks whose first transaction finds no token code yet, the
  state after each transaction is the state before the next, and at every boundary the checked balances add
  up to the total supply.  The capture does not itself demand that start.
\<close>

theorem captured_history_conserves:
  assumes "ordered_entries txs = Inr ordered" and "contiguous_blocks (block_numbers ordered) = Inr ()"
    and "mapE (tx_block N) ordered = Inr blocks" and "distinct accounts"
    and "mapE (observe N token accounts deployed_at blocks rows) ordered = Inr history"
    and "list_all (\<lambda>n. 0 \<le> n) (block_numbers ordered)" and "history \<noteq> []" and "\<not> ob_code_before (hd history)"
  shows "list_all balanced history \<and> successively meets history"
proof -
  have "total (ob_before (hd history)) = ob_supply_before (hd history)"
  proof -
    from assms(5,7) obtain k ks where "ordered = k # ks" by (cases ordered) auto
    with assms(5,7) have "observe N token accounts deployed_at blocks rows k = Inr (hd history)"
      by (auto simp: bindE_Inr_iff)
    from observe_Inr [OF this] obtain r where
      "read_state N token accounts (ob_code_before (hd history)) r ''before''
        = Inr (ob_before (hd history), ob_supply_before (hd history))" by blast
    with assms(8) have "ob_before (hd history) = map (\<lambda>a. (a, 0)) accounts" "ob_supply_before (hd history) = 0"
      by (simp_all add: read_state_def)
    then show ?thesis using total_zeros [of "map (\<lambda>a. (a, 0)) accounts"] by (simp add: comp_def)
  qed
  moreover have "list_all (\<lambda>k. 0 \<le> fst (fst k)) ordered" using assms(6) by (simp add: block_numbers_def list_all_iff)
  ultimately show ?thesis
    using history_balanced [OF assms(5) ordered_numbers [OF assms(1,2)] _ assms(4) tx_blocks_lookup [OF assms(3)]] by blast
qed

text \<open>
  A node on whose chain block 1 deploys the token and mints 50 to one account, and block 2 moves 30 of
  it to another.
\<close>

definition token_x :: string where
  "token_x = ''0x00000000000000000000000000000000000000ee''"

definition acct_a :: string where
  "acct_a = ''0x00000000000000000000000000000000000000aa''"

definition acct_b :: string where
  "acct_b = ''0x00000000000000000000000000000000000000bb''"

definition abi_text :: "string \<Rightarrow> pv" where
  "abi_text d = PStr (''0x'' @ replicate (64 - length d) CHR ''0'' @ d)"

definition small_ref :: "string \<Rightarrow> pv" where
  "small_ref h = PDict [(''blockHash'', PStr h), (''requireCanonical'', PBool True)]"

definition small_call :: "string \<Rightarrow> string \<Rightarrow> pv" where
  "small_call cd h = rpc_request ''eth_call'' [PDict [(''to'', PStr token_x), (''data'', PStr cd)], small_ref h]"

definition balance_call :: "string \<Rightarrow> string \<Rightarrow> pv" where
  "balance_call a h = small_call (''0x70a08231'' @ replicate 24 CHR ''0'' @ drop 2 a) h"

definition small_block :: "string \<Rightarrow> string \<Rightarrow> pv" where
  "small_block n h = PDict [(''number'', PStr n), (''hash'', PStr h), (''parentHash'', PStr ''0x99'')]"

definition small_answers :: "(pv \<times> pv) list" where
  "small_answers =
    [(rpc_request ''eth_getBlockByNumber'' [PStr ''0x0'', PBool False], small_block ''0x0'' ''h0''),
     (rpc_request ''eth_getBlockByNumber'' [PStr ''0x1'', PBool False], small_block ''0x1'' ''h1''),
     (rpc_request ''eth_getBlockByNumber'' [PStr ''0x2'', PBool False], small_block ''0x2'' ''h2''),
     (rpc_request ''eth_getBlockByNumber'' [PStr ''0x1'', PBool True],
        PDict [(''transactions'', PList [PDict [(''hash'', PStr ''t1'')]])]),
     (rpc_request ''eth_getBlockByNumber'' [PStr ''0x2'', PBool True],
        PDict [(''transactions'', PList [PDict [(''hash'', PStr ''t2'')]])]),
     (rpc_request ''eth_getCode'' [PStr token_x, small_ref ''h0''], PStr ''0x''),
     (rpc_request ''eth_getCode'' [PStr token_x, small_ref ''h1''], PStr ''0x60''),
     (rpc_request ''eth_getCode'' [PStr token_x, small_ref ''h2''], PStr ''0x60''),
     (balance_call acct_a ''h1'', abi_text ''32''), (balance_call acct_b ''h1'', abi_text ''0''),
     (small_call ''0x18160ddd'' ''h1'', abi_text ''32''),
     (balance_call acct_a ''h2'', abi_text ''14''), (balance_call acct_b ''h2'', abi_text ''1e''),
     (small_call ''0x18160ddd'' ''h2'', abi_text ''32'')]"

definition small_node :: node where
  "small_node req = map_option (\<lambda>b. PDict [(''result'', b)]) (map_of small_answers req)"

definition small_entry :: "string \<Rightarrow> int \<Rightarrow> tx_entry" where
  "small_entry h n = \<lparr>entry_group = ''deployment'', entry_tx = PDict [],
     entry_receipt = PDict [(''transactionHash'', PStr h), (''blockNumber'', PInt n), (''transactionIndex'', PInt 0)]\<rparr>"

definition small_txs :: tx_map where
  "small_txs = [(''t2'', small_entry ''t2'' 2), (''t1'', small_entry ''t1'' 1)]"

definition small_rows :: "token_row list" where
  "small_rows = [sample_row ''t1'' zero_address acct_a 50, sample_row ''t2'' acct_a acct_b 30]"

definition small_ordered :: "((int \<times> int) \<times> string \<times> tx_entry) list" where
  "small_ordered = [((1, 0), ''t1'', small_entry ''t1'' 1), ((2, 0), ''t2'', small_entry ''t2'' 2)]"

definition small_blocks :: "(int \<times> pv) list" where
  "small_blocks = [(1, small_block ''0x1'' ''h1''), (2, small_block ''0x2'' ''h2'')]"

lemma small_observes:
  "case mapE (observe small_node token_x [acct_a, acct_b] 1 small_blocks small_rows) small_ordered of
     Inl e \<Rightarrow> False | Inr history \<Rightarrow> history \<noteq> [] \<and> \<not> ob_code_before (hd history)"
  by code_simp

theorem captured_history_conserves_witness:
  "\<exists>history. mapE (observe small_node token_x [acct_a, acct_b] 1 small_blocks small_rows) small_ordered = Inr history
    \<and> history \<noteq> [] \<and> list_all balanced history \<and> successively meets history"
proof -
  obtain history where h: "mapE (observe small_node token_x [acct_a, acct_b] 1 small_blocks small_rows) small_ordered = Inr history"
    "history \<noteq> []" "\<not> ob_code_before (hd history)"
    using small_observes by (auto split: sum.splits)
  have ord: "ordered_entries small_txs = Inr small_ordered" by code_simp
  have contiguous: "contiguous_blocks (block_numbers small_ordered) = Inr ()" by code_simp
  have blocks: "mapE (tx_block small_node) small_ordered = Inr small_blocks" by code_simp
  have "distinct [acct_a, acct_b]" "list_all (\<lambda>n. 0 \<le> n) (block_numbers small_ordered)" by code_simp+
  from captured_history_conserves [OF ord contiguous blocks this(1) h(1) this(2) h(2,3)] h show ?thesis by blast
qed

end
