(* ===== verification/Allocator_State.thy ===== *)
theory Allocator_State
  imports Live_Chain
begin

text \<open>
  Allocator state at each protected claim boundary (\<^verbatim>\<open>scripts/forensic/pro30_allocator_state.py\<close>):
  claim identities, the boundaries of the three claims, the pinned getter reads of a snapshot, the
  timeline check and the rejected replay.  The \<^verbatim>\<open>cast keccak\<close> command is the parameter \<open>keccak_cli\<close>.
\<close>

section \<open>Constants\<close>

record claim_spec =
  cs_id :: string
  cs_index :: nat
  cs_amount :: nat
  cs_beneficiary :: string

definition claims :: "claim_spec list" where
  "claims =
    [\<lparr>cs_id = ''claim-a'', cs_index = 0, cs_amount = 35, cs_beneficiary = ''0x1111111111111111111111111111111111111111''\<rparr>,
     \<lparr>cs_id = ''claim-b'', cs_index = 1, cs_amount = 21, cs_beneficiary = ''0x2222222222222222222222222222222222222222''\<rparr>,
     \<lparr>cs_id = ''claim-c'', cs_index = 2, cs_amount = 14, cs_beneficiary = ''0x3333333333333333333333333333333333333333''\<rparr>]"

definition state_names :: "(int \<times> string) list" where
  "state_names = [(0, ''None''), (1, ''Created''), (2, ''Funded''), (3, ''Activated''), (4, ''Claims''), (5, ''Closed''),
     (6, ''Cancelled'')]"

definition selectors :: "(string \<times> string) list" where
  "selectors = [(''claimedAmount'', ''afa718ac''), (''claimedCount'', ''7f6d64ce''), (''outstandingLiability'', ''665a61ca''),
     (''consumed'', ''bb8f2054''), (''consumedClaimIdentity'', ''8cb0da26''), (''entitlementOperation'', ''fa6efec5''),
     (''balanceOf'', ''70a08231'')]"

definition selector :: "string \<Rightarrow> string" where
  "selector k = get_or selectors k []"

definition snapshot_ids :: "string list" where
  "snapshot_ids = [''beforeActivation'', ''beforeAlice'', ''afterAlice'', ''beforeBob'', ''afterBob'', ''beforeCarol'',
     ''afterCarolAndClose'']"

definition consumed_error :: string where
  "consumed_error = ''0xa3be6582'' @ replicate 64 CHR ''0''"

section \<open>Words and claim identities\<close>

text \<open>\<^verbatim>\<open>f"{value:064x}"\<close> and the reading of a 12-word result.\<close>

definition word_text :: "int \<Rightarrow> ev_error + string" where
  "word_text v =
     (if v < 0 \<or> 2 ^ 256 \<le> v then evidence_error ''ABI integer is outside uint256''
      else let h = hex_text (nat v) in Inr (replicate (64 - length h) CHR ''0'' @ h))"

definition abi_word_at :: "string \<Rightarrow> nat \<Rightarrow> string \<Rightarrow> ev_error + int" where
  "abi_word_at d i label =
     (let enc = removeprefix ''0x'' d
      in if length enc \<noteq> 12 * 64 then evidence_error (label @ '' must return the pinned 12-word operation ABI'')
         else case int_text 16 (take 64 (drop (i * 64) enc)) of
                None \<Rightarrow> evidence_error (label @ '' contains malformed ABI data'')
              | Some n \<Rightarrow> Inr n)"

definition operation_words :: "string \<Rightarrow> string \<Rightarrow> ev_error + string list" where
  "operation_words d label =
     (let enc = removeprefix ''0x'' d
      in if length enc \<noteq> 12 * 64 then evidence_error (label @ '' must return the pinned 12-word operation ABI'')
         else if fromhex enc = None then evidence_error (label @ '' contains malformed ABI data'')
         else Inr (map lower (word_chunks enc)))"

text \<open>The minimal unsigned varint: seven bits per byte, low bits first, the high bit set on all but the last.\<close>

fun varint :: "nat \<Rightarrow> bytes" where
  "varint n = (if 0x80 \<le> n then of_nat (n mod 0x80 + 0x80) # varint (n div 0x80) else [of_nat n])"

declare varint.simps [simp del]

text \<open>\<^verbatim>\<open>claim_id.encode("utf-8")\<close>: code points from 128 to 255 take two bytes.\<close>

definition utf8_char :: "char \<Rightarrow> bytes" where
  "utf8_char c = (let n = (of_char c :: nat) in
     if n < 0x80 then [of_nat n] else [of_nat (0xC0 + n div 64), of_nat (0x80 + n mod 64)])"

definition utf8_encode :: "string \<Rightarrow> bytes" where
  "utf8_encode s = concat (map utf8_char s)"

definition identity_payload :: "string \<Rightarrow> bytes" where
  "identity_payload cid = 0x20 # varint (length (utf8_encode cid)) @ utf8_encode cid"

definition claim_identity_hash :: "evidence_lib \<Rightarrow> string \<Rightarrow> ev_error + string" where
  "claim_identity_hash L cid =
     (case keccak_cli L (''0x'' @ to_hex (identity_payload cid)) of
        None \<Rightarrow> evidence_error ''cast keccak failed for canonical claim identity''
      | Some out \<Rightarrow>
          (let digest = lower out
           in thenE (require (length digest = 66 \<and> starts_with ''0x'' digest)
                       ''cast keccak failed for canonical claim identity'')
             (thenE (require (fromhex (drop 2 digest) \<noteq> None)
                       ''cast returned a malformed claim identity hash'')
                (Inr digest))))"

section \<open>Reads\<close>

definition call_abi :: "node \<Rightarrow> string \<Rightarrow> string \<Rightarrow> pv \<Rightarrow> string \<Rightarrow> ev_error + string" where
  "call_abi N target cd ref label =
     bindE (rpc N ''eth_call'' [PDict [(''to'', PStr target), (''data'', PStr cd)], ref]) (\<lambda>v.
     thenE (require (is_str v \<and> starts_with ''0x'' (str_of v)) (label @ '' returned malformed ABI data''))
       (Inr (lower (str_of v))))"

definition call_uint :: "node \<Rightarrow> string \<Rightarrow> string \<Rightarrow> pv \<Rightarrow> string \<Rightarrow> ev_error + int" where
  "call_uint N target cd ref label =
     bindE (call_abi N target cd ref label) (\<lambda>r.
     thenE (require (length r = 66) (label @ '' must return one ABI word''))
       (case int_text 16 (drop 2 r) of
          None \<Rightarrow> evidence_error (label @ '' returned malformed ABI data'')
        | Some i \<Rightarrow> Inr i))"

section \<open>Claim boundaries\<close>

record anchor =
  an_relation :: string
  an_tx :: string
  an_block :: int
  an_hash :: string

record boundary =
  bd_id :: string
  bd_block :: int
  bd_anchor :: anchor
  bd_claim :: "claim_spec option"

text \<open>The claim events of a reconstructed report: claim identity, amount, beneficiary and receipt.\<close>

definition claim_events_of :: "pv \<Rightarrow> ev_error + pv list" where
  "claim_events_of report =
     bindE (bindE (item report ''economicEvents'') iter_of)
       (filterE (\<lambda>ev. bindE (get_none ev ''kind'') (\<lambda>k. Inr (k = PStr ''entitlementClaim''))))"

definition events_by_claim :: "pv list \<Rightarrow> ev_error + (pv \<times> pv) list" where
  "events_by_claim evs = foldE (\<lambda>acc ev. bindE (get_none ev ''claimId'') (\<lambda>k.
     if hashable k then Inr (dset k ev acc) else Inl (Builtin TypeError))) [] evs"

definition boundary_at :: "string \<Rightarrow> int \<Rightarrow> pv \<Rightarrow> string \<Rightarrow> claim_spec option \<Rightarrow> ev_error + boundary" where
  "boundary_at bid n receipt relation claim =
     bindE (norm_item receipt ''transactionHash'') (\<lambda>h.
     bindE (int_item receipt ''blockNumber'') (\<lambda>b.
     bindE (norm_item receipt ''blockHash'') (\<lambda>bh.
       Inr \<lparr>bd_id = bid, bd_block = n,
            bd_anchor = \<lparr>an_relation = relation, an_tx = h, an_block = b, an_hash = bh\<rparr>, bd_claim = claim\<rparr>)))"

definition before_id :: "nat \<Rightarrow> string" where
  "before_id i = (if i = 0 then ''beforeAlice'' else if i = 1 then ''beforeBob'' else ''beforeCarol'')"

definition after_id :: "nat \<Rightarrow> string" where
  "after_id i = (if i = 2 then ''afterCarolAndClose'' else if i = 0 then ''afterAlice'' else ''afterBob'')"

definition claim_boundary_pair :: "(pv \<times> pv) list \<Rightarrow> claim_spec \<Rightarrow> ev_error + boundary list" where
  "claim_boundary_pair by_id claim =
     bindE (case map_of by_id (PStr (cs_id claim)) of None \<Rightarrow> Inl (Builtin (KeyError (cs_id claim))) | Some e \<Rightarrow> Inr e) (\<lambda>ev.
     thenE (reject_if (anyE
         [differsE (get_none ev ''amount'') (Inr (PInt (int (cs_amount claim)))),
          neqE (norm_get ev ''to'') (Inr (cs_beneficiary claim))])
         ''claim receipt differs from the controlled entitlement identity'')
    (bindE (item ev ''receipt'') (\<lambda>receipt.
     bindE (bindE (item receipt ''blockNumber'') number_of) (\<lambda>n.
     bindE (boundary_at (before_id (cs_index claim)) (n - 1) receipt ''before'' (Some claim)) (\<lambda>b.
     bindE (boundary_at (after_id (cs_index claim)) n receipt ''after'' (Some claim)) (\<lambda>a.
       Inr [b, a]))))))"

text \<open>\<^verbatim>\<open>max(rows, key=...)\<close>: the first row with the largest key.\<close>

fun first_max_by :: "('a \<Rightarrow> int) \<Rightarrow> 'a \<Rightarrow> 'a list \<Rightarrow> 'a" where
  "first_max_by f x [] = x"
| "first_max_by f x (y # ys) = first_max_by f (if f x < f y then y else x) ys"

definition activation_receipt :: "tx_map \<Rightarrow> ev_error + int \<times> pv" where
  "activation_receipt txs =
     (case filter (\<lambda>e. entry_group e = ''activation'') (map snd txs) of
        [] \<Rightarrow> evidence_error ''activation receipt is missing''
      | es \<Rightarrow> bindE (mapE (\<lambda>e. bindE (entry_block e) (\<lambda>n. Inr (n, entry_receipt e))) es)
          (\<lambda>ks. Inr (first_max_by fst (hd ks) (tl ks))))"

definition claim_boundaries :: "tx_map \<Rightarrow> pv \<Rightarrow> ev_error + boundary list" where
  "claim_boundaries txs report =
     bindE (activation_receipt txs) (\<lambda>(n, receipt).
     bindE (claim_events_of report) (\<lambda>evs.
     bindE (events_by_claim evs) (\<lambda>by_id.
     thenE (require (set (map fst by_id) = set (map (\<lambda>c. PStr (cs_id c)) claims) \<and> length evs = length claims)
              ''retained execution does not contain the three expected unique claims'')
    (bindE (boundary_at ''beforeActivation'' (n - 1) receipt ''before'' None) (\<lambda>first.
     bindE (mapE (claim_boundary_pair by_id) claims) (\<lambda>pairs.
     thenE (require (map bd_id (first # concat pairs) = snapshot_ids)
              ''allocator claim boundaries are incomplete or duplicated'')
       (Inr (first # concat pairs))))))))"

definition assert_replay_rejected :: "pv \<Rightarrow> ev_error + obj" where
  "assert_replay_rejected response =
     bindE (get_none response ''error'') (\<lambda>err.
     thenE (require (is_dict err) ''already-consumed claim eth_call unexpectedly succeeded'')
    (bindE (get_none err ''data'') (\<lambda>d.
     thenE (require (is_str d \<and> lower (str_of d) = consumed_error)
              ''consumed-claim probe did not return EntitlementAlreadyConsumed(0)'')
    (bindE (get_none err ''code'') (\<lambda>code.
       Inr [(''errorCode'', code), (''revertData'', PStr (lower (str_of d))),
            (''reasonClass'', PStr ''EntitlementAlreadyConsumed(0)'')])))))"

section \<open>Snapshots\<close>

definition snapshot_txs :: "node \<Rightarrow> int \<Rightarrow> ev_error + pv" where
  "snapshot_txs N n =
     bindE (rpc N ''eth_getBlockByNumber'' [PStr (quantity_of n), PBool True]) (\<lambda>b.
       if is_dict b then get_in b ''transactions'' (PList []) else Inr (PList []))"

definition check_anchor :: "node \<Rightarrow> boundary \<Rightarrow> pv \<Rightarrow> pv \<Rightarrow> ev_error + unit" where
  "check_anchor N bd block txs = (let a = bd_anchor bd in
     if an_relation a = ''after'' then
       reject_if (anyE
         [Inr (bd_block bd \<noteq> an_block a), neqE (norm_item block ''hash'') (Inr (an_hash a)),
          neqE (bindE (nth_item txs 0) (\<lambda>t. norm_item t ''hash'')) (Inr (an_tx a))])
         (''post-claim snapshot is not anchored to its exact receipt at '' @ bd_id bd)
     else if an_relation a = ''before'' then
       bindE (block_by_number N (an_block a)) (\<lambda>next.
       reject_if (anyE
         [Inr (an_block a \<noteq> bd_block bd + 1), neqE (norm_get next ''parentHash'') (norm_item block ''hash''),
          neqE (norm_get next ''hash'') (Inr (an_hash a))])
         (''pre-transition snapshot is not the parent of its receipt block at '' @ bd_id bd))
     else evidence_error (''unknown allocator snapshot boundary relation at '' @ bd_id bd))"

text \<open>The record of one read: target, call data and result word.\<close>

definition recorded :: "string \<Rightarrow> string \<Rightarrow> string \<Rightarrow> pv" where
  "recorded target cd result =
     PDict [(''to'', PStr target), (''calldata'', PStr cd), (''rawResult'', PStr result)]"

definition read_uint :: "node \<Rightarrow> string \<Rightarrow> pv \<Rightarrow> string \<Rightarrow> string \<Rightarrow> obj \<Rightarrow> ev_error + int \<times> obj" where
  "read_uint N target ref name cd reads =
     bindE (call_uint N target (''0x'' @ cd) ref name) (\<lambda>v.
     bindE (word_text v) (\<lambda>w. Inr (v, dset name (recorded target (''0x'' @ cd) w) reads)))"

definition read_flag :: "node \<Rightarrow> string \<Rightarrow> pv \<Rightarrow> string \<Rightarrow> string \<Rightarrow> string \<Rightarrow> obj \<Rightarrow> ev_error + bool \<times> obj" where
  "read_flag N target ref name cd msg reads =
     bindE (read_uint N target ref name cd reads) (\<lambda>(v, reads').
     thenE (require (v = 0 \<or> v = 1) msg) (Inr (v = 1, reads')))"

definition read_claims ::
  "node \<Rightarrow> string \<Rightarrow> pv \<Rightarrow> string \<Rightarrow> (string \<times> string) list \<Rightarrow> obj \<Rightarrow> ev_error + (bool list \<times> bool list) \<times> obj" where
  "read_claims N allocator ref op hashes reads0 =
     foldE (\<lambda>((cons, ids), reads) claim.
       bindE (word_text (int (cs_index claim))) (\<lambda>w.
       bindE (read_flag N allocator ref (''consumed:'' @ cs_id claim) (selector ''consumed'' @ op @ w)
                ''consumed(index) returned a non-boolean ABI word'' reads) (\<lambda>(c, reads1).
       bindE (case map_of hashes (cs_id claim) of None \<Rightarrow> Inl (Builtin (KeyError (cs_id claim))) | Some h \<Rightarrow> Inr h) (\<lambda>h.
       bindE (read_flag N allocator ref (''consumedClaimIdentity:'' @ cs_id claim)
                (selector ''consumedClaimIdentity'' @ op @ removeprefix ''0x'' h)
                ''consumedClaimIdentity returned a non-boolean ABI word'' reads1) (\<lambda>(i, reads2).
         Inr ((cons @ [c], ids @ [i]), reads2))))))
       (([], []), reads0) claims"

end
