(* ===== verification/Allocator_Capture.thy ===== *)
theory Allocator_Capture
  imports Allocator_State
begin

text \<open>
  The snapshots of the allocator, the timeline check, the capture and its independent recheck
  (\<^verbatim>\<open>_snapshot\<close>, \<^verbatim>\<open>_validate_timeline\<close>, \<^verbatim>\<open>capture\<close> and \<^verbatim>\<open>verify\<close> of
  \<^verbatim>\<open>scripts/forensic/pro30_allocator_state.py\<close>).  A snapshot is the JSON object the code builds, since
  the timeline check also runs on an object read from a file.
\<close>

section \<open>One snapshot\<close>

definition rjust0 :: "nat \<Rightarrow> string \<Rightarrow> string" where
  "rjust0 n s = replicate (n - length s) CHR ''0'' @ s"

definition state_name :: "int \<Rightarrow> string" where
  "state_name s = get_or state_names s ''Unknown''"

text \<open>The values read at a block, before they are put in an object.\<close>

record allocator_reads =
  rd_amount :: int
  rd_count :: int
  rd_liability :: int
  rd_consumed :: "bool list"
  rd_identities :: "bool list"
  rd_operation :: string
  rd_words :: "string list"
  rd_balance :: int

definition custody_call :: "string \<Rightarrow> string" where
  "custody_call allocator = ''0x'' @ selector ''balanceOf'' @ rjust0 64 (removeprefix ''0x'' allocator)"

definition read_state_at ::
  "node \<Rightarrow> string \<Rightarrow> string \<Rightarrow> string \<Rightarrow> pv \<Rightarrow> (string \<times> string) list \<Rightarrow> ev_error + allocator_reads \<times> obj" where
  "read_state_at N allocator token op ref hashes =
     bindE (read_uint N allocator ref ''claimedAmount'' (selector ''claimedAmount'' @ op) []) (\<lambda>(amount, r1).
     bindE (read_uint N allocator ref ''claimedCount'' (selector ''claimedCount'' @ op) r1) (\<lambda>(count, r2).
     bindE (read_uint N allocator ref ''outstandingLiability'' (selector ''outstandingLiability'' @ op) r2) (\<lambda>(liability, r3).
     bindE (read_claims N allocator ref op hashes r3) (\<lambda>((cons, ids), r4).
     bindE (call_abi N allocator (''0x'' @ selector ''entitlementOperation'' @ op) ref ''entitlementOperation'') (\<lambda>result.
     bindE (operation_words result ''entitlementOperation'') (\<lambda>ws.
     bindE (call_uint N token (custody_call allocator) ref ''allocator token balance'') (\<lambda>balance.
     bindE (word_text balance) (\<lambda>bw.
       Inr (\<lparr>rd_amount = amount, rd_count = count, rd_liability = liability, rd_consumed = cons, rd_identities = ids,
              rd_operation = result, rd_words = ws, rd_balance = balance\<rparr>,
            dset ''allocatorTokenBalance'' (recorded token (custody_call allocator) bw)
              (dset ''entitlementOperation''
                 (recorded allocator (''0x'' @ selector ''entitlementOperation'' @ op) result) r4))))))))))"

definition bools_pv :: "bool list \<Rightarrow> pv" where
  "bools_pv bs = PList (map PBool bs)"

definition consumed_ids :: "bool list \<Rightarrow> pv" where
  "consumed_ids bs = PList (map (\<lambda>cb. PStr (cs_id (fst cb))) (filter snd (zip claims bs)))"

definition hex_word :: "string list \<Rightarrow> nat \<Rightarrow> ev_error + pv" where
  "hex_word ws i = Inr (PStr (''0x'' @ ws ! i))"

definition state_pv :: "allocator_reads \<Rightarrow> ev_error + pv" where
  "state_pv R = (let ws = rd_words R;
        op_word = (\<lambda>i. bindE (abi_word_at (rd_operation R) i ''entitlementOperation'') (\<lambda>n. Inr (PInt n)))
     in dictE
      [(''operationState'', op_word 0),
       (''operationStateName'', bindE (abi_word_at (rd_operation R) 0 ''entitlementOperation'') (\<lambda>n. Inr (PStr (state_name n)))),
       (''entitlementCount'', op_word 4), (''entitlementTotal'', op_word 5),
       (''token'', Inr (PStr (''0x'' @ last40 (ws ! 8)))),
       (''fundedAmount'', bindE (int_of_text 16 (ws ! 9)) (\<lambda>n. Inr (PInt n))),
       (''claimedAmount'', Inr (PInt (rd_amount R))), (''claimedCount'', Inr (PInt (rd_count R))),
       (''outstandingLiability'', Inr (PInt (rd_liability R))), (''allocatorTokenBalance'', Inr (PInt (rd_balance R))),
       (''consumedByIndex'', Inr (bools_pv (rd_consumed R))),
       (''consumedClaimIdentity'', Inr (bools_pv (rd_identities R))),
       (''consumedClaimIds'', Inr (consumed_ids (rd_consumed R))),
       (''allocationBindingRoot'', hex_word ws 1), (''descriptorRoot'', hex_word ws 2),
       (''evmEntitlementTableRoot'', hex_word ws 3), (''allocationClaimRoot'', hex_word ws 6),
       (''beneficiaryProfileWord'', hex_word ws 7)])"

definition anchor_pv :: "anchor \<Rightarrow> pv" where
  "anchor_pv a = PDict [(''relation'', PStr (an_relation a)), (''transactionHash'', PStr (an_tx a)),
     (''blockNumber'', PInt (an_block a)), (''blockHash'', PStr (an_hash a))]"

definition snapshot :: "node \<Rightarrow> pv \<Rightarrow> (string \<times> string) list \<Rightarrow> boundary \<Rightarrow> ev_error + pv" where
  "snapshot N m hashes bd = (let n = bd_block bd in
     bindE (block_by_number N n) (\<lambda>block.
     bindE (snapshot_txs N n) (\<lambda>txs.
     bindE (len_of txs) (\<lambda>count.
     thenE (require (count = 1)
              (''allocator snapshot block '' @ int_str n @ '' contains '' @ nat_str count
                @ '' transactions; transaction boundary is ambiguous''))
    (thenE (check_anchor N bd block txs)
    (bindE (norm_item block ''hash'') (\<lambda>h.
     bindE (bindE (item m ''contracts'') (\<lambda>c. norm_item c ''allocator'')) (\<lambda>allocator.
     bindE (bindE (item m ''contracts'') (\<lambda>c. norm_item c ''token'')) (\<lambda>token.
     bindE (bindE (item m ''operationId'') text_of) (\<lambda>operation_id.
     bindE (read_state_at N allocator token (lower (removeprefix ''0x'' operation_id)) (block_ref h) hashes) (\<lambda>(R, reads).
     dictE
      [(''id'', Inr (PStr (bd_id bd))), (''boundaryAnchor'', Inr (anchor_pv (bd_anchor bd))),
       (''block'', bindE (norm_item block ''parentHash'') (\<lambda>p.
          Inr (PDict [(''number'', PInt n), (''hash'', PStr h), (''parentHash'', PStr p)]))),
       (''transactionBoundary'', bindE (bindE (nth_item txs 0) (\<lambda>t. norm_item t ''hash'')) (\<lambda>th.
          Inr (PDict [(''transactionCount'', PInt (int count)), (''transactionHash'', PStr th), (''transactionIndex'', PInt 0)]))),
       (''reads'', Inr (PDict reads)),
       (''state'', state_pv R)])))))))))))"

section \<open>The timeline\<close>

definition identity_fields :: "string list" where
  "identity_fields = [''entitlementCount'', ''entitlementTotal'', ''fundedAmount'', ''token'',
     ''allocationBindingRoot'', ''descriptorRoot'', ''evmEntitlementTableRoot'', ''allocationClaimRoot'']"

record expectation =
  ex_state :: int
  ex_amount :: int
  ex_count :: int
  ex_liability :: int
  ex_consumed :: "bool list"

definition expected :: "(string \<times> expectation) list" where
  "expected =
    [(''beforeActivation'', \<lparr>ex_state = 2, ex_amount = 0, ex_count = 0, ex_liability = 0, ex_consumed = [False, False, False]\<rparr>),
     (''beforeAlice'', \<lparr>ex_state = 3, ex_amount = 0, ex_count = 0, ex_liability = 70, ex_consumed = [False, False, False]\<rparr>),
     (''afterAlice'', \<lparr>ex_state = 4, ex_amount = 35, ex_count = 1, ex_liability = 35, ex_consumed = [True, False, False]\<rparr>),
     (''beforeBob'', \<lparr>ex_state = 4, ex_amount = 35, ex_count = 1, ex_liability = 35, ex_consumed = [True, False, False]\<rparr>),
     (''afterBob'', \<lparr>ex_state = 4, ex_amount = 56, ex_count = 2, ex_liability = 14, ex_consumed = [True, True, False]\<rparr>),
     (''beforeCarol'', \<lparr>ex_state = 4, ex_amount = 56, ex_count = 2, ex_liability = 14, ex_consumed = [True, True, False]\<rparr>),
     (''afterCarolAndClose'', \<lparr>ex_state = 5, ex_amount = 70, ex_count = 3, ex_liability = 0, ex_consumed = [True, True, True]\<rparr>)]"

definition sum_of :: "pv \<Rightarrow> ev_error + int" where
  "sum_of v = bindE (bindE (iter_of v) (mapE number_of)) (\<lambda>ns. Inr (sum_list ns))"

definition consumed_total :: "bool list \<Rightarrow> int" where
  "consumed_total bs = sum_list (map (\<lambda>cb. int (cs_amount (fst cb))) (filter snd (zip claims bs)))"

definition at_snapshot :: "string \<Rightarrow> string \<Rightarrow> string" where
  "at_snapshot m i = m @ '' at '' @ i"

text \<open>The tuple compared with the expected one, and the checks of one snapshot's state.\<close>

definition expected_tuple :: "expectation \<Rightarrow> (string \<times> pv) list" where
  "expected_tuple E =
     [(''operationState'', PInt (ex_state E)), (''claimedAmount'', PInt (ex_amount E)), (''claimedCount'', PInt (ex_count E)),
      (''outstandingLiability'', PInt (ex_liability E)), (''consumedByIndex'', bools_pv (ex_consumed E))]"

definition tuple_differs :: "pv \<Rightarrow> expectation \<Rightarrow> ev_error + bool" where
  "tuple_differs st E =
     bindE (mapE (\<lambda>(k, v). differsE (get_none st k) (Inr v)) (expected_tuple E)) (\<lambda>bs. Inr (True \<in> set bs))"

definition state_expected :: "string \<Rightarrow> expectation \<Rightarrow> pv \<Rightarrow> ev_error + unit" where
  "state_expected i E st = checks
     [reject_if (tuple_differs st E) (at_snapshot ''allocator state transition differs'' i),
      reject_if (differsE (get_none st ''operationStateName'') (Inr (PStr (state_name (ex_state E)))))
        (at_snapshot ''allocator state name differs'' i),
      reject_if (differsE (get_none st ''consumedClaimIdentity'') (Inr (bools_pv (ex_consumed E))))
        (at_snapshot ''claim identity mapping differs'' i),
      reject_if (differsE (get_none st ''claimedCount'')
          (bindE (bindE (get_in st ''consumedByIndex'' (PList [])) sum_of) (\<lambda>k. Inr (PInt k))))
        (at_snapshot ''claimed count differs from consumed indices'' i),
      reject_if (differsE (get_none st ''claimedAmount'') (Inr (PInt (consumed_total (ex_consumed E)))))
        (at_snapshot ''claimed amount differs from consumed indices'' i),
      (if i \<noteq> ''beforeActivation'' then checks
         [require (ex_amount E + ex_liability E = 70) (at_snapshot ''claimed plus remaining liability differs from 70'' i),
          reject_if (differsE (get_none st ''allocatorTokenBalance'') (Inr (PInt (ex_liability E))))
            (at_snapshot ''allocator custody differs from remaining liability'' i)]
       else Inr ()),
      reject_if (anyE [differsE (get_none st ''entitlementCount'') (Inr (PInt 3)),
                       differsE (get_none st ''entitlementTotal'') (Inr (PInt 70)),
                       differsE (get_none st ''fundedAmount'') (Inr (PInt 70))])
        (at_snapshot ''entitlement operation parameters differ'' i)]"

text \<open>One snapshot, given the number of the block before it; the result is its own block number.\<close>

definition timeline_step :: "(pv \<times> pv) list \<Rightarrow> int \<Rightarrow> string \<times> expectation \<Rightarrow> ev_error + int" where
  "timeline_step by_id previous ie = (case ie of (i, E) \<Rightarrow>
     bindE (case map_of by_id (PStr i) of None \<Rightarrow> Inl (Builtin (KeyError i)) | Some s \<Rightarrow> Inr s) (\<lambda>snap.
     bindE (sub_dict snap ''state'') (\<lambda>st.
     bindE (bindE (sub_dict snap ''block'') (\<lambda>b. get_in b ''number'' (PInt (- 1)))) (\<lambda>nv.
     thenE (require (case num_of nv of None \<Rightarrow> False | Some n \<Rightarrow> previous < n)
              ''allocator snapshots are stale or not strictly ordered by block'')
    (bindE (number_of nv) (\<lambda>n.
     thenE (state_expected i E st) (Inr n)))))))"

definition rows_by_id :: "pv list \<Rightarrow> ev_error + (pv \<times> pv) list" where
  "rows_by_id rows = foldE (\<lambda>acc row. bindE (item row ''id'') (\<lambda>k.
     if hashable k then Inr (dset k row acc) else Inl (Builtin TypeError))) [] rows"

definition same_operation :: "pv \<Rightarrow> pv \<Rightarrow> ev_error + unit" where
  "same_operation first row =
     bindE (sub_dict row ''state'') (\<lambda>st.
       reject_if (anyE (map (\<lambda>k. differsE (get_none st k) (get_none first k)) identity_fields))
         ''operation identity changed between allocator snapshots'')"

definition ambiguous_row :: "pv \<Rightarrow> ev_error + bool" where
  "ambiguous_row row = anyE
     [differsE (bindE (sub_dict row ''transactionBoundary'') (\<lambda>t. get_none t ''transactionCount'')) (Inr (PInt 1)),
      differsE (bindE (sub_dict row ''transactionBoundary'') (\<lambda>t. get_none t ''transactionIndex'')) (Inr (PInt 0))]"

definition validate_timeline :: "pv \<Rightarrow> ev_error + unit" where
  "validate_timeline snapshots =
     bindE (iter_of snapshots) (\<lambda>rows.
     bindE (mapE (\<lambda>row. get_none row ''id'') rows) (\<lambda>ids.
     thenE (require (ids = map PStr snapshot_ids) ''allocator snapshots are missing, duplicated or reordered'')
    (thenE (reject_if (anyE (map ambiguous_row rows)) ''allocator snapshot has an ambiguous transaction boundary'')
    (bindE (rows_by_id rows) (\<lambda>by_id.
     bindE (bindE (case map_of by_id (PStr (hd snapshot_ids)) of None \<Rightarrow> Inl (Builtin (KeyError (hd snapshot_ids))) | Some s \<Rightarrow> Inr s)
              (\<lambda>s. sub_dict s ''state'')) (\<lambda>first.
     thenE (checks (map (same_operation first) (tl rows)))
       (ignoreE (foldE (timeline_step by_id) (- 1) expected))))))))"

section \<open>Capture and recheck\<close>

definition root_fields :: "string list" where
  "root_fields = [''allocationBindingRoot'', ''descriptorRoot'', ''evmEntitlementTableRoot'', ''allocationClaimRoot'']"

definition expected_roots :: "string list \<Rightarrow> (string \<times> string) list" where
  "expected_roots ws = zip root_fields [ws ! 3, ws ! 4, ws ! 5, ws ! 8]"

definition check_roots :: "string list \<Rightarrow> pv \<Rightarrow> pv \<Rightarrow> ev_error + unit" where
  "check_roots ws m snap =
     bindE (item snap ''state'') (\<lambda>st.
     bindE (bindE (item snap ''id'') (\<lambda>i. Inr (py_str i))) (\<lambda>i. checks
       [reject_if (anyE (map (\<lambda>(k, w). neqE (norm_item st k) (Inr (lower w))) (expected_roots ws)))
          (at_snapshot ''allocator operation proof roots differ'' i),
        reject_if (neqE (norm_item st ''token'') (bindE (item m ''contracts'') (\<lambda>c. norm_item c ''token'')))
          (at_snapshot ''allocator operation token differs'' i)]))"

text \<open>\<^verbatim>\<open>next(...)\<close>: the first entitlement claim of Alice.\<close>

definition alice_event :: "pv \<Rightarrow> ev_error + pv" where
  "alice_event report =
     bindE (bindE (item report ''economicEvents'') iter_of) (\<lambda>evs.
     bindE (filterE (\<lambda>ev. bindE (get_none ev ''kind'') (\<lambda>k. bindE (get_none ev ''claimId'') (\<lambda>c.
              Inr (k = PStr ''entitlementClaim'' \<and> c = PStr ''claim-a'')))) evs) (\<lambda>found.
       case found of [] \<Rightarrow> Inl (Builtin StopIteration) | e # es \<Rightarrow> Inr e))"

definition allocator_limitations :: "string list" where
  "allocator_limitations =
    [''The RPC provider supplies block headers, receipts, runtime identity, and historical eth_call results; this is provider-relative evidence.'',
     ''Private packed bitmap storage is not decoded. The public consumed(operationId,index) getter and public consumedClaimIdentity mapping are queried instead.'',
     ''The replay probe is an eth_call rejection and is not a submitted replay transaction.'',
     ''No public-chain qualification, consensus proof, or finality claim is made.'']"

definition accounting_of :: "pv \<Rightarrow> ev_error + pv" where
  "accounting_of final =
     bindE (bindE (item final ''claimedAmount'') number_of) (\<lambda>a.
     bindE (bindE (item final ''outstandingLiability'') number_of) (\<lambda>l. dictE
      [(''fundedEntitlement'', Inr (PInt 70)),
       (''finalClaimedAmount'', item final ''claimedAmount''),
       (''finalRemainingFundedLiability'', item final ''outstandingLiability''),
       (''finalAllocatorTokenBalance'', item final ''allocatorTokenBalance''),
       (''sumClaimedAndRemaining'', Inr (PInt (a + l))),
       (''claimsMatchConsumedBitmapAndIdentityMapping'',
          bindE (item final ''consumedByIndex'') (\<lambda>c. bindE (item final ''consumedClaimIdentity'') (\<lambda>i.
            Inr (PBool (py_eq c (bools_pv [True, True, True]) \<and> py_eq i (bools_pv [True, True, True]))))))]))"

definition claim_identity_row :: "(string \<times> string) list \<Rightarrow> claim_spec \<Rightarrow> pv" where
  "claim_identity_row hashes c = PDict
     [(''claimId'', PStr (cs_id c)), (''index'', PInt (int (cs_index c))), (''amount'', PInt (int (cs_amount c))),
      (''beneficiary'', PStr (cs_beneficiary c)), (''canonicalHash'', PStr (get_or hashes (cs_id c) []))]"

definition verification_notes :: pv where
  "verification_notes = PDict
     [(''historicalReadsUseEip1898RequireCanonical'', PBool True),
      (''transactionBoundaryRule'', PStr ''each sampled block contains exactly one transaction; same-block intermediate states reject''),
      (''liveReceiptAndRuntimeContext'', PStr ''rechecked through PRO-28 live-chain verifier''),
      (''stateProof'', PStr ''not provided; observations are read from the same local RPC'')]"

definition allocator_schema :: string where
  "allocator_schema = ''eae.pro-30-allocator-state-observations.v1''"

text \<open>The replay of Alice's claim at the block of its receipt; the answer must be the consumed-claim revert.\<close>

definition probe_replay :: "node \<Rightarrow> tx_map \<Rightarrow> pv \<Rightarrow> ev_error + obj" where
  "probe_replay N txs event =
     bindE (bindE (item event ''receipt'') (\<lambda>r. norm_item r ''transactionHash'')) (\<lambda>h.
     bindE (case map_of txs h of None \<Rightarrow> Inl (Builtin (KeyError h)) | Some e \<Rightarrow> Inr e) (\<lambda>alice.
     bindE (item (entry_tx alice) ''transaction'') (\<lambda>tx.
     bindE (norm_item (entry_receipt alice) ''blockHash'') (\<lambda>bh.
     bindE (item tx ''from'') (\<lambda>f. bindE (item tx ''to'') (\<lambda>t. bindE (item tx ''input'') (\<lambda>d.
     bindE (case N (rpc_request ''eth_call'' [PDict [(''from'', f), (''to'', t), (''data'', d)], block_ref bh]) of
              None \<Rightarrow> evidence_error ''live RPC failed during the consumed-claim replay probe''
            | Some response \<Rightarrow> Inr response) (\<lambda>response.
     thenE (reject_if (bindE (has_item response ''error'') (\<lambda>b. Inr (\<not> b)))
              ''already-consumed claim eth_call unexpectedly succeeded'')
       (assert_replay_rejected response)))))))))"

definition runtime_allocator :: "pv \<Rightarrow> ev_error + pv" where
  "runtime_allocator runtime = bindE (sub_dict runtime ''contracts'') (\<lambda>c. sub_dict c ''allocator'')"

definition lower_pv :: "pv \<Rightarrow> string \<Rightarrow> ev_error + pv" where
  "lower_pv v k = bindE (lower_item v k) (\<lambda>s. Inr (PStr s))"

definition operation_section :: "pv \<Rightarrow> pv \<Rightarrow> pv \<Rightarrow> ev_error + pv" where
  "operation_section m allocator first = dictE
    [(''operationId'', item m ''operationId''), (''preparedOperationRoot'', item m ''preparedOperationRoot''),
     (''allocator'', bindE (item m ''contracts'') (\<lambda>c. item c ''allocator'')),
     (''allocatorRuntimeCodeSha256'', lower_pv allocator ''sha256''),
     (''allocatorRuntimeCodeKeccak256'', lower_pv allocator ''keccak256''),
     (''operationRoots'', bindE (item first ''state'') (\<lambda>s. dictE (map (\<lambda>k. (k, item s k)) root_fields)))]"

definition replay_section :: "pv \<Rightarrow> ev_error + pv" where
  "replay_section event = bindE (item event ''receipt'') (\<lambda>r. dictE
    [(''kind'', Inr (PStr ''eth_call'')), (''claimId'', Inr (PStr ''claim-a'')),
     (''transactionHash'', item r ''transactionHash''), (''blockNumber'', item r ''blockNumber''),
     (''result'', Inr (PStr ''not yet checked''))])"

text \<open>The report before the probe; \<open>dir\<close> is \<^verbatim>\<open>f"{raw.parent.name}/{raw.name}"\<close>.\<close>

definition allocator_report ::
  "string \<Rightarrow> pv \<Rightarrow> pv \<Rightarrow> pv \<Rightarrow> pv \<Rightarrow> pv \<Rightarrow> (string \<times> string) list \<Rightarrow> pv list \<Rightarrow> ev_error + obj" where
  "allocator_report dir m c live allocator report hashes snaps =
     bindE (mapE (\<lambda>(k, v). bindE v (\<lambda>x. Inr (k, x)))
      [(''schema'', Inr (PStr allocator_schema)),
       (''classification'', Inr (PStr ''localOnly provider-relative block-hash-pinned eth_call observations; no state proof, public-chain consensus or finality claim'')),
       (''deploymentManifestDigest'', item m ''manifestDigest''), (''captureId'', item c ''captureId''),
       (''sourceRevision'', bindE (sub_dict c ''source'') (\<lambda>s. get_none s ''revision'')),
       (''sourceReplayDirectory'', Inr (PStr dir)),
       (''chainId'', item m ''chainId''), (''localChainIdentity'', item live ''localChainIdentity''),
       (''operation'', operation_section m allocator (hd snaps)),
       (''claimIdentityRule'', Inr (PStr ''keccak256(0x20 || minimal-unsigned-varint(UTF8-byte-length) || UTF8 claim ID), matching pinned ProductionProRataAllocatorV2 source'')),
       (''claimIdentities'', Inr (PList (map (claim_identity_row hashes) claims))),
       (''snapshots'', Inr (PList snaps)),
       (''replayProbe'', bindE (alice_event report) replay_section),
       (''accounting'', bindE (item (last snaps) ''state'') accounting_of),
       (''verification'', Inr verification_notes),
       (''limitations'', Inr (PList (map PStr allocator_limitations)))])
     Inr"

definition update_probe :: "obj \<Rightarrow> obj \<Rightarrow> obj" where
  "update_probe report rejection =
     (case get_or report ''replayProbe'' PNone of
        PDict d \<Rightarrow> dset ''replayProbe'' (PDict (dupdate d ((''result'', PStr ''rejected'') # rejection))) report
      | _ \<Rightarrow> report)"

definition capture_allocator :: "evidence_lib \<Rightarrow> raw_dir \<Rightarrow> string \<Rightarrow> node \<Rightarrow> ev_error + pv" where
  "capture_allocator L raw dir N =
     bindE (reconstruct L raw None) (\<lambda>report.
     bindE (verify_live_chain_context L raw N None) (\<lambda>live.
     bindE (read_json L raw ''deployment-manifest.json'') (\<lambda>m.
     bindE (read_json L raw ''capture-metadata.json'') (\<lambda>c.
     bindE (read_json L raw ''runtime-code-observations.json'') (\<lambda>runtime.
     bindE (runtime_allocator runtime) (\<lambda>allocator.
     thenE (reject_if (neqE (norm_get allocator ''address'') (bindE (item m ''contracts'') (\<lambda>cs. norm_item cs ''allocator'')))
              ''allocator runtime identity is not bound to the deployment manifest'')
    (bindE (mapE (\<lambda>cl. bindE (claim_identity_hash L (cs_id cl)) (\<lambda>h. Inr (cs_id cl, h))) claims) (\<lambda>hashes.
     bindE (load_receipts L raw) (\<lambda>(txs, sources).
     bindE (claim_boundaries txs report) (\<lambda>bds.
     bindE (mapE (snapshot N m hashes) bds) (\<lambda>snaps.
     thenE (validate_timeline (PList snaps))
    (bindE (bindE (bindE (read_json L raw ''proof-fixture.json'') (\<lambda>f. item f ''public_values'')) text_of) (\<lambda>pvs.
     bindE (public_words pvs) (\<lambda>ws.
     thenE (checks (map (check_roots ws m) snaps))
    (bindE (allocator_report dir m c live allocator report hashes snaps) (\<lambda>base.
     bindE (alice_event report) (\<lambda>event.
     bindE (probe_replay N txs event) (\<lambda>rejection.
       Inr (PDict (update_probe base rejection))))))))))))))))))))"

definition verify_allocator :: "evidence_lib \<Rightarrow> raw_dir \<Rightarrow> string \<Rightarrow> pv \<Rightarrow> node \<Rightarrow> ev_error + pv" where
  "verify_allocator L raw dir supplied N =
     thenE (reject_if (differsE (get_none supplied ''schema'') (Inr (PStr allocator_schema)))
              ''unexpected allocator-state observation schema'')
    (bindE (get_in supplied ''snapshots'' (PList [])) (\<lambda>snaps.
     thenE (validate_timeline snaps)
    (bindE (capture_allocator L raw dir N) (\<lambda>regenerated.
     thenE (require (py_eq supplied regenerated)
              ''allocator-state observations differ from independent live reconstruction'')
       (Inr regenerated)))))"

end
