(* ===== verification/Allocator_Theorems.thy ===== *)
theory Allocator_Theorems
  imports Allocator_Capture
begin

text \<open>
  The allocator as a state machine, and the timeline check as a proof that seven observations are a run
  of it; reading claim identities back.
\<close>

section \<open>The allocator\<close>

text \<open>
  The abstract allocator: its phase and which of the three claims are consumed.  Claimed amount, claim
  count and remaining liability are functions of them.
\<close>

record allocator =
  al_phase :: int
  al_consumed :: "bool list"

definition al_liability :: "allocator \<Rightarrow> int" where
  "al_liability a = (if al_phase a = 2 then 0 else 70 - consumed_total (al_consumed a))"

definition al_count :: "allocator \<Rightarrow> int" where
  "al_count a = int (length (filter id (al_consumed a)))"

inductive allocator_step :: "allocator \<Rightarrow> allocator \<Rightarrow> bool" where
  activate: "al_phase a = 2 \<Longrightarrow> allocator_step a (a\<lparr>al_phase := 3\<rparr>)"
| claim: "al_phase a \<in> {3, 4} \<Longrightarrow> i < length (al_consumed a) \<Longrightarrow> \<not> al_consumed a ! i \<Longrightarrow>
    c = (al_consumed a)[i := True] \<Longrightarrow>
    allocator_step a \<lparr>al_phase = (if list_all id c then 5 else 4), al_consumed = c\<rparr>"

definition alloc_of :: "expectation \<Rightarrow> allocator" where
  "alloc_of E = \<lparr>al_phase = ex_state E, al_consumed = ex_consumed E\<rparr>"

definition timeline_run :: "allocator list" where
  "timeline_run = map (alloc_of \<circ> snd) expected"

lemma timeline_run_steps: "successively (\<lambda>a b. a = b \<or> allocator_step a b) timeline_run"
proof -
  have act: "allocator_step \<lparr>al_phase = 2, al_consumed = [False, False, False]\<rparr> \<lparr>al_phase = 3, al_consumed = [False, False, False]\<rparr>"
    using allocator_step.activate [of "\<lparr>al_phase = 2, al_consumed = [False, False, False]\<rparr>"] by simp
  have c0: "allocator_step \<lparr>al_phase = 3, al_consumed = [False, False, False]\<rparr> \<lparr>al_phase = 4, al_consumed = [True, False, False]\<rparr>"
    using allocator_step.claim [of "\<lparr>al_phase = 3, al_consumed = [False, False, False]\<rparr>" 0] by simp
  have c1: "allocator_step \<lparr>al_phase = 4, al_consumed = [True, False, False]\<rparr> \<lparr>al_phase = 4, al_consumed = [True, True, False]\<rparr>"
    using allocator_step.claim [of "\<lparr>al_phase = 4, al_consumed = [True, False, False]\<rparr>" 1] by simp
  have c2: "allocator_step \<lparr>al_phase = 4, al_consumed = [True, True, False]\<rparr> \<lparr>al_phase = 5, al_consumed = [True, True, True]\<rparr>"
    using allocator_step.claim [of "\<lparr>al_phase = 4, al_consumed = [True, True, False]\<rparr>" 2] by (simp add: numeral_2_eq_2)
  show ?thesis using act c0 c1 c2 by (simp add: timeline_run_def expected_def alloc_of_def)
qed

section \<open>Observations\<close>

text \<open>A snapshot object shows a state of the allocator.\<close>

definition observes :: "allocator \<Rightarrow> pv \<Rightarrow> bool" where
  "observes a snap \<longleftrightarrow> (\<exists>d st. snap = PDict d \<and> get_or d ''state'' (PDict []) = PDict st
     \<and> num_of (py_get st ''operationState'') = Some (al_phase a)
     \<and> py_get st ''operationStateName'' = PStr (state_name (al_phase a))
     \<and> num_of (py_get st ''claimedAmount'') = Some (consumed_total (al_consumed a))
     \<and> num_of (py_get st ''claimedCount'') = Some (al_count a)
     \<and> num_of (py_get st ''outstandingLiability'') = Some (al_liability a)
     \<and> py_eq (py_get st ''consumedByIndex'') (bools_pv (al_consumed a))
     \<and> py_eq (py_get st ''consumedClaimIdentity'') (bools_pv (al_consumed a))
     \<and> (al_phase a \<noteq> 2 \<longrightarrow> num_of (py_get st ''allocatorTokenBalance'') = Some (al_liability a)))"

definition block_no :: "pv \<Rightarrow> int option" where
  "block_no snap = (case snap of
     PDict d \<Rightarrow> (case get_or d ''block'' (PDict []) of
        PDict b \<Rightarrow> num_of (get_or b ''number'' (PInt (- 1))) | _ \<Rightarrow> None) | _ \<Rightarrow> None)"

lemma differsE_False_iff: "differsE a b = Inr False \<longleftrightarrow> (\<exists>x y. a = Inr x \<and> b = Inr y \<and> py_eq x y)"
  by (auto simp: differsE_def bindE_Inr_iff)

lemma mapE_differs_iff:
  "bindE (mapE (\<lambda>(k, v). differsE (get_none st k) (Inr v)) kvs) (\<lambda>bs. Inr (True \<in> set bs)) = Inr False
     \<longleftrightarrow> list_all (\<lambda>(k, v). differsE (get_none st k) (Inr v) = Inr False) kvs"
proof (induction kvs)
  case Nil
  then show ?case by simp
next
  case (Cons kv kvs)
  have "bindE (mapE (\<lambda>(k, v). differsE (get_none st k) (Inr v)) (kv # kvs)) (\<lambda>bs. Inr (True \<in> set bs)) = Inr False
    \<longleftrightarrow> (\<lambda>(k, v). differsE (get_none st k) (Inr v)) kv = Inr False
      \<and> bindE (mapE (\<lambda>(k, v). differsE (get_none st k) (Inr v)) kvs) (\<lambda>bs. Inr (True \<in> set bs)) = Inr False"
    by (auto simp: bindE_Inr_iff) (rule_tac x = "False # x" in exI, auto)
  then show ?case unfolding Cons.IH by (cases kv) simp
qed

lemma expected_wf: "(i, E) \<in> set expected \<Longrightarrow>
    consumed_total (ex_consumed E) = ex_amount E \<and> ex_count E = al_count (alloc_of E) \<and> ex_liability E = al_liability (alloc_of E)
    \<and> (i = ''beforeActivation'' \<longleftrightarrow> ex_state E = 2)"
  by (auto simp: expected_def consumed_total_def claims_def al_count_def alloc_of_def al_liability_def)

lemma get_differs: "differsE (get_none st k) (Inr v) = Inr False \<Longrightarrow> \<exists>sd. st = PDict sd \<and> py_eq (py_get sd k) v"
  by (auto simp: differsE_False_iff get_in_Inr_iff)

lemma state_expected_Inr:
  assumes "state_expected i E st = Inr ()" and E: "(i, E) \<in> set expected"
    and d: "get_in (PDict d) ''state'' (PDict []) = Inr st"
  shows "observes (alloc_of E) (PDict d)"
proof -
  note wf = expected_wf [OF E]
  have tup: "list_all (\<lambda>(k, v). differsE (get_none st k) (Inr v) = Inr False) (expected_tuple E)"
    and nm: "differsE (get_none st ''operationStateName'') (Inr (PStr (state_name (ex_state E)))) = Inr False"
    and idm: "differsE (get_none st ''consumedClaimIdentity'') (Inr (bools_pv (ex_consumed E))) = Inr False"
    and bal: "i = ''beforeActivation'' \<or> differsE (get_none st ''allocatorTokenBalance'') (Inr (PInt (ex_liability E))) = Inr False"
    using assms(1)
    by (simp_all add: state_expected_def check_iff tuple_differs_def mapE_differs_iff del: get_in.simps split: if_splits)
  from get_differs [OF nm] obtain sd where sd: "st = PDict sd" by blast
  show ?thesis
    unfolding observes_def
    using tup get_differs [OF nm] get_differs [OF idm] bal wf d sd
    by (auto simp: expected_tuple_def alloc_of_def differsE_def)
qed

lemma timeline_step_Inr:
  assumes "timeline_step by_id p (i, E) = Inr n" and E: "(i, E) \<in> set expected"
  shows "\<exists>snap. map_of by_id (PStr i) = Some snap \<and> observes (alloc_of E) snap \<and> block_no snap = Some n \<and> p < n"
proof -
  from assms(1) obtain snap st nv where
    s: "map_of by_id (PStr i) = Some snap" "get_in snap ''state'' (PDict []) = Inr st"
      "bindE (sub_dict snap ''block'') (\<lambda>b. get_in b ''number'' (PInt (- 1))) = Inr nv"
      "case num_of nv of None \<Rightarrow> False | Some n \<Rightarrow> p < n" "number_of nv = Inr n" "state_expected i E st = Inr ()"
    by (auto simp: timeline_step_def bindE_Inr_iff check_iff option_Inl_Inr_iff split: option.splits)
  obtain d where d: "snap = PDict d" using s(2) by (auto simp: get_in_Inr_iff)
  have n: "num_of nv = Some n" using s(5) by (auto simp: number_of_def split: option.splits)
  have "block_no snap = Some n" using s(3) n d by (auto simp: block_no_def bindE_Inr_iff get_in_Inr_iff)
  moreover have "p < n" using s(4) n by simp
  moreover have "observes (alloc_of E) snap" using state_expected_Inr [OF s(6) E] s(2) d by simp
  ultimately show ?thesis using s(1) by blast
qed

section \<open>The timeline\<close>

lemma timeline_fold:
  assumes "foldE (timeline_step by_id) p es = Inr n" and "set es \<subseteq> set expected"
  shows "\<exists>snaps. list_all2 (\<lambda>(i, E) s. map_of by_id (PStr i) = Some s \<and> observes (alloc_of E) s) es snaps
    \<and> sorted_wrt (<) (p # map (\<lambda>s. the (block_no s)) snaps) \<and> list_all (\<lambda>s. block_no s \<noteq> None) snaps"
  using assms
proof (induction es arbitrary: p)
  case Nil
  then show ?case by simp
next
  case (Cons ie es)
  obtain i E where ie: "ie = (i, E)" by (cases ie)
  from Cons.prems(1) obtain k where k: "timeline_step by_id p (i, E) = Inr k" "foldE (timeline_step by_id) k es = Inr n"
    by (auto simp: bindE_Inr_iff ie)
  from Cons.prems(2) have E: "(i, E) \<in> set expected" "set es \<subseteq> set expected" by (auto simp: ie)
  from timeline_step_Inr [OF k(1) E(1)] obtain snap where
    s: "map_of by_id (PStr i) = Some snap" "observes (alloc_of E) snap" "block_no snap = Some k" "p < k" by blast
  from Cons.IH [OF k(2) E(2)] obtain snaps where
    r: "list_all2 (\<lambda>(i, E) s. map_of by_id (PStr i) = Some s \<and> observes (alloc_of E) s) es snaps"
      "sorted_wrt (<) (k # map (\<lambda>s. the (block_no s)) snaps)" "list_all (\<lambda>s. block_no s \<noteq> None) snaps" by blast
  have "sorted_wrt (<) (p # k # map (\<lambda>s. the (block_no s)) snaps)" using r(2) s(4) by auto
  then show ?case using s r by (intro exI [of _ "snap # snaps"]) (simp add: ie)
qed

lemma iter_of_dicts:
  assumes "iter_of v = Inr rows" and "mapE (\<lambda>row. get_none row k) rows = Inr (x # xs)"
  shows "v = PList rows"
proof -
  from assms(2) obtain r rs where "rows = r # rs" by (cases rows) auto
  moreover from this assms(2) have "\<exists>d. r = PDict d" by (auto simp: bindE_Inr_iff get_in_Inr_iff)
  ultimately show ?thesis using assms(1) by (cases v) auto
qed

lemma rows_by_id_zip:
  assumes "mapE (\<lambda>row. get_none row ''id'') rows = Inr (map PStr is)" and "distinct is"
  shows "rows_by_id rows = Inr (zip (map PStr is) rows)"
proof -
  have "foldE (\<lambda>acc row. bindE (item row ''id'') (\<lambda>k.
      if hashable k then Inr (dset k row acc) else Inl (Builtin TypeError))) acc rows = Inr (acc @ zip (map PStr is) rows)"
    if "PStr ` set is \<inter> set (map fst acc) = {}" for acc
    using assms that
  proof (induction rows arbitrary: "is" acc)
    case Nil
    then show ?case by simp
  next
    case (Cons row rows)
    from Cons.prems(1) obtain i js where "is": "is = i # js" and i: "get_none row ''id'' = Inr (PStr i)"
      and js: "mapE (\<lambda>row. get_none row ''id'') rows = Inr (map PStr js)"
      by (auto simp: bindE_Inr_iff map_eq_Cons_conv)
    from i have it: "item row ''id'' = Inr (PStr i)"
      by (auto simp: get_in_Inr_iff get_or_def split: option.splits)
    have fresh: "dset (PStr i) row acc = acc @ [(PStr i, row)]"
      using Cons.prems(3) by (intro dset_fresh) (auto simp: "is")
    have "PStr ` set js \<inter> set (map fst (acc @ [(PStr i, row)])) = {}"
      using Cons.prems(2,3) by (auto simp: "is")
    from Cons.IH [OF js _ this] Cons.prems(2) show ?case by (simp add: it fresh "is")
  qed
  from this [of "[]"] show ?thesis by (simp add: rows_by_id_def)
qed

text \<open>
  C5: an accepted timeline is a run of the allocator.  Its snapshots show, one by one, the states of a
  path from the funded to the closed operation on which each step is an activation, one claim or none;
  in every state after activation the claimed amount and the liability add up to the funded 70 and the
  allocator holds exactly its liability; and the blocks strictly increase.
\<close>

theorem timeline_refines_allocator:
  assumes "validate_timeline v = Inr ()"
  shows "\<exists>rows. v = PList rows \<and> list_all2 observes timeline_run rows
    \<and> successively (\<lambda>a b. a = b \<or> allocator_step a b) timeline_run
    \<and> hd timeline_run = \<lparr>al_phase = 2, al_consumed = [False, False, False]\<rparr>
    \<and> last timeline_run = \<lparr>al_phase = 5, al_consumed = [True, True, True]\<rparr>
    \<and> list_all (\<lambda>s. block_no s \<noteq> None) rows \<and> sorted_wrt (<) (map (\<lambda>s. the (block_no s)) rows)"
proof -
  from assms obtain rows by_id n where rows: "iter_of v = Inr rows"
    and ids: "mapE (\<lambda>row. get_none row ''id'') rows = Inr (map PStr snapshot_ids)"
    and ix: "rows_by_id rows = Inr by_id" and fold: "foldE (timeline_step by_id) (- 1) expected = Inr n"
    by (auto simp: validate_timeline_def bindE_Inr_iff check_iff ignoreE_def)
  have len: "length rows = 7" using mapE_length [OF ids] by (simp add: snapshot_ids_def)
  have names: "map fst expected = snapshot_ids" by (simp add: expected_def snapshot_ids_def)
  have dist: "distinct snapshot_ids" by (simp add: snapshot_ids_def)
  from rows_by_id_zip [OF ids dist] ix have zipped: "by_id = zip (map PStr snapshot_ids) rows" by simp
  from timeline_fold [OF fold] obtain snaps where
    s: "list_all2 (\<lambda>(i, E) s. map_of by_id (PStr i) = Some s \<and> observes (alloc_of E) s) expected snaps"
      "sorted_wrt (<) (map (\<lambda>s. the (block_no s)) snaps)" "list_all (\<lambda>s. block_no s \<noteq> None) snaps" by auto
  have seven: "length expected = 7" by (simp add: expected_def)
  have found: "map_of by_id (PStr (fst (expected ! k))) = Some (rows ! k)" if "k < 7" for k
  proof -
    have "map PStr snapshot_ids ! k = PStr (fst (expected ! k))"
      using that seven by (simp add: names [symmetric])
    moreover have "map_of (zip (map PStr snapshot_ids) rows) (map PStr snapshot_ids ! k) = Some (rows ! k)"
      using that len dist by (intro map_of_zip_nth) (auto simp: distinct_map inj_on_def snapshot_ids_def)
    ultimately show ?thesis by (simp add: zipped)
  qed
  have "snaps = rows"
  proof (rule nth_equalityI)
    show "length snaps = length rows" using list_all2_lengthD [OF s(1)] len seven by simp
    fix k assume "k < length snaps"
    then have "k < 7" using list_all2_lengthD [OF s(1)] seven by simp
    then show "snaps ! k = rows ! k"
      using list_all2_nthD [OF s(1), of k] seven found [of k] by (simp add: split_beta)
  qed
  moreover have "list_all2 observes timeline_run snaps"
    using s(1) by (auto simp: timeline_run_def list_all2_map1 elim!: list_all2_mono)
  moreover have "v = PList rows" using iter_of_dicts [OF rows ids [unfolded snapshot_ids_def list.map]] .
  ultimately show ?thesis
    using s(2,3) timeline_run_steps by (auto simp: timeline_run_def expected_def alloc_of_def)
qed

text \<open>The seven snapshots of the controlled execution, at blocks 10 to 70.\<close>

definition sample_snapshot :: "int \<Rightarrow> string \<times> expectation \<Rightarrow> pv" where
  "sample_snapshot n ie = (case ie of (i, E) \<Rightarrow> PDict
     [(''id'', PStr i), (''block'', PDict [(''number'', PInt n)]),
      (''transactionBoundary'', PDict [(''transactionCount'', PInt 1), (''transactionIndex'', PInt 0)]),
      (''state'', PDict
        ([(''entitlementCount'', PInt 3), (''entitlementTotal'', PInt 70), (''fundedAmount'', PInt 70)] @ expected_tuple E
         @ [(''operationStateName'', PStr (state_name (ex_state E))), (''consumedClaimIdentity'', bools_pv (ex_consumed E)),
            (''allocatorTokenBalance'', PInt (ex_liability E))]))])"

definition sample_timeline :: pv where
  "sample_timeline = PList (map (\<lambda>(n, ie). sample_snapshot n ie) (zip [10, 20, 30, 40, 50, 60, 70] expected))"

lemma timeline_refines_allocator_witness:
  "validate_timeline sample_timeline = Inr ()
   \<and> (\<exists>rows. sample_timeline = PList rows \<and> list_all2 observes timeline_run rows)"
proof -
  have ok: "validate_timeline sample_timeline = Inr ()" by code_simp
  then show ?thesis using timeline_refines_allocator [OF ok] by blast
qed

section \<open>The recheck\<close>

lemma get_or_update_probe: "k \<noteq> ''replayProbe'' \<Longrightarrow> get_or (update_probe d r) k x = get_or d k x"
  by (auto simp: update_probe_def split: pv.splits)

lemma allocator_report_fields:
  assumes "allocator_report dir m c live allocator report hashes snaps = Inr d"
  shows "get_or d ''schema'' PNone = PStr allocator_schema \<and> get_or d ''snapshots'' (PList []) = PList snaps"
  using assms by (auto simp: allocator_report_def bindE_Inr_iff get_or_def)

section \<open>Claim identities\<close>

text \<open>Reading a varint back, and a claim identity from the front of a byte string.\<close>

fun read_varint :: "bytes \<Rightarrow> (nat \<times> bytes) option" where
  "read_varint [] = None"
| "read_varint (b # bs) =
     (if unat b < 128 then Some (unat b, bs)
      else map_option (\<lambda>(n, r). (unat b - 128 + 128 * n, r)) (read_varint bs))"

fun utf8_read :: "bytes \<Rightarrow> string option" where
  "utf8_read [] = Some []"
| "utf8_read [b] = (if unat b < 128 then Some [char_of (unat b)] else None)"
| "utf8_read (b # c # bs) =
     (if unat b < 128 then map_option ((#) (char_of (unat b))) (utf8_read (c # bs))
      else map_option ((#) (char_of ((unat b - 192) * 64 + (unat c - 128)))) (utf8_read bs))"

definition read_identity :: "bytes \<Rightarrow> (string \<times> bytes) option" where
  "read_identity bs =
     (case bs of [] \<Rightarrow> None | b # r \<Rightarrow>
        if b = 0x20 then Option.bind (read_varint r) (\<lambda>(n, r').
          map_option (\<lambda>s. (s, drop n r')) (utf8_read (take n r'))) else None)"

lemma unat_byte: "n < 256 \<Longrightarrow> unat (of_nat n :: 8 word) = n"
  by (simp add: unat_of_nat)

lemma read_varint_varint: "read_varint (varint n @ bs) = Some (n, bs)"
proof (induction n rule: varint.induct)
  case (1 n)
  show ?case
  proof (cases "0x80 \<le> n")
    case True
    then have "unat (of_nat (n mod 0x80 + 0x80) :: 8 word) = n mod 0x80 + 0x80"
      by (intro unat_byte) (use mod_less_divisor [of "0x80" n] in linarith)
    with 1 True show ?thesis by (subst varint.simps) (simp del: of_nat_add)
  next
    case False
    then show ?thesis by (subst varint.simps) (simp add: unat_byte)
  qed
qed

lemma utf8_read_char: "utf8_read (utf8_char c @ bs) = map_option ((#) c) (utf8_read bs)"
proof -
  define n where "n = (of_char c :: nat)"
  have n: "n < 256" by (simp add: n_def)
  show ?thesis
  proof (cases "n < 0x80")
    case True
    then show ?thesis by (cases bs) (simp_all add: utf8_char_def Let_def n_def [symmetric] unat_byte, simp_all add: n_def)
  next
    case False
    have a: "unat (of_nat (0xC0 + n div 64) :: 8 word) = 0xC0 + n div 64" using n by (intro unat_byte) simp
    have b: "unat (of_nat (0x80 + n mod 64) :: 8 word) = 0x80 + n mod 64"
      by (intro unat_byte) (use mod_less_divisor [of "64" n] in linarith)
    have "n div 64 * 64 + n mod 64 = n" by simp
    with False a b show ?thesis
      by (simp add: utf8_char_def Let_def n_def [symmetric] del: of_nat_add) (simp add: n_def)
  qed
qed

lemma utf8_read_encode: "utf8_read (utf8_encode s) = Some s"
  by (induction s) (simp_all add: utf8_encode_def utf8_read_char)

text \<open>
  The canonical claim identity is self-delimiting.  From any byte string that starts with the
  identity of a claim the claim's name is read back, so two claims never share one and no identity is
  a prefix of another.
\<close>

theorem identity_payload_roundtrip: "read_identity (identity_payload cid @ rest) = Some (cid, rest)"
  by (simp add: read_identity_def identity_payload_def read_varint_varint utf8_read_encode)

end
