(* ===== verification/Allocator_Recheck.thy ===== *)
theory Allocator_Recheck
  imports Allocator_Theorems
begin

text \<open>
  The recheck of captured observations (\<^verbatim>\<open>verify\<close> of \<^verbatim>\<open>scripts/forensic/pro30_allocator_state.py\<close>): the file
  it is given need only be equal, as Python compares JSON values, to what a capture yields.
\<close>

section \<open>Normal forms of JSON values\<close>

text \<open>
  Two values are equal in Python exactly when their normal forms are the same; every read of the timeline
  check sees a value only up to its normal form.
\<close>

definition normal :: "pv \<Rightarrow> pv" where
  "normal v = canon (plain v)"

lemma py_eq_normal: "py_eq v w \<longleftrightarrow> normal v = normal w"
  by (simp add: py_eq_def normal_def)

lemma plain_idem [simp]: "plain (plain v) = plain v"
  by (induction v) (auto simp: prod.map_comp)

definition map_values :: "('v \<Rightarrow> 'w) \<Rightarrow> ('k \<times> 'v) list \<Rightarrow> ('k \<times> 'w) list" where
  "map_values f d = map (\<lambda>kv. (fst kv, f (snd kv))) d"

lemma map_values_simps [simp]:
  "map_values f [] = []" "map_values f (kv # d) = (fst kv, f (snd kv)) # map_values f d" "map_values f d = [] \<longleftrightarrow> d = []"
  by (simp_all add: map_values_def)

lemma map_values_eq: "map (map_prod id f) d = map_values f d"
  by (induction d) auto

lemma map_values_comp: "map_values f (map_values g d) = map_values (\<lambda>x. f (g x)) d"
  by (induction d) auto

lemma map_values_cong: "(\<And>k v. (k, v) \<in> set d \<Longrightarrow> f v = g v) \<Longrightarrow> map_values f d = map_values g d"
  by (auto simp: map_values_def)

lemma map_of_map_values: "map_of (map_values f d) k = map_option f (map_of d k)"
  by (induction d) auto

lemma dset_map_values: "dset k (f v) (map_values f d) = map_values f (dset k v d)"
  by (induction d) auto

lemma sort_map_values: "sort_key fst (map_values f d) = map_values f (sort_key fst d)"
proof (induction d)
  case (Cons kv d)
  have "insort_key fst (k, f v) (map_values f e) = map_values f (insort_key fst (k, v) e)" for k v e
    by (induction e) auto
  with Cons show ?case by (cases kv) simp
qed simp

lemma plain_canon: "plain (canon v) = canon (plain v)"
proof (induction v)
  case (PDict d)
  have "map_values (\<lambda>x. plain (canon x)) (sort_key fst d) = map_values (\<lambda>x. canon (plain x)) (sort_key fst d)"
    using PDict by (intro map_values_cong) auto
  then show ?case by (simp add: map_values_eq map_values_comp sort_map_values del: map_map)
qed auto

lemma normal_idem [simp]: "normal (normal v) = normal v"
  by (simp add: normal_def plain_canon)

lemma py_eq_normal_left [simp]: "py_eq (normal v) w \<longleftrightarrow> py_eq v w"
  by (simp add: py_eq_normal)

lemma py_eq_normal_right [simp]: "py_eq v (normal w) \<longleftrightarrow> py_eq v w"
  by (simp add: py_eq_normal)

lemma normal_atoms [simp]: "normal PNone = PNone" "normal (PStr s) = PStr s" "normal (PInt i) = PInt i"
  "normal (PBool b) = PInt (of_bool b)" "normal (PList xs) = PList (map normal xs)"
  by (simp_all add: normal_def comp_def)

lemma normal_dict: "normal (PDict d) = PDict (sort_key fst (map_values normal d))"
  by (simp add: normal_def [abs_def] map_values_eq map_values_comp del: map_map)

lemma normal_str_iff [simp]: "normal v = PStr s \<longleftrightarrow> v = PStr s"
  by (cases v) (simp_all add: normal_dict)

lemma num_of_normal [simp]: "num_of (normal v) = num_of v"
  by (cases v) (simp_all add: normal_dict)

lemma number_of_normal [simp]: "number_of (normal v) = number_of v"
  by (simp add: number_of_def)

lemma map_of_filter: "map_of xs k = (case filter (\<lambda>y. fst y = k) xs of [] \<Rightarrow> None | y # ys \<Rightarrow> Some (snd y))"
  by (induction xs) auto

lemma map_of_sort_key: "map_of (sort_key fst xs) k = map_of xs k"
  by (simp add: map_of_filter sort_key_stable)

definition normalE :: "'e + pv \<Rightarrow> 'e + pv" where
  "normalE m = bindE m (\<lambda>x. Inr (normal x))"

lemma get_in_normal: "normal x = x \<Longrightarrow> get_in (normal v) k x = normalE (get_in v k x)"
  by (cases v) (auto simp: normal_dict normalE_def map_of_sort_key map_of_map_values get_or_def split: option.splits)

lemma get_none_normal [simp]: "get_none (normal v) k = normalE (get_none v k)"
  by (simp add: get_in_normal)

lemma item_normal [simp]: "item (normal v) k = normalE (item v k)"
  by (cases v) (auto simp: normal_dict normalE_def map_of_sort_key map_of_map_values split: option.splits)

lemma differsE_normal [simp]:
  "differsE (normalE a) b = differsE a b" "differsE a (normalE b) = differsE a b"
  by (cases a; cases b; simp add: differsE_def normalE_def)+

lemma normalE_bind: "bindE (normalE m) f = bindE m (\<lambda>x. f (normal x))"
  by (cases m) (simp_all add: normalE_def)

lemma bindE_normalE: "bindE m (\<lambda>x. normalE (f x)) = normalE (bindE m f)"
  by (cases m) (simp_all add: normalE_def)

lemma sub_dict_normal: "sub_dict (normal v) k = normalE (sub_dict v k)"
  by (simp add: get_in_normal normal_dict)

section \<open>The timeline check sees normal forms\<close>

lemma sum_of_normal: "sum_of (normal v) = sum_of v"
proof (cases v)
  case (PDict d)
  have "mapE number_of (map (\<lambda>kv. PStr (fst kv)) e) = (if e = [] then Inr [] else Inl (Builtin TypeError))" for e :: obj
    by (cases e) (simp_all add: number_of_def)
  moreover have "sort_key fst (map_values normal d) = [] \<longleftrightarrow> d = []"
    by (metis length_0_conv length_sort map_values_simps(3))
  ultimately show ?thesis by (simp add: PDict normal_dict sum_of_def)
next
  case (PList xs)
  have "mapE number_of (map normal xs) = mapE number_of xs" by (induction xs) simp_all
  then show ?thesis by (simp add: PList sum_of_def)
qed (simp_all add: sum_of_def)

lemma tuple_differs_normal: "tuple_differs (normal st) E = tuple_differs st E"
  by (simp add: tuple_differs_def case_prod_beta)

lemma state_expected_normal: "state_expected i E (normal st) = state_expected i E st"
proof -
  have "bindE (bindE (get_in (normal st) ''consumedByIndex'' (PList [])) sum_of) (\<lambda>k. Inr (PInt k))
      = bindE (bindE (get_in st ''consumedByIndex'' (PList [])) sum_of) (\<lambda>k. Inr (PInt k))"
    by (simp add: get_in_normal normalE_bind sum_of_normal)
  then show ?thesis unfolding state_expected_def tuple_differs_normal by simp
qed

lemma timeline_step_normal:
  "timeline_step (map_values normal by_id) previous ie = timeline_step by_id previous ie"
  by (cases ie) (simp add: timeline_step_def map_of_map_values sub_dict_normal get_in_normal normalE_bind bindE_assoc state_expected_normal
      split: option.splits)

lemma rows_by_id_normal:
  assumes "\<forall>row \<in> set rows. \<exists>i. get_none row ''id'' = Inr (PStr i)"
  shows "rows_by_id (map normal rows) = bindE (rows_by_id rows) (\<lambda>d. Inr (map_values normal d))"
proof -
  let ?f = "\<lambda>acc row. bindE (item row ''id'') (\<lambda>k. if hashable k then Inr (dset k row acc) else Inl (Builtin TypeError))"
  have "foldE ?f (map_values normal acc) (map normal rows) = bindE (foldE ?f acc rows) (\<lambda>d. Inr (map_values normal d))" for acc
    using assms
  proof (induction rows arbitrary: acc)
    case (Cons row rows)
    then obtain i d where "row = PDict d" "get_or d ''id'' PNone = PStr i" by (cases row) auto
    then have "item row ''id'' = Inr (PStr i)" by (auto simp: get_or_def split: option.splits)
    with Cons show ?case by (simp add: normalE_def dset_map_values)
  qed simp
  from this [of "[]"] show ?thesis by (simp add: rows_by_id_def)
qed

lemma same_operation_normal: "same_operation (normal first) (normal row) = same_operation first row"
  by (simp add: same_operation_def sub_dict_normal normalE_bind)

lemma ambiguous_row_normal: "ambiguous_row (normal row) = ambiguous_row row"
  by (simp add: ambiguous_row_def sub_dict_normal normalE_bind bindE_normalE)

lemma row_normal:
  "(case map_of (map_values normal d) k of None \<Rightarrow> Inl e | Some s \<Rightarrow> Inr s) = normalE (case map_of d k of None \<Rightarrow> Inl e | Some s \<Rightarrow> Inr s)"
  by (simp add: map_of_map_values normalE_def split: option.split)

lemma map_normal_strs: "map normal ids = map PStr xs \<longleftrightarrow> ids = map PStr xs"
proof (induction xs arbitrary: ids)
  case (Cons x xs)
  then show ?case by (cases ids) simp_all
qed simp

lemma validate_timeline_normal: "validate_timeline (PList (map normal rows)) = validate_timeline (PList rows)"
proof -
  let ?id = "\<lambda>row. get_none row ''id''"
  have read: "mapE ?id (map normal rows) = bindE (mapE ?id rows) (\<lambda>ids. Inr (map normal ids))"
    by (induction rows) (simp_all add: normalE_def bindE_assoc)
  show ?thesis
  proof (cases "mapE ?id rows")
    case (Inl e)
    then show ?thesis using read by (simp add: validate_timeline_def)
  next
    case (Inr ids)
    note same = map_normal_strs [of ids snapshot_ids]
    show ?thesis
    proof (cases "ids = map PStr snapshot_ids")
      case False
      then show ?thesis using Inr read by (simp add: validate_timeline_def same require_def thenE_def)
    next
      case True
      have named: "\<forall>row \<in> set rows. \<exists>i. ?id row = Inr (PStr i)"
        using mapE_source_in [OF Inr] True by fastforce
      have "map ambiguous_row (map normal rows) = map ambiguous_row rows" by (simp add: ambiguous_row_normal)
      moreover have "map (same_operation (normal first)) (tl (map normal rows)) = map (same_operation first) (tl rows)" for first
        by (cases rows) (simp_all add: same_operation_normal)
      moreover have "timeline_step (map_values normal d) = timeline_step d" for d by (intro ext) (rule timeline_step_normal)
      ultimately show ?thesis
        using Inr read rows_by_id_normal [OF named] map_normal_strs [of "map PStr snapshot_ids" snapshot_ids]
        by (simp add: validate_timeline_def same True bindE_assoc row_normal normalE_bind sub_dict_normal del: map_map)
    qed
  qed
qed

lemma timeline_is_list:
  assumes "validate_timeline v = Inr ()"
  obtains rows where "v = PList rows"
proof (cases v)
  case (PStr t)
  then show ?thesis using assms by (cases t) (auto simp: validate_timeline_def check_iff bindE_Inr_iff snapshot_ids_def)
next
  case (PDict d)
  then show ?thesis using assms by (cases d) (auto simp: validate_timeline_def check_iff bindE_Inr_iff snapshot_ids_def)
qed (use assms that in \<open>auto simp: validate_timeline_def\<close>)

lemma normal_list_iff: "normal v = PList xs \<longleftrightarrow> (\<exists>ys. v = PList ys \<and> xs = map normal ys)"
  by (cases v) (auto simp: normal_dict)

lemma equal_timelines:
  assumes "py_eq v w" "validate_timeline w = Inr ()"
  shows "validate_timeline v = Inr ()"
proof -
  obtain ws where ws: "w = PList ws" by (rule timeline_is_list [OF assms(2)])
  with assms(1) obtain vs where vs: "v = PList vs" "map normal vs = map normal ws"
    unfolding py_eq_normal by (auto simp: normal_list_iff)
  have "validate_timeline (PList vs) = validate_timeline (PList ws)"
    using validate_timeline_normal [of vs] validate_timeline_normal [of ws] vs(2) by simp
  with assms(2) show ?thesis by (simp add: ws vs(1))
qed

lemma equal_reads:
  assumes "py_eq v w" "get_in w k x = Inr a" "normal x = x"
  shows "\<exists>b. get_in v k x = Inr b \<and> py_eq b a"
proof -
  have "normalE (get_in v k x) = normalE (get_in w k x)"
    unfolding get_in_normal [OF assms(3), symmetric] assms(1) [unfolded py_eq_normal] ..
  with assms(2) show ?thesis by (cases "get_in v k x") (auto simp: normalE_def py_eq_normal)
qed

lemma capture_checks:
  assumes "capture_allocator L raw dir N = Inr r"
  shows "get_none r ''schema'' = Inr (PStr allocator_schema)"
    "\<exists>snaps. get_in r ''snapshots'' (PList []) = Inr snaps \<and> validate_timeline snaps = Inr ()"
proof -
  from assms obtain m c live allocator report hashes snaps base rejection where
    base: "allocator_report dir m c live allocator report hashes snaps = Inr base"
    and tl: "validate_timeline (PList snaps) = Inr ()" and r: "r = PDict (update_probe base rejection)"
    by (auto simp: capture_allocator_def bindE_Inr_iff check_iff)
  show "get_none r ''schema'' = Inr (PStr allocator_schema)"
    "\<exists>snaps. get_in r ''snapshots'' (PList []) = Inr snaps \<and> validate_timeline snaps = Inr ()"
    using allocator_report_fields [OF base] tl by (simp_all add: r get_or_update_probe)
qed

lemma recheck_core:
  "verify_allocator L raw dir supplied N = Inr r \<longleftrightarrow> capture_allocator L raw dir N = Inr r \<and> py_eq supplied r"
proof
  assume "verify_allocator L raw dir supplied N = Inr r"
  then show "capture_allocator L raw dir N = Inr r \<and> py_eq supplied r"
    by (auto simp: verify_allocator_def bindE_Inr_iff check_iff)
next
  assume c: "capture_allocator L raw dir N = Inr r \<and> py_eq supplied r"
  note good = capture_checks [OF conjunct1 [OF c]]
  obtain schema where "get_none supplied ''schema'' = Inr schema" "py_eq schema (PStr allocator_schema)"
    using equal_reads [OF conjunct2 [OF c] good(1)] by auto
  moreover obtain snaps where "get_in supplied ''snapshots'' (PList []) = Inr snaps" "validate_timeline snaps = Inr ()"
    using good(2) equal_reads [OF conjunct2 [OF c]] equal_timelines by (metis list.simps(8) normal_atoms(5))
  ultimately show "verify_allocator L raw dir supplied N = Inr r"
    using c by (simp add: verify_allocator_def differsE_def reject_if_def require_def thenE_def)
qed

text \<open>
  C30: the recheck accepts an observation file exactly when the capture it makes from the node succeeds and the file
  is equal to what it yields, and then returns that.  The schema and timeline checks made on the file before
  never reject an equal file: its numbers may be booleans and its keys in another order.
\<close>

theorem allocator_recheck_reproduces:
  "verify_allocator L raw dir supplied N = Inr r \<longleftrightarrow> capture_allocator L raw dir N = Inr r \<and> py_eq supplied r"
  by (rule recheck_core)

end
