(* ===== verification/Edn_Reader.thy ===== *)
theory Edn_Reader
  imports Py_Read
begin

text \<open>
  The EDN reader of \<^verbatim>\<open>scripts/edn.py\<close>.  The reader's position is the rest of the text; fuel bounds
  the calls of the recursive descent and \<open>Diverges\<close> is running out of it.  The first argument of the
  reader is the number of nested calls of \<^verbatim>\<open>value\<close> that the interpreter's recursion limit allows; a deeper
  nesting raises \<open>RecursionError\<close>.  A Python dictionary or set is the list of its items in insertion order.
\<close>

section \<open>Values\<close>

datatype edn =
    EInt int
  | EStr string
  | EVec "edn list"
  | EMap "(edn \<times> edn) list"
  | ESet "edn list"

datatype edn_error = EdnRaise py_error | Diverges

abbreviation edn_value_error :: "string \<Rightarrow> edn_error + 'a" where
  "edn_value_error m \<equiv> Inl (EdnRaise (ValueError m))"

fun edn_hashable :: "edn \<Rightarrow> bool" where
  "edn_hashable (EInt i) = True"
| "edn_hashable (EStr s) = True"
| "edn_hashable v = False"

section \<open>Tokens\<close>

definition comment_mark :: char where "comment_mark = CHR '';''"

function skip_blank :: "string \<Rightarrow> string" where
  "skip_blank [] = []"
| "skip_blank (c # s) =
     (if str_space c then skip_blank s
      else if c = comment_mark then skip_blank (dropWhile (\<lambda>d. d \<noteq> CHR 0x0A) s)
      else c # s)"
  by pat_completeness auto
termination
  by (relation "measure length") (auto simp: le_imp_less_Suc length_dropWhile_le)

definition token_char :: "char \<Rightarrow> bool" where
  "token_char c \<longleftrightarrow> \<not> str_space c \<and> c \<notin> set [CHR ''['', CHR '']'', CHR ''{'', CHR ''}'', CHR ''#'', CHR 0x22, CHR ''('', CHR '')'', CHR '','']"

fun read_quoted :: "string \<Rightarrow> (string \<times> string) option" where
  "read_quoted [] = None"
| "read_quoted (c # s) =
     (if c = CHR 0x22 then Some ([], s)
      else if c = CHR 0x5C
      then (case s of [] \<Rightarrow> None | d # t \<Rightarrow> map_option (\<lambda>(b, r). (d # b, r)) (read_quoted t))
      else map_option (\<lambda>(b, r). (c # b, r)) (read_quoted s))"

text \<open>
  \<^verbatim>\<open>int(tok)\<close> raises \<^verbatim>\<open>ValueError\<close> on more than 4300 digits, the interpreter's default; the token then stays text.
\<close>

definition digits_allowed :: "string \<Rightarrow> bool" where
  "digits_allowed tok \<longleftrightarrow> length (filter is_digit tok) \<le> 4300"

definition read_token :: "string \<Rightarrow> edn_error + edn \<times> string" where
  "read_token s =
     (let tok = takeWhile token_char s; r = dropWhile token_char s
      in if tok = [] then edn_value_error ''unexpected character in EDN''
         else Inr (case (if digits_allowed tok then int_text 10 tok else None) of None \<Rightarrow> EStr tok | Some i \<Rightarrow> EInt i, r))"

definition read_keyword :: "string \<Rightarrow> edn_error + edn \<times> string" where
  "read_keyword s =
     (let tok = takeWhile token_char s
      in if tok = [] then edn_value_error ''malformed keyword in EDN''
         else Inr (EStr (CHR '':'' # tok), dropWhile token_char s))"

section \<open>Recursive descent\<close>

text \<open>
  \<open>read_value\<close> is \<^verbatim>\<open>_Reader.value\<close>; \<open>read_pairs\<close> and \<open>read_items\<close> are its loops over the items of a
  map and of a vector or set, both of which also stop at the end of the text.
\<close>

definition add_item :: "bool \<Rightarrow> edn \<Rightarrow> edn list \<Rightarrow> edn_error + edn list" where
  "add_item is_set v acc =
     (if \<not> is_set then Inr (acc @ [v])
      else if edn_hashable v then Inr (if v \<in> set acc then acc else acc @ [v])
      else Inl (EdnRaise TypeError))"

fun read_value :: "nat \<Rightarrow> nat \<Rightarrow> string \<Rightarrow> edn_error + edn \<times> string"
  and read_pairs :: "nat \<Rightarrow> nat \<Rightarrow> (edn \<times> edn) list \<Rightarrow> string \<Rightarrow> edn_error + (edn \<times> edn) list \<times> string"
  and read_items :: "nat \<Rightarrow> nat \<Rightarrow> bool \<Rightarrow> edn list \<Rightarrow> string \<Rightarrow> edn_error + edn list \<times> string" where
  "read_value limit 0 s = Inl Diverges"
| "read_value limit (Suc n) s =
     (if limit = 0 then Inl (EdnRaise RecursionError)
      else case skip_blank s of
        [] \<Rightarrow> edn_value_error ''unexpected end of EDN input''
      | c # r \<Rightarrow>
          if c = CHR ''{'' then bindE (read_pairs (limit - 1) n [] r) (\<lambda>(m, t). Inr (EMap m, t))
          else if c = CHR ''['' then bindE (read_items (limit - 1) n False [] r) (\<lambda>(xs, t). Inr (EVec xs, t))
          else if c = CHR ''#'' then
            (case r of
               [] \<Rightarrow> edn_value_error ''only #{...} set literals are supported''
             | d # q \<Rightarrow> if d \<noteq> CHR ''{'' then edn_value_error ''only #{...} set literals are supported''
                       else bindE (read_items (limit - 1) n True [] q) (\<lambda>(xs, t). Inr (ESet xs, t)))
          else if c = CHR 0x22 then
            (case read_quoted r of None \<Rightarrow> edn_value_error ''unterminated string in EDN''
             | Some (b, t) \<Rightarrow> Inr (EStr b, t))
          else if c = CHR '':'' then read_keyword r
          else read_token (c # r))"
| "read_pairs limit 0 acc s = Inl Diverges"
| "read_pairs limit (Suc n) acc s =
     (case skip_blank s of
        [] \<Rightarrow> Inr (acc, [])
      | c # r \<Rightarrow>
          if c = CHR ''}'' then Inr (acc, r)
          else bindE (read_value limit n (c # r)) (\<lambda>(k, t). bindE (read_value limit n t) (\<lambda>(v, u).
            if edn_hashable k then read_pairs limit n (dset k v acc) u else Inl (EdnRaise TypeError))))"
| "read_items limit 0 is_set acc s = Inl Diverges"
| "read_items limit (Suc n) is_set acc s =
     (case skip_blank s of
        [] \<Rightarrow> Inr (acc, [])
      | c # r \<Rightarrow>
          if c = (if is_set then CHR ''}'' else CHR '']'') then Inr (acc, r)
          else bindE (read_value limit n (c # r)) (\<lambda>(v, t). bindE (add_item is_set v acc) (\<lambda>acc'. read_items limit n is_set acc' t)))"

definition edn_fuel :: "string \<Rightarrow> nat" where
  "edn_fuel s = 2 * length s + 1"

definition parse_edn :: "nat \<Rightarrow> string \<Rightarrow> edn_error + edn" where
  "parse_edn limit s = bindE (read_value limit (edn_fuel s) s) (\<lambda>(v, r). Inr v)"

section \<open>Fuel\<close>

lemma skip_blank_length: "length (skip_blank s) \<le> length s"
proof (induction s rule: skip_blank.induct)
  case (2 c s)
  then show ?case using length_dropWhile_le [of "\<lambda>d. d \<noteq> CHR 0x0A" s] by (auto intro: le_SucI le_trans)
qed simp

lemma read_quoted_length: "read_quoted s = Some (b, r) \<Longrightarrow> length r < length s"
  by (induction s arbitrary: b rule: read_quoted.induct) (force split: if_splits list.splits)+

lemma token_progress: "takeWhile P s \<noteq> [] \<Longrightarrow> length (dropWhile P s) < length s"
  by (cases s) (auto simp: length_dropWhile_le le_imp_less_Suc split: if_splits)

lemma read_token_progress: "read_token s = Inr (v, r) \<Longrightarrow> length r < length s"
  using token_progress [of token_char s] by (auto simp: read_token_def Let_def split: if_splits)

lemma read_keyword_length: "read_keyword s = Inr (v, r) \<Longrightarrow> length r < length s"
  using token_progress [of token_char s] by (auto simp: read_keyword_def Let_def split: if_splits)

text \<open>A value takes at least one character; the loops never go back.\<close>

lemma skip_blank_Cons: "skip_blank s = c # r \<Longrightarrow> Suc (length r) \<le> length s"
  using skip_blank_length [of s] by simp

lemma read_value_cases:
  assumes "read_value limit (Suc n) s = Inr (v, r)"
  obtains (map_form) q m where "skip_blank s = CHR ''{'' # q" "read_pairs (limit - 1) n [] q = Inr (m, r)" "v = EMap m"
  | (vector) q xs where "skip_blank s = CHR ''['' # q" "read_items (limit - 1) n False [] q = Inr (xs, r)" "v = EVec xs"
  | (set_form) q xs where "skip_blank s = CHR ''#'' # CHR ''{'' # q" "read_items (limit - 1) n True [] q = Inr (xs, r)" "v = ESet xs"
  | (quoted) q b where "skip_blank s = CHR 0x22 # q" "read_quoted q = Some (b, r)" "v = EStr b"
  | (keyword) q where "skip_blank s = CHR '':'' # q" "read_keyword q = Inr (v, r)"
  | (token) c q where "skip_blank s = c # q" "read_token (c # q) = Inr (v, r)"
proof (cases "skip_blank s")
  case Nil
  then show ?thesis using assms by (simp split: if_splits)
next
  case (Cons c q)
  have pos: "0 < limit" using assms by (auto split: if_splits)
  consider "c = CHR ''{''" | "c = CHR ''[''" | "c = CHR ''#''" | "c = CHR 0x22" | "c = CHR '':''"
    | "c \<notin> {CHR ''{'', CHR ''['', CHR ''#'', CHR 0x22, CHR '':''}" by blast
  then show ?thesis
  proof cases
    case 1 then show ?thesis using pos assms Cons map_form by (auto simp: bindE_Inr_iff)
  next
    case 2 then show ?thesis using pos assms Cons vector by (auto simp: bindE_Inr_iff)
  next
    case 3
    then obtain q' where "q = CHR ''{'' # q'" using pos assms Cons by (auto split: list.splits if_splits)
    then show ?thesis using 3 pos assms Cons set_form by (auto simp: bindE_Inr_iff)
  next
    case 4 then show ?thesis using assms Cons pos quoted by (auto split: option.splits)
  next
    case 5 then show ?thesis using assms Cons pos keyword by simp
  next
    case 6 then show ?thesis using assms Cons pos token by simp
  qed
qed

lemma read_progress:
  "(\<forall>limit s v r. read_value limit n s = Inr (v, r) \<longrightarrow> length r < length s)
   \<and> (\<forall>limit acc s m r. read_pairs limit n acc s = Inr (m, r) \<longrightarrow> length r \<le> length s)
   \<and> (\<forall>limit b acc s xs r. read_items limit n b acc s = Inr (xs, r) \<longrightarrow> length r \<le> length s)"
proof (induction n)
  case 0
  then show ?case by simp
next
  case (Suc n)
  have v: "length r < length s" if "read_value limit n s = Inr (v, r)" for limit s v r using Suc that by blast
  have p: "length r \<le> length s" if "read_pairs limit n acc s = Inr (m, r)" for limit acc s m r using Suc that by blast
  have i: "length r \<le> length s" if "read_items limit n b acc s = Inr (xs, r)" for limit b acc s xs r using Suc that by blast
  have "length r < length s" if r: "read_value limit (Suc n) s = Inr (v, r)" for limit s v r
    using r
    by (cases rule: read_value_cases)
      (auto dest!: p i skip_blank_Cons read_quoted_length read_keyword_length read_token_progress)
  moreover have "length r \<le> length s" if r: "read_pairs limit (Suc n) acc s = Inr (m, r)" for limit acc s m r
  proof (cases "skip_blank s")
    case Nil
    then show ?thesis using r by simp
  next
    case (Cons c q)
    have "length r \<le> Suc (length q)"
    proof (cases "c = CHR ''}''")
      case True
      then show ?thesis using r Cons by simp
    next
      case False
      with r Cons obtain k t w u where "read_value limit n (c # q) = Inr (k, t)" "read_value limit n t = Inr (w, u)"
        "read_pairs limit n (dset k w acc) u = Inr (m, r)"
        by (auto simp: bindE_Inr_iff split: if_splits)
      then show ?thesis by (auto dest!: v p)
    qed
    then show ?thesis using skip_blank_Cons [OF Cons] by simp
  qed
  moreover have "length r \<le> length s" if r: "read_items limit (Suc n) b acc s = Inr (xs, r)" for limit b acc s xs r
  proof (cases "skip_blank s")
    case Nil
    then show ?thesis using r by simp
  next
    case (Cons c q)
    have "length r \<le> Suc (length q)"
    proof (cases "c = (if b then CHR ''}'' else CHR '']'')")
      case True
      then show ?thesis using r Cons by simp
    next
      case False
      with r Cons obtain k t acc' where "read_value limit n (c # q) = Inr (k, t)" "read_items limit n b acc' t = Inr (xs, r)"
        by (auto simp: bindE_Inr_iff split: if_splits)
      then show ?thesis by (auto dest!: v i)
    qed
    then show ?thesis using skip_blank_Cons [OF Cons] by simp
  qed
  ultimately show ?case by blast
qed

lemma read_token_returns: "read_token s \<noteq> Inl Diverges" "read_keyword s \<noteq> Inl Diverges"
  by (auto simp: read_token_def read_keyword_def Let_def)

lemma add_item_returns: "add_item b v acc \<noteq> Inl Diverges"
  by (auto simp: add_item_def)

lemma read_value_length: "read_value limit n s = Inr (v, r) \<Longrightarrow> length r < length s"
  using read_progress [of n] by blast

lemma bindE_cong_Inr: "(\<And>x. m = Inr x \<Longrightarrow> f x = g x) \<Longrightarrow> bindE m f = bindE m g"
  by (cases m) auto

text \<open>Twice the length of the text, and one or two more, is enough fuel; more changes nothing.\<close>

lemma fuel_enough:
  "(\<forall>limit s. 2 * length s < n \<longrightarrow> read_value limit n s \<noteq> Inl Diverges \<and> read_value limit (n + k) s = read_value limit n s)
   \<and> (\<forall>limit acc s. 2 * length s + 1 < n \<longrightarrow> read_pairs limit n acc s \<noteq> Inl Diverges \<and> read_pairs limit (n + k) acc s = read_pairs limit n acc s)
   \<and> (\<forall>limit b acc s. 2 * length s + 1 < n \<longrightarrow> read_items limit n b acc s \<noteq> Inl Diverges \<and> read_items limit (n + k) b acc s = read_items limit n b acc s)"
proof (induction n)
  case 0
  then show ?case by simp
next
  case (Suc n)
  have v: "read_value limit n s \<noteq> Inl Diverges" "read_value limit (n + k) s = read_value limit n s" if "2 * length s < n" for limit s
    using Suc that by blast+
  have p: "read_pairs limit n acc s \<noteq> Inl Diverges" "read_pairs limit (n + k) acc s = read_pairs limit n acc s"
    if "2 * length s + 1 < n" for limit acc s using Suc that by blast+
  have i: "read_items limit n b acc s \<noteq> Inl Diverges" "read_items limit (n + k) b acc s = read_items limit n b acc s"
    if "2 * length s + 1 < n" for limit b acc s using Suc that by blast+
  have "read_value limit (Suc n) s \<noteq> Inl Diverges \<and> read_value limit (Suc n + k) s = read_value limit (Suc n) s"
    if len: "2 * length s < Suc n" for limit s
  proof (cases "skip_blank s")
    case (Cons c q)
    then have q: "2 * length q + 1 < n" using skip_blank_Cons [OF Cons] len by simp
    consider "c = CHR ''{''" | "c = CHR ''[''" | d q' where "c = CHR ''#''" "q = d # q'" | "c = CHR ''#''" "q = []" | "c = CHR 0x22"
      | "c = CHR '':''" | "c \<notin> {CHR ''{'', CHR ''['', CHR ''#'', CHR 0x22, CHR '':''}" by (cases q) blast+
    then show ?thesis
    proof cases
      case 1 then show ?thesis using p [OF q, of "limit - 1" "[]"] by (simp add: Cons bindE_Inl_iff)
    next
      case 2 then show ?thesis using i [OF q, of "limit - 1" False "[]"] by (simp add: Cons bindE_Inl_iff)
    next
      case (3 d q')
      then have "2 * length q' + 1 < n" using q by simp
      from i [OF this, of "limit - 1" True "[]"] show ?thesis using 3 by (simp add: Cons bindE_Inl_iff)
    next
      case 4 then show ?thesis by (simp add: Cons)
    next
      case 5 then show ?thesis by (cases "read_quoted q") (simp_all add: Cons split: prod.split)
    next
      case 6 then show ?thesis by (simp add: Cons read_token_returns)
    next
      case 7 then show ?thesis by (simp add: Cons read_token_returns)
    qed
  qed simp
  moreover have "read_pairs limit (Suc n) acc s \<noteq> Inl Diverges \<and> read_pairs limit (Suc n + k) acc s = read_pairs limit (Suc n) acc s"
    if len: "2 * length s + 1 < Suc n" for limit acc s
  proof (cases "skip_blank s")
    case (Cons c q)
    then have q: "2 * length (c # q) < n" using skip_blank_Cons [OF Cons] len by simp
    have t: "2 * length t < n" if "read_value limit n (c # q) = Inr (x, t)" for x t
      using read_value_length [OF that] q by simp
    have u: "2 * length u + 1 < n" if "read_value limit n (c # q) = Inr (x, t)" "read_value limit n t = Inr (y, u)" for x t y u
      using read_value_length [OF that(1)] read_value_length [OF that(2)] q by simp
    show ?thesis
      using Cons v [OF q] v [OF t] p [OF u]
      by (auto simp: bindE_Inl_iff intro!: bindE_cong_Inr)
  qed simp
  moreover have "read_items limit (Suc n) b acc s \<noteq> Inl Diverges \<and> read_items limit (Suc n + k) b acc s = read_items limit (Suc n) b acc s"
    if len: "2 * length s + 1 < Suc n" for limit b acc s
  proof (cases "skip_blank s")
    case (Cons c q)
    then have q: "2 * length (c # q) < n" using skip_blank_Cons [OF Cons] len by simp
    have t: "2 * length t + 1 < n" if "read_value limit n (c # q) = Inr (x, t)" for x t
      using read_value_length [OF that] q by simp
    show ?thesis
      using Cons v [OF q] i [OF t] add_item_returns
      by (auto simp: bindE_Inl_iff intro!: bindE_cong_Inr)
  qed simp
  ultimately show ?case by blast
qed

lemma value_fuel_enough:
  "2 * length s < n \<Longrightarrow> read_value limit n s \<noteq> Inl Diverges"
  "2 * length s < n \<Longrightarrow> read_value limit (n + k) s = read_value limit n s"
  using fuel_enough [of n k] by blast+

lemma parse_edn_with_fuel:
  assumes "\<And>n. read_value limit (N + n) s = Inr (v, r)"
  shows "parse_edn limit s = Inr v"
proof -
  have "read_value limit (edn_fuel s) s = read_value limit (edn_fuel s + N) s"
    by (simp only: edn_fuel_def value_fuel_enough(2) less_add_one)
  with assms [of "edn_fuel s"] show ?thesis by (simp add: parse_edn_def add.commute)
qed

text \<open>
  C38: the reader returns on every text: it yields a value or raises, the fuel it is given never runs
  out, and no larger amount of fuel changes the result.
\<close>

theorem edn_reader_terminates:
  "read_value limit (edn_fuel s) s \<noteq> Inl Diverges \<and> read_value limit (edn_fuel s + k) s = read_value limit (edn_fuel s) s
   \<and> parse_edn limit s \<noteq> Inl Diverges"
  using value_fuel_enough [of s "edn_fuel s" limit] by (auto simp: edn_fuel_def parse_edn_def bindE_Inl_iff simp del: read_value.simps)

end
