(* ===== verification/Edn_Theorems.thy ===== *)
theory Edn_Theorems
  imports Edn_Reader
begin

text \<open>
  Printing EDN values and reading them back, and what the reader makes of texts that are not finished.
\<close>

section \<open>Numerals\<close>

lemma digit_val: "is_digit c \<Longrightarrow> hex_val c = Some (of_char c - 48)"
  by (auto simp: is_digit_def hex_val.simps Let_def)

lemma digit_no_underscore: "is_digit c \<Longrightarrow> c \<noteq> CHR ''_''"
  by (auto simp: is_digit_def)

lemma read_digits_dec:
  "list_all is_digit ds \<Longrightarrow> ds \<noteq> [] \<or> b \<Longrightarrow>
     read_digits 10 b acc ds = Some (foldl (\<lambda>acc c. acc * 10 + (of_char c - 48)) acc ds)"
proof (induction ds arbitrary: b acc)
  case (Cons c ds)
  then have c: "is_digit c" by simp
  then have "of_char c - 48 < (10 :: nat)" by (auto simp: is_digit_def)
  with Cons c show ?case by (simp add: digit_val digit_no_underscore)
qed simp

lemma read_digits_nat_str: "read_digits 10 False 0 (nat_str n) = Some n"
  using read_digits_dec [of "nat_str n" False 0] nat_str_digits [of n] dec_nat_nat_str [of n]
  by (simp add: dec_nat_def)

lemma digit_no_space: "is_digit c \<Longrightarrow> \<not> int_space c"
  by (auto simp: is_digit_def int_space_def Let_def)

lemma strip_id: "list_all (\<lambda>c. \<not> P c) s \<Longrightarrow> rev (dropWhile P (rev (dropWhile P s))) = s"
proof -
  have "dropWhile P t = t" if "list_all (\<lambda>c. \<not> P c) t" for t using that by (cases t) auto
  then show "list_all (\<lambda>c. \<not> P c) s \<Longrightarrow> ?thesis" by (simp add: list_all_rev)
qed

lemma int_str_no_space: "list_all (\<lambda>c. \<not> int_space c) (int_str i)"
proof -
  have "\<not> int_space CHR ''-''" by (simp add: int_space_def)
  then show ?thesis using int_str_chars [of i] digit_no_space by (auto simp: list_all_iff int_char_def)
qed

lemma nat_str_sign: "\<not> starts_with ''-'' (nat_str n)" "\<not> starts_with ''+'' (nat_str n)"
  using hd_nat_str [of n] by (cases "nat_str n"; auto simp: starts_with_def is_digit_def)+

lemma int_text_int_str: "int_text 10 (int_str i) = Some i"
proof -
  have "int_text 10 (int_str i)
    = (let t = int_str i in if starts_with ''-'' t then map_option (\<lambda>n. - int n) (read_magnitude 10 (tl t))
         else if starts_with ''+'' t then map_option int (read_magnitude 10 (tl t)) else map_option int (read_magnitude 10 t))"
    unfolding int_text_def by (simp add: strip_id [OF int_str_no_space])
  then show ?thesis
    by (cases "i < 0") (simp_all add: int_str_def starts_with_def read_magnitude_def read_digits_nat_str
        nat_str_sign [unfolded starts_with_def, simplified])
qed

section \<open>Printing\<close>

definition escaped :: "char \<Rightarrow> string" where
  "escaped c = (if c = CHR 0x22 \<or> c = CHR 0x5C then [CHR 0x5C, c] else [c])"

definition edn_quote :: "string \<Rightarrow> string" where
  "edn_quote s = CHR 0x22 # concat (map escaped s) @ [CHR 0x22]"

primrec edn_text :: "edn \<Rightarrow> string" where
  "edn_text (EInt i) = int_str i"
| "edn_text (EStr s) = edn_quote s"
| "edn_text (EVec xs) = CHR ''['' # concat (map (\<lambda>t. t @ '' '') (map edn_text xs)) @ '']''"
| "edn_text (EMap m) =
     CHR ''{'' # concat (map (\<lambda>(k, v). k @ '' '' @ v @ '' '') (map (map_prod edn_text edn_text) m)) @ ''}''"
| "edn_text (ESet xs) = CHR ''#'' # CHR ''{'' # concat (map (\<lambda>t. t @ '' '') (map edn_text xs)) @ ''}''"

text \<open>
  Values that can be read back: an integer has no more digits than \<^verbatim>\<open>int\<close> converts, the keys of a map
  and the elements of a set are hashable and distinct.
\<close>

primrec edn_wf :: "edn \<Rightarrow> bool" where
  "edn_wf (EInt i) \<longleftrightarrow> digits_allowed (int_str i)"
| "edn_wf (EStr s) \<longleftrightarrow> True"
| "edn_wf (EVec xs) \<longleftrightarrow> list_all id (map edn_wf xs)"
| "edn_wf (EMap m) \<longleftrightarrow> list_all (\<lambda>(p, q). p \<and> q) (map (map_prod edn_wf edn_wf) m)
     \<and> distinct (map fst m) \<and> list_all (edn_hashable \<circ> fst) m"
| "edn_wf (ESet xs) \<longleftrightarrow> list_all id (map edn_wf xs) \<and> distinct xs \<and> list_all edn_hashable xs"

text \<open>The number of nested calls of the reader that a value takes.\<close>

primrec edn_depth :: "edn \<Rightarrow> nat" where
  "edn_depth (EInt i) = 1"
| "edn_depth (EStr s) = 1"
| "edn_depth (EVec xs) = Suc (foldr max (map edn_depth xs) 0)"
| "edn_depth (EMap m) = Suc (foldr (\<lambda>(p, q) d. max (max p q) d) (map (map_prod edn_depth edn_depth) m) 0)"
| "edn_depth (ESet xs) = Suc (foldr max (map edn_depth xs) 0)"

lemma depth_items: "foldr max (map f xs) 0 \<le> (n :: nat) \<longleftrightarrow> (\<forall>x \<in> set xs. f x \<le> n)"
  by (induction xs) auto

lemma depth_pairs:
  "foldr (\<lambda>(p, q) d. max (max p q) d) (map (map_prod f f) m) 0 \<le> (n :: nat) \<longleftrightarrow> (\<forall>(k, v) \<in> set m. f k \<le> n \<and> f v \<le> n)"
  by (induction m) auto

lemma depth_pos: "0 < edn_depth v"
  by (cases v) auto

definition stops :: "string \<Rightarrow> bool" where
  "stops r \<longleftrightarrow> r = [] \<or> \<not> token_char (hd r)"

lemma stops_simps [simp]: "stops []" "stops (CHR '' '' # r)"
  by (simp_all add: stops_def token_char_def str_space_def)

lemma read_quoted_escaped: "read_quoted (concat (map escaped s) @ CHR 0x22 # r) = Some (s, r)"
  by (induction s) (auto simp: escaped_def)

text \<open>The first character of a printed value starts neither a comment nor the end of a collection.\<close>

definition opens :: "string \<Rightarrow> bool" where
  "opens s \<longleftrightarrow> s \<noteq> [] \<and> \<not> str_space (hd s) \<and> hd s \<noteq> comment_mark \<and> hd s \<noteq> CHR '']'' \<and> hd s \<noteq> CHR ''}''"

lemma int_char_token: "int_char c \<Longrightarrow> token_char c \<and> c \<noteq> comment_mark \<and> c \<noteq> CHR '':''"
  by (auto simp: int_char_def is_digit_def token_char_def str_space_def Let_def comment_mark_def)

lemma token_no_delimiter: "token_char c \<Longrightarrow> \<not> str_space c \<and> c \<notin> {CHR ''['', CHR '']'', CHR ''{'', CHR ''}'', CHR ''#'', CHR 0x22}"
  by (auto simp: token_char_def)

lemma opens_edn_text: "opens (edn_text v @ r)"
proof (cases v)
  case (EInt i)
  have "int_char (hd (int_str i))" using int_str_lead .
  then show ?thesis using int_char_token [of "hd (int_str i)"] token_no_delimiter [of "hd (int_str i)"]
    by (simp add: EInt opens_def)
qed (simp_all add: opens_def edn_quote_def str_space_def comment_mark_def)

lemma skip_blank_opens: "opens s \<Longrightarrow> skip_blank s = s"
  by (cases s) (auto simp: opens_def)

lemma skip_blank_space [simp]: "skip_blank (CHR '' '' # s) = skip_blank s"
  by (simp add: str_space_def)

lemma read_space [simp]:
  "read_value limit n (CHR '' '' # s) = read_value limit n s"
  "read_pairs limit n m (CHR '' '' # s) = read_pairs limit n m s"
  "read_items limit n b xs (CHR '' '' # s) = read_items limit n b xs s"
  by (cases n; simp only: read_value.simps read_pairs.simps read_items.simps skip_blank_space)+

section \<open>Reading back\<close>

lemma read_int: "stops r \<Longrightarrow> digits_allowed (int_str i) \<Longrightarrow> 0 < limit \<Longrightarrow> read_value limit (Suc n) (int_str i @ r) = Inr (EInt i, r)"
proof -
  assume r: "stops r" and digits: "digits_allowed (int_str i)" and pos: "0 < limit"
  obtain c cs where cs: "int_str i = c # cs" by (cases "int_str i") auto
  have chars: "list_all token_char (int_str i)"
    using int_str_chars [of i] int_char_token by (auto simp: list_all_iff)
  have c: "int_char c" using int_str_lead [of i] by (simp add: cs)
  have tw: "takeWhile token_char (int_str i @ r) = int_str i" "dropWhile token_char (int_str i @ r) = r"
    using chars r by (auto simp: stops_def list_all_iff takeWhile_append dropWhile_append intro: takeWhile_eq_Nil_iff [THEN iffD2] dropWhile_eq_self_iff [THEN iffD2])
  have "skip_blank (int_str i @ r) = int_str i @ r" using opens_edn_text [of "EInt i" r] by (simp add: skip_blank_opens)
  then have "read_value limit (Suc n) (int_str i @ r) = read_token (int_str i @ r)"
    using pos int_char_token [OF c] token_no_delimiter [of c] by (simp add: cs)
  then show ?thesis by (simp add: read_token_def tw digits int_text_int_str Let_def)
qed

definition reads :: "edn \<Rightarrow> bool" where
  "reads v \<longleftrightarrow> (\<forall>limit r. edn_depth v \<le> limit \<longrightarrow> stops r \<longrightarrow> (\<exists>N. \<forall>n. read_value limit (N + n) (edn_text v @ r) = Inr (v, r)))"

lemma read_items_step:
  assumes "opens s" and "read_value limit n s = Inr (x, t)" and "add_item b x acc = Inr acc'"
  shows "read_items limit (Suc n) b acc s = read_items limit n b acc' t"
proof -
  obtain c q where "s = c # q" "c \<noteq> CHR '']''" "c \<noteq> CHR ''}''" using assms(1) by (cases s) (auto simp: opens_def)
  with skip_blank_opens [OF assms(1)] assms(2,3) show ?thesis by (simp del: skip_blank.simps)
qed

lemma read_pairs_step:
  assumes "opens s" and "read_value limit n s = Inr (k, t)" and "read_value limit n t = Inr (v, u)" and "edn_hashable k"
  shows "read_pairs limit (Suc n) acc s = read_pairs limit n (dset k v acc) u"
proof -
  obtain c q where "s = c # q" "c \<noteq> CHR ''}''" using assms(1) by (cases s) (auto simp: opens_def)
  with skip_blank_opens [OF assms(1)] assms(2-4) show ?thesis by (simp del: skip_blank.simps)
qed

lemma read_items_text:
  assumes "\<forall>x \<in> set xs. reads x \<and> edn_depth x \<le> limit" and "b \<longrightarrow> distinct (acc @ xs) \<and> list_all edn_hashable xs"
    and ending: "ending = (if b then CHR ''}'' else CHR '']'') # r \<or> ending = [] \<and> r = []"
  shows "\<exists>N. \<forall>n. read_items limit (N + n) b acc (concat (map (\<lambda>t. t @ '' '') (map edn_text xs)) @ ending) = Inr (acc @ xs, r)"
  using assms(1,2)
proof (induction xs arbitrary: acc)
  case Nil
  show ?case using ending by (intro exI [of _ 1] allI) (auto simp: str_space_def comment_mark_def)
next
  case (Cons x xs)
  let ?rest = "concat (map (\<lambda>t. t @ '' '') (map edn_text xs)) @ ending"
  from Cons.prems(1) have "reads x" "edn_depth x \<le> limit" by simp_all
  then obtain N1 where N1: "\<And>n. read_value limit (N1 + n) (edn_text x @ CHR '' '' # ?rest) = Inr (x, CHR '' '' # ?rest)"
    unfolding reads_def using stops_simps(2) by blast
  have add: "add_item b x acc = Inr (acc @ [x])" using Cons.prems(2) by (auto simp: add_item_def)
  have "\<exists>N. \<forall>n. read_items limit (N + n) b (acc @ [x]) ?rest = Inr ((acc @ [x]) @ xs, r)"
    using Cons.prems by (intro Cons.IH) auto
  then obtain N2 where N2: "\<And>n. read_items limit (N2 + n) b (acc @ [x]) ?rest = Inr (acc @ x # xs, r)" by auto
  have "read_items limit (Suc (N1 + N2) + n) b acc (edn_text x @ CHR '' '' # ?rest) = Inr (acc @ x # xs, r)" for n
    using read_items_step [OF opens_edn_text N1 [of "N2 + n"] add] N2 [of "N1 + n"] by (simp add: ac_simps)
  then show ?case by (intro exI [of _ "Suc (N1 + N2)"] allI) simp
qed

lemma read_pairs_text:
  assumes "\<forall>(k, v) \<in> set m. reads k \<and> reads v \<and> edn_depth k \<le> limit \<and> edn_depth v \<le> limit"
    and "distinct (map fst (acc @ m))" and "list_all (edn_hashable \<circ> fst) m"
  shows "\<exists>N. \<forall>n. read_pairs limit (N + n) acc
    (concat (map (\<lambda>(k, v). k @ '' '' @ v @ '' '') (map (map_prod edn_text edn_text) m)) @ CHR ''}'' # r) = Inr (acc @ m, r)"
  using assms
proof (induction m arbitrary: acc)
  case Nil
  show ?case by (intro exI [of _ 1] allI) (simp add: str_space_def comment_mark_def)
next
  case (Cons kv m)
  obtain k v where kv: "kv = (k, v)" by (cases kv)
  let ?rest = "concat (map (\<lambda>(k, v). k @ '' '' @ v @ '' '') (map (map_prod edn_text edn_text) m)) @ CHR ''}'' # r"
  let ?vtext = "edn_text v @ CHR '' '' # ?rest"
  from Cons.prems(1) have kr: "reads k" "edn_depth k \<le> limit" and vr: "reads v" "edn_depth v \<le> limit" by (auto simp: kv)
  from kr obtain N1 where N1: "\<And>n. read_value limit (N1 + n) (edn_text k @ CHR '' '' # ?vtext) = Inr (k, CHR '' '' # ?vtext)"
    unfolding reads_def using stops_simps(2) by blast
  from vr obtain N2 where N2: "\<And>n. read_value limit (N2 + n) ?vtext = Inr (v, CHR '' '' # ?rest)"
    unfolding reads_def using stops_simps(2) by blast
  have fresh: "dset k v acc = acc @ [(k, v)]" using Cons.prems(2) by (intro dset_fresh) (auto simp: kv)
  have "\<exists>N. \<forall>n. read_pairs limit (N + n) (acc @ [(k, v)]) ?rest = Inr ((acc @ [(k, v)]) @ m, r)"
    using Cons.prems by (intro Cons.IH) (auto simp: kv)
  then obtain N3 where N3: "\<And>n. read_pairs limit (N3 + n) (acc @ [(k, v)]) ?rest = Inr (acc @ (k, v) # m, r)" by auto
  have hash: "edn_hashable k" using Cons.prems(3) by (simp add: kv)
  have "read_pairs limit (Suc (N1 + N2 + N3) + n) acc (edn_text k @ CHR '' '' # ?vtext) = Inr (acc @ (k, v) # m, r)" for n
  proof -
    have k: "read_value limit (N1 + N2 + N3 + n) (edn_text k @ CHR '' '' # ?vtext) = Inr (k, CHR '' '' # ?vtext)"
      using N1 [of "N2 + N3 + n"] by (simp add: ac_simps)
    have v: "read_value limit (N1 + N2 + N3 + n) (CHR '' '' # ?vtext) = Inr (v, CHR '' '' # ?rest)"
      using N2 [of "N1 + N3 + n"] by (simp add: ac_simps)
    show ?thesis using read_pairs_step [OF opens_edn_text k v hash, of acc] N3 [of "N1 + N2 + n"]
      by (simp add: fresh ac_simps)
  qed
  then show ?case by (intro exI [of _ "Suc (N1 + N2 + N3)"] allI) (simp add: kv)
qed

lemma reads_collection:
  assumes "\<And>limit r. edn_depth v \<le> Suc limit \<Longrightarrow> \<exists>N. \<forall>n. read_value (Suc limit) (Suc (N + n)) (edn_text v @ r) = Inr (v, r)"
  shows "reads v"
  unfolding reads_def
proof (intro allI impI)
  fix limit r
  assume d: "edn_depth v \<le> limit"
  then obtain l where l: "limit = Suc l" using depth_pos [of v] by (cases limit) auto
  from assms [of l r] d obtain N where "\<forall>n. read_value limit (Suc (N + n)) (edn_text v @ r) = Inr (v, r)"
    unfolding l by blast
  then show "\<exists>N. \<forall>n. read_value limit (N + n) (edn_text v @ r) = Inr (v, r)" by (intro exI [of _ "Suc N"]) simp
qed

lemma reads_wf: "edn_wf v \<Longrightarrow> reads v"
proof (induction v)
  case (EInt i)
  then show ?case unfolding reads_def using read_int by (intro allI impI exI [of _ 1]) simp
next
  case (EStr s)
  show ?case
    by (rule reads_collection, intro exI [of _ 0])
      (simp add: edn_quote_def read_quoted_escaped str_space_def comment_mark_def)
next
  case (EVec xs)
  show ?case
  proof (rule reads_collection)
    fix limit r
    assume "edn_depth (EVec xs) \<le> Suc limit"
    with read_items_text [of xs limit False "[]" "'']'' @ r" r] EVec obtain N where
      "\<forall>n. read_items limit (N + n) False [] (concat (map (\<lambda>t. t @ '' '') (map edn_text xs)) @ CHR '']'' # r) = Inr (xs, r)"
      by (auto simp: list_all_iff depth_items)
    then show "\<exists>N. \<forall>n. read_value (Suc limit) (Suc (N + n)) (edn_text (EVec xs) @ r) = Inr (EVec xs, r)"
      by (intro exI [of _ N]) (simp add: str_space_def comment_mark_def)
  qed
next
  case (EMap m)
  show ?case
  proof (rule reads_collection)
    fix limit r
    assume d: "edn_depth (EMap m) \<le> Suc limit"
    have "\<forall>(k, v) \<in> set m. reads k \<and> reads v \<and> edn_depth k \<le> limit \<and> edn_depth v \<le> limit"
    proof clarify
      fix k v assume kv: "(k, v) \<in> set m"
      with EMap.prems have "edn_wf k \<and> edn_wf v" by (auto simp: list_all_iff)
      with EMap.IH [OF kv] have "reads k \<and> reads v" by auto
      moreover have "edn_depth k \<le> limit \<and> edn_depth v \<le> limit" using d kv by (auto simp: depth_pairs)
      ultimately show "reads k \<and> reads v \<and> edn_depth k \<le> limit \<and> edn_depth v \<le> limit" by blast
    qed
    from read_pairs_text [OF this, of "[]" r] EMap.prems obtain N where
      "\<forall>n. read_pairs limit (N + n) [] (concat (map (\<lambda>(k, v). k @ '' '' @ v @ '' '') (map (map_prod edn_text edn_text) m))
        @ CHR ''}'' # r) = Inr (m, r)" by auto
    then show "\<exists>N. \<forall>n. read_value (Suc limit) (Suc (N + n)) (edn_text (EMap m) @ r) = Inr (EMap m, r)"
      by (intro exI [of _ N]) (simp add: str_space_def comment_mark_def del: map_map)
  qed
next
  case (ESet xs)
  show ?case
  proof (rule reads_collection)
    fix limit r
    assume "edn_depth (ESet xs) \<le> Suc limit"
    with read_items_text [of xs limit True "[]" "''}'' @ r" r] ESet obtain N where
      "\<forall>n. read_items limit (N + n) True [] (concat (map (\<lambda>t. t @ '' '') (map edn_text xs)) @ CHR ''}'' # r) = Inr (xs, r)"
      by (auto simp: list_all_iff depth_items)
    then show "\<exists>N. \<forall>n. read_value (Suc limit) (Suc (N + n)) (edn_text (ESet xs) @ r) = Inr (ESet xs, r)"
      by (intro exI [of _ N]) (simp add: str_space_def comment_mark_def)
  qed
qed

section \<open>Nesting beyond the limit\<close>

text \<open>A value nested more deeply than the limit: the reader raises, on whatever path it meets the limit.\<close>

abbreviation too_deep :: "edn_error + 'a" where
  "too_deep \<equiv> Inl (EdnRaise RecursionError)"

definition overflows :: "edn \<Rightarrow> bool" where
  "overflows v \<longleftrightarrow> (\<forall>limit r. limit < edn_depth v \<longrightarrow> stops r \<longrightarrow> (\<exists>N. \<forall>n. read_value limit (N + n) (edn_text v @ r) = too_deep))"

lemma read_items_fails:
  assumes "opens s" and "read_value limit n s = too_deep"
  shows "read_items limit (Suc n) b acc s = too_deep"
proof -
  obtain c q where "s = c # q" "c \<noteq> CHR '']''" "c \<noteq> CHR ''}''" using assms(1) by (cases s) (auto simp: opens_def)
  with skip_blank_opens [OF assms(1)] assms(2) show ?thesis by (simp del: skip_blank.simps)
qed

lemma read_pairs_fails:
  assumes "opens s" and "read_value limit n s = too_deep \<or> read_value limit n s = Inr (k, t) \<and> read_value limit n t = too_deep"
  shows "read_pairs limit (Suc n) acc s = too_deep"
proof -
  obtain c q where "s = c # q" "c \<noteq> CHR ''}''" using assms(1) by (cases s) (auto simp: opens_def)
  with skip_blank_opens [OF assms(1)] assms(2) show ?thesis by (auto simp del: skip_blank.simps)
qed

lemma read_items_deep:
  assumes "\<forall>x \<in> set xs. reads x \<and> overflows x" and "b \<longrightarrow> distinct (acc @ xs) \<and> list_all edn_hashable xs"
    and "\<exists>x \<in> set xs. limit < edn_depth x"
  shows "\<exists>N. \<forall>n. read_items limit (N + n) b acc (concat (map (\<lambda>t. t @ '' '') (map edn_text xs)) @ ending) = too_deep"
  using assms
proof (induction xs arbitrary: acc)
  case (Cons x xs)
  let ?rest = "concat (map (\<lambda>t. t @ '' '') (map edn_text xs)) @ ending"
  show ?case
  proof (cases "limit < edn_depth x")
    case True
    with Cons.prems(1) obtain N where N: "\<And>n. read_value limit (N + n) (edn_text x @ CHR '' '' # ?rest) = too_deep"
      unfolding overflows_def using stops_simps(2) by (meson list.set_intros(1))
    show ?thesis using read_items_fails [OF opens_edn_text N] by (intro exI [of _ "Suc N"] allI) simp
  next
    case False
    with Cons.prems(1) obtain N1 where N1: "\<And>n. read_value limit (N1 + n) (edn_text x @ CHR '' '' # ?rest) = Inr (x, CHR '' '' # ?rest)"
      unfolding reads_def using stops_simps(2) by (meson list.set_intros(1) not_less)
    have add: "add_item b x acc = Inr (acc @ [x])" using Cons.prems(2) by (auto simp: add_item_def)
    have "\<exists>N. \<forall>n. read_items limit (N + n) b (acc @ [x]) ?rest = too_deep"
      using Cons.prems False by (intro Cons.IH) auto
    then obtain N2 where N2: "\<And>n. read_items limit (N2 + n) b (acc @ [x]) ?rest = too_deep" by auto
    have "read_items limit (Suc (N1 + N2) + n) b acc (edn_text x @ CHR '' '' # ?rest) = too_deep" for n
      using read_items_step [OF opens_edn_text N1 [of "N2 + n"] add] N2 [of "N1 + n"] by (simp add: ac_simps)
    then show ?thesis by (intro exI [of _ "Suc (N1 + N2)"] allI) simp
  qed
qed simp

lemma read_pairs_deep:
  assumes "\<forall>(k, v) \<in> set m. reads k \<and> reads v \<and> overflows k \<and> overflows v"
    and "distinct (map fst (acc @ m))" and "list_all (edn_hashable \<circ> fst) m"
    and "\<exists>(k, v) \<in> set m. limit < edn_depth k \<or> limit < edn_depth v"
  shows "\<exists>N. \<forall>n. read_pairs limit (N + n) acc
    (concat (map (\<lambda>(k, v). k @ '' '' @ v @ '' '') (map (map_prod edn_text edn_text) m)) @ ending) = too_deep"
  using assms
proof (induction m arbitrary: acc)
  case (Cons kv m)
  obtain k v where kv: "kv = (k, v)" by (cases kv)
  let ?rest = "concat (map (\<lambda>(k, v). k @ '' '' @ v @ '' '') (map (map_prod edn_text edn_text) m)) @ ending"
  let ?vtext = "edn_text v @ CHR '' '' # ?rest"
  from Cons.prems(1) have kr: "reads k" "overflows k" and vr: "reads v" "overflows v" by (auto simp: kv)
  have print: "concat (map (\<lambda>(k, v). k @ '' '' @ v @ '' '') (map (map_prod edn_text edn_text) (kv # m))) @ ending
      = edn_text k @ CHR '' '' # ?vtext" by (simp add: kv)
  consider "limit < edn_depth k" | "edn_depth k \<le> limit" "limit < edn_depth v" | "edn_depth k \<le> limit" "edn_depth v \<le> limit"
    by linarith
  then show ?case unfolding print
  proof cases
    case 1
    then obtain N where "\<And>n. read_value limit (N + n) (edn_text k @ CHR '' '' # ?vtext) = too_deep"
      using kr(2) stops_simps(2) unfolding overflows_def by meson
    then show "\<exists>N. \<forall>n. read_pairs limit (N + n) acc (edn_text k @ CHR '' '' # ?vtext) = too_deep"
      using read_pairs_fails [OF opens_edn_text] by (intro exI [of _ "Suc N"] allI) simp
  next
    case 2
    from 2(1) obtain N1 where N1: "\<And>n. read_value limit (N1 + n) (edn_text k @ CHR '' '' # ?vtext) = Inr (k, CHR '' '' # ?vtext)"
      using kr(1) stops_simps(2) unfolding reads_def by meson
    from 2(2) obtain N2 where N2: "\<And>n. read_value limit (N2 + n) ?vtext = too_deep"
      using vr(2) stops_simps(2) unfolding overflows_def by meson
    have "read_pairs limit (Suc (N1 + N2 + n)) acc (edn_text k @ CHR '' '' # ?vtext) = too_deep" for n
    proof -
      have k: "read_value limit (N1 + N2 + n) (edn_text k @ CHR '' '' # ?vtext) = Inr (k, CHR '' '' # ?vtext)"
        using N1 [of "N2 + n"] by (simp add: ac_simps)
      have v: "read_value limit (N1 + N2 + n) (CHR '' '' # ?vtext) = too_deep" using N2 [of "N1 + n"] by (simp add: ac_simps)
      show ?thesis by (rule read_pairs_fails [OF opens_edn_text disjI2 [OF conjI [OF k v]]])
    qed
    then show "\<exists>N. \<forall>n. read_pairs limit (N + n) acc (edn_text k @ CHR '' '' # ?vtext) = too_deep"
      by (intro exI [of _ "Suc (N1 + N2)"] allI) simp
  next
    case 3
    from 3(1) obtain N1 where N1: "\<And>n. read_value limit (N1 + n) (edn_text k @ CHR '' '' # ?vtext) = Inr (k, CHR '' '' # ?vtext)"
      using kr(1) stops_simps(2) unfolding reads_def by meson
    from 3(2) obtain N2 where N2: "\<And>n. read_value limit (N2 + n) ?vtext = Inr (v, CHR '' '' # ?rest)"
      using vr(1) stops_simps(2) unfolding reads_def by meson
    have fresh: "dset k v acc = acc @ [(k, v)]" using Cons.prems(2) by (intro dset_fresh) (auto simp: kv)
    have "\<exists>N. \<forall>n. read_pairs limit (N + n) (acc @ [(k, v)]) ?rest = too_deep"
      using Cons.prems 3 by (intro Cons.IH) (auto simp: kv)
    then obtain N3 where N3: "\<And>n. read_pairs limit (N3 + n) (acc @ [(k, v)]) ?rest = too_deep" by auto
    have hash: "edn_hashable k" using Cons.prems(3) by (simp add: kv)
    have "read_pairs limit (Suc (N1 + N2 + N3) + n) acc (edn_text k @ CHR '' '' # ?vtext) = too_deep" for n
    proof -
      have k: "read_value limit (N1 + N2 + N3 + n) (edn_text k @ CHR '' '' # ?vtext) = Inr (k, CHR '' '' # ?vtext)"
        using N1 [of "N2 + N3 + n"] by (simp add: ac_simps)
      have v: "read_value limit (N1 + N2 + N3 + n) (CHR '' '' # ?vtext) = Inr (v, CHR '' '' # ?rest)"
        using N2 [of "N1 + N3 + n"] by (simp add: ac_simps)
      show ?thesis using read_pairs_step [OF opens_edn_text k v hash, of acc] N3 [of "N1 + N2 + n"]
        by (simp add: fresh ac_simps)
    qed
    then show "\<exists>N. \<forall>n. read_pairs limit (N + n) acc (edn_text k @ CHR '' '' # ?vtext) = too_deep"
      by (intro exI [of _ "Suc (N1 + N2 + N3)"] allI) simp
  qed
qed simp

lemma overflows_collection:
  assumes "\<And>limit r. Suc limit < edn_depth v \<Longrightarrow> \<exists>N. \<forall>n. read_value (Suc limit) (Suc (N + n)) (edn_text v @ r) = too_deep"
  shows "overflows v"
  unfolding overflows_def
proof (intro allI impI)
  fix limit r
  assume d: "limit < edn_depth v"
  show "\<exists>N. \<forall>n. read_value limit (N + n) (edn_text v @ r) = too_deep"
  proof (cases limit)
    case 0
    then show ?thesis by (intro exI [of _ 1]) simp
  next
    case (Suc l)
    with assms [of l r] d obtain N where "\<forall>n. read_value limit (Suc (N + n)) (edn_text v @ r) = too_deep" by blast
    then show ?thesis by (intro exI [of _ "Suc N"]) simp
  qed
qed

lemma overflows_wf: "edn_wf v \<Longrightarrow> overflows v"
proof (induction v)
  case (EInt i)
  show ?case by (rule overflows_collection) simp
next
  case (EStr s)
  show ?case by (rule overflows_collection) simp
next
  case (EVec xs)
  show ?case
  proof (rule overflows_collection)
    fix limit r
    assume "Suc limit < edn_depth (EVec xs)"
    then have "\<exists>x \<in> set xs. limit < edn_depth x" using depth_items [of edn_depth xs limit] by (auto simp: not_le [symmetric])
    with read_items_deep [of xs False "[]" limit "'']'' @ r"] EVec reads_wf obtain N where
      "\<forall>n. read_items limit (N + n) False [] (concat (map (\<lambda>t. t @ '' '') (map edn_text xs)) @ CHR '']'' # r) = too_deep"
      by (auto simp: list_all_iff)
    then show "\<exists>N. \<forall>n. read_value (Suc limit) (Suc (N + n)) (edn_text (EVec xs) @ r) = too_deep"
      by (intro exI [of _ N]) (simp add: str_space_def comment_mark_def)
  qed
next
  case (EMap m)
  show ?case
  proof (rule overflows_collection)
    fix limit r
    assume "Suc limit < edn_depth (EMap m)"
    then have deep: "\<exists>(k, v) \<in> set m. limit < edn_depth k \<or> limit < edn_depth v"
      using depth_pairs [of edn_depth m limit] by (auto simp: not_le [symmetric])
    have "\<forall>(k, v) \<in> set m. reads k \<and> reads v \<and> overflows k \<and> overflows v"
    proof clarify
      fix k v assume kv: "(k, v) \<in> set m"
      with EMap.prems have "edn_wf k \<and> edn_wf v" by (auto simp: list_all_iff)
      with EMap.IH [OF kv] reads_wf show "reads k \<and> reads v \<and> overflows k \<and> overflows v" by auto
    qed
    from read_pairs_deep [OF this _ _ deep, of "[]" "''}'' @ r"] EMap.prems obtain N where
      "\<forall>n. read_pairs limit (N + n) [] (concat (map (\<lambda>(k, v). k @ '' '' @ v @ '' '') (map (map_prod edn_text edn_text) m))
        @ CHR ''}'' # r) = too_deep" by auto
    then show "\<exists>N. \<forall>n. read_value (Suc limit) (Suc (N + n)) (edn_text (EMap m) @ r) = too_deep"
      by (intro exI [of _ N]) (simp add: str_space_def comment_mark_def del: map_map)
  qed
next
  case (ESet xs)
  show ?case
  proof (rule overflows_collection)
    fix limit r
    assume "Suc limit < edn_depth (ESet xs)"
    then have "\<exists>x \<in> set xs. limit < edn_depth x" using depth_items [of edn_depth xs limit] by (auto simp: not_le [symmetric])
    with read_items_deep [of xs True "[]" limit "''}'' @ r"] ESet reads_wf obtain N where
      "\<forall>n. read_items limit (N + n) True [] (concat (map (\<lambda>t. t @ '' '') (map edn_text xs)) @ CHR ''}'' # r) = too_deep"
      by (auto simp: list_all_iff)
    then show "\<exists>N. \<forall>n. read_value (Suc limit) (Suc (N + n)) (edn_text (ESet xs) @ r) = too_deep"
      by (intro exI [of _ N]) (simp add: str_space_def comment_mark_def)
  qed
qed

lemma parse_edn_fails_with_fuel:
  assumes "\<And>n. read_value limit (N + n) s = Inl e"
  shows "parse_edn limit s = Inl e"
proof -
  have "read_value limit (edn_fuel s) s = read_value limit (edn_fuel s + N) s"
    by (simp only: edn_fuel_def value_fuel_enough(2) less_add_one)
  with assms [of "edn_fuel s"] show ?thesis by (simp add: parse_edn_def add.commute)
qed

lemma parse_edn_text:
  assumes "edn_wf v" and "edn_depth v \<le> limit"
  shows "parse_edn limit (edn_text v) = Inr v"
proof -
  from reads_wf [OF assms(1)] assms(2) obtain N where N: "\<And>n. read_value limit (N + n) (edn_text v @ []) = Inr (v, [])"
    unfolding reads_def using stops_simps(1) by blast
  then show ?thesis by (intro parse_edn_with_fuel [of limit N _ v "[]"]) simp
qed

lemma parse_edn_deep:
  assumes "edn_wf v" and "limit < edn_depth v"
  shows "parse_edn limit (edn_text v) = too_deep"
proof -
  from overflows_wf [OF assms(1)] assms(2) obtain N where N: "\<And>n. read_value limit (N + n) (edn_text v @ []) = too_deep"
    unfolding overflows_def using stops_simps(1) by blast
  then show ?thesis by (intro parse_edn_fails_with_fuel [of limit N]) simp
qed

text \<open>
  C39: an EDN value printed with every string quoted is read back unchanged when its nesting is within the
  recursion limit -- integers keep their sign, strings their quotes and backslashes, maps and sets their
  items -- and raises \<^verbatim>\<open>RecursionError\<close> when it is not.  The value is one that can be read back: its integers
  have at most the 4300 digits that \<^verbatim>\<open>int\<close> converts, map keys and set elements are hashable and distinct.
\<close>

theorem edn_roundtrip:
  assumes "edn_wf v"
  shows "parse_edn limit (edn_text v) = (if edn_depth v \<le> limit then Inr v else Inl (EdnRaise RecursionError))"
  using parse_edn_text [OF assms] parse_edn_deep [OF assms] by simp

definition sample_edn :: edn where
  "sample_edn = EMap
    [(EStr '':id'', EStr ''a(1)''), (EInt (- 7), EVec [EInt 12, ESet [EStr [CHR 0x22], EInt 0], EMap []])]"

lemma edn_roundtrip_witness:
  "edn_wf sample_edn \<and> parse_edn 4 (edn_text sample_edn) = Inr sample_edn
   \<and> parse_edn 2 (edn_text sample_edn) = Inl (EdnRaise RecursionError)"
proof -
  have wf: "edn_wf sample_edn" by code_simp
  have "edn_depth sample_edn = 4" by code_simp
  with wf edn_roundtrip [OF wf, of 4] edn_roundtrip [OF wf, of 2] show ?thesis by simp
qed

text \<open>
  A vector whose closing bracket is missing is accepted: the text cut off after the last item reads
  as the same vector as the complete text.
\<close>

theorem edn_unterminated_vector_accepted:
  assumes "edn_wf (EVec xs)" and "edn_depth (EVec xs) \<le> limit"
  shows "parse_edn limit (butlast (edn_text (EVec xs))) = parse_edn limit (edn_text (EVec xs))"
proof -
  let ?s = "concat (map (\<lambda>t. t @ '' '') (map edn_text xs))"
  obtain l where l: "limit = Suc l" using assms(2) by (cases limit) auto
  have "\<forall>x \<in> set xs. reads x \<and> edn_depth x \<le> l" using assms reads_wf by (auto simp: list_all_iff depth_items l)
  from read_items_text [OF this, of False "[]" "[]" "[]"] obtain N where
    N: "\<And>n. read_items l (N + n) False [] ?s = Inr (xs, [])" by auto
  have "read_value limit (Suc N + n) (CHR ''['' # ?s) = Inr (EVec xs, [])" for n
    using N by (simp add: l str_space_def comment_mark_def)
  then have "parse_edn limit (CHR ''['' # ?s) = Inr (EVec xs)" by (rule parse_edn_with_fuel)
  moreover have "butlast (edn_text (EVec xs)) = CHR ''['' # ?s" by (simp add: butlast_append)
  ultimately show ?thesis using parse_edn_text [OF assms] by simp
qed

lemma edn_unterminated_vector_accepted_witness:
  "parse_edn 2 ''[1 '' = parse_edn 2 ''[1 ]''"
proof -
  have t: "edn_text (EVec [EInt 1]) = ''[1 ]''" by code_simp
  have b: "butlast ''[1 ]'' = ''[1 ''" by simp
  have w: "edn_wf (EVec [EInt 1])" by code_simp
  have d: "edn_depth (EVec [EInt 1]) \<le> 2" by simp
  from edn_unterminated_vector_accepted [OF w d] show ?thesis unfolding t b .
qed

end
