(* ===== verification/Json_Compare.thy ===== *)
theory Json_Compare
  imports Py_Read
begin

text \<open>
  Two comparisons of JSON values: the leaf differences of \<^verbatim>\<open>scripts/json_diff_report.py\<close>
  (\<^verbatim>\<open>collect_diffs\<close>) and the partial difference of \<^verbatim>\<open>scripts/trace_compare.py\<close>
  (\<^verbatim>\<open>structural_diff\<close>); each is empty exactly on equal values.
\<close>

section \<open>Values Python can hold\<close>

primrec json_wf :: "pv \<Rightarrow> bool" where
  "json_wf PNone \<longleftrightarrow> True"
| "json_wf (PBool b) \<longleftrightarrow> True"
| "json_wf (PInt i) \<longleftrightarrow> True"
| "json_wf (PStr s) \<longleftrightarrow> True"
| "json_wf (PList xs) \<longleftrightarrow> list_all id (map json_wf xs)"
| "json_wf (PDict d) \<longleftrightarrow> dict_wf d \<and> list_all snd (map (map_prod id json_wf) d)"

lemma json_wf_nth: "json_wf (PList xs) \<Longrightarrow> i < length xs \<Longrightarrow> json_wf (xs ! i)"
  by (simp add: list_all_length)

lemma json_wf_map_of: "json_wf (PDict d) \<Longrightarrow> map_of d k = Some v \<Longrightarrow> json_wf v"
  by (auto simp: list_all_iff dest!: map_of_SomeD)

lemma json_wf_dict: "json_wf (PDict d) \<Longrightarrow> dict_wf d"
  by simp

section \<open>Equality of collections\<close>

lemma py_eq_list_iff: "py_eq (PList xs) (PList ys) \<longleftrightarrow> list_all2 py_eq xs ys"
  by (auto simp: py_eq_def list_all2_conv_all_nth list_eq_iff_nth_eq)

lemma map_of_plain: "map_of (map (map_prod id plain) d) k = map_option plain (map_of d k)"
  by (induction d) auto

lemma py_eq_dict_iff:
  assumes "dict_wf d" and "dict_wf e"
  shows "py_eq (PDict d) (PDict e) \<longleftrightarrow> (\<forall>k. rel_option py_eq (map_of d k) (map_of e k))"
proof -
  have wf: "dict_wf (map (map_prod id plain) x)" if "dict_wf x" for x :: obj
    using that by (simp add: dict_wf_def)
  have "rel_option py_eq x y \<longleftrightarrow> map_option canon (map_option plain x) = map_option canon (map_option plain y)" for x y
    by (cases x; cases y) (auto simp: py_eq_def)
  then show ?thesis
    unfolding py_eq_def plain.simps canon_dict_eq_iff [OF wf [OF assms(1)] wf [OF assms(2)]] map_of_plain by simp
qed

lemma py_eq_kinds:
  "\<not> py_eq (PList xs) (PDict d)" "\<not> py_eq (PDict d) (PList xs)"
  by (simp_all add: py_eq_def)

text \<open>The keys of two dictionaries, in the order of \<^verbatim>\<open>sorted(set(left) | set(right))\<close>.\<close>

definition joint_keys :: "obj \<Rightarrow> obj \<Rightarrow> string list" where
  "joint_keys d e = sort (remdups (map fst d @ map fst e))"

lemma set_joint_keys: "set (joint_keys d e) = fst ` set d \<union> fst ` set e"
  by (simp add: joint_keys_def)

lemma not_joint_key: "k \<notin> set (joint_keys d e) \<Longrightarrow> map_of d k = None \<and> map_of e k = None"
  by (simp add: set_joint_keys map_of_eq_None_iff)

lemma map_of_size: "Some v = map_of d k \<Longrightarrow> size v < Suc (size_list (size_prod (\<lambda>_. 0) size) d)"
  by (induction d) (auto split: if_splits)

lemma nth_size: "i < length xs \<Longrightarrow> size (xs ! i) < Suc (size_list size xs)"
  using size_list_estimation' [of "xs ! i" xs "size (xs ! i)" size] by (simp add: le_imp_less_Suc)

section \<open>Leaf differences\<close>

record leaf_diff =
  ld_path :: string
  ld_expected :: pv
  ld_actual :: pv

definition key_path :: "string \<Rightarrow> string \<Rightarrow> string" where
  "key_path p k = (if p \<noteq> [] then p @ ''.'' @ k else k)"

definition index_path :: "string \<Rightarrow> nat \<Rightarrow> string" where
  "index_path p i = p @ ''['' @ nat_str i @ '']''"

definition leaf_at :: "string \<Rightarrow> pv \<Rightarrow> pv \<Rightarrow> leaf_diff" where
  "leaf_at p e a = \<lparr>ld_path = p, ld_expected = e, ld_actual = a\<rparr>"

function collect_diffs :: "pv \<Rightarrow> pv \<Rightarrow> string \<Rightarrow> leaf_diff list" where
  "collect_diffs e a path =
     (if py_eq e a then []
      else case (e, a) of
        (PDict de, PDict da) \<Rightarrow> concat (map (\<lambda>k.
           case (map_of de k, map_of da k) of
             (Some x, None) \<Rightarrow> [leaf_at (key_path path k) x PNone]
           | (None, Some y) \<Rightarrow> [leaf_at (key_path path k) PNone y]
           | (Some x, Some y) \<Rightarrow> collect_diffs x y (key_path path k)
           | (None, None) \<Rightarrow> []) (joint_keys de da))
      | (PList xs, PList ys) \<Rightarrow> concat (map (\<lambda>i.
           if length xs \<le> i then [leaf_at (index_path path i) PNone (ys ! i)]
           else if length ys \<le> i then [leaf_at (index_path path i) (xs ! i) PNone]
           else collect_diffs (xs ! i) (ys ! i) (index_path path i)) [0..<max (length xs) (length ys)])
      | _ \<Rightarrow> [leaf_at (if path = [] then ''$'' else path) e a])"
  by pat_completeness auto
termination
  by (relation "measure (\<lambda>(e, a, p). size e)") (auto simp: nth_size intro: map_of_size)

declare collect_diffs.simps [simp del]

lemma concat_nonempty: "m \<in> set ks \<Longrightarrow> f m \<noteq> [] \<Longrightarrow> concat (map f ks) \<noteq> []"
  by auto

lemma collect_diffs_nonempty:
  "json_wf e \<Longrightarrow> json_wf a \<Longrightarrow> \<not> py_eq e a \<Longrightarrow> collect_diffs e a path \<noteq> []"
proof (induction e arbitrary: a path rule: measure_induct_rule [where f = size])
  case (less e)
  show ?case
  proof (cases "\<exists>de da. e = PDict de \<and> a = PDict da")
    case True
    then obtain de da where ea: "e = PDict de" "a = PDict da" by blast
    with less.prems obtain k where k: "\<not> rel_option py_eq (map_of de k) (map_of da k)"
      by (auto simp: py_eq_dict_iff)
    then have mem: "k \<in> set (joint_keys de da)" using not_joint_key by force
    have sub: "collect_diffs x y (key_path path k) \<noteq> []" if "map_of de k = Some x" "map_of da k = Some y" for x y
    proof (rule less.IH)
      show "json_wf x" "json_wf y" using less.prems(1,2) ea that by (auto intro: json_wf_map_of)
      show "\<not> py_eq x y" using k that by simp
    qed (use map_of_size [of x de k] that ea in simp)
    let ?part = "\<lambda>k. case (map_of de k, map_of da k) of
        (Some x, None) \<Rightarrow> [leaf_at (key_path path k) x PNone]
      | (None, Some y) \<Rightarrow> [leaf_at (key_path path k) PNone y]
      | (Some x, Some y) \<Rightarrow> collect_diffs x y (key_path path k)
      | (None, None) \<Rightarrow> []"
    have part: "?part k \<noteq> []"
      using k sub by (cases "map_of de k"; cases "map_of da k") auto
    have eq: "collect_diffs e a path = concat (map ?part (joint_keys de da))"
      using less.prems(3) by (subst collect_diffs.simps) (simp add: ea)
    show ?thesis unfolding eq by (rule concat_nonempty [where f = ?part, OF mem part])
  next
    case notdict: False
    show ?thesis
    proof (cases "\<exists>xs ys. e = PList xs \<and> a = PList ys")
      case True
      then obtain xs ys where ea: "e = PList xs" "a = PList ys" by blast
      let ?part = "\<lambda>i. if length xs \<le> i then [leaf_at (index_path path i) PNone (ys ! i)]
        else if length ys \<le> i then [leaf_at (index_path path i) (xs ! i) PNone]
        else collect_diffs (xs ! i) (ys ! i) (index_path path i)"
      have eq: "collect_diffs e a path = concat (map ?part [0..<max (length xs) (length ys)])"
        using less.prems(3) by (subst collect_diffs.simps) (simp add: ea)
      show ?thesis
      proof (cases "length xs = length ys")
        case True
        with less.prems ea obtain i where i: "i < length xs" "\<not> py_eq (xs ! i) (ys ! i)"
          by (auto simp: py_eq_list_iff list_all2_conv_all_nth)
        have "collect_diffs (xs ! i) (ys ! i) (index_path path i) \<noteq> []"
        proof (rule less.IH)
          show "json_wf (xs ! i)" "json_wf (ys ! i)" using less.prems(1,2) ea i True by (auto intro: json_wf_nth simp del: json_wf.simps)
        qed (use nth_size ea i in simp_all)
        then have part: "?part i \<noteq> []" using i True by simp
        have mem: "i \<in> set [0..<max (length xs) (length ys)]" using i by simp
        show ?thesis unfolding eq by (rule concat_nonempty [where f = ?part, OF mem part])
      next
        case False
        let ?i = "min (length xs) (length ys)"
        have mem: "?i \<in> set [0..<max (length xs) (length ys)]" using False by auto
        have part: "?part ?i \<noteq> []" using False by (auto simp: min_def)
        show ?thesis unfolding eq by (rule concat_nonempty [where f = ?part, OF mem part])
      qed
    next
      case False
      then show ?thesis using notdict less.prems(3) by (subst collect_diffs.simps) (auto split: pv.split)
    qed
  qed
qed

section \<open>Partial differences\<close>

text \<open>\<^verbatim>\<open>x or None\<close> for a dictionary and for a list.\<close>

definition dict_or_none :: "obj \<Rightarrow> pv" where
  "dict_or_none d = (if d = [] then PNone else PDict d)"

definition list_or_none :: "pv list \<Rightarrow> pv" where
  "list_or_none xs = (if xs = [] then PNone else PList xs)"

definition keep_diff :: "string \<Rightarrow> pv \<Rightarrow> obj" where
  "keep_diff k v = (if v \<noteq> PNone then [(k, v)] else [])"

definition keep_item :: "pv \<Rightarrow> pv list" where
  "keep_item v = (if v \<noteq> PNone then [v] else [])"

function structural_diff :: "pv \<Rightarrow> pv \<Rightarrow> pv \<times> pv" where
  "structural_diff l r =
     (if py_eq l r then (PNone, PNone)
      else case (l, r) of
        (PDict dl, PDict dr) \<Rightarrow>
          (let parts = map (\<lambda>k.
             case (map_of dl k, map_of dr k) of
               (Some x, None) \<Rightarrow> ([(k, x)], [])
             | (None, Some y) \<Rightarrow> ([], [(k, y)])
             | (Some x, Some y) \<Rightarrow> (case structural_diff x y of (sl, sr) \<Rightarrow> (keep_diff k sl, keep_diff k sr))
             | (None, None) \<Rightarrow> ([], [])) (joint_keys dl dr)
           in (dict_or_none (concat (map fst parts)), dict_or_none (concat (map snd parts))))
      | (PList xs, PList ys) \<Rightarrow>
          (let parts = map (\<lambda>i.
             if length xs \<le> i then ([], [ys ! i])
             else if length ys \<le> i then ([xs ! i], [])
             else (case structural_diff (xs ! i) (ys ! i) of (sl, sr) \<Rightarrow> (keep_item sl, keep_item sr)))
             [0..<max (length xs) (length ys)]
           in (list_or_none (concat (map fst parts)), list_or_none (concat (map snd parts))))
      | _ \<Rightarrow> (l, r))"
  by pat_completeness auto
termination
  by (relation "measure (\<lambda>(l, r). size l)") (auto simp: nth_size intro: map_of_size)

declare structural_diff.simps [simp del]

lemma keep_nonempty: "keep_diff k v = [] \<longleftrightarrow> v = PNone" "keep_item v = [] \<longleftrightarrow> v = PNone"
  by (simp_all add: keep_diff_def keep_item_def)

lemma or_none: "dict_or_none d = PNone \<longleftrightarrow> d = []" "list_or_none xs = PNone \<longleftrightarrow> xs = []"
  by (simp_all add: dict_or_none_def list_or_none_def)

lemma dict_parts:
  "m \<in> set ks \<Longrightarrow> fst (f m) \<noteq> [] \<or> snd (f m) \<noteq> [] \<Longrightarrow>
     (dict_or_none (concat (map fst (map f ks))), dict_or_none (concat (map snd (map f ks)))) \<noteq> (PNone, PNone)"
  by (auto simp: or_none)

lemma list_parts:
  "m \<in> set ks \<Longrightarrow> fst (f m) \<noteq> [] \<or> snd (f m) \<noteq> [] \<Longrightarrow>
     (list_or_none (concat (map fst (map f ks))), list_or_none (concat (map snd (map f ks)))) \<noteq> (PNone, PNone)"
  by (auto simp: or_none)

lemma structural_diff_nonempty:
  "json_wf l \<Longrightarrow> json_wf r \<Longrightarrow> \<not> py_eq l r \<Longrightarrow> structural_diff l r \<noteq> (PNone, PNone)"
proof (induction l arbitrary: r rule: measure_induct_rule [where f = size])
  case (less l)
  show ?case
  proof (cases "\<exists>dl dr. l = PDict dl \<and> r = PDict dr")
    case True
    then obtain dl dr where lr: "l = PDict dl" "r = PDict dr" by blast
    with less.prems obtain k where k: "\<not> rel_option py_eq (map_of dl k) (map_of dr k)"
      by (auto simp: py_eq_dict_iff)
    then have mem: "k \<in> set (joint_keys dl dr)" using not_joint_key by force
    have sub: "structural_diff x y \<noteq> (PNone, PNone)" if "map_of dl k = Some x" "map_of dr k = Some y" for x y
    proof (rule less.IH)
      show "json_wf x" "json_wf y" using less.prems(1,2) lr that by (auto intro: json_wf_map_of)
      show "\<not> py_eq x y" using k that by simp
    qed (use map_of_size [of x dl k] that lr in simp)
    let ?part = "\<lambda>k. case (map_of dl k, map_of dr k) of
        (Some x, None) \<Rightarrow> ([(k, x)], [])
      | (None, Some y) \<Rightarrow> ([], [(k, y)])
      | (Some x, Some y) \<Rightarrow> (case structural_diff x y of (sl, sr) \<Rightarrow> (keep_diff k sl, keep_diff k sr))
      | (None, None) \<Rightarrow> ([], [])"
    have part: "fst (?part k) \<noteq> [] \<or> snd (?part k) \<noteq> []"
      using k sub by (cases "map_of dl k"; cases "map_of dr k") (auto simp: keep_nonempty split: prod.split)
    have eq: "structural_diff l r = (dict_or_none (concat (map fst (map ?part (joint_keys dl dr)))),
        dict_or_none (concat (map snd (map ?part (joint_keys dl dr)))))"
      using less.prems(3) by (subst structural_diff.simps) (simp add: lr Let_def)
    show ?thesis unfolding eq by (rule dict_parts [where f = ?part, OF mem part])
  next
    case notdict: False
    show ?thesis
    proof (cases "\<exists>xs ys. l = PList xs \<and> r = PList ys")
      case True
      then obtain xs ys where lr: "l = PList xs" "r = PList ys" by blast
      let ?part = "\<lambda>i. if length xs \<le> i then ([], [ys ! i])
        else if length ys \<le> i then ([xs ! i], [])
        else (case structural_diff (xs ! i) (ys ! i) of (sl, sr) \<Rightarrow> (keep_item sl, keep_item sr))"
      have eq: "structural_diff l r = (list_or_none (concat (map fst (map ?part [0..<max (length xs) (length ys)]))),
          list_or_none (concat (map snd (map ?part [0..<max (length xs) (length ys)]))))"
        using less.prems(3) by (subst structural_diff.simps) (simp add: lr Let_def)
      show ?thesis
      proof (cases "length xs = length ys")
        case True
        with less.prems lr obtain i where i: "i < length xs" "\<not> py_eq (xs ! i) (ys ! i)"
          by (auto simp: py_eq_list_iff list_all2_conv_all_nth)
        have "structural_diff (xs ! i) (ys ! i) \<noteq> (PNone, PNone)"
        proof (rule less.IH)
          show "json_wf (xs ! i)" "json_wf (ys ! i)" using less.prems(1,2) lr i True by (auto intro: json_wf_nth simp del: json_wf.simps)
        qed (use nth_size lr i in simp_all)
        then have part: "fst (?part i) \<noteq> [] \<or> snd (?part i) \<noteq> []"
          using i True by (auto simp: keep_nonempty split: prod.split)
        have mem: "i \<in> set [0..<max (length xs) (length ys)]" using i by simp
        show ?thesis unfolding eq by (rule list_parts [where f = ?part, OF mem part])
      next
        case False
        let ?i = "min (length xs) (length ys)"
        have mem: "?i \<in> set [0..<max (length xs) (length ys)]" using False by auto
        have part: "fst (?part ?i) \<noteq> [] \<or> snd (?part ?i) \<noteq> []" using False by (auto simp: min_def)
        show ?thesis unfolding eq by (rule list_parts [where f = ?part, OF mem part])
      qed
    next
      case False
      then show ?thesis using notdict less.prems(3) by (subst structural_diff.simps) (auto split: pv.split)
    qed
  qed
qed

end
