(* ===== verification/Trace_Compare.thy ===== *)
theory Trace_Compare
  imports Json_Compare Terminal_State
begin

text \<open>
  Comparing two replay traces (\<^verbatim>\<open>scripts/trace_compare.py\<close>): metrics, projection hashes, the first
  step whose worlds differ, the summary and its headline.  Characters beyond code point 255 (the
  ellipsis and the delta sign) are the parameter \<open>glyphs\<close>; floating-point metrics are not modelled.
\<close>

record glyphs =
  ellipsis :: string
  delta_sign :: string

section \<open>Metrics\<close>

definition metric_int :: "pv \<Rightarrow> ev_error + int option" where
  "metric_int v =
     (case v of
        PBool b \<Rightarrow> Inr (Some (of_bool b))
      | PInt i \<Rightarrow> Inr (Some i)
      | PStr s \<Rightarrow>
          (let t = strip s in
           if isdigit t \<or> (starts_with ''-'' t \<and> isdigit (tl t))
           then bindE (int_of_text 10 t) (\<lambda>i. Inr (Some i)) else Inr None)
      | _ \<Rightarrow> Inr None)"

type_synonym metrics = "(string \<times> int) list"

definition extract_metrics :: "pv \<Rightarrow> ev_error + metrics" where
  "extract_metrics doc =
     bindE (get_none doc ''metrics'') (\<lambda>m.
       case m of
         PDict d \<Rightarrow> bindE (mapE (\<lambda>(k, v). bindE (metric_int v) (\<lambda>i. Inr (k, i))) d)
           (\<lambda>ps. Inr (concat (map (\<lambda>(k, i). case i of None \<Rightarrow> [] | Some n \<Rightarrow> [(k, n)]) ps)))
       | _ \<Rightarrow> Inr [])"

record metric_change =
  mc_baseline :: int
  mc_candidate :: int
  mc_delta :: int

definition metric_delta :: "metrics \<Rightarrow> metrics \<Rightarrow> (string \<times> metric_change) list" where
  "metric_delta base cand = map (\<lambda>k.
     (k, \<lparr>mc_baseline = get_or base k 0, mc_candidate = get_or cand k 0,
          mc_delta = get_or cand k 0 - get_or base k 0\<rparr>)) (sort (remdups (map fst base @ map fst cand)))"

section \<open>Documents\<close>

definition pick :: "pv list \<Rightarrow> pv \<Rightarrow> pv" where
  "pick vs x = (case filter truthy vs of [] \<Rightarrow> x | v # _ \<Rightarrow> v)"

definition extract_outcome :: "pv \<Rightarrow> ev_error + string" where
  "extract_outcome doc =
     bindE (get_none doc ''outcome'') (\<lambda>o'. bindE (get_none doc ''purpose'') (\<lambda>p.
       Inr (py_str (pick [o', p] (PStr ''unknown'')))))"

definition extract_events_processed :: "pv \<Rightarrow> ev_error + int" where
  "extract_events_processed doc =
     bindE (has_item doc ''events-processed'') (\<lambda>b.
     if b then bindE (get_in doc ''events-processed'' (PInt 0)) (\<lambda>v. py_int (pick [v] (PInt 0)))
     else bindE (get_in doc ''events'' (PList [])) (\<lambda>e. bindE (get_in doc ''trace'' (PList [])) (\<lambda>t.
            bindE (len_of (pick [e, t] (PList []))) (\<lambda>n. Inr (int n)))))"

definition extract_trace :: "pv \<Rightarrow> ev_error + pv list" where
  "extract_trace doc =
     bindE (get_in doc ''trace'' (PList [])) (\<lambda>t. case t of PList xs \<Rightarrow> Inr xs | _ \<Rightarrow> Inr [])"

definition extract_projection_hash :: "pv \<Rightarrow> ev_error + pv" where
  "extract_projection_hash doc =
     bindE (extract_trace doc) (\<lambda>trace.
       if trace = [] then Inr PNone
       else case last trace of
         PDict d \<Rightarrow> (let v = py_get d ''projection-hash'' in Inr (if truthy v then PStr (py_str v) else PNone))
       | _ \<Rightarrow> Inr PNone)"

definition extract_terminal_entity_count :: "pv \<Rightarrow> ev_error + int" where
  "extract_terminal_entity_count doc =
     bindE (extract_trace doc) (\<lambda>trace.
       if trace = [] then Inr 0
       else bindE (get_in (last trace) ''world'' (PDict [])) (\<lambda>w.
            bindE (get_in (pick [w] (PDict [])) ''entity_count'' (PInt 0)) (\<lambda>n. py_int (pick [n] (PInt 0)))))"

section \<open>The first divergence\<close>

definition world_without_trace :: "pv \<Rightarrow> ev_error + pv" where
  "world_without_trace step =
     bindE (get_in step ''world'' (PDict [])) (\<lambda>w.
       case pick [w] (PDict []) of
         PDict d \<Rightarrow> Inr (PDict (filter (\<lambda>kv. fst kv \<noteq> ''trace'') d))
       | _ \<Rightarrow> Inr (PDict []))"

definition step_divergence :: "nat \<Rightarrow> pv \<Rightarrow> pv \<Rightarrow> ev_error + pv" where
  "step_divergence i a b =
     bindE (world_without_trace a) (\<lambda>wa. bindE (world_without_trace b) (\<lambda>wb.
       case structural_diff wa wb of (only_a, only_b) \<Rightarrow>
         if truthy only_a \<or> truthy only_b
         then bindE (get_none a ''action'') (\<lambda>act. Inr (PDict
                [(''divergence_at'', PInt (int i)), (''action'', act), (''only_in_baseline'', only_a), (''only_in_candidate'', only_b)]))
         else Inr PNone))"

fun diff_steps :: "nat \<Rightarrow> pv list \<Rightarrow> pv list \<Rightarrow> ev_error + pv" where
  "diff_steps i (a # as) (b # bs) =
     bindE (step_divergence i a b) (\<lambda>d. if d \<noteq> PNone then Inr d else diff_steps (Suc i) as bs)"
| "diff_steps i as bs = Inr PNone"

definition diff_traces :: "pv list \<Rightarrow> pv list \<Rightarrow> ev_error + pv" where
  "diff_traces ta tb =
     bindE (diff_steps 0 ta tb) (\<lambda>d.
       if d \<noteq> PNone then Inr d
       else if length ta \<noteq> length tb
       then Inr (PDict [(''divergence_at'', PInt (int (min (length ta) (length tb)))), (''reason'', PStr ''trace-length-mismatch''),
              (''length_baseline'', PInt (int (length ta))), (''length_candidate'', PInt (int (length tb)))])
       else Inr PNone)"

section \<open>The summary\<close>

definition max_items :: nat where "max_items = 24"

fun truncate_value :: "glyphs \<Rightarrow> nat \<Rightarrow> pv \<Rightarrow> pv" where
  "truncate_value G 0 v = PStr (ellipsis G)"
| "truncate_value G (Suc n) v =
     (case v of
        PDict d \<Rightarrow>
          (let shown = map (\<lambda>(k, x). (k, truncate_value G n x)) (take max_items (sort_key fst d))
           in PDict (if length d > max_items
                     then dset (ellipsis G) (PStr (nat_str (length d - max_items) @ '' more keys'')) shown else shown))
      | PList xs \<Rightarrow>
          PList (map (truncate_value G n) (take max_items xs)
            @ (if length xs > max_items
               then [PStr (ellipsis G @ '' '' @ nat_str (length xs - max_items) @ '' more items'')] else []))
      | _ \<Rightarrow> v)"

definition truncated_divergence :: "glyphs \<Rightarrow> obj \<Rightarrow> pv" where
  "truncated_divergence G d =
     PDict (filter (\<lambda>kv. fst kv \<noteq> ''only_in_baseline'' \<and> fst kv \<noteq> ''only_in_candidate'') d
       @ [(''only_in_baseline'', truncate_value G 4 (py_get d ''only_in_baseline'')),
          (''only_in_candidate'', truncate_value G 4 (py_get d ''only_in_candidate''))])"

definition shown_divergence :: "glyphs \<Rightarrow> pv \<Rightarrow> pv" where
  "shown_divergence G d =
     (case d of
        PDict kvs \<Rightarrow> if has_key kvs ''only_in_baseline'' \<or> has_key kvs ''only_in_candidate''
                    then truncated_divergence G kvs else d
      | _ \<Rightarrow> d)"

record structural_summary =
  ss_baseline_hash :: pv
  ss_candidate_hash :: pv
  ss_match :: pv
  ss_identical :: bool
  ss_first :: pv

definition build_structural_summary :: "glyphs \<Rightarrow> pv \<Rightarrow> pv \<Rightarrow> ev_error + structural_summary" where
  "build_structural_summary G base cand =
     bindE (extract_projection_hash base) (\<lambda>bh.
     bindE (extract_projection_hash cand) (\<lambda>ch.
     bindE (extract_trace base) (\<lambda>ta. bindE (extract_trace cand) (\<lambda>tb.
     bindE (diff_traces ta tb) (\<lambda>d.
       Inr \<lparr>ss_baseline_hash = bh, ss_candidate_hash = ch,
            ss_match = (if truthy bh \<and> truthy ch then PBool (bh = ch) else PNone),
            ss_identical = (d = PNone), ss_first = shown_divergence G d\<rparr>)))))"

definition signed_text :: "int \<Rightarrow> string" where
  "signed_text i = (if i < 0 then int_str i else ''+'' @ int_str i)"

definition divergence_part :: "structural_summary \<Rightarrow> string list" where
  "divergence_part S =
     (case ss_first S of
        PDict d \<Rightarrow>
          if py_get d ''reason'' = PStr ''trace-length-mismatch''
          then [''trace length mismatch ('' @ py_str (py_get d ''length_baseline'') @ '' vs '' @ py_str (py_get d ''length_candidate'') @ '')'']
          else [''first world divergence at seq='' @ py_str (py_get d ''divergence_at'') @ '' ('' @ py_str (py_get d ''action'') @ '')'']
      | _ \<Rightarrow> if ss_identical S then [''worlds identical''] else [])"

definition largest_changes :: "(string \<times> metric_change) list \<Rightarrow> (string \<times> int) list" where
  "largest_changes delta =
     take 3 (sort_key (\<lambda>kd. - \<bar>snd kd\<bar>) (filter (\<lambda>kd. snd kd \<noteq> 0) (map (\<lambda>(k, c). (k, mc_delta c)) delta)))"

definition make_headline :: "glyphs \<Rightarrow> (string \<times> metric_change) list \<Rightarrow> string \<Rightarrow> string \<Rightarrow> structural_summary \<Rightarrow> string" where
  "make_headline G delta base_outcome cand_outcome S =
     (let hash_part = (if ss_match S = PBool False then [''projection-hash differs'']
                       else if ss_match S = PBool True then [''projection-hash match''] else []);
          parts = hash_part @ divergence_part S;
          changes = largest_changes delta;
          all = parts @ (if changes \<noteq> []
                         then [join '', '' (map (\<lambda>(k, v). k @ '' '' @ delta_sign G @ ''='' @ signed_text v) changes)]
                         else if parts = [] then [''no metric deltas''] else [])
      in ''Candidate ('' @ cand_outcome @ '') vs baseline ('' @ base_outcome @ ''): '' @ join ''; '' all @ ''.'')"

definition side_pv :: "string \<Rightarrow> string \<Rightarrow> int \<Rightarrow> pv \<Rightarrow> pv" where
  "side_pv path outcome events h = PDict
     [(''path'', PStr path), (''outcome'', PStr outcome), (''events_processed'', PInt events), (''projection_hash'', h)]"

definition delta_pv :: "(string \<times> metric_change) list \<Rightarrow> pv" where
  "delta_pv ds = PDict (map (\<lambda>(k, c). (k, PDict
     [(''baseline'', PInt (mc_baseline c)), (''candidate'', PInt (mc_candidate c)), (''delta'', PInt (mc_delta c))])) ds)"

definition structural_pv :: "structural_summary \<Rightarrow> pv" where
  "structural_pv S = PDict
     [(''baseline_projection_hash'', ss_baseline_hash S), (''candidate_projection_hash'', ss_candidate_hash S),
      (''projection_hash_match'', ss_match S), (''worlds_identical'', PBool (ss_identical S)), (''first_divergence'', ss_first S)]"

definition compare_documents :: "glyphs \<Rightarrow> pv \<Rightarrow> pv \<Rightarrow> string \<Rightarrow> string \<Rightarrow> ev_error + pv" where
  "compare_documents G base cand baseline_path candidate_path =
     bindE (extract_metrics base) (\<lambda>bm. bindE (extract_metrics cand) (\<lambda>cm.
     bindE (build_structural_summary G base cand) (\<lambda>S.
     bindE (extract_outcome base) (\<lambda>bo. bindE (extract_events_processed base) (\<lambda>be.
     bindE (extract_outcome cand) (\<lambda>co. bindE (extract_events_processed cand) (\<lambda>ce.
     bindE (extract_terminal_entity_count base) (\<lambda>bt. bindE (extract_terminal_entity_count cand) (\<lambda>ct.
       Inr (PDict
         [(''baseline'', side_pv baseline_path bo be (ss_baseline_hash S)),
          (''candidate'', side_pv candidate_path co ce (ss_candidate_hash S)),
          (''metric_delta'', delta_pv (metric_delta bm cm)),
          (''terminal_entity_counts'', PDict [(''baseline'', PInt bt), (''candidate'', PInt ct)]),
          (''structural_diff'', structural_pv S),
          (''headline'', PStr (make_headline G (metric_delta bm cm) bo co S))]))))))))))"

end
