(* ===== verification/Trace_Theorems.thy ===== *)
theory Trace_Theorems
  imports Trace_Compare
begin

text \<open>
  The comparisons find exactly the differences: no leaf difference and no partial difference on equal
  values, one on unequal values, and the first divergence of two traces is the first.
\<close>

section \<open>Values\<close>

lemma structural_diff_none_iff:
  "json_wf l \<Longrightarrow> json_wf r \<Longrightarrow> structural_diff l r = (PNone, PNone) \<longleftrightarrow> py_eq l r"
  using structural_diff_nonempty by (metis structural_diff.simps)

text \<open>
  The leaf differences of two JSON values are empty exactly when Python's equality holds between
  them, and the partial differences of both sides are both absent exactly then, too.
\<close>

theorem json_differences_exact:
  assumes "json_wf e" and "json_wf a"
  shows "(collect_diffs e a path = [] \<longleftrightarrow> py_eq e a) \<and> (structural_diff e a = (PNone, PNone) \<longleftrightarrow> py_eq e a)"
  using structural_diff_none_iff [OF assms] collect_diffs_nonempty [OF assms] by (metis collect_diffs.simps)

lemma json_differences_exact_witness:
  "collect_diffs (PDict [(''a'', PInt 1), (''b'', PList [PNone])]) (PDict [(''b'', PList [PNone]), (''a'', PBool True)]) [] = []
   \<and> structural_diff (PDict [(''a'', PInt 1)]) (PDict [(''a'', PInt 2)]) \<noteq> (PNone, PNone)"
proof -
  have wf: "json_wf (PDict [(''a'', PInt 1), (''b'', PList [PNone])])" "json_wf (PDict [(''b'', PList [PNone]), (''a'', PBool True)])"
    "json_wf (PDict [(''a'', PInt 1)])" "json_wf (PDict [(''a'', PInt 2)])" by (simp_all add: dict_wf_def)
  have "py_eq (PDict [(''a'', PInt 1), (''b'', PList [PNone])]) (PDict [(''b'', PList [PNone]), (''a'', PBool True)])"
    "\<not> py_eq (PDict [(''a'', PInt 1)]) (PDict [(''a'', PInt 2)])" by (simp_all add: py_eq_def)
  with json_differences_exact [OF wf(1,2), of "[]"] json_differences_exact [OF wf(3,4), of "[]"] show ?thesis by blast
qed

section \<open>Traces\<close>

definition same_world :: "pv \<Rightarrow> pv \<Rightarrow> bool" where
  "same_world a b \<longleftrightarrow> (\<exists>v w. world_without_trace a = Inr v \<and> world_without_trace b = Inr w \<and> py_eq v w)"

lemma json_wf_filter: "json_wf (PDict d) \<Longrightarrow> json_wf (PDict (filter P d))"
  by (auto simp: dict_wf_def list_all_iff distinct_map inj_on_def)

lemma world_wf:
  assumes "json_wf step" and "world_without_trace step = Inr w"
  shows "json_wf w \<and> is_dict w"
proof -
  from assms(2) obtain d where d: "step = PDict d"
    by (auto simp: world_without_trace_def bindE_Inr_iff get_in_Inr_iff)
  let ?v = "pick [get_or d ''world'' (PDict [])] (PDict [])"
  have "json_wf (get_or d ''world'' (PDict []))"
    using assms(1) json_wf_map_of [of d] unfolding d get_or_def by (auto simp: dict_wf_def split: option.split)
  then have "json_wf ?v" by (auto simp: pick_def dict_wf_def)
  then show ?thesis using assms(2) json_wf_filter
    by (auto simp: world_without_trace_def d dict_wf_def split: pv.splits)
qed

lemma structural_diff_dict_kind:
  "\<exists>x y. structural_diff (PDict d) (PDict e) = (dict_or_none x, dict_or_none y)"
proof (cases "py_eq (PDict d) (PDict e)")
  case True
  then have "structural_diff (PDict d) (PDict e) = (dict_or_none [], dict_or_none [])"
    by (simp add: structural_diff.simps dict_or_none_def)
  then show ?thesis by blast
next
  case False
  then show ?thesis by (subst structural_diff.simps) (simp add: Let_def, blast)
qed

lemma truthy_dict_or_none: "truthy (dict_or_none d) \<longleftrightarrow> dict_or_none d \<noteq> PNone"
  by (simp add: dict_or_none_def)

lemma step_divergence_iff:
  assumes "json_wf a" and "json_wf b" and "step_divergence i a b = Inr d"
  shows "(d = PNone \<longleftrightarrow> same_world a b) \<and> (d \<noteq> PNone \<longrightarrow> (\<exists>kvs. d = PDict kvs \<and> py_get kvs ''divergence_at'' = PInt (int i)))"
proof -
  from assms(3) obtain wa wb where w: "world_without_trace a = Inr wa" "world_without_trace b = Inr wb"
    by (auto simp: step_divergence_def bindE_Inr_iff)
  note wfa = world_wf [OF assms(1) w(1)] and wfb = world_wf [OF assms(2) w(2)]
  obtain da db where dicts: "wa = PDict da" "wb = PDict db" using wfa wfb by (cases wa; cases wb) auto
  obtain x y where xy: "structural_diff wa wb = (dict_or_none x, dict_or_none y)"
    using structural_diff_dict_kind dicts by blast
  have "py_eq wa wb \<longleftrightarrow> dict_or_none x = PNone \<and> dict_or_none y = PNone"
    using structural_diff_none_iff [of wa wb] wfa wfb xy by auto
  moreover have "same_world a b \<longleftrightarrow> py_eq wa wb" using w by (auto simp: same_world_def)
  ultimately show ?thesis
    using assms(3) by (auto simp: step_divergence_def w xy truthy_dict_or_none bindE_Inr_iff get_or_def split: if_splits)
qed

definition divergence_index :: "pv \<Rightarrow> int option" where
  "divergence_index d = (case d of PDict kvs \<Rightarrow> num_of (py_get kvs ''divergence_at'') | _ \<Rightarrow> None)"

lemma diff_steps_Inr:
  assumes "list_all json_wf ta" and "list_all json_wf tb" and "diff_steps i ta tb = Inr d"
  shows "(d = PNone \<longrightarrow> list_all2 same_world (take (length tb) ta) (take (length ta) tb))
    \<and> (d \<noteq> PNone \<longrightarrow> (\<exists>j. divergence_index d = Some (int (i + j)) \<and> j < length ta \<and> j < length tb
        \<and> list_all2 same_world (take j ta) (take j tb) \<and> \<not> same_world (ta ! j) (tb ! j)))"
  using assms
proof (induction i ta tb rule: diff_steps.induct)
  case (1 i a as b bs)
  from "1.prems"(3) obtain e where e: "step_divergence i a b = Inr e" by (auto simp: bindE_Inr_iff)
  have s: "(e = PNone \<longleftrightarrow> same_world a b) \<and> (e \<noteq> PNone \<longrightarrow> (\<exists>kvs. e = PDict kvs \<and> py_get kvs ''divergence_at'' = PInt (int i)))"
    using step_divergence_iff [OF _ _ e] "1.prems"(1,2) by simp
  show ?case
  proof (cases "e = PNone")
    case False
    then show ?thesis using "1.prems"(3) s e by (auto simp: divergence_index_def intro!: exI [of _ 0])
  next
    case True
    have rest: "diff_steps (Suc i) as bs = Inr d" using "1.prems"(3) True e by simp
    have ih: "(d = PNone \<longrightarrow> list_all2 same_world (take (length bs) as) (take (length as) bs))
      \<and> (d \<noteq> PNone \<longrightarrow> (\<exists>j. divergence_index d = Some (int (Suc i + j)) \<and> j < length as \<and> j < length bs
        \<and> list_all2 same_world (take j as) (take j bs) \<and> \<not> same_world (as ! j) (bs ! j)))"
      using "1.IH" [of e] True "1.prems"(1,2) rest by simp
    show ?thesis
    proof (cases "d = PNone")
      case True
      then show ?thesis using ih s \<open>e = PNone\<close> by simp
    next
      case False
      with ih obtain j where "divergence_index d = Some (int (Suc i + j))" "j < length as" "j < length bs"
        "list_all2 same_world (take j as) (take j bs)" "\<not> same_world (as ! j) (bs ! j)" by blast
      then show ?thesis using False s \<open>e = PNone\<close> by (intro conjI impI exI [of _ "Suc j"]) auto
    qed
  qed
qed auto

text \<open>
  The comparison of two traces reports no divergence exactly when they have the same length and
  their worlds are equal step by step; a reported index is the first step whose worlds differ, or the
  end of the shorter trace when all its worlds agree.
\<close>

theorem first_divergence_exact:
  assumes "list_all json_wf ta" and "list_all json_wf tb" and "diff_traces ta tb = Inr d"
  shows "case divergence_index d of
      None \<Rightarrow> d = PNone \<and> list_all2 same_world ta tb
    | Some i \<Rightarrow> 0 \<le> i \<and> i \<le> int (min (length ta) (length tb))
        \<and> list_all2 same_world (take (nat i) ta) (take (nat i) tb)
        \<and> (if i < int (min (length ta) (length tb)) then \<not> same_world (ta ! nat i) (tb ! nat i)
           else length ta \<noteq> length tb)"
proof -
  from assms(3) obtain e where e: "diff_steps 0 ta tb = Inr e" by (auto simp: diff_traces_def bindE_Inr_iff)
  note s = diff_steps_Inr [OF assms(1,2) e]
  show ?thesis
  proof (cases "e = PNone")
    case False
    then have "d = e" using assms(3) e by (simp add: diff_traces_def)
    with s False show ?thesis by auto
  next
    case True
    with s have same: "list_all2 same_world (take (length tb) ta) (take (length ta) tb)" by blast
    show ?thesis
    proof (cases "length ta = length tb")
      case eq: True
      then have "d = PNone" using assms(3) e True by (simp add: diff_traces_def)
      then show ?thesis using same eq by (simp add: divergence_index_def)
    next
      case False
      then have d: "divergence_index d = Some (int (min (length ta) (length tb)))"
        using assms(3) e True by (auto simp: diff_traces_def divergence_index_def get_or_def)
      have "list_all2 same_world (take (min (length ta) (length tb)) ta) (take (min (length ta) (length tb)) tb)"
        using same by (cases "length ta \<le> length tb") (simp_all add: min_def)
      then show ?thesis using d False by simp
    qed
  qed
qed

definition sample_steps :: "int list \<Rightarrow> pv list" where
  "sample_steps ns = map (\<lambda>n. PDict [(''action'', PStr ''release''), (''world'', PDict [(''held'', PInt n), (''trace'', PInt n)])]) ns"

lemma first_divergence_exact_witness:
  "\<exists>d. diff_traces (sample_steps [5, 7, 9]) (sample_steps [5, 8]) = Inr d
     \<and> divergence_index d = Some 1 \<and> \<not> same_world (sample_steps [5, 7, 9] ! 1) (sample_steps [5, 8] ! 1)"
proof -
  have wf: "list_all json_wf (sample_steps ns)" for ns by (auto simp: sample_steps_def list_all_iff dict_wf_def)
  define d where "d = projr (diff_traces (sample_steps [5, 7, 9]) (sample_steps [5, 8]))"
  have run: "diff_traces (sample_steps [5, 7, 9]) (sample_steps [5, 8]) = Inr d \<and> divergence_index d = Some 1"
    unfolding d_def by code_simp
  have "\<not> same_world (sample_steps [5, 7, 9] ! 1) (sample_steps [5, 8] ! 1)"
    using first_divergence_exact [OF wf wf conjunct1 [OF run]] run by (simp add: sample_steps_def)
  with run show ?thesis by blast
qed

end
