(* ===== verification/Ancestor_Path.thy ===== *)
theory Ancestor_Path
  imports Py_Read
begin

text \<open>
  The ancestors of evidence nodes (\<^verbatim>\<open>_ancestor_path\<close> of \<^verbatim>\<open>scripts/forensic/mechanism_persistence.py\<close>):
  a depth-first visit that lists the parents of a node before it.  The interpreter's recursion limit is
  the first argument; a deeper recursion raises \<open>RecursionError\<close>.
\<close>

type_synonym edges = "(string \<times> string list) list"
type_synonym visit_state = "string list \<times> string list"

primrec visit :: "nat \<Rightarrow> edges \<Rightarrow> string \<Rightarrow> visit_state \<Rightarrow> ev_error + visit_state" where
  "visit 0 E h st = Inl (Builtin RecursionError)"
| "visit (Suc n) E h st =
     (if h = [] \<or> h \<in> set (fst st) then Inr st
      else bindE (foldE (\<lambda>s p. visit n E p s) st (get_or E h [])) (\<lambda>(seen, ordered).
        Inr (h # seen, ordered @ [h])))"

definition ancestor_path :: "nat \<Rightarrow> edges \<Rightarrow> string list \<Rightarrow> ev_error + string list" where
  "ancestor_path limit E hs = bindE (foldE (\<lambda>s h. visit limit E h s) ([], []) hs) (\<lambda>(seen, ordered). Inr ordered)"

section \<open>The parent relation\<close>

definition par :: "edges \<Rightarrow> (string \<times> string) set" where
  "par E = {(p, h). h \<noteq> [] \<and> p \<noteq> [] \<and> p \<in> set (get_or E h [])}"

definition reaches_cycle :: "edges \<Rightarrow> string \<Rightarrow> bool" where
  "reaches_cycle E h \<longleftrightarrow> (\<exists>x. (x, x) \<in> (par E)\<^sup>+ \<and> (x, h) \<in> (par E)\<^sup>*)"

lemma reaches_cycle_parent: "(p, h) \<in> par E \<Longrightarrow> reaches_cycle E p \<Longrightarrow> reaches_cycle E h"
  by (auto simp: reaches_cycle_def intro: rtrancl_into_rtrancl)

lemma reaches_cycle_has_parent: "reaches_cycle E h \<Longrightarrow> \<exists>p. (p, h) \<in> par E \<and> reaches_cycle E p"
  unfolding reaches_cycle_def
proof (elim exE conjE)
  fix x assume x: "(x, x) \<in> (par E)\<^sup>+" "(x, h) \<in> (par E)\<^sup>*"
  then have "(x, h) \<in> (par E)\<^sup>+" by (meson trancl_rtrancl_trancl)
  then obtain p where "(x, p) \<in> (par E)\<^sup>*" "(p, h) \<in> par E" by (meson tranclD2)
  with x(1) show "\<exists>p. (p, h) \<in> par E \<and> (\<exists>x. (x, x) \<in> (par E)\<^sup>+ \<and> (x, p) \<in> (par E)\<^sup>*)" by blast
qed

lemma no_cycle_irrefl: "\<not> reaches_cycle E h \<Longrightarrow> (h, h) \<notin> (par E)\<^sup>+"
  by (auto simp: reaches_cycle_def)

section \<open>A visit that returns\<close>

definition acyclic_seen :: "edges \<Rightarrow> visit_state \<Rightarrow> bool" where
  "acyclic_seen E st \<longleftrightarrow> list_all (\<lambda>h. \<not> reaches_cycle E h) (fst st)"

lemma visit_clean:
  "visit n E h st = Inr st' \<Longrightarrow> acyclic_seen E st \<Longrightarrow> acyclic_seen E st' \<and> \<not> reaches_cycle E h"
proof (induction n arbitrary: h st st')
  case (Suc n)
  have empty: "\<not> reaches_cycle E []"
    using reaches_cycle_has_parent [of E "[]"] by (auto simp: par_def)
  show ?case
  proof (cases "h = [] \<or> h \<in> set (fst st)")
    case True
    then show ?thesis using Suc.prems empty by (auto simp: acyclic_seen_def list_all_iff)
  next
    case False
    with Suc.prems obtain s o' where run: "foldE (\<lambda>s p. visit n E p s) st (get_or E h []) = Inr (s, o')"
      and st': "st' = (h # s, o' @ [h])" by (auto simp: bindE_Inr_iff)
    have fold: "acyclic_seen E u \<and> list_all (\<lambda>p. \<not> reaches_cycle E p) ps"
      if "foldE (\<lambda>s p. visit n E p s) t ps = Inr u" "acyclic_seen E t" for t u ps
      using that
    proof (induction ps arbitrary: t)
      case (Cons p ps)
      then obtain t' where "visit n E p t = Inr t'" "foldE (\<lambda>s p. visit n E p s) t' ps = Inr u"
        by (auto simp: bindE_Inr_iff)
      with Suc.IH [of p t t'] Cons show ?case by simp
    qed simp
    note parents = fold [OF run Suc.prems(2)]
    have "\<not> reaches_cycle E h"
    proof
      assume "reaches_cycle E h"
      then obtain p where "(p, h) \<in> par E" "reaches_cycle E p" using reaches_cycle_has_parent by blast
      with parents show False by (auto simp: par_def list_all_iff)
    qed
    with parents st' show ?thesis by (simp add: acyclic_seen_def)
  qed
qed simp

text \<open>What a visit keeps: the two lists hold the same nodes, once each, every parent before its child.\<close>

definition parents_first :: "edges \<Rightarrow> string list \<Rightarrow> bool" where
  "parents_first E xs \<longleftrightarrow> (\<forall>k < length xs. \<forall>p. (p, xs ! k) \<in> par E \<longrightarrow> p \<in> set (take k xs))"

definition path_inv :: "edges \<Rightarrow> visit_state \<Rightarrow> bool" where
  "path_inv E st \<longleftrightarrow> acyclic_seen E st \<and> set (fst st) = set (snd st) \<and> distinct (snd st) \<and> [] \<notin> set (snd st) \<and> parents_first E (snd st)"

lemma parents_first_snoc:
  "parents_first E xs \<Longrightarrow> (\<And>p. (p, h) \<in> par E \<Longrightarrow> p \<in> set xs) \<Longrightarrow> parents_first E (xs @ [h])"
  by (auto simp: parents_first_def nth_append less_Suc_eq)

lemma visit_inv:
  "visit n E h st = Inr st' \<Longrightarrow> path_inv E st \<Longrightarrow>
     path_inv E st' \<and> (\<exists>zs. snd st' = snd st @ zs \<and> set zs \<subseteq> {a. (a, h) \<in> (par E)\<^sup>*})
     \<and> (h \<noteq> [] \<longrightarrow> h \<in> set (snd st'))"
proof (induction n arbitrary: h st st')
  case (Suc n)
  show ?case
  proof (cases "h = [] \<or> h \<in> set (fst st)")
    case True
    then show ?thesis using Suc.prems by (auto simp: path_inv_def)
  next
    case False
    with Suc.prems obtain s o' where run: "foldE (\<lambda>s p. visit n E p s) st (get_or E h []) = Inr (s, o')"
      and st': "st' = (h # s, o' @ [h])" by (auto simp: bindE_Inr_iff)
    have fold: "path_inv E u \<and> (\<exists>zs. snd u = snd t @ zs \<and> set zs \<subseteq> {a. \<exists>p \<in> set ps. (a, p) \<in> (par E)\<^sup>*})
        \<and> list_all (\<lambda>p. p \<noteq> [] \<longrightarrow> p \<in> set (snd u)) ps"
      if "foldE (\<lambda>s p. visit n E p s) t ps = Inr u" "path_inv E t" for t u ps
      using that
    proof (induction ps arbitrary: t)
      case (Cons p ps)
      then obtain t' where t': "visit n E p t = Inr t'" "foldE (\<lambda>s p. visit n E p s) t' ps = Inr u"
        by (auto simp: bindE_Inr_iff)
      from Suc.IH [OF t'(1) Cons.prems(2)] obtain zs where
        z: "path_inv E t'" "snd t' = snd t @ zs" "set zs \<subseteq> {a. (a, p) \<in> (par E)\<^sup>*}" "p \<noteq> [] \<longrightarrow> p \<in> set (snd t')" by blast
      from Cons.IH [OF t'(2) z(1)] obtain ys where
        y: "path_inv E u" "snd u = snd t' @ ys" "set ys \<subseteq> {a. \<exists>p \<in> set ps. (a, p) \<in> (par E)\<^sup>*}"
          "list_all (\<lambda>p. p \<noteq> [] \<longrightarrow> p \<in> set (snd u)) ps" by blast
      have "snd u = snd t @ (zs @ ys)" using z y by simp
      moreover have "set (zs @ ys) \<subseteq> {a. \<exists>q \<in> set (p # ps). (a, q) \<in> (par E)\<^sup>*}" using z(3) y(3) by auto
      ultimately show ?case using y z by auto
    qed simp
    from fold [OF run Suc.prems(2)] obtain zs where
      z: "path_inv E (s, o')" "o' = snd st @ zs" "set zs \<subseteq> {a. \<exists>p \<in> set (get_or E h []). (a, p) \<in> (par E)\<^sup>*}"
        "list_all (\<lambda>p. p \<noteq> [] \<longrightarrow> p \<in> set o') (get_or E h [])" by auto
    have hC: "acyclic_seen E st' \<and> \<not> reaches_cycle E h"
      using visit_clean [OF Suc.prems(1)] Suc.prems(2) by (simp add: path_inv_def)
    have inv: "set s = set o'" "distinct o'" "[] \<notin> set o'" "parents_first E o'" using z(1) by (auto simp: path_inv_def)
    have before: "(a, h) \<in> (par E)\<^sup>+" if a: "a \<in> set zs" for a
    proof -
      from z(3) a obtain p where p: "p \<in> set (get_or E h [])" "(a, p) \<in> (par E)\<^sup>*" by blast
      have "a \<noteq> []" using a z(2) inv(3) by auto
      with p(2) have "p \<noteq> []" by (auto simp: par_def elim: rtranclE)
      with p(1) False have "(p, h) \<in> par E" by (auto simp: par_def)
      with p(2) show ?thesis by (rule rtrancl_into_trancl1)
    qed
    have fresh: "h \<notin> set o'"
      using False Suc.prems(2) z(2) before [of h] no_cycle_irrefl hC by (auto simp: path_inv_def)
    have "parents_first E (o' @ [h])"
      using inv(4) z(4) by (intro parents_first_snoc) (auto simp: par_def list_all_iff)
    then have "path_inv E st'" using inv fresh False hC st' by (auto simp: path_inv_def)
    moreover have "snd st' = snd st @ (zs @ [h])" using st' z(2) by simp
    moreover have "set (zs @ [h]) \<subseteq> {a. (a, h) \<in> (par E)\<^sup>*}" using before by (auto intro: trancl_into_rtrancl)
    ultimately show ?thesis using st' by (metis in_set_conv_decomp snd_conv)
  qed
qed simp

lemma fold_inv:
  "foldE (\<lambda>s h. visit n E h s) st hs = Inr st' \<Longrightarrow> path_inv E st \<Longrightarrow>
     path_inv E st' \<and> (\<exists>zs. snd st' = snd st @ zs \<and> set zs \<subseteq> {a. \<exists>h \<in> set hs. (a, h) \<in> (par E)\<^sup>*})
     \<and> list_all (\<lambda>h. h \<noteq> [] \<longrightarrow> h \<in> set (snd st')) hs"
proof (induction hs arbitrary: st)
  case (Cons h hs)
  then obtain t where t: "visit n E h st = Inr t" "foldE (\<lambda>s h. visit n E h s) t hs = Inr st'"
    by (auto simp: bindE_Inr_iff)
  from visit_inv [OF t(1) Cons.prems(2)] obtain zs where
    z: "path_inv E t" "snd t = snd st @ zs" "set zs \<subseteq> {a. (a, h) \<in> (par E)\<^sup>*}" "h \<noteq> [] \<longrightarrow> h \<in> set (snd t)" by blast
  from Cons.IH [OF t(2) z(1)] obtain ys where
    y: "path_inv E st'" "snd st' = snd t @ ys" "set ys \<subseteq> {a. \<exists>h \<in> set hs. (a, h) \<in> (par E)\<^sup>*}"
      "list_all (\<lambda>h. h \<noteq> [] \<longrightarrow> h \<in> set (snd st')) hs" by blast
  have "snd st' = snd st @ (zs @ ys)" using z y by simp
  moreover have "set (zs @ ys) \<subseteq> {a. \<exists>g \<in> set (h # hs). (a, g) \<in> (par E)\<^sup>*}" using z(3) y(3) by auto
  ultimately show ?case using y z by auto
qed simp

section \<open>Visits return on acyclic ancestries\<close>

definition keys_above :: "edges \<Rightarrow> string \<Rightarrow> string set" where
  "keys_above E h = {k \<in> fst ` set E. k \<noteq> [] \<and> (k, h) \<in> (par E)\<^sup>*}"

lemma keys_above_finite: "finite (keys_above E h)"
  by (simp add: keys_above_def)

lemma keys_above_card: "card (keys_above E h) \<le> length E"
  using card_mono [of "fst ` set E" "keys_above E h"] card_image_le [of "set E" fst] card_length [of E]
  by (fastforce simp: keys_above_def)

lemma key_with_parents: "p \<in> set (get_or E h []) \<Longrightarrow> h \<in> fst ` set E"
  by (cases "map_of E h") (auto simp: get_or_def dest!: map_of_SomeD intro: rev_image_eqI)

lemma keys_above_parent:
  assumes "(p, h) \<in> par E" and "\<not> reaches_cycle E h"
  shows "card (keys_above E p) < card (keys_above E h)"
proof (rule psubset_card_mono)
  have "p \<in> set (get_or E h [])" "h \<noteq> []" using assms(1) by (auto simp: par_def)
  then have "h \<in> fst ` set E" using key_with_parents by fast
  then have "h \<in> keys_above E h" using \<open>h \<noteq> []\<close> by (simp add: keys_above_def)
  moreover have "h \<notin> keys_above E p"
    using assms no_cycle_irrefl by (auto simp: keys_above_def dest: rtrancl_into_trancl1)
  moreover have "keys_above E p \<subseteq> keys_above E h"
    using assms(1) by (auto simp: keys_above_def intro: rtrancl_into_rtrancl)
  ultimately show "keys_above E p \<subset> keys_above E h" by blast
qed (rule keys_above_finite)

lemma fold_returns:
  "(\<And>h t. h \<in> set hs \<Longrightarrow> \<exists>u. visit n E h t = Inr u) \<Longrightarrow> \<exists>st'. foldE (\<lambda>s h. visit n E h s) st hs = Inr st'"
proof (induction hs arbitrary: st)
  case (Cons h hs)
  from Cons.prems [of h st] obtain t where t: "visit n E h st = Inr t" by auto
  from Cons.IH [of t] Cons.prems show ?case by (simp add: t)
qed simp

lemma visit_returns:
  "\<not> reaches_cycle E h \<Longrightarrow> card (keys_above E h) \<le> n \<Longrightarrow> \<exists>st'. visit (Suc n) E h st = Inr st'"
proof (induction n arbitrary: h st rule: less_induct)
  case (less n)
  show ?case
  proof (cases "h = [] \<or> h \<in> set (fst st)")
    case False
    have "\<exists>u. visit n E p t = Inr u" if p: "p \<in> set (get_or E h [])" for p t
    proof -
      have key: "h \<in> keys_above E h"
        using False key_with_parents [OF p] by (auto simp: keys_above_def)
      then have "0 < card (keys_above E h)" using keys_above_finite card_gt_0_iff by blast
      then obtain m where m: "n = Suc m" using less.prems(2) by (cases n) auto
      show ?thesis
      proof (cases "p = []")
        case True
        then show ?thesis by (simp add: m)
      next
        case pn: False
        then have ph: "(p, h) \<in> par E" using p False by (simp add: par_def)
        have "\<not> reaches_cycle E p" using less.prems(1) reaches_cycle_parent [OF ph] by blast
        moreover have "card (keys_above E p) \<le> m" using keys_above_parent [OF ph less.prems(1)] less.prems(2) m by simp
        ultimately show ?thesis using less.IH [of m p t] m by simp
      qed
    qed
    from fold_returns [of "get_or E h []", OF this] obtain s where
      "foldE (\<lambda>s p. visit n E p s) st (get_or E h []) = Inr s" by blast
    then show ?thesis using False by (cases s) simp
  qed auto
qed

lemma fold_clean:
  "foldE (\<lambda>s h. visit n E h s) st hs = Inr st' \<Longrightarrow> acyclic_seen E st \<Longrightarrow> list_all (\<lambda>h. \<not> reaches_cycle E h) hs"
proof (induction hs arbitrary: st)
  case (Cons h hs)
  then obtain t where "visit n E h st = Inr t" "foldE (\<lambda>s h. visit n E h s) t hs = Inr st'"
    by (auto simp: bindE_Inr_iff)
  with visit_clean [of n E h st t] Cons show ?case by simp
qed simp

lemma start_inv: "path_inv E ([], [])"
  by (simp add: path_inv_def acyclic_seen_def parents_first_def)

section \<open>Properties\<close>

lemma ancestor_path_returns:
  assumes "\<And>h. h \<in> set hs \<Longrightarrow> \<not> reaches_cycle E h"
  shows "\<exists>p. ancestor_path (Suc (length E + k)) E hs = Inr p"
proof -
  have "\<exists>st. foldE (\<lambda>s h. visit (Suc (length E + k)) E h s) ([], []) hs = Inr st"
    using visit_returns [OF assms] keys_above_card by (intro fold_returns) (meson le_add1 le_trans)
  then show ?thesis by (auto simp: ancestor_path_def simp del: visit.simps)
qed

text \<open>
  With a recursion limit above the number of inventory nodes, the search for ancestors returns
  exactly when no node it starts from descends from a cycle; on an ancestry with a cycle it exceeds
  every limit.
\<close>

theorem ancestor_path_returns_iff:
  "(\<exists>p. ancestor_path (Suc (length E + k)) E hs = Inr p) \<longleftrightarrow> \<not> list_ex (reaches_cycle E) hs"
proof
  assume "\<exists>p. ancestor_path (Suc (length E + k)) E hs = Inr p"
  then obtain st where "foldE (\<lambda>s h. visit (Suc (length E + k)) E h s) ([], []) hs = Inr st"
    by (auto simp: ancestor_path_def bindE_Inr_iff simp del: visit.simps)
  from fold_clean [OF this] show "\<not> list_ex (reaches_cycle E) hs"
    by (simp add: acyclic_seen_def list_all_iff list_ex_iff)
next
  assume "\<not> list_ex (reaches_cycle E) hs"
  then show "\<exists>p. ancestor_path (Suc (length E + k)) E hs = Inr p"
    by (intro ancestor_path_returns) (auto simp: list_ex_iff)
qed

text \<open>
  C36: the path holds exactly the nodes it starts from and their ancestors, each once, and every parent
  comes before its children.
\<close>

theorem ancestor_path_topological:
  assumes "ancestor_path limit E hs = Inr path"
  shows "distinct path \<and> parents_first E path \<and> set path = {a. a \<noteq> [] \<and> (\<exists>h \<in> set hs. (a, h) \<in> (par E)\<^sup>*)}"
proof -
  from assms obtain seen where run: "foldE (\<lambda>s h. visit limit E h s) ([], []) hs = Inr (seen, path)"
    by (auto simp: ancestor_path_def bindE_Inr_iff)
  from fold_inv [OF run start_inv] have inv: "path_inv E (seen, path)"
    and sub: "set path \<subseteq> {a. \<exists>h \<in> set hs. (a, h) \<in> (par E)\<^sup>*}" and starts: "list_all (\<lambda>h. h \<noteq> [] \<longrightarrow> h \<in> set path) hs"
    by auto
  have closed: "a \<in> set path" if "(a, h) \<in> (par E)\<^sup>*" "h \<in> set path" for a h
    using that
  proof (induction rule: converse_rtrancl_induct)
    case (step a b)
    then obtain k where "k < length path" "path ! k = b" by (auto simp: in_set_conv_nth)
    with step inv show ?case by (auto simp: path_inv_def parents_first_def dest: in_set_takeD)
  qed simp
  have "a \<in> set path" if "a \<noteq> []" "h \<in> set hs" "(a, h) \<in> (par E)\<^sup>*" for a h
  proof -
    have "h \<noteq> []" using that(1,3) by (auto simp: par_def elim: rtranclE)
    with starts that(2) have "h \<in> set path" by (auto simp: list_all_iff)
    with closed that(3) show ?thesis by blast
  qed
  then show ?thesis using inv sub by (auto simp: path_inv_def)
qed

lemma ancestor_path_topological_witness:
  "ancestor_path 5 [(''c'', [''a'', ''b'']), (''b'', [''a''])] [''c''] = Inr [''a'', ''b'', ''c'']
   \<and> distinct [''a'', ''b'', ''c''] \<and> parents_first [(''c'', [''a'', ''b'']), (''b'', [''a''])] [''a'', ''b'', ''c'']"
proof -
  have run: "ancestor_path 5 [(''c'', [''a'', ''b'']), (''b'', [''a''])] [''c''] = Inr [''a'', ''b'', ''c'']" by code_simp
  from ancestor_path_topological [OF this] run show ?thesis by blast
qed

end
