(* ===== verification/Mechanism_Map.thy ===== *)
theory Mechanism_Map
  imports Ancestor_Path Terminal_State
begin

text \<open>
  Episodes of a mechanism map over the evidence of a run (\<^verbatim>\<open>scripts/forensic/mechanism_persistence.py\<close>).
  The documents are parsed values; reading and sealing files is not modelled.  The loops over Python
  sets of strings visit them in an order the interpreter does not fix: it is the parameter \<open>enum\<close>,
  which lists the elements of a set given by a list.
\<close>

section \<open>Names and indexes\<close>

definition norm_name :: "pv \<Rightarrow> string" where
  "norm_name v =
     (if v = PNone then []
      else let text = py_str v in if starts_with '':'' text then tl text else text)"

definition norm_of :: "pv \<Rightarrow> string \<Rightarrow> ev_error + string" where
  "norm_of v k = bindE (get_none v k) (\<lambda>x. Inr (norm_name x))"

text \<open>\<^verbatim>\<open>_norm(v.get(a) or v.get(b))\<close>.\<close>

definition norm_either :: "pv \<Rightarrow> string \<Rightarrow> string \<Rightarrow> ev_error + string" where
  "norm_either v a b =
     bindE (get_none v a) (\<lambda>x. if truthy x then Inr (norm_name x) else norm_of v b)"

definition list_at :: "pv \<Rightarrow> string \<Rightarrow> ev_error + pv list" where
  "list_at v k = bindE (get_in v k (PList [])) iter_of"

type_synonym index = "(string \<times> pv list) list"

definition index_append :: "string \<Rightarrow> pv \<Rightarrow> index \<Rightarrow> index" where
  "index_append k v d = dset k (get_or d k [] @ [v]) d"

definition nodes_by_execution_id :: "pv \<Rightarrow> ev_error + index" where
  "nodes_by_execution_id inventory =
     bindE (list_at inventory ''dag/nodes'') (foldE (\<lambda>d node.
       bindE (get_none node ''parse-error'') (\<lambda>e.
       if truthy e then Inr d
       else bindE (norm_of node ''execution-id'') (\<lambda>k. Inr (index_append k node d)))) [])"

definition claims_by_id :: "pv list \<Rightarrow> ev_error + index" where
  "claims_by_id = foldE (\<lambda>d claim.
     bindE (norm_either claim ''result/claim-id'' ''claim/id'') (\<lambda>k.
       Inr (if k \<noteq> [] then index_append k claim d else d))) []"

definition attestations_by_claim_id :: "pv list \<Rightarrow> ev_error + index" where
  "attestations_by_claim_id = foldE (\<lambda>d att.
     bindE (norm_of att ''attestation/claim-id'') (\<lambda>k.
       Inr (if k \<noteq> [] then index_append k att d else d))) []"

definition node_hash :: "pv \<Rightarrow> ev_error + string" where
  "node_hash node = norm_of node ''node-hash''"

definition claim_hash :: "pv \<Rightarrow> ev_error + string" where
  "claim_hash claim = norm_either claim ''result/hash'' ''claim/hash''"

definition attestation_hash :: "pv \<Rightarrow> ev_error + string" where
  "attestation_hash att = norm_either att ''attestation/hash'' ''attestation/id''"

definition parent_edges :: "pv \<Rightarrow> ev_error + edges" where
  "parent_edges inventory =
     bindE (list_at inventory ''dag/nodes'') (foldE (\<lambda>d node.
       bindE (node_hash node) (\<lambda>child.
       if child = [] then Inr d
       else bindE (list_at node ''parent-hashes'') (\<lambda>ps. Inr (dset child (map norm_name (filter truthy ps)) d)))) [])"

section \<open>Scenarios\<close>

definition scenario_applicability :: "pv \<Rightarrow> ev_error + pv list" where
  "scenario_applicability mm = list_at mm ''scenario-applicability''"

definition scenario_ids :: "pv \<Rightarrow> pv option \<Rightarrow> ev_error + string list" where
  "scenario_ids mm benchmark =
     bindE (case benchmark of
              None \<Rightarrow> Inr []
            | Some b \<Rightarrow> if truthy b
                then bindE (bindE (list_at b ''benchmark/scenarios'') (mapE (\<lambda>s. norm_of s ''scenario/id'')))
                       (\<lambda>ids. Inr (filter (\<lambda>i. i \<noteq> []) ids))
                else Inr []) (\<lambda>ids.
     bindE (scenario_applicability mm) (\<lambda>rows.
       foldE (\<lambda>acc row. bindE (norm_of row ''scenario/id'') (\<lambda>i.
         Inr (if i \<noteq> [] \<and> i \<notin> set acc then acc @ [i] else acc))) ids rows))"

fun applicability_in :: "pv list \<Rightarrow> string \<Rightarrow> string \<Rightarrow> ev_error + string" where
  "applicability_in [] sid mid = Inr ''not-applicable''"
| "applicability_in (row # rows) sid mid =
     bindE (norm_of row ''scenario/id'') (\<lambda>i.
     if i \<noteq> sid then applicability_in rows sid mid
     else bindE (sub_dict row ''mechanisms'') (\<lambda>ms.
          bindE (get_none ms mid) (\<lambda>x.
          bindE (if truthy x then Inr x else get_none ms ('':'' @ mid)) (\<lambda>value.
            Inr (if truthy value then norm_name value else ''not-applicable'')))))"

definition applicability_for :: "pv \<Rightarrow> string \<Rightarrow> string \<Rightarrow> ev_error + string" where
  "applicability_for mm sid mid = bindE (scenario_applicability mm) (\<lambda>rows. applicability_in rows sid mid)"

section \<open>Matches\<close>

text \<open>
  A row of the derivation with the failure it gives, if any.  A source group has one source, so the
  evidence lists of the code are the hashes of the rows by source.
\<close>

record matched =
  mt_source :: string
  mt_id :: string
  mt_field :: string
  mt_hash :: string
  mt_by :: string

type_synonym match = "matched \<times> obj option"

definition source_ids :: "pv \<Rightarrow> ev_error + string list" where
  "source_ids grp = bindE (list_at grp ''ids'') (\<lambda>vs. Inr (map norm_name vs))"

record evidence_index =
  ix_nodes :: index
  ix_claims :: index
  ix_attestations :: index

definition match_node :: "string \<Rightarrow> string \<Rightarrow> pv \<Rightarrow> ev_error + match" where
  "match_node map_id sid node =
     bindE (node_hash node) (\<lambda>h.
     bindE (norm_of node ''result-status'') (\<lambda>s.
       Inr (\<lparr>mt_source = ''execution/id'', mt_id = sid, mt_field = ''matched-node'', mt_hash = h, mt_by = map_id\<rparr>,
            if s = ''fail'' \<or> s = ''error''
            then Some [(''failure/type'', PStr ''execution-failed''), (''failed-source'', PStr sid), (''node-hash'', PStr h)]
            else None)))"

definition match_claim :: "string \<Rightarrow> string \<Rightarrow> pv \<Rightarrow> ev_error + match" where
  "match_claim map_id sid claim =
     bindE (claim_hash claim) (\<lambda>h.
     bindE (norm_of claim ''result/status'') (\<lambda>s.
       Inr (\<lparr>mt_source = ''claim/id'', mt_id = sid, mt_field = ''matched-result'', mt_hash = h, mt_by = map_id\<rparr>,
            if s = ''fail''
            then Some [(''failure/type'', PStr ''claim-failed''), (''failed-claim'', PStr sid), (''claim-result-hash'', PStr h)]
            else None)))"

definition match_attestation :: "string \<Rightarrow> string \<Rightarrow> pv \<Rightarrow> ev_error + match" where
  "match_attestation map_id sid att =
     bindE (attestation_hash att) (\<lambda>h.
     bindE (norm_of att ''attestation/claim-result'') (\<lambda>s.
       Inr (\<lparr>mt_source = ''attestation/claim-id'', mt_id = sid, mt_field = ''matched-attestation'', mt_hash = h, mt_by = map_id\<rparr>,
            if s = ''rejected'' \<or> s = ''fail''
            then Some [(''failure/type'', PStr ''attestation-failed''), (''failed-attestation'', PStr h)]
            else None)))"

definition match_all :: "(string \<Rightarrow> pv \<Rightarrow> ev_error + match) \<Rightarrow> index \<Rightarrow> string list \<Rightarrow> ev_error + match list" where
  "match_all f idx ids =
     bindE (mapE (\<lambda>sid. mapE (f sid) (get_or idx sid [])) ids) (\<lambda>rows. Inr (concat rows))"

definition derive_source_matches ::
  "(string list \<Rightarrow> string list) \<Rightarrow> evidence_index \<Rightarrow> string \<Rightarrow> pv \<Rightarrow> ev_error + match list" where
  "derive_source_matches enum X map_id grp =
     bindE (norm_of grp ''source'') (\<lambda>source.
     bindE (source_ids grp) (\<lambda>ids.
       if source = ''execution/id'' then match_all (match_node map_id) (ix_nodes X) (enum ids)
       else if source = ''claim/id'' then match_all (match_claim map_id) (ix_claims X) (enum ids)
       else if source = ''attestation/claim-id'' then match_all (match_attestation map_id) (ix_attestations X) (enum ids)
       else Inr []))"

definition distinct_hashes :: "string list \<Rightarrow> string list" where
  "distinct_hashes xs = foldl (\<lambda>acc v. if v \<noteq> [] \<and> v \<notin> set acc then acc @ [v] else acc) [] xs"

definition hashes_of :: "string \<Rightarrow> match list \<Rightarrow> string list" where
  "hashes_of source rows = distinct_hashes (map (mt_hash \<circ> fst) (filter (\<lambda>r. mt_source (fst r) = source) rows))"

text \<open>\<^verbatim>\<open>_merge_evidence\<close>: no rule fills the event and invariant lists.\<close>

definition merge_evidence :: "match list \<Rightarrow> obj" where
  "merge_evidence rows = (let hashes = (\<lambda>s. PList (map PStr (hashes_of s rows))) in
     [(''node-hashes'', hashes ''execution/id''), (''event-hashes'', PList []),
      (''claim-result-hashes'', hashes ''claim/id''), (''attestation-hashes'', hashes ''attestation/claim-id''),
      (''invariant-result-hashes'', PList [])])"

definition failures_of :: "match list \<Rightarrow> obj list" where
  "failures_of rows = concat (map (\<lambda>r. case snd r of None \<Rightarrow> [] | Some f \<Rightarrow> [f]) rows)"

section \<open>Episodes\<close>

fun groups_status :: "pv list \<Rightarrow> match list \<Rightarrow> ev_error + string" where
  "groups_status [] rows = Inr (if rows \<noteq> [] then ''passed'' else ''not-exercised'')"
| "groups_status (g # gs) rows =
     bindE (norm_of g ''source'') (\<lambda>source.
     bindE (source_ids g) (\<lambda>ids.
       if ids = [] then Inr ''invalid-index''
       else if \<not> list_all (\<lambda>sid. \<exists>r \<in> set rows. mt_source (fst r) = source \<and> mt_id (fst r) = sid) ids
       then Inr ''evidence-missing''
       else groups_status gs rows))"

definition episode_status :: "string \<Rightarrow> pv list \<Rightarrow> match list \<Rightarrow> ev_error + string" where
  "episode_status applicability required rows =
     (if applicability = ''not-applicable'' then Inr ''not-applicable''
      else if applicability = ''optional'' \<and> rows = [] then Inr ''not-exercised''
      else if failures_of rows \<noteq> [] then Inr ''failed''
      else groups_status required rows)"

record episode =
  ep_scenario :: string
  ep_mechanism :: string
  ep_applicability :: string
  ep_path :: "string list"
  ep_status :: string
  ep_rows :: "match list"

record run_context =
  rc_limit :: nat
  rc_enum :: "string list \<Rightarrow> string list"
  rc_map :: pv
  rc_map_id :: string
  rc_index :: evidence_index
  rc_edges :: edges

definition mechanism_rows :: "run_context \<Rightarrow> pv list \<Rightarrow> ev_error + match list" where
  "mechanism_rows R required =
     bindE (mapE (derive_source_matches (rc_enum R) (rc_index R) (rc_map_id R)) required) (\<lambda>parts. Inr (concat parts))"

definition build_episode :: "run_context \<Rightarrow> string \<Rightarrow> pv \<Rightarrow> ev_error + episode" where
  "build_episode R sid mechanism =
     bindE (norm_of mechanism ''mechanism/id'') (\<lambda>mid.
     bindE (applicability_for (rc_map R) sid mid) (\<lambda>applicability.
     bindE (list_at mechanism ''required-sources'') (\<lambda>required.
     bindE (mechanism_rows R required) (\<lambda>rows.
     bindE (episode_status applicability required rows) (\<lambda>status.
     bindE (ancestor_path (rc_limit R) (rc_edges R) (hashes_of ''execution/id'' rows)) (\<lambda>path.
       Inr \<lparr>ep_scenario = sid, ep_mechanism = mid, ep_applicability = applicability, ep_path = path,
            ep_status = status, ep_rows = rows\<rparr>))))))"

definition matched_pv :: "matched \<Rightarrow> pv" where
  "matched_pv m = PDict [(''source'', PStr (mt_source m)), (''id'', PStr (mt_id m)), (mt_field m, PStr (mt_hash m)),
     (''matched-by'', PStr (mt_by m))]"

definition failure_pv :: "episode \<Rightarrow> pv" where
  "failure_pv ep =
     (case failures_of (ep_rows ep) of
        [] \<Rightarrow> PNone
      | f # _ \<Rightarrow> PDict
          [(''failure/type'', py_get f ''failure/type''),
           (''failure/point'', PDict [(''node-hash'', py_get f ''node-hash'')]),
           (''failed-claim'', py_get f ''failed-claim''),
           (''counterexample-path'', PList (map PStr (ep_path ep)))])"

definition episode_pv :: "pv \<Rightarrow> episode \<Rightarrow> pv" where
  "episode_pv benchmark_id ep = PDict
     [(''episode/id'', PStr (ep_scenario ep @ '':'' @ ep_mechanism ep)), (''mechanism/id'', PStr (ep_mechanism ep)),
      (''scenario/id'', PStr (ep_scenario ep)), (''benchmark/id'', benchmark_id),
      (''applicability'', PStr (ep_applicability ep)), (''episode/window'', PNone),
      (''episode/path'', PList (map PStr (ep_path ep))), (''status'', PStr (ep_status ep)),
      (''evidence'', PDict (merge_evidence (ep_rows ep))),
      (''derivation'', PList (map (matched_pv \<circ> fst) (ep_rows ep))), (''failure'', failure_pv ep)]"

section \<open>Artifacts\<close>

definition episode_statuses :: "string list" where
  "episode_statuses = [''passed'', ''failed'', ''not-exercised'', ''not-applicable'', ''inconclusive'', ''evidence-missing'', ''invalid-index'']"

definition status_counts :: "episode list \<Rightarrow> (string \<times> nat) list" where
  "status_counts eps = foldl (\<lambda>d ep. dset (ep_status ep) (get_or d (ep_status ep) 0 + 1) d)
     (map (\<lambda>s. (s, 0)) (sort episode_statuses)) eps"

definition build_episodes :: "run_context \<Rightarrow> string list \<Rightarrow> pv list \<Rightarrow> ev_error + episode list" where
  "build_episodes R scenarios mechanisms =
     bindE (mapE (\<lambda>sid. mapE (build_episode R sid) mechanisms) scenarios) (\<lambda>rows. Inr (concat rows))"

definition benchmark_id_of :: "pv option \<Rightarrow> ev_error + pv" where
  "benchmark_id_of benchmark =
     (case benchmark of
        Some b \<Rightarrow> if truthy b then bindE (norm_of b ''benchmark/id'') (\<lambda>i. Inr (PStr i)) else Inr PNone
      | None \<Rightarrow> Inr PNone)"

text \<open>\<^verbatim>\<open>f"{scenario}|{mechanism}"\<close> keys a dictionary: a repeated key keeps the last episode.\<close>

definition matrix_cells :: "episode list \<Rightarrow> obj" where
  "matrix_cells eps = foldl (\<lambda>d ep. dset (ep_scenario ep @ ''|'' @ ep_mechanism ep)
     (PDict [(''status'', PStr (ep_status ep)), (''applicability'', PStr (ep_applicability ep))]) d) [] eps"

text \<open>The arguments after the interpreter's are the parsed documents and the hash of the map's bytes.\<close>

definition build_mechanism_artifacts ::
  "nat \<Rightarrow> (string list \<Rightarrow> string list) \<Rightarrow> pv \<Rightarrow> string \<Rightarrow> pv option \<Rightarrow> pv \<Rightarrow> pv list \<Rightarrow> pv list \<Rightarrow> ev_error + pv \<times> pv \<times> pv" where
  "build_mechanism_artifacts limit enum mm map_hash benchmark inventory cls atts =
     bindE (norm_of mm ''mechanism-map/id'') (\<lambda>map_id.
     bindE (get_none mm ''mechanism-map/version'') (\<lambda>version.
     bindE (nodes_by_execution_id inventory) (\<lambda>nodes.
     bindE (claims_by_id cls) (\<lambda>by_claim.
     bindE (attestations_by_claim_id atts) (\<lambda>by_att.
     bindE (parent_edges inventory) (\<lambda>edges.
     bindE (scenario_ids mm benchmark) (\<lambda>scenarios.
     bindE (if scenarios = [] then Inr [] else list_at mm ''mechanisms'') (\<lambda>mechanisms.
     bindE (build_episodes
              \<lparr>rc_limit = limit, rc_enum = enum, rc_map = mm, rc_map_id = map_id,
               rc_index = \<lparr>ix_nodes = nodes, ix_claims = by_claim, ix_attestations = by_att\<rparr>, rc_edges = edges\<rparr>
              scenarios mechanisms) (\<lambda>eps.
     bindE (if eps = [] then Inr PNone else benchmark_id_of benchmark) (\<lambda>bid.
     bindE (get_in mm ''mechanisms'' (PList [])) (\<lambda>ms.
     bindE (bindE (iter_of ms) (mapE (\<lambda>m. norm_of m ''mechanism/id''))) (\<lambda>mids.
     bindE (len_of ms) (\<lambda>mcount.
     let head = (\<lambda>schema. [(''schema-version'', PStr schema), (''mechanism-map/version'', version), (''mechanism-map/hash'', PStr map_hash)])
     in Inr
      (PDict (head ''mechanism-persistence-index.v1'' @ [(''mechanisms'', ms), (''episodes'', PList (map (episode_pv bid) eps))]),
       PDict (head ''mechanism-persistence-summary.v1'' @
         [(''episode-count'', PInt (int (length eps))),
          (''status-counts'', PDict (map (\<lambda>(s, n). (s, PInt (int n))) (status_counts eps))),
          (''mechanism-count'', PInt (int mcount)), (''scenario-count'', PInt (int (length scenarios)))]),
       PDict (head ''mechanism-scenario-matrix.v1'' @
         [(''scenarios'', PList (map PStr scenarios)), (''mechanisms'', PList (map PStr mids)),
          (''cells'', PDict (matrix_cells eps))])))))))))))))))"

end
