(* ===== verification/Mechanism_Theorems.thy ===== *)
theory Mechanism_Theorems
  imports Mechanism_Map
begin

text \<open>
  What the status of an episode means, that it does not depend on the order in which Python visits its
  sets, and that the status counts account for every episode.
\<close>

section \<open>Rows\<close>

definition set_order :: "(string list \<Rightarrow> string list) \<Rightarrow> bool" where
  "set_order enum \<longleftrightarrow> (\<forall>xs. set (enum xs) = set xs \<and> distinct (enum xs))"

text \<open>The records of the run's evidence a source names, and when one of them does not fail.\<close>

definition records :: "evidence_index \<Rightarrow> string \<Rightarrow> string \<Rightarrow> pv list" where
  "records X source sid =
     (if source = ''execution/id'' then get_or (ix_nodes X) sid []
      else if source = ''claim/id'' then get_or (ix_claims X) sid []
      else if source = ''attestation/claim-id'' then get_or (ix_attestations X) sid []
      else [])"

definition record_passes :: "string \<Rightarrow> pv \<Rightarrow> bool" where
  "record_passes source r \<longleftrightarrow>
     (if source = ''execution/id'' then norm_of r ''result-status'' \<notin> {Inr ''fail'', Inr ''error''}
      else if source = ''claim/id'' then norm_of r ''result/status'' \<noteq> Inr ''fail''
      else norm_of r ''attestation/claim-result'' \<notin> {Inr ''rejected'', Inr ''fail''})"

definition match_record :: "string \<Rightarrow> string \<Rightarrow> string \<Rightarrow> pv \<Rightarrow> ev_error + match" where
  "match_record map_id source =
     (if source = ''execution/id'' then match_node map_id
      else if source = ''claim/id'' then match_claim map_id else match_attestation map_id)"

lemma match_record_Inr:
  assumes "match_record map_id source sid x = Inr r" and "x \<in> set (records X source sid)"
  shows "mt_source (fst r) = source \<and> mt_id (fst r) = sid \<and> (record_passes source x \<longleftrightarrow> snd r = None)"
  using assms
  by (auto simp: match_record_def match_node_def match_claim_def match_attestation_def record_passes_def records_def
      bindE_Inr_iff split: if_splits)

lemma match_all_total:
  assumes "match_all f idx ids = Inr rows" and "sid \<in> set ids" and "x \<in> set (get_or idx sid [])"
  shows "\<exists>r \<in> set rows. f sid x = Inr r"
proof -
  from assms(1) obtain parts where p: "mapE (\<lambda>sid. mapE (f sid) (get_or idx sid [])) ids = Inr parts" "rows = concat parts"
    by (auto simp: match_all_def bindE_Inr_iff)
  from mapE_source_in [OF p(1) assms(2)] obtain part where "part \<in> set parts" "mapE (f sid) (get_or idx sid []) = Inr part" by blast
  with mapE_source_in [OF this(2) assms(3)] p(2) show ?thesis by auto
qed

lemma match_all_source:
  assumes "match_all f idx ids = Inr rows" and "r \<in> set rows"
  shows "\<exists>sid \<in> set ids. \<exists>x \<in> set (get_or idx sid []). f sid x = Inr r"
proof -
  from assms obtain parts where p: "mapE (\<lambda>sid. mapE (f sid) (get_or idx sid [])) ids = Inr parts" "rows = concat parts"
    by (auto simp: match_all_def bindE_Inr_iff)
  with assms(2) obtain part where part: "part \<in> set parts" "r \<in> set part" by auto
  from mapE_result_in [OF p(1) part(1)] obtain sid where "sid \<in> set ids" "mapE (f sid) (get_or idx sid []) = Inr part" by blast
  with mapE_result_in [OF this(2) part(2)] show ?thesis by blast
qed

lemma match_all_set:
  assumes "match_all f idx ids = Inr rows"
  shows "set rows = {r. \<exists>sid \<in> set ids. \<exists>x \<in> set (get_or idx sid []). f sid x = Inr r}"
  using match_all_source [OF assms] match_all_total [OF assms] by fastforce

lemma derive_rows:
  assumes "derive_source_matches enum X map_id grp = Inr rows" and "set_order enum"
  shows "\<exists>source ids. norm_of grp ''source'' = Inr source \<and> source_ids grp = Inr ids
    \<and> set rows = {r. \<exists>sid \<in> set ids. \<exists>x \<in> set (records X source sid). match_record map_id source sid x = Inr r}
    \<and> (\<forall>sid \<in> set ids. \<forall>x \<in> set (records X source sid). \<exists>r \<in> set rows. match_record map_id source sid x = Inr r)"
proof -
  from assms(1) obtain source ids where s: "norm_of grp ''source'' = Inr source" "source_ids grp = Inr ids"
    by (auto simp: derive_source_matches_def bindE_Inr_iff)
  have e: "set (enum ids) = set ids" using assms(2) by (simp add: set_order_def)
  show ?thesis
  proof (intro exI conjI)
    show "norm_of grp ''source'' = Inr source" "source_ids grp = Inr ids" by fact+
    consider "source = ''execution/id''" | "source = ''claim/id''" | "source = ''attestation/claim-id''"
      | "source \<notin> {''execution/id'', ''claim/id'', ''attestation/claim-id''}" by blast
    then have "set rows = {r. \<exists>sid \<in> set ids. \<exists>x \<in> set (records X source sid). match_record map_id source sid x = Inr r}
      \<and> (\<forall>sid \<in> set ids. \<forall>x \<in> set (records X source sid). \<exists>r \<in> set rows. match_record map_id source sid x = Inr r)"
    proof cases
      case 1
      then have run: "match_all (match_node map_id) (ix_nodes X) (enum ids) = Inr rows"
        using assms(1) s by (simp add: derive_source_matches_def)
      show ?thesis using match_all_set [OF run] match_all_total [OF run] 1 e by (simp add: records_def match_record_def)
    next
      case 2
      then have run: "match_all (match_claim map_id) (ix_claims X) (enum ids) = Inr rows"
        using assms(1) s by (simp add: derive_source_matches_def)
      show ?thesis using match_all_set [OF run] match_all_total [OF run] 2 e by (simp add: records_def match_record_def)
    next
      case 3
      then have run: "match_all (match_attestation map_id) (ix_attestations X) (enum ids) = Inr rows"
        using assms(1) s by (simp add: derive_source_matches_def)
      show ?thesis using match_all_set [OF run] match_all_total [OF run] 3 e by (simp add: records_def match_record_def)
    next
      case 4
      then show ?thesis using assms(1) s by (simp add: derive_source_matches_def records_def)
    qed
    then show "set rows = {r. \<exists>sid \<in> set ids. \<exists>x \<in> set (records X source sid). match_record map_id source sid x = Inr r}"
      "\<forall>sid \<in> set ids. \<forall>x \<in> set (records X source sid). \<exists>r \<in> set rows. match_record map_id source sid x = Inr r" by blast+
  qed
qed

section \<open>Statuses\<close>

lemma failures_of_empty: "failures_of rows = [] \<longleftrightarrow> list_all (\<lambda>r. snd r = None) rows"
  by (auto simp: failures_of_def list_all_iff split: option.splits)

lemma mechanism_rows_Inr:
  assumes "mechanism_rows R required = Inr rows"
  shows "(\<forall>g \<in> set required. \<exists>part. derive_source_matches (rc_enum R) (rc_index R) (rc_map_id R) g = Inr part \<and> set part \<subseteq> set rows)
    \<and> (\<forall>r \<in> set rows. \<exists>g \<in> set required. \<exists>part. derive_source_matches (rc_enum R) (rc_index R) (rc_map_id R) g = Inr part \<and> r \<in> set part)"
proof -
  from assms obtain parts where p: "mapE (derive_source_matches (rc_enum R) (rc_index R) (rc_map_id R)) required = Inr parts" "rows = concat parts"
    by (auto simp: mechanism_rows_def bindE_Inr_iff)
  show ?thesis
  proof (intro conjI ballI)
    fix g assume "g \<in> set required"
    from mapE_source_in [OF p(1) this] p(2)
    show "\<exists>part. derive_source_matches (rc_enum R) (rc_index R) (rc_map_id R) g = Inr part \<and> set part \<subseteq> set rows" by auto
  next
    fix r assume "r \<in> set rows"
    then obtain part where part: "part \<in> set parts" "r \<in> set part" using p(2) by auto
    with mapE_result_in [OF p(1) part(1)]
    show "\<exists>g \<in> set required. \<exists>part. derive_source_matches (rc_enum R) (rc_index R) (rc_map_id R) g = Inr part \<and> r \<in> set part"
      by blast
  qed
qed

lemma groups_passed:
  "groups_status gs rows = Inr ''passed'' \<Longrightarrow> g \<in> set gs \<Longrightarrow>
     \<exists>source ids. norm_of g ''source'' = Inr source \<and> source_ids g = Inr ids \<and> ids \<noteq> []
       \<and> list_all (\<lambda>sid. \<exists>r \<in> set rows. mt_source (fst r) = source \<and> mt_id (fst r) = sid) ids"
  by (induction gs) (auto simp: bindE_Inr_iff split: if_splits)

lemma groups_rows: "groups_status gs rows = Inr ''passed'' \<Longrightarrow> rows \<noteq> []"
  by (induction gs) (auto simp: bindE_Inr_iff split: if_splits)

text \<open>All records a required group names are there and pass.\<close>

definition vouched :: "evidence_index \<Rightarrow> pv \<Rightarrow> bool" where
  "vouched X grp \<longleftrightarrow> (\<exists>source ids. norm_of grp ''source'' = Inr source \<and> source_ids grp = Inr ids \<and> ids \<noteq> []
     \<and> list_all (\<lambda>sid. records X source sid \<noteq> [] \<and> list_all (record_passes source) (records X source sid)) ids)"

text \<open>
  An episode has the status passed only when the mechanism applies, at least one record supports it
  and every required group is vouched for: it names at least one id, and for each of its ids the run
  holds records of that source, none of which failed.
\<close>

theorem passed_episode_vouched:
  assumes "set_order (rc_enum R)" and "build_episode R sid mechanism = Inr ep" and "ep_status ep = ''passed''"
  shows "\<exists>required. list_at mechanism ''required-sources'' = Inr required \<and> list_all (vouched (rc_index R)) required
    \<and> ep_rows ep \<noteq> [] \<and> ep_applicability ep \<noteq> ''not-applicable''"
proof -
  from assms(2) obtain mid required where req: "list_at mechanism ''required-sources'' = Inr required"
    and rows: "mechanism_rows R required = Inr (ep_rows ep)"
    and st: "episode_status (ep_applicability ep) required (ep_rows ep) = Inr (ep_status ep)"
    by (auto simp: build_episode_def bindE_Inr_iff)
  from st assms(3) have applies: "ep_applicability ep \<noteq> ''not-applicable''" and nofail: "failures_of (ep_rows ep) = []"
    and groups: "groups_status required (ep_rows ep) = Inr ''passed''"
    by (auto simp: episode_status_def split: if_splits)
  note mr = mechanism_rows_Inr [OF rows]
  have "vouched (rc_index R) g" if g: "g \<in> set required" for g
  proof -
    from groups_passed [OF groups g] obtain source ids where
      s: "norm_of g ''source'' = Inr source" "source_ids g = Inr ids" "ids \<noteq> []"
      and m: "list_all (\<lambda>sid. \<exists>r \<in> set (ep_rows ep). mt_source (fst r) = source \<and> mt_id (fst r) = sid) ids" by blast
    from mr g obtain part where part: "derive_source_matches (rc_enum R) (rc_index R) (rc_map_id R) g = Inr part"
      "set part \<subseteq> set (ep_rows ep)" by blast
    from derive_rows [OF part(1) assms(1)] s have total:
      "\<forall>i \<in> set ids. \<forall>x \<in> set (records (rc_index R) source i). \<exists>r \<in> set part. match_record (rc_map_id R) source i x = Inr r" by auto
    have "records (rc_index R) source i \<noteq> [] \<and> list_all (record_passes source) (records (rc_index R) source i)"
      if i: "i \<in> set ids" for i
    proof
      from m i obtain r where r: "r \<in> set (ep_rows ep)" "mt_source (fst r) = source" "mt_id (fst r) = i"
        by (auto simp: list_all_iff)
      from mr r(1) obtain g' part' where g': "derive_source_matches (rc_enum R) (rc_index R) (rc_map_id R) g' = Inr part'" "r \<in> set part'" by blast
      from derive_rows [OF g'(1) assms(1)] g'(2) obtain source' i' x where
        x: "x \<in> set (records (rc_index R) source' i')" "match_record (rc_map_id R) source' i' x = Inr r" by auto
      with match_record_Inr [OF x(2,1)] r show "records (rc_index R) source i \<noteq> []" by auto
      have "record_passes source x" if x: "x \<in> set (records (rc_index R) source i)" for x
      proof -
        from total i x obtain r where r: "r \<in> set part" "match_record (rc_map_id R) source i x = Inr r" by blast
        with part(2) nofail have "snd r = None" by (auto simp: failures_of_empty list_all_iff)
        with match_record_Inr [OF r(2) x] show ?thesis by simp
      qed
      then show "list_all (record_passes source) (records (rc_index R) source i)" by (simp add: list_all_iff)
    qed
    then show ?thesis using s unfolding vouched_def by (auto simp: list_all_iff)
  qed
  then show ?thesis using req applies groups_rows [OF groups] by (auto simp: list_all_iff)
qed

section \<open>The order of sets\<close>

lemma groups_status_set: "set rows = set rows' \<Longrightarrow> groups_status gs rows = groups_status gs rows'"
proof (induction gs)
  case Nil
  then have "rows = [] \<longleftrightarrow> rows' = []" by (metis set_empty)
  then show ?case by simp
qed (simp cong del: if_weak_cong)

lemma derive_rows_set:
  assumes "derive_source_matches enum X map_id grp = Inr rows" and "derive_source_matches enum' X map_id grp = Inr rows'"
    and "set_order enum" and "set_order enum'"
  shows "set rows = set rows'"
  using derive_rows [OF assms(1,3)] derive_rows [OF assms(2,4)] by auto

lemma mechanism_rows_set:
  assumes "mechanism_rows R required = Inr rows" and "mechanism_rows (R\<lparr>rc_enum := enum\<rparr>) required = Inr rows'"
    and "set_order (rc_enum R)" and "set_order enum"
  shows "set rows = set rows'"
proof -
  note a = mechanism_rows_Inr [OF assms(1)] and b = mechanism_rows_Inr [OF assms(2)]
  have "r \<in> set rows'" if r: "r \<in> set rows" for r
  proof -
    from a r obtain g part where g: "g \<in> set required" "r \<in> set part"
      "derive_source_matches (rc_enum R) (rc_index R) (rc_map_id R) g = Inr part" by blast
    with b obtain part' where "derive_source_matches enum (rc_index R) (rc_map_id R) g = Inr part'" "set part' \<subseteq> set rows'" by fastforce
    with derive_rows_set [OF g(3) this(1) assms(3,4)] g(2) show ?thesis by blast
  qed
  moreover have "r \<in> set rows" if r: "r \<in> set rows'" for r
  proof -
    from b r obtain g part where g: "g \<in> set required" "r \<in> set part"
      "derive_source_matches enum (rc_index R) (rc_map_id R) g = Inr part" by fastforce
    with a obtain part' where "derive_source_matches (rc_enum R) (rc_index R) (rc_map_id R) g = Inr part'" "set part' \<subseteq> set rows" by blast
    with derive_rows_set [OF this(1) g(3) assms(3,4)] g(2) show ?thesis by blast
  qed
  ultimately show ?thesis by blast
qed

text \<open>
  The status and the applicability of an episode do not depend on the order in which the
  interpreter visits the sets of source ids, although the derivation it lists does.
\<close>

theorem episode_status_order_independent:
  assumes "set_order (rc_enum R)" and "set_order enum"
    and "build_episode R sid mechanism = Inr ep" and "build_episode (R\<lparr>rc_enum := enum\<rparr>) sid mechanism = Inr ep'"
  shows "ep_status ep' = ep_status ep \<and> ep_applicability ep' = ep_applicability ep \<and> set (ep_rows ep') = set (ep_rows ep)"
proof -
  from assms(3) obtain mid required where
    a: "norm_of mechanism ''mechanism/id'' = Inr mid" "applicability_for (rc_map R) sid mid = Inr (ep_applicability ep)"
      "list_at mechanism ''required-sources'' = Inr required" "mechanism_rows R required = Inr (ep_rows ep)"
      "episode_status (ep_applicability ep) required (ep_rows ep) = Inr (ep_status ep)"
    by (auto simp: build_episode_def bindE_Inr_iff)
  from assms(4) a(1,3) have
    b: "applicability_for (rc_map R) sid mid = Inr (ep_applicability ep')"
      "mechanism_rows (R\<lparr>rc_enum := enum\<rparr>) required = Inr (ep_rows ep')"
      "episode_status (ep_applicability ep') required (ep_rows ep') = Inr (ep_status ep')"
    by (auto simp: build_episode_def bindE_Inr_iff)
  have rows: "set (ep_rows ep) = set (ep_rows ep')" by (rule mechanism_rows_set [OF a(4) b(2) assms(1,2)])
  then have "ep_rows ep = [] \<longleftrightarrow> ep_rows ep' = []" by (metis set_empty)
  moreover have "failures_of (ep_rows ep) = [] \<longleftrightarrow> failures_of (ep_rows ep') = []"
    using rows by (simp add: failures_of_empty list_all_iff)
  moreover have "ep_applicability ep' = ep_applicability ep" using a(2) b(1) by simp
  ultimately have "episode_status (ep_applicability ep') required (ep_rows ep') = episode_status (ep_applicability ep) required (ep_rows ep)"
    using groups_status_set [OF rows] by (simp add: episode_status_def)
  then show ?thesis using a(5) b(3) rows \<open>ep_applicability ep' = ep_applicability ep\<close> by simp
qed

section \<open>Counts\<close>

lemma in_episode_statuses:
  "''not-applicable'' \<in> set episode_statuses" "''not-exercised'' \<in> set episode_statuses" "''failed'' \<in> set episode_statuses"
  "''passed'' \<in> set episode_statuses" "''invalid-index'' \<in> set episode_statuses" "''evidence-missing'' \<in> set episode_statuses"
  by (simp_all add: episode_statuses_def)

lemma groups_status_valid: "groups_status gs rows = Inr s \<Longrightarrow> s \<in> set episode_statuses"
proof (induction gs)
  case Nil
  then show ?case by (cases "rows = []") (simp_all add: in_episode_statuses, (metis in_episode_statuses)+)
next
  case (Cons g gs)
  then show ?case by (fastforce simp: bindE_Inr_iff in_episode_statuses simp del: set_simps split: if_split_asm)
qed

lemma episode_status_valid:
  assumes "episode_status a gs rows = Inr s"
  shows "s \<in> set episode_statuses"
proof -
  consider "s = ''not-applicable''" | "s = ''not-exercised''" | "s = ''failed''" | "groups_status gs rows = Inr s"
    using assms unfolding episode_status_def by (metis sum.inject(2))
  then show ?thesis using in_episode_statuses groups_status_valid by cases blast+
qed

lemma count_update:
  "distinct (map fst d) \<Longrightarrow> k \<in> set (map fst d) \<Longrightarrow>
     map fst (dset k (get_or d k 0 + 1) d) = map fst d
     \<and> sum_list (map snd (dset k (get_or d k 0 + 1) d)) = Suc (sum_list (map snd d))"
  by (induction d) (auto simp: get_or_def)

lemma count_fold:
  "distinct (map fst d) \<Longrightarrow> list_all (\<lambda>ep. ep_status ep \<in> set (map fst d)) eps \<Longrightarrow>
     (let d' = foldl (\<lambda>d ep. dset (ep_status ep) (get_or d (ep_status ep) 0 + 1) d) d eps
      in map fst d' = map fst d \<and> sum_list (map snd d') = sum_list (map snd d) + length eps)"
proof (induction eps arbitrary: d)
  case (Cons ep eps)
  let ?d = "dset (ep_status ep) (get_or d (ep_status ep) 0 + 1) d"
  have u: "map fst ?d = map fst d" "sum_list (map snd ?d) = Suc (sum_list (map snd d))"
    using count_update [of d "ep_status ep"] Cons.prems by simp_all
  have "distinct (map fst ?d)" "list_all (\<lambda>ep. ep_status ep \<in> set (map fst ?d)) eps"
    using Cons.prems by (simp_all only: u) simp
  from Cons.IH [OF this] show ?case using u by (simp add: Let_def)
qed (simp add: Let_def)

text \<open>
  C40: every episode has one of the declared statuses, so the status counts have exactly the declared
  keys and add up to the number of episodes.
\<close>

theorem status_counts_complete:
  assumes "build_episodes R scenarios mechanisms = Inr eps"
  shows "list_all (\<lambda>ep. ep_status ep \<in> set episode_statuses) eps
    \<and> map fst (status_counts eps) = sort episode_statuses \<and> sum_list (map snd (status_counts eps)) = length eps"
proof -
  from assms obtain parts where p: "mapE (\<lambda>sid. mapE (build_episode R sid) mechanisms) scenarios = Inr parts" "eps = concat parts"
    by (auto simp: build_episodes_def bindE_Inr_iff)
  have "ep_status ep \<in> set episode_statuses" if "ep \<in> set eps" for ep
  proof -
    from that p(2) obtain part where part: "part \<in> set parts" "ep \<in> set part" by auto
    from mapE_result_in [OF p(1) part(1)] obtain sid where "mapE (build_episode R sid) mechanisms = Inr part" by blast
    from mapE_result_in [OF this part(2)] obtain m where "build_episode R sid m = Inr ep" by blast
    then obtain a gs rows where "episode_status a gs rows = Inr (ep_status ep)"
      by (auto simp: build_episode_def bindE_Inr_iff)
    then show ?thesis by (rule episode_status_valid)
  qed
  then have valid: "list_all (\<lambda>ep. ep_status ep \<in> set episode_statuses) eps" by (simp add: list_all_iff)
  have "distinct (map fst (map (\<lambda>s. (s, 0 :: nat)) (sort episode_statuses)))"
    by (simp add: comp_def) (simp add: episode_statuses_def)
  from count_fold [OF this, of eps] valid show ?thesis
    by (simp add: status_counts_def Let_def comp_def sum_list_replicate map_replicate_const)
qed

section \<open>A run\<close>

definition sample_mechanism :: pv where
  "sample_mechanism = PDict
     [(''mechanism/id'', PStr '':slashing''),
      (''required-sources'', PList
        [PDict [(''source'', PStr '':execution/id''), (''ids'', PList [PStr ''s1'', PStr '':s2''])],
         PDict [(''source'', PStr ''claim/id''), (''ids'', PList [PStr ''c1''])]])]"

definition sample_context :: run_context where
  "sample_context =
     \<lparr>rc_limit = 1000, rc_enum = remdups,
      rc_map = PDict [(''scenario-applicability'', PList
        [PDict [(''scenario/id'', PStr ''base''), (''mechanisms'', PDict [(''slashing'', PStr '':required'')])]])],
      rc_map_id = ''m1'',
      rc_index = \<lparr>ix_nodes = [(''s1'', [PDict [(''node-hash'', PStr ''h1''), (''result-status'', PStr ''pass'')]]),
                             (''s2'', [PDict [(''node-hash'', PStr ''h2''), (''result-status'', PStr ''pass'')]])],
                  ix_claims = [(''c1'', [PDict [(''result/hash'', PStr ''k1''), (''result/status'', PStr ''pass'')]])],
                  ix_attestations = []\<rparr>,
      rc_edges = [(''h2'', [''h1''])]\<rparr>"

lemma set_order_remdups: "set_order remdups" "set_order (rev \<circ> remdups)"
  by (simp_all add: set_order_def)

definition sample_episode :: episode where
  "sample_episode = projr (build_episode sample_context ''base'' sample_mechanism)"

definition sample_episode_rev :: episode where
  "sample_episode_rev = projr (build_episode (sample_context\<lparr>rc_enum := rev \<circ> remdups\<rparr>) ''base'' sample_mechanism)"

lemma sample_episode_built:
  "build_episode sample_context ''base'' sample_mechanism = Inr sample_episode" "ep_status sample_episode = ''passed''"
  by code_simp+

lemma sample_episode_rev_built:
  "build_episode (sample_context\<lparr>rc_enum := rev \<circ> remdups\<rparr>) ''base'' sample_mechanism = Inr sample_episode_rev"
  "ep_rows sample_episode_rev \<noteq> ep_rows sample_episode"
  by code_simp+

lemma passed_episode_vouched_witness:
  "ep_status sample_episode = ''passed'' \<and> ep_rows sample_episode \<noteq> []"
proof -
  have "set_order (rc_enum sample_context)" by (simp add: sample_context_def set_order_remdups)
  from passed_episode_vouched [OF this sample_episode_built] show ?thesis using sample_episode_built by blast
qed

lemma episode_status_order_independent_witness:
  "ep_rows sample_episode_rev \<noteq> ep_rows sample_episode \<and> ep_status sample_episode_rev = ep_status sample_episode"
proof -
  have "set_order (rc_enum sample_context)" by (simp add: sample_context_def set_order_remdups)
  from episode_status_order_independent [OF this set_order_remdups(2) sample_episode_built(1) sample_episode_rev_built(1)]
  show ?thesis using sample_episode_rev_built(2) by blast
qed

lemma status_counts_complete_witness:
  "\<exists>eps. build_episodes sample_context [''base'', ''other''] [sample_mechanism] = Inr eps
     \<and> sum_list (map snd (status_counts eps)) = length eps \<and> length eps = 2"
proof -
  define eps where "eps = projr (build_episodes sample_context [''base'', ''other''] [sample_mechanism])"
  have run: "build_episodes sample_context [''base'', ''other''] [sample_mechanism] = Inr eps" and two: "length eps = 2"
    unfolding eps_def by code_simp+
  from status_counts_complete [OF run] run two show ?thesis by blast
qed

end
