(* ===== verification/Run_Directory.thy ===== *)
theory Run_Directory
  imports Mailbox_Store Py_Read
begin

text \<open>
  The run directory that \<^verbatim>\<open>scripts/forensic/verify.py\<close> examines, and the checks it makes of the presence,
  the shape and the hashes of the documents in it.

  A directory is the list of its entries in the order of \<^verbatim>\<open>iterdir\<close>, each with the path below the run
  directory.  A file is its parsed JSON value, or a file that \<^verbatim>\<open>json.loads\<close> rejects.  Texts that the
  interpreter makes (the message of a caught exception) and paths outside the directory are fields of
  the record.  The hash is the parameter \<^const>\<open>sha256_text\<close>.
\<close>

section \<open>Directories\<close>

datatype entry = Folder | Document pv | Unreadable

record bundle_dir =
  place :: string
  entries :: "(path \<times> entry) list"
  beyond :: "string \<Rightarrow> bool"
  exception_text :: "path \<Rightarrow> string"

definition entry_exists :: "bundle_dir \<Rightarrow> path \<Rightarrow> bool" where
  "entry_exists W p \<longleftrightarrow> has_key (entries W) p"

definition is_folder :: "bundle_dir \<Rightarrow> path \<Rightarrow> bool" where
  "is_folder W p \<longleftrightarrow> map_of (entries W) p = Some Folder"

definition load_at :: "bundle_dir \<Rightarrow> path \<Rightarrow> pv option" where
  "load_at W p = (case map_of (entries W) p of Some (Document v) \<Rightarrow> Some v | _ \<Rightarrow> None)"

definition names_in :: "bundle_dir \<Rightarrow> path \<Rightarrow> string list" where
  "names_in W d = map last (filter (\<lambda>p. p \<noteq> [] \<and> butlast p = d) (map fst (entries W)))"

text \<open>\<^verbatim>\<open>[f for f in d.iterdir() if f.is_file()]\<close>, and those with a suffix.\<close>

definition files_in :: "bundle_dir \<Rightarrow> path \<Rightarrow> string list" where
  "files_in W d = filter (\<lambda>n. \<not> is_folder W (d @ [n])) (names_in W d)"

definition json_files_in :: "bundle_dir \<Rightarrow> path \<Rightarrow> string list" where
  "json_files_in W d = filter has_json_suffix (files_in W d)"

definition full_path :: "bundle_dir \<Rightarrow> string \<Rightarrow> string" where
  "full_path W rel = place W @ ''/'' @ rel"

section \<open>Checks\<close>

record run_check =
  ck_key :: string
  ck_status :: string
  ck_message :: string
  ck_severity :: string

definition mk_rcheck :: "string \<Rightarrow> string \<Rightarrow> string \<Rightarrow> string \<Rightarrow> run_check" where
  "mk_rcheck k st msg sev = \<lparr>ck_key = k, ck_status = st, ck_message = msg, ck_severity = sev\<rparr>"

definition check_pv :: "run_check \<Rightarrow> pv" where
  "check_pv c = PDict [(''check/key'', PStr (ck_key c)), (''check/status'', PStr (ck_status c)),
     (''check/message'', PStr (ck_message c)), (''check/severity'', PStr (ck_severity c))]"

lemma mk_rcheck_simps [simp]:
  "ck_key (mk_rcheck k st msg sev) = k" "ck_status (mk_rcheck k st msg sev) = st"
  "ck_message (mk_rcheck k st msg sev) = msg" "ck_severity (mk_rcheck k st msg sev) = sev"
  by (simp_all add: mk_rcheck_def)

definition bad :: "run_check \<Rightarrow> bool" where
  "bad c \<longleftrightarrow> ck_severity c = ''required'' \<and> ck_status c = ''fail''"

lemma bad_mk_check [simp]: "bad (mk_rcheck k st msg sev) \<longleftrightarrow> sev = ''required'' \<and> st = ''fail''"
  by (simp add: bad_def)

section \<open>Presence\<close>

definition required_files :: "string list" where
  "required_files = [''preflight-report.json'', ''source-snapshot.json'', ''environment.json'', ''input-manifest.json'',
     ''run-overview.json'', ''run-bundle-root.json'']"

definition optional_files :: "string list" where
  "optional_files = [''run-request.json'', ''registry-snapshot.json'', ''evidence-policy.edn'', ''run-output.log'',
     ''run-output.json'', ''results-summary.json'', ''evidence-dag-inventory.json'', ''deps.edn'', ''clojure-bundle-root.json'']"

definition mechanism_derived_files :: "string list" where
  "mechanism_derived_files = [''mechanism-persistence-index.json'', ''mechanism-persistence-summary.json'',
     ''mechanism-scenario-matrix.json'']"

definition optional_dirs :: "string list" where
  "optional_dirs = [''scenarios'']"

definition required_dirs :: "string list" where
  "required_dirs = [''evidence-dag'', ''claims'', ''attestations'', ''anchors'']"

definition dashed :: "string \<Rightarrow> string" where
  "dashed rel = map (\<lambda>c. if c = CHR ''/'' then CHR ''-'' else c) rel"

definition check_exists :: "bundle_dir \<Rightarrow> string \<Rightarrow> string \<Rightarrow> run_check" where
  "check_exists W rel sev =
     (let key = ''file-exists-'' @ dashed rel in
      if entry_exists W (path_parts rel) then mk_rcheck key ''pass'' (rel @ '' exists'') sev
      else if sev = ''info'' then mk_rcheck key ''info'' (''Optional '' @ rel @ '' not found at '' @ full_path W rel) sev
      else mk_rcheck key ''fail'' (rel @ '' not found at '' @ full_path W rel) sev)"

definition check_dir_exists :: "bundle_dir \<Rightarrow> string \<Rightarrow> run_check" where
  "check_dir_exists W rel =
     (let key = ''dir-exists-'' @ dashed rel in
      if entry_exists W (path_parts rel) \<and> is_folder W (path_parts rel)
      then mk_rcheck key ''pass'' (''Directory '' @ rel @ ''/ exists'') ''required''
      else mk_rcheck key ''fail'' (''Directory '' @ rel @ ''/ not found at '' @ full_path W rel) ''required'')"

definition check_dir_has_json :: "bundle_dir \<Rightarrow> string \<Rightarrow> run_check" where
  "check_dir_has_json W rel =
     (let key = ''dir-has-files-'' @ dashed rel; files = json_files_in W (path_parts rel) in
      if \<not> is_folder W (path_parts rel) then mk_rcheck key ''fail'' (''Directory '' @ rel @ ''/ not found'') ''required''
      else if files = [] then mk_rcheck key ''fail'' (''Directory '' @ rel @ ''/ exists but contains no .json files'') ''required''
      else mk_rcheck key ''pass'' (''Directory '' @ rel @ ''/ contains '' @ nat_str (length files) @ '' .json file(s)'') ''required'')"

definition check_no_extra_dirs :: "bundle_dir \<Rightarrow> run_check" where
  "check_no_extra_dirs W =
     (let known = required_files @ optional_files @ mechanism_derived_files
            @ map (\<lambda>d. d @ ''/'') required_dirs @ map (\<lambda>d. d @ ''/'') optional_dirs;
          extra = filter (\<lambda>n. (if is_folder W [n] then n @ ''/'' else n) \<notin> set known) (names_in W [])
      in if extra \<noteq> []
         then mk_rcheck ''no-extra-entries'' ''info'' (''Extra entries in run dir: '' @ py_repr (PList (map PStr extra))) ''info''
         else mk_rcheck ''no-extra-entries'' ''pass'' ''No unexpected entries in run directory'' ''info'')"

section \<open>Documents read under an exception handler\<close>

text \<open>
  \<^verbatim>\<open>try: data = json.loads(...) ... except Exception as e\<close>: the body sees the parsed value, and any
  exception makes the check fail with its text.
\<close>

definition guarded :: "bundle_dir \<Rightarrow> string \<Rightarrow> string \<Rightarrow> string \<Rightarrow> (pv \<Rightarrow> ev_error + run_check) \<Rightarrow> run_check" where
  "guarded W name key label body =
     (let failed = mk_rcheck key ''fail'' (label @ '' parse error: '' @ exception_text W [name]) ''required'' in
      if \<not> entry_exists W [name] then mk_rcheck key ''fail'' (name @ '' not found'') ''required''
      else case load_at W [name] of
             None \<Rightarrow> failed
           | Some v \<Rightarrow> (case body v of Inl e \<Rightarrow> failed | Inr c \<Rightarrow> c))"

text \<open>\<^verbatim>\<open>[k for k in names if k not in data]\<close>.\<close>

definition missing_keys :: "pv \<Rightarrow> string list \<Rightarrow> ev_error + string list" where
  "missing_keys v ks =
     bindE (mapE (\<lambda>k. bindE (has_item v k) (\<lambda>b. Inr (if b then [] else [k]))) ks) (\<lambda>xs. Inr (concat xs))"

definition check_bundle_root_valid :: "bundle_dir \<Rightarrow> run_check" where
  "check_bundle_root_valid W = guarded W ''run-bundle-root.json'' ''bundle-root-valid'' ''Bundle root'' (\<lambda>v.
     bindE (missing_keys v [''bundle/schema-version'', ''bundle/id'', ''overview/hash'', ''preflight'']) (\<lambda>missing.
     if missing \<noteq> []
     then Inr (mk_rcheck ''bundle-root-valid'' ''fail'' (''Bundle root missing keys: '' @ py_repr (PList (map PStr missing))) ''required'')
     else bindE (get_none v ''bundle/schema-version'') (\<lambda>sv.
       if sv \<noteq> PStr ''bundle-root.v1''
       then Inr (mk_rcheck ''bundle-root-valid'' ''fail'' ''Bundle root has wrong schema version'' ''required'')
       else bindE (get_in v ''bundle/id'' (PStr ''?'')) (\<lambda>i.
         Inr (mk_rcheck ''bundle-root-valid'' ''pass'' (''Bundle root valid (id: '' @ py_str i @ '')'') ''required'')))))"

definition check_overview_valid :: "bundle_dir \<Rightarrow> run_check" where
  "check_overview_valid W = guarded W ''run-overview.json'' ''overview-valid'' ''Run overview'' (\<lambda>v.
     bindE (missing_keys v [''run-id'', ''status'', ''exit-code'']) (\<lambda>missing.
     if missing \<noteq> []
     then Inr (mk_rcheck ''overview-valid'' ''fail'' (''Run overview missing keys: '' @ py_repr (PList (map PStr missing))) ''required'')
     else bindE (get_in v ''run-id'' (PStr ''?'')) (\<lambda>i.
       Inr (mk_rcheck ''overview-valid'' ''pass'' (''Run overview valid (id: '' @ py_str i @ '')'') ''required''))))"

definition check_preflight_valid :: "bundle_dir \<Rightarrow> run_check" where
  "check_preflight_valid W = guarded W ''preflight-report.json'' ''preflight-valid'' ''Preflight'' (\<lambda>v.
     bindE (get_in v ''preflight/status'' (PStr ''unknown'')) (\<lambda>st.
       let msg = ''Preflight status: '' @ py_str st in
       Inr (if st = PStr ''pass'' \<or> st = PStr ''pass-with-warnings''
            then mk_rcheck ''preflight-valid'' ''pass'' msg ''required''
            else mk_rcheck ''preflight-valid'' ''fail'' msg ''required'')))"

section \<open>Hashes that documents carry of themselves\<close>

text \<open>\<^verbatim>\<open>data = _load_json(path); if not data\<close>, and \<^verbatim>\<open>f"{v[:16]}..."\<close>.\<close>

definition truthy_at :: "bundle_dir \<Rightarrow> path \<Rightarrow> pv option" where
  "truthy_at W p = (case load_at W p of Some v \<Rightarrow> if truthy v then Some v else None | None \<Rightarrow> None)"

fun head16 :: "pv \<Rightarrow> ev_error + string" where
  "head16 (PStr s) = Inr (take 16 s @ ''...'')"
| "head16 (PList xs) = Inr (py_repr (PList (take 16 xs)) @ ''...'')"
| "head16 v = Inl (Builtin TypeError)"

definition hash_check :: "string \<Rightarrow> string \<Rightarrow> pv \<Rightarrow> string \<Rightarrow> ev_error + run_check" where
  "hash_check key label recorded expected =
     bindE (head16 recorded) (\<lambda>r.
       Inr (if recorded = PStr expected
            then mk_rcheck key ''pass'' (label @ '' hash matches ('' @ r @ '')'') ''warning''
            else mk_rcheck key ''fail'' (label @ '' hash MISMATCH: recorded='' @ r @ '' expected='' @ take 16 expected @ ''...'') ''warning''))"

definition bundle_sign_exclude_keys :: "string list" where
  "bundle_sign_exclude_keys = [''bundle/id'', ''bundle/hash'', ''bundle/signature'', ''bundle/signing-key-id'']"

definition check_bundle_root_hash :: "crypto \<Rightarrow> bundle_dir \<Rightarrow> ev_error + run_check" where
  "check_bundle_root_hash C W =
     (case truthy_at W [''run-bundle-root.json''] of
        None \<Rightarrow> Inr (mk_rcheck ''bundle-root-hash'' ''skip'' ''Cannot verify hash: bundle root not parseable'' ''warning'')
      | Some v \<Rightarrow>
          bindE (get_none v ''bundle/hash'') (\<lambda>h.
          bindE (if truthy h then Inr h else get_none v ''bundle/id'') (\<lambda>recorded.
          if \<not> truthy recorded
          then Inr (mk_rcheck ''bundle-root-hash'' ''fail'' ''Bundle root has no bundle/hash or bundle/id'' ''warning'')
          else hash_check ''bundle-root-hash'' ''Bundle root'' recorded
                 (self_hash C (dict_of v) bundle_sign_exclude_keys))))"

definition check_overview_hash :: "crypto \<Rightarrow> bundle_dir \<Rightarrow> ev_error + run_check" where
  "check_overview_hash C W =
     (case truthy_at W [''run-overview.json''] of
        None \<Rightarrow> Inr (mk_rcheck ''overview-hash'' ''skip'' ''Cannot verify hash: overview not parseable'' ''warning'')
      | Some v \<Rightarrow>
          bindE (get_none v ''overview/hash'') (\<lambda>recorded.
          if \<not> truthy recorded
          then Inr (mk_rcheck ''overview-hash'' ''fail'' ''Run overview has no overview/hash field'' ''warning'')
          else hash_check ''overview-hash'' ''Overview'' recorded (self_hash C (dict_of v) [''overview/hash''])))"

definition check_results_summary :: "bundle_dir \<Rightarrow> ev_error + run_check" where
  "check_results_summary W =
     (if \<not> entry_exists W [''results-summary.json'']
      then Inr (mk_rcheck ''results-summary'' ''info'' ''No results-summary.json (not produced by older runs)'' ''info'')
      else case truthy_at W [''results-summary.json''] of
             None \<Rightarrow> Inr (mk_rcheck ''results-summary'' ''fail'' ''results-summary.json is not valid JSON'' ''warning'')
           | Some v \<Rightarrow>
               bindE (get_in v ''results/status'' (PStr ''unknown'')) (\<lambda>st.
               bindE (get_in v ''results/suite-key'' (PStr ''unknown'')) (\<lambda>k.
                 Inr (mk_rcheck ''results-summary'' ''pass'' (''Status: '' @ py_str st @ '', suite: '' @ py_str k) ''info''))))"

definition mechanism_version :: "bundle_dir \<Rightarrow> string \<Rightarrow> string" where
  "mechanism_version W name =
     (let sv = (case load_at W [name] of Some (PDict d) \<Rightarrow> py_get d ''schema-version'' | _ \<Rightarrow> PNone)
      in name @ '' ('' @ (if truthy sv then py_str sv else ''unparseable'') @ '')'')"

definition check_mechanism_persistence_artifacts :: "bundle_dir \<Rightarrow> run_check" where
  "check_mechanism_persistence_artifacts W =
     (let present = map (mechanism_version W) (filter (\<lambda>n. entry_exists W [n]) mechanism_derived_files)
      in mk_rcheck ''mechanism-persistence-artifacts'' ''info''
           (if present = [] then ''No mechanism persistence artifacts present (optional derived output)''
            else ''Mechanism persistence artifacts present: '' @ join '', '' present) ''info'')"

section \<open>Claims and attestations\<close>

definition allowed_claim_statuses :: "string list" where
  "allowed_claim_statuses = ['':pass'', '':fail'', '':inconclusive'', '':not-evaluated'',
     ''pass'', ''fail'', ''inconclusive'', ''not-evaluated'']"

definition allowed_claim_results :: "string list" where
  "allowed_claim_results = ['':verified'', '':reproduced'', '':certified'', '':approved'', '':rejected'',
     ''verified'', ''reproduced'', ''certified'', ''approved'', ''rejected'']"

text \<open>\<^verbatim>\<open>v in frozenset(...)\<close> of names.\<close>

definition in_names :: "pv \<Rightarrow> string list \<Rightarrow> ev_error + bool" where
  "in_names v ks = (if hashable v then Inr (v \<in> PStr ` set ks) else Inl (Builtin TypeError))"

definition mismatch :: "string \<Rightarrow> string \<Rightarrow> pv \<Rightarrow> string \<Rightarrow> ev_error + run_check" where
  "mismatch key label recorded expected =
     bindE (head16 recorded) (\<lambda>r. Inr (mk_rcheck key ''fail''
       (label @ '': hash MISMATCH (recorded='' @ r @ '' expected='' @ take 16 expected @ ''...)'') ''required''))"

definition check_claim_file :: "crypto \<Rightarrow> bundle_dir \<Rightarrow> string \<Rightarrow> ev_error + run_check" where
  "check_claim_file C W fname =
     (let key = ''claim-valid-'' @ fname; label = ''Claim '' @ fname in
      case truthy_at W [''claims'', fname] of
        None \<Rightarrow> Inr (mk_rcheck key ''fail'' (label @ '': not valid JSON'') ''required'')
      | Some v \<Rightarrow>
          bindE (get_none v ''result/schema-version'') (\<lambda>sv.
          if sv \<noteq> PStr ''forensic-claim-result.v1''
          then Inr (mk_rcheck key ''fail'' (label @ '': expected schema-version forensic-claim-result.v1, got '' @ py_str sv) ''required'')
          else bindE (get_none v ''result/hash'') (\<lambda>recorded.
          if \<not> truthy recorded then Inr (mk_rcheck key ''fail'' (label @ '': missing result/hash'') ''required'')
          else let expected = self_hash C (dict_of v) [''result/hash''] in
          if recorded \<noteq> PStr expected then mismatch key label recorded expected
          else bindE (get_none v ''result/status'') (\<lambda>st.
          bindE (in_names st allowed_claim_statuses) (\<lambda>known.
          if \<not> known then Inr (mk_rcheck key ''warning'' (label @ '': unexpected status '' @ [CHR 0x27] @ py_str st @ [CHR 0x27]) ''warning'')
          else bindE (head16 recorded) (\<lambda>r.
            Inr (mk_rcheck key ''pass'' (label @ '': valid (status='' @ py_str st @ '', hash='' @ r @ '')'') ''required'')))))))"

definition attestation_exclude_keys :: "string list" where
  "attestation_exclude_keys = [''attestation/id'', ''attestation/hash'', ''attestation/signature'']"

definition attestation_hash_check :: "crypto \<Rightarrow> string \<Rightarrow> string \<Rightarrow> pv \<Rightarrow> pv \<Rightarrow> ev_error + run_check" where
  "attestation_hash_check C key label v cr =
     bindE (get_none v ''attestation/hash'') (\<lambda>recorded.
     if \<not> truthy recorded then Inr (mk_rcheck key ''fail'' (label @ '': missing attestation/hash'') ''required'')
     else let expected = self_hash C (dict_of v) attestation_exclude_keys in
     if recorded \<noteq> PStr expected then mismatch key label recorded expected
     else bindE (head16 recorded) (\<lambda>r.
       Inr (mk_rcheck key ''pass'' (label @ '': valid (result='' @ py_str cr @ '', hash='' @ r @ '')'') ''required'')))"

definition check_attestation_file :: "crypto \<Rightarrow> bundle_dir \<Rightarrow> string \<Rightarrow> ev_error + run_check" where
  "check_attestation_file C W fname =
     (let key = ''attestation-valid-'' @ fname; label = ''Attestation '' @ fname in
      case truthy_at W [''attestations'', fname] of
        None \<Rightarrow> Inr (mk_rcheck key ''fail'' (label @ '': not valid JSON'') ''required'')
      | Some v \<Rightarrow>
          bindE (get_none v ''attestation/schema-version'') (\<lambda>sv.
          if sv \<noteq> PStr ''forensic-attestation.v1''
          then Inr (mk_rcheck key ''fail'' (label @ '': expected schema-version forensic-attestation.v1, got '' @ py_str sv) ''required'')
          else bindE (get_none v ''attestation/claim-result'') (\<lambda>cr.
          bindE (in_names cr allowed_claim_results) (\<lambda>known.
          if \<not> known then Inr (mk_rcheck key ''warning'' (label @ '': unexpected claim-result '' @ [CHR 0x27] @ py_str cr @ [CHR 0x27]) ''warning'')
          else attestation_hash_check C key label v cr))))"

text \<open>\<^verbatim>\<open>check_claims_content\<close> and \<^verbatim>\<open>check_attestations_content\<close>: every JSON file, sorted by name.\<close>

definition check_folder :: "bundle_dir \<Rightarrow> string \<Rightarrow> (string \<Rightarrow> ev_error + run_check) \<Rightarrow> ev_error + run_check list" where
  "check_folder W name check_file =
     (let key = name @ ''-content''; files = sort (json_files_in W [name]) in
      if \<not> is_folder W [name] then Inr [mk_rcheck key ''fail'' (name @ ''/ directory not found'') ''required'']
      else if files = [] then Inr [mk_rcheck key ''fail'' (name @ ''/ contains no .json files'') ''required'']
      else mapE check_file files)"

definition check_claims_content :: "crypto \<Rightarrow> bundle_dir \<Rightarrow> ev_error + run_check list" where
  "check_claims_content C W = check_folder W ''claims'' (check_claim_file C W)"

definition check_attestations_content :: "crypto \<Rightarrow> bundle_dir \<Rightarrow> ev_error + run_check list" where
  "check_attestations_content C W = check_folder W ''attestations'' (check_attestation_file C W)"

section \<open>Anchor\<close>

text \<open>\<^verbatim>\<open>run_dir / "anchors" / name\<close>: an absolute name or one with \<^verbatim>\<open>..\<close> may leave the directory.\<close>

definition anchor_file_exists :: "bundle_dir \<Rightarrow> string \<Rightarrow> bool" where
  "anchor_file_exists W name =
     (if starts_with ''/'' name \<or> ''..'' \<in> set (path_parts name) then beyond W name
      else entry_exists W (''anchors'' # path_parts name))"

definition base_name :: "string \<Rightarrow> string" where
  "base_name name = (case path_parts name of [] \<Rightarrow> (if starts_with ''/'' name then [] else ''anchors'') | ps \<Rightarrow> last ps)"

fun relative_name :: "pv \<Rightarrow> ev_error + string" where
  "relative_name (PStr s) = Inr s"
| "relative_name v = Inl (Builtin TypeError)"

definition check_anchor_content :: "bundle_dir \<Rightarrow> ev_error + run_check" where
  "check_anchor_content W =
     (let key = ''anchor-valid'' in
      if \<not> entry_exists W [''anchors'', ''anchor-cursor.json'']
      then Inr (mk_rcheck key ''info'' ''No anchor-cursor.json (pre-Phase C bundles)'' ''info'')
      else case truthy_at W [''anchors'', ''anchor-cursor.json''] of
        None \<Rightarrow> Inr (mk_rcheck key ''fail'' ''anchor-cursor.json is not valid JSON'' ''warning'')
      | Some v \<Rightarrow>
          bindE (get_in v ''anchor/type'' (PStr ''?'')) (\<lambda>atype.
          bindE (get_none v ''anchor/schema-version'') (\<lambda>sv.
          if sv \<noteq> PStr ''anchor-cursor.v1''
          then Inr (mk_rcheck key ''warning'' (''anchor-cursor.json: unexpected schema-version '' @ py_str sv) ''warning'')
          else if atype = PStr ''rfc3161''
          then bindE (bindE (get_in v ''anchor/tsa-token-path'' (PStr ''registry.tsr'')) relative_name) (\<lambda>token.
            if \<not> anchor_file_exists W token
            then Inr (mk_rcheck key ''fail'' (''anchor type=rfc3161 but TSA token not found at '' @ base_name token) ''required'')
            else if \<not> entry_exists W [''anchors'', ''registry.tsa.json'']
            then Inr (mk_rcheck key ''pass'' ''anchor type=rfc3161 (TSA token present, no metadata file)'' ''info'')
            else bindE (get_in v ''anchor/tsa-url'' (PStr ''?'')) (\<lambda>url.
              Inr (mk_rcheck key ''pass'' (''anchor type=rfc3161, TSA URL: '' @ py_str url) ''info'')))
          else if atype = PStr ''local-proof''
          then Inr (mk_rcheck key ''pass'' ''anchor type=local-proof (no external TSA)'' ''info'')
          else if atype = PStr ''mock''
          then Inr (mk_rcheck key ''info'' ''anchor type=mock (placeholder, no timestamp anchoring)'' ''info'')
          else Inr (mk_rcheck key ''info'' (''anchor type='' @ py_str atype) ''info''))))"

end
