(* ===== verification/Cycle_Search.thy ===== *)
theory Cycle_Search
  imports Py_Prelude
begin

text \<open>
  The search for cycles in an evidence graph (\<^verbatim>\<open>_detect_dag_cycles\<close> of \<^verbatim>\<open>scripts/forensic/verify.py\<close>): a
  depth-first visit with three colours that reports a cycle at every edge to a gray node.  The
  interpreter's recursion limit is an argument; the nodes are a list in the order in which the
  interpreter visits the set.  The search is exact: it reports a cycle if and only if there is one, and
  what it reports are cycles.
\<close>

section \<open>The search\<close>

datatype colour = White | Gray | Black

record 'a search =
  colours :: "('a \<times> colour) list"
  parents :: "('a \<times> 'a) list"
  found :: "'a list list"

definition adjacency :: "'a list \<Rightarrow> ('a \<times> 'a) list \<Rightarrow> ('a \<times> 'a list) list" where
  "adjacency nodes edges =
     foldl (\<lambda>adj (p, c). if has_key adj p \<and> has_key adj c then dset p (get_or adj p [] @ [c]) adj else adj)
       (map (\<lambda>h. (h, [])) nodes) edges"

text \<open>
  The loop that follows the recorded parents up to \<open>v\<close>.  A climb longer than the table of parents would
  never end; \<open>detect_cycles_returns\<close> shows that there is none.
\<close>

primrec climb :: "nat \<Rightarrow> ('a \<times> 'a) list \<Rightarrow> 'a \<Rightarrow> 'a \<Rightarrow> py_error + 'a list" where
  "climb 0 ps v cur = Inl RecursionError"
| "climb (Suc n) ps v cur =
     (if cur = v then Inr []
      else case map_of ps cur of None \<Rightarrow> Inr [] | Some p \<Rightarrow> bindE (climb n ps v p) (\<lambda>r. Inr (p # r)))"

definition cycle_found :: "('a \<times> 'a) list \<Rightarrow> 'a \<Rightarrow> 'a \<Rightarrow> py_error + 'a list" where
  "cycle_found ps v u =
     bindE (climb (Suc (length ps)) ps v u) (\<lambda>r.
       let cycle = v # u # r in Inr (rev (if hd cycle = last cycle then butlast cycle else cycle)))"

text \<open>One turn of the loop over the children of \<open>u\<close>; the recursive call is an argument.\<close>

definition look :: "('a \<Rightarrow> 'a search \<Rightarrow> py_error + 'a search) \<Rightarrow> 'a \<Rightarrow> 'a search \<Rightarrow> 'a \<Rightarrow> py_error + 'a search" where
  "look visit_child u t v =
     (case map_of (colours t) v of
        None \<Rightarrow> Inr t
      | Some Gray \<Rightarrow> bindE (cycle_found (parents t) v u) (\<lambda>c. Inr (t\<lparr>found := found t @ [c]\<rparr>))
      | Some White \<Rightarrow> visit_child v (t\<lparr>parents := dset v u (parents t)\<rparr>)
      | Some Black \<Rightarrow> Inr t)"

primrec dfs :: "nat \<Rightarrow> ('a \<times> 'a list) list \<Rightarrow> 'a \<Rightarrow> 'a search \<Rightarrow> py_error + 'a search" where
  "dfs 0 adj u s = Inl RecursionError"
| "dfs (Suc n) adj u s =
     bindE (foldE (look (dfs n adj) u) (s\<lparr>colours := dset u Gray (colours s)\<rparr>) (get_or adj u [])) (\<lambda>t.
     Inr (t\<lparr>colours := dset u Black (colours t)\<rparr>))"

definition detect_cycles :: "nat \<Rightarrow> 'a list \<Rightarrow> ('a \<times> 'a) list \<Rightarrow> py_error + 'a list list" where
  "detect_cycles limit nodes edges =
     bindE (foldE (\<lambda>s h. if get_or (colours s) h White = White then dfs limit (adjacency nodes edges) h s else Inr s)
       \<lparr>colours = map (\<lambda>h. (h, White)) nodes, parents = [], found = []\<rparr> nodes) (\<lambda>s. Inr (found s))"

section \<open>The graph\<close>

definition graph_of :: "'a list \<Rightarrow> ('a \<times> 'a) list \<Rightarrow> ('a \<times> 'a) set" where
  "graph_of nodes edges = {(p, c) \<in> set edges. p \<in> set nodes \<and> c \<in> set nodes}"

definition closed_walk :: "('a \<times> 'a) set \<Rightarrow> 'a list \<Rightarrow> bool" where
  "closed_walk E c \<longleftrightarrow> c \<noteq> [] \<and> successively (\<lambda>x y. (x, y) \<in> E) (c @ [hd c])"

lemma adjacency_step:
  "foldl (\<lambda>adj (p, c). if has_key adj p \<and> has_key adj c then dset p (get_or adj p [] @ [c]) adj else adj) adj edges = adj'
   \<Longrightarrow> fst ` set adj' = fst ` set adj \<and>
     (\<forall>u. set (get_or adj' u []) = set (get_or adj u []) \<union> {c. (u, c) \<in> set edges \<and> has_key adj u \<and> has_key adj c})"
proof (induction edges arbitrary: adj)
  case (Cons e edges)
  obtain p c where e: "e = (p, c)" by (cases e)
  show ?case
  proof (cases "has_key adj p \<and> has_key adj c")
    case True
    let ?next = "dset p (get_or adj p [] @ [c]) adj"
    have keys: "fst ` set ?next = fst ` set adj" using True by (auto simp: dom_update has_key_def)
    then have has: "has_key ?next = has_key adj" by (simp add: has_key_def fun_eq_iff)
    from Cons.IH [of ?next] Cons.prems True have
      "fst ` set adj' = fst ` set ?next \<and> (\<forall>u. set (get_or adj' u []) = set (get_or ?next u []) \<union>
        {c. (u, c) \<in> set edges \<and> has_key ?next u \<and> has_key ?next c})" by (simp add: e)
    with keys has True show ?thesis by (auto simp: e)
  next
    case False
    with Cons.IH [of adj] Cons.prems show ?thesis by (auto simp: e)
  qed
qed (simp add: has_key_def)

lemma adjacency_keys: "fst ` set (adjacency nodes edges) = set nodes"
  using adjacency_step [OF refl, of "map (\<lambda>h. (h, [])) nodes" edges] by (simp add: adjacency_def image_comp comp_def)

lemma adjacency_iff: "v \<in> set (get_or (adjacency nodes edges) u []) \<longleftrightarrow> (u, v) \<in> graph_of nodes edges"
proof -
  have none: "get_or (map (\<lambda>h. (h, [])) nodes) u [] = []"
    by (auto simp: get_or_def map_of_map_restrict restrict_map_def split: option.splits)
  show ?thesis
    using adjacency_step [OF refl, of "map (\<lambda>h. (h, [])) nodes" edges]
    by (auto simp: adjacency_def graph_of_def has_key_def comp_def none)
qed

lemma closed_walk_cycle: "closed_walk E c \<Longrightarrow> (hd c, hd c) \<in> E\<^sup>+"
proof -
  have walk: "successively (\<lambda>x y. (x, y) \<in> E) (x # xs @ [y]) \<Longrightarrow> (x, y) \<in> E\<^sup>+" for x xs y
    by (induction xs arbitrary: x) (auto intro: trancl_into_trancl2)
  assume "closed_walk E c"
  then show ?thesis by (cases c) (auto simp: closed_walk_def walk)
qed

section \<open>What the search keeps\<close>

text \<open>
  The gray nodes are the stack of the recursion, linked by the recorded parents along edges; what was
  reported are cycles; as long as nothing was reported, the black nodes are closed under edges and no
  cycle goes through them.
\<close>

definition painted :: "'a search \<Rightarrow> colour \<Rightarrow> 'a set" where
  "painted s c = {x. map_of (colours s) x = Some c}"

definition stacked :: "('a \<times> 'a) set \<Rightarrow> ('a \<times> 'a) list \<Rightarrow> 'a list \<Rightarrow> bool" where
  "stacked E ps stack \<longleftrightarrow> distinct stack
     \<and> successively (\<lambda>x y. map_of ps x = Some y \<and> (y, x) \<in> E) stack
     \<and> (stack \<noteq> [] \<longrightarrow> map_of ps (last stack) = None)"

definition settled :: "('a \<times> 'a) set \<Rightarrow> 'a set \<Rightarrow> bool" where
  "settled E B \<longleftrightarrow> (\<forall>x y. x \<in> B \<longrightarrow> (x, y) \<in> E \<longrightarrow> y \<in> B) \<and> (\<forall>x \<in> B. (x, x) \<notin> E\<^sup>+)"

definition search_inv :: "'a set \<Rightarrow> ('a \<times> 'a) set \<Rightarrow> 'a list \<Rightarrow> 'a search \<Rightarrow> bool" where
  "search_inv N E stack s \<longleftrightarrow>
     dom (map_of (colours s)) = N \<and> painted s Gray = set stack \<and> stacked E (parents s) stack
     \<and> dom (map_of (parents s)) \<inter> painted s White = {}
     \<and> (\<forall>c \<in> set (found s). closed_walk E c \<and> distinct c) \<and> (found s = [] \<longrightarrow> settled E (painted s Black))"

definition grows :: "'a search \<Rightarrow> 'a search \<Rightarrow> bool" where
  "grows s t \<longleftrightarrow> painted s Black \<subseteq> painted t Black \<and> painted t White \<subseteq> painted s White \<and> (found s \<noteq> [] \<longrightarrow> found t \<noteq> [])"

lemma grows_refl [simp]: "grows s s"
  by (simp add: grows_def)

lemma grows_trans: "grows s t \<Longrightarrow> grows t u \<Longrightarrow> grows s u"
  by (auto simp: grows_def)

lemma painted_update:
  "painted (s\<lparr>colours := dset u c (colours s)\<rparr>) d = (if c = d then insert u (painted s d) else painted s d - {u})"
  by (auto simp: painted_def)

lemma painted_other [simp]:
  "painted (s\<lparr>parents := ps\<rparr>) c = painted s c" "painted (s\<lparr>found := cs\<rparr>) c = painted s c"
  "painted (s\<lparr>parents := ps, colours := cl\<rparr>) c = painted (s\<lparr>colours := cl\<rparr>) c"
  by (simp_all add: painted_def)

lemma stacked_push:
  "stacked E ps (u # stack) \<Longrightarrow> v \<notin> set (u # stack) \<Longrightarrow> (u, v) \<in> E \<Longrightarrow> stacked E (dset v u ps) (v # u # stack)"
proof -
  assume old: "stacked E ps (u # stack)" and new: "v \<notin> set (u # stack)" "(u, v) \<in> E"
  from old have "successively (\<lambda>x y. map_of ps x = Some y \<and> (y, x) \<in> E) (u # stack)" by (simp add: stacked_def)
  then have "successively (\<lambda>x y. map_of (dset v u ps) x = Some y \<and> (y, x) \<in> E) (u # stack)"
    by (rule successively_mono) (use new in auto)
  with old new show ?thesis by (auto simp: stacked_def)
qed

lemma stacked_pop: "stacked E ps (u # stack) \<Longrightarrow> stacked E ps stack"
  by (cases stack) (auto simp: stacked_def)

lemma enter_root:
  assumes "search_inv N E [] s" "map_of (colours s) h = Some White"
  shows "search_inv N E [h] (s\<lparr>colours := dset h Gray (colours s)\<rparr>)"
  using assms by (auto simp: search_inv_def painted_update stacked_def) (auto simp: painted_def)

lemma enter_child:
  assumes inv: "search_inv N E (u # stack) t" and white: "map_of (colours t) v = Some White" and edge: "(u, v) \<in> E"
  shows "search_inv N E (v # u # stack) (t\<lparr>parents := dset v u (parents t), colours := dset v Gray (colours t)\<rparr>)"
proof -
  from white have "v \<notin> painted t Gray" "v \<notin> painted t Black" by (simp_all add: painted_def)
  with inv have new: "v \<notin> set (u # stack)" by (simp add: search_inv_def)
  with inv edge have "stacked E (dset v u (parents t)) (v # u # stack)"
    by (intro stacked_push) (auto simp: search_inv_def)
  moreover have "v \<in> painted t White" using white by (simp add: painted_def)
  ultimately show ?thesis
    using inv white new \<open>v \<notin> painted t Black\<close> by (auto simp: search_inv_def painted_update)
qed

lemma leave:
  assumes inv: "search_inv N E (u # stack) t"
    and children: "found t = [] \<Longrightarrow> \<forall>v. (u, v) \<in> E \<longrightarrow> v \<in> painted t Black"
  shows "search_inv N E stack (t\<lparr>colours := dset u Black (colours t)\<rparr>)"
proof -
  from inv have gray: "u \<in> painted t Gray" and stack: "u \<notin> set stack" by (auto simp: search_inv_def stacked_def)
  then have black: "u \<notin> painted t Black" by (auto simp: painted_def)
  have "settled E (insert u (painted t Black))" if none: "found t = []"
  proof -
    from inv none have old: "settled E (painted t Black)" by (simp add: search_inv_def)
    have stays: "y \<in> painted t Black" if "(x, y) \<in> E\<^sup>*" "x \<in> painted t Black" for x y
      using that by (induction rule: rtrancl_induct) (use old in \<open>auto simp: settled_def\<close>)
    have "(u, u) \<notin> E\<^sup>+"
    proof
      assume "(u, u) \<in> E\<^sup>+"
      then obtain v where "(u, v) \<in> E" "(v, u) \<in> E\<^sup>*" by (meson tranclD)
      with children [OF none] stays black show False by blast
    qed
    with old children [OF none] show ?thesis by (auto simp: settled_def)
  qed
  moreover have "u \<in> dom (map_of (colours t))" using gray by (auto simp: painted_def)
  moreover have "stacked E (parents t) stack" using inv by (auto simp: search_inv_def intro: stacked_pop)
  ultimately show ?thesis using inv gray stack
    by (auto simp: search_inv_def painted_update)
qed

section \<open>The search is exact\<close>

lemma climb_stack:
  "successively (\<lambda>x y. map_of ps x = Some y \<and> (y, x) \<in> E) (u # stack) \<Longrightarrow> distinct (u # stack)
   \<Longrightarrow> v \<in> set (u # stack) \<Longrightarrow> length (u # stack) \<le> n
   \<Longrightarrow> \<exists>r. climb n ps v u = Inr r \<and> last (u # r) = v \<and> successively (\<lambda>x y. (y, x) \<in> E) (u # r)
     \<and> distinct (u # r) \<and> set r \<subseteq> set stack"
proof (induction n arbitrary: u stack)
  case (Suc n)
  show ?case
  proof (cases "u = v")
    case False
    with Suc.prems obtain p rest where stack: "stack = p # rest" by (cases stack) auto
    with Suc.prems have p: "map_of ps u = Some p" "(p, u) \<in> E" by simp_all
    from Suc.IH [of p rest] Suc.prems False obtain r where
      "climb n ps v p = Inr r" "last (p # r) = v" "successively (\<lambda>x y. (y, x) \<in> E) (p # r)"
      "distinct (p # r)" "set r \<subseteq> set rest"
      by (auto simp: stack)
    with False p Suc.prems(2) show ?thesis by (auto simp: stack)
  qed simp
qed simp

lemma stacked_length: "stacked E ps (u # stack) \<Longrightarrow> length stack \<le> length ps"
proof -
  have keys: "successively (\<lambda>x y. map_of ps x = Some y \<and> (y, x) \<in> E) (xs @ [z]) \<Longrightarrow> set xs \<subseteq> dom (map_of ps)" for xs z
    by (induction xs) (auto simp: successively_Cons split: if_splits list.splits)
  assume "stacked E ps (u # stack)"
  then have "set (butlast (u # stack)) \<subseteq> dom (map_of ps)" and dist: "distinct (u # stack)"
    using keys [of "butlast (u # stack)" "last (u # stack)"]
    by (auto simp: stacked_def simp del: butlast.simps last.simps)
  then have "card (set (butlast (u # stack))) \<le> card (fst ` set ps)"
    by (intro card_mono) (auto simp: dom_map_of_conv_image_fst)
  moreover have "card (set (butlast (u # stack))) = length stack"
    using distinct_card [OF distinct_butlast [OF dist]] by simp
  ultimately show ?thesis
    by (metis card_length le_trans length_map list.set_map)
qed

lemma gray_child:
  assumes inv: "search_inv N E (u # stack) t" and gray: "map_of (colours t) v = Some Gray" and edge: "(u, v) \<in> E"
  shows "\<exists>c. cycle_found (parents t) v u = Inr c \<and> search_inv N E (u # stack) (t\<lparr>found := found t @ [c]\<rparr>)"
proof -
  from inv have linked: "stacked E (parents t) (u # stack)" and in_stack: "painted t Gray = set (u # stack)"
    by (simp_all add: search_inv_def)
  from gray in_stack have "v \<in> set (u # stack)" by (auto simp: painted_def)
  moreover have "length (u # stack) \<le> Suc (length (parents t))" using stacked_length [OF linked] by simp
  ultimately have "\<exists>r. climb (Suc (length (parents t))) (parents t) v u = Inr r \<and> last (u # r) = v
      \<and> successively (\<lambda>x y. (y, x) \<in> E) (u # r) \<and> distinct (u # r) \<and> set r \<subseteq> set stack"
    using linked by (intro climb_stack [where stack = stack]) (auto simp: stacked_def)
  then obtain r where r: "climb (Suc (length (parents t))) (parents t) v u = Inr r" "last (u # r) = v"
    "successively (\<lambda>x y. (y, x) \<in> E) (u # r)" "distinct (u # r)" by blast
  define w where "w = butlast (u # r)"
  have found: "cycle_found (parents t) v u = Inr (rev (v # w))" using r(1,2) by (simp add: cycle_found_def w_def)
  have ur: "u # r = w @ [v]" using r(2) append_butlast_last_id [of "u # r"] by (simp add: w_def)
  then have "w = [] \<and> u = v \<or> w \<noteq> [] \<and> hd w = u" by (cases w) auto
  moreover have "successively (\<lambda>x y. (y, x) \<in> E) (w @ [v])" using r(3) ur by simp
  ultimately have "successively (\<lambda>x y. (y, x) \<in> E) (hd (rev (v # w)) # v # w)"
    using edge by (auto simp: successively_append_iff successively_Cons hd_append hd_rev)
  then have "closed_walk E (rev (v # w))"
    using successively_rev [of "\<lambda>x y. (x, y) \<in> E" "hd (rev (v # w)) # v # w"] by (simp add: closed_walk_def)
  moreover have "distinct (rev (v # w))" using r(4) unfolding ur by auto
  ultimately show ?thesis using inv found by (auto simp: search_inv_def)
qed

lemma look_inv:
  assumes child: "\<And>v t t'. look_child v t = Inr t' \<Longrightarrow> map_of (colours t) v = Some White \<Longrightarrow>
      search_inv N E (v # u # stack) (t\<lparr>colours := dset v Gray (colours t)\<rparr>) \<Longrightarrow>
      search_inv N E (u # stack) t' \<and> grows t t' \<and> v \<in> painted t' Black"
    and inv: "search_inv N E (u # stack) t" and edge: "(u, v) \<in> E" and nodes: "E \<subseteq> N \<times> N"
    and run: "look look_child u t v = Inr t'"
  shows "search_inv N E (u # stack) t' \<and> grows t t' \<and> (found t' = [] \<longrightarrow> v \<in> painted t' Black)"
proof -
  from inv edge nodes obtain c where c: "map_of (colours t) v = Some c" by (auto simp: search_inv_def)
  show ?thesis
  proof (cases c)
    case White
    with c run have "look_child v (t\<lparr>parents := dset v u (parents t)\<rparr>) = Inr t'" by (simp add: look_def)
    from child [OF this] White c enter_child [OF inv _ edge]
    have "search_inv N E (u # stack) t' \<and> grows (t\<lparr>parents := dset v u (parents t)\<rparr>) t' \<and> v \<in> painted t' Black" by simp
    then show ?thesis by (simp add: grows_def)
  next
    case Gray
    with c gray_child [OF inv _ edge] run show ?thesis by (auto simp: look_def grows_def)
  next
    case Black
    with c inv run show ?thesis by (simp add: look_def painted_def)
  qed
qed

lemma looks_inv:
  assumes child: "\<And>v t t'. look_child v t = Inr t' \<Longrightarrow> map_of (colours t) v = Some White \<Longrightarrow>
      search_inv N E (v # u # stack) (t\<lparr>colours := dset v Gray (colours t)\<rparr>) \<Longrightarrow>
      search_inv N E (u # stack) t' \<and> grows t t' \<and> v \<in> painted t' Black"
    and nodes: "E \<subseteq> N \<times> N"
  shows "foldE (look look_child u) t vs = Inr t' \<Longrightarrow> search_inv N E (u # stack) t \<Longrightarrow> \<forall>v \<in> set vs. (u, v) \<in> E \<Longrightarrow>
    search_inv N E (u # stack) t' \<and> grows t t' \<and> (found t' = [] \<longrightarrow> set vs \<subseteq> painted t' Black)"
proof (induction vs arbitrary: t)
  case (Cons v vs)
  then obtain t1 where t1: "look look_child u t v = Inr t1" "foldE (look look_child u) t1 vs = Inr t'"
    by (auto simp: bindE_Inr_iff)
  from Cons.prems(3) have "(u, v) \<in> E" by simp
  note head = look_inv [OF child Cons.prems(2) this nodes t1(1)]
  from Cons.IH [OF t1(2)] head Cons.prems(3)
  have "search_inv N E (u # stack) t' \<and> grows t1 t' \<and> (found t' = [] \<longrightarrow> set vs \<subseteq> painted t' Black)" by auto
  with head show ?case by (auto simp: grows_def)
qed simp

lemma dfs_inv:
  assumes graph: "\<And>u v. v \<in> set (get_or adj u []) \<longleftrightarrow> (u, v) \<in> E" and nodes: "E \<subseteq> N \<times> N"
  shows "dfs n adj u s = Inr s' \<Longrightarrow> map_of (colours s) u = Some White \<Longrightarrow>
    search_inv N E (u # stack) (s\<lparr>colours := dset u Gray (colours s)\<rparr>) \<Longrightarrow>
    search_inv N E stack s' \<and> grows s s' \<and> u \<in> painted s' Black"
proof (induction n arbitrary: u s s' stack)
  case (Suc n)
  from Suc.prems(1) obtain t where t: "foldE (look (dfs n adj) u) (s\<lparr>colours := dset u Gray (colours s)\<rparr>) (get_or adj u []) = Inr t"
    and s': "s' = t\<lparr>colours := dset u Black (colours t)\<rparr>" by (auto simp: bindE_Inr_iff)
  from Suc.prems(2) have white: "u \<in> painted s White" by (simp add: painted_def)
  then have other: "u \<notin> painted s Black" by (simp add: painted_def)
  from looks_inv [OF Suc.IH nodes t Suc.prems(3)] graph
  have kept: "search_inv N E (u # stack) t" "grows (s\<lparr>colours := dset u Gray (colours s)\<rparr>) t"
    "found t = [] \<longrightarrow> set (get_or adj u []) \<subseteq> painted t Black" by auto
  then have "search_inv N E stack s'" unfolding s' using graph by (intro leave) auto
  moreover have "grows s s'" using kept(2) white other by (auto simp: grows_def s' painted_update)
  ultimately show ?case by (simp add: s' painted_update)
qed simp

section \<open>The search returns\<close>

lemma dfs_returns:
  assumes graph: "\<And>u v. v \<in> set (get_or adj u []) \<longleftrightarrow> (u, v) \<in> E" and nodes: "E \<subseteq> N \<times> N" and fin: "finite N"
  shows "card (painted s White) \<le> n \<Longrightarrow> map_of (colours s) u = Some White \<Longrightarrow>
    search_inv N E (u # stack) (s\<lparr>colours := dset u Gray (colours s)\<rparr>) \<Longrightarrow> \<exists>s'. dfs n adj u s = Inr s'"
proof (induction n arbitrary: u s stack)
  case 0
  have "painted s White \<subseteq> dom (map_of (colours s))" by (auto simp: painted_def)
  then have "finite (painted s White)" by (rule finite_subset) (simp add: finite_dom_map_of)
  moreover have "u \<in> painted s White" using 0 by (simp add: painted_def)
  ultimately show ?case using 0 by auto
next
  case (Suc n)
  let ?s = "s\<lparr>colours := dset u Gray (colours s)\<rparr>"
  have "painted s White \<subseteq> dom (map_of (colours s))" by (auto simp: painted_def)
  then have fin_white: "finite (painted s White)" by (rule finite_subset) (simp add: finite_dom_map_of)
  have "u \<in> painted s White" using Suc.prems by (simp add: painted_def)
  then have start: "card (painted ?s White) \<le> n"
    using Suc.prems(1) fin_white by (simp add: painted_update)
  have "\<exists>t'. foldE (look (dfs n adj) u) t vs = Inr t'"
    if "search_inv N E (u # stack) t" "painted t White \<subseteq> painted ?s White" "\<forall>v \<in> set vs. (u, v) \<in> E" for t vs
    using that
  proof (induction vs arbitrary: t)
    case (Cons v vs)
    have small: "card (painted t White) \<le> n"
      using start card_mono [OF _ Cons.prems(2)] fin_white by (simp add: painted_update)
    from Cons.prems nodes obtain c where c: "map_of (colours t) v = Some c" by (auto simp: search_inv_def)
    have "\<exists>t1. look (dfs n adj) u t v = Inr t1"
    proof (cases c)
      case White
      with c Cons.prems enter_child [OF Cons.prems(1), of v]
      show ?thesis using Suc.IH [of "t\<lparr>parents := dset v u (parents t)\<rparr>" v "u # stack"] small by (auto simp: look_def)
    next
      case Gray
      with c gray_child [OF Cons.prems(1), of v] Cons.prems show ?thesis by (auto simp: look_def)
    qed (use c in \<open>auto simp: look_def\<close>)
    then obtain t1 where t1: "look (dfs n adj) u t v = Inr t1" by blast
    have "(u, v) \<in> E" using Cons.prems by simp
    note kept = look_inv [OF _ Cons.prems(1) this nodes t1]
    have "search_inv N E (u # stack) t1 \<and> grows t t1 \<and> (found t1 = [] \<longrightarrow> v \<in> painted t1 Black)"
      by (rule kept) (rule dfs_inv [OF graph nodes])
    then have "search_inv N E (u # stack) t1" "painted t1 White \<subseteq> painted ?s White"
      using Cons.prems(2) by (auto simp: grows_def)
    with Cons.IH Cons.prems(3) t1 show ?case by simp
  qed simp
  from this [OF Suc.prems(3) subset_refl, of "get_or adj u []"] graph show ?case by auto
qed

section \<open>The report\<close>

lemma search_start:
  "search_inv (set nodes) E [] \<lparr>colours = map (\<lambda>h. (h, White)) nodes, parents = [], found = []\<rparr>"
  by (auto simp: search_inv_def painted_def stacked_def settled_def map_of_map_restrict restrict_map_def split: if_splits)

lemma roots_inv:
  assumes graph: "\<And>u v. v \<in> set (get_or adj u []) \<longleftrightarrow> (u, v) \<in> E" and nodes: "E \<subseteq> N \<times> N"
  shows "foldE (\<lambda>s h. if get_or (colours s) h White = White then dfs limit adj h s else Inr s) s hs = Inr s' \<Longrightarrow>
    search_inv N E [] s \<Longrightarrow> set hs \<subseteq> N \<Longrightarrow> search_inv N E [] s' \<and> grows s s' \<and> set hs \<subseteq> painted s' Black"
proof (induction hs arbitrary: s)
  case (Cons h hs)
  then obtain t where t: "(if get_or (colours s) h White = White then dfs limit adj h s else Inr s) = Inr t"
    and rest: "foldE (\<lambda>s h. if get_or (colours s) h White = White then dfs limit adj h s else Inr s) t hs = Inr s'"
    by (auto simp: bindE_Inr_iff)
  from Cons.prems obtain c where c: "map_of (colours s) h = Some c" by (auto simp: search_inv_def)
  have "search_inv N E [] t \<and> grows s t \<and> h \<in> painted t Black"
  proof (cases c)
    case White
    with c t dfs_inv [OF graph nodes _ _ enter_root [OF Cons.prems(2)]] show ?thesis by (simp add: get_or_def)
  next
    case Gray
    with c Cons.prems(2) show ?thesis by (auto simp: search_inv_def painted_def)
  next
    case Black
    with c t Cons.prems(2) show ?thesis by (simp add: get_or_def painted_def)
  qed
  with Cons.IH [OF rest] Cons.prems(3) show ?case by (auto simp: grows_def)
qed simp

lemma detect_cycles_exact:
  assumes "detect_cycles limit nodes edges = Inr cs"
  shows "(cs = [] \<longleftrightarrow> acyclic (graph_of nodes edges)) \<and> (\<forall>c \<in> set cs. closed_walk (graph_of nodes edges) c \<and> distinct c)"
proof -
  let ?E = "graph_of nodes edges"
  let ?s0 = "\<lparr>colours = map (\<lambda>h. (h, White)) nodes, parents = [], found = []\<rparr>"
  have sub: "?E \<subseteq> set nodes \<times> set nodes" by (auto simp: graph_of_def)
  from assms obtain s where run: "foldE (\<lambda>s h. if get_or (colours s) h White = White
      then dfs limit (adjacency nodes edges) h s else Inr s) ?s0 nodes = Inr s" and cs: "cs = found s"
    by (auto simp: detect_cycles_def bindE_Inr_iff)
  from roots_inv [OF adjacency_iff sub run search_start subset_refl]
  have inv: "search_inv (set nodes) ?E [] s" and black: "set nodes \<subseteq> painted s Black" by auto
  from inv have walks: "\<forall>c \<in> set cs. closed_walk ?E c \<and> distinct c" by (simp add: search_inv_def cs)
  have "acyclic ?E" if "cs = []"
    unfolding acyclic_def
  proof (intro allI notI)
    fix x assume x: "(x, x) \<in> ?E\<^sup>+"
    then have "x \<in> set nodes" using trancl_subset_Sigma [OF sub] by auto
    with black inv that x show False by (auto simp: search_inv_def settled_def cs)
  qed
  moreover have "\<not> acyclic ?E" if "cs \<noteq> []"
    using that walks closed_walk_cycle [of ?E "hd cs"] by (auto simp: acyclic_def)
  ultimately show ?thesis using walks by blast
qed

lemma roots_return:
  assumes graph: "\<And>u v. v \<in> set (get_or adj u []) \<longleftrightarrow> (u, v) \<in> E" and nodes: "E \<subseteq> N \<times> N" and fin: "finite N"
    and room: "card N \<le> limit"
  shows "search_inv N E [] s \<Longrightarrow> set hs \<subseteq> N \<Longrightarrow>
    \<exists>s'. foldE (\<lambda>s h. if get_or (colours s) h White = White then dfs limit adj h s else Inr s) s hs = Inr s'"
proof (induction hs arbitrary: s)
  case (Cons h hs)
  let ?step = "if get_or (colours s) h White = White then dfs limit adj h s else Inr s"
  have "painted s White \<subseteq> N" using Cons.prems(1) by (auto simp: search_inv_def painted_def)
  then have small: "card (painted s White) \<le> limit" using card_mono [OF fin] room by (meson le_trans)
  from Cons.prems obtain c where c: "map_of (colours s) h = Some c" by (auto simp: search_inv_def)
  have "\<exists>t. ?step = Inr t"
    using dfs_returns [OF graph nodes fin small _ enter_root [OF Cons.prems(1)], of h] c
    by (cases c) (auto simp: get_or_def)
  then obtain t where t: "?step = Inr t" by blast
  then have "foldE (\<lambda>s h. if get_or (colours s) h White = White then dfs limit adj h s else Inr s) s [h] = Inr t" by simp
  from roots_inv [OF graph nodes this Cons.prems(1)] Cons.prems(2) have "search_inv N E [] t" by simp
  with Cons.IH Cons.prems(2) t show ?case by simp
qed simp

lemma detect_cycles_returns: "length nodes \<le> limit \<Longrightarrow> \<exists>cs. detect_cycles limit nodes edges = Inr cs"
  using roots_return [OF adjacency_iff, of nodes edges "set nodes" limit, OF _ _ _ search_start subset_refl]
    card_length [of nodes]
  by (fastforce simp: detect_cycles_def bindE_Inr_iff graph_of_def)

text \<open>
  C11: the search for cycles is exact.  When the recursion limit is at least the number of nodes it
  returns; it reports nothing exactly when the edges between the nodes have no cycle; and every cycle it
  reports is one.
\<close>

theorem cycle_report_exact:
  assumes "length nodes \<le> limit"
  shows "\<exists>cs. detect_cycles limit nodes edges = Inr cs
    \<and> (cs = [] \<longleftrightarrow> acyclic (graph_of nodes edges))
    \<and> (\<forall>c \<in> set cs. closed_walk (graph_of nodes edges) c)"
  using detect_cycles_returns [OF assms] detect_cycles_exact by blast

lemma cycle_report_exact_witness:
  "(\<exists>cs. detect_cycles 3 [1 :: nat, 2, 3] [(1, 2), (2, 3), (3, 2), (3, 4)] = Inr cs
    \<and> (cs = [] \<longleftrightarrow> acyclic (graph_of [1 :: nat, 2, 3] [(1, 2), (2, 3), (3, 2), (3, 4)]))
    \<and> (\<forall>c \<in> set cs. closed_walk (graph_of [1 :: nat, 2, 3] [(1, 2), (2, 3), (3, 2), (3, 4)]) c))
   \<and> detect_cycles 3 [1 :: nat, 2, 3] [(1, 2), (2, 3), (3, 2), (3, 4)] = Inr [[3, 2]]"
proof
  show "\<exists>cs. detect_cycles 3 [1 :: nat, 2, 3] [(1, 2), (2, 3), (3, 2), (3, 4)] = Inr cs
    \<and> (cs = [] \<longleftrightarrow> acyclic (graph_of [1 :: nat, 2, 3] [(1, 2), (2, 3), (3, 2), (3, 4)]))
    \<and> (\<forall>c \<in> set cs. closed_walk (graph_of [1 :: nat, 2, 3] [(1, 2), (2, 3), (3, 2), (3, 4)]) c)"
    by (rule cycle_report_exact) simp
qed code_simp

section \<open>The size of the report\<close>

text \<open>
  Every edge is looked at once, from its parent when that node leaves white; so the cycles reported and the
  edges out of white nodes never add up to more than at the start.
\<close>

definition budget :: "('a \<times> 'a list) list \<Rightarrow> 'a search \<Rightarrow> nat" where
  "budget adj s = length (found s) + (\<Sum>x \<in> painted s White. length (get_or adj x []))"

definition thrifty :: "('a \<times> 'a list) list \<Rightarrow> 'a search \<Rightarrow> 'a search \<Rightarrow> nat \<Rightarrow> bool" where
  "thrifty adj s t extra \<longleftrightarrow> dom (map_of (colours t)) = dom (map_of (colours s)) \<and> budget adj t \<le> budget adj s + extra"

lemma finite_painted [simp]: "finite (painted s c)"
  by (rule finite_subset [OF _ finite_dom_map_of [of "colours s"]]) (auto simp: painted_def)

lemma budget_gray:
  "map_of (colours s) u = Some White \<Longrightarrow>
   budget adj (s\<lparr>colours := dset u Gray (colours s)\<rparr>) + length (get_or adj u []) = budget adj s"
proof -
  assume "map_of (colours s) u = Some White"
  then have "u \<in> painted s White" by (simp add: painted_def)
  then show ?thesis
    unfolding budget_def painted_update by (simp add: sum.remove [of "painted s White" u])
qed

lemma budget_black: "budget adj (s\<lparr>colours := dset u Black (colours s)\<rparr>) \<le> budget adj s"
  by (auto simp: budget_def painted_update intro: sum_mono2)

lemma look_thrifty:
  assumes "\<And>v t t'. look_child v t = Inr t' \<Longrightarrow> map_of (colours t) v = Some White \<Longrightarrow> thrifty adj t t' 0"
    and "look look_child u t v = Inr t'"
  shows "thrifty adj t t' 1"
  using assms(2) assms(1) [of v "t\<lparr>parents := dset v u (parents t)\<rparr>" t']
  by (fastforce simp: look_def thrifty_def budget_def bindE_Inr_iff split: option.splits colour.splits)

lemma looks_thrifty:
  assumes "\<And>v t t'. look_child v t = Inr t' \<Longrightarrow> map_of (colours t) v = Some White \<Longrightarrow> thrifty adj t t' 0"
  shows "foldE (look look_child u) t vs = Inr t' \<Longrightarrow> thrifty adj t t' (length vs)"
proof (induction vs arbitrary: t)
  case (Cons v vs)
  then obtain t1 where "look look_child u t v = Inr t1" "foldE (look look_child u) t1 vs = Inr t'"
    by (auto simp: bindE_Inr_iff)
  with Cons.IH look_thrifty [OF assms] show ?case by (fastforce simp: thrifty_def)
qed (simp add: thrifty_def)

lemma dfs_thrifty: "dfs n adj u s = Inr s' \<Longrightarrow> map_of (colours s) u = Some White \<Longrightarrow> thrifty adj s s' 0"
proof (induction n arbitrary: u s s')
  case (Suc n)
  from Suc.prems(1) obtain t where t: "foldE (look (dfs n adj) u) (s\<lparr>colours := dset u Gray (colours s)\<rparr>) (get_or adj u []) = Inr t"
    and s': "s' = t\<lparr>colours := dset u Black (colours t)\<rparr>" by (auto simp: bindE_Inr_iff)
  from looks_thrifty [OF Suc.IH t]
  have "thrifty adj (s\<lparr>colours := dset u Gray (colours s)\<rparr>) t (length (get_or adj u []))" .
  moreover have "insert u (dom (map_of (colours s))) = dom (map_of (colours s))" using Suc.prems(2) by auto
  ultimately show ?case
    using budget_gray [OF Suc.prems(2), of adj] budget_black [of adj u t] by (simp add: thrifty_def s')
qed simp

lemma roots_thrifty:
  "foldE (\<lambda>s h. if get_or (colours s) h White = White then dfs limit adj h s else Inr s) s hs = Inr s' \<Longrightarrow>
   set hs \<subseteq> dom (map_of (colours s)) \<Longrightarrow> thrifty adj s s' 0"
proof (induction hs arbitrary: s)
  case (Cons h hs)
  let ?step = "if get_or (colours s) h White = White then dfs limit adj h s else Inr s"
  from Cons.prems(1) obtain t where t: "?step = Inr t"
    and rest: "foldE (\<lambda>s h. if get_or (colours s) h White = White then dfs limit adj h s else Inr s) t hs = Inr s'"
    by (auto simp: bindE_Inr_iff)
  from Cons.prems(2) obtain c where "map_of (colours s) h = Some c" by auto
  with t dfs_thrifty [of limit adj h s t] have "thrifty adj s t 0"
    by (cases "c = White") (auto simp: get_or_def thrifty_def)
  with Cons.IH [OF rest] Cons.prems(2) show ?case by (auto simp: thrifty_def)
qed (simp add: thrifty_def)

lemma degree_step:
  "foldl (\<lambda>adj (p, c). if has_key adj p \<and> has_key adj c then dset p (get_or adj p [] @ [c]) adj else adj) adj edges = adj'
   \<Longrightarrow> fst ` set adj = N \<Longrightarrow> (\<Sum>x \<in> N. length (get_or adj' x []))
     = (\<Sum>x \<in> N. length (get_or adj x [])) + length (filter (\<lambda>(p, c). p \<in> N \<and> c \<in> N) edges)"
proof (induction edges arbitrary: adj)
  case (Cons e edges)
  obtain p c where e: "e = (p, c)" by (cases e)
  have fin: "finite N" using Cons.prems(2) by auto
  show ?case
  proof (cases "has_key adj p \<and> has_key adj c")
    case True
    let ?next = "dset p (get_or adj p [] @ [c]) adj"
    have inside: "p \<in> N" "c \<in> N" using True Cons.prems(2) by (auto simp: has_key_def)
    have keys: "fst ` set ?next = N" using inside Cons.prems(2) by (auto simp: dom_update)
    have "(\<Sum>x \<in> N. length (get_or ?next x [])) = Suc (\<Sum>x \<in> N. length (get_or adj x []))"
      using fin inside(1) by (simp add: sum.remove [of N p])
    moreover have "(\<Sum>x \<in> N. length (get_or adj' x []))
      = (\<Sum>x \<in> N. length (get_or ?next x [])) + length (filter (\<lambda>(p, c). p \<in> N \<and> c \<in> N) edges)"
      using Cons.IH [of ?next] Cons.prems(1) True keys by (simp add: e)
    ultimately show ?thesis using inside by (simp add: e)
  next
    case False
    then have "\<not> (p \<in> N \<and> c \<in> N)" using Cons.prems(2) by (auto simp: has_key_def)
    with False Cons.IH [of adj] Cons.prems show ?thesis by (auto simp: e)
  qed
qed simp

lemma report_bounded:
  assumes "detect_cycles limit nodes edges = Inr cs"
  shows "length cs \<le> length (filter (\<lambda>(p, c). p \<in> set nodes \<and> c \<in> set nodes) edges)"
proof -
  let ?s0 = "\<lparr>colours = map (\<lambda>h. (h, White)) nodes, parents = [], found = []\<rparr>"
  let ?adj = "adjacency nodes edges"
  let ?none = "map (\<lambda>h. (h, [])) nodes"
  from assms obtain s where run: "foldE (\<lambda>s h. if get_or (colours s) h White = White then dfs limit ?adj h s else Inr s) ?s0 nodes = Inr s"
    and cs: "cs = found s" by (auto simp: detect_cycles_def bindE_Inr_iff)
  have none: "get_or ?none u [] = []" for u
    by (auto simp: get_or_def map_of_map_restrict restrict_map_def split: option.splits)
  have dom: "dom (map_of (map (\<lambda>h. (h, White)) nodes)) = set nodes"
    by (auto simp: map_of_map_restrict restrict_map_def split: if_splits)
  have white: "painted ?s0 White = set nodes"
    by (auto simp: painted_def map_of_map_restrict restrict_map_def split: if_splits)
  have "length cs \<le> budget ?adj s" by (simp add: budget_def cs)
  also have "\<dots> \<le> budget ?adj ?s0" using roots_thrifty [OF run] by (simp add: dom thrifty_def)
  also have "\<dots> = (\<Sum>x \<in> set nodes. length (get_or ?adj x []))" by (simp add: budget_def white)
  also have "\<dots> = length (filter (\<lambda>(p, c). p \<in> set nodes \<and> c \<in> set nodes) edges)"
    using degree_step [of ?none edges ?adj "set nodes"] by (simp add: adjacency_def none image_comp comp_def)
  finally show ?thesis .
qed

lemma cycle_short:
  assumes "closed_walk (graph_of nodes edges) c" "distinct c"
  shows "length c \<le> card (set nodes)"
proof -
  have edge: "x \<in> set nodes" if "(x, y) \<in> graph_of nodes edges" for x y using that by (simp add: graph_of_def)
  have inside: "set (x # xs) \<subseteq> set nodes" if "successively (\<lambda>a b. (a, b) \<in> graph_of nodes edges) (x # xs @ [y])" for x xs y
    using that by (induction xs arbitrary: x) (auto dest: edge simp del: split_paired_All)
  from assms(1) have "set c \<subseteq> set nodes" using inside by (cases c) (auto simp: closed_walk_def)
  then show ?thesis using distinct_card [OF assms(2)] card_mono [of "set nodes" "set c"] by simp
qed

text \<open>
  The report of the cycle search is bounded.  Whatever the graph, there are at most as many reported
  cycles as edges between known nodes, no reported cycle names a node twice, and none is longer than the
  number of nodes.
\<close>

theorem cycle_report_bounded:
  assumes "detect_cycles limit nodes edges = Inr cs"
  shows "length cs \<le> length (filter (\<lambda>(p, c). p \<in> set nodes \<and> c \<in> set nodes) edges)
    \<and> (\<forall>c \<in> set cs. distinct c \<and> length c \<le> card (set nodes))"
  using report_bounded [OF assms] detect_cycles_exact [OF assms] cycle_short by blast

lemma cycle_report_bounded_witness:
  "length [[3 :: nat, 2]] \<le> length (filter (\<lambda>(p, c). p \<in> set [1 :: nat, 2, 3] \<and> c \<in> set [1 :: nat, 2, 3]) [(1 :: nat, 2), (2, 3), (3, 2), (3, 4)])
    \<and> distinct [3 :: nat, 2] \<and> length [3 :: nat, 2] \<le> card (set [1 :: nat, 2, 3])"
proof -
  have run: "detect_cycles 3 [1 :: nat, 2, 3] [(1, 2), (2, 3), (3, 2), (3, 4)] = Inr [[3, 2]]" by code_simp
  from cycle_report_bounded [OF run] show ?thesis by simp
qed

end
