(* ===== verification/Evidence_Inventory.thy ===== *)
theory Evidence_Inventory
  imports Run_Directory Cycle_Search
begin

text \<open>
  The consistency of an evidence inventory (\<^verbatim>\<open>_validate_evidence_dag_inventory\<close> and
  \<^verbatim>\<open>check_evidence_dag\<close> of \<^verbatim>\<open>scripts/forensic/verify.py\<close>).  The hashes of an inventory are JSON values; a
  Python set of them is the list of its elements, distinct for \<^verbatim>\<open>==\<close>, in the order of insertion.  The
  order in which the interpreter visits the set of nodes and its recursion limit are the parameter
  record \<open>interpreter\<close>.
\<close>

record interpreter =
  recursion_limit :: nat
  set_order :: "pv list \<Rightarrow> pv list"

section \<open>Sets of values\<close>

definition dedupe :: "pv list \<Rightarrow> pv list" where
  "dedupe xs = foldl (\<lambda>acc v. if list_ex (py_eq v) acc then acc else acc @ [v]) [] xs"

definition value_set :: "pv list \<Rightarrow> ev_error + pv list" where
  "value_set xs = (if list_all hashable xs then Inr (dedupe xs) else Inl (Builtin TypeError))"

definition in_set :: "pv \<Rightarrow> pv list \<Rightarrow> ev_error + bool" where
  "in_set v xs = (if hashable v then Inr (list_ex (py_eq v) xs) else Inl (Builtin TypeError))"

text \<open>\<^verbatim>\<open>sorted(...)\<close> of a set of values: strings, or numbers, but no mixture.\<close>

definition sorted_values :: "pv list \<Rightarrow> ev_error + pv list" where
  "sorted_values xs =
     (if list_all is_str xs then Inr (sort_key str_of xs)
      else if list_all is_number xs then Inr (sort_key (\<lambda>v. the (num_of v)) xs)
      else if length xs \<le> 1 then Inr xs else Inl (Builtin TypeError))"

definition join_values :: "string \<Rightarrow> pv list \<Rightarrow> ev_error + string" where
  "join_values sep vs = (if list_all is_str vs then Inr (join sep (map str_of vs)) else Inl (Builtin TypeError))"

text \<open>\<^verbatim>\<open>[v.get(k) for v in vs if v.get(k)]\<close>.\<close>

definition truthy_fields :: "string \<Rightarrow> pv list \<Rightarrow> ev_error + pv list" where
  "truthy_fields k vs = bindE (mapE (\<lambda>v. get_none v k) vs) (\<lambda>xs. Inr (filter truthy xs))"

section \<open>References and cycles\<close>

text \<open>\<^verbatim>\<open>a.get(k1) or a.get(k2) or ...\<close>.\<close>

fun first_of :: "pv \<Rightarrow> string list \<Rightarrow> ev_error + pv" where
  "first_of v [] = Inr PNone"
| "first_of v [k] = get_none v k"
| "first_of v (k # l # ks) = bindE (get_none v k) (\<lambda>x. if truthy x then Inr x else first_of v (l # ks))"

definition bundle_root_reference :: "pv \<Rightarrow> ev_error + pv" where
  "bundle_root_reference root = first_of root [''dag/root-node-hash'', ''execution/node-hash'', ''execution/content-hash'']"

text \<open>
  The edges whose ends are nodes.  Values that are equal in Python are the same dictionary key, so the
  search runs on \<^const>\<open>plain\<close> values.
\<close>

definition node_edges :: "pv list \<Rightarrow> pv list \<Rightarrow> ev_error + (pv \<times> pv) list" where
  "node_edges nodes edges =
     bindE (mapE (\<lambda>e.
       bindE (get_none e ''parent'') (\<lambda>p.
       bindE (get_none e ''child'') (\<lambda>c.
       bindE (in_set p nodes) (\<lambda>has_p.
       if \<not> has_p then Inr []
       else bindE (in_set c nodes) (\<lambda>has_c. Inr (if has_c then [(plain p, plain c)] else [])))))) edges) (\<lambda>es. Inr (concat es))"

definition detect_dag_cycles :: "interpreter \<Rightarrow> pv list \<Rightarrow> pv list \<Rightarrow> ev_error + pv list list" where
  "detect_dag_cycles I edges nodes =
     bindE (node_edges nodes edges) (\<lambda>es.
       case detect_cycles (recursion_limit I) (map plain (set_order I nodes)) es of
         Inl e \<Rightarrow> Inl (Builtin e)
       | Inr cs \<Rightarrow> Inr cs)"

definition cycle_text :: "pv list \<Rightarrow> ev_error + pv" where
  "cycle_text c =
     bindE (join_values '' -> '' (take 5 c)) (\<lambda>t. Inr (PStr (t @ (if 5 < length c then ''...'' else []))))"

section \<open>The inventory\<close>

record parsed_inventory =
  pi_nodes :: "pv list"
  pi_edges :: "pv list"
  pi_good :: "pv list"
  pi_hashes :: "pv list"

definition read_inventory :: "pv \<Rightarrow> ev_error + parsed_inventory" where
  "read_inventory inventory =
     bindE (bindE (get_in inventory ''dag/nodes'' (PList [])) iter_of) (\<lambda>nodes.
     bindE (get_in inventory ''dag/edges'' (PList [])) (\<lambda>edges.
     bindE (mapE (\<lambda>n. bindE (get_none n ''parse-error'') (\<lambda>e. Inr (n, \<not> truthy e))) nodes) (\<lambda>marked.
     let good = map fst (filter snd marked) in
     bindE (bindE (truthy_fields ''node-hash'' good) value_set) (\<lambda>hashes.
     bindE (iter_of edges) (\<lambda>es.
       Inr \<lparr>pi_nodes = nodes, pi_edges = es, pi_good = good, pi_hashes = hashes\<rparr>)))))"

definition inventory_only :: "pv \<Rightarrow> nat \<Rightarrow> ev_error + string list" where
  "inventory_only inventory disk =
     bindE (get_none inventory ''dag/semantic-status'') (\<lambda>st.
       Inr (if st = PStr ''inventory-only'' \<and> 0 < disk
            then [''evidence-dag inventory did not semantically parse any EDN nodes''] else []))"

definition file_count_errors :: "pv \<Rightarrow> nat \<Rightarrow> ev_error + string list" where
  "file_count_errors inventory disk =
     bindE (bindE (get_in inventory ''dag/file-hashes'' (PList [])) len_of) (\<lambda>n.
       Inr (if n \<noteq> disk
            then [''inventory file count mismatch: inventory='' @ nat_str n @ '' disk='' @ nat_str disk] else []))"

definition duplicate_errors :: "parsed_inventory \<Rightarrow> ev_error + string list" where
  "duplicate_errors P =
     bindE (mapE (\<lambda>n. get_none n ''node-hash'') (pi_good P)) (\<lambda>all.
     bindE (sorted_values (filter (\<lambda>h. 1 < length (filter (py_eq h) all)) (pi_hashes P))) (\<lambda>dups.
       Inr (if dups \<noteq> [] then [''duplicate node hashes found: '' @ py_repr (PList dups)] else [])))"

definition name_errors :: "parsed_inventory \<Rightarrow> ev_error + string list" where
  "name_errors P =
     bindE (bindE (truthy_fields ''file'' (pi_nodes P)) value_set) (\<lambda>names.
       Inr (if length names \<noteq> length (pi_nodes P)
            then [''one or more evidence-dag nodes are missing file names''] else []))"

definition parse_errors :: "parsed_inventory \<Rightarrow> string list" where
  "parse_errors P =
     (let n = length (pi_nodes P) - length (pi_good P) in
      if 0 < n then [nat_str n @ '' evidence-dag file(s) failed to parse''] else [])"

definition cycle_errors :: "interpreter \<Rightarrow> parsed_inventory \<Rightarrow> ev_error + string list" where
  "cycle_errors I P =
     (if pi_hashes P = [] then Inr []
      else bindE (detect_dag_cycles I (pi_edges P) (pi_hashes P)) (\<lambda>cycles.
        if cycles = [] then Inr []
        else bindE (mapE cycle_text (take 5 cycles)) (\<lambda>descs.
          Inr [''evidence DAG contains '' @ nat_str (length cycles) @ '' cycle(s): '' @ py_repr (PList descs)])))"

text \<open>The set of \<^verbatim>\<open>(parent, child)\<close> pairs; membership hashes both components.\<close>

definition same_pair :: "pv \<times> pv \<Rightarrow> pv \<times> pv \<Rightarrow> bool" where
  "same_pair a b \<longleftrightarrow> py_eq (fst a) (fst b) \<and> py_eq (snd a) (snd b)"

definition edge_pairs :: "pv list \<Rightarrow> ev_error + (pv \<times> pv) list" where
  "edge_pairs edges =
     bindE (mapE (\<lambda>e.
       bindE (get_none e ''parent'') (\<lambda>p.
       bindE (if truthy p then get_none e ''child'' else Inr PNone) (\<lambda>c.
       if truthy p \<and> truthy c
       then if hashable p \<and> hashable c then Inr [(p, c)] else Inl (Builtin TypeError)
       else Inr []))) edges) (\<lambda>es.
     Inr (foldl (\<lambda>acc e. if list_ex (same_pair e) acc then acc else acc @ [e]) [] (concat es)))"

definition in_pairs :: "pv \<Rightarrow> pv \<Rightarrow> (pv \<times> pv) list \<Rightarrow> ev_error + bool" where
  "in_pairs p c pairs =
     (if hashable p \<and> hashable c then Inr (list_ex (same_pair (p, c)) pairs) else Inl (Builtin TypeError))"

text \<open>What the loop over the parents of the nodes accumulates: errors, unresolved parents, edges.\<close>

type_synonym link_state = "string list \<times> pv list \<times> nat"

definition link_parent :: "pv list \<Rightarrow> (pv \<times> pv) list \<Rightarrow> pv \<Rightarrow> link_state \<Rightarrow> pv \<Rightarrow> ev_error + link_state" where
  "link_parent hashes pairs child = (\<lambda>(errs, unresolved, count) p.
     bindE (in_set p hashes) (\<lambda>known.
     bindE (in_pairs p child pairs) (\<lambda>linked.
       Inr (if linked then errs else errs @ [''missing DAG edge '' @ py_str p @ '' -> '' @ py_str child],
            if known \<or> list_ex (py_eq p) unresolved then unresolved else unresolved @ [p],
            count))))"

definition parents_of :: "pv \<Rightarrow> ev_error + pv list" where
  "parents_of node = bindE (bindE (get_in node ''parent-hashes'' (PList [])) iter_of) (\<lambda>ps. Inr (filter truthy ps))"

definition link_node :: "pv list \<Rightarrow> (pv \<times> pv) list \<Rightarrow> link_state \<Rightarrow> pv \<Rightarrow> ev_error + link_state" where
  "link_node hashes pairs st node =
     bindE (get_none node ''node-hash'') (\<lambda>child.
     bindE (parents_of node) (\<lambda>ps.
       foldE (link_parent hashes pairs child) (fst st, fst (snd st), snd (snd st) + length ps) ps))"

definition link_errors :: "parsed_inventory \<Rightarrow> ev_error + string list" where
  "link_errors P =
     bindE (edge_pairs (pi_edges P)) (\<lambda>pairs.
     bindE (foldE (link_node (pi_hashes P) pairs) ([], [], 0) (pi_good P)) (\<lambda>(errs, unresolved, count).
     bindE (if unresolved = [] then Inr [] else bindE (sorted_values unresolved) (\<lambda>us.
       Inr [''unresolved parent hashes: '' @ py_repr (PList us)])) (\<lambda>unresolved_errs.
       Inr (errs @ unresolved_errs
         @ (if length pairs \<noteq> count
            then [''edge count mismatch: inventory='' @ nat_str (length pairs) @ '' expected='' @ nat_str count] else [])))))"

text \<open>\<^verbatim>\<open>any(ref in node_hashes for ref in root_refs)\<close>.\<close>

fun any_in_set :: "pv list \<Rightarrow> pv list \<Rightarrow> ev_error + bool" where
  "any_in_set [] hashes = Inr False"
| "any_in_set (r # rs) hashes = bindE (in_set r hashes) (\<lambda>b. if b then Inr True else any_in_set rs hashes)"

definition root_errors :: "parsed_inventory \<Rightarrow> pv list \<Rightarrow> ev_error + string list" where
  "root_errors P roots =
     bindE (mapE bundle_root_reference roots) (\<lambda>rs.
     let refs = filter truthy rs in
     if refs \<noteq> []
     then bindE (any_in_set refs (pi_hashes P)) (\<lambda>resolved.
       if resolved then Inr []
       else bindE (join_values '', '' refs) (\<lambda>t.
         Inr [''bundle root references do not resolve to an evidence-dag node: '' @ t]))
     else Inr (if pi_good P \<noteq> [] then [''bundle root does not include a DAG root reference''] else []))"

definition index_errors :: "pv \<Rightarrow> parsed_inventory \<Rightarrow> ev_error + string list" where
  "index_errors inventory P =
     bindE (get_none inventory ''dag/index'') (\<lambda>idx.
     if idx = PNone then Inr []
     else bindE (get_in idx ''dag-index/summary'' (PDict [])) (\<lambda>summary.
       bindE (get_in summary ''node-count'' (PInt 0)) (\<lambda>n.
       bindE (get_in idx ''dag-index/roots'' (PList [])) (\<lambda>roots.
       bindE (get_in summary ''orphan-count'' (PInt 0)) (\<lambda>orphans.
       case num_of orphans of
         None \<Rightarrow> Inl (Builtin TypeError)
       | Some k \<Rightarrow> Inr
          ((if \<not> py_eq n (PInt (int (length (pi_good P))))
            then [''dag/index node count mismatch: index='' @ py_str n @ '' parsed='' @ nat_str (length (pi_good P))] else [])
           @ (if pi_good P \<noteq> [] \<and> \<not> truthy roots then [''dag/index reports no roots but parsed nodes exist''] else [])
           @ (if 0 < k then [''dag/index reports '' @ py_str orphans @ '' orphan node(s) with unresolved parents''] else [])))))))"

text \<open>The errors in the order in which the code appends them.\<close>

definition inventory_errors :: "interpreter \<Rightarrow> pv \<Rightarrow> pv list \<Rightarrow> nat \<Rightarrow> ev_error + string list" where
  "inventory_errors I inventory roots disk =
     bindE (read_inventory inventory) (\<lambda>P.
     bindE (mapE id
       [inventory_only inventory disk, file_count_errors inventory disk, duplicate_errors P, name_errors P, Inr (parse_errors P),
        cycle_errors I P, link_errors P, root_errors P roots, index_errors inventory P]) (\<lambda>es.
       Inr (concat es)))"

section \<open>The check\<close>

definition has_edn_suffix :: "string \<Rightarrow> bool" where
  "has_edn_suffix n \<longleftrightarrow> 4 < length n \<and> ends_with ''.edn'' n"

definition edn_files :: "bundle_dir \<Rightarrow> string list" where
  "edn_files W = filter has_edn_suffix (files_in W [''evidence-dag''])"

definition bundle_roots :: "bundle_dir \<Rightarrow> pv list" where
  "bundle_roots W = concat (map (\<lambda>n. case truthy_at W [n] of None \<Rightarrow> [] | Some v \<Rightarrow> [v])
     [''clojure-bundle-root.json'', ''run-bundle-root.json''])"

definition main_reference :: "bundle_dir \<Rightarrow> ev_error + pv" where
  "main_reference W = bundle_root_reference (case bundle_roots W of [] \<Rightarrow> PDict [] | r # _ \<Rightarrow> r)"

definition check_evidence_dag :: "interpreter \<Rightarrow> bundle_dir \<Rightarrow> ev_error + run_check" where
  "check_evidence_dag I W =
     (let key = ''evidence-dag-present'' in
      if \<not> entry_exists W [''evidence-dag''] then Inr (mk_rcheck key ''fail'' ''evidence-dag/ directory not found'' ''required'')
      else if \<not> is_folder W [''evidence-dag''] then Inl (Builtin NotADirectoryError)
      else
        let contains_n = ''evidence-dag/ contains '' @ nat_str (length (files_in W [''evidence-dag''])) @ '' file(s)'' in
        bindE (main_reference W) (\<lambda>ref.
        case truthy_at W [''evidence-dag-inventory.json''] of
          Some inventory \<Rightarrow>
            bindE (inventory_errors I inventory (bundle_roots W) (length (edn_files W))) (\<lambda>errs.
            if errs \<noteq> [] then Inr (mk_rcheck key ''fail'' (join ''; '' errs) ''required'')
            else bindE (if truthy ref then bindE (head16 ref) (\<lambda>t. Inr ('', root='' @ t)) else Inr []) (\<lambda>ref_msg.
              bindE (bindE (get_in inventory ''dag/nodes'' (PList [])) len_of) (\<lambda>n.
              Inr (mk_rcheck key ''pass'' (contains_n @ ''; parsed '' @ nat_str n @ '' node(s)'' @ ref_msg) ''required''))))
        | None \<Rightarrow>
            if edn_files W = [] then Inr (mk_rcheck key ''info'' contains_n ''info'')
            else if truthy ref
            then bindE (head16 ref) (\<lambda>t. Inr (mk_rcheck key ''pass'' (contains_n @ ''; bundle root references '' @ t) ''required''))
            else Inr (mk_rcheck key ''info'' contains_n ''info'')))"

end
