(* ===== verification/Public_Key.thy ===== *)
theory Public_Key
  imports Run_Directory
begin

text \<open>
  Reading an Ed25519 public key in its three formats and checking the signature of a bundle root
  (\<^verbatim>\<open>scripts/forensic/verify.py\<close>).  The signature scheme of the package \<^verbatim>\<open>nacl\<close> and the Clojure process are
  parameters.
\<close>

section \<open>Base64\<close>

definition b64_val :: "char \<Rightarrow> nat option" where
  "b64_val c =
     (let n = (of_char c :: nat) in
      if 65 \<le> n \<and> n \<le> 90 then Some (n - 65)
      else if 97 \<le> n \<and> n \<le> 122 then Some (n - 71)
      else if 48 \<le> n \<and> n \<le> 57 then Some (n + 4)
      else if n = 43 then Some 62 else if n = 47 then Some 63 else None)"

text \<open>
  \<^verbatim>\<open>base64.b64decode\<close> without validation: characters outside the alphabet are skipped, a complete padding
  ends the data.  The arguments are the position in the group of four, the bits left over and the
  padding characters seen.
\<close>

fun b64_read :: "nat \<Rightarrow> nat \<Rightarrow> nat \<Rightarrow> string \<Rightarrow> bytes option" where
  "b64_read quad left pads [] = (if quad = 0 then Some [] else None)"
| "b64_read quad left pads (c # cs) =
     (if c = CHR ''=''
      then if 2 \<le> quad \<and> 4 \<le> quad + Suc pads then Some []
           else b64_read quad left (if 2 \<le> quad then Suc pads else pads) cs
      else case b64_val c of
             None \<Rightarrow> b64_read quad left pads cs
           | Some v \<Rightarrow>
               if quad = 0 then b64_read 1 v 0 cs
               else if quad = 1 then map_option (Cons (of_nat (left * 4 + v div 16))) (b64_read 2 (v mod 16) 0 cs)
               else if quad = 2 then map_option (Cons (of_nat (left * 16 + v div 4))) (b64_read 3 (v mod 4) 0 cs)
               else map_option (Cons (of_nat (left * 64 + v))) (b64_read 0 0 0 cs))"

definition b64decode :: "string \<Rightarrow> py_error + bytes" where
  "b64decode s =
     (if list_all (\<lambda>c. (of_char c :: nat) < 128) s
      then case b64_read 0 0 0 s of None \<Rightarrow> Inl (ValueError ''Incorrect padding'') | Some bs \<Rightarrow> Inr bs
      else Inl (ValueError ''string argument should contain only ASCII characters''))"

section \<open>Key files\<close>

text \<open>\<^verbatim>\<open>s.split()\<close> and \<^verbatim>\<open>s.splitlines()\<close>.\<close>

fun split_at :: "(char \<Rightarrow> bool) \<Rightarrow> string \<Rightarrow> string list" where
  "split_at p [] = [[]]"
| "split_at p (c # cs) =
     (if p c then [] # split_at p cs
      else case split_at p cs of [] \<Rightarrow> [[c]] | w # ws \<Rightarrow> (c # w) # ws)"

definition split_space :: "string \<Rightarrow> string list" where
  "split_space s = filter (\<lambda>w. w \<noteq> []) (split_at str_space s)"

definition line_end :: "char \<Rightarrow> bool" where
  "line_end c \<longleftrightarrow> (let n = (of_char c :: nat) in (10 \<le> n \<and> n \<le> 13) \<or> (28 \<le> n \<and> n \<le> 30) \<or> n = 0x85)"

text \<open>The loop over the lines drops the markers; empty lines add nothing, so each end of line may split.\<close>

definition pem_body :: "string \<Rightarrow> string" where
  "pem_body s = concat (filter (\<lambda>l. \<not> starts_with ''---'' l) (split_at line_end s))"

definition ed25519_spki_prefix :: bytes where
  "ed25519_spki_prefix = [0x30, 0x2a, 0x30, 0x05, 0x06, 0x03, 0x2b, 0x65, 0x70, 0x03, 0x21, 0x00]"

definition ssh_read_len :: "bytes \<Rightarrow> nat \<Rightarrow> nat" where
  "ssh_read_len data offset = be_nat (take 4 (drop offset data))"

definition ssh_key_bytes :: "bytes \<Rightarrow> bytes" where
  "ssh_key_bytes raw =
     (let offset = 4 + ssh_read_len raw 0; key_len = ssh_read_len raw offset
      in take key_len (drop (offset + 4) raw))"

definition load_ed25519_public_key_bytes :: "string \<Rightarrow> string \<Rightarrow> py_error + bytes" where
  "load_ed25519_public_key_bytes path_text content =
     (let text = strip content in
      if starts_with ''ssh-ed25519'' text
      then let parts = split_space text in
           if length parts < 2 then Inl (ValueError ''Malformed SSH public key: missing base64 body'')
           else bindE (b64decode (parts ! 1)) (\<lambda>raw. Inr (ssh_key_bytes raw))
      else if starts_with ''-----BEGIN'' text
      then bindE (b64decode (pem_body text)) (\<lambda>der.
           if take 12 der = ed25519_spki_prefix then Inr (drop 12 der)
           else Inl (ValueError ''PEM key is not Ed25519 SPKI format''))
      else if length text = 64 \<and> list_all is_hex_char text
      then (case fromhex text of None \<Rightarrow> Inl (ValueError ''non-hexadecimal number'') | Some bs \<Rightarrow> Inr bs)
      else Inl (ValueError (''Unsupported public key format at '' @ path_text @ '' (expected SSH, PEM, or raw hex)'')))"

section \<open>Signatures\<close>

datatype key_file = NoKeyFile | KeyText string | UnreadableKey

datatype clojure_run = NotInstalled | RunFailed string | Ran string string

record signature_env =
  key_path :: string
  key_file_at :: key_file
  ed25519_verifies :: "bytes \<Rightarrow> string \<Rightarrow> bytes \<Rightarrow> bool"
  clojure_verify :: "pv \<Rightarrow> pv \<Rightarrow> clojure_run"

text \<open>Any exception on the way makes the native verification answer false.\<close>

definition verify_ed25519_native :: "signature_env \<Rightarrow> pv \<Rightarrow> pv \<Rightarrow> bool" where
  "verify_ed25519_native S bundle_hash sig =
     (case (bundle_hash, sig, key_file_at S) of
        (PStr h, PStr s, KeyText content) \<Rightarrow>
          (case (fromhex s, load_ed25519_public_key_bytes (key_path S) content) of
             (Some sig_bytes, Inr pub) \<Rightarrow> ed25519_verifies S pub h sig_bytes
           | _ \<Rightarrow> False)
      | _ \<Rightarrow> False)"

definition clojure_answer :: "clojure_run \<Rightarrow> bool option \<times> string option" where
  "clojure_answer r =
     (case r of
        NotInstalled \<Rightarrow> (None, None)
      | RunFailed msg \<Rightarrow> (None, Some (take 200 msg))
      | Ran out err \<Rightarrow>
          (let clean = strip out in
           if clean = ''true'' then (Some True, None)
           else if clean = ''false'' then (Some False, None)
           else (None, Some (take 200 (if err \<noteq> [] then err else clean)))))"

definition native_or_fallback :: "signature_env \<Rightarrow> pv \<Rightarrow> pv \<Rightarrow> pv \<Rightarrow> bool \<times> string" where
  "native_or_fallback S bundle_hash sig kid =
     (let native = verify_ed25519_native S bundle_hash sig;
          (clojure, err) = clojure_answer (clojure_verify S bundle_hash sig);
 key_label = (if truthy kid then py_str kid else key_path S) in
      case clojure of
        None \<Rightarrow>
          if native then (True, ''Ed25519 signature valid (native Python, key: '' @ key_label @ '')'')
          else (False, ''Ed25519 signature INVALID (native Python, key: '' @ key_label @ '')'')
      | Some ok \<Rightarrow>
          if native \<and> ok then (True, ''Ed25519 signature valid (native + Clojure agree, key: '' @ key_label @ '')'')
          else if \<not> native \<and> \<not> ok then (False, ''Ed25519 signature INVALID (native + Clojure agree, key: '' @ key_label @ '')'')
          else if native
          then (False, ''CLOJURE DISAGREES with native verification''
                  @ (case err of None \<Rightarrow> [] | Some e \<Rightarrow> if e = [] then [] else '' (Clojure error: '' @ e @ '')'')
                  @ '' (key: '' @ key_label @ '')'')
          else (False, ''NATIVE DISAGREES with Clojure verification''
                  @ (if err = None then '' (key format may be unsupported by native parser)'' else [])
                  @ '' (key: '' @ key_label @ '')''))"

definition check_bundle_signature :: "bundle_dir \<Rightarrow> signature_env option \<Rightarrow> ev_error + run_check" where
  "check_bundle_signature W env =
     (let key = ''bundle-signature'' in
      case truthy_at W [''run-bundle-root.json''] of
        None \<Rightarrow> Inr (mk_rcheck key ''skip'' ''Cannot verify signature: bundle root not parseable'' ''warning'')
      | Some v \<Rightarrow>
          bindE (get_none v ''bundle/signature'') (\<lambda>sig.
          bindE (get_none v ''bundle/signing-key-id'') (\<lambda>kid.
          bindE (get_none v ''bundle/hash'') (\<lambda>bundle_hash. Inr
            (if \<not> truthy sig \<or> \<not> truthy bundle_hash
             then mk_rcheck key ''info'' ''Bundle is not signed (no signature field)'' ''info''
             else case env of
               None \<Rightarrow> mk_rcheck key ''info''
                 (''Bundle signed with key '' @ [CHR 0x27] @ py_str kid @ [CHR 0x27] @ '' but no --public-key provided to verify'') ''info''
             | Some S \<Rightarrow>
                 if key_file_at S = NoKeyFile
                 then mk_rcheck key ''fail'' (''Public key not found at '' @ key_path S) ''required''
                 else let (valid, detail) = native_or_fallback S bundle_hash sig kid in
                      mk_rcheck key (if valid then ''pass'' else ''fail'') detail (if valid then ''warning'' else ''required''))))))"

end
