(* ===== verification/Sew_Validation.thy ===== *)
theory Sew_Validation
  imports Run_Directory
begin

text \<open>
  The validator of the protocol \<^verbatim>\<open>sew\<close>, version 1 (\<^verbatim>\<open>scripts/forensic/validate_sew.py\<close>): the lifecycle of
  forced authorisations (granted, revoked, executed) in the evidence events of a run and in the state
  witness of its bundle root.  Fields may carry a leading colon.
\<close>

section \<open>Checks and fields\<close>

record vcheck =
  vc_name :: string
  vc_status :: string
  vc_message :: string
  vc_details :: "obj list option"

definition mk_vcheck :: "string \<Rightarrow> string \<Rightarrow> string \<Rightarrow> vcheck" where
  "mk_vcheck n st msg = \<lparr>vc_name = n, vc_status = st, vc_message = msg, vc_details = None\<rparr>"

definition vcheck_pv :: "vcheck \<Rightarrow> pv" where
  "vcheck_pv c = PDict ([(''check'', PStr (vc_name c)), (''status'', PStr (vc_status c)), (''message'', PStr (vc_message c))]
     @ (case vc_details c of None \<Rightarrow> [] | Some ds \<Rightarrow> [(''details'', PList (map PDict ds))]))"

lemma mk_vcheck_simps [simp]:
  "vc_name (mk_vcheck n st msg) = n" "vc_status (mk_vcheck n st msg) = st" "vc_message (mk_vcheck n st msg) = msg"
  by (simp_all add: mk_vcheck_def)

text \<open>\<^verbatim>\<open>mapping.get(name, mapping.get(f":{name}", default))\<close>, and the same followed by \<^verbatim>\<open>or default\<close>.\<close>

definition fielded :: "pv \<Rightarrow> string \<Rightarrow> pv \<Rightarrow> ev_error + pv" where
  "fielded v name x = bindE (get_in v (CHR '':'' # name) x) (\<lambda>y. get_in v name y)"

abbreviation fielded_none :: "pv \<Rightarrow> string \<Rightarrow> ev_error + pv" where
  "fielded_none v name \<equiv> fielded v name PNone"

definition fielded_or :: "pv \<Rightarrow> string \<Rightarrow> pv \<Rightarrow> ev_error + pv" where
  "fielded_or v name x = bindE (fielded v name x) (\<lambda>y. Inr (if truthy y then y else x))"

text \<open>\<^verbatim>\<open>v.get(name) or v.get(":" + name)\<close>.\<close>

definition either_field :: "pv \<Rightarrow> string \<Rightarrow> ev_error + pv" where
  "either_field v name = bindE (get_none v name) (\<lambda>x. if truthy x then Inr x else get_none v (CHR '':'' # name))"

section \<open>Evidence events\<close>

definition sew_event_reasons :: "string list" where
  "sew_event_reasons = [''force-authorisation-granted'', ''force-authorisation-revoked'', ''force-authorisation-executed'']"

record sew_event =
  se_file :: string
  se_type :: string
  se_auth :: pv
  se_seq :: pv

definition or_value :: "pv \<Rightarrow> pv \<Rightarrow> pv" where
  "or_value v x = (if truthy v then v else x)"

definition read_sew_event :: "string \<Rightarrow> pv \<Rightarrow> ev_error + sew_event list" where
  "read_sew_event file ev =
     bindE (either_field ev ''evidence/type'') (\<lambda>etype.
     bindE (either_field ev ''evidence/reason'') (\<lambda>rtype.
     let key = py_str (or_value (or_value etype (PStr [])) (or_value rtype (PStr []))) in
     if key \<notin> set sew_event_reasons then Inr []
     else bindE (either_field ev ''force-auth/auth-id'') (\<lambda>aid.
          bindE (either_field ev ''event/seq'') (\<lambda>sq.
            Inr [\<lparr>se_file = file, se_type = key, se_auth = aid, se_seq = or_value sq (PInt 0)\<rparr>]))))"

definition find_sew_evidence_files :: "bundle_dir \<Rightarrow> ev_error + sew_event list" where
  "find_sew_evidence_files W =
     (if \<not> is_folder W [''event-evidence''] then Inr []
      else bindE (mapE (\<lambda>n.
             if \<not> ends_with ''.json'' n then Inr []
             else case load_at W [''event-evidence'', n] of
                    None \<Rightarrow> Inr []
                  | Some ev \<Rightarrow> if ev = PNone then Inr []
                      else read_sew_event (full_path W (''event-evidence/'' @ n)) ev)
           (sort (names_in W [''event-evidence'']))) (\<lambda>es. Inr (concat es)))"

section \<open>The state hashes of the bundle root\<close>

definition hash_shape :: "string \<Rightarrow> string \<Rightarrow> pv \<Rightarrow> ev_error + vcheck" where
  "hash_shape name label h =
     (if truthy h
      then bindE (head16 h) (\<lambda>t. Inr (mk_vcheck name (if is_str h then ''pass'' else ''fail'') (label @ '': '' @ t)))
      else Inr (mk_vcheck name ''fail'' (label @ '' is missing or empty'')))"

definition validate_bundle_root :: "pv \<Rightarrow> ev_error + vcheck list" where
  "validate_bundle_root bundle =
     bindE (either_field bundle ''protocol/state-hashes'') (\<lambda>proto.
     if proto = PNone
     then Inr [mk_vcheck ''protocol-state-hashes-present'' ''skip'' '':protocol/state-hashes not present in bundle root'']
     else bindE (either_field proto ''force-authorisations/hash'') (\<lambda>h.
          bindE (either_field proto ''force-authorisations/consumed-hash'') (\<lambda>ch.
          bindE (hash_shape ''force-authorisations-hash-well-formed'' ''force-authorisations/hash'' h) (\<lambda>c1.
          bindE (hash_shape ''force-authorisations-consumed-hash-well-formed'' ''force-authorisations/consumed-hash'' ch) (\<lambda>c2.
            Inr [mk_vcheck ''protocol-state-hashes-present'' ''pass'' '':protocol/state-hashes present'', c1, c2])))))"

section \<open>The hash of the state witness\<close>

text \<open>\<^verbatim>\<open>json.dumps(v, sort_keys=True, separators=(",", ":"), ensure_ascii=False)\<close>.\<close>

definition raw_char :: "char \<Rightarrow> string" where
  "raw_char c = (if (of_char c :: nat) < 127 then json_char c else [c])"

definition raw_str :: "string \<Rightarrow> string" where
  "raw_str s = CHR 0x22 # concat (map raw_char s) @ [CHR 0x22]"

primrec json_raw :: "pv \<Rightarrow> string" where
  "json_raw PNone = ''null''"
| "json_raw (PBool b) = (if b then ''true'' else ''false'')"
| "json_raw (PInt i) = int_str i"
| "json_raw (PStr s) = raw_str s"
| "json_raw (PList xs) = ''['' @ join '','' (map json_raw xs) @ '']''"
| "json_raw (PDict d) =
     ''{'' @ join '','' (map (\<lambda>kr. raw_str (fst kr) @ '':'' @ snd kr) (map (map_prod id json_raw) d)) @ ''}''"

definition canonical_protocol_state_hash :: "crypto \<Rightarrow> pv \<Rightarrow> string" where
  "canonical_protocol_state_hash C state = sha256_text C (json_raw (canon state))"

section \<open>Scopes of the state witness\<close>

record scope =
  sc_id :: string
  sc_records :: pv
  sc_consumed :: pv
  sc_adjustments :: pv

text \<open>The keys a value contributes to the set of scenario ids; other values than names cannot be sorted with names.\<close>

definition scenario_keys :: "pv \<Rightarrow> ev_error + string list" where
  "scenario_keys v = bindE (iter_of v) (\<lambda>xs. if list_all is_str xs then Inr (map str_of xs) else Inl (Builtin TypeError))"

fun all_flat :: "pv list \<Rightarrow> ev_error + bool" where
  "all_flat [] = Inr True"
| "all_flat (r # rs) =
     (if \<not> is_dict r then Inr False
      else bindE (fielded_none r ''authorization/id'') (\<lambda>i. if truthy i then all_flat rs else Inr False))"

definition scoped_protocol_state :: "pv \<Rightarrow> ev_error + scope list" where
  "scoped_protocol_state state =
     bindE (fielded_or state ''force-authorisations'' (PDict [])) (\<lambda>recs.
     bindE (fielded_or state ''force-authorisations/consumed'' (PDict [])) (\<lambda>consumed.
     bindE (fielded_none state ''held-adjustments'') (\<lambda>adjustments.
     bindE (if \<not> truthy recs then Inr True
            else case recs of PDict d \<Rightarrow> all_flat (map snd d) | _ \<Rightarrow> Inl (Builtin AttributeError)) (\<lambda>flat.
     if flat
     then Inr [\<lparr>sc_id = ''legacy'', sc_records = recs, sc_consumed = consumed,
                sc_adjustments = or_value adjustments (PList [])\<rparr>]
     else let scoped = (if is_dict adjustments then adjustments else PDict []) in
          bindE (scenario_keys recs) (\<lambda>k1. bindE (scenario_keys consumed) (\<lambda>k2. bindE (scenario_keys scoped) (\<lambda>k3.
            mapE (\<lambda>sid.
              bindE (get_in recs sid (PDict [])) (\<lambda>r.
              bindE (get_in consumed sid (PDict [])) (\<lambda>c.
              bindE (get_in scoped sid (PList [])) (\<lambda>a.
                Inr \<lparr>sc_id = sid, sc_records = or_value r (PDict []), sc_consumed = or_value c (PDict []),
                     sc_adjustments = or_value a (PList [])\<rparr>))))
              (sort (remdups (k1 @ k2 @ k3)))))))))) "

section \<open>The state witness\<close>

definition dict_entries :: "pv \<Rightarrow> ev_error + obj" where
  "dict_entries v = (case v of PDict d \<Rightarrow> Inr d | _ \<Rightarrow> Inl (Builtin AttributeError))"

text \<open>The keys of \<^verbatim>\<open>adjustments_by_id\<close>, and the adjustments by the authorisation of their provenance.\<close>

definition adjustment_ids :: "pv list \<Rightarrow> ev_error + pv list" where
  "adjustment_ids adjs =
     mapE (\<lambda>a. bindE (fielded_none a ''held-adjustment/id'') (\<lambda>i.
       if hashable i then Inr i else Inl (Builtin TypeError))) adjs"

definition provenance_field :: "pv \<Rightarrow> string \<Rightarrow> ev_error + pv" where
  "provenance_field a name =
     bindE (fielded_or a ''authorization/provenance'' (PDict [])) (\<lambda>p. fielded_none p name)"

definition adjustments_by_auth :: "pv list \<Rightarrow> ev_error + (pv \<times> pv list) list" where
  "adjustments_by_auth = foldE (\<lambda>d a.
     bindE (provenance_field a ''authorization/id'') (\<lambda>i.
       if \<not> truthy i then Inr d
       else if hashable i then Inr (dset (plain i) (get_or d (plain i) [] @ [a]) d)
       else Inl (Builtin TypeError))) []"

definition member_id :: "pv \<Rightarrow> pv list \<Rightarrow> ev_error + bool" where
  "member_id v ids = (if hashable v then Inr (list_ex (py_eq v) ids) else Inl (Builtin TypeError))"

definition active_names :: "string list" where "active_names = [''active'', '':active'']"
definition consumed_names :: "string list" where "consumed_names = [''consumed'', '':consumed'']"
definition revoked_names :: "string list" where "revoked_names = [''revoked'', '':revoked'']"

record auth_record =
  ar_id :: pv
  ar_status :: pv
  ar_consumed :: bool
  ar_scope :: pv
  ar_scope_hash :: pv

definition read_auth_record :: "pv \<Rightarrow> ev_error + auth_record" where
  "read_auth_record r =
     bindE (fielded_none r ''authorization/status'') (\<lambda>st.
     bindE (fielded r ''consumed?'' (PBool False)) (\<lambda>con.
     bindE (fielded_none r ''authorization/scope'') (\<lambda>scp.
     bindE (fielded_none r ''authorization/scope-hash'') (\<lambda>sh.
     bindE (fielded_none r ''authorization/id'') (\<lambda>i.
       Inr \<lparr>ar_id = i, ar_status = st, ar_consumed = truthy con, ar_scope = scp, ar_scope_hash = sh\<rparr>)))))"

definition violation :: "string \<Rightarrow> string \<Rightarrow> string \<Rightarrow> obj" where
  "violation sid aid kind = [(''scenario/id'', PStr sid), (''authorization/id'', PStr aid), (''type'', PStr kind)]"

text \<open>\<^verbatim>\<open>c1 or c2 or ...\<close> over the conditions of a consumed record: the first that holds decides.\<close>

definition bad_consumption :: "pv list \<Rightarrow> pv list \<Rightarrow> auth_record \<Rightarrow> pv \<Rightarrow> ev_error + bool" where
  "bad_consumption ids linked R entry =
     bindE (fielded_none (or_value entry (PDict [])) ''held-adjustment/id'') (\<lambda>adj_id.
       anyE [Inr (\<not> ar_consumed R), Inr (entry = PNone), Inr (length linked \<noteq> 1),
             bindE (member_id adj_id ids) (\<lambda>b. Inr (\<not> b)),
             bindE (provenance_field (hd linked) ''authorization/scope-hash'') (\<lambda>h. Inr (\<not> py_eq h (ar_scope_hash R)))])"

definition record_violations ::
  "string \<Rightarrow> pv list \<Rightarrow> (pv \<times> pv list) list \<Rightarrow> pv \<Rightarrow> string \<times> pv \<Rightarrow> ev_error + obj list" where
  "record_violations sid ids by_auth consumed = (\<lambda>(aid, r).
     bindE (read_auth_record r) (\<lambda>R.
     bindE (get_none consumed aid) (\<lambda>entry.
     bindE (anyE [Inr (ar_id R \<noteq> PStr aid),
                  bindE (in_names (ar_status R) (active_names @ consumed_names @ revoked_names)) (\<lambda>b. Inr (\<not> b)),
                  Inr (\<not> truthy (ar_scope R)), Inr (\<not> truthy (ar_scope_hash R))]) (\<lambda>invalid.
     if invalid then Inr [violation sid aid ''invalid-record'']
     else let linked = get_or by_auth (PStr aid) [];
              active = (if ar_status R \<in> PStr ` set active_names \<and> (ar_consumed R \<or> entry \<noteq> PNone)
                        then [violation sid aid ''active-record-consumed''] else [])
          in bindE (if ar_status R \<in> PStr ` set consumed_names then bad_consumption ids linked R entry else Inr False) (\<lambda>broken.
             Inr (active @ (if broken
               then [violation sid aid ''invalid-consumption-link'' @ [(''linked-adjustments'', PInt (int (length linked)))]]
               else [])))))))"

definition consumption_violations :: "string \<Rightarrow> pv list \<Rightarrow> pv \<Rightarrow> string \<times> pv \<Rightarrow> ev_error + obj list" where
  "consumption_violations sid ids recs = (\<lambda>(aid, entry).
     bindE (get_none recs aid) (\<lambda>r.
     bindE (anyE [Inr (r = PNone),
                  bindE (bindE (fielded_none r ''authorization/status'') (\<lambda>st. in_names st consumed_names)) (\<lambda>b. Inr (\<not> b)),
                  bindE (bindE (fielded_none entry ''held-adjustment/id'') (\<lambda>i. member_id i ids)) (\<lambda>b. Inr (\<not> b))]) (\<lambda>orphan.
       Inr (if orphan then [violation sid aid ''orphan-consumption''] else []))))"

definition scope_violations :: "scope \<Rightarrow> ev_error + obj list" where
  "scope_violations S =
     bindE (iter_of (sc_adjustments S)) (\<lambda>adjs.
     bindE (adjustment_ids adjs) (\<lambda>ids.
     bindE (adjustments_by_auth adjs) (\<lambda>by_auth.
     bindE (dict_entries (sc_records S)) (\<lambda>recs.
     bindE (mapE (record_violations (sc_id S) ids by_auth (sc_consumed S)) recs) (\<lambda>vs.
     bindE (dict_entries (sc_consumed S)) (\<lambda>cons.
     bindE (mapE (consumption_violations (sc_id S) ids (sc_records S)) cons) (\<lambda>ws.
       Inr (concat vs @ concat ws))))))))"

definition witness_hash_violations :: "crypto \<Rightarrow> bool \<Rightarrow> pv \<Rightarrow> pv \<Rightarrow> obj list" where
  "witness_hash_violations C require_witness state h =
     (if require_witness \<and> \<not> truthy h then [[(''type'', PStr ''missing-state-witness-hash'')]]
      else if truthy h \<and> h \<noteq> PStr (canonical_protocol_state_hash C state)
      then [[(''type'', PStr ''state-witness-hash-mismatch''),
             (''expected'', PStr (canonical_protocol_state_hash C state)), (''actual'', h)]]
      else [])"

definition violations_check :: "string \<Rightarrow> string \<Rightarrow> string \<Rightarrow> obj list \<Rightarrow> vcheck" where
  "violations_check name good broken vs =
     \<lparr>vc_name = name, vc_status = (if vs = [] then ''pass'' else ''fail''),
      vc_message = (if vs = [] then good else broken), vc_details = Some vs\<rparr>"

definition validate_protocol_state :: "crypto \<Rightarrow> pv \<Rightarrow> bool \<Rightarrow> ev_error + vcheck list" where
  "validate_protocol_state C bundle require_witness =
     bindE (fielded_none bundle ''protocol/state'') (\<lambda>state.
     if state = PNone
     then Inr [mk_vcheck ''protocol-state-witness-present'' (if require_witness then ''fail'' else ''skip'')
                 ''protocol/state witness is missing'']
     else bindE (fielded_none bundle ''protocol/state-witness-hash'') (\<lambda>h.
          bindE (scoped_protocol_state state) (\<lambda>scopes.
          bindE (mapE scope_violations scopes) (\<lambda>vs.
            Inr [violations_check ''force-authorisation-state-witness-consistent''
                   ''authorization, consumption, and held-adjustment links verified''
                   ''protocol state witness has lifecycle violations''
                   (witness_hash_violations C require_witness state h @ concat vs)]))))"

end
