(* ===== verification/Sew_Lifecycle.thy ===== *)
theory Sew_Lifecycle
  imports Sew_Validation
begin

text \<open>
  The order of grants, revocations and executions in the evidence events, their agreement with the state
  witness, and the whole validator (\<^verbatim>\<open>validate_evidence_lifecycle\<close>,
  \<^verbatim>\<open>validate_evidence_against_protocol_state\<close> and \<^verbatim>\<open>validate_protocol_bundle\<close> of
  \<^verbatim>\<open>scripts/forensic/validate_sew.py\<close>).  The long dash of a message is written \<open>--\<close>.
\<close>

section \<open>Sequence numbers\<close>

text \<open>\<^verbatim>\<open>a < b\<close> on JSON values: numbers, strings and lists compare with their own kind.\<close>

fun py_less :: "pv \<Rightarrow> pv \<Rightarrow> ev_error + bool" where
  "py_less (PStr s) (PStr t) = Inr (s < t)"
| "py_less (PList []) (PList ys) = Inr (ys \<noteq> [])"
| "py_less (PList (x # xs)) (PList []) = Inr False"
| "py_less (PList (x # xs)) (PList (y # ys)) =
     (if py_eq x y then py_less (PList xs) (PList ys) else py_less x y)"
| "py_less v w =
     (case (num_of v, num_of w) of (Some i, Some j) \<Rightarrow> Inr (i < j) | _ \<Rightarrow> Inl (Builtin TypeError))"

section \<open>The lifecycle of each authorisation\<close>

record lifecycle =
  granted :: "(pv \<times> pv) list"
  revoked :: "(pv \<times> pv) list"
  executed :: "(pv \<times> pv list) list"

definition record_event :: "lifecycle \<Rightarrow> sew_event \<Rightarrow> ev_error + lifecycle" where
  "record_event L ev =
     (let aid = se_auth ev; key = plain aid in
      if \<not> truthy aid then Inr L
      else if \<not> hashable aid then Inl (Builtin TypeError)
      else if se_type ev = ''force-authorisation-granted'' then Inr (L\<lparr>granted := dset key (se_seq ev) (granted L)\<rparr>)
      else if se_type ev = ''force-authorisation-revoked'' then Inr (L\<lparr>revoked := dset key (se_seq ev) (revoked L)\<rparr>)
      else if se_type ev = ''force-authorisation-executed''
      then Inr (L\<lparr>executed := dset key (get_or (executed L) key [] @ [se_seq ev]) (executed L)\<rparr>)
      else Inr L)"

text \<open>A check whose name and message show the authorisation; \<^verbatim>\<open>aid[:20]\<close> raises on a number.\<close>

definition auth_check :: "string \<Rightarrow> string \<Rightarrow> pv \<Rightarrow> string \<Rightarrow> ev_error + vcheck list" where
  "auth_check prefix st aid msg =
     (case aid of
        PStr s \<Rightarrow> Inr [mk_vcheck (prefix @ take 20 s) st (''auth-id '' @ s @ msg)]
      | _ \<Rightarrow> Inl (Builtin TypeError))"

definition execution_check :: "lifecycle \<Rightarrow> pv \<times> pv list \<Rightarrow> ev_error + vcheck list" where
  "execution_check L = (\<lambda>(aid, seqs).
     case map_of (granted L) aid of
       None \<Rightarrow> auth_check ''execute-without-grant-'' ''fail'' aid '' has execute event but no matching grant''
     | Some g \<Rightarrow>
         if g = PNone then auth_check ''execute-without-grant-'' ''fail'' aid '' has execute event but no matching grant''
         else if 1 < length seqs
         then auth_check ''double-execute-'' ''fail'' aid ('' executed '' @ nat_str (length seqs) @ '' times'')
         else bindE (py_less (hd seqs) g) (\<lambda>early.
           if early
           then auth_check ''execute-before-grant-'' ''fail'' aid
                  ('' executed at seq '' @ py_str (hd seqs) @ '' before grant at seq '' @ py_str g)
           else case map_of (revoked L) aid of
                  None \<Rightarrow> Inr []
                | Some r \<Rightarrow> bindE (py_less r (hd seqs)) (\<lambda>late.
                    if late
                    then auth_check ''revoke-before-execute-'' ''fail'' aid
                           ('' revoked at seq '' @ py_str r @ '' but executed at seq '' @ py_str (hd seqs)
                            @ '' -- protocol should prevent this'')
                    else Inr [])))"

definition unused_check :: "lifecycle \<Rightarrow> pv \<times> pv \<Rightarrow> ev_error + vcheck list" where
  "unused_check L = (\<lambda>(aid, g).
     if has_key (executed L) aid then Inr []
     else auth_check ''grant-without-execute-'' ''warn'' aid '' was granted but never executed'')"

definition validate_evidence_lifecycle :: "sew_event list \<Rightarrow> ev_error + vcheck list" where
  "validate_evidence_lifecycle events =
     bindE (foldE record_event \<lparr>granted = [], revoked = [], executed = []\<rparr> events) (\<lambda>L.
     bindE (mapE (execution_check L) (executed L)) (\<lambda>xs.
     bindE (mapE (unused_check L) (granted L)) (\<lambda>ys.
       Inr (concat xs @ concat ys))))"

section \<open>Agreement with the state witness\<close>

text \<open>\<^verbatim>\<open>v in container\<close> for an authorisation id.\<close>

definition in_container :: "pv \<Rightarrow> pv \<Rightarrow> ev_error + bool" where
  "in_container v w =
     (case w of
        PDict d \<Rightarrow> if hashable v then Inr (is_str v \<and> has_key d (str_of v)) else Inl (Builtin TypeError)
      | PList xs \<Rightarrow> Inr (list_ex (py_eq v) xs)
      | PStr s \<Rightarrow> (case v of PStr t \<Rightarrow> Inr (contains t s) | _ \<Rightarrow> Inl (Builtin TypeError))
      | _ \<Rightarrow> Inl (Builtin TypeError))"

definition record_matches :: "pv \<Rightarrow> scope list \<Rightarrow> ev_error + (string \<times> pv \<times> pv) list" where
  "record_matches aid scopes =
     bindE (mapE (\<lambda>S. bindE (in_container aid (sc_records S)) (\<lambda>b.
       if b then bindE (get_none (sc_records S) (str_of aid)) (\<lambda>r. Inr [(sc_id S, r, sc_consumed S)])
       else Inr [])) scopes) (\<lambda>ms. Inr (concat ms))"

definition event_violation :: "pv \<Rightarrow> string \<Rightarrow> string \<Rightarrow> obj" where
  "event_violation aid kind etype = [(''authorization/id'', aid), (''type'', PStr kind), (''event/type'', PStr etype)]"

definition status_among :: "pv \<Rightarrow> string list \<Rightarrow> ev_error + bool" where
  "status_among r names = bindE (fielded_none r ''authorization/status'') (\<lambda>st. in_names st names)"

definition event_violations :: "scope list \<Rightarrow> sew_event \<Rightarrow> ev_error + obj list" where
  "event_violations scopes ev =
     (let aid = se_auth ev; etype = se_type ev in
      if \<not> truthy aid then Inr [[(''type'', PStr ''evidence-missing-auth-id''), (''event'', PStr (se_file ev))]]
      else bindE (record_matches aid scopes) (\<lambda>matches.
        let (sid, r, consumed) = (case matches of [m] \<Rightarrow> m | _ \<Rightarrow> ([], PNone, PDict [])) in
        if 1 < length matches then Inr [event_violation aid ''ambiguous-evidence-state-record'' etype]
        else if r = PNone then Inr [event_violation aid ''evidence-without-state-record'' etype]
        else if etype = ''force-authorisation-executed''
        then bindE (anyE [bindE (status_among r consumed_names) (\<lambda>b. Inr (\<not> b)),
                          bindE (in_container aid consumed) (\<lambda>b. Inr (\<not> b))]) (\<lambda>bad.
             Inr (if bad then [violation sid (str_of aid) ''execute-evidence-state-mismatch''] else []))
        else if etype = ''force-authorisation-revoked''
        then bindE (status_among r revoked_names) (\<lambda>b.
             Inr (if \<not> b then [violation sid (str_of aid) ''revoke-evidence-state-mismatch''] else []))
        else Inr []))"

definition validate_evidence_against_protocol_state :: "pv \<Rightarrow> sew_event list \<Rightarrow> ev_error + vcheck list" where
  "validate_evidence_against_protocol_state bundle events =
     (if events = [] then Inr []
      else bindE (fielded_or bundle ''protocol/state'' (PDict [])) (\<lambda>state.
           bindE (scoped_protocol_state state) (\<lambda>scopes.
           bindE (mapE (event_violations scopes) events) (\<lambda>vs.
             Inr [violations_check ''force-authorisation-evidence-state-consistent''
                    ''force-authorisation evidence agrees with protocol-state witness''
                    ''evidence and protocol-state witness disagree'' (concat vs)]))))"

section \<open>The validator\<close>

definition sew_checks :: "crypto \<Rightarrow> pv \<Rightarrow> sew_event list \<Rightarrow> ev_error + vcheck list" where
  "sew_checks C bundle events =
     bindE (validate_bundle_root bundle) (\<lambda>root_checks.
     let used = (events \<noteq> []);
         present = list_ex (\<lambda>c. vc_name c = ''protocol-state-hashes-present'' \<and> vc_status c = ''pass'') root_checks;
         missing = (if used \<and> \<not> present
           then [mk_vcheck ''sew-evidence-without-state-hashes'' ''fail''
                   (''Found '' @ nat_str (length events) @ '' Sew force-authorisation evidence events but ''
                    @ ''bundle root has no :protocol/state-hashes'')] else [])
     in bindE (validate_protocol_state C bundle used) (\<lambda>state_checks.
        bindE (validate_evidence_lifecycle events) (\<lambda>life_checks.
        bindE (validate_evidence_against_protocol_state bundle events) (\<lambda>agree_checks.
          Inr (root_checks @ missing @ state_checks @ life_checks @ agree_checks)))))"

definition status_count :: "vcheck list \<Rightarrow> string \<Rightarrow> nat" where
  "status_count cs st = length (filter (\<lambda>c. vc_status c = st) cs)"

definition sew_report :: "vcheck list \<Rightarrow> nat \<Rightarrow> pv" where
  "sew_report cs n = PDict
     [(''sew/schema-version'', PStr ''forensic-validate-sew.v1''),
      (''sew/status'', PStr (if status_count cs ''fail'' = 0 then ''pass'' else ''fail'')),
      (''sew/checks'', PList (map vcheck_pv cs)),
      (''sew/summary'', PDict [(''passed'', PInt (int (status_count cs ''pass''))), (''failed'', PInt (int (status_count cs ''fail''))),
         (''warned'', PInt (int (status_count cs ''warn''))), (''skipped'', PInt (int (status_count cs ''skip'')))]),
      (''sew/force-auth-evidence-count'', PInt (int n))]"

text \<open>The bundle root is given with its path; the run directory may be absent.\<close>

definition validate_sew_bundle :: "crypto \<Rightarrow> string \<Rightarrow> pv option \<Rightarrow> bundle_dir option \<Rightarrow> ev_error + pv" where
  "validate_sew_bundle C bundle_path bundle W =
     (case bundle of
        None \<Rightarrow> Inr (PDict
          [(''sew/schema-version'', PStr ''forensic-validate-sew.v1''), (''sew/status'', PStr ''error''),
           (''sew/errors'', PList [PStr (''Cannot read bundle root: '' @ bundle_path)])])
      | Some b \<Rightarrow>
          bindE (case W of None \<Rightarrow> Inr [] | Some D \<Rightarrow> find_sew_evidence_files D) (\<lambda>events.
          bindE (sew_checks C b events) (\<lambda>cs. Inr (sew_report cs (length events)))))"

end
