(* ===== verification/Protocol_Dispatch.thy ===== *)
theory Protocol_Dispatch
  imports Sew_Lifecycle
begin

text \<open>
  The dispatcher of protocol validation (\<^verbatim>\<open>scripts/forensic/validate.py\<close>): the protocol descriptor of a
  bundle root, the table of validators, the shape of what a validator returns and the uniform report.
  The text that the interpreter makes of an exception is a parameter; the long dash of a message is written \<open>--\<close>.
\<close>

section \<open>The descriptor\<close>

text \<open>
  \<^verbatim>\<open>re.match(r"^[a-z][a-z0-9]*$", s)\<close>: the dollar sign also matches before a final line feed.
\<close>

definition is_lower :: "char \<Rightarrow> bool" where
  "is_lower c \<longleftrightarrow> (let n = (of_char c :: nat) in 97 \<le> n \<and> n \<le> 122)"

definition valid_pattern :: "string \<Rightarrow> bool" where
  "valid_pattern s =
     (let t = (if s \<noteq> [] \<and> last s = CHR 0x0A then butlast s else s)
      in t \<noteq> [] \<and> is_lower (hd t) \<and> list_all (\<lambda>c. is_lower c \<or> is_digit c) t)"

datatype descriptor =
    Absent
  | Malformed pv pv "string list"
  | Declared string string

definition id_errors :: "pv \<Rightarrow> string list" where
  "id_errors pid =
     (case pid of
        PStr s \<Rightarrow>
          if s = [] then [''protocol.id must be a non-empty string'']
          else if \<not> valid_pattern s
          then [''protocol.id '' @ [CHR 0x27] @ s @ [CHR 0x27] @ '' does not match expected pattern (lowercase alphanumeric, no hyphens)'']
          else []
      | _ \<Rightarrow> [''protocol.id must be a non-empty string''])"

definition version_errors :: "pv \<Rightarrow> string list" where
  "version_errors ver =
     (case ver of
        PStr s \<Rightarrow>
          if s = [] then [''protocol.version must be a non-empty string'']
          else if \<not> isdigit s then [''protocol.version '' @ [CHR 0x27] @ s @ [CHR 0x27] @ '' is not a numeric string'']
          else []
      | _ \<Rightarrow> [''protocol.version must be a non-empty string''])"

definition validate_descriptor_shape :: "pv \<Rightarrow> descriptor" where
  "validate_descriptor_shape pd =
     (case pd of
        PDict d \<Rightarrow>
          (let pid = py_get d ''id''; ver = py_get d ''version''; errors = id_errors pid @ version_errors ver in
           if pid = PNone \<and> ver = PNone then Absent
           else if errors \<noteq> [] then Malformed pid ver errors
           else Declared (str_of pid) (str_of ver))
      | _ \<Rightarrow> Absent)"

definition read_protocol_descriptor :: "pv \<Rightarrow> ev_error + descriptor" where
  "read_protocol_descriptor bundle = bindE (get_none bundle ''protocol'') (\<lambda>pd. Inr (validate_descriptor_shape pd))"

definition descriptor_pv :: "pv \<Rightarrow> pv \<Rightarrow> pv" where
  "descriptor_pv pid ver = PDict [(''id'', pid), (''version'', ver)]"

section \<open>What a validator returns\<close>

definition type_name :: "pv \<Rightarrow> string" where
  "type_name v =
     (case v of PNone \<Rightarrow> ''NoneType'' | PBool b \<Rightarrow> ''bool'' | PInt i \<Rightarrow> ''int'' | PStr s \<Rightarrow> ''str''
        | PList xs \<Rightarrow> ''list'' | PDict d \<Rightarrow> ''dict'')"

definition known_statuses :: "string list" where
  "known_statuses = [''pass'', ''fail'', ''warn'', ''skip'', ''not-verified'']"

definition check_issues :: "nat \<Rightarrow> pv \<Rightarrow> vcheck list" where
  "check_issues i c =
     (let name = ''protocol-validator-check-'' @ nat_str i; label = ''Check '' @ nat_str i in
      case c of
        PDict d \<Rightarrow>
          (if \<not> has_key d ''check'' then [mk_vcheck name ''fail'' (label @ '' is missing '' @ [CHR 0x27] @ ''check'' @ [CHR 0x27] @ '' field'')] else [])
          @ (if py_get d ''status'' \<notin> PStr ` set known_statuses
             then [mk_vcheck name ''fail'' (label @ '' has unrecognised status '' @ [CHR 0x27] @ py_str (py_get d ''status'') @ [CHR 0x27])] else [])
      | _ \<Rightarrow> [mk_vcheck name ''fail'' (label @ '' is '' @ type_name c @ '', expected dict'')])"

definition validator_label :: "string \<Rightarrow> string \<Rightarrow> string" where
  "validator_label pid ver = ''Validator for '' @ pid @ '' v'' @ ver"

definition validate_validator_result :: "pv \<Rightarrow> string \<Rightarrow> string \<Rightarrow> vcheck list" where
  "validate_validator_result result pid ver =
     (case result of
        PDict d \<Rightarrow>
          (let status = or_value (or_value (py_get d ''sew/status'') (py_get d ''validate/status'')) (PStr ''error'');
               cs = or_value (or_value (py_get d ''sew/checks'') (py_get d ''validate/checks'')) (PList [])
           in (if list_all (\<lambda>kv. CHR ''/'' \<notin> set (fst kv)) d
               then [mk_vcheck ''protocol-validator-result'' ''fail''
                       (validator_label pid ver @ '' returned result with no namespace-qualified keys'')] else [])
            @ (if status \<notin> PStr ` set [''pass'', ''fail'', ''error'', ''not-verified'']
               then [mk_vcheck ''protocol-validator-status'' ''fail''
                       (''Validator returned unrecognised status '' @ [CHR 0x27] @ py_str status @ [CHR 0x27])] else [])
            @ (case cs of
                 PList xs \<Rightarrow> concat (map (\<lambda>(i, c). check_issues i c) (enumerate 0 xs))
               | _ \<Rightarrow> [mk_vcheck ''protocol-validator-checks'' ''fail'' ''Validator returned non-list checks'']))
      | _ \<Rightarrow> [mk_vcheck ''protocol-validator-result'' ''fail''
                 (validator_label pid ver @ '' returned '' @ type_name result @ '', expected dict'')])"

section \<open>The report\<close>

record validation =
  va_status :: pv
  va_errors :: "string list"
  va_protocol :: "(pv \<times> pv) option"
  va_dispatched :: bool
  va_checks :: pv
  va_summary :: pv
  va_evidence_count :: pv

definition counts_pv :: "nat \<Rightarrow> nat \<Rightarrow> (string \<times> pv) list" where
  "counts_pv failed unverified =
     [(''passed'', PInt 0), (''failed'', PInt (int failed)), (''warned'', PInt 0), (''skipped'', PInt 0)]
     @ (if unverified = 0 then [] else [(''not-verified'', PInt (int unverified))])"

definition early_report :: "string \<Rightarrow> (pv \<times> pv) option \<Rightarrow> bool \<Rightarrow> pv list \<Rightarrow> nat \<Rightarrow> nat \<Rightarrow> validation" where
  "early_report st protocol dispatched cs failed unverified =
     \<lparr>va_status = PStr st, va_errors = [], va_protocol = protocol, va_dispatched = dispatched, va_checks = PList cs,
      va_summary = PDict (counts_pv failed unverified), va_evidence_count = PInt 0\<rparr>"

type_synonym protocol_validator = "string \<Rightarrow> pv option \<Rightarrow> bundle_dir option \<Rightarrow> ev_error + pv"

definition validators :: "crypto \<Rightarrow> ((string \<times> string) \<times> protocol_validator) list" where
  "validators C = [((''sew'', ''1''), validate_sew_bundle C)]"

record exception_report =
  ex_line :: "ev_error \<Rightarrow> string"
  ex_traceback :: "ev_error \<Rightarrow> string"

definition run_validator ::
  "exception_report \<Rightarrow> protocol_validator \<Rightarrow> string \<Rightarrow> string \<Rightarrow> string \<Rightarrow> pv option \<Rightarrow> bundle_dir option \<Rightarrow> validation" where
  "run_validator X f pid ver bundle_path bundle W =
     (let protocol = Some (PStr pid, PStr ver) in
      case f bundle_path bundle W of
        Inl e \<Rightarrow> early_report ''error'' protocol True
          [PDict [(''check'', PStr ''protocol-validator-execution''), (''status'', PStr ''fail''),
                  (''message'', PStr (validator_label pid ver @ '' raised '' @ ex_line X e)),
                  (''traceback'', PStr (ex_traceback X e))]] 1 0
      | Inr result \<Rightarrow>
          (let issues = validate_validator_result result pid ver; d = dict_of result in
           if issues \<noteq> [] then early_report ''error'' protocol True (map vcheck_pv issues) (length issues) 0
           else \<lparr>va_status = or_value (py_get d ''sew/status'') (PStr ''error''), va_errors = [], va_protocol = protocol,
                 va_dispatched = True, va_checks = get_or d ''sew/checks'' (PList []),
                 va_summary = get_or d ''sew/summary'' (PDict (counts_pv 0 0)),
                 va_evidence_count = get_or d ''sew/force-auth-evidence-count'' (PInt 0)\<rparr>))"

definition legacy_checks :: "pv list" where
  "legacy_checks = [vcheck_pv (mk_vcheck ''protocol-identity'' ''not-verified''
     ''Bundle does not declare a protocol identity -- legacy bundle without protocol-semantic verification'')]"

definition validate_protocol_bundle ::
  "crypto \<Rightarrow> exception_report \<Rightarrow> string \<Rightarrow> pv option \<Rightarrow> bundle_dir option \<Rightarrow> ev_error + validation" where
  "validate_protocol_bundle C X bundle_path bundle W =
     (case bundle of
        None \<Rightarrow> Inr ((early_report ''error'' None False [] 0 0)\<lparr>va_errors := [''Cannot read bundle root: '' @ bundle_path]\<rparr>)
      | Some b \<Rightarrow>
          bindE (read_protocol_descriptor b) (\<lambda>raw. Inr
            (case raw of
               Absent \<Rightarrow> early_report ''not-verified'' None False legacy_checks 0 1
             | Malformed pid ver errors \<Rightarrow> early_report ''fail'' (Some (pid, ver)) False
                 [PDict [(''check'', PStr ''protocol-identity-malformed''), (''status'', PStr ''fail''),
                         (''message'', PStr (''Malformed protocol descriptor: '' @ join ''; '' errors)),
                         (''errors'', PList (map PStr errors))]] 1 0
             | Declared pid ver \<Rightarrow>
                 (case map_of (validators C) (pid, ver) of
                    None \<Rightarrow> early_report ''not-verified'' (Some (PStr pid, PStr ver)) True
                      [PDict [(''check'', PStr ''protocol-lifecycle''), (''status'', PStr ''not-verified''),
                              (''message'', PStr (''No validator registered for protocol '' @ pid @ '' version '' @ ver)),
                              (''protocol_id'', PStr pid), (''protocol_version'', PStr ver)]] 0 1
                  | Some f \<Rightarrow> run_validator X f pid ver bundle_path bundle W))))"

section \<open>The command\<close>

text \<open>The exit code of \<^verbatim>\<open>main\<close>: 0 exactly for the status \<open>pass\<close>.\<close>

definition validate_command_exit :: "validation \<Rightarrow> nat" where
  "validate_command_exit r = (if va_status r = PStr ''pass'' then 0 else 1)"

text \<open>The bundle root of a run directory, or of its Clojure run.\<close>

definition bundle_path_in :: "bundle_dir \<Rightarrow> string option" where
  "bundle_path_in W =
     (if entry_exists W [''run-bundle-root.json''] then Some ''run-bundle-root.json''
      else if entry_exists W [''clojure-bundle-root.json''] then Some ''clojure-bundle-root.json'' else None)"

text \<open>\<^verbatim>\<open>load_json(path)\<close>: a file that holds \<^verbatim>\<open>null\<close> reads as \<^verbatim>\<open>None\<close> too.\<close>

definition load_root_document :: "bundle_dir \<Rightarrow> path \<Rightarrow> pv option" where
  "load_root_document W p = (case load_at W p of Some v \<Rightarrow> if v = PNone then None else Some v | None \<Rightarrow> None)"

end
