(* ===== verification/Bundle_Verify.thy ===== *)
theory Bundle_Verify
  imports Evidence_Inventory Public_Key Protocol_Dispatch
begin

text \<open>
  The verification of a run directory (\<^verbatim>\<open>check_protocol_semantics\<close>, \<^verbatim>\<open>verify_run\<close> and the exit code of
  \<^verbatim>\<open>main\<close> in \<^verbatim>\<open>scripts/forensic/verify.py\<close>).  The long dash of a message is written \<open>--\<close>.
\<close>

section \<open>Protocol semantics\<close>

type_synonym expected_identity = "(string \<times> string) option"

definition identity_checks :: "expected_identity \<Rightarrow> (pv \<times> pv) option \<Rightarrow> run_check list" where
  "identity_checks expected protocol =
     (case expected of
        None \<Rightarrow> []
      | Some (exp_id, exp_ver) \<Rightarrow>
          (case protocol of
             None \<Rightarrow> [mk_rcheck ''protocol-identity-match'' ''fail''
               (''Protocol identity mismatch: bundle declares none, expected '' @ exp_id @ '' v'' @ exp_ver) ''required'']
           | Some (pid, ver) \<Rightarrow>
               if pid \<noteq> PStr exp_id \<or> ver \<noteq> PStr exp_ver
               then [mk_rcheck ''protocol-identity-match'' ''fail''
                 (''Protocol identity mismatch: bundle declares '' @ py_str pid @ '' v'' @ py_str ver
                  @ '', expected '' @ exp_id @ '' v'' @ exp_ver) ''required'']
               else []))"

text \<open>
  \<^verbatim>\<open>report.get("validate/errors", ['unknown'])\<close>: only the report of an unreadable bundle root has the
  field.
\<close>

definition error_checks :: "validation \<Rightarrow> run_check list" where
  "error_checks r =
     (if va_status r = PStr ''error''
      then [mk_rcheck ''protocol-semantics-error'' ''fail''
              (''Protocol-semantic validation error: ''
               @ py_repr (PList (map PStr (if va_errors r = [] then [''unknown''] else va_errors r)))) ''required'']
      else [])"

definition mapped_check :: "pv \<Rightarrow> ev_error + run_check" where
  "mapped_check vc =
     bindE (get_in vc ''status'' (PStr ''skip'')) (\<lambda>st.
     bindE (get_in vc ''check'' (PStr ''unknown'')) (\<lambda>key.
     bindE (get_in vc ''message'' (PStr [])) (\<lambda>msg.
       Inr (mk_rcheck (py_str key) (py_str st) (py_str msg)
         (if st = PStr ''fail'' then ''required'' else if st = PStr ''warn'' then ''warning'' else ''info'')))))"

definition summary_check :: "bool \<Rightarrow> validation \<Rightarrow> run_check" where
  "summary_check require_semantics r =
     (let st = va_status r;
          summary = (if st = PStr ''not-verified'' then (if require_semantics then ''fail'' else ''not-verified'') else py_str st);
          (pid, ver) = (case va_protocol r of None \<Rightarrow> (PNone, PNone) | Some pv2 \<Rightarrow> pv2)
      in mk_rcheck ''protocol-semantics-summary'' summary
           (''Protocol: '' @ (if truthy pid then py_str pid else ''none'') @ '' v'' @ (if truthy ver then py_str ver else ''--'')
            @ '', evidence events: '' @ py_str (va_evidence_count r) @ '', status='' @ py_str st
            @ (if require_semantics \<and> st = PStr ''not-verified'' then '', REQUIRED but not available'' else []))
           (if summary = ''fail'' then ''required'' else ''info''))"

definition check_protocol_semantics ::
  "crypto \<Rightarrow> exception_report \<Rightarrow> bundle_dir \<Rightarrow> expected_identity \<Rightarrow> bool \<Rightarrow> ev_error + run_check list" where
  "check_protocol_semantics C X W expected require_semantics =
     (if \<not> entry_exists W [''run-bundle-root.json'']
      then Inr [mk_rcheck ''protocol-semantics'' ''skip''
                  ''No run-bundle-root.json found -- cannot run protocol-semantic validation'' ''info'']
      else bindE (validate_protocol_bundle C X (full_path W ''run-bundle-root.json'')
                    (load_root_document W [''run-bundle-root.json'']) (Some W)) (\<lambda>r.
           bindE (bindE (iter_of (va_checks r)) (mapE mapped_check)) (\<lambda>mapped.
             Inr (identity_checks expected (va_protocol r) @ error_checks r @ mapped @ [summary_check require_semantics r]))))"

section \<open>The report\<close>

record run_report =
  rp_run_dir :: string
  rp_status :: string
  rp_checks :: "run_check list"
  rp_total :: nat
  rp_pass :: nat
  rp_fail :: nat
  rp_warning :: nat
  rp_info :: nat

definition count_checks :: "(run_check \<Rightarrow> bool) \<Rightarrow> run_check list \<Rightarrow> nat" where
  "count_checks p cs = length (filter p cs)"

definition aggregate_status :: "run_check list \<Rightarrow> string" where
  "aggregate_status cs =
     (if 0 < count_checks bad cs then ''fail''
      else if 0 < count_checks (\<lambda>c. ck_status c = ''warning'') cs then ''pass-with-warnings''
      else ''pass'')"

definition aggregate :: "string \<Rightarrow> run_check list \<Rightarrow> run_report" where
  "aggregate dir cs =
     \<lparr>rp_run_dir = dir, rp_status = aggregate_status cs, rp_checks = cs, rp_total = length cs,
      rp_pass = count_checks (\<lambda>c. ck_status c = ''pass'') cs, rp_fail = count_checks bad cs,
      rp_warning = count_checks (\<lambda>c. ck_status c = ''warning'') cs,
      rp_info = count_checks (\<lambda>c. ck_severity c = ''info'') cs\<rparr>"

text \<open>What one verification takes from outside: the interpreter, the hash, exception texts, the key.\<close>

record verify_env =
  ve_interpreter :: interpreter
  ve_crypto :: crypto
  ve_exceptions :: exception_report
  ve_signature :: "signature_env option"

definition presence_checks :: "bundle_dir \<Rightarrow> run_check list" where
  "presence_checks W =
     map (\<lambda>f. check_exists W f ''required'') required_files @ map (\<lambda>f. check_exists W f ''info'') optional_files
     @ map (check_dir_exists W) required_dirs @ map (\<lambda>d. check_exists W d ''info'') optional_dirs"

definition sealing_checks :: "verify_env \<Rightarrow> bundle_dir \<Rightarrow> ev_error + run_check list" where
  "sealing_checks V W =
     mapE id [check_bundle_root_hash (ve_crypto V) W, check_overview_hash (ve_crypto V) W,
       check_bundle_signature W (ve_signature V), check_results_summary W,
       Inr (check_mechanism_persistence_artifacts W)]"

definition run_checks_of :: "verify_env \<Rightarrow> bundle_dir \<Rightarrow> expected_identity \<Rightarrow> bool \<Rightarrow> ev_error + run_check list" where
  "run_checks_of V W expected require_semantics =
     bindE (check_evidence_dag (ve_interpreter V) W) (\<lambda>dag.
     bindE (sealing_checks V W) (\<lambda>sealing.
     bindE (check_claims_content (ve_crypto V) W) (\<lambda>cls.
     bindE (check_attestations_content (ve_crypto V) W) (\<lambda>atts.
     bindE (check_anchor_content W) (\<lambda>anchor.
     bindE (check_protocol_semantics (ve_crypto V) (ve_exceptions V) W expected require_semantics) (\<lambda>semantics.
       Inr (presence_checks W
         @ [check_bundle_root_valid W, check_overview_valid W, check_preflight_valid W, dag, check_no_extra_dirs W]
         @ sealing @ cls @ atts @ [anchor] @ semantics)))))))"

text \<open>The run directory is absent when it does not exist.\<close>

definition verify_run ::
  "verify_env \<Rightarrow> string \<Rightarrow> bundle_dir option \<Rightarrow> expected_identity \<Rightarrow> bool \<Rightarrow> ev_error + run_report" where
  "verify_run V dir W expected require_semantics =
     (case W of
        None \<Rightarrow> Inr \<lparr>rp_run_dir = dir, rp_status = ''fail'',
          rp_checks = [mk_rcheck ''run-dir-exists'' ''fail'' (''Run directory not found: '' @ dir) ''required''],
          rp_total = 1, rp_pass = 0, rp_fail = 1, rp_warning = 0, rp_info = 0\<rparr>
      | Some D \<Rightarrow> bindE (run_checks_of V D expected require_semantics) (\<lambda>cs. Inr (aggregate dir cs)))"

definition run_report_pv :: "run_report \<Rightarrow> pv" where
  "run_report_pv r = PDict
     [(''verify/schema-version'', PStr ''forensic-verify.v1''), (''verify/run-dir'', PStr (rp_run_dir r)),
      (''verify/status'', PStr (rp_status r)), (''verify/checks'', PList (map check_pv (rp_checks r))),
      (''verify/summary'', PDict [(''total'', PInt (int (rp_total r))), (''pass'', PInt (int (rp_pass r))),
         (''fail'', PInt (int (rp_fail r))), (''warning'', PInt (int (rp_warning r))), (''info'', PInt (int (rp_info r)))])]"

definition verify_exit_code :: "run_report \<Rightarrow> nat" where
  "verify_exit_code r = (if rp_status r = ''pass'' \<or> rp_status r = ''pass-with-warnings'' then 0 else 1)"

text \<open>\<^verbatim>\<open>--expected-protocol\<close>: an identifier and a version around the first slash.\<close>

definition parse_expected_protocol :: "string \<Rightarrow> (string \<times> string) option" where
  "parse_expected_protocol s =
     (let a = takeWhile (\<lambda>c. c \<noteq> CHR ''/'') s; b = drop (Suc (length a)) s in
      if CHR ''/'' \<in> set s \<and> a \<noteq> [] \<and> b \<noteq> [] then Some (a, b) else None)"

end
