(* ===== verification/Inventory_Theorems.thy ===== *)
theory Inventory_Theorems
  imports Evidence_Inventory
begin

text \<open>
  What an inventory without errors guarantees: its nodes were all parsed, their hashes are different,
  the parents they name are nodes, and the parent relation has no cycle.
\<close>

section \<open>Equality of hashable values\<close>

lemma hash_eq: "hashable v \<Longrightarrow> py_eq v w \<longleftrightarrow> plain v = plain w"
  by (cases v; cases w) (auto simp: py_eq_def)

lemma hash_eq_hashable: "hashable v \<Longrightarrow> plain v = plain w \<Longrightarrow> hashable w"
  by (cases v; cases w) auto

lemma truthy_plain: "truthy (plain v) = truthy v"
  by (cases v) auto

lemma dedupe_snoc: "dedupe (xs @ [x]) = (if list_ex (py_eq x) (dedupe xs) then dedupe xs else dedupe xs @ [x])"
  by (simp add: dedupe_def)

lemma set_dedupe: "set (dedupe xs) \<subseteq> set xs"
  by (induction xs rule: rev_induct) (auto simp: dedupe_snoc, simp add: dedupe_def)

lemma plain_dedupe: "list_all hashable xs \<Longrightarrow> plain ` set (dedupe xs) = plain ` set xs"
proof (induction xs rule: rev_induct)
  case (snoc x xs)
  then show ?case by (auto simp: dedupe_snoc list_ex_iff hash_eq)
qed (simp add: dedupe_def)

lemma value_set_Inr: "value_set xs = Inr ys \<longleftrightarrow> list_all hashable xs \<and> ys = dedupe xs"
  by (auto simp: value_set_def)

lemma in_set_iff: "in_set v xs = Inr b \<longleftrightarrow> hashable v \<and> (b \<longleftrightarrow> plain v \<in> plain ` set xs)"
  by (auto simp: in_set_def list_ex_iff hash_eq)

lemma in_pairs_iff:
  "in_pairs p c pairs = Inr b \<longleftrightarrow>
     hashable p \<and> hashable c \<and> (b \<longleftrightarrow> (plain p, plain c) \<in> map_prod plain plain ` set pairs)"
proof -
  have "list_ex (same_pair (p, c)) pairs \<longleftrightarrow> (plain p, plain c) \<in> map_prod plain plain ` set pairs"
    if "hashable p" "hashable c"
    using that by (force simp: list_ex_iff same_pair_def hash_eq image_iff)
  then show ?thesis by (auto simp: in_pairs_def)
qed

section \<open>Edges\<close>

lemma pair_set_subset:
  "set (foldl (\<lambda>acc e. if list_ex (same_pair e) acc then acc else acc @ [e]) acc es) \<subseteq> set acc \<union> set es"
proof (induction es arbitrary: acc)
  case (Cons e es)
  from Cons.IH [of acc] Cons.IH [of "acc @ [e]"] show ?case by auto
qed simp

lemma edge_pairs_source:
  assumes "edge_pairs edges = Inr pairs" "(p, c) \<in> set pairs"
  shows "truthy p \<and> truthy c \<and> hashable p \<and> hashable c \<and>
    (\<exists>e \<in> set edges. get_none e ''parent'' = Inr p \<and> get_none e ''child'' = Inr c)"
proof -
  from assms obtain ess where ess: "mapE (\<lambda>e.
       bindE (get_none e ''parent'') (\<lambda>p.
       bindE (if truthy p then get_none e ''child'' else Inr PNone) (\<lambda>c.
       if truthy p \<and> truthy c
       then if hashable p \<and> hashable c then Inr [(p, c)] else Inl (Builtin TypeError)
       else Inr []))) edges = Inr ess" and "(p, c) \<in> set (concat ess)"
    using pair_set_subset [of "[]"] by (fastforce simp: edge_pairs_def bindE_Inr_iff)
  then obtain es where es: "es \<in> set ess" "(p, c) \<in> set es" by auto
  from mapE_result_in [OF ess es(1)] es(2) show ?thesis
    by (auto simp: bindE_Inr_iff split: if_splits)
qed

lemma node_edges_complete:
  assumes run: "node_edges nodes edges = Inr es" and e: "e \<in> set edges"
    and ends: "get_none e ''parent'' = Inr p" "get_none e ''child'' = Inr c"
    and known: "plain p \<in> plain ` set nodes" "plain c \<in> plain ` set nodes"
  shows "(plain p, plain c) \<in> set es"
proof -
  from run obtain ess where ess: "mapE (\<lambda>e.
       bindE (get_none e ''parent'') (\<lambda>p.
       bindE (get_none e ''child'') (\<lambda>c.
       bindE (in_set p nodes) (\<lambda>has_p.
       if \<not> has_p then Inr []
       else bindE (in_set c nodes) (\<lambda>has_c. Inr (if has_c then [(plain p, plain c)] else [])))))) edges = Inr ess"
    and es: "es = concat ess" by (auto simp: node_edges_def bindE_Inr_iff)
  from mapE_source_in [OF ess e] ends known obtain part where "part \<in> set ess" "(plain p, plain c) \<in> set part"
    by (auto simp: bindE_Inr_iff in_set_iff split: if_splits)
  then show ?thesis by (auto simp: es)
qed

lemma node_edges_known:
  assumes "node_edges nodes edges = Inr es" "(p, c) \<in> set es"
  shows "p \<in> plain ` set nodes \<and> c \<in> plain ` set nodes"
proof -
  from assms obtain ess part where ess: "mapE (\<lambda>e.
       bindE (get_none e ''parent'') (\<lambda>p.
       bindE (get_none e ''child'') (\<lambda>c.
       bindE (in_set p nodes) (\<lambda>has_p.
       if \<not> has_p then Inr []
       else bindE (in_set c nodes) (\<lambda>has_c. Inr (if has_c then [(plain p, plain c)] else [])))))) edges = Inr ess"
    and part: "part \<in> set ess" "(p, c) \<in> set part"
    by (auto simp: node_edges_def bindE_Inr_iff)
  from mapE_result_in [OF ess part(1)] part(2) show ?thesis
    by (auto simp: bindE_Inr_iff in_set_iff split: if_splits)
qed

section \<open>Links\<close>

definition link_done :: "link_state \<Rightarrow> bool" where
  "link_done st \<longleftrightarrow> fst st = [] \<and> fst (snd st) = []"

lemma link_parent_done:
  "link_parent hashes pairs child st p = Inr st' \<Longrightarrow> link_done st' \<Longrightarrow>
     link_done st \<and> plain p \<in> plain ` set hashes \<and> (plain p, plain child) \<in> map_prod plain plain ` set pairs
     \<and> snd (snd st') = snd (snd st)"
  by (cases st) (auto simp: link_parent_def bindE_Inr_iff in_set_iff in_pairs_iff link_done_def split: if_splits)

lemma link_parents_done:
  "foldE (link_parent hashes pairs child) st ps = Inr st' \<Longrightarrow> link_done st' \<Longrightarrow>
     link_done st \<and> snd (snd st') = snd (snd st) \<and>
     (\<forall>p \<in> set ps. plain p \<in> plain ` set hashes \<and> (plain p, plain child) \<in> map_prod plain plain ` set pairs)"
proof (induction ps arbitrary: st)
  case (Cons p ps)
  then obtain t where t: "link_parent hashes pairs child st p = Inr t"
    "foldE (link_parent hashes pairs child) t ps = Inr st'" by (auto simp: bindE_Inr_iff)
  with Cons.IH [OF t(2) Cons.prems(2)] link_parent_done [OF t(1)] show ?case by auto
qed simp

lemma link_nodes_done:
  "foldE (link_node hashes pairs) st nodes = Inr st' \<Longrightarrow> link_done st' \<Longrightarrow>
     link_done st \<and> (\<forall>node \<in> set nodes. \<exists>child ps. get_none node ''node-hash'' = Inr child \<and> parents_of node = Inr ps \<and>
       (\<forall>p \<in> set ps. plain p \<in> plain ` set hashes \<and> (plain p, plain child) \<in> map_prod plain plain ` set pairs))"
proof (induction nodes arbitrary: st)
  case (Cons node nodes)
  then obtain t where t: "link_node hashes pairs st node = Inr t" "foldE (link_node hashes pairs) t nodes = Inr st'"
    by (auto simp: bindE_Inr_iff)
  from Cons.IH [OF t(2) Cons.prems(2)] have rest: "link_done t"
    "\<forall>node \<in> set nodes. \<exists>child ps. get_none node ''node-hash'' = Inr child \<and> parents_of node = Inr ps \<and>
       (\<forall>p \<in> set ps. plain p \<in> plain ` set hashes \<and> (plain p, plain child) \<in> map_prod plain plain ` set pairs)" by blast+
  from t(1) obtain child ps where child: "get_none node ''node-hash'' = Inr child" "parents_of node = Inr ps"
    and run: "foldE (link_parent hashes pairs child) (fst st, fst (snd st), snd (snd st) + length ps) ps = Inr t"
    by (auto simp: link_node_def bindE_Inr_iff)
  from link_parents_done [OF run rest(1)] rest(2) child show ?case by (auto simp: link_done_def)
qed simp

section \<open>An inventory without errors\<close>

definition parent_rel :: "pv list \<Rightarrow> (pv \<times> pv) set" where
  "parent_rel nodes = {(plain p, plain c) | p c. \<exists>node \<in> set nodes. \<exists>ps.
     get_none node ''node-hash'' = Inr c \<and> parents_of node = Inr ps \<and> p \<in> set ps}"

definition honest_order :: "interpreter \<Rightarrow> bool" where
  "honest_order I \<longleftrightarrow> (\<forall>xs. set (set_order I xs) = set xs)"

lemma mapE_id_Inr: "mapE id ms = Inr es \<longleftrightarrow> ms = map Inr es"
  by (induction ms arbitrary: es) (auto simp: bindE_Inr_iff)

lemma no_errors:
  assumes "inventory_errors I inventory roots disk = Inr []"
  obtains P where "read_inventory inventory = Inr P" "inventory_only inventory disk = Inr []"
    "file_count_errors inventory disk = Inr []" "duplicate_errors P = Inr []" "name_errors P = Inr []" "parse_errors P = []"
    "cycle_errors I P = Inr []" "link_errors P = Inr []" "root_errors P roots = Inr []" "index_errors inventory P = Inr []"
proof -
  from assms obtain P es where P: "read_inventory inventory = Inr P" and empty: "concat es = []"
    and run: "mapE id [inventory_only inventory disk, file_count_errors inventory disk, duplicate_errors P, name_errors P,
      Inr (parse_errors P), cycle_errors I P, link_errors P, root_errors P roots, index_errors inventory P] = Inr es"
    by (simp only: inventory_errors_def bindE_Inr_iff sum.inject) blast
  note parts = run [unfolded mapE_id_Inr]
  have "\<forall>e \<in> set (map Inr es). e = (Inr [] :: ev_error + string list)" using empty by auto
  from this [folded parts] show thesis by (intro that [OF P]) simp_all
qed

lemma links_of:
  assumes "link_errors P = Inr []"
  obtains pairs st where "edge_pairs (pi_edges P) = Inr pairs" "link_done st"
    "foldE (link_node (pi_hashes P) pairs) ([], [], 0) (pi_good P) = Inr st" "length pairs = snd (snd st)"
proof -
  from assms obtain pairs st where pairs: "edge_pairs (pi_edges P) = Inr pairs"
    and run: "foldE (link_node (pi_hashes P) pairs) ([], [], 0) (pi_good P) = Inr st"
    and rest: "link_done st \<and> length pairs = snd (snd st)"
    by (auto simp: link_errors_def bindE_Inr_iff link_done_def split: if_splits)
  with that show thesis by blast
qed

lemma read_inventory_parts:
  assumes "read_inventory inventory = Inr P"
  obtains marked hs where
    "mapE (\<lambda>n. bindE (get_none n ''parse-error'') (\<lambda>e. Inr (n, \<not> truthy e))) (pi_nodes P) = Inr marked"
    "pi_good P = map fst (filter snd marked)"
    "truthy_fields ''node-hash'' (pi_good P) = Inr hs" "list_all hashable hs" "pi_hashes P = dedupe hs"
  using assms by (auto simp: read_inventory_def bindE_Inr_iff value_set_Inr Let_def)

lemma all_parsed:
  assumes "read_inventory inventory = Inr P" "parse_errors P = []"
  shows "pi_good P = pi_nodes P"
proof -
  obtain marked hs where m: "mapE (\<lambda>n. bindE (get_none n ''parse-error'') (\<lambda>e. Inr (n, \<not> truthy e))) (pi_nodes P) = Inr marked"
    and good: "pi_good P = map fst (filter snd marked)" by (rule read_inventory_parts [OF assms(1)])
  from m have "list_all2 (\<lambda>n m. n = fst m) (pi_nodes P) marked"
    unfolding mapE_Inr_iff by (rule list_all2_mono) (auto simp: bindE_Inr_iff)
  then have "map fst marked = pi_nodes P" by (induction rule: list_all2_induct) auto
  moreover from assms(2) good mapE_length [OF m] have "length marked \<le> length (filter snd marked)"
    by (simp add: parse_errors_def Let_def split: if_splits)
  then have "filter snd marked = marked"
    by (metis filter_id_conv length_filter_less linorder_not_less)
  ultimately show ?thesis by (simp add: good)
qed

lemma child_in_hashes:
  assumes "read_inventory inventory = Inr P" "node \<in> set (pi_good P)" "get_none node ''node-hash'' = Inr c" "truthy c"
  shows "plain c \<in> plain ` set (pi_hashes P)"
proof -
  obtain hs where hs: "truthy_fields ''node-hash'' (pi_good P) = Inr hs" "list_all hashable hs" "pi_hashes P = dedupe hs"
    by (rule read_inventory_parts [OF assms(1)])
  from hs(1) obtain xs where xs: "mapE (\<lambda>v. get_none v ''node-hash'') (pi_good P) = Inr xs" "hs = filter truthy xs"
    by (auto simp: truthy_fields_def bindE_Inr_iff)
  from mapE_source_in [OF xs(1) assms(2)] assms(3,4) xs(2) have "c \<in> set hs" by auto
  then show ?thesis by (simp add: hs(3) plain_dedupe [OF hs(2)])
qed

lemma parent_rel_edges:
  assumes P: "read_inventory inventory = Inr P" and links: "link_errors P = Inr []"
    and es: "node_edges (pi_hashes P) (pi_edges P) = Inr es"
  shows "parent_rel (pi_good P) \<subseteq> set es"
proof clarify
  fix a b assume "(a, b) \<in> parent_rel (pi_good P)"
  then obtain p c node ps where ab: "a = plain p" "b = plain c" and node: "node \<in> set (pi_good P)"
    "get_none node ''node-hash'' = Inr c" "parents_of node = Inr ps" "p \<in> set ps" by (auto simp: parent_rel_def)
  obtain pairs st where pairs: "edge_pairs (pi_edges P) = Inr pairs" and "link_done st"
    and "foldE (link_node (pi_hashes P) pairs) ([], [], 0) (pi_good P) = Inr st" by (rule links_of [OF links])
  from link_nodes_done [OF this(3,2)] node
  have known: "plain p \<in> plain ` set (pi_hashes P)" and "(plain p, plain c) \<in> map_prod plain plain ` set pairs" by auto
  then obtain p' c' where pc: "(p', c') \<in> set pairs" "plain p' = plain p" "plain c' = plain c" by auto
  from edge_pairs_source [OF pairs pc(1)] obtain e where e: "e \<in> set (pi_edges P)"
    "get_none e ''parent'' = Inr p'" "get_none e ''child'' = Inr c'" and "truthy c'" by auto
  then have "truthy c" using pc(3) truthy_plain by metis
  with child_in_hashes [OF P node(1,2)] pc known
  have "plain p' \<in> plain ` set (pi_hashes P)" "plain c' \<in> plain ` set (pi_hashes P)" by auto
  from node_edges_complete [OF es e this] pc show "(a, b) \<in> set es" by (simp add: ab)
qed

lemma no_cycle:
  assumes "honest_order I" "cycle_errors I P = Inr []" "node_edges (pi_hashes P) (pi_edges P) = Inr es" "pi_hashes P \<noteq> []"
  shows "acyclic (set es)"
proof -
  from assms have "detect_dag_cycles I (pi_edges P) (pi_hashes P) = Inr []"
    by (auto simp: cycle_errors_def bindE_Inr_iff split: if_splits)
  with assms(3) have "detect_cycles (recursion_limit I) (map plain (set_order I (pi_hashes P))) es = Inr []"
    by (auto simp: detect_dag_cycles_def split: sum.splits)
  then have "acyclic (graph_of (map plain (set_order I (pi_hashes P))) es)"
    using detect_cycles_exact by blast
  moreover have "graph_of (map plain (set_order I (pi_hashes P))) es = set es"
    using node_edges_known [OF assms(3)] assms(1) by (auto simp: graph_of_def honest_order_def)
  ultimately show ?thesis by simp
qed

lemma edges_read:
  assumes "detect_dag_cycles I edges nodes = Inr cs"
  shows "\<exists>es. node_edges nodes edges = Inr es"
  using assms by (auto simp: detect_dag_cycles_def bindE_Inr_iff)

lemma accepted_acyclic:
  assumes P: "read_inventory inventory = Inr P" and order: "honest_order I"
    and errs: "cycle_errors I P = Inr []" "link_errors P = Inr []"
  shows "acyclic (parent_rel (pi_good P))"
proof (cases "pi_hashes P = []")
  case True
  have "parent_rel (pi_good P) = {}"
  proof -
    obtain pairs st where pairs: "edge_pairs (pi_edges P) = Inr pairs" and "link_done st"
      and "foldE (link_node (pi_hashes P) pairs) ([], [], 0) (pi_good P) = Inr st" by (rule links_of [OF errs(2)])
    from link_nodes_done [OF this(3,2)] True show ?thesis by (fastforce simp: parent_rel_def)
  qed
  then show ?thesis by (simp add: acyclic_def)
next
  case False
  with errs(1) obtain cs where "detect_dag_cycles I (pi_edges P) (pi_hashes P) = Inr cs"
    by (auto simp: cycle_errors_def bindE_Inr_iff)
  from edges_read [OF this] obtain es where es: "node_edges (pi_hashes P) (pi_edges P) = Inr es" by blast
  from no_cycle [OF order errs(1) es False] parent_rel_edges [OF P errs(2) es] show ?thesis
    by (rule acyclic_subset)
qed

lemma distinct_by_count:
  "(\<And>x. x \<in> set xs \<Longrightarrow> length (filter (\<lambda>y. f y = f x) xs) \<le> 1) \<Longrightarrow> distinct (map f xs)"
proof (induction xs)
  case (Cons x xs)
  from Cons.prems [of x] have "f x \<notin> f ` set xs" by (auto simp: filter_empty_conv)
  moreover have "length (filter (\<lambda>y. f y = f z) xs) \<le> 1" if "z \<in> set xs" for z
    using Cons.prems [of z] that by (simp split: if_splits)
  ultimately show ?case using Cons.IH by simp
qed simp

lemma sorted_values_Nil: "sorted_values xs = Inr [] \<Longrightarrow> xs = []"
  by (auto simp: sorted_values_def split: if_splits) (metis length_0_conv length_sort)+

lemma hashes_differ:
  assumes P: "read_inventory inventory = Inr P" and dup: "duplicate_errors P = Inr []"
  shows "\<exists>hs. truthy_fields ''node-hash'' (pi_good P) = Inr hs \<and> distinct (map plain hs)"
proof -
  obtain hs where hs: "truthy_fields ''node-hash'' (pi_good P) = Inr hs" "list_all hashable hs" "pi_hashes P = dedupe hs"
    by (rule read_inventory_parts [OF P])
  from hs(1) obtain all where all: "mapE (\<lambda>v. get_none v ''node-hash'') (pi_good P) = Inr all" "hs = filter truthy all"
    by (auto simp: truthy_fields_def bindE_Inr_iff)
  from dup all(1) have "sorted_values (filter (\<lambda>h. 1 < length (filter (py_eq h) all)) (pi_hashes P)) = Inr []"
    by (auto simp: duplicate_errors_def bindE_Inr_iff split: if_splits)
  then have few: "length (filter (py_eq h) all) \<le> 1" if "h \<in> set (pi_hashes P)" for h
    using sorted_values_Nil that by (fastforce simp: filter_empty_conv)
  have "length (filter (\<lambda>y. plain y = plain x) hs) \<le> 1" if x: "x \<in> set hs" for x
  proof -
    from x hs(3) plain_dedupe [OF hs(2)] obtain h where h: "h \<in> set (pi_hashes P)" "plain h = plain x"
      by (metis imageE imageI)
    have "hashable h" using h(1) hs(2,3) set_dedupe by (auto simp: list_all_iff)
    then have "filter (py_eq h) hs = filter (\<lambda>y. plain y = plain x) hs"
      by (intro filter_cong) (auto simp: hash_eq h(2))
    moreover have "length (filter (py_eq h) hs) \<le> length (filter (py_eq h) all)"
      unfolding all(2) by (induction all) auto
    ultimately show ?thesis using few [OF h(1)] by simp
  qed
  then have "distinct (map plain hs)" by (rule distinct_by_count)
  with hs(1) show ?thesis by blast
qed

lemma accepted_inventory:
  assumes "inventory_errors I inventory roots disk = Inr []" "honest_order I"
  shows "\<exists>P hs. read_inventory inventory = Inr P \<and> pi_good P = pi_nodes P
    \<and> truthy_fields ''node-hash'' (pi_nodes P) = Inr hs \<and> distinct (map plain hs)
    \<and> acyclic (parent_rel (pi_nodes P)) \<and> fst ` parent_rel (pi_nodes P) \<subseteq> plain ` set hs
    \<and> bindE (get_in inventory ''dag/file-hashes'' (PList [])) len_of = Inr disk"
proof -
  obtain P where P: "read_inventory inventory = Inr P" and files: "file_count_errors inventory disk = Inr []"
    and dup: "duplicate_errors P = Inr []" and parsed: "parse_errors P = []"
    and cyc: "cycle_errors I P = Inr []" and links: "link_errors P = Inr []"
    by (rule no_errors [OF assms(1)])
  note good = all_parsed [OF P parsed]
  obtain hs where hs: "truthy_fields ''node-hash'' (pi_good P) = Inr hs" "list_all hashable hs" "pi_hashes P = dedupe hs"
    by (rule read_inventory_parts [OF P])
  obtain pairs st where pairs: "edge_pairs (pi_edges P) = Inr pairs" and "link_done st"
    and "foldE (link_node (pi_hashes P) pairs) ([], [], 0) (pi_good P) = Inr st" by (rule links_of [OF links])
  from link_nodes_done [OF this(3,2)] have "fst ` parent_rel (pi_good P) \<subseteq> plain ` set hs"
    by (fastforce simp: parent_rel_def hs(3) plain_dedupe [OF hs(2)])
  moreover from files have "bindE (get_in inventory ''dag/file-hashes'' (PList [])) len_of = Inr disk"
    by (auto simp: file_count_errors_def bindE_Inr_iff split: if_splits)
  ultimately show ?thesis
    using P good hs(1) hashes_differ [OF P dup] accepted_acyclic [OF P assms(2) cyc links] by auto
qed

end
