(* ===== verification/Sew_Theorems.thy ===== *)
theory Sew_Theorems
  imports Sew_Lifecycle
begin

text \<open>
  What the checks of forced authorisations establish.  The lifecycle check is read off the trace of
  events: the recorded state of an authorisation is a function of its events, and no check fails exactly
  when every executed authorisation was executed once, not before its last grant and not after its last
  revocation.
\<close>

section \<open>The state as a function of the trace\<close>

definition seqs_of :: "sew_event list \<Rightarrow> string \<Rightarrow> pv \<Rightarrow> pv list" where
  "seqs_of events kind aid =
     map se_seq (filter (\<lambda>e. truthy (se_auth e) \<and> plain (se_auth e) = aid \<and> se_type e = ''force-authorisation-'' @ kind) events)"

definition last_of :: "'a list \<Rightarrow> 'a option" where
  "last_of xs = (if xs = [] then None else Some (last xs))"

lemma seqs_of_simps [simp]:
  "seqs_of [] kind aid = []"
  "seqs_of (events @ [e]) kind aid = seqs_of events kind aid @
     (if truthy (se_auth e) \<and> plain (se_auth e) = aid \<and> se_type e = ''force-authorisation-'' @ kind then [se_seq e] else [])"
  by (auto simp: seqs_of_def)

lemma last_of_snoc [simp]: "last_of (xs @ [x]) = Some x" "last_of [] = None"
  by (simp_all add: last_of_def)

definition traced :: "sew_event list \<Rightarrow> lifecycle \<Rightarrow> bool" where
  "traced events L \<longleftrightarrow>
     (\<forall>a. map_of (granted L) a = last_of (seqs_of events ''granted'' a)
        \<and> map_of (revoked L) a = last_of (seqs_of events ''revoked'' a)
        \<and> get_or (executed L) a [] = seqs_of events ''executed'' a
        \<and> (has_key (executed L) a \<longleftrightarrow> seqs_of events ''executed'' a \<noteq> []))
     \<and> distinct (map fst (executed L))"

lemma record_event_traced:
  assumes "traced events L" "record_event L e = Inr L'"
  shows "traced (events @ [e]) L'"
proof -
  consider (none) "\<not> truthy (se_auth e)" "L' = L"
    | (grant) "truthy (se_auth e)" "se_type e = ''force-authorisation-granted''"
        "L' = L\<lparr>granted := dset (plain (se_auth e)) (se_seq e) (granted L)\<rparr>"
    | (revoke) "truthy (se_auth e)" "se_type e = ''force-authorisation-revoked''"
        "L' = L\<lparr>revoked := dset (plain (se_auth e)) (se_seq e) (revoked L)\<rparr>"
    | (execute) "truthy (se_auth e)" "se_type e = ''force-authorisation-executed''"
        "L' = L\<lparr>executed := dset (plain (se_auth e)) (get_or (executed L) (plain (se_auth e)) [] @ [se_seq e]) (executed L)\<rparr>"
    | (other) "truthy (se_auth e)" "L' = L" "se_type e \<noteq> ''force-authorisation-granted''"
        "se_type e \<noteq> ''force-authorisation-revoked''" "se_type e \<noteq> ''force-authorisation-executed''"
    using assms(2) by (auto simp: record_event_def Let_def split: if_splits)
  then show ?thesis
  proof cases
    case execute
    with assms(1) show ?thesis
      by (auto simp: traced_def has_key_map_of distinct_update)
  qed (use assms(1) in \<open>auto simp: traced_def\<close>)
qed

lemma record_events_traced:
  "foldE record_event \<lparr>granted = [], revoked = [], executed = []\<rparr> events = Inr L \<Longrightarrow> traced events L"
proof (induction events arbitrary: L rule: rev_induct)
  case Nil
  then show ?case by (auto simp: traced_def get_or_def has_key_def)
next
  case (snoc e events)
  then obtain L0 where "foldE record_event \<lparr>granted = [], revoked = [], executed = []\<rparr> events = Inr L0" "record_event L0 e = Inr L"
    by (auto simp: foldE_append bindE_Inr_iff)
  with snoc.IH record_event_traced show ?case by blast
qed

section \<open>No failing check\<close>

definition no_fail :: "vcheck list \<Rightarrow> bool" where
  "no_fail cs \<longleftrightarrow> (\<forall>c \<in> set cs. vc_status c \<noteq> ''fail'')"

lemma no_fail_append [simp]: "no_fail (xs @ ys) \<longleftrightarrow> no_fail xs \<and> no_fail ys" "no_fail []"
  by (auto simp: no_fail_def)

lemma no_fail_concat: "no_fail (concat xss) \<longleftrightarrow> (\<forall>xs \<in> set xss. no_fail xs)"
  by (auto simp: no_fail_def)

lemma auth_check_no_fail: "auth_check p st aid msg = Inr cs \<Longrightarrow> no_fail cs \<longleftrightarrow> st \<noteq> ''fail''"
  by (auto simp: auth_check_def no_fail_def split: pv.splits)

definition executed_properly :: "sew_event list \<Rightarrow> pv \<Rightarrow> bool" where
  "executed_properly events aid \<longleftrightarrow>
     (\<exists>x g. seqs_of events ''executed'' aid = [x] \<and> last_of (seqs_of events ''granted'' aid) = Some g \<and> g \<noteq> PNone
        \<and> py_less x g = Inr False
        \<and> (\<forall>r. last_of (seqs_of events ''revoked'' aid) = Some r \<longrightarrow> py_less r x = Inr False))"

lemma execution_check_no_fail:
  assumes "traced events L" "(aid, seqs) \<in> set (executed L)" "execution_check L (aid, seqs) = Inr cs"
  shows "no_fail cs \<longleftrightarrow> executed_properly events aid"
proof -
  from assms(1,2) have "get_or (executed L) aid [] = seqs" by (auto simp: traced_def get_or_def)
  with assms(1) have seqs: "seqs_of events ''executed'' aid = seqs" by (simp add: traced_def)
  moreover from assms(1,2) have "has_key (executed L) aid" by (force simp: has_key_def)
  ultimately have ne: "seqs \<noteq> []" using assms(1) by (auto simp: traced_def)
  from assms(1) have g: "map_of (granted L) aid = last_of (seqs_of events ''granted'' aid)"
    and r: "map_of (revoked L) aid = last_of (seqs_of events ''revoked'' aid)" by (simp_all add: traced_def)
  have proper: "executed_properly events aid \<longleftrightarrow>
      (\<exists>x g. seqs = [x] \<and> map_of (granted L) aid = Some g \<and> g \<noteq> PNone \<and> py_less x g = Inr False
        \<and> (\<forall>r. map_of (revoked L) aid = Some r \<longrightarrow> py_less r x = Inr False))"
    by (simp only: executed_properly_def seqs g r)
  show ?thesis
  proof (cases "\<exists>x. seqs = [x]")
    case True
    then show ?thesis
      using assms(3) unfolding proper
      by (auto simp: execution_check_def bindE_Inr_iff dest!: auth_check_no_fail split: option.splits if_splits)
  next
    case False
    with ne have "1 < length seqs" by (cases seqs rule: list.exhaust [case_product list.exhaust]) auto
    with False show ?thesis
      using assms(3) unfolding proper
      by (auto simp: execution_check_def dest!: auth_check_no_fail split: option.splits if_splits)
  qed
qed

lemma unused_check_no_fail: "unused_check L kv = Inr cs \<Longrightarrow> no_fail cs"
  by (cases kv) (auto simp: unused_check_def dest!: auth_check_no_fail split: if_splits)

lemma list_all2_mono_set:
  "list_all2 P xs ys \<Longrightarrow> (\<And>x y. x \<in> set xs \<Longrightarrow> P x y \<Longrightarrow> Q x y) \<Longrightarrow> list_all2 Q xs ys"
  by (induction rule: list_all2_induct) auto

lemma lifecycle_no_fail:
  assumes "validate_evidence_lifecycle events = Inr cs"
  shows "no_fail cs \<longleftrightarrow> (\<forall>aid. seqs_of events ''executed'' aid \<noteq> [] \<longrightarrow> executed_properly events aid)"
proof -
  from assms obtain L xs ys where L: "foldE record_event \<lparr>granted = [], revoked = [], executed = []\<rparr> events = Inr L"
    and xs: "mapE (execution_check L) (executed L) = Inr xs" and ys: "mapE (unused_check L) (granted L) = Inr ys"
    and cs: "cs = concat xs @ concat ys" by (auto simp: validate_evidence_lifecycle_def bindE_Inr_iff)
  note traced = record_events_traced [OF L]
  have "no_fail (concat ys)" using mapE_result_in [OF ys] unused_check_no_fail by (fastforce simp: no_fail_concat)
  moreover have "no_fail (concat xs) \<longleftrightarrow> (\<forall>aid \<in> fst ` set (executed L). executed_properly events aid)"
  proof -
    have "list_all2 (\<lambda>kv part. no_fail part \<longleftrightarrow> executed_properly events (fst kv)) (executed L) xs"
      using xs unfolding mapE_Inr_iff
      by (rule list_all2_mono_set) (use execution_check_no_fail [OF traced] in auto)
    then have "(\<forall>part \<in> set xs. no_fail part) \<longleftrightarrow> (\<forall>kv \<in> set (executed L). executed_properly events (fst kv))"
      by (induction rule: list_all2_induct) auto
    then show ?thesis by (auto simp: no_fail_concat)
  qed
  moreover have "aid \<in> fst ` set (executed L) \<longleftrightarrow> seqs_of events ''executed'' aid \<noteq> []" for aid
    using traced by (simp add: traced_def has_key_def)
  ultimately show ?thesis by (simp add: cs Ball_def)
qed

text \<open>
  C15: the lifecycle check of forced authorisations is exact on the trace of events.  No check fails if
  and only if every authorisation with an execution event has exactly one, was granted, is not executed
  before its last grant and is not executed after its last revocation.
\<close>

theorem lifecycle_exact:
  assumes "validate_evidence_lifecycle events = Inr cs"
  shows "no_fail cs \<longleftrightarrow> (\<forall>aid. seqs_of events ''executed'' aid \<noteq> [] \<longrightarrow> executed_properly events aid)"
  by (rule lifecycle_no_fail [OF assms])

definition sample_event :: "string \<Rightarrow> string \<Rightarrow> int \<Rightarrow> sew_event" where
  "sample_event kind aid n =
     \<lparr>se_file = ''event.json'', se_type = ''force-authorisation-'' @ kind, se_auth = PStr aid, se_seq = PInt n\<rparr>"

lemma lifecycle_exact_witness:
  "\<exists>cs. validate_evidence_lifecycle [sample_event ''granted'' ''a1'' 1, sample_event ''executed'' ''a1'' 2] = Inr cs
     \<and> (no_fail cs \<longleftrightarrow> (\<forall>aid. seqs_of [sample_event ''granted'' ''a1'' 1, sample_event ''executed'' ''a1'' 2] ''executed'' aid \<noteq> []
          \<longrightarrow> executed_properly [sample_event ''granted'' ''a1'' 1, sample_event ''executed'' ''a1'' 2] aid))"
proof -
  have "validate_evidence_lifecycle [sample_event ''granted'' ''a1'' 1, sample_event ''executed'' ''a1'' 2] = Inr []"
    by code_simp
  from lifecycle_exact [OF this] this show ?thesis by blast
qed

text \<open>
  A revocation between grant and execution is forgotten when the authorisation is revoked again after
  the execution: only the last revocation is kept.
\<close>

lemma second_revocation_hides_first:
  "validate_evidence_lifecycle
     [sample_event ''granted'' ''a1'' 1, sample_event ''revoked'' ''a1'' 2,
      sample_event ''executed'' ''a1'' 3, sample_event ''revoked'' ''a1'' 4] = Inr []"
  by code_simp

section \<open>The state witness\<close>

text \<open>What a consistent scope promises, over the values it holds.\<close>

definition sound_record :: "pv list \<Rightarrow> obj \<Rightarrow> string \<Rightarrow> auth_record \<Rightarrow> bool" where
  "sound_record adjs cons aid R \<longleftrightarrow>
     ar_id R = PStr aid \<and> truthy (ar_scope R) \<and> truthy (ar_scope_hash R) \<and>
     (ar_status R \<in> PStr ` set active_names \<and> \<not> ar_consumed R \<and> py_get cons aid = PNone
      \<or> ar_status R \<in> PStr ` set consumed_names \<and> ar_consumed R \<and> py_get cons aid \<noteq> PNone
        \<and> (\<exists>a \<in> set adjs. \<exists>h. provenance_field a ''authorization/id'' = Inr (PStr aid)
             \<and> provenance_field a ''authorization/scope-hash'' = Inr h \<and> py_eq h (ar_scope_hash R))
      \<or> ar_status R \<in> PStr ` set revoked_names)"

definition sound_scope :: "scope \<Rightarrow> bool" where
  "sound_scope S \<longleftrightarrow>
     (\<exists>recs cons adjs. sc_records S = PDict recs \<and> sc_consumed S = PDict cons \<and> iter_of (sc_adjustments S) = Inr adjs
        \<and> (\<forall>(aid, r) \<in> set recs. \<exists>R. read_auth_record r = Inr R \<and> sound_record adjs cons aid R)
        \<and> (\<forall>(aid, e) \<in> set cons. \<exists>r st. map_of recs aid = Some r
             \<and> fielded_none r ''authorization/status'' = Inr st \<and> st \<in> PStr ` set consumed_names))"

lemma in_names_Inr: "in_names v ks = Inr b \<longleftrightarrow> hashable v \<and> (b \<longleftrightarrow> v \<in> PStr ` set ks)"
  by (auto simp: in_names_def)

lemma by_auth_source:
  assumes "adjustments_by_auth adjs = Inr d"
  shows "\<forall>k. \<forall>a \<in> set (get_or d k []). a \<in> set adjs \<and> (\<exists>i. provenance_field a ''authorization/id'' = Inr i \<and> plain i = k)"
  using assms unfolding adjustments_by_auth_def
  by (rule foldE_invariant [rotated]) (simp add: get_or_def, auto simp: bindE_Inr_iff split: if_splits)

lemma concat_mapE_Nil: "mapE f xs = Inr vs \<Longrightarrow> concat vs = [] \<Longrightarrow> x \<in> set xs \<Longrightarrow> f x = Inr []"
  using mapE_source_in by fastforce

lemma sound_record_intro:
  assumes "record_violations sid ids by_auth (PDict cons) (aid, r) = Inr []" "adjustments_by_auth adjs = Inr by_auth"
  shows "\<exists>R. read_auth_record r = Inr R \<and> sound_record adjs cons aid R"
proof -
  from assms(1) obtain R where R: "read_auth_record r = Inr R" "ar_id R = PStr aid"
      "ar_status R \<in> PStr ` set (active_names @ consumed_names @ revoked_names)" "truthy (ar_scope R)" "truthy (ar_scope_hash R)"
    and active: "ar_status R \<in> PStr ` set active_names \<longrightarrow> \<not> ar_consumed R \<and> py_get cons aid = PNone"
    and broken: "ar_status R \<in> PStr ` set consumed_names \<longrightarrow>
      bad_consumption ids (get_or by_auth (PStr aid) []) R (py_get cons aid) = Inr False"
    by (auto simp: record_violations_def bindE_Inr_iff anyE_False_iff in_names_Inr violation_def Let_def split: if_splits)
  have "\<exists>a \<in> set adjs. \<exists>h. provenance_field a ''authorization/id'' = Inr (PStr aid)
       \<and> provenance_field a ''authorization/scope-hash'' = Inr h \<and> py_eq h (ar_scope_hash R)"
    and "ar_consumed R \<and> py_get cons aid \<noteq> PNone"
    if status: "ar_status R \<in> PStr ` set consumed_names"
  proof -
    from broken status have "bad_consumption ids (get_or by_auth (PStr aid) []) R (py_get cons aid) = Inr False" by blast
    then have parts: "ar_consumed R" "py_get cons aid \<noteq> PNone" "length (get_or by_auth (PStr aid) []) = 1"
      and h: "\<exists>h. provenance_field (hd (get_or by_auth (PStr aid) [])) ''authorization/scope-hash'' = Inr h
        \<and> py_eq h (ar_scope_hash R)"
      by (auto simp: bad_consumption_def bindE_Inr_iff anyE_False_iff)
    then show "ar_consumed R \<and> py_get cons aid \<noteq> PNone" by blast
    from parts(3) obtain a where a: "get_or by_auth (PStr aid) [] = [a]" by (auto simp: length_Suc_conv)
    with by_auth_source [OF assms(2)] have "a \<in> set adjs"
      "\<exists>i. provenance_field a ''authorization/id'' = Inr i \<and> plain i = PStr aid" by (auto dest: spec [of _ "PStr aid"])
    with h a show "\<exists>a \<in> set adjs. \<exists>h. provenance_field a ''authorization/id'' = Inr (PStr aid)
       \<and> provenance_field a ''authorization/scope-hash'' = Inr h \<and> py_eq h (ar_scope_hash R)"
      by (auto simp: plain_str_iff)
  qed
  with R active show ?thesis by (auto simp: sound_record_def)
qed

lemma sound_scope_intro:
  assumes "scope_violations S = Inr []"
  shows "sound_scope S"
proof -
  from assms obtain adjs ids by_auth recs vs cons ws where parts: "iter_of (sc_adjustments S) = Inr adjs"
    "adjustments_by_auth adjs = Inr by_auth" "sc_records S = PDict recs" "sc_consumed S = PDict cons"
    and vs: "mapE (record_violations (sc_id S) ids by_auth (PDict cons)) recs = Inr vs" "concat vs = []"
    and ws: "mapE (consumption_violations (sc_id S) ids (PDict recs)) cons = Inr ws" "concat ws = []"
    by (auto simp: scope_violations_def bindE_Inr_iff dict_entries_def split: pv.splits)
  have "\<forall>(aid, r) \<in> set recs. \<exists>R. read_auth_record r = Inr R \<and> sound_record adjs cons aid R"
    using concat_mapE_Nil [OF vs] sound_record_intro [OF _ parts(2)] by blast
  moreover have "\<exists>r st. map_of recs aid = Some r \<and> fielded_none r ''authorization/status'' = Inr st
      \<and> st \<in> PStr ` set consumed_names" if "(aid, e) \<in> set cons" for aid e
    using concat_mapE_Nil [OF ws that]
    by (auto simp: consumption_violations_def bindE_Inr_iff anyE_False_iff in_names_Inr get_or_def violation_def
        split: if_splits option.splits)
  ultimately show ?thesis using parts by (auto simp: sound_scope_def)
qed

lemma state_witness_no_fail:
  assumes "validate_protocol_state C bundle require_witness = Inr cs" "no_fail cs"
    and "fielded_none bundle ''protocol/state'' = Inr state" "state \<noteq> PNone"
  shows "\<exists>h scopes. fielded_none bundle ''protocol/state-witness-hash'' = Inr h
    \<and> (truthy h \<longrightarrow> h = PStr (canonical_protocol_state_hash C state)) \<and> (require_witness \<longrightarrow> truthy h)
    \<and> scoped_protocol_state state = Inr scopes \<and> (\<forall>S \<in> set scopes. sound_scope S)"
proof -
  from assms obtain h scopes vs where h: "fielded_none bundle ''protocol/state-witness-hash'' = Inr h"
    and scopes: "scoped_protocol_state state = Inr scopes" and vs: "mapE scope_violations scopes = Inr vs"
    and none: "witness_hash_violations C require_witness state h @ concat vs = []"
    by (auto simp: validate_protocol_state_def bindE_Inr_iff violations_check_def no_fail_def split: if_splits)
  have "\<forall>S \<in> set scopes. sound_scope S"
    using concat_mapE_Nil [OF vs] none sound_scope_intro by simp
  with h scopes none show ?thesis by (auto simp: witness_hash_violations_def split: if_splits)
qed

text \<open>
  C22: a state witness that passes is consistent.  Its recorded hash, if any, is the hash of the state; in
  every scope each authorisation record has its own id, a scope and a scope hash, an active record is not
  consumed, a consumed record has a consumption entry and an adjustment made under its scope hash, and
  every consumption entry belongs to a consumed record.
\<close>

theorem state_witness_sound:
  assumes "validate_protocol_state C bundle require_witness = Inr cs" "no_fail cs"
    and "fielded_none bundle ''protocol/state'' = Inr state" "state \<noteq> PNone"
  shows "\<exists>h scopes. fielded_none bundle ''protocol/state-witness-hash'' = Inr h
    \<and> (truthy h \<longrightarrow> h = PStr (canonical_protocol_state_hash C state)) \<and> (require_witness \<longrightarrow> truthy h)
    \<and> scoped_protocol_state state = Inr scopes \<and> (\<forall>S \<in> set scopes. sound_scope S)"
  by (rule state_witness_no_fail [OF assms])

definition sample_adjustment :: "string \<Rightarrow> string \<Rightarrow> pv" where
  "sample_adjustment adj aid = PDict [(''held-adjustment/id'', PStr adj),
     (''authorization/provenance'', PDict [(''authorization/id'', PStr aid), (''authorization/scope-hash'', PStr ''h'')])]"

definition sample_record :: "string \<Rightarrow> pv" where
  "sample_record aid = PDict [(''authorization/id'', PStr aid), (''authorization/status'', PStr ''consumed''),
     (''consumed?'', PBool True), (''authorization/scope'', PStr ''s''), (''authorization/scope-hash'', PStr ''h'')]"

definition sample_state :: "string \<Rightarrow> string \<Rightarrow> pv" where
  "sample_state first second = PDict
     [(''force-authorisations'', PDict [(''a1'', sample_record ''a1''), (''a2'', sample_record ''a2'')]),
      (''force-authorisations/consumed'', PDict
         [(''a1'', PDict [(''held-adjustment/id'', PStr first)]), (''a2'', PDict [(''held-adjustment/id'', PStr second)])]),
      (''held-adjustments'', PList [sample_adjustment ''x1'' ''a1'', sample_adjustment ''x2'' ''a2''])]"

lemma state_witness_sound_witness:
  "\<exists>h scopes. fielded_none (PDict [(''protocol/state'', sample_state ''x1'' ''x2'')]) ''protocol/state-witness-hash'' = Inr h
    \<and> (truthy h \<longrightarrow> h = PStr (canonical_protocol_state_hash \<lparr>sha256_text = id, seed_public_key = (\<lambda>_. None),
          seed_sign = (\<lambda>_ t. t), key_verify = (\<lambda>_ _ _. Verified)\<rparr> (sample_state ''x1'' ''x2'')))
    \<and> (False \<longrightarrow> truthy h)
    \<and> scoped_protocol_state (sample_state ''x1'' ''x2'') = Inr scopes \<and> (\<forall>S \<in> set scopes. sound_scope S)"
proof (rule state_witness_sound)
  show "validate_protocol_state \<lparr>sha256_text = id, seed_public_key = (\<lambda>_. None), seed_sign = (\<lambda>_ t. t),
      key_verify = (\<lambda>_ _ _. Verified)\<rparr> (PDict [(''protocol/state'', sample_state ''x1'' ''x2'')]) False
    = Inr [violations_check ''force-authorisation-state-witness-consistent''
        ''authorization, consumption, and held-adjustment links verified''
        ''protocol state witness has lifecycle violations'' []]" by code_simp
  show "no_fail [violations_check ''force-authorisation-state-witness-consistent''
        ''authorization, consumption, and held-adjustment links verified''
        ''protocol state witness has lifecycle violations'' []]" by code_simp
  show "fielded_none (PDict [(''protocol/state'', sample_state ''x1'' ''x2'')]) ''protocol/state'' = Inr (sample_state ''x1'' ''x2'')"
    by code_simp
  show "sample_state ''x1'' ''x2'' \<noteq> PNone" by (simp add: sample_state_def)
qed

text \<open>
  The consumption entry of an authorisation may name the adjustment that was made for another one: the
  check asks only that the adjustment exists.
\<close>

lemma consumption_entries_may_be_swapped:
  "bindE (scoped_protocol_state (sample_state ''x2'' ''x1'')) (mapE scope_violations) = Inr [[]]"
  by code_simp

end
