(* ===== verification/Verify_Theorems.thy ===== *)
theory Verify_Theorems
  imports Bundle_Verify Inventory_Theorems Sew_Theorems
begin

text \<open>
  What the exit code 0 of \<^verbatim>\<open>verify.py\<close> establishes about a run directory: its documents, the hashes they
  carry, its evidence graph and the semantics of its protocol; and what it does not establish.
\<close>

section \<open>Single checks\<close>

definition clean_checks :: "run_check list \<Rightarrow> bool" where
  "clean_checks cs \<longleftrightarrow> (\<forall>c \<in> set cs. \<not> bad c)"

lemma clean_checks_simps [simp]:
  "clean_checks []" "clean_checks (c # cs) \<longleftrightarrow> \<not> bad c \<and> clean_checks cs"
  "clean_checks (xs @ ys) \<longleftrightarrow> clean_checks xs \<and> clean_checks ys"
  by (auto simp: clean_checks_def)

lemma clean_map: "clean_checks (map f xs) \<longleftrightarrow> (\<forall>x \<in> set xs. \<not> bad (f x))"
  by (auto simp: clean_checks_def)

lemma count_bad_zero: "count_checks bad cs = 0 \<longleftrightarrow> clean_checks cs"
  by (auto simp: count_checks_def clean_checks_def filter_empty_conv)

lemma check_exists_clean: "\<not> bad (check_exists W f ''required'') \<longleftrightarrow> entry_exists W (path_parts f)"
  by (auto simp: check_exists_def Let_def)

lemma check_dir_clean: "\<not> bad (check_dir_exists W f) \<longleftrightarrow> entry_exists W (path_parts f) \<and> is_folder W (path_parts f)"
  by (auto simp: check_dir_exists_def Let_def)

lemma guarded_clean:
  assumes "\<not> bad (guarded W name key label body)"
  shows "\<exists>v c. load_at W [name] = Some v \<and> body v = Inr c \<and> \<not> bad c"
  using assms by (auto simp: guarded_def Let_def split: if_splits option.splits sum.splits)

lemma missing_keys_none: "missing_keys (PDict d) ks = Inr [] \<Longrightarrow> list_all (has_key d) ks"
  by (induction ks) (auto simp: missing_keys_def bindE_Inr_iff split: if_splits)

lemma bundle_root_clean:
  assumes "\<not> bad (check_bundle_root_valid W)"
  shows "\<exists>d. load_at W [''run-bundle-root.json''] = Some (PDict d) \<and> py_get d ''bundle/schema-version'' = PStr ''bundle-root.v1''
    \<and> list_all (has_key d) [''bundle/schema-version'', ''bundle/id'', ''overview/hash'', ''preflight'']"
proof -
  from guarded_clean [OF assms [unfolded check_bundle_root_valid_def]]
  obtain v where v: "load_at W [''run-bundle-root.json''] = Some v"
    "missing_keys v [''bundle/schema-version'', ''bundle/id'', ''overview/hash'', ''preflight''] = Inr []"
    "get_none v ''bundle/schema-version'' = Inr (PStr ''bundle-root.v1'')"
    by (auto simp: bindE_Inr_iff split: if_splits)
  then obtain d where "v = PDict d" "py_get d ''bundle/schema-version'' = PStr ''bundle-root.v1''" by (auto simp: get_in_Inr_iff)
  with v missing_keys_none show ?thesis by blast
qed

lemma overview_clean:
  assumes "\<not> bad (check_overview_valid W)"
  shows "\<exists>d. load_at W [''run-overview.json''] = Some (PDict d) \<and> list_all (has_key d) [''run-id'', ''status'', ''exit-code'']"
proof -
  from guarded_clean [OF assms [unfolded check_overview_valid_def]]
  obtain v i where v: "load_at W [''run-overview.json''] = Some v"
    "missing_keys v [''run-id'', ''status'', ''exit-code''] = Inr []" "get_in v ''run-id'' (PStr ''?'') = Inr i"
    by (auto simp: bindE_Inr_iff split: if_splits)
  then obtain d where "v = PDict d" by (auto simp: get_in_Inr_iff)
  with v missing_keys_none show ?thesis by blast
qed

lemma preflight_clean:
  assumes "\<not> bad (check_preflight_valid W)"
  shows "\<exists>d. load_at W [''preflight-report.json''] = Some (PDict d)
    \<and> py_get d ''preflight/status'' \<in> {PStr ''pass'', PStr ''pass-with-warnings''}"
  using guarded_clean [OF assms [unfolded check_preflight_valid_def]]
  by (auto simp: bindE_Inr_iff get_in_Inr_iff Let_def get_or_def split: if_splits option.splits)

lemma truthy_at_Some: "truthy_at W p = Some v \<Longrightarrow> load_at W p = Some v"
  by (auto simp: truthy_at_def split: option.splits if_splits)

lemma mismatch_bad: "mismatch key label recorded expected = Inr c \<Longrightarrow> bad c"
  by (auto simp: mismatch_def bindE_Inr_iff)

lemma claim_file_clean:
  assumes "check_claim_file C W n = Inr c" "\<not> bad c"
  shows "\<exists>d. load_at W [''claims'', n] = Some (PDict d) \<and> py_get d ''result/schema-version'' = PStr ''forensic-claim-result.v1''
    \<and> py_get d ''result/hash'' = PStr (self_hash C d [''result/hash''])"
  using assms by (auto simp: check_claim_file_def Let_def bindE_Inr_iff get_in_Inr_iff dest: truthy_at_Some mismatch_bad
      split: option.splits if_splits)

lemma attestation_file_clean:
  assumes "check_attestation_file C W n = Inr c" "\<not> bad c"
  shows "\<exists>d. load_at W [''attestations'', n] = Some (PDict d)
    \<and> py_get d ''attestation/schema-version'' = PStr ''forensic-attestation.v1''
    \<and> (py_get d ''attestation/claim-result'' \<in> PStr ` set allowed_claim_results \<longrightarrow>
        py_get d ''attestation/hash'' = PStr (self_hash C d attestation_exclude_keys))"
proof -
  from assms obtain v cr known where v: "load_at W [''attestations'', n] = Some v"
    "get_none v ''attestation/schema-version'' = Inr (PStr ''forensic-attestation.v1'')"
    "get_none v ''attestation/claim-result'' = Inr cr" "in_names cr allowed_claim_results = Inr known"
    and rest: "known \<longrightarrow> attestation_hash_check C (''attestation-valid-'' @ n) (''Attestation '' @ n) v cr = Inr c"
    by (auto simp: check_attestation_file_def Let_def bindE_Inr_iff dest: truthy_at_Some split: option.splits if_splits)
  from v(2,3) obtain d where d: "v = PDict d" "py_get d ''attestation/schema-version'' = PStr ''forensic-attestation.v1''"
    "py_get d ''attestation/claim-result'' = cr" by (auto simp: get_in_Inr_iff)
  from v(4) have "known \<longleftrightarrow> cr \<in> PStr ` set allowed_claim_results" by (simp add: in_names_Inr)
  moreover have "py_get d ''attestation/hash'' = PStr (self_hash C d attestation_exclude_keys)" if known
    using rest that assms(2)
    by (auto simp: attestation_hash_check_def d(1) Let_def bindE_Inr_iff dest: mismatch_bad split: if_splits)
  ultimately show ?thesis using v(1) d by auto
qed

lemma folder_clean:
  assumes "check_folder W name f = Inr cs" "clean_checks cs"
  shows "is_folder W [name] \<and> json_files_in W [name] \<noteq> [] \<and> (\<forall>n \<in> set (json_files_in W [name]). \<exists>c. f n = Inr c \<and> \<not> bad c)"
proof -
  from assms have folder: "is_folder W [name]" "json_files_in W [name] \<noteq> []"
    and run: "mapE f (sort (json_files_in W [name])) = Inr cs"
    by (auto simp: check_folder_def Let_def split: if_splits)
  from mapE_source_in [OF run] assms(2) folder show ?thesis by (fastforce simp: clean_checks_def)
qed

lemma evidence_clean:
  assumes "check_evidence_dag I W = Inr c" "\<not> bad c" "truthy_at W [''evidence-dag-inventory.json''] = Some inventory"
  shows "inventory_errors I inventory (bundle_roots W) (length (edn_files W)) = Inr []"
  using assms by (auto simp: check_evidence_dag_def Let_def bindE_Inr_iff split: if_splits)

section \<open>The checks of a run\<close>

lemma run_checks_parts:
  assumes "run_checks_of V D e rs = Inr cs"
  obtains dag sealing cls atts anchor semantics where
    "check_evidence_dag (ve_interpreter V) D = Inr dag" "sealing_checks V D = Inr sealing"
    "check_claims_content (ve_crypto V) D = Inr cls" "check_attestations_content (ve_crypto V) D = Inr atts"
    "check_protocol_semantics (ve_crypto V) (ve_exceptions V) D e rs = Inr semantics"
    "cs = presence_checks D
         @ [check_bundle_root_valid D, check_overview_valid D, check_preflight_valid D, dag, check_no_extra_dirs D]
         @ sealing @ cls @ atts @ [anchor] @ semantics"
  using assms unfolding run_checks_of_def bindE_Inr_iff by blast

lemma accepted_run:
  assumes "verify_run V dir (Some D) e rs = Inr r" "verify_exit_code r = 0"
  obtains cs where "run_checks_of V D e rs = Inr cs" "clean_checks cs"
  using assms by (auto simp: verify_run_def bindE_Inr_iff verify_exit_code_def aggregate_def aggregate_status_def
      count_bad_zero split: if_splits)

definition root_document :: "bundle_dir \<Rightarrow> obj \<Rightarrow> bool" where
  "root_document D d \<longleftrightarrow> load_at D [''run-bundle-root.json''] = Some (PDict d) \<and> py_get d ''bundle/schema-version'' = PStr ''bundle-root.v1''
    \<and> list_all (has_key d) [''bundle/schema-version'', ''bundle/id'', ''overview/hash'', ''preflight'']"

definition vouched_claim :: "crypto \<Rightarrow> bundle_dir \<Rightarrow> string \<Rightarrow> bool" where
  "vouched_claim C D n \<longleftrightarrow>
     (\<exists>d. load_at D [''claims'', n] = Some (PDict d) \<and> py_get d ''result/schema-version'' = PStr ''forensic-claim-result.v1''
        \<and> py_get d ''result/hash'' = PStr (self_hash C d [''result/hash'']))"

definition vouched_attestation :: "crypto \<Rightarrow> bundle_dir \<Rightarrow> string \<Rightarrow> bool" where
  "vouched_attestation C D n \<longleftrightarrow>
     (\<exists>d. load_at D [''attestations'', n] = Some (PDict d)
        \<and> py_get d ''attestation/schema-version'' = PStr ''forensic-attestation.v1''
        \<and> (py_get d ''attestation/claim-result'' \<in> PStr ` set allowed_claim_results \<longrightarrow>
            py_get d ''attestation/hash'' = PStr (self_hash C d attestation_exclude_keys)))"

text \<open>
  C6: a run directory that is verified with exit code 0 has every required file and folder, a bundle root
  of the right schema, an admissible preflight status, and in its claims and attestations folders only
  JSON documents of the right schema.  Every claim carries its own hash, and so does every attestation
  whose claim result is a known one; an unknown result is only a warning and the hash of that attestation
  is not checked.
\<close>

theorem verified_run_documents:
  assumes "verify_run V dir (Some D) e rs = Inr r" "verify_exit_code r = 0"
  shows "(\<forall>f \<in> set required_files. entry_exists D (path_parts f)) \<and> (\<forall>f \<in> set required_dirs. is_folder D (path_parts f))
    \<and> (\<exists>d. root_document D d)
    \<and> (\<exists>d. load_at D [''preflight-report.json''] = Some (PDict d)
          \<and> py_get d ''preflight/status'' \<in> {PStr ''pass'', PStr ''pass-with-warnings''})
    \<and> json_files_in D [''claims''] \<noteq> [] \<and> list_all (vouched_claim (ve_crypto V) D) (json_files_in D [''claims''])
    \<and> json_files_in D [''attestations''] \<noteq> []
    \<and> list_all (vouched_attestation (ve_crypto V) D) (json_files_in D [''attestations''])"
proof -
  obtain cs where cs: "run_checks_of V D e rs = Inr cs" "clean_checks cs" by (rule accepted_run [OF assms])
  obtain dag sealing cls atts anchor semantics where cls: "check_claims_content (ve_crypto V) D = Inr cls"
    and atts: "check_attestations_content (ve_crypto V) D = Inr atts"
    and parts: "cs = presence_checks D
         @ [check_bundle_root_valid D, check_overview_valid D, check_preflight_valid D, dag, check_no_extra_dirs D]
         @ sealing @ cls @ atts @ [anchor] @ semantics" by (rule run_checks_parts [OF cs(1)])
  from cs(2) parts have clean: "clean_checks (presence_checks D)" "\<not> bad (check_bundle_root_valid D)"
    "\<not> bad (check_preflight_valid D)" "clean_checks cls" "clean_checks atts" by simp_all
  from clean(1) have "\<forall>f \<in> set required_files. entry_exists D (path_parts f)"
    "\<forall>f \<in> set required_dirs. is_folder D (path_parts f)"
    by (simp_all add: presence_checks_def clean_map check_exists_clean check_dir_clean)
  moreover note bundle_root_clean [OF clean(2)] preflight_clean [OF clean(3)]
  moreover note folder_clean [OF cls [unfolded check_claims_content_def] clean(4)]
    folder_clean [OF atts [unfolded check_attestations_content_def] clean(5)]
  ultimately show ?thesis
    using claim_file_clean [of "ve_crypto V" D] attestation_file_clean [of "ve_crypto V" D]
    unfolding vouched_claim_def vouched_attestation_def root_document_def list_all_iff by blast
qed

lemma verified_evidence:
  assumes "verify_run V dir (Some D) e rs = Inr r" "verify_exit_code r = 0"
    and "truthy_at D [''evidence-dag-inventory.json''] = Some inventory" "honest_order (ve_interpreter V)"
  shows "\<exists>P hs. read_inventory inventory = Inr P \<and> pi_good P = pi_nodes P
    \<and> truthy_fields ''node-hash'' (pi_nodes P) = Inr hs \<and> distinct (map plain hs)
    \<and> acyclic (parent_rel (pi_nodes P)) \<and> fst ` parent_rel (pi_nodes P) \<subseteq> plain ` set hs
    \<and> bindE (get_in inventory ''dag/file-hashes'' (PList [])) len_of = Inr (length (edn_files D))"
proof -
  obtain cs where cs: "run_checks_of V D e rs = Inr cs" "clean_checks cs" by (rule accepted_run [OF assms(1,2)])
  obtain dag sealing cls atts anchor semantics where dag: "check_evidence_dag (ve_interpreter V) D = Inr dag"
    and parts: "cs = presence_checks D
         @ [check_bundle_root_valid D, check_overview_valid D, check_preflight_valid D, dag, check_no_extra_dirs D]
         @ sealing @ cls @ atts @ [anchor] @ semantics" by (rule run_checks_parts [OF cs(1)])
  from cs(2) parts have "\<not> bad dag" by simp
  from accepted_inventory [OF evidence_clean [OF dag this assms(3)] assms(4)] show ?thesis .
qed

text \<open>
  C2: when a run directory with an inventory of its evidence is verified with exit code 0, the inventory
  is a well-formed graph: every node was parsed, the hashes of the nodes are different, every parent a
  node names is the hash of a node, no node is its own ancestor, and the inventory lists as many files as
  the folder has EDN files.
\<close>

theorem verified_run_evidence:
  assumes "verify_run V dir (Some D) e rs = Inr r" "verify_exit_code r = 0"
    and "truthy_at D [''evidence-dag-inventory.json''] = Some inventory" "honest_order (ve_interpreter V)"
  shows "\<exists>P hs. read_inventory inventory = Inr P \<and> pi_good P = pi_nodes P
    \<and> truthy_fields ''node-hash'' (pi_nodes P) = Inr hs \<and> distinct (map plain hs)
    \<and> acyclic (parent_rel (pi_nodes P)) \<and> fst ` parent_rel (pi_nodes P) \<subseteq> plain ` set hs
    \<and> bindE (get_in inventory ''dag/file-hashes'' (PList [])) len_of = Inr (length (edn_files D))"
  using verified_evidence [OF assms] .

section \<open>Protocol semantics\<close>

lemma in_early_report [simp]:
  "va_status (early_report st p d cs f u) = PStr st" "va_protocol (early_report st p d cs f u) = p"
  by (simp_all add: early_report_def)

lemma semantics_clean:
  assumes "check_protocol_semantics C X D e rs = Inr cs" "clean_checks cs" "entry_exists D [''run-bundle-root.json'']"
  obtains r where "validate_protocol_bundle C X (full_path D ''run-bundle-root.json'')
      (load_root_document D [''run-bundle-root.json'']) (Some D) = Inr r"
    "va_status r \<noteq> PStr ''error''" "va_status r \<noteq> PStr ''fail''" "rs \<longrightarrow> va_status r \<noteq> PStr ''not-verified''"
    "clean_checks (identity_checks e (va_protocol r))"
proof -
  from assms obtain r mapped where r: "validate_protocol_bundle C X (full_path D ''run-bundle-root.json'')
      (load_root_document D [''run-bundle-root.json'']) (Some D) = Inr r"
    and cs: "cs = identity_checks e (va_protocol r) @ error_checks r @ mapped @ [summary_check rs r]"
    by (auto simp: check_protocol_semantics_def bindE_Inr_iff)
  from assms(2) cs have "clean_checks (error_checks r)" and summary: "\<not> bad (summary_check rs r)"
    and ids: "clean_checks (identity_checks e (va_protocol r))" by simp_all
  then have "va_status r \<noteq> PStr ''error''" by (auto simp: error_checks_def split: if_splits)
  moreover have "va_status r \<noteq> PStr ''fail''" "rs \<longrightarrow> va_status r \<noteq> PStr ''not-verified''"
    using summary by (auto simp: summary_check_def Let_def split: prod.splits)
  ultimately show thesis using that [OF r] ids by blast
qed

definition declared_sew :: "crypto \<Rightarrow> bundle_dir \<Rightarrow> bool" where
  "declared_sew C D \<longleftrightarrow>
     (\<exists>b events cs. load_root_document D [''run-bundle-root.json''] = Some b
        \<and> read_protocol_descriptor b = Inr (Declared ''sew'' ''1'')
        \<and> find_sew_evidence_files D = Inr events \<and> sew_checks C b events = Inr cs \<and> no_fail cs)"

lemma count_fail_zero: "status_count cs ''fail'' = 0 \<longleftrightarrow> no_fail cs"
  by (auto simp: status_count_def no_fail_def filter_empty_conv)

lemma sew_report_status: "py_get (dict_of (sew_report cs n)) ''sew/status'' = PStr (if no_fail cs then ''pass'' else ''fail'')"
  by (simp add: sew_report_def get_or_def count_fail_zero)

lemma validated_status:
  assumes "validate_protocol_bundle C X p bundle (Some D) = Inr r"
    and "va_status r \<noteq> PStr ''error''" "va_status r \<noteq> PStr ''fail''" "va_status r \<noteq> PStr ''not-verified''"
  shows "\<exists>b events cs. bundle = Some b \<and> read_protocol_descriptor b = Inr (Declared ''sew'' ''1'')
    \<and> find_sew_evidence_files D = Inr events \<and> sew_checks C b events = Inr cs \<and> no_fail cs
    \<and> va_protocol r = Some (PStr ''sew'', PStr ''1'')"
proof -
  from assms obtain b raw where b: "bundle = Some b" "read_protocol_descriptor b = Inr raw"
    by (auto simp: validate_protocol_bundle_def bindE_Inr_iff split: option.splits)
  with assms obtain pid ver f where raw: "raw = Declared pid ver" and f: "map_of (validators C) (pid, ver) = Some f"
    and r: "r = run_validator X f pid ver p bundle (Some D)"
    by (auto simp: validate_protocol_bundle_def split: descriptor.splits option.splits)
  from f have sew: "pid = ''sew''" "ver = ''1''" "f = validate_sew_bundle C"
    by (auto simp: validators_def split: if_splits)
  with r assms obtain result where result: "validate_sew_bundle C p bundle (Some D) = Inr result"
    and status: "va_status r = or_value (py_get (dict_of result) ''sew/status'') (PStr ''error'')"
    and protocol: "va_protocol r = Some (PStr ''sew'', PStr ''1'')"
    by (auto simp: run_validator_def Let_def split: sum.splits if_splits)
  from result b obtain events cs where run: "find_sew_evidence_files D = Inr events" "sew_checks C b events = Inr cs"
    and report: "result = sew_report cs (length events)"
    by (auto simp: validate_sew_bundle_def bindE_Inr_iff)
  from status assms(3) have "no_fail cs" by (auto simp: report sew_report_status or_value_def split: if_splits)
  with b raw sew run protocol show ?thesis by blast
qed

text \<open>
  C3: with \<^verbatim>\<open>--require-protocol-semantics\<close>, exit code 0 means that the bundle declares the protocol sew,
  version 1, and that its validator ran without a failing check; every authorisation with an execution
  event was executed once, not before its last grant and not after its last revocation.  An expected
  protocol given on the command line is the declared one.
\<close>

theorem verified_run_protocol:
  assumes "verify_run V dir (Some D) e True = Inr r" "verify_exit_code r = 0"
  shows "declared_sew (ve_crypto V) D \<and> (e = None \<or> e = Some (''sew'', ''1''))
    \<and> (\<exists>events. find_sew_evidence_files D = Inr events \<and>
         (\<forall>aid. seqs_of events ''executed'' aid \<noteq> [] \<longrightarrow> executed_properly events aid))"
proof -
  obtain cs where cs: "run_checks_of V D e True = Inr cs" "clean_checks cs" by (rule accepted_run [OF assms])
  obtain dag sealing cls atts anchor semantics where
      semantics: "check_protocol_semantics (ve_crypto V) (ve_exceptions V) D e True = Inr semantics"
    and parts: "cs = presence_checks D
         @ [check_bundle_root_valid D, check_overview_valid D, check_preflight_valid D, dag, check_no_extra_dirs D]
         @ sealing @ cls @ atts @ [anchor] @ semantics" by (rule run_checks_parts [OF cs(1)])
  from cs(2) parts have clean: "clean_checks semantics" "\<not> bad (check_bundle_root_valid D)" by simp_all
  from bundle_root_clean [OF clean(2)] have "entry_exists D [''run-bundle-root.json'']"
    by (auto simp: load_at_def entry_exists_def has_key_map_of split: option.splits)
  from semantics_clean [OF semantics clean(1) this] obtain v where
    v: "validate_protocol_bundle (ve_crypto V) (ve_exceptions V) (full_path D ''run-bundle-root.json'')
      (load_root_document D [''run-bundle-root.json'']) (Some D) = Inr v"
    "va_status v \<noteq> PStr ''error''" "va_status v \<noteq> PStr ''fail''" "va_status v \<noteq> PStr ''not-verified''"
    and ids: "clean_checks (identity_checks e (va_protocol v))" by blast
  from validated_status [OF v] obtain b events chks where b: "load_root_document D [''run-bundle-root.json''] = Some b"
    "read_protocol_descriptor b = Inr (Declared ''sew'' ''1'')" and events: "find_sew_evidence_files D = Inr events"
    and chks: "sew_checks (ve_crypto V) b events = Inr chks" "no_fail chks"
    and protocol: "va_protocol v = Some (PStr ''sew'', PStr ''1'')" by blast
  from chks obtain life where "validate_evidence_lifecycle events = Inr life" "no_fail life"
    by (auto simp: sew_checks_def bindE_Inr_iff Let_def)
  from lifecycle_no_fail [OF this(1)] this(2)
  have "\<forall>aid. seqs_of events ''executed'' aid \<noteq> [] \<longrightarrow> executed_properly events aid" by blast
  moreover have "e = None \<or> e = Some (''sew'', ''1'')"
    using ids protocol by (auto simp: identity_checks_def split: option.splits if_splits)
  ultimately show ?thesis using b events chks by (auto simp: declared_sew_def)
qed

section \<open>What does not decide\<close>

lemma bundle_root_hash_never_bad:
  "check_bundle_root_hash C W = Inr c \<Longrightarrow> \<not> bad c \<and> ck_status c \<noteq> ''warning''"
  by (auto simp: check_bundle_root_hash_def hash_check_def bindE_Inr_iff split: option.splits if_splits)

lemma overview_hash_never_bad:
  "check_overview_hash C W = Inr c \<Longrightarrow> \<not> bad c \<and> ck_status c \<noteq> ''warning''"
  by (auto simp: check_overview_hash_def hash_check_def bindE_Inr_iff split: option.splits if_splits)

lemma aggregate_status_skip:
  "\<not> bad c \<Longrightarrow> ck_status c \<noteq> ''warning'' \<Longrightarrow> aggregate_status (xs @ c # ys) = aggregate_status (xs @ ys)"
  by (simp add: aggregate_status_def count_checks_def)

text \<open>
  C28: the recomputed hashes of the bundle root and of the overview never decide.  Their checks are part
  of the report, but the status is the one the other checks give, so a bundle root whose recorded hash
  does not match its content still passes.
\<close>

theorem seal_never_decides:
  assumes "run_checks_of V D e rs = Inr cs"
  shows "\<exists>before root overview after. cs = before @ [root, overview] @ after
    \<and> check_bundle_root_hash (ve_crypto V) D = Inr root \<and> check_overview_hash (ve_crypto V) D = Inr overview
    \<and> aggregate_status cs = aggregate_status (before @ after)"
proof -
  obtain dag sealing cls atts anchor semantics where sealing: "sealing_checks V D = Inr sealing"
    and parts: "cs = presence_checks D
         @ [check_bundle_root_valid D, check_overview_valid D, check_preflight_valid D, dag, check_no_extra_dirs D]
         @ sealing @ cls @ atts @ [anchor] @ semantics" by (rule run_checks_parts [OF assms])
  from sealing obtain root overview rest where root: "check_bundle_root_hash (ve_crypto V) D = Inr root"
    and overview: "check_overview_hash (ve_crypto V) D = Inr overview" and rest: "sealing = root # overview # rest"
    by (auto simp: sealing_checks_def bindE_Inr_iff)
  let ?before = "presence_checks D
         @ [check_bundle_root_valid D, check_overview_valid D, check_preflight_valid D, dag, check_no_extra_dirs D]"
  let ?after = "rest @ cls @ atts @ [anchor] @ semantics"
  have cs: "cs = ?before @ [root, overview] @ ?after" by (simp add: parts rest)
  have "aggregate_status cs = aggregate_status (?before @ ?after)"
    unfolding cs
    using aggregate_status_skip [of root ?before "overview # ?after"] aggregate_status_skip [of overview ?before ?after]
      bundle_root_hash_never_bad [OF root] overview_hash_never_bad [OF overview] by simp
  with cs root overview show ?thesis by blast
qed

text \<open>An attestation with an unknown result is a warning before its hash is looked at.\<close>

lemma unknown_attestation_unhashed:
  assumes "load_at W [''attestations'', n] = Some (PDict d)" "py_get d ''attestation/schema-version'' = PStr ''forensic-attestation.v1''"
    and "py_get d ''attestation/claim-result'' = PStr s" "s \<notin> set allowed_claim_results"
  shows "\<exists>c. check_attestation_file C W n = Inr c \<and> \<not> bad c"
proof -
  have "d \<noteq> []" using assms(2) by (auto simp: get_or_def)
  with assms show ?thesis by (auto simp: check_attestation_file_def truthy_at_def in_names_def Let_def)
qed

text \<open>A warning of the protocol validator has the status \<open>warn\<close>, which the count of warnings ignores.\<close>

lemma validator_warning_not_counted:
  "aggregate_status (xs @ mk_rcheck k ''warn'' msg ''warning'' # ys) = aggregate_status (xs @ ys)"
  by (rule aggregate_status_skip) simp_all

section \<open>A run that is accepted\<close>

definition sample_crypto :: crypto where
  "sample_crypto = \<lparr>sha256_text = (\<lambda>_. ''00''), seed_public_key = (\<lambda>_. None), seed_sign = (\<lambda>_ t. t),
     key_verify = (\<lambda>_ _ _. Verified)\<rparr>"

definition sample_env :: verify_env where
  "sample_env = \<lparr>ve_interpreter = \<lparr>recursion_limit = 10, set_order = (\<lambda>xs. xs)\<rparr>, ve_crypto = sample_crypto,
     ve_exceptions = \<lparr>ex_line = (\<lambda>_. []), ex_traceback = (\<lambda>_. [])\<rparr>, ve_signature = None\<rparr>"

definition sample_root :: "string \<Rightarrow> pv" where
  "sample_root h = PDict
     [(''bundle/schema-version'', PStr ''bundle-root.v1''), (''bundle/id'', PStr h), (''bundle/hash'', PStr h),
      (''overview/hash'', PStr ''00''), (''preflight'', PNone), (''dag/root-node-hash'', PStr ''n2''),
      (''protocol'', PDict [(''id'', PStr ''sew''), (''version'', PStr ''1'')])]"

definition sample_inventory :: pv where
  "sample_inventory = PDict
     [(''dag/nodes'', PList
        [PDict [(''file'', PStr ''n1.edn''), (''node-hash'', PStr ''n1'')],
         PDict [(''file'', PStr ''n2.edn''), (''node-hash'', PStr ''n2''), (''parent-hashes'', PList [PStr ''n1''])]]),
      (''dag/edges'', PList [PDict [(''parent'', PStr ''n1''), (''child'', PStr ''n2'')]]),
      (''dag/file-hashes'', PList [PStr ''f1'', PStr ''f2''])]"

definition sample_dir :: "string \<Rightarrow> bundle_dir" where
  "sample_dir h = \<lparr>place = ''run'', entries =
     [([''preflight-report.json''], Document (PDict [(''preflight/status'', PStr ''pass'')])),
      ([''source-snapshot.json''], Document (PDict [])), ([''environment.json''], Document (PDict [])),
      ([''input-manifest.json''], Document (PDict [])),
      ([''run-overview.json''], Document (PDict
         [(''run-id'', PStr ''r1''), (''status'', PStr ''ok''), (''exit-code'', PInt 0), (''overview/hash'', PStr ''00'')])),
      ([''run-bundle-root.json''], Document (sample_root h)),
      ([''evidence-dag-inventory.json''], Document sample_inventory),
      ([''evidence-dag''], Folder), ([''evidence-dag'', ''n1.edn''], Unreadable), ([''evidence-dag'', ''n2.edn''], Unreadable),
      ([''claims''], Folder),
      ([''claims'', ''c1.json''], Document (PDict [(''result/schema-version'', PStr ''forensic-claim-result.v1''),
         (''result/status'', PStr ''pass''), (''result/hash'', PStr ''00'')])),
      ([''attestations''], Folder),
      ([''attestations'', ''a1.json''], Document (PDict [(''attestation/schema-version'', PStr ''forensic-attestation.v1''),
         (''attestation/claim-result'', PStr ''verified''), (''attestation/hash'', PStr ''00'')])),
      ([''anchors''], Folder)],
     beyond = (\<lambda>_. False), exception_text = (\<lambda>_. [])\<rparr>"

lemma sample_accepted:
  "\<exists>r. verify_run sample_env ''run'' (Some (sample_dir ''00'')) (Some (''sew'', ''1'')) True = Inr r \<and> verify_exit_code r = 0"
proof -
  have "(case verify_run sample_env ''run'' (Some (sample_dir ''00'')) (Some (''sew'', ''1'')) True of
      Inl _ \<Rightarrow> False | Inr r \<Rightarrow> verify_exit_code r = 0)" by code_simp
  then show ?thesis by (simp split: sum.splits)
qed

lemma sample_checks: "\<exists>cs. run_checks_of sample_env (sample_dir ''00'') (Some (''sew'', ''1'')) True = Inr cs"
  using sample_accepted by (auto simp: verify_run_def bindE_Inr_iff)

lemma verified_run_documents_witness:
  "list_all (vouched_claim (ve_crypto sample_env) (sample_dir ''00'')) (json_files_in (sample_dir ''00'') [''claims''])
   \<and> json_files_in (sample_dir ''00'') [''claims''] \<noteq> [] \<and> (\<exists>d. root_document (sample_dir ''00'') d)"
  using sample_accepted verified_run_documents by blast

lemma sample_inventory_read: "truthy_at (sample_dir ''00'') [''evidence-dag-inventory.json''] = Some sample_inventory"
  by code_simp

lemma verified_run_evidence_witness:
  "\<exists>P hs. read_inventory sample_inventory = Inr P \<and> pi_good P = pi_nodes P
    \<and> truthy_fields ''node-hash'' (pi_nodes P) = Inr hs \<and> distinct (map plain hs)
    \<and> acyclic (parent_rel (pi_nodes P)) \<and> fst ` parent_rel (pi_nodes P) \<subseteq> plain ` set hs
    \<and> bindE (get_in sample_inventory ''dag/file-hashes'' (PList [])) len_of = Inr (length (edn_files (sample_dir ''00'')))"
proof -
  have "honest_order (ve_interpreter sample_env)" by (simp add: honest_order_def sample_env_def)
  with sample_accepted sample_inventory_read show ?thesis using verified_run_evidence by blast
qed

lemma verified_run_protocol_witness:
  "declared_sew (ve_crypto sample_env) (sample_dir ''00'')
    \<and> (Some (''sew'', ''1'') = None \<or> Some (''sew'', ''1'') = Some (''sew'', ''1''))
    \<and> (\<exists>events. find_sew_evidence_files (sample_dir ''00'') = Inr events \<and>
         (\<forall>aid. seqs_of events ''executed'' aid \<noteq> [] \<longrightarrow> executed_properly events aid))"
proof -
  obtain r where "verify_run sample_env ''run'' (Some (sample_dir ''00'')) (Some (''sew'', ''1'')) True = Inr r" "verify_exit_code r = 0"
    using sample_accepted by blast
  then show ?thesis by (rule verified_run_protocol)
qed

lemma seal_never_decides_witness:
  "\<exists>cs before root overview after. cs = before @ [root, overview] @ after
    \<and> check_bundle_root_hash (ve_crypto sample_env) (sample_dir ''00'') = Inr root
    \<and> check_overview_hash (ve_crypto sample_env) (sample_dir ''00'') = Inr overview
    \<and> aggregate_status cs = aggregate_status (before @ after)"
proof -
  obtain cs where "run_checks_of sample_env (sample_dir ''00'') (Some (''sew'', ''1'')) True = Inr cs"
    using sample_checks by blast
  from seal_never_decides [OF this] show ?thesis by (rule exI [where x = cs])
qed

text \<open>The same run with another recorded hash in its bundle root: the mismatch is found, the run accepted.\<close>

lemma tampered_root_accepted:
  "(case verify_run sample_env ''run'' (Some (sample_dir ''11'')) (Some (''sew'', ''1'')) True of
      Inl _ \<Rightarrow> False | Inr r \<Rightarrow> rp_status r = ''pass'')"
  by code_simp

lemma tampered_root_found:
  "(case check_bundle_root_hash sample_crypto (sample_dir ''11'') of Inl _ \<Rightarrow> False | Inr c \<Rightarrow> ck_status c = ''fail'')"
  by code_simp

end
