(* ===== verification/Key_Theorems.thy ===== *)
theory Key_Theorems
  imports Public_Key
begin

text \<open>
  The three formats of a public key file (\<^verbatim>\<open>_load_ed25519_public_key_bytes\<close>) read back the key they
  encode: base64 with its reference encoder, the SSH line, the PEM file and the hexadecimal text.
\<close>

section \<open>Base64\<close>

definition b64_char :: "nat \<Rightarrow> char" where
  "b64_char n = char_of (if n < 26 then n + 65 else if n < 52 then n + 71 else if n < 62 then n - 4
     else if n = 62 then 43 else 47)"

fun b64_encode :: "bytes \<Rightarrow> string" where
  "b64_encode [] = []"
| "b64_encode [a] = [b64_char (unat a div 4), b64_char (unat a mod 4 * 16), CHR ''='', CHR ''='']"
| "b64_encode [a, b] =
     [b64_char (unat a div 4), b64_char (unat a mod 4 * 16 + unat b div 16), b64_char (unat b mod 16 * 4), CHR ''='']"
| "b64_encode (a # b # c # bs) =
     b64_char (unat a div 4) # b64_char (unat a mod 4 * 16 + unat b div 16)
       # b64_char (unat b mod 16 * 4 + unat c div 64) # b64_char (unat c mod 64) # b64_encode bs"

definition b64_code :: "nat \<Rightarrow> nat" where
  "b64_code n = (if n < 26 then n + 65 else if n < 52 then n + 71 else if n < 62 then n - 4 else if n = 62 then 43 else 47)"

lemma of_b64_char: "n < 64 \<Longrightarrow> (of_char (b64_char n) :: nat) = b64_code n"
  by (simp add: b64_char_def b64_code_def)

lemma b64_char_facts:
  assumes "n < 64"
  shows "b64_val (b64_char n) = Some n" "b64_char n \<noteq> CHR ''=''" "(of_char (b64_char n) :: nat) < 128"
    "\<not> str_space (b64_char n)" "\<not> line_end (b64_char n)" "b64_char n \<noteq> CHR ''-''"
proof -
  note code = of_b64_char [OF assms]
  show "b64_val (b64_char n) = Some n" using assms unfolding b64_val_def code Let_def b64_code_def by auto
  have "(of_char (b64_char n) :: nat) \<notin> {61, 45}" using assms unfolding code b64_code_def by auto
  then show "b64_char n \<noteq> CHR ''=''" "b64_char n \<noteq> CHR ''-''" by auto
  show "(of_char (b64_char n) :: nat) < 128" using assms unfolding code b64_code_def by auto
  show "\<not> str_space (b64_char n)" using assms unfolding str_space_def code b64_code_def Let_def by auto
  show "\<not> line_end (b64_char n)" using assms unfolding line_end_def code b64_code_def Let_def by auto
qed

lemma group_parts:
  "k < 16 \<Longrightarrow> (x * 16 + k) div 16 = x" "k < 16 \<Longrightarrow> (x * 16 + k) mod 16 = (k :: nat)"
  "l < 4 \<Longrightarrow> (x * 4 + l) div 4 = x" "l < 4 \<Longrightarrow> (x * 4 + l) mod 4 = (l :: nat)"
  by simp_all

lemma of_nat_unat_byte: "of_nat (unat a) = (a :: byte)"
  by simp

lemma byte_digits:
  fixes a b c :: byte
  shows "unat a div 4 < 64" "unat a mod 4 * 16 + unat b div 16 < 64" "unat b mod 16 * 4 + unat c div 64 < 64"
    "unat c mod 64 < 64" "unat a mod 4 * 16 < 64" "unat b mod 16 * 4 < 64" "unat b div 16 < 16" "unat c div 64 < 4"
  using unat_byte_less [of a] unat_byte_less [of b] unat_byte_less [of c] by auto

lemma b64_read_char:
  assumes "n < 64"
  shows "b64_read 0 l p (b64_char n # cs) = b64_read (Suc 0) n 0 cs"
    "b64_read (Suc 0) l p (b64_char n # cs) = map_option (Cons (of_nat (l * 4 + n div 16))) (b64_read 2 (n mod 16) 0 cs)"
    "b64_read 2 l p (b64_char n # cs) = map_option (Cons (of_nat (l * 16 + n div 4))) (b64_read 3 (n mod 4) 0 cs)"
    "b64_read 3 l p (b64_char n # cs) = map_option (Cons (of_nat (l * 64 + n))) (b64_read 0 0 0 cs)"
  using b64_char_facts [OF assms] by simp_all

lemma b64_read_encode: "b64_read 0 0 0 (b64_encode bs) = Some bs"
proof (induction bs rule: b64_encode.induct)
  case (2 a)
  have "b64_read 2 l 0 ''=='' = Some []" for l by (simp add: numeral_2_eq_2)
  then show ?case
    by (simp add: b64_read_char byte_digits group_parts of_nat_unat_byte del: b64_read.simps of_nat_add of_nat_mult)
next
  case (3 a b)
  have "b64_read 3 l 0 ''='' = Some []" for l by simp
  then show ?case
    by (simp add: b64_read_char byte_digits group_parts of_nat_unat_byte del: b64_read.simps of_nat_add of_nat_mult)
next
  case (4 a b c bs)
  then show ?case
    by (simp add: b64_read_char byte_digits group_parts of_nat_unat_byte del: b64_read.simps of_nat_add of_nat_mult)
qed simp

definition b64_plain :: "char \<Rightarrow> bool" where
  "b64_plain c \<longleftrightarrow> (of_char c :: nat) < 128 \<and> \<not> str_space c \<and> \<not> line_end c \<and> c \<noteq> CHR ''-''"

lemma b64_plain_intros: "n < 64 \<Longrightarrow> b64_plain (b64_char n)" "b64_plain (CHR ''='')"
  by (simp add: b64_plain_def b64_char_facts) (simp add: b64_plain_def str_space_def line_end_def)

lemma b64_encode_plain: "list_all b64_plain (b64_encode bs)"
  by (induction bs rule: b64_encode.induct) (simp_all add: b64_plain_intros byte_digits)

lemma b64_encode_facts:
  "c \<in> set (b64_encode bs) \<Longrightarrow> (of_char c :: nat) < 128 \<and> \<not> str_space c \<and> \<not> line_end c \<and> c \<noteq> CHR ''-''"
  using b64_encode_plain [of bs] by (auto simp: list_all_iff b64_plain_def)

lemma b64decode_encode: "b64decode (b64_encode bs) = Inr bs"
  using b64_encode_facts by (simp add: b64decode_def b64_read_encode list_all_iff)

section \<open>Key files\<close>

text \<open>A length and a field of the SSH wire format; the reader takes the last two bytes of the length's four.\<close>

definition ssh_length :: "nat \<Rightarrow> bytes" where
  "ssh_length n = [0, 0, of_nat (n div 256), of_nat n]"

definition ssh_blob :: "bytes \<Rightarrow> bytes \<Rightarrow> bytes" where
  "ssh_blob algorithm k = ssh_length (length algorithm) @ algorithm @ ssh_length (length k) @ k"

lemma be_nat_ssh_length: "n < 65536 \<Longrightarrow> be_nat (ssh_length n) = n"
  by (simp add: ssh_length_def be_nat_def unat_of_nat)

lemma ssh_key_bytes_blob:
  assumes "length algorithm < 65536" "length k < 65536"
  shows "ssh_key_bytes (ssh_blob algorithm k) = k"
proof -
  have len: "length (ssh_length n) = 4" for n by (simp add: ssh_length_def)
  have "ssh_read_len (ssh_blob algorithm k) 0 = length algorithm"
    by (simp add: ssh_read_len_def ssh_blob_def len be_nat_ssh_length [OF assms(1)])
  moreover have "ssh_read_len (ssh_blob algorithm k) (4 + length algorithm) = length k"
    by (simp add: ssh_read_len_def ssh_blob_def len be_nat_ssh_length [OF assms(2)])
  ultimately show ?thesis by (simp add: ssh_key_bytes_def ssh_blob_def len Let_def)
qed

lemma strip_plain:
  assumes "s \<noteq> []" "\<not> str_space (hd s)" "\<not> str_space (last s)"
  shows "strip s = s"
proof -
  have "dropWhile str_space s = s" "dropWhile str_space (rev s) = rev s"
    using assms by (simp_all add: dropWhile_eq_self_iff hd_rev)
  then show ?thesis by (simp add: strip_def)
qed

lemma split_at_plain: "\<forall>c \<in> set s. \<not> p c \<Longrightarrow> split_at p s = [s]"
  by (induction s) auto

lemma split_at_append: "\<forall>c \<in> set s. \<not> p c \<Longrightarrow> p x \<Longrightarrow> split_at p (s @ x # t) = s # split_at p t"
  by (induction s) auto

lemma strip_trailing:
  assumes "s \<noteq> []" "\<not> str_space (hd s)" "\<not> str_space (last s)" "list_all str_space t"
  shows "strip (s @ t) = s"
proof -
  have "dropWhile str_space (s @ t) = s @ t"
    using assms(1,2) by (simp add: dropWhile_eq_self_iff)
  moreover have "dropWhile str_space (rev t @ rev s) = dropWhile str_space (rev s)"
    using assms(4) by (intro dropWhile_append2) (auto simp: list_all_iff)
  moreover have "dropWhile str_space (rev s) = rev s"
    using assms(1,3) by (simp add: dropWhile_eq_self_iff hd_rev)
  ultimately show ?thesis by (simp add: strip_def)
qed

lemma b64_encode_Nil: "b64_encode bs = [] \<longleftrightarrow> bs = []"
  by (cases bs rule: b64_encode.cases) simp_all

lemma last_b64: "bs \<noteq> [] \<Longrightarrow> \<not> str_space (last (b64_encode bs))"
  using b64_encode_facts last_in_set b64_encode_Nil by metis

lemma hex_digit_facts:
  assumes "n < 16"
  shows "is_hex_char (hex_digit n)" "\<not> str_space (hex_digit n)" "hex_digit n \<noteq> CHR ''s''" "hex_digit n \<noteq> CHR ''-''"
proof -
  have code: "of_char (hex_digit n) = (if n < 10 then n + 48 else n + 87)"
    using assms by (simp add: hex_digit_def)
  show "is_hex_char (hex_digit n)" by (simp add: is_hex_char_def hex_val_digit [OF assms])
  show "\<not> str_space (hex_digit n)" using assms unfolding str_space_def code by auto
  have "(of_char (hex_digit n) :: nat) \<notin> {115, 45}" using assms unfolding code by auto
  then show "hex_digit n \<noteq> CHR ''s''" "hex_digit n \<noteq> CHR ''-''" by auto
qed

lemma hex_text_plain: "c \<in> set (to_hex bs) \<Longrightarrow> is_hex_char c \<and> \<not> str_space c \<and> c \<noteq> CHR ''s'' \<and> c \<noteq> CHR ''-''"
proof -
  assume "c \<in> set (to_hex bs)"
  then obtain b where "c = hex_digit (unat (b :: byte) div 16) \<or> c = hex_digit (unat b mod 16)" by (auto simp: to_hex_def)
  moreover have "unat b div 16 < 16" by (rule byte_digits)
  moreover have "unat b mod 16 < 16" by simp
  ultimately show ?thesis by (elim disjE) (simp_all only: hex_digit_facts simp_thms not_False_eq_True)
qed

definition ssh_line :: "bytes \<Rightarrow> string" where
  "ssh_line k = ''ssh-ed25519 '' @ b64_encode (ssh_blob [0x73, 0x73, 0x68, 0x2d, 0x65, 0x64, 0x32, 0x35, 0x35, 0x31, 0x39] k)"

definition pem_file :: "bytes \<Rightarrow> string" where
  "pem_file k = ''-----BEGIN PUBLIC KEY-----'' @ newline @ b64_encode (ed25519_spki_prefix @ k) @ newline
     @ ''-----END PUBLIC KEY-----''"

lemma load_ssh_line:
  assumes "length k < 65536" "list_all str_space t"
  shows "load_ed25519_public_key_bytes p (ssh_line k @ t) = Inr k"
proof -
  let ?blob = "ssh_blob [0x73, 0x73, 0x68, 0x2d, 0x65, 0x64, 0x32, 0x35, 0x35, 0x31, 0x39] k"
  have ne: "?blob \<noteq> []" by (simp add: ssh_blob_def ssh_length_def)
  have strip: "strip (ssh_line k @ t) = ssh_line k"
  proof (rule strip_trailing)
    show "\<not> str_space (last (ssh_line k))"
      using last_b64 [OF ne] ne by (simp add: ssh_line_def b64_encode_Nil)
  qed (simp_all add: ssh_line_def str_space_def assms(2))
  have body: "\<forall>c \<in> set (b64_encode ?blob). \<not> str_space c" using b64_encode_facts by blast
  have "split_at str_space (ssh_line k) = ''ssh-ed25519'' # split_at str_space (b64_encode ?blob)"
    using split_at_append [of "''ssh-ed25519''" str_space "CHR '' ''" "b64_encode ?blob"]
    by (simp add: ssh_line_def str_space_def)
  then have "split_space (ssh_line k) = [''ssh-ed25519'', b64_encode ?blob]"
    using ne by (simp add: split_space_def split_at_plain [OF body] b64_encode_Nil)
  moreover have "starts_with ''ssh-ed25519'' (ssh_line k)" by (simp add: starts_with_def ssh_line_def)
  ultimately show ?thesis
    using ssh_key_bytes_blob [OF _ assms(1)] by (simp add: load_ed25519_public_key_bytes_def Let_def strip b64decode_encode)
qed

lemma load_pem_file:
  assumes "list_all str_space t"
  shows "load_ed25519_public_key_bytes p (pem_file k @ t) = Inr k"
proof -
  let ?body = "b64_encode (ed25519_spki_prefix @ k)"
  have strip: "strip (pem_file k @ t) = pem_file k"
    by (rule strip_trailing) (simp_all add: pem_file_def str_space_def assms newline_def)
  have body: "\<forall>c \<in> set ?body. \<not> line_end c" using b64_encode_facts by blast
  have feed: "line_end (CHR 0x0A)" by (simp add: line_end_def)
  have marks: "\<forall>c \<in> set ''-----BEGIN PUBLIC KEY-----''. \<not> line_end c" "\<forall>c \<in> set ''-----END PUBLIC KEY-----''. \<not> line_end c"
    by (simp_all add: line_end_def)
  have "split_at line_end (pem_file k) = [''-----BEGIN PUBLIC KEY-----'', ?body, ''-----END PUBLIC KEY-----'']"
    using split_at_append [OF marks(1) feed, of "?body @ newline @ ''-----END PUBLIC KEY-----''"]
      split_at_append [OF body feed, of "''-----END PUBLIC KEY-----''"] split_at_plain [OF marks(2)]
    by (simp add: pem_file_def newline_def)
  moreover have "\<not> starts_with ''---'' ?body"
  proof
    assume "starts_with ''---'' ?body"
    then have "take 3 ?body = ''---''" by (simp add: starts_with_def numeral_3_eq_3)
    then have "CHR ''-'' \<in> set (take 3 ?body)" by simp
    then show False using b64_encode_facts in_set_takeD by metis
  qed
  ultimately have "pem_body (pem_file k) = ?body"
    by (simp add: pem_body_def starts_with_def)
  moreover have "starts_with ''-----BEGIN'' (pem_file k)" "\<not> starts_with ''ssh-ed25519'' (pem_file k)"
    by (simp_all add: starts_with_def pem_file_def)
  moreover have "take 12 (ed25519_spki_prefix @ k) = ed25519_spki_prefix" "drop 12 (ed25519_spki_prefix @ k) = k"
    by (simp_all add: ed25519_spki_prefix_def)
  ultimately show ?thesis
    by (simp only: load_ed25519_public_key_bytes_def Let_def strip b64decode_encode simp_thms if_True if_False bindE_simps)
qed

lemma load_hex_text:
  assumes "length k = 32" "list_all str_space t"
  shows "load_ed25519_public_key_bytes p (to_hex k @ t) = Inr k"
proof -
  from assms(1) have len: "length (to_hex k) = 64" by simp
  then obtain c s where cs: "to_hex k = c # s" by (cases "to_hex k") auto
  then have first: "c \<noteq> CHR ''s''" "c \<noteq> CHR ''-''" using hex_text_plain [of c k] by auto
  have "strip (to_hex k @ t) = to_hex k"
    by (rule strip_trailing) (use cs hex_text_plain [of _ k] assms(2) in \<open>auto intro!: hd_in_set last_in_set\<close>)
  moreover have "list_all is_hex_char (to_hex k)" using hex_text_plain by (auto simp: list_all_iff)
  moreover have "\<not> starts_with ''ssh-ed25519'' (to_hex k)" "\<not> starts_with ''-----BEGIN'' (to_hex k)"
    using first by (auto simp: starts_with_def cs)
  ultimately show ?thesis using len by (simp add: load_ed25519_public_key_bytes_def Let_def)
qed

text \<open>
  C33: a public key reads the same from its three formats.  The 32 bytes of a key are returned for their
  hexadecimal digits, for the SSH line and for the PEM file that encode them, with any white space after.
\<close>

theorem key_formats_agree:
  assumes "length k = 32" "list_all str_space t"
  shows "load_ed25519_public_key_bytes p (to_hex k @ t) = Inr k \<and> load_ed25519_public_key_bytes p (ssh_line k @ t) = Inr k
    \<and> load_ed25519_public_key_bytes p (pem_file k @ t) = Inr k"
  using load_hex_text load_ssh_line load_pem_file assms by simp

lemma key_formats_agree_witness:
  "load_ed25519_public_key_bytes ''k'' (to_hex (replicate 32 7) @ newline) = Inr (replicate 32 7)
    \<and> load_ed25519_public_key_bytes ''k'' (ssh_line (replicate 32 7) @ newline) = Inr (replicate 32 7)
    \<and> load_ed25519_public_key_bytes ''k'' (pem_file (replicate 32 7) @ newline) = Inr (replicate 32 7)"
  by (rule key_formats_agree) (simp_all add: newline_def str_space_def)

end
