(* ===== verification/Publisher.thy ===== *)
theory Publisher
  imports Mailbox_Store Py_Read Json_Compact
begin

text \<open>
  The publisher commitment over an artifact registry: \<^verbatim>\<open>scripts/validate/publisher_commitment.py\<close>, the
  signer \<^verbatim>\<open>scripts/evidence/sign_publisher_commitment.py\<close> and the command
  \<^verbatim>\<open>scripts/validate/verify_publisher_commitment.py\<close>.

  The parameter record \<open>publisher_lib\<close> holds what the code takes from outside: SHA-256 of a text of
  bytes (canonical JSON is ASCII; a byte of a file is the character of that code), the Ed25519 functions
  of \<^verbatim>\<open>nacl\<close>, and the contents of readable files.  A seed that is not 32 bytes long has no key;
  \<open>pub_verify\<close> is false where \<^verbatim>\<open>nacl\<close> raises.
\<close>

record publisher_lib =
  pub_hash :: "string \<Rightarrow> string"
  pub_key_of :: "bytes \<Rightarrow> bytes option"
  pub_sign :: "bytes \<Rightarrow> string \<Rightarrow> bytes"
  pub_verify :: "bytes \<Rightarrow> string \<Rightarrow> bytes \<Rightarrow> bool"
  pub_file :: "string \<Rightarrow> string option"

section \<open>Constants\<close>

definition publisher_domain :: string where
  "publisher_domain = ''prf.test-artifacts.publisher-manifest.v1''"

definition publisher_manifest_schema :: string where
  "publisher_manifest_schema = ''publisher-manifest.v1''"

definition publisher_policy_schema :: string where
  "publisher_policy_schema = ''publisher-policy.v1''"

definition required_chain_ids :: "string list" where
  "required_chain_ids = [''test-run'', ''test-summary'', ''claimable-classification'', ''results-artifact'']"

definition envelope_fields :: "string list" where
  "envelope_fields = [''schema_version'', ''domain'', ''algorithm'', ''publisher_id'', ''key_id'', ''policy'',
     ''signature_hex'', ''claimed_digest_hex'', ''created_at'']"

section \<open>Paths and files\<close>

text \<open>\<^verbatim>\<open>str(Path(s))\<close>, \<^verbatim>\<open>base / p\<close> and \<^verbatim>\<open>p.parent\<close>.\<close>

definition path_str :: "string \<Rightarrow> string" where
  "path_str s =
     (let body = join ''/'' (path_parts s) in
      if starts_with ''/'' s then ''/'' @ body else if body = [] then ''.'' else body)"

definition join_path :: "string \<Rightarrow> string \<Rightarrow> string" where
  "join_path base p = path_str (if starts_with ''/'' p then p else base @ ''/'' @ p)"

definition parent_path :: "string \<Rightarrow> string" where
  "parent_path s =
     (let body = join ''/'' (butlast (path_parts s)) in
      if starts_with ''/'' s then ''/'' @ body else if body = [] then ''.'' else body)"

fun path_of :: "pv \<Rightarrow> ev_error + string" where
  "path_of (PStr s) = Inr s"
| "path_of v = Inl (Builtin TypeError)"

definition sha256_of_file :: "publisher_lib \<Rightarrow> string \<Rightarrow> string option" where
  "sha256_of_file L p = map_option (pub_hash L) (pub_file L p)"

text \<open>\<^verbatim>\<open>v.get(k) or []\<close>, iterated.\<close>

definition list_or_empty :: "pv \<Rightarrow> string \<Rightarrow> ev_error + pv list" where
  "list_or_empty v k = bindE (get_none v k) (\<lambda>x. if truthy x then iter_of x else Inr [])"

section \<open>The commitment\<close>

definition policy_hash :: "publisher_lib \<Rightarrow> pv \<Rightarrow> ev_error + string" where
  "policy_hash L policy =
     bindE (item policy ''schema_version'') (\<lambda>sv.
     bindE (item policy ''policy_id'') (\<lambda>i.
     bindE (item policy ''trusted_keys'') (\<lambda>keys.
       Inr (pub_hash L (json_compact (PDict [(''schema_version'', sv), (''policy_id'', i), (''trusted_keys'', keys)]))))))"

text \<open>
  The hashes found on disk, a dictionary whose keys are artifact ids: values that are equal in Python are
  one key, represented by its \<^const>\<open>plain\<close> value.
\<close>

type_synonym id_hashes = "(pv \<times> string) list"

definition artifact_hash :: "id_hashes \<Rightarrow> pv \<Rightarrow> ev_error + pv" where
  "artifact_hash shas a =
     bindE (get_none a ''id'') (\<lambda>i.
     bindE (get_none a ''sha256'') (\<lambda>declared.
       if hashable i then Inr (case map_of shas (plain i) of Some h \<Rightarrow> PStr h | None \<Rightarrow> declared)
       else Inl (Builtin TypeError)))"

definition artifact_entry :: "id_hashes \<Rightarrow> pv \<Rightarrow> ev_error + (pv \<times> pv \<times> pv)" where
  "artifact_entry shas a =
     bindE (get_none a ''id'') (\<lambda>i.
     bindE (get_none a ''path'') (\<lambda>p.
     bindE (artifact_hash shas a) (\<lambda>h.
     bindE (get_none a ''importance'') (\<lambda>imp.
       Inr (i, p, PDict [(''id'', i), (''path'', p), (''sha256'', h), (''importance'', imp)])))))"

text \<open>
  \<^verbatim>\<open>sorted(..., key=lambda a: (a["id"], a["path"]))\<close>: by id, and by path among equal ids.  Ids of
  different types have no order.  The paths have named files before, so they are strings.
\<close>

definition sorted_entries :: "(pv \<times> pv \<times> pv) list \<Rightarrow> ev_error + pv list" where
  "sorted_entries xs =
     (let ids = map fst xs; entries = map (snd \<circ> snd);
          by_path = sort_key (\<lambda>(i, p, e). str_of p) xs in
      if length xs \<le> 1 \<or> list_all (\<lambda>i. i = PNone) ids then Inr (entries by_path)
      else if list_all is_str ids then Inr (entries (sort_key (\<lambda>(i, p, e). str_of i) by_path))
      else if list_all is_number ids then Inr (entries (sort_key (\<lambda>(i, p, e). the (num_of i)) by_path))
      else Inl (Builtin TypeError))"

definition commitment_preimage ::
  "pv \<Rightarrow> string \<Rightarrow> string \<Rightarrow> pv \<Rightarrow> string \<Rightarrow> id_hashes \<Rightarrow> ev_error + pv" where
  "commitment_preimage registry manifest_path manifest_sha pid phash shas =
     bindE (list_or_empty registry ''artifacts'') (\<lambda>arts.
     bindE (mapE (artifact_entry shas) arts) (\<lambda>entries.
     bindE (sorted_entries entries) (\<lambda>artifacts.
     bindE (get_none registry ''schema_version'') (\<lambda>sv.
     bindE (get_none registry ''contract_version'') (\<lambda>cv.
     bindE (get_none registry ''run_id'') (\<lambda>run_id.
       Inr (PDict
         [(''domain'', PStr publisher_domain), (''publisher_manifest_schema'', PStr publisher_manifest_schema),
          (''schema_version'', sv), (''contract_version'', cv), (''run_id'', run_id),
          (''run_manifest'', PDict [(''path'', PStr manifest_path), (''sha256'', PStr manifest_sha)]),
          (''artifacts'', PList artifacts), (''required_chain_ids'', PList (map PStr (sort required_chain_ids))),
          (''policy'', PDict [(''id'', pid), (''hash'', PStr phash)])])))))))"

definition commitment_digest :: "publisher_lib \<Rightarrow> pv \<Rightarrow> string" where
  "commitment_digest L preimage = pub_hash L (json_compact preimage)"

text \<open>The path of the run manifest as the preimage names it.\<close>

definition manifest_path_text :: "pv \<Rightarrow> string \<Rightarrow> ev_error + string" where
  "manifest_path_text registry run_file =
     bindE (bindE (get_in registry ''run_manifest'' (PDict [])) (\<lambda>m. get_none m ''path'')) (\<lambda>p.
       Inr (if truthy p then py_str p else run_file))"

fun find_key :: "pv list \<Rightarrow> pv \<Rightarrow> ev_error + pv option" where
  "find_key [] kid = Inr None"
| "find_key (e # es) kid = bindE (get_none e ''key_id'') (\<lambda>k. if py_eq k kid then Inr (Some e) else find_key es kid)"

definition find_trusted_key :: "pv \<Rightarrow> pv \<Rightarrow> ev_error + pv option" where
  "find_trusted_key policy kid = bindE (list_or_empty policy ''trusted_keys'') (\<lambda>es. find_key es kid)"

section \<open>Verification\<close>

text \<open>An early return carries its reason and detail; everything else that stops is an exception.\<close>

datatype pub_stop = Reject string string | Raise ev_error

record pub_result =
  pc_accepted :: bool
  pc_reason :: string
  pc_detail :: string

definition liftE :: "ev_error + 'a \<Rightarrow> pub_stop + 'a" where
  "liftE m = (case m of Inl e \<Rightarrow> Inl (Raise e) | Inr x \<Rightarrow> Inr x)"

definition refuse :: "bool \<Rightarrow> string \<Rightarrow> string \<Rightarrow> pub_stop + unit" where
  "refuse b why msg = (if b then Inl (Reject why msg) else Inr ())"

definition pub_verdict :: "pub_stop + string \<Rightarrow> ev_error + pub_result" where
  "pub_verdict m =
     (case m of
        Inl (Raise e) \<Rightarrow> Inl e
      | Inl (Reject why msg) \<Rightarrow> Inr \<lparr>pc_accepted = False, pc_reason = why, pc_detail = msg\<rparr>
      | Inr msg \<Rightarrow> Inr \<lparr>pc_accepted = True, pc_reason = ''publisher-signature-valid'', pc_detail = msg\<rparr>)"

definition envelope_checks :: "obj \<Rightarrow> pub_stop + unit" where
  "envelope_checks e =
     (let unknown = sort (filter (\<lambda>k. k \<notin> set envelope_fields) (map fst e)) in
      bindE (refuse (unknown \<noteq> []) ''unknown-envelope-field''
        (''unexpected publisher-manifest fields: '' @ py_repr (PList (map PStr unknown)))) (\<lambda>_.
      bindE (refuse (py_get e ''schema_version'' \<noteq> PStr publisher_manifest_schema) ''unsupported-publisher-manifest-version''
        (''expected '' @ repr_str publisher_manifest_schema @ '', got '' @ py_repr (py_get e ''schema_version''))) (\<lambda>_.
      bindE (refuse (py_get e ''domain'' \<noteq> PStr publisher_domain) ''domain-mismatch''
        (''expected domain '' @ repr_str publisher_domain @ '', got '' @ py_repr (py_get e ''domain''))) (\<lambda>_.
      refuse (py_get e ''algorithm'' \<noteq> PStr ''ed25519'') ''unknown-signature-algorithm''
        (''unsupported signature algorithm: '' @ py_repr (py_get e ''algorithm''))))))"

definition policy_checks :: "publisher_lib \<Rightarrow> obj \<Rightarrow> pv \<Rightarrow> pub_stop + string" where
  "policy_checks L e policy =
     (let stated = py_get e ''policy'' in
      bindE (refuse (\<not> is_dict stated) ''publisher-policy-mismatch'' ''envelope policy is not an object'') (\<lambda>_.
      bindE (liftE (policy_hash L policy)) (\<lambda>phash.
      bindE (liftE (get_none stated ''id'')) (\<lambda>sid.
      bindE (liftE (get_none policy ''policy_id'')) (\<lambda>pid.
      bindE (refuse (\<not> py_eq sid pid) ''publisher-policy-mismatch''
        (''envelope policy id '' @ py_repr sid @ '' != applied '' @ py_repr pid)) (\<lambda>_.
      bindE (liftE (get_none stated ''hash'')) (\<lambda>sh.
      bindE (refuse (sh \<noteq> PStr phash) ''publisher-policy-mismatch''
        (''envelope policy hash '' @ py_repr sh @ '' != recomputed '' @ repr_str phash)) (\<lambda>_. Inr phash))))))))"

definition key_checks :: "obj \<Rightarrow> pv \<Rightarrow> pub_stop + pv" where
  "key_checks e policy =
     (let kid = py_get e ''key_id'' in
      bindE (liftE (find_trusted_key policy kid)) (\<lambda>found.
      case found of
        None \<Rightarrow> Inl (Reject ''unknown-publisher-key'' (''key_id '' @ py_repr kid @ '' not present in publisher policy''))
      | Some trusted \<Rightarrow>
          bindE (liftE (get_none trusted ''publisher_id'')) (\<lambda>owner.
          bindE (refuse (\<not> py_eq owner (py_get e ''publisher_id'')) ''publisher-not-authorised''
            (''key '' @ py_repr kid @ '' is bound to publisher '' @ py_repr owner @ '', not '' @ py_repr (py_get e ''publisher_id''))) (\<lambda>_.
          bindE (liftE (get_none trusted ''status'')) (\<lambda>st.
          bindE (refuse (st \<noteq> PStr ''active'') ''publisher-not-authorised''
            (''key '' @ py_repr kid @ '' status is '' @ py_repr st)) (\<lambda>_. Inr trusted))))))"

definition rehash_artifact :: "publisher_lib \<Rightarrow> string \<Rightarrow> id_hashes \<Rightarrow> pv \<Rightarrow> pub_stop + id_hashes" where
  "rehash_artifact L base shas a =
     bindE (liftE (bindE (get_none a ''path'') path_of)) (\<lambda>p.
     case sha256_of_file L (join_path base p) of
       None \<Rightarrow>
         bindE (liftE (get_none a ''id'')) (\<lambda>i.
           Inl (Reject ''artifact-unreadable'' (''cannot re-hash artifact '' @ py_repr i @ '' at '' @ join_path base p)))
     | Some h \<Rightarrow>
         bindE (liftE (item a ''id'')) (\<lambda>i.
           if hashable i then Inr (dset (plain i) h shas) else Inl (Raise (Builtin TypeError))))"

text \<open>The digest rebuilt from the registry and the files on disk.\<close>

definition rebuilt_digest ::
  "publisher_lib \<Rightarrow> pv \<Rightarrow> string \<Rightarrow> pv \<Rightarrow> string \<Rightarrow> string \<Rightarrow> pub_stop + string" where
  "rebuilt_digest L registry run_file policy phash base =
     (case sha256_of_file L run_file of
        None \<Rightarrow> Inl (Reject ''artifact-unreadable'' (''cannot re-hash run manifest '' @ run_file))
      | Some run_sha \<Rightarrow>
          bindE (liftE (list_or_empty registry ''artifacts'')) (\<lambda>arts.
          bindE (foldE (rehash_artifact L base) [] arts) (\<lambda>shas.
          bindE (liftE (manifest_path_text registry run_file)) (\<lambda>mpath.
          bindE (liftE (get_none policy ''policy_id'')) (\<lambda>pid.
          bindE (liftE (commitment_preimage registry mpath run_sha pid phash shas)) (\<lambda>pre.
            Inr (commitment_digest L pre)))))))"

definition envelope_signature :: "publisher_lib \<Rightarrow> obj \<Rightarrow> pv \<Rightarrow> string \<Rightarrow> pub_stop + unit" where
  "envelope_signature L e trusted digest =
     (let claimed = py_get e ''claimed_digest_hex''; sig_hex = py_get e ''signature_hex'' in
      bindE (refuse (claimed \<noteq> PNone \<and> claimed \<noteq> PStr digest) ''publisher-commitment-mismatch''
        (''envelope digest '' @ py_repr claimed @ '' != reconstructed '' @ repr_str digest)) (\<lambda>_.
      bindE (refuse (\<not> is_str sig_hex \<or> length (str_of sig_hex) \<noteq> 128) ''signature-invalid''
        ''signature_hex is not 128 hex chars'') (\<lambda>_.
      case fromhex (str_of sig_hex) of
        None \<Rightarrow> Inl (Reject ''signature-invalid'' ''signature_hex is not valid hex'')
      | Some sig \<Rightarrow>
          bindE (liftE (get_none trusted ''public_key_hex'')) (\<lambda>pub_hex.
          bindE (refuse (\<not> is_str pub_hex \<or> length (str_of pub_hex) \<noteq> 64) ''publisher-not-authorised''
            (''key '' @ py_repr (py_get e ''key_id'') @ '' has no 64-char public_key_hex'')) (\<lambda>_.
          case fromhex (str_of pub_hex) of
            None \<Rightarrow> Inl (Reject ''signature-invalid'' ''ed25519 signature verification failed'')
          | Some pub \<Rightarrow> refuse (\<not> pub_verify L pub digest sig) ''signature-invalid''
              ''ed25519 signature verification failed'')))))"

definition verify_envelope ::
  "publisher_lib \<Rightarrow> pv \<Rightarrow> string \<Rightarrow> obj \<Rightarrow> pv \<Rightarrow> string \<Rightarrow> pub_stop + string" where
  "verify_envelope L registry run_file e policy base =
     bindE (envelope_checks e) (\<lambda>_.
     bindE (policy_checks L e policy) (\<lambda>phash.
     bindE (key_checks e policy) (\<lambda>trusted.
     bindE (rebuilt_digest L registry run_file policy phash base) (\<lambda>digest.
     bindE (envelope_signature L e trusted digest) (\<lambda>_.
     bindE (liftE (get_none policy ''policy_id'')) (\<lambda>pid.
       Inr (''committed by key '' @ py_repr (py_get e ''key_id'') @ '' under policy '' @ py_repr pid)))))))"

definition verify_publisher_commitment ::
  "publisher_lib \<Rightarrow> pv \<Rightarrow> string \<Rightarrow> pv \<Rightarrow> pv \<Rightarrow> string \<Rightarrow> ev_error + pub_result" where
  "verify_publisher_commitment L registry run_file envelope policy base =
     pub_verdict
       (case envelope of
          PDict e \<Rightarrow> verify_envelope L registry run_file e policy base
        | _ \<Rightarrow> Inl (Reject ''envelope-malformed'' ''publisher manifest is not a JSON object''))"

text \<open>The command: the four documents by path; a missing one ends it with 1 before anything is read.\<close>

definition publisher_exit_code ::
  "publisher_lib \<Rightarrow> (string \<Rightarrow> (ev_error + pv) option) \<Rightarrow> string \<Rightarrow> string \<Rightarrow> string \<Rightarrow> string \<Rightarrow> ev_error + nat" where
  "publisher_exit_code L load registry_p run_p env_p policy_p =
     (case (load (path_str registry_p), load (path_str run_p), load (path_str env_p), load (path_str policy_p)) of
        (Some registry, Some _, Some env, Some policy) \<Rightarrow>
          bindE registry (\<lambda>registry.
          bindE env (\<lambda>env.
          bindE policy (\<lambda>policy.
          bindE (verify_publisher_commitment L registry (path_str run_p) env policy (parent_path registry_p)) (\<lambda>r.
            Inr (if pc_reason r = ''publisher-signature-valid'' then 0 else 1)))))
      | _ \<Rightarrow> Inr 1)"

section \<open>Signing\<close>

definition sign_rehash :: "publisher_lib \<Rightarrow> string \<Rightarrow> id_hashes \<Rightarrow> pv \<Rightarrow> ev_error + id_hashes" where
  "sign_rehash L base shas a =
     bindE (bindE (item a ''path'') path_of) (\<lambda>p.
     case sha256_of_file L (join_path base p) of
       None \<Rightarrow>
         bindE (get_none a ''id'') (\<lambda>i.
           Inl (Builtin (FileNotFoundError (''cannot re-hash artifact '' @ py_repr i @ '' at '' @ join_path base p))))
     | Some h \<Rightarrow>
         bindE (item a ''id'') (\<lambda>i. if hashable i then Inr (dset (plain i) h shas) else Inl (Builtin TypeError)))"

definition signed_digest :: "publisher_lib \<Rightarrow> pv \<Rightarrow> string \<Rightarrow> pv \<Rightarrow> ev_error + (pv \<times> string \<times> string)" where
  "signed_digest L registry run_file policy =
     (case sha256_of_file L run_file of
        None \<Rightarrow> Inl (Builtin (FileNotFoundError (''cannot re-hash run manifest '' @ run_file)))
      | Some run_sha \<Rightarrow>
          bindE (list_or_empty registry ''artifacts'') (\<lambda>arts.
          bindE (foldE (sign_rehash L (parent_path run_file)) [] arts) (\<lambda>shas.
          bindE (policy_hash L policy) (\<lambda>phash.
          bindE (manifest_path_text registry run_file) (\<lambda>mpath.
          bindE (item policy ''policy_id'') (\<lambda>pid.
          bindE (commitment_preimage registry mpath run_sha pid phash shas) (\<lambda>pre.
            Inr (pid, phash, commitment_digest L pre))))))))"

text \<open>The time stamp is the caller's, or the clock's when there is none.\<close>

definition sign_publisher_commitment ::
  "publisher_lib \<Rightarrow> string \<Rightarrow> pv \<Rightarrow> string \<Rightarrow> pv \<Rightarrow> string \<Rightarrow> string \<Rightarrow> string \<Rightarrow> string option \<Rightarrow> ev_error + obj" where
  "sign_publisher_commitment L now registry run_file policy seed_hex publisher_id kid created =
     bindE (get_none policy ''schema_version'') (\<lambda>sv.
     if sv \<noteq> PStr publisher_policy_schema
     then Inl (Builtin (ValueError (''policy schema_version must be '' @ repr_str publisher_policy_schema @ '', got '' @ py_repr sv)))
     else if length seed_hex \<noteq> 64
     then Inl (Builtin (ValueError ''private_key_seed_hex must be 64 hex chars (32-byte Ed25519 seed)''))
     else bindE (fromhexE seed_hex) (\<lambda>seed.
     case pub_key_of L seed of
       None \<Rightarrow> Inl (Builtin (ValueError ''The seed must be exactly 32 bytes long''))
     | Some pk \<Rightarrow>
         bindE (signed_digest L registry run_file policy) (\<lambda>(pid, phash, digest).
           Inr [(''schema_version'', PStr publisher_manifest_schema), (''domain'', PStr publisher_domain),
             (''algorithm'', PStr ''ed25519''), (''publisher_id'', PStr publisher_id), (''key_id'', PStr kid),
             (''policy'', PDict [(''id'', pid), (''hash'', PStr phash)]), (''claimed_digest_hex'', PStr digest),
             (''signature_hex'', PStr (to_hex (pub_sign L seed digest))),
             (''created_at'', PStr (case created of None \<Rightarrow> now | Some t \<Rightarrow> if t = [] then now else t))])))"

end
