(* ===== verification/Publisher_Theorems.thy ===== *)
theory Publisher_Theorems
  imports Publisher
begin

text \<open>
  What the publisher gate guarantees: a signed registry is accepted, an accepted one is committed by an
  active key of the applied policy over the bytes on disk, and one envelope commits to one set of bytes.
\<close>

section \<open>Reading an acceptance\<close>

lemma liftE_Inr_iff [simp]: "liftE m = Inr x \<longleftrightarrow> m = Inr x"
  by (simp add: liftE_def split: sum.splits)

lemma liftE_Inr [simp]: "liftE (Inr x) = Inr x"
  by (simp add: liftE_def)

lemma refuse_Inr_iff [simp]: "refuse b why msg = Inr u \<longleftrightarrow> \<not> b"
  by (simp add: refuse_def)

lemma pub_verdict_accepted: "pub_verdict m = Inr r \<Longrightarrow> pc_accepted r \<Longrightarrow> \<exists>msg. m = Inr msg"
  by (auto simp: pub_verdict_def split: sum.splits pub_stop.splits)

definition pub_collision :: "publisher_lib \<Rightarrow> bool" where
  "pub_collision L \<longleftrightarrow> (\<exists>a b. a \<noteq> b \<and> pub_hash L a = pub_hash L b)"

lemma pub_hash_eqD: "pub_hash L a = pub_hash L b \<Longrightarrow> a = b \<or> pub_collision L"
  by (auto simp: pub_collision_def)

lemma accepted_parts:
  assumes "verify_publisher_commitment L registry run_file envelope policy base = Inr r" "pc_accepted r"
  obtains e phash trusted digest where "envelope = PDict e" "envelope_checks e = Inr ()"
    "policy_checks L e policy = Inr phash" "key_checks e policy = Inr trusted"
    "rebuilt_digest L registry run_file policy phash base = Inr digest" "envelope_signature L e trusted digest = Inr ()"
proof -
  obtain msg where "(case envelope of PDict e \<Rightarrow> verify_envelope L registry run_file e policy base
      | _ \<Rightarrow> Inl (Reject ''envelope-malformed'' ''publisher manifest is not a JSON object'')) = Inr msg"
    using pub_verdict_accepted assms unfolding verify_publisher_commitment_def by blast
  then obtain e where e: "envelope = PDict e" "verify_envelope L registry run_file e policy base = Inr msg"
    by (cases envelope) auto
  from e(2) show thesis
    unfolding verify_envelope_def bindE_Inr_iff by (elim exE conjE) (rule that [OF e(1)]; simp)
qed

section \<open>A signed registry is accepted\<close>

definition ed25519_sound :: "publisher_lib \<Rightarrow> bool" where
  "ed25519_sound L \<longleftrightarrow> (\<forall>seed pk msg. pub_key_of L seed = Some pk \<longrightarrow>
     length pk = 32 \<and> length (pub_sign L seed msg) = 64 \<and> pub_verify L pk msg (pub_sign L seed msg))"

lemma sign_rehash_step: "sign_rehash L base shas a = Inr shas' \<Longrightarrow> rehash_artifact L base shas a = Inr shas'"
proof -
  assume "sign_rehash L base shas a = Inr shas'"
  then obtain p s h i where "item a ''path'' = Inr p" "path_of p = Inr s" "sha256_of_file L (join_path base s) = Some h"
    "item a ''id'' = Inr i" "hashable i" "shas' = dset (plain i) h shas"
    by (auto simp: sign_rehash_def bindE_Inr_iff split: option.splits if_splits)
  then show ?thesis using item_get [of a "''path''" p] by (simp add: rehash_artifact_def)
qed

lemma sign_rehash_fold:
  "foldE (sign_rehash L base) shas arts = Inr shas' \<Longrightarrow> foldE (rehash_artifact L base) shas arts = Inr shas'"
  by (induction arts arbitrary: shas) (auto simp: bindE_Inr_iff dest: sign_rehash_step)

lemma signed_digest_rebuilt:
  assumes "signed_digest L registry run_file policy = Inr (pid, phash, digest)"
  shows "policy_hash L policy = Inr phash \<and> get_none policy ''policy_id'' = Inr pid
    \<and> rebuilt_digest L registry run_file policy phash (parent_path run_file) = Inr digest"
proof -
  from assms obtain run_sha arts shas mpath pre where parts: "sha256_of_file L run_file = Some run_sha"
    "list_or_empty registry ''artifacts'' = Inr arts" "foldE (sign_rehash L (parent_path run_file)) [] arts = Inr shas"
    "policy_hash L policy = Inr phash" "manifest_path_text registry run_file = Inr mpath" "item policy ''policy_id'' = Inr pid"
    "commitment_preimage registry mpath run_sha pid phash shas = Inr pre" "digest = commitment_digest L pre"
    by (auto simp: signed_digest_def bindE_Inr_iff split: option.splits)
  then show ?thesis
    using item_get [OF parts(6)] sign_rehash_fold [OF parts(3)] by (simp add: rebuilt_digest_def)
qed

lemma signed_verifies:
  assumes signed: "sign_publisher_commitment L now registry run_file policy seed_hex publisher kid created = Inr env"
    and key: "fromhex seed_hex = Some seed" "pub_key_of L seed = Some pk" "ed25519_sound L"
    and entry: "find_trusted_key policy (PStr kid) = Inr (Some (PDict entry))"
      "py_get entry ''publisher_id'' = PStr publisher" "py_get entry ''status'' = PStr ''active''"
      "py_get entry ''public_key_hex'' = PStr (to_hex pk)"
  shows "\<exists>msg. verify_publisher_commitment L registry run_file (PDict env) policy (parent_path run_file)
    = Inr \<lparr>pc_accepted = True, pc_reason = ''publisher-signature-valid'', pc_detail = msg\<rparr>"
proof -
  from signed key(1,2) obtain pid phash digest where d: "signed_digest L registry run_file policy = Inr (pid, phash, digest)"
    and env: "env = [(''schema_version'', PStr publisher_manifest_schema), (''domain'', PStr publisher_domain),
      (''algorithm'', PStr ''ed25519''), (''publisher_id'', PStr publisher), (''key_id'', PStr kid),
      (''policy'', PDict [(''id'', pid), (''hash'', PStr phash)]), (''claimed_digest_hex'', PStr digest),
      (''signature_hex'', PStr (to_hex (pub_sign L seed digest))),
      (''created_at'', PStr (case created of None \<Rightarrow> now | Some t \<Rightarrow> if t = [] then now else t))]"
    by (auto simp: sign_publisher_commitment_def bindE_Inr_iff fromhexE_def split: if_splits prod.splits)
  note rebuilt = signed_digest_rebuilt [OF d]
  have fields: "py_get env ''policy'' = PDict [(''id'', pid), (''hash'', PStr phash)]" "py_get env ''key_id'' = PStr kid"
    "py_get env ''publisher_id'' = PStr publisher" "py_get env ''claimed_digest_hex'' = PStr digest"
    "py_get env ''signature_hex'' = PStr (to_hex (pub_sign L seed digest))"
    unfolding env by (simp_all add: get_or_def)
  have inner: "py_get [(''id'', pid), (''hash'', PStr phash)] ''id'' = pid"
    "py_get [(''id'', pid), (''hash'', PStr phash)] ''hash'' = PStr phash" by (simp_all add: get_or_def)
  have "envelope_checks env = Inr ()"
    unfolding env by (simp add: envelope_checks_def envelope_fields_def get_or_def refuse_def)
  moreover have "policy_checks L env policy = Inr phash"
    using rebuilt by (simp add: policy_checks_def fields Let_def inner refuse_def)
  moreover have "key_checks env policy = Inr (PDict entry)"
    using entry by (simp add: key_checks_def fields Let_def refuse_def)
  moreover have "envelope_signature L env (PDict entry) digest = Inr ()"
    using key entry(4) by (simp add: envelope_signature_def fields Let_def refuse_def ed25519_sound_def)
  ultimately show ?thesis using rebuilt
    by (simp add: verify_publisher_commitment_def pub_verdict_def verify_envelope_def)
qed

text \<open>
  C25: the gate accepts what the signer signs.  When a registry is signed with the seed of a key that the
  policy lists as active for the publisher, the envelope passes verification against the same registry,
  policy and files, from the directory of the run manifest.
\<close>

theorem signed_registry_verifies:
  assumes "sign_publisher_commitment L now registry run_file policy seed_hex publisher kid created = Inr env"
    and "fromhex seed_hex = Some seed" "pub_key_of L seed = Some pk" "ed25519_sound L"
    and "find_trusted_key policy (PStr kid) = Inr (Some (PDict entry))"
      "py_get entry ''publisher_id'' = PStr publisher" "py_get entry ''status'' = PStr ''active''"
      "py_get entry ''public_key_hex'' = PStr (to_hex pk)"
  shows "\<exists>msg. verify_publisher_commitment L registry run_file (PDict env) policy (parent_path run_file)
    = Inr \<lparr>pc_accepted = True, pc_reason = ''publisher-signature-valid'', pc_detail = msg\<rparr>"
  by (rule signed_verifies [OF assms])

section \<open>What an acceptance means\<close>

lemma find_key_sound: "find_key es kid = Inr (Some e) \<Longrightarrow> e \<in> set es \<and> (\<exists>k. get_none e ''key_id'' = Inr k \<and> py_eq k kid)"
  by (induction es) (auto simp: bindE_Inr_iff split: if_splits)

definition authorised_key :: "pv \<Rightarrow> obj \<Rightarrow> pv \<Rightarrow> bool" where
  "authorised_key policy e trusted \<longleftrightarrow> (\<exists>keys k owner. list_or_empty policy ''trusted_keys'' = Inr keys \<and> trusted \<in> set keys
     \<and> get_none trusted ''key_id'' = Inr k \<and> py_eq k (py_get e ''key_id'')
     \<and> get_none trusted ''publisher_id'' = Inr owner \<and> py_eq owner (py_get e ''publisher_id'')
     \<and> get_none trusted ''status'' = Inr (PStr ''active''))"

definition key_signs :: "publisher_lib \<Rightarrow> obj \<Rightarrow> pv \<Rightarrow> string \<Rightarrow> bool" where
  "key_signs L e trusted digest \<longleftrightarrow> (\<exists>sig_hex sig pub_hex pub. py_get e ''signature_hex'' = PStr sig_hex \<and> fromhex sig_hex = Some sig
     \<and> get_none trusted ''public_key_hex'' = Inr (PStr pub_hex) \<and> fromhex pub_hex = Some pub \<and> pub_verify L pub digest sig)"

definition states_policy :: "obj \<Rightarrow> string \<Rightarrow> bool" where
  "states_policy e phash \<longleftrightarrow> (\<exists>p. py_get e ''policy'' = PDict p \<and> py_get p ''hash'' = PStr phash)"

lemma key_checks_sound:
  assumes "key_checks e policy = Inr trusted"
  shows "authorised_key policy e trusted"
proof -
  from assms have "find_trusted_key policy (py_get e ''key_id'') = Inr (Some trusted)"
    and own: "\<exists>owner. get_none trusted ''publisher_id'' = Inr owner \<and> py_eq owner (py_get e ''publisher_id'')"
      "get_none trusted ''status'' = Inr (PStr ''active'')"
    by (auto simp: key_checks_def bindE_Inr_iff Let_def split: option.splits)
  then obtain keys where "list_or_empty policy ''trusted_keys'' = Inr keys" "find_key keys (py_get e ''key_id'') = Inr (Some trusted)"
    by (auto simp: find_trusted_key_def bindE_Inr_iff)
  with find_key_sound own show ?thesis unfolding authorised_key_def by blast
qed

lemma envelope_signature_sound:
  assumes "envelope_signature L e trusted digest = Inr ()"
  shows "key_signs L e trusted digest
    \<and> (py_get e ''claimed_digest_hex'' = PNone \<or> py_get e ''claimed_digest_hex'' = PStr digest)"
proof -
  let ?s = "py_get e ''signature_hex''"
  from assms obtain sig where claimed: "py_get e ''claimed_digest_hex'' = PNone \<or> py_get e ''claimed_digest_hex'' = PStr digest"
    and sig: "is_str ?s" "fromhex (str_of ?s) = Some sig"
    and rest: "bindE (liftE (get_none trusted ''public_key_hex'')) (\<lambda>pub_hex.
          bindE (refuse (\<not> is_str pub_hex \<or> length (str_of pub_hex) \<noteq> 64) ''publisher-not-authorised''
            (''key '' @ py_repr (py_get e ''key_id'') @ '' has no 64-char public_key_hex'')) (\<lambda>_.
          case fromhex (str_of pub_hex) of
            None \<Rightarrow> Inl (Reject ''signature-invalid'' ''ed25519 signature verification failed'')
          | Some pub \<Rightarrow> refuse (\<not> pub_verify L pub digest sig) ''signature-invalid''
              ''ed25519 signature verification failed'')) = Inr ()"
    unfolding envelope_signature_def Let_def bindE_Inr_iff [of "refuse _ _ _"] refuse_Inr_iff
    by (cases "fromhex (str_of ?s)") auto
  from rest obtain pub_hex where pub_hex: "get_none trusted ''public_key_hex'' = Inr pub_hex" "is_str pub_hex"
    and last: "(case fromhex (str_of pub_hex) of
            None \<Rightarrow> Inl (Reject ''signature-invalid'' ''ed25519 signature verification failed'')
          | Some pub \<Rightarrow> refuse (\<not> pub_verify L pub digest sig) ''signature-invalid''
              ''ed25519 signature verification failed'') = Inr ()"
    unfolding bindE_Inr_iff refuse_Inr_iff liftE_Inr_iff by auto
  from last obtain pub where "fromhex (str_of pub_hex) = Some pub" "pub_verify L pub digest sig"
    by (cases "fromhex (str_of pub_hex)") auto
  with claimed sig pub_hex show ?thesis by (cases ?s; cases pub_hex) (simp_all add: key_signs_def)
qed

lemma policy_checks_sound:
  "policy_checks L e policy = Inr phash \<Longrightarrow> policy_hash L policy = Inr phash \<and> states_policy e phash"
proof -
  assume "policy_checks L e policy = Inr phash"
  then obtain sh where sh: "is_dict (py_get e ''policy'')" "policy_hash L policy = Inr phash"
    "get_none (py_get e ''policy'') ''hash'' = Inr sh" "sh = PStr phash"
    unfolding policy_checks_def Let_def bindE_Inr_iff refuse_Inr_iff liftE_Inr_iff sum.inject by blast
  then show ?thesis by (cases "py_get e ''policy''") (simp_all add: states_policy_def)
qed

text \<open>
  C16: what the publisher gate accepts is committed by an authorised key.  The envelope names a key of the
  applied policy that is active and belongs to the named publisher, states the hash of that policy, and
  carries a signature of that key over the digest rebuilt from the registry and the files on disk.
\<close>

theorem accepted_publisher_authorised:
  assumes "verify_publisher_commitment L registry run_file envelope policy base = Inr r" "pc_accepted r"
  shows "\<exists>e trusted phash digest. envelope = PDict e
    \<and> policy_hash L policy = Inr phash \<and> states_policy e phash \<and> authorised_key policy e trusted
    \<and> rebuilt_digest L registry run_file policy phash base = Inr digest \<and> key_signs L e trusted digest"
proof -
  obtain e phash trusted digest where e: "envelope = PDict e" and p: "policy_checks L e policy = Inr phash"
    and k: "key_checks e policy = Inr trusted" and d: "rebuilt_digest L registry run_file policy phash base = Inr digest"
    and s: "envelope_signature L e trusted digest = Inr ()" by (rule accepted_parts [OF assms])
  from key_checks_sound [OF k] envelope_signature_sound [OF s] policy_checks_sound [OF p] e d
  show ?thesis
    by (intro exI [of _ e] exI [of _ trusted] exI [of _ phash] exI [of _ digest]) simp
qed

section \<open>One envelope, one set of bytes\<close>

definition id_of_artifact :: "pv \<Rightarrow> pv" where
  "id_of_artifact a = plain (case get_none a ''id'' of Inr i \<Rightarrow> i | Inl _ \<Rightarrow> PNone)"

definition unique_ids :: "pv \<Rightarrow> bool" where
  "unique_ids registry \<longleftrightarrow>
     (case list_or_empty registry ''artifacts'' of Inl _ \<Rightarrow> True | Inr arts \<Rightarrow> distinct (map id_of_artifact arts))"

text \<open>What the files of a registry hold: id, path and bytes of each artifact.\<close>

definition artifact_rows :: "publisher_lib \<Rightarrow> pv \<Rightarrow> string \<Rightarrow> (pv \<times> string \<times> string option) set" where
  "artifact_rows L registry base = {(i, p, c). \<exists>arts a. list_or_empty registry ''artifacts'' = Inr arts \<and> a \<in> set arts
     \<and> get_none a ''id'' = Inr i \<and> get_none a ''path'' = Inr (PStr p) \<and> c = pub_file L (join_path base p)}"

lemma rehash_step:
  assumes "rehash_artifact L base shas a = Inr shas'"
  obtains p c i where "get_none a ''path'' = Inr (PStr p)" "pub_file L (join_path base p) = Some c"
    "get_none a ''id'' = Inr i" "hashable i" "id_of_artifact a = plain i" "shas' = dset (plain i) (pub_hash L c) shas"
proof -
  from assms obtain v p h i where "get_none a ''path'' = Inr v" "path_of v = Inr p" "sha256_of_file L (join_path base p) = Some h"
    "item a ''id'' = Inr i" "hashable i" "shas' = dset (plain i) h shas"
    by (auto simp: rehash_artifact_def bindE_Inr_iff split: option.splits if_splits)
  moreover then have "v = PStr p" by (cases v) auto
  ultimately show thesis
    using that item_get [of a "''id''" i] by (auto simp: sha256_of_file_def id_of_artifact_def)
qed

lemma rehash_other:
  "foldE (rehash_artifact L base) shas arts = Inr shas' \<Longrightarrow> k \<notin> id_of_artifact ` set arts \<Longrightarrow> map_of shas' k = map_of shas k"
proof (induction arts arbitrary: shas)
  case (Cons a arts)
  then obtain t where "rehash_artifact L base shas a = Inr t" "foldE (rehash_artifact L base) t arts = Inr shas'"
    by (auto simp: bindE_Inr_iff)
  with Cons show ?case by (auto elim!: rehash_step)
qed simp

lemma rehash_all:
  "foldE (rehash_artifact L base) shas arts = Inr shas' \<Longrightarrow> distinct (map id_of_artifact arts) \<Longrightarrow> a \<in> set arts \<Longrightarrow>
   \<exists>p c i. get_none a ''path'' = Inr (PStr p) \<and> pub_file L (join_path base p) = Some c \<and> get_none a ''id'' = Inr i
     \<and> hashable i \<and> map_of shas' (plain i) = Some (pub_hash L c)"
proof (induction arts arbitrary: shas)
  case (Cons b arts)
  then obtain t where t: "rehash_artifact L base shas b = Inr t" "foldE (rehash_artifact L base) t arts = Inr shas'"
    by (auto simp: bindE_Inr_iff)
  show ?case
  proof (cases "a = b")
    case True
    from t(1) obtain p c i where row: "get_none b ''path'' = Inr (PStr p)" "pub_file L (join_path base p) = Some c"
      "get_none b ''id'' = Inr i" "hashable i" "id_of_artifact b = plain i" "t = dset (plain i) (pub_hash L c) shas"
      by (rule rehash_step)
    moreover have "map_of shas' (plain i) = map_of t (plain i)"
      using rehash_other [OF t(2)] Cons.prems(2) row(5) by simp
    ultimately show ?thesis by (simp add: True)
  qed (use Cons t in auto)
qed simp

lemma sorted_entries_set:
  assumes "sorted_entries xs = Inr es"
  shows "set es = (snd \<circ> snd) ` set xs"
proof -
  from assms obtain ys where "es = map (snd \<circ> snd) ys" "set ys = set xs"
    by (auto simp: sorted_entries_def Let_def split: if_splits)
  then show ?thesis by simp
qed

definition preimage_entry :: "pv \<Rightarrow> string \<Rightarrow> string \<Rightarrow> pv \<Rightarrow> pv" where
  "preimage_entry i p h imp = PDict [(''id'', i), (''path'', PStr p), (''sha256'', PStr h), (''importance'', imp)]"

lemma preimage_entry_canon:
  assumes "canon (preimage_entry i p h imp) = canon (preimage_entry i' p' h' imp')"
  shows "canon i = canon i' \<and> p = p' \<and> h = h'"
proof -
  let ?d = "[(''id'', i), (''path'', PStr p), (''sha256'', PStr h), (''importance'', imp)]"
  let ?e = "[(''id'', i'), (''path'', PStr p'), (''sha256'', PStr h'), (''importance'', imp')]"
  have "dict_wf ?d" "dict_wf ?e" by (simp_all add: dict_wf_def)
  from canon_dict_eq_iff [OF this] assms have fields: "map_option canon (map_of ?d k) = map_option canon (map_of ?e k)" for k
    by (simp add: preimage_entry_def)
  from fields [of "''id''"] fields [of "''path''"] fields [of "''sha256''"] show ?thesis by simp
qed

text \<open>The artifacts of a rebuilt preimage, with the hash of the bytes of each.\<close>

definition committed_entry :: "publisher_lib \<Rightarrow> string \<Rightarrow> pv \<Rightarrow> pv \<Rightarrow> bool" where
  "committed_entry L base a y \<longleftrightarrow> (\<exists>i p c imp. get_none a ''id'' = Inr i \<and> hashable i \<and> get_none a ''path'' = Inr (PStr p)
     \<and> pub_file L (join_path base p) = Some c \<and> y = preimage_entry i p (pub_hash L c) imp)"

lemma preimage_artifacts:
  assumes shas: "foldE (rehash_artifact L base) [] arts = Inr shas" and unique: "distinct (map id_of_artifact arts)"
    and entries: "mapE (artifact_entry shas) arts = Inr entries" "sorted_entries entries = Inr es"
  shows "(\<forall>y \<in> set es. \<exists>a \<in> set arts. committed_entry L base a y) \<and> (\<forall>a \<in> set arts. \<exists>y \<in> set es. committed_entry L base a y)"
proof -
  have made: "committed_entry L base a (snd (snd x))" if a: "a \<in> set arts" "artifact_entry shas a = Inr x" for a x
  proof -
    from rehash_all [OF shas unique a(1)] obtain p c i where
      row: "get_none a ''path'' = Inr (PStr p)" "pub_file L (join_path base p) = Some c" "get_none a ''id'' = Inr i"
      "hashable i" "map_of shas (plain i) = Some (pub_hash L c)" by blast
    with a(2) obtain imp where "x = (i, PStr p, preimage_entry i p (pub_hash L c) imp)"
      by (auto simp: artifact_entry_def artifact_hash_def preimage_entry_def bindE_Inr_iff)
    with row show ?thesis by (auto simp: committed_entry_def)
  qed
  have "set es = (snd \<circ> snd) ` {x. \<exists>a \<in> set arts. artifact_entry shas a = Inr x}"
    using sorted_entries_set [OF entries(2)] mapE_set [OF entries(1)] by simp
  with made mapE_source_in [OF entries(1)] show ?thesis by fastforce
qed

definition preimage_doc :: "pv \<Rightarrow> pv \<Rightarrow> pv \<Rightarrow> string \<Rightarrow> string \<Rightarrow> pv list \<Rightarrow> pv \<Rightarrow> string \<Rightarrow> pv" where
  "preimage_doc sv cv rid mpath msha es pid phash = PDict
         [(''domain'', PStr publisher_domain), (''publisher_manifest_schema'', PStr publisher_manifest_schema),
          (''schema_version'', sv), (''contract_version'', cv), (''run_id'', rid),
          (''run_manifest'', PDict [(''path'', PStr mpath), (''sha256'', PStr msha)]),
          (''artifacts'', PList es), (''required_chain_ids'', PList (map PStr (sort required_chain_ids))),
          (''policy'', PDict [(''id'', pid), (''hash'', PStr phash)])]"

lemma preimage_doc_canon:
  assumes "canon (preimage_doc sv cv rid mpath msha es pid phash) = canon (preimage_doc sv' cv' rid' mpath' msha' es' pid' phash')"
  shows "canon rid = canon rid' \<and> msha = msha' \<and> map canon es = map canon es'"
proof -
  define d where "d = dict_of (preimage_doc sv cv rid mpath msha es pid phash)"
  define e where "e = dict_of (preimage_doc sv' cv' rid' mpath' msha' es' pid' phash')"
  have docs: "preimage_doc sv cv rid mpath msha es pid phash = PDict d" "preimage_doc sv' cv' rid' mpath' msha' es' pid' phash' = PDict e"
    by (simp_all add: d_def e_def preimage_doc_def)
  have "dict_wf d" "dict_wf e" by (simp_all add: dict_wf_def d_def e_def preimage_doc_def)
  from canon_dict_eq_iff [OF this] assms have fields: "map_option canon (map_of d k) = map_option canon (map_of e k)" for k
    by (simp add: docs)
  let ?m = "[(''path'', PStr mpath), (''sha256'', PStr msha)]" and ?m' = "[(''path'', PStr mpath'), (''sha256'', PStr msha')]"
  from fields [of "''run_manifest''"] have m: "canon (PDict ?m) = canon (PDict ?m')"
    by (simp add: d_def e_def preimage_doc_def)
  have "dict_wf ?m" "dict_wf ?m'" by (simp_all add: dict_wf_def)
  from canon_dict_eq_iff [OF this] m have "map_option canon (map_of ?m k) = map_option canon (map_of ?m' k)" for k by simp
  from this [of "''sha256''"] have "msha = msha'" by simp
  with fields [of "''run_id''"] fields [of "''artifacts''"] show ?thesis
    by (simp add: d_def e_def preimage_doc_def)
qed

lemma rebuilt_parts:
  assumes "rebuilt_digest L registry run_file policy phash base = Inr digest"
  obtains bytes arts shas entries es mpath pid sv cv rid where "pub_file L run_file = Some bytes"
    "list_or_empty registry ''artifacts'' = Inr arts" "foldE (rehash_artifact L base) [] arts = Inr shas"
    "mapE (artifact_entry shas) arts = Inr entries" "sorted_entries entries = Inr es" "get_none registry ''run_id'' = Inr rid"
    "digest = commitment_digest L (preimage_doc sv cv rid mpath (pub_hash L bytes) es pid phash)"
proof -
  from assms obtain bytes arts shas mpath pid pre where a: "pub_file L run_file = Some bytes"
    "list_or_empty registry ''artifacts'' = Inr arts" "foldE (rehash_artifact L base) [] arts = Inr shas"
    and pre: "commitment_preimage registry mpath (pub_hash L bytes) pid phash shas = Inr pre" and d: "digest = commitment_digest L pre"
    by (auto simp: rebuilt_digest_def sha256_of_file_def bindE_Inr_iff split: option.splits)
  from pre a(2) obtain entries es sv cv rid where "mapE (artifact_entry shas) arts = Inr entries" "sorted_entries entries = Inr es"
    "get_none registry ''run_id'' = Inr rid" "pre = preimage_doc sv cv rid mpath (pub_hash L bytes) es pid phash"
    unfolding commitment_preimage_def preimage_doc_def bindE_Inr_iff by auto
  with a d that show thesis by blast
qed

lemma committed_rows:
  assumes e: "committed_entry L1 b1 a1 y1" "committed_entry L2 b2 a2 y2" "canon y1 = canon y2"
    and same: "pub_hash L2 = pub_hash L1" "\<not> pub_collision L1"
  shows "\<exists>i p c. get_none a1 ''id'' = Inr i \<and> get_none a1 ''path'' = Inr (PStr p) \<and> pub_file L1 (join_path b1 p) = Some c
    \<and> get_none a2 ''id'' = Inr i \<and> get_none a2 ''path'' = Inr (PStr p) \<and> pub_file L2 (join_path b2 p) = Some c"
proof -
  from e(1) obtain i p c imp where row1: "get_none a1 ''id'' = Inr i" "hashable i" "get_none a1 ''path'' = Inr (PStr p)"
    "pub_file L1 (join_path b1 p) = Some c" "y1 = preimage_entry i p (pub_hash L1 c) imp" by (auto simp: committed_entry_def)
  from e(2) obtain i' p' c' imp' where row2: "get_none a2 ''id'' = Inr i'" "hashable i'" "get_none a2 ''path'' = Inr (PStr p')"
    "pub_file L2 (join_path b2 p') = Some c'" "y2 = preimage_entry i' p' (pub_hash L1 c') imp'"
    using same(1) by (auto simp: committed_entry_def)
  from preimage_entry_canon e(3) have eq: "canon i = canon i'" "p = p'" "pub_hash L1 c = pub_hash L1 c'"
    unfolding row1(5) row2(5) by blast+
  have "i = i'" using eq(1) row1(2) row2(2) by (cases i; cases i') simp_all
  moreover have "c = c'" using pub_hash_eqD [OF eq(3)] same(2) by simp
  ultimately show ?thesis using row1 row2 eq(2) by auto
qed

lemma committed_artifacts:
  assumes arts: "list_or_empty R1 ''artifacts'' = Inr arts1" "list_or_empty R2 ''artifacts'' = Inr arts2"
    and same: "map canon es1 = map canon es2" "pub_hash L2 = pub_hash L1" "\<not> pub_collision L1"
    and e1: "\<forall>a \<in> set arts1. \<exists>y \<in> set es1. committed_entry L1 b1 a y"
    and e2: "\<forall>y \<in> set es2. \<exists>a \<in> set arts2. committed_entry L2 b2 a y"
  shows "artifact_rows L1 R1 b1 \<subseteq> artifact_rows L2 R2 b2"
proof clarify
  fix i p c assume "(i, p, c) \<in> artifact_rows L1 R1 b1"
  then obtain a1 where a1: "a1 \<in> set arts1" "get_none a1 ''id'' = Inr i" "get_none a1 ''path'' = Inr (PStr p)"
    "c = pub_file L1 (join_path b1 p)" using arts(1) by (auto simp: artifact_rows_def)
  from e1 a1(1) obtain y1 where y1: "y1 \<in> set es1" "committed_entry L1 b1 a1 y1" by blast
  from y1(1) same(1) have "canon y1 \<in> set (map canon es2)" by (metis image_eqI list.set_map)
  then obtain y2 where y2: "y2 \<in> set es2" "canon y1 = canon y2" by auto
  with e2 obtain a2 where a2: "a2 \<in> set arts2" "committed_entry L2 b2 a2 y2" by blast
  from committed_rows [OF y1(2) a2(2) y2(2) same(2,3)] a1 obtain c' where "get_none a2 ''id'' = Inr i"
    "get_none a2 ''path'' = Inr (PStr p)" "c = Some c'" "pub_file L2 (join_path b2 p) = Some c'" by auto
  with a2(1) arts(2) show "(i, p, c) \<in> artifact_rows L2 R2 b2" by (auto simp: artifact_rows_def)
qed

lemma rebuilt_digest_binds:
  assumes d1: "rebuilt_digest L1 R1 m1 P1 h1 b1 = Inr digest" and d2: "rebuilt_digest L2 R2 m2 P2 h2 b2 = Inr digest"
    and same: "pub_hash L2 = pub_hash L1" "\<not> pub_collision L1" and unique: "unique_ids R1" "unique_ids R2"
  shows "pub_file L1 m1 = pub_file L2 m2 \<and> artifact_rows L1 R1 b1 = artifact_rows L2 R2 b2
    \<and> (\<exists>i j. get_none R1 ''run_id'' = Inr i \<and> get_none R2 ''run_id'' = Inr j \<and> canon i = canon j)"
proof -
  obtain c1 arts1 shas1 en1 es1 mp1 pid1 sv1 cv1 rid1 where one: "pub_file L1 m1 = Some c1" "list_or_empty R1 ''artifacts'' = Inr arts1"
    "foldE (rehash_artifact L1 b1) [] arts1 = Inr shas1" "mapE (artifact_entry shas1) arts1 = Inr en1" "sorted_entries en1 = Inr es1"
    "get_none R1 ''run_id'' = Inr rid1" "digest = commitment_digest L1 (preimage_doc sv1 cv1 rid1 mp1 (pub_hash L1 c1) es1 pid1 h1)"
    by (rule rebuilt_parts [OF d1])
  obtain c2 arts2 shas2 en2 es2 mp2 pid2 sv2 cv2 rid2 where two: "pub_file L2 m2 = Some c2" "list_or_empty R2 ''artifacts'' = Inr arts2"
    "foldE (rehash_artifact L2 b2) [] arts2 = Inr shas2" "mapE (artifact_entry shas2) arts2 = Inr en2" "sorted_entries en2 = Inr es2"
    "get_none R2 ''run_id'' = Inr rid2" "digest = commitment_digest L2 (preimage_doc sv2 cv2 rid2 mp2 (pub_hash L2 c2) es2 pid2 h2)"
    by (rule rebuilt_parts [OF d2])
  have "canon (preimage_doc sv1 cv1 rid1 mp1 (pub_hash L1 c1) es1 pid1 h1) = canon (preimage_doc sv2 cv2 rid2 mp2 (pub_hash L2 c2) es2 pid2 h2)"
    using one(7) two(7) same pub_hash_eqD unfolding commitment_digest_def by (metis json_compact_inject)
  from preimage_doc_canon [OF this] have eq: "canon rid1 = canon rid2" "pub_hash L1 c1 = pub_hash L2 c2" "map canon es1 = map canon es2" by auto
  from eq(2) same have "c1 = c2" using pub_hash_eqD by metis
  from unique one(2) two(2) have dist: "distinct (map id_of_artifact arts1)" "distinct (map id_of_artifact arts2)"
    by (simp_all add: unique_ids_def)
  have no: "\<not> pub_collision L2" using same by (simp add: pub_collision_def)
  note e1 = preimage_artifacts [OF one(3) dist(1) one(4,5)] and e2 = preimage_artifacts [OF two(3) dist(2) two(4,5)]
  have "artifact_rows L1 R1 b1 \<subseteq> artifact_rows L2 R2 b2"
    using committed_artifacts [OF one(2) two(2) eq(3) same] e1 e2 by blast
  moreover have "artifact_rows L2 R2 b2 \<subseteq> artifact_rows L1 R1 b1"
    using committed_artifacts [OF two(2) one(2) eq(3) [symmetric] same(1) [symmetric] no] e1 e2 by blast
  ultimately show ?thesis using one(1,6) two(1,6) eq(1) \<open>c1 = c2\<close> by auto
qed

text \<open>
  C17: an envelope commits to one set of bytes.  When an envelope that states its digest is accepted twice,
  over different registries, policies and states of the disk, then the run ids, the bytes of the run
  manifest, and the ids, paths and bytes of the artifacts are the same -- provided that no registry uses an
  id twice -- or two texts with the same hash have been exhibited.
\<close>

theorem envelope_commits_bytes:
  assumes "verify_publisher_commitment L1 R1 m1 (PDict e) P1 b1 = Inr r1" "pc_accepted r1"
    and "verify_publisher_commitment L2 R2 m2 (PDict e) P2 b2 = Inr r2" "pc_accepted r2"
    and "pub_hash L2 = pub_hash L1" "py_get e ''claimed_digest_hex'' \<noteq> PNone" "unique_ids R1" "unique_ids R2"
  shows "pub_collision L1 \<or> (pub_file L1 m1 = pub_file L2 m2 \<and> artifact_rows L1 R1 b1 = artifact_rows L2 R2 b2
    \<and> (\<exists>i j. get_none R1 ''run_id'' = Inr i \<and> get_none R2 ''run_id'' = Inr j \<and> canon i = canon j))"
proof -
  obtain e1 h1 t1 d1 where one: "PDict e = PDict e1" "rebuilt_digest L1 R1 m1 P1 h1 b1 = Inr d1" "envelope_signature L1 e1 t1 d1 = Inr ()"
    by (rule accepted_parts [OF assms(1,2)])
  obtain e2 h2 t2 d2 where two: "PDict e = PDict e2" "rebuilt_digest L2 R2 m2 P2 h2 b2 = Inr d2" "envelope_signature L2 e2 t2 d2 = Inr ()"
    by (rule accepted_parts [OF assms(3,4)])
  from envelope_signature_sound [OF one(3)] envelope_signature_sound [OF two(3)] one(1) two(1) assms(6) have "d1 = d2" by auto
  with rebuilt_digest_binds [OF one(2) _ assms(5) _ assms(7,8)] two(2) show ?thesis by blast
qed

section \<open>A concrete registry\<close>

definition demo_publisher :: "(string \<Rightarrow> string option) \<Rightarrow> publisher_lib" where
  "demo_publisher fs =
     \<lparr>pub_hash = (\<lambda>t. t), pub_key_of = (\<lambda>seed. if length seed = 32 then Some seed else None),
      pub_sign = (\<lambda>seed msg. take 64 (seed @ map of_char msg @ replicate 64 0)),
      pub_verify = (\<lambda>pk msg sig. sig = take 64 (pk @ map of_char msg @ replicate 64 0)), pub_file = fs\<rparr>"

definition demo_disk :: "string \<Rightarrow> string \<Rightarrow> string option" where
  "demo_disk x p = (if p = ''d/run.json'' then Some ''m'' else if p = ''d/x'' then Some x
     else if p = ''d/y'' then Some ''2'' else None)"

definition demo_registry_of :: "string \<Rightarrow> string \<Rightarrow> pv" where
  "demo_registry_of i j = PDict [(''run_id'', PStr ''r1''), (''artifacts'', PList
     [PDict [(''id'', PStr i), (''path'', PStr ''x'')], PDict [(''id'', PStr j), (''path'', PStr ''y'')]])]"

definition demo_key :: obj where
  "demo_key = [(''key_id'', PStr ''k''), (''publisher_id'', PStr ''p''), (''status'', PStr ''active''),
     (''public_key_hex'', PStr (to_hex (replicate 32 7)))]"

definition demo_policy :: pv where
  "demo_policy = PDict [(''schema_version'', PStr publisher_policy_schema), (''policy_id'', PStr ''q''),
     (''trusted_keys'', PList [PDict demo_key])]"

definition demo_envelope :: "string \<Rightarrow> string \<Rightarrow> obj" where
  "demo_envelope i j = (case sign_publisher_commitment (demo_publisher (demo_disk ''1'')) ''now'' (demo_registry_of i j) ''d/run.json''
     demo_policy (to_hex (replicate 32 7)) ''p'' ''k'' None of Inr e \<Rightarrow> e | Inl _ \<Rightarrow> [])"

lemma demo_registry_signed:
  "sign_publisher_commitment (demo_publisher (demo_disk ''1'')) ''now'' (demo_registry_of ''a'' ''b'') ''d/run.json''
     demo_policy (to_hex (replicate 32 7)) ''p'' ''k'' None = Inr (demo_envelope ''a'' ''b'')"
proof -
  have "(case sign_publisher_commitment (demo_publisher (demo_disk ''1'')) ''now'' (demo_registry_of ''a'' ''b'') ''d/run.json''
     demo_policy (to_hex (replicate 32 7)) ''p'' ''k'' None of Inl _ \<Rightarrow> False | Inr _ \<Rightarrow> True)" by code_simp
  then show ?thesis by (simp add: demo_envelope_def split: sum.splits)
qed

lemma demo_ed25519: "ed25519_sound (demo_publisher fs)"
  by (auto simp: ed25519_sound_def demo_publisher_def split: if_splits)

lemma demo_key_found: "find_trusted_key demo_policy (PStr ''k'') = Inr (Some (PDict demo_key))"
  by code_simp

lemma demo_key_fields:
  "py_get demo_key ''publisher_id'' = PStr ''p''" "py_get demo_key ''status'' = PStr ''active''"
  "py_get demo_key ''public_key_hex'' = PStr (to_hex (replicate 32 7))"
  by (simp_all add: demo_key_def get_or_def)

lemma demo_accepted:
  "\<exists>r. verify_publisher_commitment (demo_publisher (demo_disk ''1'')) (demo_registry_of ''a'' ''b'') ''d/run.json''
     (PDict (demo_envelope ''a'' ''b'')) demo_policy ''d'' = Inr r \<and> pc_accepted r"
proof -
  have parent: "parent_path ''d/run.json'' = ''d''" by code_simp
  have "pub_key_of (demo_publisher (demo_disk ''1'')) (replicate 32 7) = Some (replicate 32 7)" by (simp add: demo_publisher_def)
  from signed_verifies [OF demo_registry_signed fromhex_to_hex this demo_ed25519 demo_key_found demo_key_fields] show ?thesis
    unfolding parent by auto
qed

text \<open>
  Artifacts that share an id share the hash of the last of them: the bytes of the first are not committed,
  and the envelope signed over \<open>''1''\<close> is accepted when the file holds \<open>''changed''\<close>.
\<close>

lemma demo_disk_only: "demo_publisher fs = (demo_publisher gs)\<lparr>pub_file := fs\<rparr>"
  by (simp add: demo_publisher_def)

lemma verdict_by_digest:
  assumes "rebuilt_digest (L\<lparr>pub_file := f\<rparr>) registry run_file policy phash base = rebuilt_digest L registry run_file policy phash base"
    and "policy_hash L policy = Inr phash"
  shows "verify_publisher_commitment (L\<lparr>pub_file := f\<rparr>) registry run_file envelope policy base
    = verify_publisher_commitment L registry run_file envelope policy base"
proof -
  have same: "pub_verify (L\<lparr>pub_file := f\<rparr>) = pub_verify L" by simp
  have "policy_checks (L\<lparr>pub_file := f\<rparr>) e policy = policy_checks L e policy" for e
    by (simp add: policy_checks_def policy_hash_def)
  moreover have "envelope_signature (L\<lparr>pub_file := f\<rparr>) e t d = envelope_signature L e t d" for e t d
    unfolding envelope_signature_def same ..
  moreover have "bindE (policy_checks L e policy) (\<lambda>h. bindE (key_checks e policy) (\<lambda>t.
      bindE (rebuilt_digest (L\<lparr>pub_file := f\<rparr>) registry run_file policy h base) (k t)))
    = bindE (policy_checks L e policy) (\<lambda>h. bindE (key_checks e policy) (\<lambda>t.
      bindE (rebuilt_digest L registry run_file policy h base) (k t)))" for e and k :: "pv \<Rightarrow> string \<Rightarrow> pub_stop + string"
    using assms policy_checks_sound [of L e policy] by (cases "policy_checks L e policy") auto
  ultimately show ?thesis by (simp add: verify_publisher_commitment_def verify_envelope_def split: pv.splits)
qed

lemma duplicate_id_unbound:
  "\<exists>r. verify_publisher_commitment (demo_publisher (demo_disk ''changed'')) (demo_registry_of ''a'' ''a'') ''d/run.json''
     (PDict (demo_envelope ''a'' ''a'')) demo_policy ''d'' = Inr r \<and> pc_accepted r"
proof -
  let ?L = "demo_publisher (demo_disk ''1'')"
  have signed: "sign_publisher_commitment ?L ''now'' (demo_registry_of ''a'' ''a'') ''d/run.json''
     demo_policy (to_hex (replicate 32 7)) ''p'' ''k'' None = Inr (demo_envelope ''a'' ''a'')"
  proof -
    have "(case sign_publisher_commitment ?L ''now'' (demo_registry_of ''a'' ''a'') ''d/run.json''
       demo_policy (to_hex (replicate 32 7)) ''p'' ''k'' None of Inl _ \<Rightarrow> False | Inr _ \<Rightarrow> True)" by code_simp
    then show ?thesis by (simp add: demo_envelope_def split: sum.splits)
  qed
  have parent: "parent_path ''d/run.json'' = ''d''" by code_simp
  have "pub_key_of ?L (replicate 32 7) = Some (replicate 32 7)" by (simp add: demo_publisher_def)
  from signed_verifies [OF signed fromhex_to_hex this demo_ed25519 demo_key_found demo_key_fields]
  have accepted: "\<exists>r. verify_publisher_commitment ?L (demo_registry_of ''a'' ''a'') ''d/run.json''
     (PDict (demo_envelope ''a'' ''a'')) demo_policy ''d'' = Inr r \<and> pc_accepted r" unfolding parent by auto
  obtain phash where hash: "policy_hash ?L demo_policy = Inr phash" by (simp add: policy_hash_def demo_policy_def)
  have "rebuilt_digest (demo_publisher (demo_disk ''changed'')) (demo_registry_of ''a'' ''a'') ''d/run.json'' demo_policy h ''d''
      = rebuilt_digest ?L (demo_registry_of ''a'' ''a'') ''d/run.json'' demo_policy h ''d''" for h
    by code_simp
  from verdict_by_digest [OF this [unfolded demo_disk_only [of "demo_disk ''changed''" "demo_disk ''1''"]] hash] accepted
  show ?thesis unfolding demo_disk_only [of "demo_disk ''changed''" "demo_disk ''1''"] by simp
qed

lemma signed_registry_verifies_witness:
  "\<exists>msg. verify_publisher_commitment (demo_publisher (demo_disk ''1'')) (demo_registry_of ''a'' ''b'') ''d/run.json''
     (PDict (demo_envelope ''a'' ''b'')) demo_policy (parent_path ''d/run.json'')
     = Inr \<lparr>pc_accepted = True, pc_reason = ''publisher-signature-valid'', pc_detail = msg\<rparr>"
proof -
  have "pub_key_of (demo_publisher (demo_disk ''1'')) (replicate 32 7) = Some (replicate 32 7)" by (simp add: demo_publisher_def)
  from signed_registry_verifies [OF demo_registry_signed fromhex_to_hex this demo_ed25519 demo_key_found demo_key_fields] show ?thesis .
qed

lemma accepted_publisher_authorised_witness:
  "\<exists>e trusted phash digest. PDict (demo_envelope ''a'' ''b'') = PDict e
    \<and> policy_hash (demo_publisher (demo_disk ''1'')) demo_policy = Inr phash \<and> states_policy e phash \<and> authorised_key demo_policy e trusted
    \<and> rebuilt_digest (demo_publisher (demo_disk ''1'')) (demo_registry_of ''a'' ''b'') ''d/run.json'' demo_policy phash ''d'' = Inr digest
    \<and> key_signs (demo_publisher (demo_disk ''1'')) e trusted digest"
proof -
  obtain r where "verify_publisher_commitment (demo_publisher (demo_disk ''1'')) (demo_registry_of ''a'' ''b'') ''d/run.json''
     (PDict (demo_envelope ''a'' ''b'')) demo_policy ''d'' = Inr r" "pc_accepted r" using demo_accepted by blast
  then show ?thesis by (rule accepted_publisher_authorised)
qed

lemma envelope_commits_bytes_witness:
  "pub_collision (demo_publisher (demo_disk ''1'')) \<or>
     (pub_file (demo_publisher (demo_disk ''1'')) ''d/run.json'' = pub_file (demo_publisher (demo_disk ''1'')) ''d/run.json''
      \<and> artifact_rows (demo_publisher (demo_disk ''1'')) (demo_registry_of ''a'' ''b'') ''d''
        = artifact_rows (demo_publisher (demo_disk ''1'')) (demo_registry_of ''a'' ''b'') ''d''
      \<and> (\<exists>i j. get_none (demo_registry_of ''a'' ''b'') ''run_id'' = Inr i \<and> get_none (demo_registry_of ''a'' ''b'') ''run_id'' = Inr j
        \<and> canon i = canon j))"
proof -
  obtain r where r: "verify_publisher_commitment (demo_publisher (demo_disk ''1'')) (demo_registry_of ''a'' ''b'') ''d/run.json''
     (PDict (demo_envelope ''a'' ''b'')) demo_policy ''d'' = Inr r" "pc_accepted r" using demo_accepted by blast
  have "py_get (demo_envelope ''a'' ''b'') ''claimed_digest_hex'' \<noteq> PNone" by code_simp
  moreover have "unique_ids (demo_registry_of ''a'' ''b'')" by code_simp
  ultimately show ?thesis by (intro envelope_commits_bytes [OF r r]) simp_all
qed

end
