(* ===== verification/Conformance_Bundle.thy ===== *)
theory Conformance_Bundle
  imports Py_Read Json_Compact
begin

text \<open>
  The second verifier of conformance bundles, \<^verbatim>\<open>scripts/bundle_verify.py\<close>: the claim that a bundle
  derives, the issues it finds, and the classification it prints.  The hash of a text is the argument
  \<open>H\<close>; the canonical JSON of the script sorts keys twice, which is sorting once.
\<close>

type_synonym text_hash = "string \<Rightarrow> string"

definition bundle_schema_version :: string where
  "bundle_schema_version = ''conformance.bundle/v1''"

text \<open>The claim classes a mode permits; an unknown mode permits none.\<close>

definition permitted_classes :: "pv \<Rightarrow> string list" where
  "permitted_classes mode =
     (if mode = PStr ''attested'' then [''attested'']
      else if mode = PStr ''reproduce'' then [''reproduced'']
      else if mode = PStr ''candidate'' \<or> mode = PStr ''compare''
      then [''candidate-compatible'', ''accepted-divergence'', ''not-evaluated'']
      else [])"

text \<open>\<^verbatim>\<open>v.get(k) or {}\<close>, \<^verbatim>\<open>v.get(k) or []\<close> iterated, and \<^verbatim>\<open>a.get(k) or b.get(k)\<close>.\<close>

definition section_of :: "pv \<Rightarrow> string \<Rightarrow> ev_error + pv" where
  "section_of v k = bindE (get_none v k) (\<lambda>x. Inr (if truthy x then x else PDict []))"

definition rows_of :: "pv \<Rightarrow> string \<Rightarrow> ev_error + pv list" where
  "rows_of v k = bindE (get_none v k) (\<lambda>x. if truthy x then iter_of x else Inr [])"

definition either_env :: "pv \<Rightarrow> pv \<Rightarrow> ev_error + pv" where
  "either_env recon coverage =
     bindE (get_none recon ''environment/root'') (\<lambda>r. if truthy r then Inr r else get_none coverage ''environment/root'')"

section \<open>The derived claim\<close>

definition claim_class :: "pv \<Rightarrow> string" where
  "claim_class mode =
     (let c = (if mode = PStr ''attested'' then ''attested'' else if mode = PStr ''reproduce'' then ''reproduced''
               else ''candidate-compatible'') in
      if (mode = PStr ''candidate'' \<or> mode = PStr ''compare'') \<and> c \<notin> set (permitted_classes mode) then ''not-evaluated'' else c)"

definition claim_core :: "pv \<Rightarrow> pv \<Rightarrow> pv \<Rightarrow> obj" where
  "claim_core mode recon_root env =
     [(''evaluation/mode'', mode), (''claim/class'', PStr (claim_class mode)), (''claim/status'', PStr ''pass''),
      (''reconciliation/root'', recon_root), (''environment/root'', env)]"

definition derive_claim :: "text_hash \<Rightarrow> pv \<Rightarrow> ev_error + obj option" where
  "derive_claim H bundle =
     bindE (section_of bundle ''reconciliation'') (\<lambda>recon.
     bindE (section_of bundle ''coverage'') (\<lambda>coverage.
     bindE (section_of bundle ''plan'') (\<lambda>plan.
     bindE (get_none plan ''claim/mode'') (\<lambda>m.
     let mode = (if truthy m then m else PStr ''attested'') in
     bindE (get_none recon ''reconciliation/status'') (\<lambda>st.
     bindE (if st = PStr ''pass'' then get_none coverage ''coverage/complete?'' else Inr PNone) (\<lambda>complete.
     if \<not> truthy complete then Inr None
     else if \<not> hashable mode then Inl (Builtin TypeError)
     else if claim_class mode \<notin> set (permitted_classes mode) then Inr None
     else bindE (get_none recon ''reconciliation/root'') (\<lambda>root.
          bindE (either_env recon coverage) (\<lambda>env.
          let claim = claim_core mode root env in
            Inr (Some (claim @ [(''claim/json-root'', PStr (H (json_compact (PDict claim))))]))))))))))"

section \<open>Issues\<close>

text \<open>An issue is its code; the details are for people.\<close>

definition root_issues :: "pv \<Rightarrow> ev_error + string list" where
  "root_issues recon =
     bindE (get_none recon ''reconciliation/root'') (\<lambda>r. Inr (if truthy r then [] else [''reconciliation-not-reproducible'']))"

definition environment_issues :: "pv \<Rightarrow> pv \<Rightarrow> pv \<Rightarrow> ev_error + string list" where
  "environment_issues plan recon coverage =
     bindE (get_none plan ''environment/root'') (\<lambda>p.
     bindE (get_none recon ''environment/root'') (\<lambda>r.
     bindE (get_none coverage ''environment/root'') (\<lambda>c.
       Inr ((if truthy p \<and> truthy r \<and> \<not> py_eq p r then [''environment-root-disagreement''] else [])
         @ (if truthy r \<and> truthy c \<and> \<not> py_eq r c then [''environment-root-disagreement''] else [])))))"

definition step_ids :: "pv \<Rightarrow> ev_error + pv list" where
  "step_ids plan =
     bindE (rows_of plan ''steps'') (mapE (\<lambda>s. bindE (get_none s ''step/id'') (\<lambda>i.
       if hashable i then Inr i else Inl (Builtin TypeError))))"

definition receipt_issues :: "pv \<Rightarrow> pv list \<Rightarrow> string \<Rightarrow> ev_error + string list" where
  "receipt_issues bundle ids key =
     bindE (bindE (rows_of bundle key) (mapE (\<lambda>r. bindE (get_none r ''step/id'') (\<lambda>i.
       if \<not> hashable i then Inl (Builtin TypeError)
       else Inr (if list_ex (py_eq i) ids then [] else [''unexpected-receipt'']))))) (\<lambda>es. Inr (concat es))"

definition parity_core :: "obj \<Rightarrow> obj" where
  "parity_core claim = without_keys [''claim/json-root'', ''claim/scope'', ''claim/does-not-establish''] claim"

text \<open>\<^verbatim>\<open>(supplied or {}).items()\<close>.\<close>

definition supplied_items :: "pv \<Rightarrow> ev_error + obj" where
  "supplied_items supplied =
     (if \<not> truthy supplied then Inr [] else case supplied of PDict d \<Rightarrow> Inr d | _ \<Rightarrow> Inl (Builtin AttributeError))"

definition claim_issues :: "text_hash \<Rightarrow> pv \<Rightarrow> obj option \<Rightarrow> ev_error + string list" where
  "claim_issues H supplied derived =
     bindE (supplied_items supplied) (\<lambda>items.
     case derived of
       None \<Rightarrow> bindE (if supplied = PNone then Inr PNone else get_none supplied ''claim/json-root'') (\<lambda>_. Inr [])
     | Some d \<Rightarrow>
         if supplied = PNone then Inr []
         else bindE (get_none supplied ''claim/json-root'') (\<lambda>root.
           Inr ((if \<not> py_eq (PDict (parity_core d)) (PDict (parity_core items)) then [''derived-claim-mismatch''] else [])
             @ (if truthy root \<and> root \<noteq> PStr (H (json_compact (PDict (parity_core d))))
                then [''claim-json-root-mismatch''] else []))))"

definition bundle_issues :: "text_hash \<Rightarrow> pv \<Rightarrow> ev_error + string list" where
  "bundle_issues H bundle =
     bindE (section_of bundle ''reconciliation'') (\<lambda>recon.
     bindE (section_of bundle ''coverage'') (\<lambda>coverage.
     bindE (section_of bundle ''plan'') (\<lambda>plan.
     bindE (root_issues recon) (\<lambda>roots.
     bindE (environment_issues plan recon coverage) (\<lambda>envs.
     bindE (step_ids plan) (\<lambda>ids.
     bindE (mapE (receipt_issues bundle ids) [''validation-receipts'', ''capability-receipts'', ''execution-receipts'']) (\<lambda>receipts.
     bindE (get_none bundle ''claim'') (\<lambda>supplied.
     bindE (derive_claim H bundle) (\<lambda>derived.
     bindE (claim_issues H supplied derived) (\<lambda>claims.
       Inr (roots @ envs @ concat receipts @ claims)))))))))))"

section \<open>The classification\<close>

record bundle_report =
  br_status :: string
  br_claim :: "obj option"
  br_issues :: "string list"

definition check_bundle :: "text_hash \<Rightarrow> pv \<Rightarrow> ev_error + bundle_report" where
  "check_bundle H bundle =
     bindE (get_none bundle ''bundle/schema-version'') (\<lambda>version.
     if version \<noteq> PStr bundle_schema_version
     then Inr \<lparr>br_status = ''unsupported-version'', br_claim = None, br_issues = [''unsupported-bundle-version'']\<rparr>
     else bindE (bundle_issues H bundle) (\<lambda>issues.
          bindE (if issues = [] then derive_claim H bundle else Inr None) (\<lambda>derived.
            Inr \<lparr>br_status = (if issues = [] \<and> derived \<noteq> None then ''pass'' else ''rejected''),
                 br_claim = derived, br_issues = issues\<rparr>)))"

definition bundle_report_pv :: "bundle_report \<Rightarrow> pv" where
  "bundle_report_pv r = PDict
     [(''verification/status'', PStr (br_status r)),
      (''outcome/class'', PStr (if br_claim r \<noteq> None then ''claimable'' else ''not-claimable'')),
      (''claimable?'', PBool (br_claim r \<noteq> None)),
      (''derived-claim/root'', (case br_claim r of None \<Rightarrow> PNone | Some c \<Rightarrow> py_get c ''claim/json-root'')),
      (''issue-codes'', PList (map PStr (br_issues r)))]"

text \<open>\<^verbatim>\<open>_object_pairs\<close>: the hook that rejects a key given twice.\<close>

fun duplicate_key :: "obj \<Rightarrow> string list \<Rightarrow> string option" where
  "duplicate_key [] seen = None"
| "duplicate_key ((k, v) # kvs) seen = (if k \<in> set seen then Some k else duplicate_key kvs (k # seen))"

definition object_pairs :: "obj \<Rightarrow> py_error + obj" where
  "object_pairs kvs =
     (case duplicate_key kvs [] of None \<Rightarrow> Inr kvs | Some k \<Rightarrow> Inl (ValueError (''duplicate JSON key: '' @ k)))"

text \<open>
  The command: what \<^verbatim>\<open>json.loads\<close> made of the text, a value or the text of its exception, becomes the
  report that is printed.
\<close>

definition bundle_main :: "text_hash \<Rightarrow> string + pv \<Rightarrow> ev_error + pv" where
  "bundle_main H parsed =
     (case parsed of
        Inl e \<Rightarrow> Inr (bundle_report_pv \<lparr>br_status = ''rejected'', br_claim = None,
          br_issues = [if contains ''duplicate JSON key'' e then ''duplicate-json-key'' else ''malformed-json'']\<rparr>)
      | Inr bundle \<Rightarrow> bindE (check_bundle H bundle) (\<lambda>r. Inr (bundle_report_pv r)))"

end
