(* ===== verification/Conformance_Theorems.thy ===== *)
theory Conformance_Theorems
  imports Conformance_Bundle
begin

text \<open>
  What a passed conformance bundle guarantees, that the claim the verifier derives is one it accepts, and
  that the root of a claim commits to it.
\<close>

section \<open>Reading a pass\<close>

definition receipt_keys :: "string list" where
  "receipt_keys = [''validation-receipts'', ''capability-receipts'', ''execution-receipts'']"

definition step_declared :: "pv \<Rightarrow> pv \<Rightarrow> bool" where
  "step_declared plan r \<longleftrightarrow> (\<exists>steps s i j. rows_of plan ''steps'' = Inr steps \<and> s \<in> set steps
     \<and> get_none r ''step/id'' = Inr i \<and> get_none s ''step/id'' = Inr j \<and> py_eq i j)"

lemma pass_parts:
  assumes "check_bundle H bundle = Inr r" "br_status r = ''pass''"
  obtains claim where "get_none bundle ''bundle/schema-version'' = Inr (PStr bundle_schema_version)"
    "bundle_issues H bundle = Inr []" "derive_claim H bundle = Inr (Some claim)"
    "r = \<lparr>br_status = ''pass'', br_claim = Some claim, br_issues = []\<rparr>"
proof -
  from assms(1) obtain version where v: "get_none bundle ''bundle/schema-version'' = Inr version"
    and body: "(if version \<noteq> PStr bundle_schema_version
     then Inr \<lparr>br_status = ''unsupported-version'', br_claim = None, br_issues = [''unsupported-bundle-version'']\<rparr>
     else bindE (bundle_issues H bundle) (\<lambda>issues.
          bindE (if issues = [] then derive_claim H bundle else Inr None) (\<lambda>derived.
            Inr \<lparr>br_status = (if issues = [] \<and> derived \<noteq> None then ''pass'' else ''rejected''),
                 br_claim = derived, br_issues = issues\<rparr>))) = Inr r"
    unfolding check_bundle_def bindE_Inr_iff by blast
  have version: "version = PStr bundle_schema_version"
    using body assms(2) by (cases "version = PStr bundle_schema_version") auto
  with body obtain issues derived where i: "bundle_issues H bundle = Inr issues"
    and d: "(if issues = [] then derive_claim H bundle else Inr None) = Inr derived"
    and r: "r = \<lparr>br_status = (if issues = [] \<and> derived \<noteq> None then ''pass'' else ''rejected''), br_claim = derived, br_issues = issues\<rparr>"
    unfolding bindE_Inr_iff by (auto simp: bindE_Inr_iff)
  from r assms(2) have "issues = [] \<and> derived \<noteq> None" by (cases "issues = [] \<and> derived \<noteq> None") auto
  with v version i d r that show thesis by auto
qed

lemma no_issues:
  assumes "bundle_issues H bundle = Inr []"
  obtains recon coverage plan ids supplied derived where "section_of bundle ''reconciliation'' = Inr recon"
    "section_of bundle ''coverage'' = Inr coverage" "section_of bundle ''plan'' = Inr plan" "root_issues recon = Inr []"
    "environment_issues plan recon coverage = Inr []" "step_ids plan = Inr ids"
    "\<forall>k \<in> set receipt_keys. receipt_issues bundle ids k = Inr []" "get_none bundle ''claim'' = Inr supplied"
    "derive_claim H bundle = Inr derived" "claim_issues H supplied derived = Inr []"
proof -
  from assms obtain recon coverage plan roots envs ids receipts supplied derived clms where parts:
    "section_of bundle ''reconciliation'' = Inr recon" "section_of bundle ''coverage'' = Inr coverage"
    "section_of bundle ''plan'' = Inr plan" "root_issues recon = Inr roots"
    "environment_issues plan recon coverage = Inr envs" "step_ids plan = Inr ids"
    "mapE (receipt_issues bundle ids) [''validation-receipts'', ''capability-receipts'', ''execution-receipts''] = Inr receipts"
    "get_none bundle ''claim'' = Inr supplied" "derive_claim H bundle = Inr derived" "claim_issues H supplied derived = Inr clms"
    and none: "roots @ envs @ concat receipts @ clms = []"
    unfolding bundle_issues_def bindE_Inr_iff sum.inject by blast
  have "receipt_issues bundle ids k = Inr []" if "k \<in> set receipt_keys" for k
  proof -
    from that mapE_source_in [OF parts(7)] obtain y where "y \<in> set receipts" "receipt_issues bundle ids k = Inr y"
      unfolding receipt_keys_def by blast
    with none show ?thesis by auto
  qed
  with parts none that show thesis by simp
qed

lemma receipts_declared:
  assumes ids: "step_ids plan = Inr ids" and none: "receipt_issues bundle ids k = Inr []" and rows: "rows_of bundle k = Inr rs" "r \<in> set rs"
  shows "step_declared plan r"
proof -
  from ids obtain steps where steps: "rows_of plan ''steps'' = Inr steps" and run: "mapE (\<lambda>s. bindE (get_none s ''step/id'') (\<lambda>i.
       if hashable i then Inr i else Inl (Builtin TypeError))) steps = Inr ids"
    by (auto simp: step_ids_def bindE_Inr_iff)
  from none rows(1) obtain es where es: "mapE (\<lambda>r. bindE (get_none r ''step/id'') (\<lambda>i.
       if \<not> hashable i then Inl (Builtin TypeError)
       else Inr (if list_ex (py_eq i) ids then [] else [''unexpected-receipt'']))) rs = Inr es" and empty: "concat es = []"
    by (auto simp: receipt_issues_def bindE_Inr_iff)
  from mapE_source_in [OF es rows(2)] empty obtain i where i: "get_none r ''step/id'' = Inr i" "list_ex (py_eq i) ids"
    by (auto simp: bindE_Inr_iff split: if_splits)
  then obtain j where j: "j \<in> set ids" "py_eq i j" by (auto simp: list_ex_iff)
  from mapE_result_in [OF run j(1)] obtain s where "s \<in> set steps" "get_none s ''step/id'' = Inr j"
    by (auto simp: bindE_Inr_iff split: if_splits)
  with steps i(1) j(2) show ?thesis by (auto simp: step_declared_def)
qed

lemma derived_parts:
  assumes "derive_claim H bundle = Inr (Some claim)" "section_of bundle ''reconciliation'' = Inr recon"
    "section_of bundle ''coverage'' = Inr coverage" "section_of bundle ''plan'' = Inr plan"
  obtains mode root env complete where "get_none recon ''reconciliation/status'' = Inr (PStr ''pass'')"
    "get_none coverage ''coverage/complete?'' = Inr complete" "truthy complete" "claim_class mode \<in> set (permitted_classes mode)"
    "get_none recon ''reconciliation/root'' = Inr root" "either_env recon coverage = Inr env"
    "claim = claim_core mode root env @ [(''claim/json-root'', PStr (H (json_compact (PDict (claim_core mode root env)))))]"
proof -
  from assms obtain m st complete where st: "get_none recon ''reconciliation/status'' = Inr st"
    and c: "(if st = PStr ''pass'' then get_none coverage ''coverage/complete?'' else Inr PNone) = Inr complete"
    and body: "(let mode = (if truthy m then m else PStr ''attested'') in
      if \<not> truthy complete then Inr None
      else if \<not> hashable mode then Inl (Builtin TypeError)
      else if claim_class mode \<notin> set (permitted_classes mode) then Inr None
      else bindE (get_none recon ''reconciliation/root'') (\<lambda>root.
          bindE (either_env recon coverage) (\<lambda>env.
          let claim = claim_core mode root env in
            Inr (Some (claim @ [(''claim/json-root'', PStr (H (json_compact (PDict claim))))]))))) = Inr (Some claim)"
    by (auto simp: derive_claim_def bindE_Inr_iff Let_def)
  have done_: "truthy complete" using body by (cases "truthy complete") simp_all
  moreover from this c have "st = PStr ''pass''" "get_none coverage ''coverage/complete?'' = Inr complete"
    by (auto split: if_splits)
  moreover from body obtain mode root env where "claim_class mode \<in> set (permitted_classes mode)"
    "get_none recon ''reconciliation/root'' = Inr root" "either_env recon coverage = Inr env"
    "claim = claim_core mode root env @ [(''claim/json-root'', PStr (H (json_compact (PDict (claim_core mode root env)))))]"
    unfolding Let_def by (auto simp: bindE_Inr_iff split: if_split_asm)
  ultimately show thesis using that st by blast
qed

lemma core_of_claim: "parity_core (claim_core mode root env @ [(''claim/json-root'', v)]) = claim_core mode root env"
  by (simp add: parity_core_def claim_core_def without_keys_def)

lemma claim_issues_none:
  assumes "claim_issues H supplied (Some d) = Inr []" "supplied \<noteq> PNone"
  shows "\<exists>items. supplied_items supplied = Inr items \<and> py_eq (PDict (parity_core d)) (PDict (parity_core items))
    \<and> (\<forall>root. get_none supplied ''claim/json-root'' = Inr root \<longrightarrow> truthy root \<longrightarrow> root = PStr (H (json_compact (PDict (parity_core d)))))"
  using assms by (auto simp: claim_issues_def bindE_Inr_iff split: if_splits)

definition supplied_matches :: "text_hash \<Rightarrow> pv \<Rightarrow> obj \<Rightarrow> bool" where
  "supplied_matches H supplied core \<longleftrightarrow> supplied = PNone \<or>
     (\<exists>items. supplied_items supplied = Inr items \<and> py_eq (PDict core) (PDict (parity_core items))
        \<and> (\<forall>root. get_none supplied ''claim/json-root'' = Inr root \<longrightarrow> truthy root \<longrightarrow> root = PStr (H (json_compact (PDict core)))))"

definition sections_pass :: "pv \<Rightarrow> pv \<Rightarrow> pv \<Rightarrow> pv \<Rightarrow> bool" where
  "sections_pass bundle recon coverage plan \<longleftrightarrow>
     section_of bundle ''reconciliation'' = Inr recon \<and> section_of bundle ''coverage'' = Inr coverage \<and> section_of bundle ''plan'' = Inr plan
     \<and> get_none recon ''reconciliation/status'' = Inr (PStr ''pass'')
     \<and> (\<exists>c. get_none coverage ''coverage/complete?'' = Inr c \<and> truthy c)
     \<and> (\<exists>r. get_none recon ''reconciliation/root'' = Inr r \<and> truthy r)"

text \<open>
  C26: a passed bundle supports its claim.  The reconciliation passed and has a root, the coverage is
  complete, every receipt belongs to a step that the plan declares, the claim's class is permitted in its
  mode, and a claim that came with the bundle is the derived one, root included.
\<close>

theorem passed_bundle_supported:
  assumes "check_bundle H bundle = Inr r" "br_status r = ''pass''"
  shows "\<exists>recon coverage plan mode root env supplied. sections_pass bundle recon coverage plan
    \<and> br_claim r = Some (claim_core mode root env @ [(''claim/json-root'', PStr (H (json_compact (PDict (claim_core mode root env)))))])
    \<and> claim_class mode \<in> set (permitted_classes mode)
    \<and> (\<forall>k \<in> set receipt_keys. \<forall>rs. rows_of bundle k = Inr rs \<longrightarrow> (\<forall>x \<in> set rs. step_declared plan x))
    \<and> get_none bundle ''claim'' = Inr supplied \<and> supplied_matches H supplied (claim_core mode root env)"
proof -
  obtain claim where p: "bundle_issues H bundle = Inr []" "derive_claim H bundle = Inr (Some claim)" "br_claim r = Some claim"
    by (rule pass_parts [OF assms]) simp
  obtain recon coverage plan ids supplied derived where n: "section_of bundle ''reconciliation'' = Inr recon"
    "section_of bundle ''coverage'' = Inr coverage" "section_of bundle ''plan'' = Inr plan" "root_issues recon = Inr []"
    "step_ids plan = Inr ids" "\<forall>k \<in> set receipt_keys. receipt_issues bundle ids k = Inr []"
    "get_none bundle ''claim'' = Inr supplied" "derive_claim H bundle = Inr derived" "claim_issues H supplied derived = Inr []"
    by (rule no_issues [OF p(1)])
  obtain mode root env complete where d: "get_none recon ''reconciliation/status'' = Inr (PStr ''pass'')"
    "get_none coverage ''coverage/complete?'' = Inr complete" "truthy complete" "claim_class mode \<in> set (permitted_classes mode)"
    "get_none recon ''reconciliation/root'' = Inr root"
    "claim = claim_core mode root env @ [(''claim/json-root'', PStr (H (json_compact (PDict (claim_core mode root env)))))]"
    by (rule derived_parts [OF p(2) n(1-3)])
  have "truthy root" using n(4) d(5) by (simp add: root_issues_def split: if_splits)
  then have "sections_pass bundle recon coverage plan" using n d by (simp add: sections_pass_def)
  moreover have "supplied_matches H supplied (claim_core mode root env)"
    using n(8,9) p(2) claim_issues_none [of H supplied claim] by (auto simp: supplied_matches_def core_of_claim d(6))
  moreover have "\<forall>k \<in> set receipt_keys. \<forall>rs. rows_of bundle k = Inr rs \<longrightarrow> (\<forall>x \<in> set rs. step_declared plan x)"
    using receipts_declared [OF n(5)] n(6) by blast
  ultimately show ?thesis using p(3) d(4,6) n(7) by blast
qed

section \<open>The derived claim\<close>

lemma sections_with_claim:
  "k \<noteq> ''claim'' \<Longrightarrow> section_of (PDict (dset ''claim'' c d)) k = section_of (PDict d) k"
  "k \<noteq> ''claim'' \<Longrightarrow> rows_of (PDict (dset ''claim'' c d)) k = rows_of (PDict d) k"
  "k \<noteq> ''claim'' \<Longrightarrow> get_none (PDict (dset ''claim'' c d)) k = get_none (PDict d) k"
  by (simp_all add: section_of_def rows_of_def)

lemma derive_with_claim: "derive_claim H (PDict (dset ''claim'' c d)) = derive_claim H (PDict d)"
  unfolding derive_claim_def by (simp add: sections_with_claim)

lemma receipts_with_claim:
  "k \<in> set receipt_keys \<Longrightarrow> receipt_issues (PDict (dset ''claim'' c d)) ids k = receipt_issues (PDict d) ids k"
  unfolding receipt_issues_def by (auto simp: receipt_keys_def sections_with_claim)

text \<open>
  The verifier accepts the claim it derives.  Putting the claim of a passed bundle into the bundle, in
  place of the claim that came with it, changes nothing of the report.
\<close>

theorem derived_claim_accepted:
  assumes "check_bundle H (PDict d) = Inr r" "br_status r = ''pass''" "br_claim r = Some claim"
  shows "check_bundle H (PDict (dset ''claim'' (PDict claim) d)) = Inr r"
proof -
  let ?b = "PDict (dset ''claim'' (PDict claim) d)"
  obtain claim' where p: "get_none (PDict d) ''bundle/schema-version'' = Inr (PStr bundle_schema_version)"
    "bundle_issues H (PDict d) = Inr []" "derive_claim H (PDict d) = Inr (Some claim')"
    "r = \<lparr>br_status = ''pass'', br_claim = Some claim', br_issues = []\<rparr>" by (rule pass_parts [OF assms(1,2)])
  obtain recon coverage plan ids supplied derived where n: "section_of (PDict d) ''reconciliation'' = Inr recon"
    "section_of (PDict d) ''coverage'' = Inr coverage" "section_of (PDict d) ''plan'' = Inr plan" "root_issues recon = Inr []"
    "environment_issues plan recon coverage = Inr []" "step_ids plan = Inr ids"
    "\<forall>k \<in> set receipt_keys. receipt_issues (PDict d) ids k = Inr []" by (rule no_issues [OF p(2)])
  obtain mode root env where "claim' = claim_core mode root env
      @ [(''claim/json-root'', PStr (H (json_compact (PDict (claim_core mode root env)))))]" by (rule derived_parts [OF p(3) n(1-3)])
  with p(4) assms(3) have claim: "claim = claim_core mode root env
      @ [(''claim/json-root'', PStr (H (json_compact (PDict (claim_core mode root env)))))]" by simp
  have "py_get claim ''claim/json-root'' = PStr (H (json_compact (PDict (claim_core mode root env))))"
    by (simp add: claim claim_core_def get_or_def)
  moreover have "truthy (PDict claim)" by (simp add: claim claim_core_def)
  ultimately have own: "claim_issues H (PDict claim) (Some claim) = Inr []"
    by (simp add: claim_issues_def supplied_items_def claim core_of_claim)
  have "mapE (receipt_issues ?b ids) [''validation-receipts'', ''capability-receipts'', ''execution-receipts''] = Inr [[], [], []]"
    using n(7) receipts_with_claim by (simp add: receipt_keys_def)
  then have "bundle_issues H ?b = Inr []"
    using n(1-6) p(3,4) assms(3) own by (simp add: bundle_issues_def sections_with_claim derive_with_claim)
  then show ?thesis using p assms(3) by (simp add: check_bundle_def sections_with_claim derive_with_claim)
qed

section \<open>Concrete bundles\<close>

definition demo_bundle :: "obj \<Rightarrow> obj" where
  "demo_bundle recon = [(''bundle/schema-version'', PStr bundle_schema_version),
     (''plan'', PDict [(''claim/mode'', PStr ''reproduce''), (''environment/root'', PStr ''e1''),
        (''steps'', PList [PDict [(''step/id'', PStr ''s1'')]])]),
     (''coverage'', PDict [(''coverage/complete?'', PBool True), (''environment/root'', PStr ''e2'')]),
     (''reconciliation'', PDict recon), (''execution-receipts'', PList [PDict [(''step/id'', PStr ''s1'')]])]"

definition demo_reconciliation :: obj where
  "demo_reconciliation = [(''reconciliation/status'', PStr ''pass''), (''reconciliation/root'', PStr ''r1'')]"

definition derived_demo :: obj where
  "derived_demo = claim_core (PStr ''reproduce'') (PStr ''r1'') (PStr ''e2'') @
     [(''claim/json-root'', PStr (json_compact (PDict (claim_core (PStr ''reproduce'') (PStr ''r1'') (PStr ''e2'')))))]"

text \<open>
  The roots of plan and coverage are compared only with the root of the reconciliation: when that has
  none, the environments \<open>e1\<close> and \<open>e2\<close> disagree in a passed bundle.
\<close>

lemma environment_disagreement_passes:
  "check_bundle (\<lambda>t. t) (PDict (demo_bundle demo_reconciliation))
     = Inr \<lparr>br_status = ''pass'', br_claim = Some derived_demo, br_issues = []\<rparr>"
  by code_simp

lemma passed_bundle_supported_witness:
  "\<exists>recon coverage plan mode root env supplied. sections_pass (PDict (demo_bundle demo_reconciliation)) recon coverage plan
    \<and> Some derived_demo = Some (claim_core mode root env @ [(''claim/json-root'', PStr (json_compact (PDict (claim_core mode root env))))])
    \<and> claim_class mode \<in> set (permitted_classes mode)
    \<and> (\<forall>k \<in> set receipt_keys. \<forall>rs. rows_of (PDict (demo_bundle demo_reconciliation)) k = Inr rs \<longrightarrow> (\<forall>x \<in> set rs. step_declared plan x))
    \<and> get_none (PDict (demo_bundle demo_reconciliation)) ''claim'' = Inr supplied \<and> supplied_matches (\<lambda>t. t) supplied (claim_core mode root env)"
  using passed_bundle_supported [OF environment_disagreement_passes] by simp

lemma derived_claim_accepted_witness:
  "check_bundle (\<lambda>t. t) (PDict (dset ''claim'' (PDict derived_demo) (demo_bundle demo_reconciliation)))
     = Inr \<lparr>br_status = ''pass'', br_claim = Some derived_demo, br_issues = []\<rparr>"
  by (rule derived_claim_accepted [OF environment_disagreement_passes]) simp_all

end
