(* ===== verification/Preflight.thy ===== *)
theory Preflight
  imports Run_Directory
begin

text \<open>
  The checks before a forensic run (\<^verbatim>\<open>scripts/forensic/preflight.py\<close>).  The record \<open>preflight_env\<close> holds
  what the checks take from outside: files, the JSON parser and the Clojure process that reads EDN, the
  version control, the clock.  A path is its text; \<open>pf_expand\<close> is \<^verbatim>\<open>Path(p).expanduser()\<close> and \<open>pf_resolve\<close> is
  \<^verbatim>\<open>Path(p).resolve()\<close>.
\<close>

record preflight_env =
  pf_expand :: "string \<Rightarrow> string"
  pf_resolve :: "string \<Rightarrow> string"
  pf_exists :: "string \<Rightarrow> bool"
  pf_listing :: "string \<Rightarrow> py_error + string list"
  pf_text :: "string \<Rightarrow> string + string"
  pf_json :: "string \<Rightarrow> pv option"
  pf_clojure :: "string \<Rightarrow> pv option"
  pf_commit :: "string option"
  pf_dirty :: bool
  pf_now :: string

section \<open>Reading\<close>

text \<open>
  JSON first, then EDN through the Clojure process; \<^verbatim>\<open>None\<close> where both fail, and for the document \<open>null\<close>.
\<close>

definition parse_edn_or_json :: "preflight_env \<Rightarrow> string \<Rightarrow> string option \<Rightarrow> pv" where
  "parse_edn_or_json E text hint =
     (case pf_json E text of
        Some v \<Rightarrow> v
      | None \<Rightarrow> (case hint of
          None \<Rightarrow> PNone
        | Some p \<Rightarrow> if p = [] then PNone else (case pf_clojure E p of None \<Rightarrow> PNone | Some v \<Rightarrow> v)))"

text \<open>\<^verbatim>\<open>_get_key\<close>: the first variant of the first key that the value has.\<close>

definition replace_slash :: "char \<Rightarrow> string \<Rightarrow> string" where
  "replace_slash c k = map (\<lambda>x. if x = CHR ''/'' then c else x) k"

definition key_variants :: "string \<Rightarrow> string list" where
  "key_variants k = [k, dropWhile (\<lambda>c. c = CHR '':'') k, replace_slash (CHR ''-'') k, replace_slash (CHR ''_'') k]"

fun first_item :: "pv \<Rightarrow> string list \<Rightarrow> ev_error + pv" where
  "first_item d [] = Inr PNone"
| "first_item d (k # ks) = bindE (has_item d k) (\<lambda>b. if b then item d k else first_item d ks)"

definition get_key :: "pv \<Rightarrow> string list \<Rightarrow> ev_error + pv" where
  "get_key d ks = first_item d (concat (map key_variants ks))"

definition get_key_dict :: "pv \<Rightarrow> string list \<Rightarrow> ev_error + pv" where
  "get_key_dict d ks = bindE (get_key d ks) (\<lambda>v. Inr (if truthy v then v else PDict []))"

section \<open>Checks\<close>

definition preflight_check :: "string \<Rightarrow> string \<Rightarrow> bool \<Rightarrow> string \<Rightarrow> run_check" where
  "preflight_check sev key ok msg =
     mk_rcheck key (if ok then ''pass'' else if sev = ''warning'' then ''warning'' else if sev = ''info'' then ''info'' else ''fail'') msg sev"

definition quote :: string where
  "quote = [CHR 0x27]"

definition check_run_request_declared :: "preflight_env \<Rightarrow> string \<Rightarrow> run_check" where
  "check_run_request_declared E path =
     (let p = pf_expand E path in
      if path = [] then preflight_check ''required'' ''run-request-declared'' False ''No run request path provided. Use --run-request <path>''
      else if \<not> pf_exists E p then preflight_check ''required'' ''run-request-declared'' False (''Run request not found at '' @ p)
      else preflight_check ''required'' ''run-request-declared'' True (''Run request found at '' @ p))"

text \<open>The body shared by the two checks of a document that must parse.\<close>

definition document_check :: "preflight_env \<Rightarrow> string \<Rightarrow> string \<Rightarrow> string \<Rightarrow> string \<Rightarrow> run_check" where
  "document_check E key label none_label path =
     (let p = pf_expand E path in
      if path = [] then preflight_check ''required'' key False (''Cannot validate: no '' @ none_label @ '' path'')
      else if \<not> pf_exists E p then preflight_check ''required'' key False (''Cannot validate: file not found at '' @ p)
      else case pf_text E p of
             Inl e \<Rightarrow> preflight_check ''required'' key False (label @ '' parse error: '' @ e)
           | Inr text \<Rightarrow>
               if parse_edn_or_json E text (Some p) = PNone
               then preflight_check ''required'' key False (label @ '' at '' @ p @ '' is not valid JSON/EDN'')
               else preflight_check ''required'' key True (label @ '' at '' @ p @ '' is valid''))"

definition check_run_request_valid :: "preflight_env \<Rightarrow> string \<Rightarrow> run_check" where
  "check_run_request_valid E path = document_check E ''run-request-valid'' ''Run request'' ''run request'' path"

definition check_registry_snapshot_present :: "preflight_env \<Rightarrow> string \<Rightarrow> run_check" where
  "check_registry_snapshot_present E path =
     (let p = pf_expand E path in
      if path = [] then preflight_check ''required'' ''registry-snapshot-present'' False ''No registry snapshot path provided''
      else if \<not> pf_exists E p then preflight_check ''required'' ''registry-snapshot-present'' False (''Registry snapshot not found at '' @ p)
      else preflight_check ''required'' ''registry-snapshot-present'' True (''Registry snapshot found at '' @ p))"

definition check_registry_snapshot_valid :: "preflight_env \<Rightarrow> string \<Rightarrow> run_check" where
  "check_registry_snapshot_valid E path = document_check E ''registry-snapshot-valid'' ''Registry snapshot'' ''registry snapshot'' path"

definition check_runner_identity :: "pv \<Rightarrow> ev_error + run_check" where
  "check_runner_identity request =
     (let key = ''runner-identity-present'' in
      if \<not> truthy request
      then Inr (preflight_check ''required'' key False ''Cannot check runner identity: no run request loaded'')
      else bindE (get_key_dict request [''runner-selection'', '':runner-selection'']) (\<lambda>sel.
           bindE (get_key sel [''mode'', '':mode'']) (\<lambda>mode.
           bindE (get_key sel [''runner-id'', '':runner-id'']) (\<lambda>rid.
             Inr (if mode \<noteq> PStr ''pinned''
                  then preflight_check ''required'' key False
                    (''Runner selection mode is '' @ quote @ py_str mode @ quote @ '', expected '' @ quote @ ''pinned'' @ quote)
                  else if \<not> truthy rid
                  then preflight_check ''required'' key False ''Runner selection is pinned but no runner-id specified''
                  else preflight_check ''required'' key True (''Runner identity: '' @ py_str rid @ '' (mode: '' @ py_str mode @ '')''))))))"

text \<open>
  The policy path: the explicit one, or the one the run request names.  \<^verbatim>\<open>Path\<close> of a value that is no
  string raises.
\<close>

definition policy_path_of :: "pv \<Rightarrow> string \<Rightarrow> ev_error + pv" where
  "policy_path_of request path =
     (if path = [] \<and> truthy request
      then bindE (get_key_dict request [''evidence-policy'', '':evidence-policy'']) (\<lambda>ep.
           get_key ep [''policy-path'', '':policy-path''])
      else Inr (PStr path))"

definition check_evidence_policy_present :: "preflight_env \<Rightarrow> pv \<Rightarrow> string \<Rightarrow> ev_error + run_check" where
  "check_evidence_policy_present E request path =
     (let key = ''evidence-policy-present'' in
      bindE (policy_path_of request path) (\<lambda>v.
      if \<not> truthy v
      then Inr (preflight_check ''required'' key False ''No evidence policy path provided or referenced in run request'')
      else case v of
        PStr s \<Rightarrow>
          let p = pf_expand E s in
          Inr (if \<not> pf_exists E p then preflight_check ''required'' key False (''Evidence policy not found at '' @ p)
               else case pf_text E p of
                      Inl e \<Rightarrow> preflight_check ''required'' key False (''Evidence policy error: '' @ e)
                    | Inr text \<Rightarrow>
                        if parse_edn_or_json E text (Some p) = PNone
                        then preflight_check ''required'' key False (''Evidence policy at '' @ p @ '' is not valid JSON/EDN'')
                        else preflight_check ''required'' key True (''Evidence policy found at '' @ p @ '' and valid''))
      | _ \<Rightarrow> Inl (Builtin TypeError)))"

definition check_output_directory_clean :: "preflight_env \<Rightarrow> string \<Rightarrow> ev_error + run_check" where
  "check_output_directory_clean E out =
     (let key = ''output-directory-clean''; p = pf_expand E out;
          clean = preflight_check ''required'' key True (''Output directory '' @ p @ '' is clean'') in
      if out = [] then Inr (preflight_check ''required'' key False ''No output directory specified'')
      else if \<not> pf_exists E p then Inr clean
      else case pf_listing E p of
             Inl e \<Rightarrow> Inl (Builtin e)
           | Inr names \<Rightarrow>
               Inr (if names \<noteq> [] then preflight_check ''required'' key False (''Output directory '' @ p @ '' exists and is not empty'')
                    else clean))"

text \<open>\<^verbatim>\<open>out.relative_to(repo)\<close> on absolute resolved paths: the parts of \<open>repo\<close> start those of \<open>out\<close>.\<close>

definition inside_tree :: "string \<Rightarrow> string \<Rightarrow> bool" where
  "inside_tree out repo \<longleftrightarrow> take (length (path_parts repo)) (path_parts out) = path_parts repo"

definition check_no_source_tree_writes :: "preflight_env \<Rightarrow> string \<Rightarrow> string \<Rightarrow> run_check" where
  "check_no_source_tree_writes E out_dir repo_root =
     (let key = ''no-source-tree-writes''; repo = pf_resolve E repo_root; out = pf_resolve E (pf_expand E out_dir) in
      if out_dir = [] then preflight_check ''required'' key False ''Cannot check: no output directory''
      else if inside_tree out repo
      then preflight_check ''required'' key False (''Output directory '' @ out @ '' is inside the repo tree '' @ repo)
      else preflight_check ''required'' key True (''Output directory '' @ out @ '' is outside the repo tree''))"

definition check_scenario_set_declared :: "pv \<Rightarrow> ev_error + run_check" where
  "check_scenario_set_declared request =
     (let key = ''scenario-set-declared'' in
      if \<not> truthy request then Inr (preflight_check ''required'' key False ''Cannot check: no run request loaded'')
      else bindE (get_key request [''suite/key'', '':suite/key'', ''key'']) (\<lambda>suite.
           bindE (get_key_dict request [''execution-policy'', '':execution-policy'']) (\<lambda>scenarios.
           bindE (get_key scenarios [''scenario-paths'', '':scenario-paths'']) (\<lambda>paths.
             Inr (if truthy suite \<or> truthy paths
                  then preflight_check ''required'' key True
                    (''Scenario set declared via suite '' @ quote @ py_str suite @ quote @ '' or explicit paths'')
                  else preflight_check ''warning'' key True ''No explicit suite key -- will use registry-default suite'')))))"

definition network_policy :: "pv \<Rightarrow> ev_error + pv" where
  "network_policy request =
     bindE (get_key request [''network-policy'', '':network-policy'']) (\<lambda>p.
     if p \<noteq> PNone then Inr p
     else bindE (get_key_dict request [''execution-policy'', '':execution-policy'']) (\<lambda>xp.
          if is_dict xp then get_key xp [''network-policy'', '':network-policy''] else Inr xp))"

definition check_external_network_declared :: "pv \<Rightarrow> ev_error + run_check" where
  "check_external_network_declared request =
     (let key = ''external-network-declared'' in
      if \<not> truthy request then Inr (preflight_check ''required'' key False ''Cannot check: no run request loaded'')
      else bindE (network_policy request) (\<lambda>p.
        Inr (if p = PStr ''allow'' \<or> p = PStr ''deny''
             then preflight_check ''required'' key True (''External network policy: '' @ py_str p)
             else preflight_check ''required'' key False (''External network policy not declared (got: '' @ py_str p @ '')''))))"

definition check_source_snapshot :: "preflight_env \<Rightarrow> run_check" where
  "check_source_snapshot E =
     (case pf_commit E of
        Some c \<Rightarrow>
          if c = [] then preflight_check ''warning'' ''source-snapshot-recorded'' False ''Could not determine git commit''
          else preflight_check ''warning'' ''source-snapshot-recorded'' True
                 (''Git commit: '' @ c @ (if pf_dirty E then '' (dirty)'' else '' (clean)''))
      | None \<Rightarrow> preflight_check ''warning'' ''source-snapshot-recorded'' False ''Could not determine git commit'')"

definition check_canonical_hash_values_supported :: run_check where
  "check_canonical_hash_values_supported =
     preflight_check ''info'' ''canonical-hash-values-supported'' True ''Hash algorithm check: SHA-256 (default) supported''"

definition check_runner_version :: run_check where
  "check_runner_version = preflight_check ''info'' ''runner-version'' True ''Runner: forensic-preflight.py v0.1.0''"

definition policy_id :: "pv \<Rightarrow> string list \<Rightarrow> ev_error + string" where
  "policy_id request ks =
     bindE (get_key_dict request ks) (\<lambda>p.
     bindE (get_key p [''policy-id'', '':policy-id'']) (\<lambda>i. Inr (if truthy i then py_str i else ''unknown'')))"

definition check_policy_versions :: "pv \<Rightarrow> ev_error + run_check" where
  "check_policy_versions request =
     (if \<not> truthy request
      then Inr (preflight_check ''info'' ''policy-versions'' True ''Policy versions: not checked (no run request)'')
      else bindE (policy_id request [''evidence-policy'', '':evidence-policy'']) (\<lambda>ep.
           bindE (policy_id request [''execution-policy'', '':execution-policy'']) (\<lambda>xp.
             Inr (preflight_check ''info'' ''policy-versions'' True (''Evidence policy: '' @ ep @ '', Execution policy: '' @ xp)))))"

section \<open>The report\<close>

record preflight_report =
  pr_timestamp :: string
  pr_status :: string
  pr_checks :: "run_check list"
  pr_total :: nat
  pr_pass :: nat
  pr_fail :: nat
  pr_warning :: nat
  pr_info :: nat

definition summary_pv :: "preflight_report \<Rightarrow> pv" where
  "summary_pv r = PDict
     [(''total'', PInt (int (pr_total r))), (''pass'', PInt (int (pr_pass r))), (''fail'', PInt (int (pr_fail r))),
      (''warning'', PInt (int (pr_warning r))), (''info'', PInt (int (pr_info r)))]"

definition preflight_report_pv :: "preflight_report \<Rightarrow> obj" where
  "preflight_report_pv r =
     [(''preflight/schema-version'', PStr ''forensic-preflight.v1''), (''preflight/timestamp'', PStr (pr_timestamp r)),
      (''preflight/runner-id'', PStr ''forensic-preflight.py''), (''preflight/status'', PStr (pr_status r)),
      (''preflight/checks'', PList (map check_pv (pr_checks r))), (''preflight/summary'', summary_pv r)]"

text \<open>\<^verbatim>\<open>run_request\<close>: absent, \<open>{}\<close> when it cannot be read or is falsy, or its value.\<close>

definition loaded_request :: "preflight_env \<Rightarrow> string \<Rightarrow> pv" where
  "loaded_request E path =
     (let p = pf_expand E path in
      if path = [] \<or> \<not> pf_exists E p then PNone
      else case pf_text E p of
             Inl e \<Rightarrow> PDict []
           | Inr text \<Rightarrow> (let v = parse_edn_or_json E text (Some p) in if truthy v then v else PDict []))"

definition preflight_checks :: "preflight_env \<Rightarrow> string \<Rightarrow> string \<Rightarrow> string \<Rightarrow> string \<Rightarrow> string \<Rightarrow> ev_error + run_check list" where
  "preflight_checks E request_path registry_path policy_path out_dir repo_root =
     (let request = loaded_request E request_path in
      mapE id
        [Inr (check_run_request_declared E request_path), Inr (check_run_request_valid E request_path),
         Inr (check_registry_snapshot_present E registry_path), Inr (check_registry_snapshot_valid E registry_path),
         check_runner_identity request, check_evidence_policy_present E request policy_path,
         check_output_directory_clean E out_dir, Inr (check_no_source_tree_writes E out_dir repo_root),
         check_scenario_set_declared request, check_external_network_declared request,
         Inr (check_source_snapshot E), Inr check_canonical_hash_values_supported, Inr check_runner_version,
         check_policy_versions request])"

definition preflight_status :: "run_check list \<Rightarrow> string" where
  "preflight_status cs =
     (if list_ex bad cs then ''fail'' else if list_ex (\<lambda>c. ck_status c = ''warning'') cs then ''pass-with-warnings'' else ''pass'')"

definition run_preflight :: "preflight_env \<Rightarrow> string \<Rightarrow> string \<Rightarrow> string \<Rightarrow> string \<Rightarrow> string \<Rightarrow> ev_error + preflight_report" where
  "run_preflight E request_path registry_path policy_path out_dir repo_root =
     bindE (preflight_checks E request_path registry_path policy_path out_dir repo_root) (\<lambda>cs.
       Inr \<lparr>pr_timestamp = pf_now E, pr_status = preflight_status cs, pr_checks = cs, pr_total = length cs,
            pr_pass = length (filter (\<lambda>c. ck_status c = ''pass'') cs), pr_fail = length (filter bad cs),
            pr_warning = length (filter (\<lambda>c. ck_status c = ''warning'') cs),
            pr_info = length (filter (\<lambda>c. ck_status c = ''info'') cs)\<rparr>)"

definition preflight_exit_code :: "preflight_report \<Rightarrow> nat" where
  "preflight_exit_code r = (if pr_status r = ''pass'' \<or> pr_status r = ''pass-with-warnings'' then 0 else 1)"

end
