(* ===== verification/Preflight_Theorems.thy ===== *)
theory Preflight_Theorems
  imports Preflight
begin

text \<open>What a preflight with exit code 0 establishes about the inputs of a run and its output directory.\<close>

lemma bad_preflight [simp]: "bad (preflight_check sev key ok msg) \<longleftrightarrow> sev = ''required'' \<and> \<not> ok"
  by (simp add: preflight_check_def)

definition readable :: "preflight_env \<Rightarrow> string \<Rightarrow> bool" where
  "readable E p \<longleftrightarrow> pf_exists E p \<and> (\<exists>text. pf_text E p = Inr text \<and> parse_edn_or_json E text (Some p) \<noteq> PNone)"

definition pinned_runner :: "pv \<Rightarrow> bool" where
  "pinned_runner request \<longleftrightarrow> (\<exists>sel rid. get_key_dict request [''runner-selection'', '':runner-selection''] = Inr sel
     \<and> get_key sel [''mode'', '':mode''] = Inr (PStr ''pinned'')
     \<and> get_key sel [''runner-id'', '':runner-id''] = Inr rid \<and> truthy rid)"

lemma document_ok: "\<not> bad (document_check E key label none_label path) \<Longrightarrow> path \<noteq> [] \<and> readable E (pf_expand E path)"
  by (auto simp: document_check_def readable_def Let_def split: if_splits sum.splits)

lemma runner_ok: "check_runner_identity request = Inr c \<Longrightarrow> \<not> bad c \<Longrightarrow> truthy request \<and> pinned_runner request"
  by (auto simp: check_runner_identity_def pinned_runner_def bindE_Inr_iff Let_def split: if_splits)

lemma policy_ok:
  assumes "check_evidence_policy_present E request path = Inr c" "\<not> bad c"
  shows "\<exists>s. policy_path_of request path = Inr (PStr s) \<and> readable E (pf_expand E s)"
proof -
  from assms(1) obtain v where v: "policy_path_of request path = Inr v"
    and body: "(if \<not> truthy v
      then Inr (preflight_check ''required'' ''evidence-policy-present'' False ''No evidence policy path provided or referenced in run request'')
      else case v of
        PStr s \<Rightarrow>
          let p = pf_expand E s in
          Inr (if \<not> pf_exists E p then preflight_check ''required'' ''evidence-policy-present'' False (''Evidence policy not found at '' @ p)
               else case pf_text E p of
                      Inl e \<Rightarrow> preflight_check ''required'' ''evidence-policy-present'' False (''Evidence policy error: '' @ e)
                    | Inr text \<Rightarrow>
                        if parse_edn_or_json E text (Some p) = PNone
                        then preflight_check ''required'' ''evidence-policy-present'' False (''Evidence policy at '' @ p @ '' is not valid JSON/EDN'')
                        else preflight_check ''required'' ''evidence-policy-present'' True (''Evidence policy found at '' @ p @ '' and valid''))
      | _ \<Rightarrow> Inl (Builtin TypeError)) = Inr c"
    unfolding check_evidence_policy_present_def Let_def bindE_Inr_iff by blast
  show ?thesis
  proof (cases v)
    case (PStr s)
    have "readable E (pf_expand E s)"
      using body assms(2) by (auto simp: PStr readable_def Let_def split: if_splits sum.splits)
    with v PStr show ?thesis by blast
  qed (use body assms(2) in \<open>auto split: if_splits\<close>)
qed

lemma output_ok:
  "check_output_directory_clean E out = Inr c \<Longrightarrow> \<not> bad c \<Longrightarrow>
   out \<noteq> [] \<and> (\<not> pf_exists E (pf_expand E out) \<or> pf_listing E (pf_expand E out) = Inr [])"
  by (auto simp: check_output_directory_clean_def Let_def split: if_splits sum.splits)

lemma outside_ok: "\<not> bad (check_no_source_tree_writes E out repo) \<Longrightarrow> \<not> inside_tree (pf_resolve E (pf_expand E out)) (pf_resolve E repo)"
  by (auto simp: check_no_source_tree_writes_def Let_def split: if_splits)

lemma network_ok:
  "check_external_network_declared request = Inr c \<Longrightarrow> \<not> bad c \<Longrightarrow>
   network_policy request = Inr (PStr ''allow'') \<or> network_policy request = Inr (PStr ''deny'')"
proof -
  assume c: "check_external_network_declared request = Inr c" "\<not> bad c"
  then obtain p where p: "network_policy request = Inr p"
    and body: "c = (if p = PStr ''allow'' \<or> p = PStr ''deny''
             then preflight_check ''required'' ''external-network-declared'' True (''External network policy: '' @ py_str p)
             else preflight_check ''required'' ''external-network-declared'' False (''External network policy not declared (got: '' @ py_str p @ '')''))"
    by (auto simp: check_external_network_declared_def bindE_Inr_iff Let_def split: if_split_asm)
  have "p = PStr ''allow'' \<or> p = PStr ''deny''"
    using c(2) unfolding body by (cases "p = PStr ''allow'' \<or> p = PStr ''deny''") simp_all
  with p show ?thesis by auto
qed

lemma preflight_none_bad:
  assumes "run_preflight E rq reg pol out repo = Inr r" "preflight_exit_code r = 0"
  obtains cs where "preflight_checks E rq reg pol out repo = Inr cs" "pr_checks r = cs" "\<forall>c \<in> set cs. \<not> bad c"
proof -
  from assms(1) obtain cs where cs: "preflight_checks E rq reg pol out repo = Inr cs" "pr_checks r = cs" "pr_status r = preflight_status cs"
    by (auto simp: run_preflight_def bindE_Inr_iff)
  from assms(2) cs(3) have "\<not> list_ex bad cs" by (auto simp: preflight_exit_code_def preflight_status_def)
  with cs that show thesis by (auto simp: list_ex_iff)
qed

text \<open>The checks by name.\<close>

lemma preflight_parts:
  assumes "preflight_checks E rq reg pol out repo = Inr cs"
  obtains identity policy clean scenario network versions where
    "check_runner_identity (loaded_request E rq) = Inr identity"
    "check_evidence_policy_present E (loaded_request E rq) pol = Inr policy"
    "check_output_directory_clean E out = Inr clean" "check_scenario_set_declared (loaded_request E rq) = Inr scenario"
    "check_external_network_declared (loaded_request E rq) = Inr network" "check_policy_versions (loaded_request E rq) = Inr versions"
    "cs = [check_run_request_declared E rq, check_run_request_valid E rq, check_registry_snapshot_present E reg,
      check_registry_snapshot_valid E reg, identity, policy, clean, check_no_source_tree_writes E out repo, scenario, network,
      check_source_snapshot E, check_canonical_hash_values_supported, check_runner_version, versions]"
  using assms unfolding preflight_checks_def Let_def by (auto simp: bindE_Inr_iff)

text \<open>
  C34: a preflight with exit code 0 means the run can start.  The run request and the registry snapshot are
  documents that parse, the runner is pinned by id, the evidence policy named on the command line or in
  the request parses, the network policy is declared, and the output directory is empty or absent and
  outside the source tree.
\<close>

theorem preflight_ready:
  assumes "run_preflight E rq reg pol out repo = Inr r" "preflight_exit_code r = 0"
  shows "rq \<noteq> [] \<and> readable E (pf_expand E rq) \<and> reg \<noteq> [] \<and> readable E (pf_expand E reg)
    \<and> pinned_runner (loaded_request E rq)
    \<and> (\<exists>s. policy_path_of (loaded_request E rq) pol = Inr (PStr s) \<and> readable E (pf_expand E s))
    \<and> (network_policy (loaded_request E rq) = Inr (PStr ''allow'') \<or> network_policy (loaded_request E rq) = Inr (PStr ''deny''))
    \<and> out \<noteq> [] \<and> (\<not> pf_exists E (pf_expand E out) \<or> pf_listing E (pf_expand E out) = Inr [])
    \<and> \<not> inside_tree (pf_resolve E (pf_expand E out)) (pf_resolve E repo)"
proof -
  obtain cs where cs: "preflight_checks E rq reg pol out repo = Inr cs" "\<forall>c \<in> set cs. \<not> bad c"
    by (rule preflight_none_bad [OF assms]) simp
  obtain identity policy clean scenario network versions where parts:
    "check_runner_identity (loaded_request E rq) = Inr identity"
    "check_evidence_policy_present E (loaded_request E rq) pol = Inr policy"
    "check_output_directory_clean E out = Inr clean"
    "check_external_network_declared (loaded_request E rq) = Inr network"
    and all: "cs = [check_run_request_declared E rq, check_run_request_valid E rq, check_registry_snapshot_present E reg,
      check_registry_snapshot_valid E reg, identity, policy, clean, check_no_source_tree_writes E out repo, scenario, network,
      check_source_snapshot E, check_canonical_hash_values_supported, check_runner_version, versions]"
    by (rule preflight_parts [OF cs(1)])
  have clean: "\<not> bad (check_run_request_valid E rq)" "\<not> bad (check_registry_snapshot_valid E reg)" "\<not> bad identity" "\<not> bad policy"
    "\<not> bad clean" "\<not> bad (check_no_source_tree_writes E out repo)" "\<not> bad network"
    using cs(2) by (simp_all add: all)
  show ?thesis
    using document_ok [OF clean(1) [unfolded check_run_request_valid_def]] document_ok [OF clean(2) [unfolded check_registry_snapshot_valid_def]]
      runner_ok [OF parts(1) clean(3)] policy_ok [OF parts(2) clean(4)] output_ok [OF parts(3) clean(5)] outside_ok [OF clean(6)]
      network_ok [OF parts(4) clean(7)] by simp
qed

section \<open>Concrete environments\<close>

definition demo_request :: pv where
  "demo_request = PDict [(''runner-selection'', PDict [(''mode'', PStr ''pinned''), ('':runner-id'', PStr ''r'')]),
     (''network-policy'', PStr ''deny'')]"

definition demo_preflight :: "pv \<Rightarrow> preflight_env" where
  "demo_preflight request = \<lparr>pf_expand = id, pf_resolve = id, pf_exists = (\<lambda>p. p \<noteq> ''/out''), pf_listing = (\<lambda>_. Inr []),
     pf_text = Inr, pf_json = (\<lambda>t. Some (if t = ''/rq'' then request else PDict [])), pf_clojure = (\<lambda>_. None),
     pf_commit = None, pf_dirty = False, pf_now = ''now''\<rparr>"

lemma demo_preflight_passes:
  "\<exists>r. run_preflight (demo_preflight demo_request) ''/rq'' ''/reg'' ''/pol'' ''/out'' ''/repo'' = Inr r \<and> preflight_exit_code r = 0"
proof -
  have "(case run_preflight (demo_preflight demo_request) ''/rq'' ''/reg'' ''/pol'' ''/out'' ''/repo'' of
      Inl _ \<Rightarrow> False | Inr r \<Rightarrow> preflight_exit_code r = 0)" by code_simp
  then show ?thesis by (simp split: sum.splits)
qed

text \<open>A run request that is a number is valid for the check of the document and raises in the next one.\<close>

lemma numeric_request_raises:
  "run_preflight (demo_preflight (PInt 5)) ''/rq'' ''/reg'' ''/pol'' ''/out'' ''/repo'' = Inl (Builtin TypeError)"
  by code_simp

lemma preflight_ready_witness:
  "''/rq'' \<noteq> [] \<and> readable (demo_preflight demo_request) (pf_expand (demo_preflight demo_request) ''/rq'')
    \<and> ''/reg'' \<noteq> [] \<and> readable (demo_preflight demo_request) (pf_expand (demo_preflight demo_request) ''/reg'')
    \<and> pinned_runner (loaded_request (demo_preflight demo_request) ''/rq'')
    \<and> (\<exists>s. policy_path_of (loaded_request (demo_preflight demo_request) ''/rq'') ''/pol'' = Inr (PStr s)
        \<and> readable (demo_preflight demo_request) (pf_expand (demo_preflight demo_request) s))
    \<and> (network_policy (loaded_request (demo_preflight demo_request) ''/rq'') = Inr (PStr ''allow'')
        \<or> network_policy (loaded_request (demo_preflight demo_request) ''/rq'') = Inr (PStr ''deny''))
    \<and> \<not> inside_tree (pf_resolve (demo_preflight demo_request) (pf_expand (demo_preflight demo_request) ''/out'')) (pf_resolve (demo_preflight demo_request) ''/repo'')"
proof -
  obtain r where "run_preflight (demo_preflight demo_request) ''/rq'' ''/reg'' ''/pol'' ''/out'' ''/repo'' = Inr r" "preflight_exit_code r = 0"
    using demo_preflight_passes by blast
  from preflight_ready [OF this] show ?thesis by (elim conjE) (intro conjI; assumption)
qed

end
