(* ===== verification/Isolation_Checks.thy ===== *)
theory Isolation_Checks
  imports Run_Directory
begin

text \<open>
  The isolation checks that a forensic run records (\<^verbatim>\<open>scripts/forensic/isolation_checks.py\<close>).  What the
  operating system answers, and the texts of its exceptions, are the fields of \<open>isolation_env\<close>.
\<close>

record isolation_env =
  io_evidence_user :: string
  io_workspace :: string
  io_uid :: "string + nat"
  io_user_name :: "nat \<Rightarrow> string + string"
  io_ptrace :: "(string + string) option"
  io_pid :: nat
  io_proc_status :: "string + string"
  io_path_exists :: "string \<Rightarrow> string + bool"
  io_writable :: "string \<Rightarrow> bool"

record iso_check =
  ic_check :: string
  ic_status :: string
  ic_detail :: string
  ic_expected :: pv
  ic_actual :: pv

definition iso_pv :: "iso_check \<Rightarrow> pv" where
  "iso_pv c = PDict [(''check'', PStr (ic_check c)), (''status'', PStr (ic_status c)), (''detail'', PStr (ic_detail c)),
     (''expected'', ic_expected c), (''actual'', ic_actual c)]"

definition iso :: "string \<Rightarrow> string \<Rightarrow> string \<Rightarrow> pv \<Rightarrow> pv \<Rightarrow> iso_check" where
  "iso name st text expected actual = \<lparr>ic_check = name, ic_status = st, ic_detail = text, ic_expected = expected, ic_actual = actual\<rparr>"

definition check_uid :: "isolation_env \<Rightarrow> string \<Rightarrow> iso_check" where
  "check_uid E user =
     (let expected = (if user = [] then io_evidence_user E else user) in
      if expected = [] then iso ''uid'' ''skip'' ''No expected user configured (set PRF_EVIDENCE_USER)'' PNone PNone
      else case io_uid E of
             Inl e \<Rightarrow> iso ''uid'' ''error'' e (PStr expected) PNone
           | Inr uid \<Rightarrow> (case io_user_name E uid of
               Inl e \<Rightarrow> iso ''uid'' ''error'' e (PStr expected) PNone
             | Inr actual \<Rightarrow>
                 if actual \<noteq> expected
                 then iso ''uid'' ''fail'' (''uid='' @ nat_str uid @ '' ('' @ actual @ ''), expected '' @ expected) (PStr expected) (PStr actual)
                 else iso ''uid'' ''pass'' (''uid='' @ nat_str uid @ '' ('' @ actual @ '')'') (PStr expected) (PStr actual)))"

definition check_ptrace_scope :: "isolation_env \<Rightarrow> iso_check" where
  "check_ptrace_scope E =
     (case io_ptrace E of
        None \<Rightarrow> iso ''ptrace-scope'' ''skip'' ''/proc/sys/kernel/yama/ptrace_scope not found (YAMA LSM may not be enabled)'' (PInt 3) PNone
      | Some (Inl e) \<Rightarrow> iso ''ptrace-scope'' ''error'' e (PInt 3) PNone
      | Some (Inr text) \<Rightarrow> (case int_text 10 (strip text) of
          None \<Rightarrow> iso ''ptrace-scope'' ''error'' (''invalid literal for int() with base 10: '' @ repr_str (strip text)) (PInt 3) PNone
        | Some i \<Rightarrow>
            if i < 3 then iso ''ptrace-scope'' ''fail'' (''ptrace_scope='' @ int_str i @ '', expected >= 3'') (PInt 3) (PInt i)
            else iso ''ptrace-scope'' ''pass'' (''ptrace_scope='' @ int_str i) (PInt 3) (PInt i)))"

definition check_proc_isolation :: "isolation_env \<Rightarrow> iso_check" where
  "check_proc_isolation E =
     (case io_proc_status E of
        Inl e \<Rightarrow> iso ''proc-isolation'' ''fail'' (''Cannot access /proc/'' @ nat_str (io_pid E) @ ''/status: '' @ e) (PBool True) (PBool False)
      | Inr text \<Rightarrow>
          if \<not> contains ''Name'' text
          then iso ''proc-isolation'' ''fail'' ''/proc/self/status missing expected fields'' (PBool True) (PBool False)
          else iso ''proc-isolation'' ''pass'' (''/proc (pid='' @ nat_str (io_pid E) @ '') accessible, Name field present'') (PBool True) (PBool True))"

definition check_fs_access :: "isolation_env \<Rightarrow> string \<Rightarrow> iso_check" where
  "check_fs_access E target0 =
     (let target = (if target0 = [] then io_workspace E else target0) in
      if target = [] then iso ''fs-access'' ''skip'' ''No workspace path configured (set PRF_EVIDENCE_WORKSPACE)'' PNone PNone
      else case io_path_exists E target of
             Inl e \<Rightarrow> iso ''fs-access'' ''error'' e (PBool True) (PBool False)
           | Inr False \<Rightarrow> iso ''fs-access'' ''skip'' (''Target path '' @ target @ '' does not exist'') (PBool True) (PBool False)
           | Inr True \<Rightarrow>
               if io_writable E target then iso ''fs-access'' ''pass'' (''Write access to '' @ target) (PBool True) (PBool True)
               else iso ''fs-access'' ''fail'' (''No write access to '' @ target) (PBool True) (PBool False))"

definition check_privileges :: "isolation_env \<Rightarrow> iso_check" where
  "check_privileges E =
     (case io_uid E of
        Inl e \<Rightarrow> iso ''privileges'' ''error'' e (PStr ''non-root'') PNone
      | Inr uid \<Rightarrow>
          if uid = 0 then iso ''privileges'' ''fail'' ''Running as root (uid=0) -- isolation broken'' (PStr ''non-root'') (PStr ''root'')
          else iso ''privileges'' ''pass'' (''Not root (uid='' @ nat_str uid @ '')'') (PStr ''non-root'') (PInt (int uid)))"

definition all_pass :: "iso_check list \<Rightarrow> bool" where
  "all_pass cs \<longleftrightarrow> list_all (\<lambda>c. ic_status c = ''pass'') cs"

definition compute_isolation_grade :: "string \<Rightarrow> iso_check list \<Rightarrow> string" where
  "compute_isolation_grade mode cs =
     (if mode = ''private-tmpfs'' then if all_pass cs then ''full'' else ''good''
      else if mode = ''shared-filesystem'' then if all_pass cs then ''partial'' else ''basic''
      else ''unknown'')"

definition run_isolation_checks :: "isolation_env \<Rightarrow> string \<Rightarrow> string \<Rightarrow> string \<Rightarrow> obj" where
  "run_isolation_checks E user target mode =
     (let cs = [check_uid E user, check_ptrace_scope E, check_proc_isolation E, check_fs_access E target, check_privileges E] in
      [(''isolation/checks'', PList (map iso_pv cs)), (''isolation/all-pass'', PBool (all_pass cs)),
       (''isolation/grade'', PStr (compute_isolation_grade mode cs)), (''isolation/mode'', PStr mode)])"

end
