(* ===== verification/Source_Hash.thy ===== *)
theory Source_Hash
  imports Mailbox_Store Py_Read
begin

text \<open>
  The hash of the source tree (\<^verbatim>\<open>scripts/forensic/source_hash.py\<close>): the SHA-256 of one line
  \<open>path:hash\<close> for every regular file below the source roots, in the order of the paths.

  A tree is its regular files with their bytes, each as the character of that code, and its directories;
  paths are relative to the repository, without \<open>.\<close> and doubled slashes.
\<close>

record source_tree =
  st_files :: "(string \<times> string) list"
  st_dirs :: "string list"

definition default_source_roots :: "string list" where
  "default_source_roots = [''src'', ''yield_runtime_src'', ''protocols_src'', ''extensions'']"

text \<open>The raw setting: absent, one text with commas, or the parts of an iterable.\<close>

datatype raw_roots = NoRoots | CommaRoots string | ListedRoots "string list"

definition normalize_source_roots :: "raw_roots \<Rightarrow> string list" where
  "normalize_source_roots raw =
     (case raw of
        NoRoots \<Rightarrow> default_source_roots
      | CommaRoots s \<Rightarrow>
          (let rs = filter (\<lambda>r. r \<noteq> []) (map strip (split_on (CHR '','') s)) in if rs = [] then default_source_roots else rs)
      | ListedRoots xs \<Rightarrow>
          (let rs = filter (\<lambda>r. r \<noteq> []) (map strip xs) in if rs = [] then default_source_roots else rs))"

definition below :: "string \<Rightarrow> string \<Rightarrow> bool" where
  "below root p \<longleftrightarrow> path_parts root \<noteq> path_parts p \<and> take (length (path_parts root)) (path_parts p) = path_parts root"

definition names_file :: "source_tree \<Rightarrow> string \<Rightarrow> bool" where
  "names_file T root \<longleftrightarrow> list_ex (\<lambda>f. path_parts (fst f) = path_parts root) (st_files T)"

definition names_dir :: "source_tree \<Rightarrow> string \<Rightarrow> bool" where
  "names_dir T root \<longleftrightarrow> path_parts root = [] \<or> list_ex (\<lambda>d. path_parts d = path_parts root) (st_dirs T)"

definition included_source_roots :: "source_tree \<Rightarrow> string list \<Rightarrow> string list" where
  "included_source_roots T roots = filter (\<lambda>r. names_file T r \<or> names_dir T r) roots"

definition iter_regular_files :: "source_tree \<Rightarrow> string list \<Rightarrow> (string \<times> string) list" where
  "iter_regular_files T roots =
     sort_key fst (concat (map (\<lambda>root.
       if names_file T root then filter (\<lambda>f. path_parts (fst f) = path_parts root) (st_files T)
       else if names_dir T root then filter (\<lambda>f. below root (fst f)) (st_files T)
       else []) (included_source_roots T roots)))"

definition source_line :: "(string \<Rightarrow> string) \<Rightarrow> string \<times> string \<Rightarrow> string" where
  "source_line H f = fst f @ '':'' @ H (snd f)"

definition source_tree_lines :: "(string \<Rightarrow> string) \<Rightarrow> source_tree \<Rightarrow> string list \<Rightarrow> string list" where
  "source_tree_lines H T roots = map (source_line H) (iter_regular_files T roots)"

definition compute_source_tree_hash :: "(string \<Rightarrow> string) \<Rightarrow> source_tree \<Rightarrow> raw_roots \<Rightarrow> string \<times> string list" where
  "compute_source_tree_hash H T raw =
     (let included = included_source_roots T (normalize_source_roots raw)
      in (H (join newline (source_tree_lines H T included)), included))"

definition compute_source_byte_size :: "source_tree \<Rightarrow> string list \<Rightarrow> nat" where
  "compute_source_byte_size T roots = sum_list (map (\<lambda>f. length (snd f)) (iter_regular_files T roots))"

section \<open>The hash commits to the files\<close>

text \<open>The texts hashed for one tree: the text of all lines, and the bytes of every file.\<close>

definition hashed_texts :: "(string \<Rightarrow> string) \<Rightarrow> source_tree \<Rightarrow> string list \<Rightarrow> string list" where
  "hashed_texts H T roots = join newline (source_tree_lines H T roots) # map snd (iter_regular_files T roots)"

definition collision_among :: "(string \<Rightarrow> string) \<Rightarrow> string list \<Rightarrow> bool" where
  "collision_among H xs \<longleftrightarrow> list_ex (\<lambda>a. list_ex (\<lambda>b. a \<noteq> b \<and> H a = H b) xs) xs"

lemma no_collision_among:
  "\<not> collision_among H xs \<Longrightarrow> a \<in> set xs \<Longrightarrow> b \<in> set xs \<Longrightarrow> H a = H b \<Longrightarrow> a = b"
  by (auto simp: collision_among_def list_ex_iff)

definition plain_lines :: "string list \<Rightarrow> bool" where
  "plain_lines ls \<longleftrightarrow> list_all (\<lambda>l. l \<noteq> [] \<and> CHR 0x0A \<notin> set l) ls"

lemma join_lines_head:
  "plain_lines (l # ls) \<Longrightarrow> takeWhile (\<lambda>c. c \<noteq> CHR 0x0A) (join newline (l # ls)) = l"
  by (cases ls) (auto simp: plain_lines_def newline_def takeWhile_append)

lemma join_lines_inject:
  "join newline ls = join newline ms \<Longrightarrow> plain_lines ls \<Longrightarrow> plain_lines ms \<Longrightarrow> ls = ms"
proof (induction ls arbitrary: ms)
  case Nil
  then show ?case by (cases ms; cases "tl ms") (auto simp: plain_lines_def)
next
  case (Cons l ls)
  then obtain m ms' where ms: "ms = m # ms'"
    by (cases ms) (auto simp: plain_lines_def, metis join.simps append_is_Nil_conv list.exhaust)
  have "l = m" using join_lines_head Cons.prems by (metis ms)
  moreover have "join newline ls = join newline ms'"
    using Cons.prems(1) \<open>l = m\<close> by (cases ls; cases ms') (auto simp: ms newline_def)
  ultimately show ?case using Cons.IH [of ms'] Cons.prems(2,3) by (simp add: ms plain_lines_def)
qed

text \<open>A hash is hexadecimal text, so the last colon of a line ends its path.\<close>

definition hex_hash :: "(string \<Rightarrow> string) \<Rightarrow> bool" where
  "hex_hash H \<longleftrightarrow> (\<forall>t. length (H t) = 64 \<and> CHR 0x0A \<notin> set (H t))"

lemma source_line_inject:
  assumes "hex_hash H" "source_line H f = source_line H g"
  shows "fst f = fst g \<and> H (snd f) = H (snd g)"
proof -
  have "length (fst f) = length (fst g)" using assms arg_cong [OF assms(2), of length] by (simp add: source_line_def hex_hash_def)
  with assms(2) show ?thesis by (simp add: source_line_def)
qed

lemma equal_lines_files:
  assumes "hex_hash H" "\<not> collision_among H xs"
  shows "map (source_line H) fs = map (source_line H) gs \<Longrightarrow> snd ` set fs \<subseteq> set xs \<Longrightarrow> snd ` set gs \<subseteq> set xs \<Longrightarrow> fs = gs"
proof (induction fs arbitrary: gs)
  case (Cons f fs)
  then obtain g gs' where gs: "gs = g # gs'" "source_line H f = source_line H g" by (cases gs) auto
  from source_line_inject [OF assms(1) gs(2)] have fg: "fst f = fst g" "H (snd f) = H (snd g)" by auto
  have "snd f \<in> set xs" "snd g \<in> set xs" using Cons.prems(2,3) by (auto simp: gs(1))
  from no_collision_among [OF assms(2) this fg(2)] fg(1) have "f = g" by (simp add: prod_eq_iff)
  with Cons gs show ?case by simp
qed simp

definition clean_paths :: "source_tree \<Rightarrow> bool" where
  "clean_paths T \<longleftrightarrow> list_all (\<lambda>f. CHR 0x0A \<notin> set (fst f)) (st_files T)"

lemma iter_files_sub: "set (iter_regular_files T roots) \<subseteq> set (st_files T)"
  by (auto simp: iter_regular_files_def split: if_splits)

text \<open>
  C37: the source hash commits to the sources.  Two trees with the same source hash, whose file names
  contain no line feed, have the same files below their source roots, path by path and byte by byte --
  unless two different ones of the texts that were hashed for these two trees have the same hash.
\<close>

theorem source_hash_commits:
  assumes "compute_source_tree_hash H T raw = (h, rs)" "compute_source_tree_hash H U raw' = (h, us)"
    and "hex_hash H" "clean_paths T" "clean_paths U"
  shows "collision_among H (hashed_texts H T rs @ hashed_texts H U us) \<or> iter_regular_files T rs = iter_regular_files U us"
proof (cases "collision_among H (hashed_texts H T rs @ hashed_texts H U us)")
  case False
  have plain: "plain_lines (source_tree_lines H V vs)" if "clean_paths V" for V vs
  proof -
    have "CHR 0x0A \<notin> set (fst f)" if "f \<in> set (iter_regular_files V vs)" for f
      using that iter_files_sub [of V vs] \<open>clean_paths V\<close> by (auto simp: clean_paths_def list_all_iff)
    then show ?thesis
      using assms(3) by (auto simp: plain_lines_def source_tree_lines_def list_all_iff source_line_def hex_hash_def)
  qed
  from assms(1,2) have same: "H (join newline (source_tree_lines H T rs)) = H (join newline (source_tree_lines H U us))"
    by (auto simp: compute_source_tree_hash_def Let_def)
  have "join newline (source_tree_lines H T rs) \<in> set (hashed_texts H T rs @ hashed_texts H U us)"
    "join newline (source_tree_lines H U us) \<in> set (hashed_texts H T rs @ hashed_texts H U us)"
    by (simp_all add: hashed_texts_def)
  from no_collision_among [OF False this same]
  have "join newline (source_tree_lines H T rs) = join newline (source_tree_lines H U us)" .
  from join_lines_inject [OF this plain [OF assms(4)] plain [OF assms(5)]]
  have "map (source_line H) (iter_regular_files T rs) = map (source_line H) (iter_regular_files U us)"
    by (simp add: source_tree_lines_def)
  moreover have "snd ` set (iter_regular_files T rs) \<subseteq> set (hashed_texts H T rs @ hashed_texts H U us)"
    "snd ` set (iter_regular_files U us) \<subseteq> set (hashed_texts H T rs @ hashed_texts H U us)"
    by (auto simp: hashed_texts_def)
  ultimately have "iter_regular_files T rs = iter_regular_files U us"
    by (rule equal_lines_files [OF assms(3) False])
  then show ?thesis ..
qed simp

text \<open>Without the condition on names there is no commitment: one file can stand for two.\<close>

definition pad64 :: "string \<Rightarrow> string" where
  "pad64 t = take 64 (map (\<lambda>c. if c = CHR 0x0A then CHR ''n'' else c) t @ replicate 64 (CHR ''0''))"

lemma pad64_hex: "hex_hash pad64"
  by (auto simp: hex_hash_def pad64_def dest!: in_set_takeD split: if_splits)

lemma newline_name_ambiguous:
  "compute_source_tree_hash pad64 \<lparr>st_files = [(''src/a'', ''1''), (''src/b'', ''2'')], st_dirs = [''src'']\<rparr> NoRoots
     = compute_source_tree_hash pad64 \<lparr>st_files = [(''src/a:'' @ pad64 ''1'' @ newline @ ''src/b'', ''2'')], st_dirs = [''src'']\<rparr> NoRoots
   \<and> join newline (source_tree_lines pad64 \<lparr>st_files = [(''src/a'', ''1''), (''src/b'', ''2'')], st_dirs = [''src'']\<rparr> [''src''])
     = join newline (source_tree_lines pad64 \<lparr>st_files = [(''src/a:'' @ pad64 ''1'' @ newline @ ''src/b'', ''2'')], st_dirs = [''src'']\<rparr> [''src''])"
  by code_simp

text \<open>No two of the texts hashed for these trees have the same hash, so the theorem gives the files themselves.\<close>

definition tree_ab :: source_tree where
  "tree_ab = \<lparr>st_files = [(''src/a'', ''1''), (''src/b'', ''2'')], st_dirs = [''src'']\<rparr>"

definition tree_ba :: source_tree where
  "tree_ba = \<lparr>st_files = [(''src/b'', ''2''), (''src/a'', ''1'')], st_dirs = [''src'']\<rparr>"

lemma source_hash_commits_witness:
  "\<not> collision_among pad64 (hashed_texts pad64 tree_ba [''src''] @ hashed_texts pad64 tree_ab [''src''])
   \<and> iter_regular_files tree_ba [''src''] = iter_regular_files tree_ab [''src'']"
proof -
  have free: "\<not> collision_among pad64 (hashed_texts pad64 tree_ba [''src''] @ hashed_texts pad64 tree_ab [''src''])"
    by code_simp
  have a: "compute_source_tree_hash pad64 tree_ba NoRoots = (pad64 (join newline (source_tree_lines pad64 tree_ab [''src''])), [''src''])"
    by code_simp
  have b: "compute_source_tree_hash pad64 tree_ab (CommaRoots ''src,,lib'')
      = (pad64 (join newline (source_tree_lines pad64 tree_ab [''src''])), [''src''])"
    by code_simp
  have c: "clean_paths tree_ba" by code_simp
  have d: "clean_paths tree_ab" by code_simp
  from source_hash_commits [OF a b pad64_hex c d] free show ?thesis by (simp only: simp_thms)
qed

end
