(* ===== verification/Dag_Inventory.thy ===== *)
theory Dag_Inventory
  imports Evidence_Inventory
begin

text \<open>
  The inventory of the evidence that a forensic run writes (\<^verbatim>\<open>_parse_edn_nodes_semantic\<close>,
  \<^verbatim>\<open>_build_dag_index\<close> and \<^verbatim>\<open>_write_dag_inventory\<close> of \<^verbatim>\<open>scripts/forensic/run.py\<close>, with the Clojure functions
  \<^verbatim>\<open>parse-node\<close>, \<^verbatim>\<open>separate-errors\<close> and \<^verbatim>\<open>build-edges\<close> that the first embeds).  The record \<open>node_reader\<close> is
  the Clojure process: whether it ends with a result, and for a file name the node its EDN text holds, or
  the message of the exception, if that has one.  A Python set is the list of its elements.
\<close>

section \<open>Nodes\<close>

record dag_node =
  en_hash :: "string option"
  en_execution :: string
  en_kind :: string
  en_runner :: string
  en_status :: string
  en_parents :: "string list"
  en_record :: pv
  en_file :: string

record node_reader =
  nr_runs :: bool
  nr_read :: "string \<Rightarrow> string option + dag_node"

record parse_failure =
  pe_file :: string
  pe_message :: "string option"

definition opt_pv :: "string option \<Rightarrow> pv" where
  "opt_pv t = (case t of None \<Rightarrow> PNone | Some s \<Rightarrow> PStr s)"

definition node_pv :: "dag_node \<Rightarrow> pv" where
  "node_pv n = PDict
     [(''node-hash'', opt_pv (en_hash n)), (''execution-id'', PStr (en_execution n)), (''execution-kind'', PStr (en_kind n)),
      (''runner'', PStr (en_runner n)), (''result-status'', PStr (en_status n)),
      (''parent-hashes'', PList (map PStr (en_parents n))), (''record-hash'', en_record n), (''file'', PStr (en_file n))]"

definition parse_failure_pv :: "parse_failure \<Rightarrow> pv" where
  "parse_failure_pv f = PDict [(''file'', PStr (pe_file f)), (''parse-error'', opt_pv (pe_message f))]"

definition edge_pv :: "string \<times> string \<Rightarrow> pv" where
  "edge_pv e = PDict [(''parent'', PStr (fst e)), (''child'', PStr (snd e))]"

definition parse_evidence :: "node_reader \<Rightarrow> string \<Rightarrow> parse_failure + dag_node" where
  "parse_evidence R name =
     (case nr_read R name of
        Inl msg \<Rightarrow> Inl \<lparr>pe_file = name, pe_message = msg\<rparr>
      | Inr n \<Rightarrow> Inr (n\<lparr>en_file := name\<rparr>))"

text \<open>Nodes with a hash, and failures with a message; what is neither is dropped.\<close>

definition parsed_nodes :: "(parse_failure + dag_node) list \<Rightarrow> dag_node list" where
  "parsed_nodes rs = concat (map (\<lambda>r. case r of Inl f \<Rightarrow> [] | Inr n \<Rightarrow> if en_hash n = None then [] else [n]) rs)"

definition failures :: "(parse_failure + dag_node) list \<Rightarrow> parse_failure list" where
  "failures rs = concat (map (\<lambda>r. case r of Inl f \<Rightarrow> if pe_message f = None then [] else [f] | Inr n \<Rightarrow> []) rs)"

definition build_edges :: "dag_node list \<Rightarrow> (string \<times> string) list" where
  "build_edges ns = concat (map (\<lambda>n. map (\<lambda>p. (p, the (en_hash n))) (en_parents n)) ns)"

type_synonym dag_parse = "dag_node list \<times> parse_failure list \<times> (string \<times> string) list"

definition parse_edn_nodes_semantic :: "node_reader \<Rightarrow> string list \<Rightarrow> dag_parse" where
  "parse_edn_nodes_semantic R names =
     (let edn = sort (filter has_edn_suffix names); raw = map (parse_evidence R) edn; ns = parsed_nodes raw in
      if edn = [] \<or> \<not> nr_runs R then ([], [], []) else (ns, failures raw, build_edges ns))"

section \<open>The index\<close>

text \<open>\<^verbatim>\<open>d.setdefault(k, []).append(v)\<close>, and the nodes the index takes with their hashes.\<close>

definition append_at :: "'k \<Rightarrow> 'v \<Rightarrow> ('k \<times> 'v list) list \<Rightarrow> ('k \<times> 'v list) list" where
  "append_at k v d = dset k (get_or d k [] @ [v]) d"

definition indexed :: "dag_node list \<Rightarrow> (string \<times> dag_node) list" where
  "indexed ns = concat (map (\<lambda>n. case en_hash n of None \<Rightarrow> [] | Some h \<Rightarrow> if h = [] then [] else [(h, n)]) ns)"

definition true_parents :: "dag_node \<Rightarrow> string list" where
  "true_parents n = filter (\<lambda>p. p \<noteq> []) (en_parents n)"

definition by_hash :: "dag_node list \<Rightarrow> (string \<times> dag_node) list" where
  "by_hash ns = foldl (\<lambda>d hn. dset (fst hn) (snd hn) d) [] (indexed ns)"

definition short_hashes :: "dag_node list \<Rightarrow> (string \<times> string) list" where
  "short_hashes ns = foldl (\<lambda>d hn. dset (take 12 (fst hn)) (fst hn) d) [] (indexed ns)"

definition grouped :: "(dag_node \<Rightarrow> string) \<Rightarrow> dag_node list \<Rightarrow> (string \<times> string list) list" where
  "grouped key ns = foldl (\<lambda>d hn. if key (snd hn) = [] then d else append_at (key (snd hn)) (fst hn) d) [] (indexed ns)"

definition parents_by_child :: "dag_node list \<Rightarrow> (string \<times> string list) list" where
  "parents_by_child ns = foldl (\<lambda>d hn. dset (fst hn) (true_parents (snd hn)) d) [] (indexed ns)"

definition children_by_parent :: "dag_node list \<Rightarrow> (string \<times> string list) list" where
  "children_by_parent ns =
     foldl (\<lambda>d hn. foldl (\<lambda>d p. append_at p (fst hn) d) d (true_parents (snd hn))) [] (indexed ns)"

definition all_hashes :: "dag_node list \<Rightarrow> string list" where
  "all_hashes ns = remdups (map fst (indexed ns))"

definition dag_roots :: "dag_node list \<Rightarrow> string list" where
  "dag_roots ns = sort (filter (\<lambda>h. list_all (\<lambda>p. p \<notin> set (all_hashes ns)) (get_or (parents_by_child ns) h [])) (all_hashes ns))"

definition dag_leaves :: "dag_node list \<Rightarrow> string list" where
  "dag_leaves ns = sort (filter (\<lambda>h. get_or (children_by_parent ns) h [] = []) (all_hashes ns))"

definition orphan_count :: "dag_node list \<Rightarrow> nat" where
  "orphan_count ns =
     length (filter (\<lambda>h. list_ex (\<lambda>p. p \<notin> set (all_hashes ns)) (get_or (parents_by_child ns) h [])) (all_hashes ns))"

definition node_status_count :: "string \<Rightarrow> dag_node list \<Rightarrow> nat" where
  "node_status_count st ns = length (get_or (grouped en_status ns) st [])"

definition nat_pv :: "nat \<Rightarrow> pv" where
  "nat_pv n = PInt (int n)"

definition names_pv :: "string list \<Rightarrow> pv" where
  "names_pv xs = PList (map PStr xs)"

definition table_pv :: "('a \<Rightarrow> pv) \<Rightarrow> (string \<times> 'a) list \<Rightarrow> pv" where
  "table_pv f d = PDict (map (\<lambda>kv. (fst kv, f (snd kv))) d)"

definition index_summary :: "dag_node list \<Rightarrow> obj" where
  "index_summary ns =
     [(''node-count'', nat_pv (length ns)), (''root-count'', nat_pv (length (dag_roots ns))),
      (''leaf-count'', nat_pv (length (dag_leaves ns))), (''failure-count'', nat_pv (node_status_count ''fail'' ns)),
      (''error-count'', nat_pv (node_status_count ''error'' ns)), (''orphan-count'', nat_pv (orphan_count ns)),
      (''execution-id-counts'', table_pv (\<lambda>v. nat_pv (length v)) (grouped en_execution ns)),
      (''status-counts'', table_pv (\<lambda>v. nat_pv (length v)) (grouped en_status ns))]"

definition dag_index_entry :: "string \<times> dag_node \<Rightarrow> string \<times> pv" where
  "dag_index_entry hn = (fst hn, PDict
     [(''node-hash'', PStr (fst hn)), (''short-hash'', PStr (take 12 (fst hn))),
      (''execution-id'', PStr (en_execution (snd hn))), (''result-status'', PStr (en_status (snd hn)))])"

definition build_dag_index :: "dag_node list \<Rightarrow> obj" where
  "build_dag_index ns =
     [(''dag-index/schema-version'', PStr ''evidence-dag-index.v0''),
      (''dag-index/nodes-by-hash'', PDict (map dag_index_entry (by_hash ns))),
      (''dag-index/children-by-parent'', table_pv names_pv (children_by_parent ns)),
      (''dag-index/parents-by-child'', table_pv names_pv (parents_by_child ns)),
      (''dag-index/roots'', names_pv (dag_roots ns)), (''dag-index/leaves'', names_pv (dag_leaves ns)),
      (''dag-index/by-execution-id'', table_pv names_pv (grouped en_execution ns)),
      (''dag-index/by-status'', table_pv names_pv (grouped en_status ns)),
      (''dag-index/short-hashes'', table_pv PStr (short_hashes ns)),
      (''dag-index/summary'', PDict (index_summary ns))]"

section \<open>The inventory\<close>

text \<open>
  A file of the evidence folder: its name and its bytes, each as the character of that code, \<^const>\<open>None\<close>
  where reading raises.
\<close>

type_synonym dag_file = "string \<times> string option"

definition is_json_file :: "dag_file \<Rightarrow> bool" where
  "is_json_file f \<longleftrightarrow> has_json_suffix (lower (fst f))"

definition is_edn_file :: "dag_file \<Rightarrow> bool" where
  "is_edn_file f \<longleftrightarrow> has_edn_suffix (lower (fst f))"

definition counted_files :: "dag_file list \<Rightarrow> dag_file list" where
  "counted_files fs = filter (\<lambda>f. is_json_file f \<or> is_edn_file f) fs"

definition file_hash_pv :: "crypto \<Rightarrow> dag_file \<Rightarrow> pv" where
  "file_hash_pv C f =
     (case snd f of
        Some t \<Rightarrow> PDict [(''name'', PStr (fst f)), (''sha256'', PStr (sha256_text C t)), (''bytes'', nat_pv (length t))]
      | None \<Rightarrow> PDict [(''name'', PStr (fst f)), (''sha256'', PStr ''unreadable''), (''bytes'', PInt 0)])"

definition total_bytes :: "dag_file list \<Rightarrow> nat" where
  "total_bytes fs = sum_list (map (\<lambda>f. case snd f of Some t \<Rightarrow> length t | None \<Rightarrow> 0) (counted_files fs))"

definition dag_of :: "node_reader \<Rightarrow> dag_file list \<Rightarrow> dag_parse" where
  "dag_of R fs = (if filter is_edn_file fs = [] then ([], [], []) else parse_edn_nodes_semantic R (map fst fs))"

text \<open>
  The registry and the cursor of the workspace: the JSON value, or \<^const>\<open>None\<close> where the file is absent or
  not JSON; every exception on the way leaves \<^verbatim>\<open>None\<close>.
\<close>

definition none_on_error :: "ev_error + pv \<Rightarrow> pv" where
  "none_on_error m = (case m of Inl e \<Rightarrow> PNone | Inr v \<Rightarrow> v)"

definition registry_entries :: "pv option \<Rightarrow> pv" where
  "registry_entries doc =
     (case doc of None \<Rightarrow> PNone
      | Some v \<Rightarrow> none_on_error (bindE (get_in v ''entries'' (PList [])) (\<lambda>x.
          bindE (get_in v ''artifacts'' x) (\<lambda>y. bindE (len_of y) (\<lambda>n. Inr (nat_pv n))))))"

definition cursor_seq :: "pv option \<Rightarrow> pv" where
  "cursor_seq doc =
     (case doc of None \<Rightarrow> PNone
      | Some v \<Rightarrow> none_on_error (bindE (get_none v ''chain-cursor/seq'') (\<lambda>x. get_in v ''seq'' x)))"

definition registry_check :: "nat \<Rightarrow> pv option \<Rightarrow> pv option \<Rightarrow> obj" where
  "registry_check disk registry cursor =
     [(''files-on-disk'', nat_pv disk), (''registry-entries'', registry_entries registry),
      (''chain-cursor-seq'', cursor_seq cursor), (''consistency-status'', PStr ''warning'')]"

definition inventory_warnings :: "int \<Rightarrow> parse_failure list \<Rightarrow> pv list" where
  "inventory_warnings unparsed errs =
     (if 0 < unparsed
      then [PDict [(''code'', PStr ''edn-unparseable''),
             (''message'', PStr (int_str unparsed @ '' EDN evidence nodes could not be semantically parsed.''))]] else [])
     @ map (\<lambda>f. PDict [(''code'', PStr ''edn-parse-error''),
         (''message'', PStr (''Parse error in '' @ pe_file f @ '': '' @ take 200 (case pe_message f of None \<Rightarrow> ''?'' | Some m \<Rightarrow> m)))]) errs"

definition dag_inventory ::
  "crypto \<Rightarrow> node_reader \<Rightarrow> dag_file list \<Rightarrow> pv option \<Rightarrow> pv option \<Rightarrow> obj" where
  "dag_inventory C R fs registry cursor =
     (let (ns, errs, edges) = dag_of R fs;
          json = length (filter is_json_file fs); edn = length (filter is_edn_file fs);
          unparsed = int edn - int (length ns) in
      [(''dag/schema-version'', PStr ''evidence-dag-inventory.v0''),
       (''dag/phase'', PStr (if ns \<noteq> [] then ''B'' else ''A'')),
       (''dag/semantic-status'', PStr (if ns \<noteq> [] then ''parsed'' else ''inventory-only'')),
       (''dag/files'', PDict [(''total'', nat_pv (json + edn)), (''json'', nat_pv json), (''edn'', nat_pv edn),
          (''unparsed'', PInt unparsed)]),
       (''dag/hashes'', PDict [(''algorithm'', PStr ''sha256-file-bytes'')]),
       (''dag/total-bytes'', nat_pv (total_bytes fs)),
       (''dag/file-hashes'', PList (map (file_hash_pv C) (counted_files fs))),
       (''dag/nodes'', PList (map node_pv ns)), (''dag/parse-errors'', PList (map parse_failure_pv errs)),
       (''dag/edges'', PList (map edge_pv edges)),
       (''dag/index'', if ns \<noteq> [] then PDict (build_dag_index ns) else PNone),
       (''dag/registry-check'', PDict (registry_check (json + edn) registry cursor)),
       (''dag/warnings'', PList (inventory_warnings unparsed errs))])"

end
