(* ===== verification/Run_Store.thy ===== *)
theory Run_Store
  imports Preflight Isolation_Checks Source_Hash Dag_Inventory
begin

text \<open>
  The directory a forensic run fills, and the sealed writer (\<^verbatim>\<open>write_sealed_json\<close> of
  \<^verbatim>\<open>scripts/forensic/preflight.py\<close>), the names and the retention of run directories, and the snapshots of
  \<^verbatim>\<open>scripts/forensic/run.py\<close>.

  A store maps paths below the run directory to directories, documents written with sorted keys, and files
  of bytes (each as the character of that code; \<^const>\<open>None\<close> where reading fails).  What the disk does with
  a write is a parameter.
\<close>

section \<open>Stores\<close>

datatype run_file = Dir | Sealed pv | Raw "string option"

type_synonym store = "(path \<times> run_file) list"

text \<open>The disk: the write fails, the file cannot be read back, or a text is read back.\<close>

datatype disk_result = WriteFails ev_error | ReadFails string | ReadsBack string

type_synonym disk = "path \<Rightarrow> string \<Rightarrow> disk_result"

definition write_sealed_json :: "crypto \<Rightarrow> disk \<Rightarrow> path \<Rightarrow> pv \<Rightarrow> store \<Rightarrow> ev_error + (store \<times> string)" where
  "write_sealed_json C D p v st =
     (let text = json_dumps v; content_hash = sha256_text C text; name = join ''/'' p in
      case D p text of
        WriteFails e \<Rightarrow> Inl e
      | ReadFails m \<Rightarrow> Inl (Builtin (OSError (''Readback verification FAILED for '' @ name @ '': cannot read -- '' @ m)))
      | ReadsBack t \<Rightarrow>
          if sha256_text C t \<noteq> content_hash
          then Inl (Builtin (OSError (''Seal verification FAILED for '' @ name @ '': written hash '' @ content_hash
                 @ '', readback hash '' @ sha256_text C t)))
          else Inr (dset p (Sealed v) st, content_hash))"

text \<open>\<^verbatim>\<open>shutil.copy2\<close> of a file outside with the given bytes, and of a file of the store.\<close>

definition copy_in :: "(string \<Rightarrow> string option) \<Rightarrow> string \<Rightarrow> path \<Rightarrow> store \<Rightarrow> ev_error + store" where
  "copy_in bytes src p st =
     (case bytes src of None \<Rightarrow> Inl (Builtin (OSError src)) | Some t \<Rightarrow> Inr (dset p (Raw (Some t)) st))"

definition copy_entry :: "path \<Rightarrow> path \<Rightarrow> store \<Rightarrow> ev_error + store" where
  "copy_entry src p st =
     (case map_of st src of
        Some (Raw (Some t)) \<Rightarrow> Inr (dset p (Raw (Some t)) st)
      | Some (Sealed v) \<Rightarrow> Inr (dset p (Sealed v) st)
      | _ \<Rightarrow> Inl (Builtin (OSError (join ''/'' src))))"

text \<open>\<^verbatim>\<open>d.iterdir()\<close> with \<^verbatim>\<open>is_file()\<close>, and the bytes of a file.\<close>

definition store_files :: "store \<Rightarrow> path \<Rightarrow> string list" where
  "store_files st d =
     filter (\<lambda>n. map_of st (d @ [n]) \<noteq> Some Dir) (map last (filter (\<lambda>p. p \<noteq> [] \<and> butlast p = d) (map fst st)))"

definition file_bytes :: "store \<Rightarrow> path \<Rightarrow> string option" where
  "file_bytes st p = (case map_of st p of Some (Raw t) \<Rightarrow> t | Some (Sealed v) \<Rightarrow> Some (json_dumps v) | _ \<Rightarrow> None)"

definition copy_folder :: "(string \<Rightarrow> bool) \<Rightarrow> path \<Rightarrow> path \<Rightarrow> store \<Rightarrow> ev_error + store" where
  "copy_folder wanted src dst st =
     (if \<not> has_key st src then Inr st
      else if map_of st src \<noteq> Some Dir then Inl (Builtin NotADirectoryError)
      else foldE (\<lambda>s n. copy_entry (src @ [n]) (dst @ [n]) s) st (filter wanted (store_files st src)))"

section \<open>Run identifiers and retention\<close>

text \<open>\<^verbatim>\<open>c.isalnum()\<close> on the first 256 characters: letters, digits, superscripts and fractions.\<close>

definition isalnum :: "char \<Rightarrow> bool" where
  "isalnum c \<longleftrightarrow>
     (let n = (of_char c :: nat) in
      (48 \<le> n \<and> n \<le> 57) \<or> (65 \<le> n \<and> n \<le> 90) \<or> (97 \<le> n \<and> n \<le> 122) \<or> n \<in> {170, 178, 179, 181, 185, 186, 188, 189, 190}
      \<or> (192 \<le> n \<and> n \<noteq> 215 \<and> n \<noteq> 247))"

definition safe_label :: "string \<Rightarrow> string" where
  "safe_label l = map (\<lambda>c. if isalnum c \<or> c = CHR ''-'' \<or> c = CHR ''_'' then c else CHR ''-'') l"

definition make_run_id :: "string \<Rightarrow> string \<Rightarrow> string" where
  "make_run_id stamp label = (if label = [] then stamp else stamp @ ''-'' @ safe_label label)"

text \<open>The pattern of a time stamp, \<open>d\<close> for a digit.\<close>

definition matches_stamp :: "string \<Rightarrow> bool" where
  "matches_stamp s \<longleftrightarrow> list_all2 (\<lambda>p c. if p = CHR ''d'' then is_digit c else p = c) ''dddd-dd-ddTdd-dd-ddZ'' s"

definition is_forensic_run_dir :: "string \<Rightarrow> bool" where
  "is_forensic_run_dir name \<longleftrightarrow> matches_stamp (take 20 name)"

text \<open>
  The entries of the output directory with a mark for directories.  \<^verbatim>\<open>shutil.rmtree(d, ignore_errors=True)\<close>
  removes the directory when the system lets it, and says nothing when not.
\<close>

definition enforce_retention :: "(string \<Rightarrow> bool) \<Rightarrow> int \<Rightarrow> (string \<times> bool) list \<Rightarrow> (string \<times> bool) list" where
  "enforce_retention removable max_runs ls =
     (let dirs = sort (map fst (filter (\<lambda>d. snd d \<and> is_forensic_run_dir (fst d)) ls));
          to_remove = take (length dirs - nat max_runs) dirs in
      if max_runs \<le> 0 \<or> int (length dirs) \<le> max_runs then ls
      else filter (\<lambda>d. \<not> (fst d \<in> set to_remove \<and> snd d \<and> removable (fst d))) ls)"

section \<open>Snapshots\<close>

definition source_hash_algorithm :: string where
  "source_hash_algorithm = ''source-tree-hash.v1.path-content-sha256''"

text \<open>The tree is absent where reading it raises.\<close>

definition snapshot_source ::
  "preflight_env \<Rightarrow> (string \<Rightarrow> string) \<Rightarrow> source_tree option \<Rightarrow> string list \<Rightarrow> string \<Rightarrow> obj" where
  "snapshot_source E H tree roots repo =
     [(''git_commit'', PStr (case pf_commit E of None \<Rightarrow> ''unknown'' | Some c \<Rightarrow> if c = [] then ''unknown'' else c)),
      (''dirty'', PBool (pf_dirty E)), (''repo_root'', PStr (pf_resolve E repo))]
     @ (case tree of
          None \<Rightarrow>
            [(''byte-size'', PInt 0), (''code-hash'', PStr ''unknown''), (''code-hash-algorithm'', PStr ''unknown''),
             (''included-roots'', PList []), (''source-hash'', PStr ''unknown''), (''source-hash-algorithm'', PStr ''unknown'')]
        | Some T \<Rightarrow>
            (let (h, included) = compute_source_tree_hash H T (ListedRoots roots) in
             [(''byte-size'', nat_pv (compute_source_byte_size T roots)), (''code-hash'', PStr h),
              (''code-hash-algorithm'', PStr source_hash_algorithm), (''included-roots'', names_pv included),
              (''source-hash'', PStr h), (''source-hash-algorithm'', PStr source_hash_algorithm)]))
     @ [(''source-hash-roots'', names_pv roots)]"

record platform_info =
  pl_system :: string
  pl_release :: string
  pl_python :: string

definition snapshot_environment :: "platform_info \<Rightarrow> string \<Rightarrow> obj" where
  "snapshot_environment P now =
     [(''os'', PStr (pl_system P)), (''os_release'', PStr (pl_release P)), (''python_version'', PStr (pl_python P)),
      (''timestamp'', PStr now)]"

end
