(* ===== verification/Forensic_Run.thy ===== *)
theory Forensic_Run
  imports Run_Store Bundle_Verify
begin

text \<open>
  A forensic run (\<^verbatim>\<open>run_forensic\<close> of \<^verbatim>\<open>scripts/forensic/run.py\<close>): the preflight, the run directory and its
  inputs, the scenario pipeline, what is collected from its workspace, the documents that seal the run, and
  the verification of the result.  The steps are state transformers on the \<open>store\<close>; an exception ends the
  run.  The record \<open>run_env\<close> holds what comes from outside; the pipeline is a Clojure process, given by its
  command line and environment, that ends with an exit code and the files it leaves in the run directory.
  Progress messages, the file lock and the check of the free disk space are left out.
\<close>

record run_env =
  re_preflight :: preflight_env
  re_isolation :: isolation_env
  re_verify :: verify_env
  re_disk :: disk
  re_stamp :: string
  re_now :: "string \<Rightarrow> string"
  re_tree :: "source_tree option"
  re_roots :: "string list"
  re_platform :: platform_info
  re_bytes :: "string \<Rightarrow> string option"
  re_environ :: "(string \<times> string) list"
  re_pipeline :: "string list \<Rightarrow> (string \<times> string) list \<Rightarrow> ev_error + (int \<times> store)"
  re_elapsed :: int
  re_suite_paths :: "string \<Rightarrow> string option"
  re_reader :: node_reader
  re_sign :: "string \<Rightarrow> string \<Rightarrow> string option"
  re_tsa :: string
  re_beyond :: "string \<Rightarrow> bool"
  re_exception :: "path \<Rightarrow> string"

record run_args =
  ra_request :: string
  ra_label :: string
  ra_registry :: string
  ra_policy :: string
  ra_base :: string
  ra_repo :: string
  ra_dry_run :: bool
  ra_isolation :: string
  ra_key_path :: string
  ra_key_id :: string
  ra_no_harden :: bool
  ra_tsa :: string

abbreviation run_crypto :: "run_env \<Rightarrow> crypto" where
  "run_crypto E \<equiv> ve_crypto (re_verify E)"

definition run_id :: "run_env \<Rightarrow> run_args \<Rightarrow> string" where
  "run_id E a = make_run_id (re_stamp E) (ra_label a)"

definition repo_root :: "run_env \<Rightarrow> run_args \<Rightarrow> string" where
  "repo_root E a = pf_resolve (re_preflight E) (ra_repo a)"

definition run_place :: "run_env \<Rightarrow> run_args \<Rightarrow> string" where
  "run_place E a = pf_resolve (re_preflight E) (pf_expand (re_preflight E) (ra_base a)) @ ''/'' @ run_id E a"

definition tsa_url :: "run_env \<Rightarrow> run_args \<Rightarrow> string" where
  "tsa_url E a = (if ra_tsa a = [] then re_tsa E else ra_tsa a)"

definition seal :: "run_env \<Rightarrow> path \<Rightarrow> pv \<Rightarrow> store \<Rightarrow> ev_error + store" where
  "seal E p v st = bindE (write_sealed_json (run_crypto E) (re_disk E) p v st) (\<lambda>r. Inr (fst r))"

section \<open>The pipeline\<close>

text \<open>\<^verbatim>\<open>_get_key(request, "suite/key", ":suite/key", "key") if request else None\<close>.\<close>

definition suite_key_of :: "pv \<Rightarrow> ev_error + pv" where
  "suite_key_of request = (if truthy request then get_key request [''suite/key'', '':suite/key'', ''key''] else Inr PNone)"

definition pipeline_request :: "run_env \<Rightarrow> string \<Rightarrow> pv" where
  "pipeline_request E path =
     (let p = pf_expand (re_preflight E) path in
      case pf_text (re_preflight E) p of
        Inl e \<Rightarrow> PNone
      | Inr text \<Rightarrow> (let v = parse_edn_or_json (re_preflight E) text (Some p) in if truthy v then v else PDict []))"

definition run_expression :: string where
  "run_expression = ''(require '' @ [CHR 0x27] @ ''[resolver-sim.core]) (->> *command-line-args* (map str) (apply resolver-sim.core/-main))''"

definition pipeline_command :: "pv \<Rightarrow> string \<Rightarrow> string list" where
  "pipeline_command suite_key output_path =
     [''clojure'', ''-M:with-sew'', ''-e'', run_expression, ''--'', ''--invariants'']
     @ (if truthy suite_key then [''--suite'', py_str suite_key] else []) @ [''--output-file'', output_path]"

definition lower_bool :: "bool \<Rightarrow> string" where
  "lower_bool b = (if b then ''true'' else ''false'')"

definition source_env :: "obj \<Rightarrow> (string \<times> string) list" where
  "source_env info =
     [(''PRF_SOURCE_TREE_HASH'', str_of (py_get info ''source-hash'')),
      (''PRF_SOURCE_TREE_HASH_ALGORITHM'', str_of (py_get info ''source-hash-algorithm'')),
      (''PRF_SOURCE_TREE_HASH_ROOTS'', join '','' (map str_of (list_of (py_get info ''source-hash-roots'')))),
      (''PRF_SOURCE_COMMIT'', str_of (py_get info ''git_commit'')),
      (''PRF_SOURCE_DIRTY'', lower_bool (truthy (py_get info ''dirty'')))]"

definition pipeline_env :: "run_env \<Rightarrow> run_args \<Rightarrow> obj \<Rightarrow> (string \<times> string) list" where
  "pipeline_env E a info =
     foldl (\<lambda>env kv. dset (fst kv) (snd kv) env) (re_environ E)
       ((if info = [] then [] else source_env info)
        @ [(''PRF_ORCHESTRATION_RUNNER_ID'', ''forensic-runner.py''), (''PRF_BUNDLE_ID'', run_id E a),
           (''PRF_RESULTS_ROOT'', run_place E a @ ''/results''), (''PRF_RUNS_ROOT'', run_place E a @ ''/runs'')]
        @ (if tsa_url E a = [] then [] else [(''PRF_TSA_URL'', tsa_url E a)])
        @ [(''PRF_ARTIFACT_DIR'', run_place E a @ ''/workspace'')])"

definition run_pipeline :: "run_env \<Rightarrow> run_args \<Rightarrow> obj \<Rightarrow> store \<Rightarrow> ev_error + (int \<times> store)" where
  "run_pipeline E a info st =
     bindE (suite_key_of (pipeline_request E (ra_request a))) (\<lambda>suite.
     bindE (re_pipeline E (pipeline_command suite (run_place E a @ ''/clojure-bundle-root.json'')) (pipeline_env E a info)) (\<lambda>r.
       Inr (fst r, foldl (\<lambda>s kv. dset (fst kv) (snd kv) s) st (snd r))))"

section \<open>Set-up and inputs\<close>

definition run_folders :: store where
  "run_folders = [([''evidence-dag''], Dir), ([''claims''], Dir), ([''attestations''], Dir), ([''anchors''], Dir), ([''workspace''], Dir)]"

definition copy_if_present :: "run_env \<Rightarrow> string \<Rightarrow> path \<Rightarrow> store \<Rightarrow> ev_error + store" where
  "copy_if_present E path p st =
     (let src = pf_expand (re_preflight E) path in
      if path = [] \<or> \<not> pf_exists (re_preflight E) src then Inr st else copy_in (re_bytes E) src p st)"

definition source_info :: "run_env \<Rightarrow> run_args \<Rightarrow> obj" where
  "source_info E a = snapshot_source (re_preflight E) (sha256_text (run_crypto E)) (re_tree E) (re_roots E) (repo_root E a)"

definition environment_info :: "run_env \<Rightarrow> obj" where
  "environment_info E = snapshot_environment (re_platform E) (re_now E ''environment'')"

definition input_manifest :: "run_env \<Rightarrow> run_args \<Rightarrow> obj" where
  "input_manifest E a =
     [(''run-request'', PStr (ra_request a)), (''registry-snapshot'', PStr (ra_registry a)), (''evidence-policy'', PStr (ra_policy a)),
      (''source-snapshot'', PDict (source_info E a)), (''environment'', PDict (environment_info E)),
      (''run-timestamp'', PStr (re_now E ''input-manifest''))]"

definition set_up :: "run_env \<Rightarrow> run_args \<Rightarrow> preflight_report \<Rightarrow> ev_error + store" where
  "set_up E a report =
     (if pf_exists (re_preflight E) (run_place E a) then Inl (Builtin (FileExistsError (run_place E a)))
      else bindE (seal E [''preflight-report.json''] (PDict (preflight_report_pv report)) run_folders) (\<lambda>st.
           bindE (seal E [''source-snapshot.json''] (PDict (source_info E a)) st) (\<lambda>st.
           bindE (seal E [''environment.json''] (PDict (environment_info E)) st) (\<lambda>st.
           bindE (if ra_request a = [] then Inr st else copy_in (re_bytes E) (ra_request a) [''run-request.json''] st) (\<lambda>st.
           bindE (copy_if_present E (ra_registry a) [''registry-snapshot.json''] st) (\<lambda>st.
           bindE (copy_if_present E (ra_policy a) [''evidence-policy.edn''] st) (\<lambda>st.
             seal E [''input-manifest.json''] (PDict (input_manifest E a)) st)))))))"

section \<open>Collecting the results\<close>

text \<open>\<^verbatim>\<open>re.findall(r'"([^"]*)"', text)\<close>: every second piece between quotes, when closed.\<close>

fun every_second :: "'a list \<Rightarrow> 'a list" where
  "every_second (x # y # zs) = y # every_second zs"
| "every_second xs = []"

definition quoted_parts :: "string \<Rightarrow> string list" where
  "quoted_parts s = every_second (butlast (split_on (CHR 0x22) s))"

text \<open>A scenario file that exists but cannot be read stops the copying; the exception is caught.\<close>

fun copy_scenarios :: "run_env \<Rightarrow> string list \<Rightarrow> store \<Rightarrow> store" where
  "copy_scenarios E [] st = st"
| "copy_scenarios E (p # ps) st =
     (if \<not> pf_exists (re_preflight E) p then copy_scenarios E ps st
      else case re_bytes E p of
             None \<Rightarrow> st
           | Some t \<Rightarrow> copy_scenarios E ps (dset [''scenarios'', last (path_parts p)] (Raw (Some t)) st))"

definition bundle_scenario_files :: "run_env \<Rightarrow> pv \<Rightarrow> store \<Rightarrow> store" where
  "bundle_scenario_files E suite st =
     (case re_suite_paths E (py_str suite) of
        None \<Rightarrow> st
      | Some out \<Rightarrow> (let paths = quoted_parts (strip out) in
          if paths = [] then st else copy_scenarios E paths (dset [''scenarios''] Dir st)))"

definition bundled_request :: "run_env \<Rightarrow> string \<Rightarrow> pv" where
  "bundled_request E path =
     (if path = [] then PNone
      else case pf_text (re_preflight E) (pf_expand (re_preflight E) path) of
             Inl e \<Rightarrow> PNone
           | Inr text \<Rightarrow> parse_edn_or_json (re_preflight E) text (Some path))"

definition bundle_deps :: "run_env \<Rightarrow> store \<Rightarrow> store" where
  "bundle_deps E st = (case re_bytes E ''deps.edn'' of None \<Rightarrow> st | Some t \<Rightarrow> dset [''deps.edn''] (Raw (Some t)) st)"

definition status_of_exit :: "int \<Rightarrow> string" where
  "status_of_exit code = (if code = 0 then ''pass'' else ''fail'')"

definition results_summary :: "int \<Rightarrow> pv \<Rightarrow> obj" where
  "results_summary code suite =
     [(''results/schema-version'', PStr ''results-summary.v1''), (''results/status'', PStr (status_of_exit code)),
      (''results/suite-key'', if truthy suite then suite else PStr ''registry-default'')]"

text \<open>The JSON value of a file of the store, \<^const>\<open>None\<close> where it is absent or not JSON.\<close>

definition stored_json :: "run_env \<Rightarrow> path \<Rightarrow> store \<Rightarrow> pv option" where
  "stored_json E p st =
     (case map_of st p of
        Some (Raw (Some t)) \<Rightarrow> pf_json (re_preflight E) t
      | Some (Sealed v) \<Rightarrow> Some (canon v)
      | _ \<Rightarrow> None)"

definition dag_folder :: "store \<Rightarrow> dag_file list" where
  "dag_folder st = map (\<lambda>n. (n, file_bytes st [''evidence-dag'', n])) (store_files st [''evidence-dag''])"

definition run_inventory :: "run_env \<Rightarrow> store \<Rightarrow> obj" where
  "run_inventory E st =
     dag_inventory (run_crypto E) (re_reader E) (dag_folder st)
       (stored_json E [''workspace'', ''test-artifacts.json''] st) (stored_json E [''workspace'', ''chain-cursor-final.json''] st)"

definition is_evidence_name :: "string \<Rightarrow> bool" where
  "is_evidence_name n \<longleftrightarrow> has_json_suffix n \<or> has_edn_suffix n"

definition collect_results :: "run_env \<Rightarrow> run_args \<Rightarrow> int \<Rightarrow> store \<Rightarrow> ev_error + store" where
  "collect_results E a code st =
     bindE (suite_key_of (bundled_request E (ra_request a))) (\<lambda>suite.
     let st = bundle_deps E (if truthy suite then bundle_scenario_files E suite st else st) in
     bindE (seal E [''results-summary.json''] (PDict (results_summary code suite)) st) (\<lambda>st.
     bindE (copy_folder is_evidence_name [''workspace'', ''evidence-nodes''] [''evidence-dag''] st) (\<lambda>st.
     bindE (copy_folder has_json_suffix [''workspace'', ''claims''] [''claims''] st) (\<lambda>st.
     bindE (copy_folder has_json_suffix [''workspace'', ''attestations''] [''attestations''] st) (\<lambda>st.
       seal E [''evidence-dag-inventory.json''] (PDict (run_inventory E st)) st)))))"

section \<open>Sealing\<close>

definition execution_node_hash :: "run_env \<Rightarrow> store \<Rightarrow> pv" where
  "execution_node_hash E st =
     (case stored_json E [''clojure-bundle-root.json''] st of
        None \<Rightarrow> PNone | Some v \<Rightarrow> none_on_error (get_none v ''execution/node-hash''))"

definition anchor_names :: "string list" where
  "anchor_names = [''registry.tsr'', ''registry.tsq'', ''registry.tsa.json'']"

definition copy_anchors :: "store \<Rightarrow> ev_error + store" where
  "copy_anchors st =
     foldE (\<lambda>s n. if has_key s [''workspace'', n] then copy_entry [''workspace'', n] [''anchors'', n] s else Inr s) st anchor_names"

definition anchor_type :: "run_env \<Rightarrow> run_args \<Rightarrow> store \<Rightarrow> string" where
  "anchor_type E a st =
     (if has_key st [''workspace'', ''registry.tsa.json''] then ''rfc3161''
      else if tsa_url E a \<noteq> [] then ''tsa-requested-no-response'' else ''local-proof'')"

definition provider_url :: "run_env \<Rightarrow> store \<Rightarrow> pv" where
  "provider_url E st =
     (case stored_json E [''workspace'', ''registry.tsa.json''] st of
        None \<Rightarrow> PNone | Some v \<Rightarrow> none_on_error (get_none v ''timestamp/provider-url''))"

definition run_overview :: "run_env \<Rightarrow> run_args \<Rightarrow> int \<Rightarrow> obj" where
  "run_overview E a code =
     [(''overview/schema-version'', PStr ''run-overview.v1''), (''overview/hash'', PNone), (''run-id'', PStr (run_id E a)),
      (''run-timestamp'', PStr (re_now E ''run-overview'')), (''exit-code'', PInt code), (''elapsed-ms'', PInt (re_elapsed E)),
      (''status'', PStr (status_of_exit code)), (''source'', PDict (source_info E a))]"

definition overview_hash :: "run_env \<Rightarrow> run_args \<Rightarrow> int \<Rightarrow> string" where
  "overview_hash E a code = self_hash (run_crypto E) (run_overview E a code) [''overview/hash'']"

definition sealed_overview :: "run_env \<Rightarrow> run_args \<Rightarrow> int \<Rightarrow> obj" where
  "sealed_overview E a code = dset ''overview/hash'' (PStr (overview_hash E a code)) (run_overview E a code)"

definition isolation_report :: "run_env \<Rightarrow> run_args \<Rightarrow> obj" where
  "isolation_report E a = run_isolation_checks (re_isolation E) [] [] (ra_isolation a)"

definition bundle_root :: "run_env \<Rightarrow> run_args \<Rightarrow> preflight_report \<Rightarrow> int \<Rightarrow> string \<Rightarrow> pv \<Rightarrow> obj" where
  "bundle_root E a report code dag_hash node_hash =
     dupdate
       [(''bundle/schema-version'', PStr ''bundle-root.v1''), (''bundle/id'', PNone), (''bundle/hash'', PNone),
        (''bundle/signature'', PNone), (''bundle/signing-key-id'', PNone), (''bundle/timestamp'', PStr (re_now E ''bundle-root'')),
        (''run/request-path'', PStr (ra_request a)), (''run/exit-code'', PInt code), (''run/status'', PStr (status_of_exit code)),
        (''overview/hash'', PStr (overview_hash E a code)), (''evidence-dag/hash'', PStr dag_hash),
        (''execution/node-hash'', node_hash),
        (''preflight'', PDict [(''status'', PStr (pr_status report)), (''summary'', summary_pv report)])]
       (isolation_report E a)"

text \<open>\<^verbatim>\<open>Path(p).name\<close>, and the optional signature over the hash of the bundle root.\<close>

definition key_file_name :: "string \<Rightarrow> string" where
  "key_file_name p = (case path_parts p of [] \<Rightarrow> [] | ps \<Rightarrow> last ps)"

definition sign_bundle_hash :: "run_env \<Rightarrow> string \<Rightarrow> string \<Rightarrow> string \<Rightarrow> ev_error + (string \<times> string)" where
  "sign_bundle_hash E h keyfile keyname =
     (case re_sign E h keyfile of
        None \<Rightarrow> Inl (Builtin (RuntimeError ''Bundle signing failed''))
      | Some out \<Rightarrow> (let sig = strip out in
          if sig = [] then Inl (Builtin (RuntimeError ''Bundle signing failed: Clojure signing returned empty signature''))
          else Inr (sig, if keyname = [] then key_file_name keyfile else keyname)))"

definition stamped_root :: "run_env \<Rightarrow> obj \<Rightarrow> obj" where
  "stamped_root E root =
     (let h = self_hash (run_crypto E) root bundle_sign_exclude_keys in dset ''bundle/hash'' (PStr h) (dset ''bundle/id'' (PStr h) root))"

definition sealed_root :: "run_env \<Rightarrow> run_args \<Rightarrow> obj \<Rightarrow> ev_error + obj" where
  "sealed_root E a root =
     (let stamped = stamped_root E root in
      if ra_key_path a = [] then Inr stamped
      else bindE (sign_bundle_hash E (self_hash (run_crypto E) root bundle_sign_exclude_keys) (ra_key_path a) (ra_key_id a)) (\<lambda>s.
        Inr (dset ''bundle/signing-key-id'' (PStr (snd s)) (dset ''bundle/signature'' (PStr (fst s)) stamped))))"

definition anchor_note :: "string \<Rightarrow> string" where
  "anchor_note ty =
     (if ty = ''rfc3161'' then ''RFC 3161 timestamp from configured TSA''
      else if ty = ''tsa-requested-no-response'' then ''TSA was configured but returned no response''
      else ''Local timestamp -- no external TSA configured'')"

definition anchor_cursor :: "run_env \<Rightarrow> run_args \<Rightarrow> store \<Rightarrow> obj" where
  "anchor_cursor E a st =
     (let ty = anchor_type E a st; url = (if ty = ''rfc3161'' then provider_url E st else PNone) in
      [(''anchor/schema-version'', PStr ''anchor-cursor.v1''), (''anchor/type'', PStr ty),
       (''anchor/target'', PStr (''file://'' @ run_place E a)), (''anchor/timestamp'', PStr (re_now E ''anchor-cursor''))]
      @ (if truthy url then [(''anchor/tsa-url'', url)] else [])
      @ (if ty = ''rfc3161'' then [(''anchor/tsa-token-path'', PStr ''registry.tsr'')] else [])
      @ [(''anchor/note'', PStr (anchor_note ty))])"

definition inventory_hash :: "run_env \<Rightarrow> store \<Rightarrow> string" where
  "inventory_hash E st =
     (case file_bytes st [''evidence-dag-inventory.json''] of None \<Rightarrow> [] | Some t \<Rightarrow> sha256_text (run_crypto E) t)"

definition seal_run :: "run_env \<Rightarrow> run_args \<Rightarrow> preflight_report \<Rightarrow> int \<Rightarrow> store \<Rightarrow> ev_error + store" where
  "seal_run E a report code st =
     (let dag_hash = inventory_hash E st; node_hash = execution_node_hash E st; cursor = anchor_cursor E a st in
      bindE (copy_anchors st) (\<lambda>st.
      bindE (seal E [''run-overview.json''] (PDict (sealed_overview E a code)) st) (\<lambda>st.
      bindE (sealed_root E a (bundle_root E a report code dag_hash node_hash)) (\<lambda>root.
      bindE (seal E [''run-bundle-root.json''] (PDict root) st) (\<lambda>st.
        seal E [''anchors'', ''anchor-cursor.json''] (PDict cursor) st)))))"

section \<open>The run\<close>

text \<open>The directory the verifier sees.\<close>

definition bundle_entry :: "run_env \<Rightarrow> run_file \<Rightarrow> entry" where
  "bundle_entry E f =
     (case f of
        Dir \<Rightarrow> Folder
      | Sealed v \<Rightarrow> Document (canon v)
      | Raw None \<Rightarrow> Unreadable
      | Raw (Some t) \<Rightarrow> (case pf_json (re_preflight E) t of None \<Rightarrow> Unreadable | Some v \<Rightarrow> Document v))"

definition run_bundle :: "run_env \<Rightarrow> run_args \<Rightarrow> store \<Rightarrow> bundle_dir" where
  "run_bundle E a st =
     \<lparr>place = run_place E a, entries = map (\<lambda>pf. (fst pf, bundle_entry E (snd pf))) st, beyond = re_beyond E,
      exception_text = re_exception E\<rparr>"

text \<open>\<^verbatim>\<open>verify_run(str(run_dir))\<close>: no public key, no expected protocol, semantics not required.\<close>

abbreviation run_verifier :: "run_env \<Rightarrow> verify_env" where
  "run_verifier E \<equiv> (re_verify E)\<lparr>ve_signature := None\<rparr>"

definition verification_failed :: "run_env \<Rightarrow> run_args \<Rightarrow> store \<Rightarrow> bool" where
  "verification_failed E a st =
     (case verify_run (run_verifier E) (run_place E a) (Some (run_bundle E a st)) None False of
        Inl e \<Rightarrow> True | Inr r \<Rightarrow> rp_status r = ''fail'')"

record run_outcome =
  ro_status :: string
  ro_exit :: int
  ro_store :: store
  ro_hardened :: bool

definition execute_run :: "run_env \<Rightarrow> run_args \<Rightarrow> preflight_report \<Rightarrow> ev_error + run_outcome" where
  "execute_run E a report =
     bindE (set_up E a report) (\<lambda>st.
     bindE (run_pipeline E a (source_info E a) st) (\<lambda>(code, st).
     bindE (collect_results E a code st) (\<lambda>st.
     bindE (seal_run E a report code st) (\<lambda>st.
       let exit_code = (if verification_failed E a st then 1 else code) in
       Inr \<lparr>ro_status = (if exit_code = 0 then ''pass'' else ''failed''), ro_exit = exit_code, ro_store = st,
            ro_hardened = (\<not> ra_no_harden a \<and> exit_code = 0)\<rparr>))))"

definition aborted :: "string \<Rightarrow> int \<Rightarrow> run_outcome" where
  "aborted st code = \<lparr>ro_status = st, ro_exit = code, ro_store = [], ro_hardened = False\<rparr>"

text \<open>The report of a failed preflight goes to a directory of its own.\<close>

definition run_forensic :: "run_env \<Rightarrow> run_args \<Rightarrow> ev_error + run_outcome" where
  "run_forensic E a =
     bindE (run_preflight (re_preflight E) (ra_request a) (ra_registry a) (ra_policy a) (run_place E a) (repo_root E a)) (\<lambda>report.
     if pr_status report = ''fail''
     then if ra_dry_run a then Inr (aborted ''preflight-failed'' 1)
          else bindE (seal E [''tmp'', ''forensic-preflight-'' @ run_id E a, ''preflight-report.json''] (PDict (preflight_report_pv report)) [])
                 (\<lambda>st. Inr (aborted ''preflight-failed'' 1))
     else if ra_dry_run a then Inr (aborted ''preflight-passed'' 0)
     else execute_run E a report)"

end
