(* ===== verification/Dag_Theorems.thy ===== *)
theory Dag_Theorems
  imports Dag_Inventory Inventory_Theorems Verify_Theorems
begin

text \<open>
  The writer of the inventory (\<^verbatim>\<open>run.py\<close>) against its reader (\<^verbatim>\<open>verify.py\<close>): the inventory of a
  well-formed set of nodes is accepted, whatever other files could not be parsed, and a folder with a JSON
  file is never accepted.
\<close>

section \<open>Documents read back\<close>

lemma get_in_canon: "dict_wf d \<Longrightarrow> canon x = x \<Longrightarrow> get_in (canon (PDict d)) k x = Inr (canon (get_or d k x))"
  by (simp add: canon_PDict get_or_def map_of_canon_items del: canon.simps split: option.splits)

lemma canon_PStr_list [simp]: "map (canon \<circ> PStr) xs = map PStr xs"
  by simp

lemma opt_pv_simps [simp]: "opt_pv None = PNone" "opt_pv (Some s) = PStr s"
  by (simp_all add: opt_pv_def)

lemma canon_opt_pv [simp]: "canon (opt_pv t) = opt_pv t"
  by (cases t) (simp_all add: opt_pv_def)

lemma wf_node: "dict_wf (dict_of (node_pv n))"
  by (simp add: dict_wf_def node_pv_def)

lemma node_pv_dict: "node_pv n = PDict (dict_of (node_pv n))"
  by (simp add: node_pv_def)

lemma node_read [simp]:
  "get_none (canon (node_pv n)) ''node-hash'' = Inr (opt_pv (en_hash n))"
  "get_none (canon (node_pv n)) ''file'' = Inr (PStr (en_file n))"
  "get_none (canon (node_pv n)) ''parse-error'' = Inr PNone"
  "get_in (canon (node_pv n)) ''parent-hashes'' (PList []) = Inr (PList (map PStr (en_parents n)))"
  by (subst node_pv_dict, subst get_in_canon [OF wf_node]; simp add: node_pv_def get_or_def del: canon.simps(6))+

lemma node_parents [simp]: "parents_of (canon (node_pv n)) = Inr (map PStr (true_parents n))"
  by (simp add: parents_of_def true_parents_def filter_map o_def)

lemma edge_read [simp]:
  "get_none (canon (edge_pv e)) ''parent'' = Inr (PStr (fst e))" "get_none (canon (edge_pv e)) ''child'' = Inr (PStr (snd e))"
  by (simp_all add: edge_pv_def get_or_def)

lemma mapE_map_Inr: "(\<And>x. x \<in> set xs \<Longrightarrow> f (g x) = Inr (h x)) \<Longrightarrow> mapE f (map g xs) = Inr (map h xs)"
  by (induction xs) auto

section \<open>Well-formed evidence\<close>

definition node_id :: "dag_node \<Rightarrow> string" where
  "node_id n = the (en_hash n)"

definition node_ids :: "dag_node list \<Rightarrow> string list" where
  "node_ids ns = map node_id ns"

definition real_edges :: "dag_node list \<Rightarrow> (string \<times> string) list" where
  "real_edges ns = concat (map (\<lambda>n. map (\<lambda>p. (p, node_id n)) (true_parents n)) ns)"

text \<open>
  Every node has a hash of its own, the parents it names (apart from empty texts) are different hashes of
  nodes, and no node is its own ancestor.
\<close>

definition sound_evidence :: "dag_node list \<Rightarrow> bool" where
  "sound_evidence ns \<longleftrightarrow>
     list_all (\<lambda>n. en_hash n \<noteq> None \<and> node_id n \<noteq> [] \<and> distinct (true_parents n)
       \<and> set (true_parents n) \<subseteq> set (node_ids ns)) ns
     \<and> distinct (node_ids ns) \<and> acyclic (set (real_edges ns))"

lemma node_hash_id: "sound_evidence ns \<Longrightarrow> n \<in> set ns \<Longrightarrow> opt_pv (en_hash n) = PStr (node_id n) \<and> en_hash n = Some (node_id n) \<and> node_id n \<noteq> []"
  by (auto simp: sound_evidence_def list_all_iff node_id_def opt_pv_def)

lemma real_edges_set: "set (real_edges ns) = {(p, node_id n) | p n. n \<in> set ns \<and> p \<in> set (true_parents n)}"
  by (auto simp: real_edges_def)

lemma filter_build_edges: "filter (\<lambda>e. fst e \<noteq> []) (build_edges ns) = real_edges ns"
  by (simp add: build_edges_def real_edges_def filter_concat comp_def filter_map true_parents_def node_id_def)

lemma build_edges_ends:
  assumes "sound_evidence ns" "e \<in> set (build_edges ns)"
  shows "snd e \<in> set (node_ids ns) \<and> (fst e \<in> set (node_ids ns) \<longleftrightarrow> fst e \<noteq> [])"
proof -
  from assms(2) obtain n p where n: "n \<in> set ns" "p \<in> set (en_parents n)" "e = (p, node_id n)"
    by (auto simp: build_edges_def node_id_def)
  with assms(1) have "p \<noteq> [] \<Longrightarrow> p \<in> set (node_ids ns)" by (auto simp: sound_evidence_def list_all_iff true_parents_def)
  moreover have "[] \<notin> set (node_ids ns)" using assms(1) by (auto simp: sound_evidence_def list_all_iff node_ids_def)
  ultimately show ?thesis using n by (cases "p = []") (auto simp: node_ids_def)
qed

lemma distinct_real_edges:
  assumes "sound_evidence ns"
  shows "distinct (real_edges ns)"
proof -
  have "distinct (concat (map (\<lambda>n. map (\<lambda>p. (p, node_id n)) (true_parents n)) ms))"
    if "set ms \<subseteq> set ns" "distinct (map node_id ms)" for ms
    using that
  proof (induction ms)
    case (Cons m ms)
    then have "distinct (true_parents m)" using assms by (auto simp: sound_evidence_def list_all_iff)
    with Cons show ?case by (auto simp: distinct_map inj_on_def)
  qed simp
  with assms show ?thesis by (simp add: real_edges_def sound_evidence_def node_ids_def)
qed

section \<open>Sets of strings\<close>

lemma py_eq_PStr [simp]: "py_eq (PStr a) (PStr b) \<longleftrightarrow> a = b"
  by (simp add: py_eq_def)

lemma dedupe_strings: "distinct xs \<Longrightarrow> dedupe (map PStr xs) = map PStr xs"
  by (induction xs rule: rev_induct) (auto simp: dedupe_snoc list_ex_iff, simp add: dedupe_def)

lemma value_set_strings: "distinct xs \<Longrightarrow> value_set (map PStr xs) = Inr (map PStr xs)"
  by (simp add: value_set_Inr dedupe_strings list_all_iff)

lemma in_set_strings [simp]: "in_set (PStr s) (map PStr xs) = Inr (s \<in> set xs)"
  by (auto simp: in_set_iff image_iff)

definition string_pair :: "string \<times> string \<Rightarrow> pv \<times> pv" where
  "string_pair e = (PStr (fst e), PStr (snd e))"

lemma dedupe_pairs:
  "distinct es \<Longrightarrow> foldl (\<lambda>acc e. if list_ex (same_pair e) acc then acc else acc @ [e]) [] (map string_pair es) = map string_pair es"
  by (induction es rule: rev_induct) (auto simp: list_ex_iff same_pair_def string_pair_def)

section \<open>Every error list is empty\<close>

definition parsed_of :: "dag_node list \<Rightarrow> parsed_inventory" where
  "parsed_of ns = \<lparr>pi_nodes = map (\<lambda>n. canon (node_pv n)) ns, pi_edges = map (\<lambda>e. canon (edge_pv e)) (build_edges ns),
     pi_good = map (\<lambda>n. canon (node_pv n)) ns, pi_hashes = map PStr (node_ids ns)\<rparr>"

lemma hashes_read:
  assumes "sound_evidence ns"
  shows "mapE (\<lambda>n. get_none n ''node-hash'') (pi_good (parsed_of ns)) = Inr (map PStr (node_ids ns))"
  unfolding parsed_of_def parsed_inventory.simps node_ids_def map_map o_def
  by (rule mapE_map_Inr) (simp add: node_hash_id [OF assms])

lemma hashes_true: "sound_evidence ns \<Longrightarrow> filter truthy (map PStr (node_ids ns)) = map PStr (node_ids ns)"
  using node_hash_id by (intro filter_True) (fastforce simp: node_ids_def)

lemma no_duplicates:
  assumes "sound_evidence ns"
  shows "duplicate_errors (parsed_of ns) = Inr []"
proof -
  have once: "length (filter ((=) a) xs) \<le> 1" if "distinct xs" for a and xs :: "string list"
    using that by (induction xs) (auto simp: filter_empty_conv)
  have "length (filter (py_eq h) (map PStr (node_ids ns))) \<le> 1" if "h \<in> set (map PStr (node_ids ns))" for h
  proof -
    from that obtain a where h: "h = PStr a" by auto
    from once [of "node_ids ns" a] assms show ?thesis by (simp add: h filter_map o_def sound_evidence_def)
  qed
  then have "filter (\<lambda>h. 1 < length (filter (py_eq h) (map PStr (node_ids ns)))) (map PStr (node_ids ns)) = []"
    by (fastforce simp: filter_empty_conv)
  then show ?thesis
    unfolding duplicate_errors_def hashes_read [OF assms] bindE_simps by (simp add: parsed_of_def sorted_values_def)
qed

lemma no_name_errors:
  assumes "distinct (map en_file ns)" "\<forall>n \<in> set ns. en_file n \<noteq> []"
  shows "name_errors (parsed_of ns) = Inr []"
proof -
  have "mapE (\<lambda>n. get_none n ''file'') (pi_nodes (parsed_of ns)) = Inr (map PStr (map en_file ns))"
    unfolding parsed_of_def parsed_inventory.simps map_map o_def by (rule mapE_map_Inr) simp
  moreover have "filter truthy (map PStr (map en_file ns)) = map PStr (map en_file ns)"
    using assms(2) by (intro filter_True) auto
  ultimately have "truthy_fields ''file'' (pi_nodes (parsed_of ns)) = Inr (map PStr (map en_file ns))"
    by (simp add: truthy_fields_def)
  then show ?thesis using value_set_strings [OF assms(1)] by (simp add: name_errors_def) (simp add: parsed_of_def)
qed

lemma no_parse_errors: "parse_errors (parsed_of ns) = []"
  by (simp add: parse_errors_def parsed_of_def)

lemma node_edges_of:
  assumes "sound_evidence ns"
  shows "node_edges (map PStr (node_ids ns)) (pi_edges (parsed_of ns)) = Inr (map string_pair (real_edges ns))"
proof -
  have "mapE (\<lambda>e.
       bindE (get_none e ''parent'') (\<lambda>p.
       bindE (get_none e ''child'') (\<lambda>c.
       bindE (in_set p (map PStr (node_ids ns))) (\<lambda>has_p.
       if \<not> has_p then Inr []
       else bindE (in_set c (map PStr (node_ids ns))) (\<lambda>has_c. Inr (if has_c then [(plain p, plain c)] else []))))))
       (map (\<lambda>e. canon (edge_pv e)) (build_edges ns))
     = Inr (map (\<lambda>e. if fst e \<noteq> [] then [string_pair e] else []) (build_edges ns))"
    by (rule mapE_map_Inr) (use build_edges_ends [OF assms] in \<open>fastforce simp: string_pair_def\<close>)
  moreover have "concat (map (\<lambda>e. if fst e \<noteq> [] then [string_pair e] else []) es)
      = map string_pair (filter (\<lambda>e. fst e \<noteq> []) es)" for es :: "(string \<times> string) list"
    by (induction es) auto
  ultimately show ?thesis by (simp add: node_edges_def parsed_of_def filter_build_edges)
qed

lemma no_cycles:
  assumes "sound_evidence ns" "honest_order I" "length (set_order I (map PStr (node_ids ns))) \<le> recursion_limit I"
  shows "cycle_errors I (parsed_of ns) = Inr []"
proof -
  let ?hs = "map PStr (node_ids ns)" and ?es = "map string_pair (real_edges ns)"
  have "length (map plain (set_order I ?hs)) \<le> recursion_limit I" using assms(3) by simp
  from detect_cycles_returns [OF this] obtain cs where
    cs: "detect_cycles (recursion_limit I) (map plain (set_order I ?hs)) ?es = Inr cs" by blast
  have "acyclic (set ?es)"
  proof -
    have "set ?es = map_prod PStr PStr ` set (real_edges ns)" by (force simp: string_pair_def)
    moreover have "acyclic (map_prod PStr PStr ` r)" if "acyclic r" for r :: "(string \<times> string) set"
    proof -
      have "(str_of a, str_of b) \<in> r\<^sup>+" if "(a, b) \<in> (map_prod PStr PStr ` r)\<^sup>+" for a b
        using that by (induction rule: trancl_induct) (auto intro: trancl_into_trancl)
      with \<open>acyclic r\<close> show ?thesis unfolding acyclic_def by blast
    qed
    ultimately show ?thesis using assms(1) by (simp add: sound_evidence_def)
  qed
  moreover have "graph_of (map plain (set_order I ?hs)) ?es \<subseteq> set ?es" by (auto simp: graph_of_def)
  ultimately have "acyclic (graph_of (map plain (set_order I ?hs)) ?es)" by (rule acyclic_subset)
  with detect_cycles_exact [OF cs] have "cs = []" by blast
  with cs have "detect_dag_cycles I (pi_edges (parsed_of ns)) ?hs = Inr []"
    unfolding detect_dag_cycles_def node_edges_of [OF assms(1)] by simp
  then show ?thesis by (simp add: cycle_errors_def) (simp add: parsed_of_def)
qed

section \<open>Links, roots and index\<close>

lemma edge_pairs_of:
  assumes "sound_evidence ns"
  shows "edge_pairs (pi_edges (parsed_of ns)) = Inr (map string_pair (real_edges ns))"
proof -
  have ends: "snd e \<noteq> []" if "e \<in> set (build_edges ns)" for e
    using build_edges_ends [OF assms that] assms by (auto simp: sound_evidence_def list_all_iff node_ids_def)
  have "mapE (\<lambda>e.
       bindE (get_none e ''parent'') (\<lambda>p.
       bindE (if truthy p then get_none e ''child'' else Inr PNone) (\<lambda>c.
       if truthy p \<and> truthy c
       then if hashable p \<and> hashable c then Inr [(p, c)] else Inl (Builtin TypeError)
       else Inr []))) (map (\<lambda>e. canon (edge_pv e)) (build_edges ns))
     = Inr (map (\<lambda>e. if fst e \<noteq> [] then [string_pair e] else []) (build_edges ns))"
    by (rule mapE_map_Inr) (use ends in \<open>auto simp: string_pair_def\<close>)
  moreover have "concat (map (\<lambda>e. if fst e \<noteq> [] then [string_pair e] else []) es)
      = map string_pair (filter (\<lambda>e. fst e \<noteq> []) es)" for es :: "(string \<times> string) list"
    by (induction es) auto
  ultimately show ?thesis
    by (simp add: edge_pairs_def parsed_of_def filter_build_edges dedupe_pairs [OF distinct_real_edges [OF assms]])
qed

lemma link_known:
  assumes "p \<in> set hs" "(p, c) \<in> set es"
  shows "link_parent (map PStr hs) (map string_pair es) (PStr c) st (PStr p) = Inr st"
proof -
  from assms(2) have "in_pairs (PStr p) (PStr c) (map string_pair es) = Inr True"
    by (force simp: in_pairs_iff string_pair_def)
  with assms(1) show ?thesis by (cases st) (simp add: link_parent_def)
qed

lemma links_known:
  "(\<And>p. p \<in> set ps \<Longrightarrow> p \<in> set hs \<and> (p, c) \<in> set es) \<Longrightarrow>
     foldE (link_parent (map PStr hs) (map string_pair es) (PStr c)) st (map PStr ps) = Inr st"
  by (induction ps) (simp_all add: link_known)

lemma no_link_errors:
  assumes "sound_evidence ns"
  shows "link_errors (parsed_of ns) = Inr []"
proof -
  let ?link = "link_node (map PStr (node_ids ns)) (map string_pair (real_edges ns))"
  have "foldE ?link ([], [], k) (map (\<lambda>n. canon (node_pv n)) ms)
      = Inr ([], [], k + length (concat (map true_parents ms)))" if "set ms \<subseteq> set ns" for k ms
    using that
  proof (induction ms arbitrary: k)
    case (Cons m ms)
    then have m: "m \<in> set ns" by simp
    have "p \<in> set (node_ids ns) \<and> (p, node_id m) \<in> set (real_edges ns)" if "p \<in> set (true_parents m)" for p
      using that m assms by (auto simp: sound_evidence_def list_all_iff real_edges_set)
    then have "?link ([], [], k) (canon (node_pv m)) = Inr ([], [], k + length (true_parents m))"
      using node_hash_id [OF assms m] by (simp add: link_node_def links_known)
    with Cons show ?case by (simp add: add.assoc)
  qed simp
  from this [OF subset_refl] have
    "foldE ?link ([], [], 0) (map (\<lambda>n. canon (node_pv n)) ns) = Inr ([], [], length (real_edges ns))"
    by (simp add: real_edges_def length_concat comp_def)
  then show ?thesis
    unfolding link_errors_def edge_pairs_of [OF assms] bindE_simps by (simp add: parsed_of_def)
qed

text \<open>The bundle roots refer to a node: no reference is other than a text, and one is the hash of a node.\<close>

definition rooted_in :: "dag_node list \<Rightarrow> pv list \<Rightarrow> bool" where
  "rooted_in ns roots \<longleftrightarrow> (\<exists>refs. mapE bundle_root_reference roots = Inr (map opt_pv refs) \<and> (\<exists>h \<in> set (node_ids ns). Some h \<in> set refs))"

lemma any_in_strings: "h \<in> set hs \<Longrightarrow> h \<in> set rs \<Longrightarrow> any_in_set (map PStr rs) (map PStr hs) = Inr True"
  by (induction rs) auto

lemma no_root_errors:
  assumes "sound_evidence ns" "rooted_in ns roots"
  shows "root_errors (parsed_of ns) roots = Inr []"
proof -
  from assms(2) obtain refs h where refs: "mapE bundle_root_reference roots = Inr (map opt_pv refs)"
    and h: "h \<in> set (node_ids ns)" "Some h \<in> set refs" by (auto simp: rooted_in_def)
  define rs where "rs = concat (map (\<lambda>r. case r of None \<Rightarrow> [] | Some s \<Rightarrow> if s = [] then [] else [s]) refs)"
  have true: "filter truthy (map opt_pv refs) = map PStr rs"
    unfolding rs_def by (induction refs) (auto split: option.splits)
  from h(1) assms(1) have "h \<noteq> []" by (auto simp: sound_evidence_def list_all_iff node_ids_def)
  with h(2) have "h \<in> set rs" by (force simp: rs_def)
  from any_in_strings [OF h(1) this] this show ?thesis
    by (auto simp: root_errors_def refs true Let_def parsed_of_def)
qed

lemma indexed_sound:
  assumes "sound_evidence ns"
  shows "indexed ns = map (\<lambda>n. (node_id n, n)) ns"
proof -
  have "concat (map (\<lambda>n. case en_hash n of None \<Rightarrow> [] | Some h \<Rightarrow> if h = [] then [] else [(h, n)]) ms)
      = map (\<lambda>n. (node_id n, n)) ms" if "set ms \<subseteq> set ns" for ms
    using that
  proof (induction ms)
    case (Cons m ms)
    then have "m \<in> set ns" by simp
    from node_hash_id [OF assms this] Cons show ?case by simp
  qed simp
  then show ?thesis by (simp add: indexed_def)
qed

lemma all_hashes_sound: "sound_evidence ns \<Longrightarrow> all_hashes ns = node_ids ns"
  by (simp add: all_hashes_def indexed_sound node_ids_def comp_def) (simp add: sound_evidence_def node_ids_def distinct_remdups_id)

lemma fold_dset_fresh:
  "distinct (map k xs) \<Longrightarrow> foldl (\<lambda>d x. dset (k x) (v x) d) [] xs = map (\<lambda>x. (k x, v x)) xs"
  by (induction xs rule: rev_induct) (auto simp: dset_fresh comp_def)

lemma parents_of_node:
  assumes "sound_evidence ns" "n \<in> set ns"
  shows "get_or (parents_by_child ns) (node_id n) [] = true_parents n"
proof -
  have dist: "distinct (map node_id ns)" using assms(1) by (simp add: sound_evidence_def node_ids_def)
  then have "parents_by_child ns = map (\<lambda>n. (node_id n, true_parents n)) ns"
    using fold_dset_fresh [of fst "indexed ns" "\<lambda>hn. true_parents (snd hn)"]
    by (simp add: parents_by_child_def indexed_sound [OF assms(1)] comp_def)
  moreover from this dist assms(2) have "map_of (parents_by_child ns) (node_id n) = Some (true_parents n)"
    by (intro map_of_is_SomeI) (auto simp: comp_def)
  ultimately show ?thesis by (simp add: get_or_def)
qed

lemma parents_known: "sound_evidence ns \<Longrightarrow> n \<in> set ns \<Longrightarrow> set (true_parents n) \<subseteq> set (all_hashes ns)"
  by (auto simp: sound_evidence_def list_all_iff all_hashes_sound)

lemma no_orphans: "sound_evidence ns \<Longrightarrow> orphan_count ns = 0"
  using parents_known parents_of_node
  by (fastforce simp: orphan_count_def filter_empty_conv all_hashes_sound node_ids_def list_ex_iff)

lemma has_root:
  assumes "sound_evidence ns" "ns \<noteq> []"
  shows "dag_roots ns \<noteq> []"
proof -
  from assms(1) have "wf (set (real_edges ns))" by (simp add: sound_evidence_def finite_acyclic_wf)
  moreover from assms(2) obtain h where "h \<in> set (node_ids ns)" by (cases ns) (auto simp: node_ids_def)
  ultimately obtain z where z: "z \<in> set (node_ids ns)" "\<And>p. (p, z) \<in> set (real_edges ns) \<Longrightarrow> p \<notin> set (node_ids ns)"
    by (metis wfE_min)
  then obtain n where n: "n \<in> set ns" "z = node_id n" by (auto simp: node_ids_def)
  have "true_parents n = []"
  proof (rule ccontr)
    assume "true_parents n \<noteq> []"
    then obtain p where p: "p \<in> set (true_parents n)" by (cases "true_parents n") auto
    with n z(2) have "p \<notin> set (node_ids ns)" by (auto simp: real_edges_set)
    with p parents_known [OF assms(1) n(1)] show False by (auto simp: all_hashes_sound [OF assms(1)])
  qed
  with parents_of_node [OF assms(1) n(1)] n z(1)
  have "z \<in> set (filter (\<lambda>h. list_all (\<lambda>p. p \<notin> set (all_hashes ns)) (get_or (parents_by_child ns) h [])) (all_hashes ns))"
    by (simp add: all_hashes_sound [OF assms(1)])
  then show ?thesis by (metis dag_roots_def empty_iff list.set(1) set_sort)
qed

section \<open>The inventory that run.py writes\<close>

lemma lower_edn_suffix: "has_edn_suffix n \<Longrightarrow> has_edn_suffix (lower n)"
  by (auto simp: has_edn_suffix_def ends_with_def lower_def drop_map lower_char_def)

lemma canon_names [simp]: "canon (names_pv xs) = names_pv xs" "canon (nat_pv n) = nat_pv n"
  by (simp_all add: names_pv_def nat_pv_def)

lemma wf_index: "dict_wf (build_dag_index ns)" "dict_wf (index_summary ns)"
  by (simp_all add: dict_wf_def build_dag_index_def index_summary_def)

lemma index_read:
  "get_in (canon (PDict (build_dag_index ns))) ''dag-index/summary'' (PDict []) = Inr (canon (PDict (index_summary ns)))"
  "get_in (canon (PDict (build_dag_index ns))) ''dag-index/roots'' (PList []) = Inr (names_pv (dag_roots ns))"
  by (subst get_in_canon [OF wf_index(1)], simp, simp add: get_or_def build_dag_index_def del: canon.simps(6))+

lemma summary_read:
  "get_in (canon (PDict (index_summary ns))) ''node-count'' (PInt 0) = Inr (nat_pv (length ns))"
  "get_in (canon (PDict (index_summary ns))) ''orphan-count'' (PInt 0) = Inr (nat_pv (orphan_count ns))"
  by (subst get_in_canon [OF wf_index(2)], simp, simp add: get_or_def index_summary_def del: canon.simps(6))+

lemma inventory_read:
  assumes "dag_of R fs = (ns, errs, edges)"
    and "inventory = canon (PDict (dag_inventory C R fs registry cursor))"
  shows "get_none inventory ''dag/semantic-status'' = Inr (PStr (if ns \<noteq> [] then ''parsed'' else ''inventory-only''))"
    "get_in inventory ''dag/file-hashes'' (PList []) = Inr (PList (map (\<lambda>f. canon (file_hash_pv C f)) (counted_files fs)))"
    "get_in inventory ''dag/nodes'' (PList []) = Inr (PList (map (\<lambda>n. canon (node_pv n)) ns))"
    "get_in inventory ''dag/edges'' (PList []) = Inr (PList (map (\<lambda>e. canon (edge_pv e)) edges))"
    "get_none inventory ''dag/index'' = Inr (if ns \<noteq> [] then canon (PDict (build_dag_index ns)) else PNone)"
proof -
  have wf: "dict_wf (dag_inventory C R fs registry cursor)"
    by (simp add: dict_wf_def dag_inventory_def Let_def split: prod.split)
  show "get_none inventory ''dag/semantic-status'' = Inr (PStr (if ns \<noteq> [] then ''parsed'' else ''inventory-only''))"
    "get_in inventory ''dag/file-hashes'' (PList []) = Inr (PList (map (\<lambda>f. canon (file_hash_pv C f)) (counted_files fs)))"
    "get_in inventory ''dag/nodes'' (PList []) = Inr (PList (map (\<lambda>n. canon (node_pv n)) ns))"
    "get_in inventory ''dag/edges'' (PList []) = Inr (PList (map (\<lambda>e. canon (edge_pv e)) edges))"
    "get_none inventory ''dag/index'' = Inr (if ns \<noteq> [] then canon (PDict (build_dag_index ns)) else PNone)"
    unfolding assms(2)
    by (subst get_in_canon [OF wf];
        simp add: get_or_def dag_inventory_def assms(1) Let_def comp_def del: canon.simps(6))+
qed

lemma no_index_errors:
  assumes "sound_evidence ns" "ns \<noteq> []" "get_none inventory ''dag/index'' = Inr (canon (PDict (build_dag_index ns)))"
  shows "index_errors inventory (parsed_of ns) = Inr []"
proof -
  have "length (pi_good (parsed_of ns)) = length ns" by (simp add: parsed_of_def)
  moreover have "truthy (names_pv (dag_roots ns))" using has_root [OF assms(1,2)] by (simp add: names_pv_def)
  ultimately show ?thesis
    unfolding index_errors_def assms(3) bindE_simps index_read summary_read no_orphans [OF assms(1)]
    by (simp add: nat_pv_def del: canon.simps)
qed

lemma read_inventory_of:
  assumes "sound_evidence ns" "get_in inventory ''dag/nodes'' (PList []) = Inr (PList (map (\<lambda>n. canon (node_pv n)) ns))"
    and "get_in inventory ''dag/edges'' (PList []) = Inr (PList (map (\<lambda>e. canon (edge_pv e)) (build_edges ns)))"
  shows "read_inventory inventory = Inr (parsed_of ns)"
proof -
  have marked: "mapE (\<lambda>n. bindE (get_none n ''parse-error'') (\<lambda>e. Inr (n, \<not> truthy e))) (map (\<lambda>n. canon (node_pv n)) ns)
      = Inr (map (\<lambda>n. (canon (node_pv n), True)) ns)" by (rule mapE_map_Inr) simp
  have good: "map fst (filter snd (map (\<lambda>n. (canon (node_pv n), True)) ns)) = map (\<lambda>n. canon (node_pv n)) ns"
    by (simp add: filter_map comp_def)
  have "truthy_fields ''node-hash'' (map (\<lambda>n. canon (node_pv n)) ns) = Inr (map PStr (node_ids ns))"
    using hashes_read [OF assms(1)] by (simp add: truthy_fields_def parsed_of_def hashes_true [OF assms(1)])
  moreover have "value_set (map PStr (node_ids ns)) = Inr (map PStr (node_ids ns))"
    using assms(1) by (intro value_set_strings) (simp add: sound_evidence_def)
  ultimately show ?thesis
    unfolding read_inventory_def assms(2,3) bindE_simps iter_of.simps marked Let_def good by (simp add: parsed_of_def)
qed

text \<open>The files of the nodes are names of the folder, in order.\<close>

lemma parsed_files:
  assumes "dag_of R fs = (ns, errs, edges)" "distinct (map fst fs)"
  shows "distinct (map en_file ns) \<and> (\<forall>n \<in> set ns. en_file n \<noteq> []) \<and> edges = build_edges ns"
proof (cases "ns = []")
  case True
  with assms show ?thesis
    by (auto simp: dag_of_def parse_edn_nodes_semantic_def Let_def build_edges_def split: if_splits)
next
  case False
  let ?edn = "sort (filter has_edn_suffix (map fst fs))"
  have cons: "parsed_nodes (r # rs) = (case r of Inl f \<Rightarrow> [] | Inr n \<Rightarrow> if en_hash n = None then [] else [n]) @ parsed_nodes rs"
    for r rs by (simp add: parsed_nodes_def)
  have named: "en_file n = x" if "parse_evidence R x = Inr n" for x n
    using that by (auto simp: parse_evidence_def split: sum.splits)
  have "distinct (map en_file (parsed_nodes (map (parse_evidence R) xs)))
      \<and> en_file ` set (parsed_nodes (map (parse_evidence R) xs)) \<subseteq> set xs" if "distinct xs" for xs
    using that
  proof (induction xs)
    case (Cons x xs)
    then show ?case using named [of x] by (cases "parse_evidence R x") (auto simp: cons)
  qed (simp add: parsed_nodes_def)
  from this [of ?edn] assms(2) have "distinct (map en_file (parsed_nodes (map (parse_evidence R) ?edn)))"
    "en_file ` set (parsed_nodes (map (parse_evidence R) ?edn)) \<subseteq> {x. has_edn_suffix x}" by auto
  moreover from assms(1) False have "ns = parsed_nodes (map (parse_evidence R) ?edn)" "edges = build_edges ns"
    by (auto simp: dag_of_def parse_edn_nodes_semantic_def Let_def split: if_splits)
  ultimately show ?thesis by (auto simp: has_edn_suffix_def)
qed

lemma written_inventory_errors:
  assumes "dag_of R fs = (ns, errs, edges)" "sound_evidence ns" "ns \<noteq> []" "rooted_in ns roots"
    and "distinct (map fst fs)" "list_all (\<lambda>f. has_edn_suffix (fst f)) fs"
    and "honest_order I" "length (set_order I (map PStr (node_ids ns))) \<le> recursion_limit I"
  shows "inventory_errors I (canon (PDict (dag_inventory C R fs registry cursor))) roots (length fs) = Inr []"
proof -
  let ?inv = "canon (PDict (dag_inventory C R fs registry cursor))"
  note fields = inventory_read [OF assms(1) refl, of C registry cursor]
  note files = parsed_files [OF assms(1,5)]
  have "counted_files fs = fs"
    unfolding counted_files_def
  proof (rule filter_True, rule ballI)
    fix f assume "f \<in> set fs"
    with assms(6) have "has_edn_suffix (fst f)" by (auto simp: list_all_iff)
    then show "is_json_file f \<or> is_edn_file f" by (simp add: is_edn_file_def lower_edn_suffix)
  qed
  then have counts: "inventory_only ?inv (length fs) = Inr []" "file_count_errors ?inv (length fs) = Inr []"
    using assms(3) by (simp_all add: inventory_only_def file_count_errors_def fields del: canon.simps)
  have P: "read_inventory ?inv = Inr (parsed_of ns)"
    using files by (intro read_inventory_of [OF assms(2)]) (simp_all add: fields del: canon.simps)
  have index: "index_errors ?inv (parsed_of ns) = Inr []"
    using assms(3) by (intro no_index_errors [OF assms(2,3)]) (simp add: fields del: canon.simps)
  show ?thesis
    using files counts index
    by (simp add: inventory_errors_def P no_duplicates [OF assms(2)] no_name_errors no_parse_errors no_cycles [OF assms(2,7,8)]
        no_link_errors [OF assms(2)] no_root_errors [OF assms(2,4)] del: canon.simps)
qed

text \<open>
  C18: the verifier accepts the inventory that a run writes.  When the folder has only EDN files, and the
  nodes that were parsed from them have hashes of their own, name only one another as parents, have no
  cycle and are no more than the recursion limit allows, and one of them is named by a bundle root, then
  \<^verbatim>\<open>verify.py\<close> finds no error in the inventory that \<^verbatim>\<open>run.py\<close> wrote -- also when other files of the folder
  could not be parsed.
\<close>

theorem written_inventory_accepted:
  assumes "dag_of R fs = (ns, errs, edges)" "sound_evidence ns" "ns \<noteq> []" "rooted_in ns roots"
    and "distinct (map fst fs)" "list_all (\<lambda>f. has_edn_suffix (fst f)) fs"
    and "honest_order I" "length (set_order I (map PStr (node_ids ns))) \<le> recursion_limit I"
  shows "inventory_errors I (canon (PDict (dag_inventory C R fs registry cursor))) roots (length fs) = Inr []"
  by (rule written_inventory_errors [OF assms])

section \<open>What is never accepted, and what is never counted\<close>

lemma json_not_edn: "has_json_suffix n \<Longrightarrow> \<not> has_edn_suffix n"
proof -
  assume "has_json_suffix n"
  then have "n = take (length n - 5) n @ ''.json''" by (metis append_take_drop_id has_json_suffix_def)
  then obtain xs where "n = xs @ ''.json''" by blast
  then show ?thesis by (simp add: has_edn_suffix_def ends_with_def)
qed

text \<open>
  A folder of evidence with a JSON file is never accepted.  \<^verbatim>\<open>run.py\<close> copies JSON and EDN files into the
  folder and counts both, \<^verbatim>\<open>verify.py\<close> compares that count with the number of EDN files.
\<close>

theorem json_evidence_rejected:
  assumes "f \<in> set fs" "is_json_file f"
  shows "inventory_errors I (canon (PDict (dag_inventory C R fs registry cursor))) roots
    (length (filter (\<lambda>f. has_edn_suffix (fst f)) fs)) \<noteq> Inr []"
proof
  let ?inv = "canon (PDict (dag_inventory C R fs registry cursor))" and ?edn = "\<lambda>f :: dag_file. has_edn_suffix (fst f)"
  assume accepted: "inventory_errors I ?inv roots (length (filter ?edn fs)) = Inr []"
  obtain ns errs edges where parse: "dag_of R fs = (ns, errs, edges)" by (cases "dag_of R fs") auto
  from no_errors [OF accepted] have "file_count_errors ?inv (length (filter ?edn fs)) = Inr []" by blast
  then have same: "length (counted_files fs) = length (filter ?edn fs)"
    by (simp add: file_count_errors_def inventory_read(2) [OF parse refl] del: canon.simps split: if_splits)
  have "\<not> ?edn f" using assms(2) json_not_edn lower_edn_suffix by (auto simp: is_json_file_def)
  with assms have "length (filter ?edn (counted_files fs)) < length (counted_files fs)"
    by (intro length_filter_less [of f]) (auto simp: counted_files_def)
  moreover have "filter ?edn (counted_files fs) = filter ?edn fs"
    unfolding counted_files_def filter_filter by (rule filter_cong) (auto simp: is_edn_file_def lower_edn_suffix)
  ultimately show False using same by simp
qed

text \<open>
  The status of a node is \<^verbatim>\<open>(str (:status ...))\<close>, and the text of a keyword starts with a colon; the counts
  of failures and errors look for \<open>fail\<close> and \<open>error\<close> without one.
\<close>

lemma grouped_keys:
  "fst ` set (foldl (\<lambda>d hn. if key (snd hn) = [] then d else append_at (key (snd hn)) (fst hn) d) d0 hs)
     \<subseteq> fst ` set d0 \<union> (key \<circ> snd) ` set hs"
proof (induction hs arbitrary: d0)
  case (Cons hn hs)
  show ?case
  proof (cases "key (snd hn) = []")
    case False
    have "fst ` set (append_at (key (snd hn)) (fst hn) d0) = insert (key (snd hn)) (fst ` set d0)"
      by (simp add: append_at_def dom_update)
    with Cons.IH [of "append_at (key (snd hn)) (fst hn) d0"] False show ?thesis by (simp add: comp_def)
  next
    case True
    with Cons.IH [of d0] show ?thesis by (simp add: subset_insertI2)
  qed
qed simp

lemma keyword_status_uncounted:
  assumes "\<forall>n \<in> set ns. starts_with '':'' (en_status n)" "\<not> starts_with '':'' st"
  shows "node_status_count st ns = 0"
proof -
  have "st \<notin> fst ` set (grouped en_status ns)"
    using grouped_keys [of en_status "[]" "indexed ns"] assms by (auto simp: grouped_def indexed_def split: option.splits if_splits)
  then have "map_of (grouped en_status ns) st = None" by (simp add: map_of_eq_None_iff)
  then show ?thesis by (simp add: node_status_count_def get_or_def)
qed

section \<open>Concrete folders\<close>

definition sample_dag_node :: "string \<Rightarrow> string list \<Rightarrow> dag_node" where
  "sample_dag_node h ps = \<lparr>en_hash = Some h, en_execution = ''x'', en_kind = '':k'', en_runner = ''r'', en_status = '':fail'',
     en_parents = ps, en_record = PNone, en_file = []\<rparr>"

definition sample_reader :: node_reader where
  "sample_reader = \<lparr>nr_runs = True, nr_read = (\<lambda>name.
     if name = ''a.edn'' then Inr (sample_dag_node ''n1'' []) else if name = ''b.edn'' then Inr (sample_dag_node ''n2'' [''n1''])
     else Inl (Some ''EOF''))\<rparr>"

definition sample_files :: "dag_file list" where
  "sample_files = [(''b.edn'', Some ''B''), (''a.edn'', Some ''A''), (''broken.edn'', Some ''('')]"

definition sample_parsed :: "dag_node list" where
  "sample_parsed = [sample_dag_node ''n1'' []\<lparr>en_file := ''a.edn''\<rparr>, sample_dag_node ''n2'' [''n1'']\<lparr>en_file := ''b.edn''\<rparr>]"

lemma sample_parse: "dag_of sample_reader sample_files = (sample_parsed, [\<lparr>pe_file = ''broken.edn'', pe_message = Some ''EOF''\<rparr>], [(''n1'', ''n2'')])"
  by code_simp

lemma sample_sound: "sound_evidence sample_parsed"
proof -
  have "list_all (\<lambda>n. en_hash n \<noteq> None \<and> node_id n \<noteq> [] \<and> distinct (true_parents n)
      \<and> list_all (\<lambda>p. p \<in> set (node_ids sample_parsed)) (true_parents n)) sample_parsed \<and> distinct (node_ids sample_parsed)"
    by code_simp
  moreover have "real_edges sample_parsed = [(''n1'', ''n2'')]" by code_simp
  moreover have "acyclic {(''n1'', ''n2'')}" by (simp add: acyclic_insert) (simp add: acyclic_def)
  ultimately show ?thesis by (auto simp: sound_evidence_def list_all_iff subset_iff)
qed

text \<open>Three EDN files, one of which cannot be read: the inventory is accepted.\<close>

lemma written_inventory_accepted_witness:
  "inventory_errors \<lparr>recursion_limit = 10, set_order = (\<lambda>xs. xs)\<rparr>
     (canon (PDict (dag_inventory sample_crypto sample_reader sample_files None None))) [sample_root ''00''] (length sample_files) = Inr []"
proof (rule written_inventory_accepted [OF sample_parse sample_sound])
  have "mapE bundle_root_reference [sample_root ''00''] = Inr (map opt_pv [Some ''n2''])" by code_simp
  moreover have "''n2'' \<in> set (node_ids sample_parsed)" by code_simp
  ultimately show "rooted_in sample_parsed [sample_root ''00'']" 
    unfolding rooted_in_def by (intro exI [of _ "[Some ''n2'']"] conjI bexI [of _ "''n2''"]) (assumption | simp)+
qed (simp_all add: sample_parsed_def sample_files_def has_edn_suffix_def ends_with_def honest_order_def node_ids_def)

lemma json_evidence_rejected_witness:
  "inventory_errors \<lparr>recursion_limit = 10, set_order = (\<lambda>xs. xs)\<rparr>
     (canon (PDict (dag_inventory sample_crypto sample_reader [(''a.edn'', Some ''A''), (''n.json'', Some ''J'')] None None)))
     [sample_root ''00''] (length (filter (\<lambda>f. has_edn_suffix (fst f)) [(''a.edn'', Some ''A''), (''n.json'', Some ''J'')])) \<noteq> Inr []"
  by (rule json_evidence_rejected [of "(''n.json'', Some ''J'')"]) (simp, code_simp)

end
