(* ===== verification/Run_Theorems.thy ===== *)
theory Run_Theorems
  imports Forensic_Run Preflight_Theorems Dag_Theorems Object_Store
begin

text \<open>
  What a forensic run leaves behind: run directories are recognised and kept up to the limit, the documents
  a run seals are the ones its verifier accepts, and exit code 0 means preflight, pipeline and verification
  all passed.
\<close>

section \<open>Retention\<close>

definition run_entry :: "string \<times> bool \<Rightarrow> bool" where
  "run_entry d \<longleftrightarrow> snd d \<and> is_forensic_run_dir (fst d)"

lemma safe_label_plain: "CHR ''/'' \<notin> set (safe_label l)"
  by (auto simp: safe_label_def isalnum_def)

lemma stamp_length: "matches_stamp s \<Longrightarrow> length s = 20"
  by (auto simp: matches_stamp_def dest: list_all2_lengthD)

text \<open>A run identifier is recognised as one, and is a single name below the output directory.\<close>

lemma run_id_recognised:
  assumes "matches_stamp stamp"
  shows "is_forensic_run_dir (make_run_id stamp label)" "CHR ''/'' \<notin> set (make_run_id stamp label)"
proof -
  from assms show "is_forensic_run_dir (make_run_id stamp label)"
    by (simp add: is_forensic_run_dir_def make_run_id_def stamp_length)
  have "CHR ''/'' \<notin> set stamp"
    using assms by (auto simp: matches_stamp_def list_all2_Cons1 is_digit_def)
  then show "CHR ''/'' \<notin> set (make_run_id stamp label)"
    by (auto simp: make_run_id_def safe_label_plain)
qed

lemma sort_split: "set xs = set (take n (sort xs)) \<union> set (drop n (sort xs))"
  by (metis append_take_drop_id set_append set_sort)

lemma sorted_split_le: "x \<in> set (take n (sort xs)) \<Longrightarrow> y \<in> set (drop n (sort xs)) \<Longrightarrow> x \<le> (y :: string)"
  by (metis append_take_drop_id sorted_append sorted_sort)

text \<open>
  C35: retention is bounded and never touches anything else.  When the limit is positive (0 means none) and
  the system lets the run directories be removed, at most the given number of them is left; whatever is removed is a run directory that is not
  newer than any that is left; and every other entry stays.
\<close>

theorem retention_bounded:
  assumes "0 < max_runs" "distinct (map fst ls)"
    and "list_all (\<lambda>d. run_entry d \<longrightarrow> removable (fst d)) ls"
  shows "length (filter run_entry (enforce_retention removable max_runs ls)) \<le> nat max_runs
    \<and> filter (\<lambda>d. \<not> run_entry d) (enforce_retention removable max_runs ls) = filter (\<lambda>d. \<not> run_entry d) ls
    \<and> (\<forall>d e. d \<in> set ls - set (enforce_retention removable max_runs ls)
          \<and> e \<in> set (enforce_retention removable max_runs ls) \<and> run_entry e \<longrightarrow> run_entry d \<and> fst d \<le> fst e)"
proof -
  define names where "names = map fst (filter run_entry ls)"
  define old where "old = take (length names - nat max_runs) (sort names)"
  let ?out = "enforce_retention removable max_runs ls"
  have out: "?out = (if int (length names) \<le> max_runs then ls else filter (\<lambda>d. \<not> (run_entry d \<and> fst d \<in> set old)) ls)"
  proof -
    have "filter (\<lambda>d. \<not> (fst d \<in> set old \<and> snd d \<and> removable (fst d))) ls = filter (\<lambda>d. \<not> (run_entry d \<and> fst d \<in> set old)) ls"
    proof (rule filter_cong [OF refl])
      fix d assume d: "d \<in> set ls"
      have "run_entry d" if old: "fst d \<in> set old" and dir: "snd d"
      proof -
        from old have "fst d \<in> set names" unfolding old_def by (metis in_set_takeD set_sort)
        with dir show ?thesis by (auto simp: names_def run_entry_def)
      qed
      moreover have "run_entry d \<Longrightarrow> snd d \<and> removable (fst d)" using d assms(3) by (auto simp: list_all_iff run_entry_def)
      ultimately show "(\<not> (fst d \<in> set old \<and> snd d \<and> removable (fst d))) = (\<not> (run_entry d \<and> fst d \<in> set old))" by blast
    qed
    then show ?thesis
      using assms(1) by (simp add: enforce_retention_def Let_def names_def old_def run_entry_def [abs_def])
  qed
  have left: "length (filter run_entry ?out) \<le> nat max_runs"
  proof (cases "int (length names) \<le> max_runs")
    case True
    then show ?thesis by (simp add: out names_def)
  next
    case False
    have dist: "distinct names" using assms(2) by (simp add: names_def distinct_map_filter)
    have "map fst (filter run_entry ?out) = filter (\<lambda>n. n \<notin> set old) names"
      using False by (simp add: out names_def filter_map comp_def conj_commute) (rule arg_cong [where f = "map fst"], rule filter_cong, auto)
    then have same: "length (filter run_entry ?out) = length (filter (\<lambda>n. n \<notin> set old) names)" by (metis length_map)
    have "set (filter (\<lambda>n. n \<notin> set old) names) \<subseteq> set (drop (length names - nat max_runs) (sort names))"
      using sort_split [of names] by (auto simp: old_def)
    then have "card (set (filter (\<lambda>n. n \<notin> set old) names)) \<le> length (drop (length names - nat max_runs) (sort names))"
      by (meson List.finite_set card_length card_mono le_trans)
    moreover have "card (set (filter (\<lambda>n. n \<notin> set old) names)) = length (filter (\<lambda>n. n \<notin> set old) names)"
      using dist by (intro distinct_card distinct_filter)
    ultimately show ?thesis by (simp add: same del: set_filter)
  qed
  have "filter (\<lambda>d. \<not> run_entry d) ?out = filter (\<lambda>d. \<not> run_entry d) ls" by (auto simp: out intro!: filter_cong)
  moreover have "run_entry d \<and> fst d \<le> fst e" if "d \<in> set ls" "d \<notin> set ?out" "e \<in> set ?out" "run_entry e" for d e
  proof -
    from that(1,2) have d: "run_entry d" "fst d \<in> set old" and many: "\<not> int (length names) \<le> max_runs" by (auto simp: out split: if_splits)
    from that(3,4) many have "fst e \<in> set names" "fst e \<notin> set old" by (auto simp: out names_def)
    then have "fst e \<in> set (drop (length names - nat max_runs) (sort names))"
      using sort_split [of names] by (auto simp: old_def)
    with d sorted_split_le show ?thesis by (auto simp: old_def)
  qed
  ultimately show ?thesis using left by blast
qed

text \<open>
  A run that ended with exit code 0 is made read-only, and then the system does not let its directory be
  removed; the retention then removes nothing and reports nothing.
\<close>

lemma hardened_never_removed: "enforce_retention (\<lambda>_. False) max_runs ls = ls"
  by (simp add: enforce_retention_def Let_def)

section \<open>Steps and what they leave alone\<close>

lemma seal_Inr: "seal E p v st = Inr st' \<Longrightarrow> st' = dset p (Sealed v) st"
  by (auto simp: seal_def write_sealed_json_def bindE_Inr_iff Let_def split: disk_result.splits if_splits)

text \<open>What the disk gives back for a sealed document has the hash of the document.\<close>

lemma sealed_readback:
  assumes "write_sealed_json C D p v st = Inr (st', h)"
  shows "\<exists>t. D p (json_dumps v) = ReadsBack t \<and> sha256_text C t = h \<and> h = sha256_text C (json_dumps v)"
  using assms by (auto simp: write_sealed_json_def Let_def split: disk_result.splits if_splits)

lemma copy_in_Inr: "copy_in bytes src p st = Inr st' \<Longrightarrow> \<exists>t. st' = dset p (Raw (Some t)) st"
  by (auto simp: copy_in_def split: option.splits)

lemma copy_entry_Inr: "copy_entry src p st = Inr st' \<Longrightarrow> \<exists>f. st' = dset p f st"
  by (auto simp: copy_entry_def split: option.splits run_file.splits)

lemma foldE_keeps:
  assumes "foldE f s xs = Inr s'" "\<And>t x t'. x \<in> set xs \<Longrightarrow> f t x = Inr t' \<Longrightarrow> map_of t' p = map_of t p"
  shows "map_of s' p = map_of s p"
  using foldE_invariant [of "\<lambda>t. map_of t p = map_of s p" xs f s s'] assms by simp

lemma copy_folder_keeps:
  assumes "copy_folder wanted src dst st = Inr st'" "butlast p \<noteq> dst"
  shows "map_of st' p = map_of st p"
proof -
  have "map_of t' p = map_of t p" if "copy_entry (src @ [n]) (dst @ [n]) t = Inr t'" for t n t'
    using copy_entry_Inr [OF that] assms(2) by auto
  with assms(1) show ?thesis by (auto simp: copy_folder_def split: if_splits intro: foldE_keeps)
qed

lemma copy_anchors_keeps:
  assumes "copy_anchors st = Inr st'" "butlast p \<noteq> [''anchors'']"
  shows "map_of st' p = map_of st p"
  using assms(1) unfolding copy_anchors_def
proof (rule foldE_keeps)
  fix t n t' assume "(if has_key t [''workspace'', n] then copy_entry [''workspace'', n] [''anchors'', n] t else Inr t) = Inr t'"
  with assms(2) show "map_of t' p = map_of t p" by (auto split: if_splits dest!: copy_entry_Inr)
qed

lemma copy_scenarios_keeps: "hd p \<noteq> ''scenarios'' \<Longrightarrow> map_of (copy_scenarios E ps st) p = map_of st p"
  by (induction ps arbitrary: st) (auto split: option.splits)

lemma bundle_scenarios_keeps: "hd p \<noteq> ''scenarios'' \<Longrightarrow> map_of (bundle_scenario_files E suite st) p = map_of st p"
  by (auto simp: bundle_scenario_files_def copy_scenarios_keeps Let_def split: option.splits)

lemma bundle_deps_keeps: "p \<noteq> [''deps.edn''] \<Longrightarrow> map_of (bundle_deps E st) p = map_of st p"
  by (simp add: bundle_deps_def split: option.splits)

text \<open>Where the pipeline may write: its workspace, its result folders and its own bundle root.\<close>

definition pipeline_area :: "string list" where
  "pipeline_area = [''workspace'', ''results'', ''runs'', ''clojure-bundle-root.json'']"

definition pipeline_confined :: "run_env \<Rightarrow> bool" where
  "pipeline_confined E \<longleftrightarrow> (\<forall>cmd env code fs. re_pipeline E cmd env = Inr (code, fs) \<longrightarrow>
     list_all (\<lambda>pf. fst pf \<noteq> [] \<and> hd (fst pf) \<in> set pipeline_area) fs)"

lemma update_all_keeps: "p \<notin> fst ` set fs \<Longrightarrow> map_of (foldl (\<lambda>s kv. dset (fst kv) (snd kv) s) st fs) p = map_of st p"
  by (induction fs arbitrary: st) auto

lemma run_pipeline_keeps:
  assumes "run_pipeline E a info st = Inr (code, st')" "pipeline_confined E" "hd p \<notin> set pipeline_area"
  shows "map_of st' p = map_of st p"
proof -
  from assms(1) obtain cmd env fs where run: "re_pipeline E cmd env = Inr (code, fs)"
    and st': "st' = foldl (\<lambda>s kv. dset (fst kv) (snd kv) s) st fs"
    by (auto simp: run_pipeline_def bindE_Inr_iff)
  from run assms(2) have "list_all (\<lambda>pf. fst pf \<noteq> [] \<and> hd (fst pf) \<in> set pipeline_area) fs" by (simp add: pipeline_confined_def)
  with assms(3) have "p \<notin> fst ` set fs" by (auto simp: list_all_iff)
  with st' update_all_keeps show ?thesis by simp
qed

lemma collect_keeps:
  assumes "collect_results E a code st = Inr st'" "n \<notin> {''scenarios'', ''deps.edn'', ''results-summary.json'', ''evidence-dag-inventory.json''}"
  shows "map_of st' [n] = map_of st [n]"
proof -
  from assms(1) obtain suite s1 s2 s3 s4 where steps:
    "seal E [''results-summary.json''] (PDict (results_summary code suite))
       (bundle_deps E (if truthy suite then bundle_scenario_files E suite st else st)) = Inr s1"
    "copy_folder is_evidence_name [''workspace'', ''evidence-nodes''] [''evidence-dag''] s1 = Inr s2"
    "copy_folder has_json_suffix [''workspace'', ''claims''] [''claims''] s2 = Inr s3"
    "copy_folder has_json_suffix [''workspace'', ''attestations''] [''attestations''] s3 = Inr s4"
    "seal E [''evidence-dag-inventory.json''] (PDict (run_inventory E s4)) s4 = Inr st'"
    unfolding collect_results_def Let_def bindE_Inr_iff by blast
  from seal_Inr [OF steps(1)] seal_Inr [OF steps(5)] assms(2) copy_folder_keeps [OF steps(2), of "[n]"]
    copy_folder_keeps [OF steps(3), of "[n]"] copy_folder_keeps [OF steps(4), of "[n]"]
  show ?thesis by (auto simp: bundle_deps_keeps bundle_scenarios_keeps)
qed

lemma set_up_files:
  assumes "set_up E a report = Inr st"
  shows "map_of st [''preflight-report.json''] = Some (Sealed (PDict (preflight_report_pv report)))"
    "\<forall>n \<in> {''source-snapshot.json'', ''environment.json'', ''input-manifest.json''}. \<exists>v. map_of st [n] = Some (Sealed v)"
    "\<forall>n \<in> set required_dirs. map_of st [n] = Some Dir"
proof -
  from assms obtain s1 s2 s3 s4 s5 s6 where steps:
    "seal E [''preflight-report.json''] (PDict (preflight_report_pv report)) run_folders = Inr s1"
    "seal E [''source-snapshot.json''] (PDict (source_info E a)) s1 = Inr s2"
    "seal E [''environment.json''] (PDict (environment_info E)) s2 = Inr s3"
    "(if ra_request a = [] then Inr s3 else copy_in (re_bytes E) (ra_request a) [''run-request.json''] s3) = Inr s4"
    "copy_if_present E (ra_registry a) [''registry-snapshot.json''] s4 = Inr s5"
    "copy_if_present E (ra_policy a) [''evidence-policy.edn''] s5 = Inr s6"
    "seal E [''input-manifest.json''] (PDict (input_manifest E a)) s6 = Inr st"
    unfolding set_up_def if_Inl_Inr_iff bindE_Inr_iff by blast
  have s4: "map_of s4 p = map_of s3 p" if "p \<noteq> [''run-request.json'']" for p
    using steps(4) that by (auto split: if_splits dest!: copy_in_Inr)
  have s5: "map_of s5 p = map_of s4 p" if "p \<noteq> [''registry-snapshot.json'']" for p
    using steps(5) that by (auto simp: copy_if_present_def Let_def split: if_splits dest!: copy_in_Inr)
  have s6: "map_of s6 p = map_of s5 p" if "p \<noteq> [''evidence-policy.edn'']" for p
    using steps(6) that by (auto simp: copy_if_present_def Let_def split: if_splits dest!: copy_in_Inr)
  note ends = seal_Inr [OF steps(1)] seal_Inr [OF steps(2)] seal_Inr [OF steps(3)] seal_Inr [OF steps(7)]
  show "map_of st [''preflight-report.json''] = Some (Sealed (PDict (preflight_report_pv report)))"
    "\<forall>n \<in> {''source-snapshot.json'', ''environment.json'', ''input-manifest.json''}. \<exists>v. map_of st [n] = Some (Sealed v)"
    "\<forall>n \<in> set required_dirs. map_of st [n] = Some Dir"
    by (simp_all add: ends s4 s5 s6 required_dirs_def run_folders_def)
qed

lemma seal_run_files:
  assumes "seal_run E a report code st = Inr st'"
  obtains root where "sealed_root E a (bundle_root E a report code (inventory_hash E st) (execution_node_hash E st)) = Inr root"
    "map_of st' [''run-bundle-root.json''] = Some (Sealed (PDict root))"
    "map_of st' [''run-overview.json''] = Some (Sealed (PDict (sealed_overview E a code)))"
    "\<forall>n. n \<notin> {''run-bundle-root.json'', ''run-overview.json''} \<longrightarrow> map_of st' [n] = map_of st [n]"
proof -
  from assms obtain s1 s2 s3 root where steps: "copy_anchors st = Inr s1"
    "seal E [''run-overview.json''] (PDict (sealed_overview E a code)) s1 = Inr s2"
    "sealed_root E a (bundle_root E a report code (inventory_hash E st) (execution_node_hash E st)) = Inr root"
    "seal E [''run-bundle-root.json''] (PDict root) s2 = Inr s3"
    "seal E [''anchors'', ''anchor-cursor.json''] (PDict (anchor_cursor E a st)) s3 = Inr st'"
    unfolding seal_run_def Let_def bindE_Inr_iff by blast
  note ends = seal_Inr [OF steps(2)] seal_Inr [OF steps(4)] seal_Inr [OF steps(5)]
  show thesis
    using copy_anchors_keeps [OF steps(1)] by (intro that [OF steps(3)]) (simp_all add: ends)
qed

section \<open>A completed run\<close>

lemma executed_run:
  assumes "execute_run E a report = Inr out"
  obtains st0 st1 st2 code where "set_up E a report = Inr st0" "run_pipeline E a (source_info E a) st0 = Inr (code, st1)"
    "collect_results E a code st1 = Inr st2" "seal_run E a report code st2 = Inr (ro_store out)"
    "ro_exit out = (if verification_failed E a (ro_store out) then 1 else code)"
proof -
  from assms obtain st0 r st2 st3 where steps: "set_up E a report = Inr st0" "run_pipeline E a (source_info E a) st0 = Inr r"
    "collect_results E a (fst r) (snd r) = Inr st2" "seal_run E a report (fst r) st2 = Inr st3"
    and out: "(let exit_code = (if verification_failed E a st3 then 1 else fst r) in
      Inr \<lparr>ro_status = (if exit_code = 0 then ''pass'' else ''failed''), ro_exit = exit_code, ro_store = st3,
       ro_hardened = (\<not> ra_no_harden a \<and> exit_code = 0)\<rparr>) = (Inr out :: ev_error + run_outcome)"
    unfolding execute_run_def bindE_Inr_iff case_prod_beta by blast
  from out have "ro_store out = st3" "ro_exit out = (if verification_failed E a st3 then 1 else fst r)"
    by (auto simp: Let_def)
  with steps show thesis by (intro that [of st0 "fst r" "snd r" st2]) simp_all
qed

lemma run_files:
  assumes "execute_run E a report = Inr out" "pipeline_confined E"
  obtains code root dag_hash node_hash where
    "sealed_root E a (bundle_root E a report code dag_hash node_hash) = Inr root"
    "map_of (ro_store out) [''run-bundle-root.json''] = Some (Sealed (PDict root))"
    "map_of (ro_store out) [''run-overview.json''] = Some (Sealed (PDict (sealed_overview E a code)))"
    "map_of (ro_store out) [''preflight-report.json''] = Some (Sealed (PDict (preflight_report_pv report)))"
    "\<forall>n \<in> {''source-snapshot.json'', ''environment.json'', ''input-manifest.json''}. \<exists>v. map_of (ro_store out) [n] = Some (Sealed v)"
    "\<forall>n \<in> set required_dirs. map_of (ro_store out) [n] = Some Dir"
proof -
  obtain st0 st1 st2 code where steps: "set_up E a report = Inr st0" "run_pipeline E a (source_info E a) st0 = Inr (code, st1)"
    "collect_results E a code st1 = Inr st2" "seal_run E a report code st2 = Inr (ro_store out)"
    by (rule executed_run [OF assms(1)])
  obtain root where root: "sealed_root E a (bundle_root E a report code (inventory_hash E st2) (execution_node_hash E st2)) = Inr root"
    "map_of (ro_store out) [''run-bundle-root.json''] = Some (Sealed (PDict root))"
    "map_of (ro_store out) [''run-overview.json''] = Some (Sealed (PDict (sealed_overview E a code)))"
    and rest: "\<forall>n. n \<notin> {''run-bundle-root.json'', ''run-overview.json''} \<longrightarrow> map_of (ro_store out) [n] = map_of st2 [n]"
    by (rule seal_run_files [OF steps(4)])
  have early: "map_of (ro_store out) [n] = map_of st0 [n]"
    if "n \<in> {''preflight-report.json'', ''source-snapshot.json'', ''environment.json'', ''input-manifest.json''} \<union> set required_dirs" for n
  proof -
    from that have "n \<notin> {''run-bundle-root.json'', ''run-overview.json''}"
      "n \<notin> {''scenarios'', ''deps.edn'', ''results-summary.json'', ''evidence-dag-inventory.json''}" "n \<notin> set pipeline_area"
      by (auto simp: required_dirs_def pipeline_area_def)
    with rest collect_keeps [OF steps(3)] run_pipeline_keeps [OF steps(2) assms(2), of "[n]"] show ?thesis by (metis list.sel(1))
  qed
  note first = set_up_files [OF steps(1)]
  show thesis
  proof (rule that [OF root])
    show "map_of (ro_store out) [''preflight-report.json''] = Some (Sealed (PDict (preflight_report_pv report)))"
      using early [of "''preflight-report.json''"] first(1) by simp
    show "\<forall>n \<in> {''source-snapshot.json'', ''environment.json'', ''input-manifest.json''}. \<exists>v. map_of (ro_store out) [n] = Some (Sealed v)"
    proof
      fix n assume "n \<in> {''source-snapshot.json'', ''environment.json'', ''input-manifest.json''}"
      with first(2) early [of n] show "\<exists>v. map_of (ro_store out) [n] = Some (Sealed v)" by (metis UnCI insertCI)
    qed
    show "\<forall>n \<in> set required_dirs. map_of (ro_store out) [n] = Some Dir" using first(3) early by (metis UnCI)
  qed
qed

lemma run_bundle_at: "map_of (entries (run_bundle E a st)) p = map_option (bundle_entry E) (map_of st p)"
  by (simp add: run_bundle_def map_of_map case_prod_beta [symmetric] flip: comp_def) (induction st, auto)

lemma run_bundle_reads:
  "map_of st p = Some (Sealed v) \<Longrightarrow> load_at (run_bundle E a st) p = Some (canon v)"
  "map_of st p = Some (Sealed v) \<Longrightarrow> entry_exists (run_bundle E a st) p"
  "map_of st p = Some Dir \<Longrightarrow> entry_exists (run_bundle E a st) p \<and> is_folder (run_bundle E a st) p"
  by (simp_all add: load_at_def entry_exists_def is_folder_def has_key_map_of run_bundle_at bundle_entry_def)

section \<open>Hashes of the sealed documents\<close>

lemma canon_dict_of: "dict_of (canon (PDict d)) = canon_items d"
  by (simp add: canon_items_def)

lemma has_key_canon: "dict_wf d \<Longrightarrow> has_key (canon_items d) k = has_key d k"
  by (simp add: has_key_map_of map_of_canon_items)

lemma truthy_canon_dict: "truthy (canon (PDict d)) \<longleftrightarrow> d \<noteq> []"
  by (simp del: canon.simps)

lemma hash_check_passes: "hash_check key label (PStr h) h = Inr c \<Longrightarrow> ck_status c = ''pass''"
  by (auto simp: hash_check_def)

lemma excluded_keys:
  "''bundle/id'' \<in> set bundle_sign_exclude_keys" "''bundle/hash'' \<in> set bundle_sign_exclude_keys"
  "''bundle/signature'' \<in> set bundle_sign_exclude_keys" "''bundle/signing-key-id'' \<in> set bundle_sign_exclude_keys"
  by (simp_all add: bundle_sign_exclude_keys_def)

definition stamps :: "obj \<Rightarrow> string \<Rightarrow> obj \<Rightarrow> bool" where
  "stamps root h r \<longleftrightarrow> dict_wf root \<and> map_of root ''bundle/hash'' = Some (PStr h) \<and> has_key root ''bundle/id''
     \<and> (\<forall>k. k \<notin> set bundle_sign_exclude_keys \<longrightarrow> map_of root k = map_of r k)"

lemma stamps_dset:
  "stamps root h r \<Longrightarrow> k \<in> set bundle_sign_exclude_keys \<Longrightarrow> k \<noteq> ''bundle/hash'' \<Longrightarrow> stamps (dset k v root) h r"
  by (auto simp: stamps_def has_key_map_of)

lemma sealed_root_stamps:
  assumes "dict_wf r" "sealed_root E a r = Inr root"
  shows "stamps root (self_hash (run_crypto E) root bundle_sign_exclude_keys) r"
proof -
  let ?h = "self_hash (run_crypto E) r bundle_sign_exclude_keys"
  have stamped: "stamps (stamped_root E r) ?h r" "self_hash (run_crypto E) (stamped_root E r) bundle_sign_exclude_keys = ?h"
    using assms(1) excluded_keys by (auto simp: stamps_def stamped_root_def Let_def has_key_map_of self_hash_dset_excluded)
  from assms(2) consider "root = stamped_root E r"
    | sig kid where "root = dset ''bundle/signing-key-id'' (PStr kid) (dset ''bundle/signature'' (PStr sig) (stamped_root E r))"
    by (auto simp: sealed_root_def Let_def bindE_Inr_iff split: if_splits)
  then show ?thesis
  proof cases
    case 1
    with stamped show ?thesis by simp
  next
    case 2
    have "stamps root ?h r" unfolding 2 using stamped(1) excluded_keys by (intro stamps_dset) simp_all
    moreover have "self_hash (run_crypto E) root bundle_sign_exclude_keys = ?h"
      unfolding 2 using stamped(2) excluded_keys by (simp only: self_hash_dset_excluded)
    ultimately show ?thesis by simp
  qed
qed

lemma root_hash_verified:
  assumes "load_at W [''run-bundle-root.json''] = Some (canon (PDict root))" "dict_wf root"
    "map_of root ''bundle/hash'' = Some (PStr h)" "h = self_hash C root bundle_sign_exclude_keys" "h \<noteq> []"
  shows "\<exists>c. check_bundle_root_hash C W = Inr c \<and> ck_status c = ''pass''"
proof -
  have "root \<noteq> []" using assms(3) by auto
  then have at: "truthy_at W [''run-bundle-root.json''] = Some (canon (PDict root))"
    using assms(1) by (simp add: truthy_at_def del: canon.simps)
  have get: "get_none (canon (PDict root)) ''bundle/hash'' = Inr (PStr h)"
    using assms(3) by (subst get_in_canon [OF assms(2)]) (simp_all add: get_or_def)
  have "check_bundle_root_hash C W = hash_check ''bundle-root-hash'' ''Bundle root'' (PStr h) h"
    using assms(4,5)
    by (simp add: check_bundle_root_hash_def at get canon_dict_of self_hash_canon_items [OF assms(2)] del: canon.simps)
  then show ?thesis by (simp add: hash_check_def)
qed

lemma overview_hash_verified:
  assumes "load_at W [''run-overview.json''] = Some (canon (PDict d))" "dict_wf d"
    "map_of d ''overview/hash'' = Some (PStr h)" "h = self_hash C d [''overview/hash'']" "h \<noteq> []"
  shows "\<exists>c. check_overview_hash C W = Inr c \<and> ck_status c = ''pass''"
proof -
  have "d \<noteq> []" using assms(3) by auto
  then have at: "truthy_at W [''run-overview.json''] = Some (canon (PDict d))"
    using assms(1) by (simp add: truthy_at_def del: canon.simps)
  have get: "get_none (canon (PDict d)) ''overview/hash'' = Inr (PStr h)"
    using assms(3) by (subst get_in_canon [OF assms(2)]) (simp_all add: get_or_def)
  have "check_overview_hash C W = hash_check ''overview-hash'' ''Overview'' (PStr h) h"
    using assms(4,5)
    by (simp add: check_overview_hash_def at get canon_dict_of self_hash_canon_items [OF assms(2)] del: canon.simps)
  then show ?thesis by (simp add: hash_check_def)
qed

section \<open>The verifier on the documents of a run\<close>

lemma guarded_pass: "load_at W [name] = Some v \<Longrightarrow> body v = Inr c \<Longrightarrow> guarded W name key label body = c"
  by (auto simp: guarded_def load_at_def entry_exists_def has_key_map_of split: option.splits)

lemma missing_none: "list_all (has_key d) ks \<Longrightarrow> missing_keys (PDict d) ks = Inr []"
  by (induction ks) (auto simp: missing_keys_def bindE_Inr_iff)

lemma missing_canon: "dict_wf d \<Longrightarrow> list_all (has_key d) ks \<Longrightarrow> missing_keys (canon (PDict d)) ks = Inr []"
  unfolding canon_PDict by (rule missing_none) (simp add: has_key_canon list_all_iff)

lemma bundle_root_fields:
  "dict_wf (bundle_root E a report code dag_hash node_hash)"
  "map_of (bundle_root E a report code dag_hash node_hash) ''bundle/schema-version'' = Some (PStr ''bundle-root.v1'')"
  "has_key (bundle_root E a report code dag_hash node_hash) ''overview/hash''"
  "has_key (bundle_root E a report code dag_hash node_hash) ''preflight''"
  "map_of (bundle_root E a report code dag_hash node_hash) ''execution/node-hash'' = Some node_hash"
  "map_of (bundle_root E a report code dag_hash node_hash) ''dag/root-node-hash'' = None"
  by (simp_all add: bundle_root_def isolation_report_def run_isolation_checks_def Let_def dupdate_def dict_wf_def has_key_def)

lemma root_document_passes:
  assumes "load_at W [''run-bundle-root.json''] = Some (canon (PDict root))"
    and "stamps root h (bundle_root E a report code dag_hash node_hash)"
  shows "\<not> bad (check_bundle_root_valid W)"
proof -
  have wf: "dict_wf root" using assms(2) by (simp add: stamps_def)
  have same: "map_of root k = map_of (bundle_root E a report code dag_hash node_hash) k" if "k \<notin> set bundle_sign_exclude_keys" for k
    using assms(2) that by (simp add: stamps_def)
  have keys: "map_of root ''bundle/schema-version'' = Some (PStr ''bundle-root.v1'')" "has_key root ''overview/hash''" "has_key root ''preflight''"
    using bundle_root_fields(2-4) [of E a report code dag_hash node_hash]
    by (simp_all add: has_key_map_of same bundle_sign_exclude_keys_def)
  have "missing_keys (canon (PDict root)) [''bundle/schema-version'', ''bundle/id'', ''overview/hash'', ''preflight''] = Inr []"
    using keys assms(2) by (intro missing_canon [OF wf]) (simp add: stamps_def has_key_map_of)
  moreover have "get_none (canon (PDict root)) ''bundle/schema-version'' = Inr (PStr ''bundle-root.v1'')"
    using keys(1) by (subst get_in_canon [OF wf]) (simp_all add: get_or_def)
  moreover have "get_in (canon (PDict root)) ''bundle/id'' (PStr ''?'') = Inr (canon (get_or root ''bundle/id'' (PStr ''?'')))"
    by (subst get_in_canon [OF wf]) simp_all
  ultimately have "check_bundle_root_valid W = mk_rcheck ''bundle-root-valid'' ''pass''
      (''Bundle root valid (id: '' @ py_str (canon (get_or root ''bundle/id'' (PStr ''?''))) @ '')'') ''required''"
    unfolding check_bundle_root_valid_def by (intro guarded_pass [OF assms(1)]) (simp del: canon.simps)
  then show ?thesis by simp
qed

lemma overview_fields:
  "dict_wf (sealed_overview E a code)" "map_of (sealed_overview E a code) ''overview/hash'' = Some (PStr (overview_hash E a code))"
  "overview_hash E a code = self_hash (run_crypto E) (sealed_overview E a code) [''overview/hash'']"
  "list_all (has_key (sealed_overview E a code)) [''run-id'', ''status'', ''exit-code'']"
proof -
  have wf: "dict_wf (run_overview E a code)" by (simp add: dict_wf_def run_overview_def)
  then show "dict_wf (sealed_overview E a code)" by (auto simp: sealed_overview_def)
  show "overview_hash E a code = self_hash (run_crypto E) (sealed_overview E a code) [''overview/hash'']"
    unfolding sealed_overview_def overview_hash_def by (rule self_hash_dset_excluded [symmetric]) simp
  show "map_of (sealed_overview E a code) ''overview/hash'' = Some (PStr (overview_hash E a code))" by (simp add: sealed_overview_def)
  show "list_all (has_key (sealed_overview E a code)) [''run-id'', ''status'', ''exit-code'']"
    by (simp add: sealed_overview_def has_key_map_of run_overview_def)
qed

lemma overview_document_passes:
  assumes "load_at W [''run-overview.json''] = Some (canon (PDict (sealed_overview E a code)))"
  shows "\<not> bad (check_overview_valid W)"
proof -
  note fields = overview_fields(1,4) [of E a code]
  have "get_in (canon (PDict (sealed_overview E a code))) ''run-id'' (PStr ''?'')
      = Inr (canon (get_or (sealed_overview E a code) ''run-id'' (PStr ''?'')))"
    by (subst get_in_canon [OF fields(1)]) simp_all
  with missing_canon [OF fields] have "check_overview_valid W = mk_rcheck ''overview-valid'' ''pass''
      (''Run overview valid (id: '' @ py_str (canon (get_or (sealed_overview E a code) ''run-id'' (PStr ''?''))) @ '')'') ''required''"
    unfolding check_overview_valid_def by (intro guarded_pass [OF assms]) (simp del: canon.simps)
  then show ?thesis by simp
qed

lemma preflight_document_passes:
  assumes "load_at W [''preflight-report.json''] = Some (canon (PDict (preflight_report_pv report)))"
    and "pr_status report \<in> {''pass'', ''pass-with-warnings''}"
  shows "\<not> bad (check_preflight_valid W)"
proof -
  have wf: "dict_wf (preflight_report_pv report)" by (simp add: dict_wf_def preflight_report_pv_def)
  have "get_in (canon (PDict (preflight_report_pv report))) ''preflight/status'' (PStr ''unknown'') = Inr (PStr (pr_status report))"
    by (subst get_in_canon [OF wf]) (simp_all add: get_or_def preflight_report_pv_def)
  with assms(2) have "check_preflight_valid W = mk_rcheck ''preflight-valid'' ''pass'' (''Preflight status: '' @ pr_status report) ''required''"
    unfolding check_preflight_valid_def by (intro guarded_pass [OF assms(1)]) (auto simp: Let_def simp del: canon.simps)
  then show ?thesis by simp
qed

lemma presence_of:
  assumes "\<forall>n \<in> set required_files. \<exists>v. map_of st [n] = Some (Sealed v)" "\<forall>n \<in> set required_dirs. map_of st [n] = Some Dir"
  shows "clean_checks (presence_checks (run_bundle E a st))"
proof -
  have "path_parts n = [n]" if "n \<in> set required_files \<union> set required_dirs" for n
    using that by (auto simp: required_files_def required_dirs_def path_parts_def)
  then have "\<forall>n \<in> set required_files. entry_exists (run_bundle E a st) (path_parts n)"
    "\<forall>n \<in> set required_dirs. entry_exists (run_bundle E a st) (path_parts n) \<and> is_folder (run_bundle E a st) (path_parts n)"
    using assms run_bundle_reads(2,3) by (metis UnCI)+
  moreover have "\<not> bad (check_exists W n ''info'')" for W n by (simp add: check_exists_def Let_def)
  ultimately show ?thesis by (simp add: presence_checks_def clean_map check_exists_clean check_dir_clean)
qed

section \<open>What a run establishes\<close>

lemma executed_forensic:
  assumes "run_forensic E a = Inr out" "ro_status out \<in> {''pass'', ''failed''}"
  obtains report where
    "run_preflight (re_preflight E) (ra_request a) (ra_registry a) (ra_policy a) (run_place E a) (repo_root E a) = Inr report"
    "pr_status report \<noteq> ''fail''" "execute_run E a report = Inr out"
  using assms by (auto simp: run_forensic_def bindE_Inr_iff aborted_def split: if_splits)

lemma report_status: "run_preflight P rq reg pol out repo = Inr r \<Longrightarrow> pr_status r \<in> {''pass'', ''pass-with-warnings'', ''fail''}"
  by (auto simp: run_preflight_def bindE_Inr_iff preflight_status_def split: if_splits)

lemma run_documents:
  assumes "run_forensic E a = Inr out" "ro_status out \<in> {''pass'', ''failed''}"
    and "pipeline_confined E" "\<And>t. sha256_text (run_crypto E) t \<noteq> []"
  shows "clean_checks (presence_checks (run_bundle E a (ro_store out)))
    \<and> \<not> bad (check_bundle_root_valid (run_bundle E a (ro_store out)))
    \<and> \<not> bad (check_overview_valid (run_bundle E a (ro_store out)))
    \<and> \<not> bad (check_preflight_valid (run_bundle E a (ro_store out)))
    \<and> (\<exists>c. check_bundle_root_hash (run_crypto E) (run_bundle E a (ro_store out)) = Inr c \<and> ck_status c = ''pass'')
    \<and> (\<exists>c. check_overview_hash (run_crypto E) (run_bundle E a (ro_store out)) = Inr c \<and> ck_status c = ''pass'')"
proof -
  obtain report where report: "run_preflight (re_preflight E) (ra_request a) (ra_registry a) (ra_policy a) (run_place E a) (repo_root E a) = Inr report"
    "pr_status report \<noteq> ''fail''" "execute_run E a report = Inr out" by (rule executed_forensic [OF assms(1,2)])
  obtain code root dag_hash node_hash where root: "sealed_root E a (bundle_root E a report code dag_hash node_hash) = Inr root"
    and files: "map_of (ro_store out) [''run-bundle-root.json''] = Some (Sealed (PDict root))"
    "map_of (ro_store out) [''run-overview.json''] = Some (Sealed (PDict (sealed_overview E a code)))"
    "map_of (ro_store out) [''preflight-report.json''] = Some (Sealed (PDict (preflight_report_pv report)))"
    "\<forall>n \<in> {''source-snapshot.json'', ''environment.json'', ''input-manifest.json''}. \<exists>v. map_of (ro_store out) [n] = Some (Sealed v)"
    "\<forall>n \<in> set required_dirs. map_of (ro_store out) [n] = Some Dir" by (rule run_files [OF report(3) assms(3)])
  let ?D = "run_bundle E a (ro_store out)"
  note loads = run_bundle_reads(1) [OF files(1), of E a] run_bundle_reads(1) [OF files(2), of E a] run_bundle_reads(1) [OF files(3), of E a]
  note stamps = sealed_root_stamps [OF bundle_root_fields(1) root]
  have present: "\<forall>n \<in> set required_files. \<exists>v. map_of (ro_store out) [n] = Some (Sealed v)"
    using files(1-4) by (simp add: required_files_def)
  have "\<exists>c. check_bundle_root_hash (run_crypto E) ?D = Inr c \<and> ck_status c = ''pass''"
    using stamps assms(4) by (intro root_hash_verified [OF loads(1)]) (auto simp: stamps_def self_hash_def)
  moreover have "\<exists>c. check_overview_hash (run_crypto E) ?D = Inr c \<and> ck_status c = ''pass''"
    by (rule overview_hash_verified [OF loads(2) overview_fields(1-3)]) (simp add: overview_hash_def self_hash_def assms(4))
  moreover have "pr_status report \<in> {''pass'', ''pass-with-warnings''}" using report_status [OF report(1)] report(2) by auto
  ultimately show ?thesis
    using presence_of [OF present files(5)] root_document_passes [OF loads(1) stamps] overview_document_passes [OF loads(2)]
      preflight_document_passes [OF loads(3)] by blast
qed

text \<open>
  C12: what a run seals is what its verifier accepts.  In the directory of every executed run the required
  files and folders are present, bundle root, overview and preflight report have the shape the verifier
  demands, and the hashes that bundle root and overview carry are the ones it recomputes -- for a pipeline
  that writes only in its workspace, its result folders and its own bundle root.
\<close>

theorem run_documents_accepted:
  assumes "run_forensic E a = Inr out" "ro_status out \<in> {''pass'', ''failed''}"
    and "pipeline_confined E" "\<And>t. sha256_text (run_crypto E) t \<noteq> []"
  shows "clean_checks (presence_checks (run_bundle E a (ro_store out)))
    \<and> \<not> bad (check_bundle_root_valid (run_bundle E a (ro_store out)))
    \<and> \<not> bad (check_overview_valid (run_bundle E a (ro_store out)))
    \<and> \<not> bad (check_preflight_valid (run_bundle E a (ro_store out)))
    \<and> (\<exists>c. check_bundle_root_hash (run_crypto E) (run_bundle E a (ro_store out)) = Inr c \<and> ck_status c = ''pass'')
    \<and> (\<exists>c. check_overview_hash (run_crypto E) (run_bundle E a (ro_store out)) = Inr c \<and> ck_status c = ''pass'')"
  by (rule run_documents [OF assms])

lemma zero_exit_verified:
  assumes "run_forensic E a = Inr out" "ro_exit out = 0" "\<not> ra_dry_run a"
  shows "(\<exists>report. run_preflight (re_preflight E) (ra_request a) (ra_registry a) (ra_policy a) (run_place E a) (repo_root E a) = Inr report
        \<and> preflight_exit_code report = 0)
    \<and> (\<exists>suite fs. suite_key_of (pipeline_request E (ra_request a)) = Inr suite
        \<and> re_pipeline E (pipeline_command suite (run_place E a @ ''/clojure-bundle-root.json'')) (pipeline_env E a (source_info E a))
            = Inr (0, fs))
    \<and> (\<exists>r. verify_run (run_verifier E) (run_place E a) (Some (run_bundle E a (ro_store out))) None False = Inr r \<and> verify_exit_code r = 0)"
proof -
  from assms obtain report where report: "run_preflight (re_preflight E) (ra_request a) (ra_registry a) (ra_policy a) (run_place E a) (repo_root E a) = Inr report"
    "pr_status report \<noteq> ''fail''" "execute_run E a report = Inr out"
    by (auto simp: run_forensic_def bindE_Inr_iff aborted_def split: if_splits)
  obtain st0 st1 code where pipe: "run_pipeline E a (source_info E a) st0 = Inr (code, st1)"
    and exit: "ro_exit out = (if verification_failed E a (ro_store out) then 1 else code)" by (rule executed_run [OF report(3)])
  from exit assms(2) have ok: "\<not> verification_failed E a (ro_store out)" "code = 0" by (auto split: if_splits)
  from pipe ok(2) have "\<exists>suite fs. suite_key_of (pipeline_request E (ra_request a)) = Inr suite
        \<and> re_pipeline E (pipeline_command suite (run_place E a @ ''/clojure-bundle-root.json'')) (pipeline_env E a (source_info E a))
            = Inr (0, fs)" by (auto simp: run_pipeline_def bindE_Inr_iff)
  moreover from ok(1) obtain r where "verify_run (run_verifier E) (run_place E a) (Some (run_bundle E a (ro_store out))) None False = Inr r"
    "rp_status r \<noteq> ''fail''" by (auto simp: verification_failed_def split: sum.splits)
  moreover from this have "verify_exit_code r = 0"
    by (auto simp: verify_exit_code_def verify_run_def bindE_Inr_iff aggregate_def aggregate_status_def split: if_splits)
  moreover have "preflight_exit_code report = 0"
    using report_status [OF report(1)] report(2) by (auto simp: preflight_exit_code_def)
  ultimately show ?thesis using report(1) by blast
qed

text \<open>
  C8: exit code 0 of an executed run means that everything passed: the preflight had exit code 0, the
  pipeline, called with the suite of the run request, the run's bundle root file and its environment,
  ended with code 0, and the verification of the finished directory ends with exit code 0.
\<close>

theorem run_exit_zero:
  assumes "run_forensic E a = Inr out" "ro_exit out = 0" "\<not> ra_dry_run a"
  shows "(\<exists>report. run_preflight (re_preflight E) (ra_request a) (ra_registry a) (ra_policy a) (run_place E a) (repo_root E a) = Inr report
        \<and> preflight_exit_code report = 0)
    \<and> (\<exists>suite fs. suite_key_of (pipeline_request E (ra_request a)) = Inr suite
        \<and> re_pipeline E (pipeline_command suite (run_place E a @ ''/clojure-bundle-root.json'')) (pipeline_env E a (source_info E a))
            = Inr (0, fs))
    \<and> (\<exists>r. verify_run (run_verifier E) (run_place E a) (Some (run_bundle E a (ro_store out))) None False = Inr r \<and> verify_exit_code r = 0)"
  by (rule zero_exit_verified [OF assms])

section \<open>The evidence of a run\<close>

lemma store_files_dset: "butlast p \<noteq> d \<Longrightarrow> store_files (dset p f st) d = store_files st d"
  by (auto simp: store_files_def update_keys intro!: filter_cong)

lemma dag_folder_dset: "butlast p \<noteq> [''evidence-dag''] \<Longrightarrow> dag_folder (dset p f st) = dag_folder st"
  by (auto simp: dag_folder_def store_files_dset file_bytes_def)

lemma copy_anchors_dag: "copy_anchors st = Inr st' \<Longrightarrow> dag_folder st' = dag_folder st"
  unfolding copy_anchors_def
  by (rule foldE_invariant [of "\<lambda>t. dag_folder t = dag_folder st" anchor_names]) (auto simp: dag_folder_dset split: if_splits dest!: copy_entry_Inr)

lemma run_inventory_file:
  assumes "execute_run E a report = Inr out"
  shows "\<exists>registry cursor. map_of (ro_store out) [''evidence-dag-inventory.json'']
    = Some (Sealed (PDict (dag_inventory (run_crypto E) (re_reader E) (dag_folder (ro_store out)) registry cursor)))"
proof -
  obtain st1 st2 code where collect_results: "collect_results E a code st1 = Inr st2" and sealing: "seal_run E a report code st2 = Inr (ro_store out)"
    by (rule executed_run [OF assms])
  from collect_results obtain s4 where "seal E [''evidence-dag-inventory.json''] (PDict (run_inventory E s4)) s4 = Inr st2"
    unfolding collect_results_def Let_def bindE_Inr_iff by blast
  from seal_Inr [OF this] have st2: "map_of st2 [''evidence-dag-inventory.json''] = Some (Sealed (PDict (run_inventory E s4)))"
    "dag_folder st2 = dag_folder s4" by (simp_all add: dag_folder_dset)
  from sealing obtain t1 t2 t3 root where steps: "copy_anchors st2 = Inr t1"
    "seal E [''run-overview.json''] (PDict (sealed_overview E a code)) t1 = Inr t2"
    "seal E [''run-bundle-root.json''] (PDict root) t2 = Inr t3"
    "seal E [''anchors'', ''anchor-cursor.json''] (PDict (anchor_cursor E a st2)) t3 = Inr (ro_store out)"
    unfolding seal_run_def Let_def bindE_Inr_iff by blast
  have "dag_folder (ro_store out) = dag_folder s4"
    using seal_Inr [OF steps(2)] seal_Inr [OF steps(3)] seal_Inr [OF steps(4)] copy_anchors_dag [OF steps(1)] st2(2)
    by (simp add: dag_folder_dset)
  moreover have "map_of (ro_store out) [''evidence-dag-inventory.json''] = map_of st2 [''evidence-dag-inventory.json'']"
    using seal_Inr [OF steps(2)] seal_Inr [OF steps(3)] seal_Inr [OF steps(4)] copy_anchors_keeps [OF steps(1)] by simp
  ultimately show ?thesis using st2(1) by (auto simp: run_inventory_def)
qed

lemma run_bundle_files: "files_in (run_bundle E a st) d = store_files st d"
proof -
  have "map fst (entries (run_bundle E a st)) = map fst st" by (simp add: run_bundle_def comp_def)
  moreover have "is_folder (run_bundle E a st) p \<longleftrightarrow> map_of st p = Some Dir" for p
  proof -
    have "bundle_entry E f = Folder \<longleftrightarrow> f = Dir" for f
      by (auto simp: bundle_entry_def split: run_file.splits option.splits)
    then show ?thesis by (auto simp: is_folder_def run_bundle_at)
  qed
  ultimately show ?thesis by (simp add: files_in_def names_in_def store_files_def)
qed

lemma head16_opt: "truthy (opt_pv r) \<Longrightarrow> \<exists>t. head16 (opt_pv r) = Inr t"
  by (cases r) auto

lemma rooted_reference:
  assumes "rooted_in ns (bundle_roots W)"
  shows "\<exists>r. main_reference W = Inr (opt_pv r)"
proof -
  from assms obtain refs h where refs: "mapE bundle_root_reference (bundle_roots W) = Inr (map opt_pv refs)" "Some h \<in> set refs"
    by (auto simp: rooted_in_def)
  then obtain r rs root roots where "refs = r # rs" "bundle_roots W = root # roots"
    by (cases refs; cases "bundle_roots W") auto
  with refs show ?thesis by (auto simp: main_reference_def bindE_Inr_iff)
qed

lemma run_evidence_passes:
  assumes "run_forensic E a = Inr out" "ro_status out \<in> {''pass'', ''failed''}" "pipeline_confined E"
    and "dag_of (re_reader E) (dag_folder (ro_store out)) = (ns, errs, edges)" "sound_evidence ns" "ns \<noteq> []"
    and "rooted_in ns (bundle_roots (run_bundle E a (ro_store out)))"
    and "distinct (store_files (ro_store out) [''evidence-dag''])"
    and "list_all has_edn_suffix (store_files (ro_store out) [''evidence-dag''])"
    and "honest_order I" "length (set_order I (map PStr (node_ids ns))) \<le> recursion_limit I"
  shows "\<exists>c. check_evidence_dag I (run_bundle E a (ro_store out)) = Inr c \<and> ck_status c = ''pass''"
proof -
  let ?D = "run_bundle E a (ro_store out)" and ?fs = "dag_folder (ro_store out)"
  obtain report where "execute_run E a report = Inr out" by (rule executed_forensic [OF assms(1,2)])
  note run = this
  obtain registry cursor where inventory: "map_of (ro_store out) [''evidence-dag-inventory.json'']
    = Some (Sealed (PDict (dag_inventory (run_crypto E) (re_reader E) ?fs registry cursor)))"
    using run_inventory_file [OF run] by blast
  let ?inv = "canon (PDict (dag_inventory (run_crypto E) (re_reader E) ?fs registry cursor))"
  have at: "truthy_at ?D [''evidence-dag-inventory.json''] = Some ?inv"
    using run_bundle_reads(1) [OF inventory, of E a] by (simp add: truthy_at_def dag_inventory_def Let_def case_prod_beta del: canon.simps)
  have names: "map fst ?fs = store_files (ro_store out) [''evidence-dag'']" by (simp add: dag_folder_def comp_def)
  have files: "files_in ?D [''evidence-dag''] = map fst ?fs" by (simp add: run_bundle_files names)
  have edn: "edn_files ?D = map fst ?fs" using assms(9) by (simp add: edn_files_def files names filter_id_conv list_all_iff)
  have folder: "entry_exists ?D [''evidence-dag'']" "is_folder ?D [''evidence-dag'']"
  proof -
    obtain code root dag_hash node_hash where "\<forall>n \<in> set required_dirs. map_of (ro_store out) [n] = Some Dir" by (rule run_files [OF run assms(3)])
    then have "map_of (ro_store out) [''evidence-dag''] = Some Dir" by (simp add: required_dirs_def)
    from run_bundle_reads(3) [OF this] show "entry_exists ?D [''evidence-dag'']" "is_folder ?D [''evidence-dag'']" by blast+
  qed
  have suffixes: "list_all (\<lambda>f. has_edn_suffix (fst f)) ?fs" using assms(9) by (simp add: names [symmetric] list_all_iff)
  have "inventory_errors I ?inv (bundle_roots ?D) (length ?fs) = Inr []"
    by (rule written_inventory_errors [OF assms(4-7) _ suffixes assms(10,11)]) (simp add: names assms(8))
  then have errors: "inventory_errors I ?inv (bundle_roots ?D) (length (edn_files ?D)) = Inr []" by (simp only: edn length_map)
  obtain r where ref: "main_reference ?D = Inr (opt_pv r)" using rooted_reference [OF assms(7)] by blast
  obtain msg where msg: "(if truthy (opt_pv r) then bindE (head16 (opt_pv r)) (\<lambda>t. Inr ('', root='' @ t)) else Inr []) = (Inr msg :: ev_error + string)"
    using head16_opt [of r] by (cases "truthy (opt_pv r)") auto
  have "bindE (get_in ?inv ''dag/nodes'' (PList [])) len_of = Inr (length ns)"
    unfolding inventory_read(3) [OF assms(4) refl] by simp
  then show ?thesis
    unfolding check_evidence_dag_def Let_def
    by (simp add: folder at ref errors msg bindE_assoc [symmetric] del: canon.simps)
qed

text \<open>
  Sound evidence passes.  When the evidence folder of an executed run has only EDN files, the nodes parsed
  from them have hashes of their own, name only one another as parents, have no cycle, and a bundle root
  names one of them, then the check of the evidence graph passes on the run directory -- whatever other
  files could not be parsed.
\<close>

theorem run_evidence_accepted:
  assumes "run_forensic E a = Inr out" "ro_status out \<in> {''pass'', ''failed''}" "pipeline_confined E"
    and "dag_of (re_reader E) (dag_folder (ro_store out)) = (ns, errs, edges)" "sound_evidence ns" "ns \<noteq> []"
    and "rooted_in ns (bundle_roots (run_bundle E a (ro_store out)))"
    and "distinct (store_files (ro_store out) [''evidence-dag''])"
    and "list_all has_edn_suffix (store_files (ro_store out) [''evidence-dag''])"
    and "honest_order I" "length (set_order I (map PStr (node_ids ns))) \<le> recursion_limit I"
  shows "\<exists>c. check_evidence_dag I (run_bundle E a (ro_store out)) = Inr c \<and> ck_status c = ''pass''"
  by (rule run_evidence_passes [OF assms])

end
