(* ===== verification/Run_Outcome.thy ===== *)
theory Run_Outcome
  imports Run_Theorems
begin

text \<open>
  How a forensic run ends: a good run succeeds, and no run is ever checked for the semantics of its
  protocol, because its bundle root declares none.
\<close>

section \<open>No protocol is declared\<close>

lemma root_no_protocol: "map_of (bundle_root E a report code dag_hash node_hash) ''protocol'' = None"
  by (simp add: bundle_root_def isolation_report_def run_isolation_checks_def Let_def dupdate_def)

lemma stamped_no_protocol:
  assumes "stamps root h (bundle_root E a report code dag_hash node_hash)"
  shows "read_protocol_descriptor (canon (PDict root)) = Inr Absent"
proof -
  have wf: "dict_wf root" using assms by (simp add: stamps_def)
  have "map_of root ''protocol'' = None"
    using assms root_no_protocol by (simp add: stamps_def bundle_sign_exclude_keys_def)
  then have "get_none (canon (PDict root)) ''protocol'' = Inr PNone"
    by (subst get_in_canon [OF wf]) (simp_all add: get_or_def)
  then show ?thesis by (simp add: read_protocol_descriptor_def validate_descriptor_shape_def del: canon.simps)
qed

lemma legacy_mapped: "\<exists>cs. mapE mapped_check legacy_checks = Inr cs \<and> clean_checks cs"
  by (simp add: legacy_checks_def mapped_check_def vcheck_pv_def mk_vcheck_def get_or_def)

lemma legacy_semantics:
  assumes "load_at D [''run-bundle-root.json''] = Some (canon (PDict root))" "read_protocol_descriptor (canon (PDict root)) = Inr Absent"
  shows "\<exists>mapped. clean_checks mapped \<and> check_protocol_semantics C X D e rs
    = Inr (identity_checks e None @ mapped @ [summary_check rs (early_report ''not-verified'' None False legacy_checks 0 1)])"
proof -
  obtain mapped where mapped: "mapE mapped_check legacy_checks = Inr mapped" "clean_checks mapped" using legacy_mapped by blast
  have "entry_exists D [''run-bundle-root.json'']"
    using assms(1) by (auto simp: load_at_def entry_exists_def has_key_map_of split: option.splits)
  moreover have "load_root_document D [''run-bundle-root.json''] = Some (canon (PDict root))"
    using assms(1) by (simp add: load_root_document_def)
  ultimately have "check_protocol_semantics C X D e rs
    = Inr (identity_checks e None @ mapped @ [summary_check rs (early_report ''not-verified'' None False legacy_checks 0 1)])"
    using assms(2) mapped(1)
    by (simp add: check_protocol_semantics_def validate_protocol_bundle_def early_report_def error_checks_def del: canon.simps)
  with mapped(2) show ?thesis by blast
qed

lemma legacy_summary:
  "bad (summary_check rs (early_report ''not-verified'' None False legacy_checks 0 1)) \<longleftrightarrow> rs"
  by (simp add: summary_check_def early_report_def Let_def)

lemma run_root_read:
  assumes "execute_run E a report = Inr out" "pipeline_confined E"
  obtains root where "load_at (run_bundle E a (ro_store out)) [''run-bundle-root.json''] = Some (canon (PDict root))"
    "read_protocol_descriptor (canon (PDict root)) = Inr Absent" "dict_wf root"
proof -
  obtain code root dag_hash node_hash where root: "sealed_root E a (bundle_root E a report code dag_hash node_hash) = Inr root"
    and doc: "map_of (ro_store out) [''run-bundle-root.json''] = Some (Sealed (PDict root))" by (rule run_files [OF assms])
  note stamps = sealed_root_stamps [OF bundle_root_fields(1) root]
  from stamps have "dict_wf root" by (simp add: stamps_def)
  with that [OF run_bundle_reads(1) [OF doc] stamped_no_protocol [OF stamps]] show thesis by blast
qed

text \<open>
  C31: the directory of a run never passes when protocol semantics are required.  \<^verbatim>\<open>run.py\<close> writes no
  protocol into its bundle root, so \<^verbatim>\<open>verify.py --require-protocol-semantics\<close>, where it returns, ends with exit
  code 1 on every directory \<^verbatim>\<open>run.py\<close> makes with a confined pipeline, whatever its evidence.
\<close>

theorem run_never_semantic:
  assumes "run_forensic E a = Inr out" "ro_status out \<in> {''pass'', ''failed''}" "pipeline_confined E"
    and "verify_run V dir (Some (run_bundle E a (ro_store out))) e True = Inr r"
  shows "verify_exit_code r = 1"
proof (rule ccontr)
  assume "verify_exit_code r \<noteq> 1"
  then have zero: "verify_exit_code r = 0" by (auto simp: verify_exit_code_def split: if_splits)
  obtain report where run: "execute_run E a report = Inr out" by (rule executed_forensic [OF assms(1,2)])
  obtain root where root: "load_at (run_bundle E a (ro_store out)) [''run-bundle-root.json''] = Some (canon (PDict root))"
    "read_protocol_descriptor (canon (PDict root)) = Inr Absent" by (rule run_root_read [OF run assms(3)])
  obtain cs where cs: "run_checks_of V (run_bundle E a (ro_store out)) e True = Inr cs" "clean_checks cs" by (rule accepted_run [OF assms(4) zero])
  obtain dag sealing cls atts anchor semantics where
      semantics: "check_protocol_semantics (ve_crypto V) (ve_exceptions V) (run_bundle E a (ro_store out)) e True = Inr semantics"
    and parts: "cs = presence_checks (run_bundle E a (ro_store out))
         @ [check_bundle_root_valid (run_bundle E a (ro_store out)), check_overview_valid (run_bundle E a (ro_store out)),
            check_preflight_valid (run_bundle E a (ro_store out)), dag, check_no_extra_dirs (run_bundle E a (ro_store out))]
         @ sealing @ cls @ atts @ [anchor] @ semantics" by (rule run_checks_parts [OF cs(1)])
  from cs(2) parts have clean: "clean_checks semantics" by simp
  obtain mapped where "semantics = identity_checks e None @ mapped @ [summary_check True (early_report ''not-verified'' None False legacy_checks 0 1)]"
    using semantics legacy_semantics [OF root, of "ve_crypto V" "ve_exceptions V" e True] by auto
  with clean show False by (simp add: legacy_summary del: One_nat_def)
qed

lemma semantic_run_returns:
  assumes "run_forensic E a = Inr out" "ro_status out \<in> {''pass'', ''failed''}" "pipeline_confined E"
    and "verify_run V dir (Some (run_bundle E a (ro_store out))) e False = Inr r"
  shows "\<exists>r'. verify_run V dir (Some (run_bundle E a (ro_store out))) e True = Inr r'"
proof -
  let ?D = "run_bundle E a (ro_store out)"
  obtain report where run: "execute_run E a report = Inr out" by (rule executed_forensic [OF assms(1,2)])
  obtain root where root: "load_at ?D [''run-bundle-root.json''] = Some (canon (PDict root))"
    "read_protocol_descriptor (canon (PDict root)) = Inr Absent" by (rule run_root_read [OF run assms(3)])
  obtain semantics where semantics: "check_protocol_semantics (ve_crypto V) (ve_exceptions V) ?D e True = Inr semantics"
    using legacy_semantics [OF root] by blast
  from assms(4) obtain cs where cs: "run_checks_of V ?D e False = Inr cs" by (auto simp: verify_run_def bindE_Inr_iff)
  then obtain dag sealing cls atts anchor where
    "check_evidence_dag (ve_interpreter V) ?D = Inr dag" "sealing_checks V ?D = Inr sealing"
    "check_claims_content (ve_crypto V) ?D = Inr cls" "check_attestations_content (ve_crypto V) ?D = Inr atts"
    "check_anchor_content ?D = Inr anchor"
    unfolding run_checks_of_def bindE_Inr_iff by blast
  with semantics show ?thesis by (simp add: verify_run_def run_checks_of_def)
qed

section \<open>A good run succeeds\<close>

lemma signature_not_bad:
  assumes "load_at D [''run-bundle-root.json''] = Some (canon (PDict root))" "dict_wf root"
  shows "\<exists>c. check_bundle_signature D None = Inr c \<and> \<not> bad c"
proof (cases "root = []")
  case True
  with assms(1) show ?thesis by (simp add: check_bundle_signature_def truthy_at_def Let_def)
next
  case False
  then have "truthy_at D [''run-bundle-root.json''] = Some (canon (PDict root))"
    using assms(1) by (simp add: truthy_at_def del: canon.simps)
  moreover have "get_none (canon (PDict root)) k = Inr (canon (py_get root k))" for k by (subst get_in_canon [OF assms(2)]) simp_all
  ultimately show ?thesis by (simp add: check_bundle_signature_def Let_def del: canon.simps)
qed

lemma results_file:
  assumes "execute_run E a report = Inr out"
  shows "\<exists>d. map_of (ro_store out) [''results-summary.json''] = Some (Sealed (PDict d))"
proof -
  obtain st1 st2 code where collect_results: "collect_results E a code st1 = Inr st2" and sealing: "seal_run E a report code st2 = Inr (ro_store out)"
    by (rule executed_run [OF assms])
  from collect_results obtain suite s0 s1 s2 s3 s4 where steps:
    "seal E [''results-summary.json''] (PDict (results_summary code suite)) s0 = Inr s1"
    "copy_folder is_evidence_name [''workspace'', ''evidence-nodes''] [''evidence-dag''] s1 = Inr s2"
    "copy_folder has_json_suffix [''workspace'', ''claims''] [''claims''] s2 = Inr s3"
    "copy_folder has_json_suffix [''workspace'', ''attestations''] [''attestations''] s3 = Inr s4"
    "seal E [''evidence-dag-inventory.json''] (PDict (run_inventory E s4)) s4 = Inr st2"
    unfolding collect_results_def Let_def bindE_Inr_iff by blast
  obtain root where "\<forall>n. n \<notin> {''run-bundle-root.json'', ''run-overview.json''} \<longrightarrow> map_of (ro_store out) [n] = map_of st2 [n]"
    by (rule seal_run_files [OF sealing])
  then have "map_of (ro_store out) [''results-summary.json''] = map_of st2 [''results-summary.json'']" by simp
  also have "\<dots> = map_of s1 [''results-summary.json'']"
    using seal_Inr [OF steps(5)] copy_folder_keeps [OF steps(2)] copy_folder_keeps [OF steps(3)] copy_folder_keeps [OF steps(4)] by simp
  finally show ?thesis using seal_Inr [OF steps(1)] by simp
qed

lemma results_not_bad:
  assumes "map_of st [''results-summary.json''] = Some (Sealed (PDict d))"
  shows "\<exists>c. check_results_summary (run_bundle E a st) = Inr c \<and> \<not> bad c"
  using run_bundle_reads(1,2) [OF assms, of E a]
  by (auto simp: check_results_summary_def truthy_at_def canon_PDict simp del: canon.simps)

lemma mechanism_not_bad: "\<not> bad (check_mechanism_persistence_artifacts D)" "\<not> bad (check_no_extra_dirs D)"
  by (simp_all add: check_mechanism_persistence_artifacts_def check_no_extra_dirs_def Let_def)

lemma dag_pass_not_bad: "ck_status c = ''pass'' \<Longrightarrow> \<not> bad c"
  by (simp add: bad_def)

lemma clean_aggregate: "clean_checks cs \<Longrightarrow> rp_status (aggregate dir cs) \<noteq> ''fail''"
  by (auto simp: aggregate_def aggregate_status_def count_bad_zero)

lemma verification_succeeds:
  assumes "run_forensic E a = Inr out" "ro_status out \<in> {''pass'', ''failed''}" "pipeline_confined E"
    and "\<And>t. sha256_text (run_crypto E) t \<noteq> []"
    and "\<exists>c. check_evidence_dag (ve_interpreter (re_verify E)) (run_bundle E a (ro_store out)) = Inr c \<and> \<not> bad c"
    and "\<exists>cs. check_claims_content (run_crypto E) (run_bundle E a (ro_store out)) = Inr cs \<and> clean_checks cs"
    and "\<exists>cs. check_attestations_content (run_crypto E) (run_bundle E a (ro_store out)) = Inr cs \<and> clean_checks cs"
    and "\<exists>c. check_anchor_content (run_bundle E a (ro_store out)) = Inr c \<and> \<not> bad c"
  shows "\<not> verification_failed E a (ro_store out)"
proof -
  let ?D = "run_bundle E a (ro_store out)"
  obtain report where run: "execute_run E a report = Inr out" by (rule executed_forensic [OF assms(1,2)])
  obtain root where root: "load_at ?D [''run-bundle-root.json''] = Some (canon (PDict root))"
    "read_protocol_descriptor (canon (PDict root)) = Inr Absent" "dict_wf root" by (rule run_root_read [OF run assms(3)])
  obtain d where "map_of (ro_store out) [''results-summary.json''] = Some (Sealed (PDict d))" using results_file [OF run] by blast
  from results_not_bad [OF this] obtain results where results: "check_results_summary ?D = Inr results" "\<not> bad results" by blast
  obtain sig where sig: "check_bundle_signature ?D None = Inr sig" "\<not> bad sig" using signature_not_bad [OF root(1,3)] by blast
  note docs = run_documents [OF assms(1-4)]
  from docs obtain rh oh where hashes: "check_bundle_root_hash (run_crypto E) ?D = Inr rh" "check_overview_hash (run_crypto E) ?D = Inr oh"
    and good: "\<not> bad rh" "\<not> bad oh" using dag_pass_not_bad by blast
  have sealing: "sealing_checks (run_verifier E) ?D = Inr [rh, oh, sig, results, check_mechanism_persistence_artifacts ?D]"
    by (simp add: sealing_checks_def hashes sig results)
  from assms(5-8) obtain dag cls atts anchor where rest: "check_evidence_dag (ve_interpreter (re_verify E)) ?D = Inr dag" "\<not> bad dag"
    "check_claims_content (run_crypto E) ?D = Inr cls" "clean_checks cls"
    "check_attestations_content (run_crypto E) ?D = Inr atts" "clean_checks atts" "check_anchor_content ?D = Inr anchor" "\<not> bad anchor"
    by blast
  obtain mapped where semantics: "clean_checks mapped" "check_protocol_semantics (run_crypto E) (ve_exceptions (re_verify E)) ?D None False
    = Inr (identity_checks None None @ mapped @ [summary_check False (early_report ''not-verified'' None False legacy_checks 0 1)])"
    using legacy_semantics [OF root(1,2)] by blast
  have "run_checks_of (run_verifier E) ?D None False = Inr (presence_checks ?D
      @ [check_bundle_root_valid ?D, check_overview_valid ?D, check_preflight_valid ?D, dag, check_no_extra_dirs ?D]
      @ [rh, oh, sig, results, check_mechanism_persistence_artifacts ?D] @ cls @ atts @ [anchor]
      @ mapped @ [summary_check False (early_report ''not-verified'' None False legacy_checks 0 1)])"
    by (simp add: run_checks_of_def sealing rest semantics(2) identity_checks_def)
  moreover have "clean_checks (presence_checks ?D
      @ [check_bundle_root_valid ?D, check_overview_valid ?D, check_preflight_valid ?D, dag, check_no_extra_dirs ?D]
      @ [rh, oh, sig, results, check_mechanism_persistence_artifacts ?D] @ cls @ atts @ [anchor]
      @ mapped @ [summary_check False (early_report ''not-verified'' None False legacy_checks 0 1)])"
    using docs good sig(2) results(2) rest semantics(1) mechanism_not_bad by (simp add: legacy_summary del: One_nat_def)
  ultimately show ?thesis by (simp add: verification_failed_def verify_run_def clean_aggregate)
qed

lemma good_run:
  assumes "run_forensic E a = Inr out" "ro_status out \<in> {''pass'', ''failed''}" "pipeline_confined E"
    and "\<And>t. sha256_text (run_crypto E) t \<noteq> []"
    and "\<And>cmd env code fs. re_pipeline E cmd env = Inr (code, fs) \<Longrightarrow> code = 0"
    and "dag_of (re_reader E) (dag_folder (ro_store out)) = (ns, errs, edges)" "sound_evidence ns" "ns \<noteq> []"
    and "rooted_in ns (bundle_roots (run_bundle E a (ro_store out)))"
    and "distinct (store_files (ro_store out) [''evidence-dag''])"
    and "list_all has_edn_suffix (store_files (ro_store out) [''evidence-dag''])"
    and "honest_order (ve_interpreter (re_verify E))"
    and "length (set_order (ve_interpreter (re_verify E)) (map PStr (node_ids ns))) \<le> recursion_limit (ve_interpreter (re_verify E))"
    and "\<exists>cs. check_claims_content (run_crypto E) (run_bundle E a (ro_store out)) = Inr cs \<and> clean_checks cs"
    and "\<exists>cs. check_attestations_content (run_crypto E) (run_bundle E a (ro_store out)) = Inr cs \<and> clean_checks cs"
    and "\<exists>c. check_anchor_content (run_bundle E a (ro_store out)) = Inr c \<and> \<not> bad c"
  shows "ro_exit out = 0"
proof -
  have "\<exists>c. check_evidence_dag (ve_interpreter (re_verify E)) (run_bundle E a (ro_store out)) = Inr c \<and> \<not> bad c"
    using run_evidence_passes [OF assms(1-3,6-13)] dag_pass_not_bad by blast
  from verification_succeeds [OF assms(1-4) this assms(14-16)]
  have ok: "\<not> verification_failed E a (ro_store out)" .
  obtain report where run: "execute_run E a report = Inr out" by (rule executed_forensic [OF assms(1,2)])
  obtain st0 st1 code where pipe: "run_pipeline E a (source_info E a) st0 = Inr (code, st1)"
    and exit: "ro_exit out = (if verification_failed E a (ro_store out) then 1 else code)" by (rule executed_run [OF run])
  from pipe assms(5) have "code = 0" by (auto simp: run_pipeline_def bindE_Inr_iff)
  with ok exit show ?thesis by simp
qed

text \<open>
  C7: a good run succeeds.  When the preflight lets it start, the pipeline ends with code 0 and writes only
  where it should, the evidence folder it leaves has only EDN files (one JSON file fails every run) whose
  parsed nodes are sound, rooted and no more than the recursion limit allows, and its claims, attestations
  and anchor pass their own checks, then the run ends with exit code 0 -- the verification at its end finds nothing.
\<close>

theorem good_run_succeeds:
  assumes "run_forensic E a = Inr out" "ro_status out \<in> {''pass'', ''failed''}" "pipeline_confined E"
    and "\<And>t. sha256_text (run_crypto E) t \<noteq> []"
    and "\<And>cmd env code fs. re_pipeline E cmd env = Inr (code, fs) \<Longrightarrow> code = 0"
    and "dag_of (re_reader E) (dag_folder (ro_store out)) = (ns, errs, edges)" "sound_evidence ns" "ns \<noteq> []"
    and "rooted_in ns (bundle_roots (run_bundle E a (ro_store out)))"
    and "distinct (store_files (ro_store out) [''evidence-dag''])"
    and "list_all has_edn_suffix (store_files (ro_store out) [''evidence-dag''])"
    and "honest_order (ve_interpreter (re_verify E))"
    and "length (set_order (ve_interpreter (re_verify E)) (map PStr (node_ids ns))) \<le> recursion_limit (ve_interpreter (re_verify E))"
    and "\<exists>cs. check_claims_content (run_crypto E) (run_bundle E a (ro_store out)) = Inr cs \<and> clean_checks cs"
    and "\<exists>cs. check_attestations_content (run_crypto E) (run_bundle E a (ro_store out)) = Inr cs \<and> clean_checks cs"
    and "\<exists>c. check_anchor_content (run_bundle E a (ro_store out)) = Inr c \<and> \<not> bad c"
  shows "ro_exit out = 0"
  by (rule good_run [OF assms])

end
