(* ===== verification/Run_Sample.thy ===== *)
theory Run_Sample
  imports Run_Outcome
begin

text \<open>
  A forensic run on concrete inputs: a pipeline that leaves two evidence nodes, a file that cannot be parsed,
  a claim and an attestation.  The run is followed stage by stage, with the sealed documents left as they
  are, and its hypotheses are those of the properties of the run.
\<close>

section \<open>A concrete run\<close>

definition demo_root :: pv where
  "demo_root = PDict [(''bundle/schema-version'', PStr ''v1''), (''bundle/hash'', PStr ''b1''), (''execution/node-hash'', PStr ''n2'')]"

definition demo_tree :: source_tree where
  "demo_tree = \<lparr>st_files = [(''src/a.clj'', ''A'')], st_dirs = [''src'']\<rparr>"

definition demo_texts :: "string \<Rightarrow> pv option" where
  "demo_texts t =
     (if t = ''/rq'' then Some demo_request else if t = ''/reg'' \<or> t = ''/pol'' then Some (PDict [])
      else if t = ''root'' then Some (demo_root)
      else if t = ''claim'' then Some (PDict [(''result/schema-version'', PStr ''forensic-claim-result.v1''),
         (''result/status'', PStr ''pass''), (''result/hash'', PStr ''00'')])
      else if t = ''attestation'' then Some (PDict [(''attestation/schema-version'', PStr ''forensic-attestation.v1''),
         (''attestation/claim-result'', PStr ''verified''), (''attestation/hash'', PStr ''00'')])
      else None)"

definition demo_outside :: preflight_env where
  "demo_outside = \<lparr>pf_expand = id, pf_resolve = id, pf_exists = (\<lambda>p. p = ''/rq'' \<or> p = ''/reg'' \<or> p = ''/pol''),
     pf_listing = (\<lambda>_. Inr []), pf_text = Inr, pf_json = demo_texts, pf_clojure = (\<lambda>_. None),
     pf_commit = Some ''c0'', pf_dirty = False, pf_now = ''now''\<rparr>"

definition demo_pipeline_files :: store where
  "demo_pipeline_files =
     [([''clojure-bundle-root.json''], Raw (Some ''root'')), ([''workspace'', ''evidence-nodes''], Dir),
      ([''workspace'', ''evidence-nodes'', ''a.edn''], Raw (Some ''A'')), ([''workspace'', ''evidence-nodes'', ''b.edn''], Raw (Some ''B'')),
      ([''workspace'', ''evidence-nodes'', ''broken.edn''], Raw (Some ''('')),
      ([''workspace'', ''claims''], Dir), ([''workspace'', ''claims'', ''c.json''], Raw (Some ''claim'')),
      ([''workspace'', ''attestations''], Dir), ([''workspace'', ''attestations'', ''t.json''], Raw (Some ''attestation''))]"

definition demo_run :: run_env where
  "demo_run = \<lparr>re_preflight = demo_outside,
     re_isolation = \<lparr>io_evidence_user = [], io_workspace = [], io_uid = Inr 7, io_user_name = (\<lambda>_. Inr ''u''), io_ptrace = None,
       io_pid = 1, io_proc_status = Inr ''Name'', io_path_exists = (\<lambda>_. Inr True), io_writable = (\<lambda>_. True)\<rparr>,
     re_verify = sample_env, re_disk = (\<lambda>_ t. ReadsBack t), re_stamp = ''2024-01-02T03-04-05Z'', re_now = (\<lambda>_. ''now''),
     re_tree = Some demo_tree, re_roots = [''src''], re_platform = \<lparr>pl_system = ''s'', pl_release = ''r'', pl_python = ''p''\<rparr>,
     re_bytes = (\<lambda>p. if p = ''/rq'' \<or> p = ''/reg'' \<or> p = ''/pol'' then Some p else None), re_environ = [],
     re_pipeline = (\<lambda>_ _. Inr (0, demo_pipeline_files)), re_elapsed = 5, re_suite_paths = (\<lambda>_. None), re_reader = sample_reader,
     re_sign = (\<lambda>_ _. None), re_tsa = [], re_beyond = (\<lambda>_. False), re_exception = (\<lambda>_. [])\<rparr>"

definition demo_args :: run_args where
  "demo_args = \<lparr>ra_request = ''/rq'', ra_label = ''my run'', ra_registry = ''/reg'', ra_policy = ''/pol'', ra_base = ''/out'',
     ra_repo = ''/repo'', ra_dry_run = False, ra_isolation = ''shared-filesystem'', ra_key_path = [], ra_key_id = [],
     ra_no_harden = False, ra_tsa = []\<rparr>"

section \<open>The stages\<close>

lemma demo_fields [simp]:
  "re_preflight demo_run = demo_outside" "re_pipeline demo_run cmd env = Inr (0, demo_pipeline_files)" "run_crypto demo_run = sample_crypto"
  "re_verify demo_run = sample_env" "re_reader demo_run = sample_reader" "ve_crypto sample_env = sample_crypto"
  by (simp_all add: demo_run_def sample_env_def)

lemma demo_seal [simp]: "seal demo_run p v st = Inr (dset p (Sealed v) st)"
  by (simp add: seal_def write_sealed_json_def demo_run_def Let_def)

lemma demo_copies:
  "copy_in (re_bytes demo_run) (ra_request demo_args) p st = Inr (dset p (Raw (Some ''/rq'')) st)"
  "copy_if_present demo_run (ra_registry demo_args) p st = Inr (dset p (Raw (Some ''/reg'')) st)"
  "copy_if_present demo_run (ra_policy demo_args) p st = Inr (dset p (Raw (Some ''/pol'')) st)"
  by (simp_all add: copy_if_present_def copy_in_def demo_args_def demo_outside_def) (simp_all add: demo_run_def)

lemma demo_preflight_report:
  obtains r where "run_preflight demo_outside (ra_request demo_args) (ra_registry demo_args) (ra_policy demo_args)
    (run_place demo_run demo_args) (repo_root demo_run demo_args) = Inr r" "pr_status r = ''pass''"
proof -
  have "(case run_preflight demo_outside (ra_request demo_args) (ra_registry demo_args) (ra_policy demo_args)
    (run_place demo_run demo_args) (repo_root demo_run demo_args) of Inl _ \<Rightarrow> False | Inr r \<Rightarrow> pr_status r = ''pass'')" by code_simp
  with that show thesis by (auto split: sum.splits)
qed

definition demo_inputs :: "pv \<Rightarrow> pv \<Rightarrow> pv \<Rightarrow> pv \<Rightarrow> store" where
  "demo_inputs a b c d = run_folders @
     [([''preflight-report.json''], Sealed a), ([''source-snapshot.json''], Sealed b), ([''environment.json''], Sealed c),
      ([''run-request.json''], Raw (Some ''/rq'')), ([''registry-snapshot.json''], Raw (Some ''/reg'')),
      ([''evidence-policy.edn''], Raw (Some ''/pol'')), ([''input-manifest.json''], Sealed d)]"

lemma demo_set_up: "\<exists>a b c d. set_up demo_run demo_args r = Inr (demo_inputs a b c d)"
proof -
  have "\<not> pf_exists (re_preflight demo_run) (run_place demo_run demo_args)" by code_simp
  then have "set_up demo_run demo_args r = Inr (demo_inputs (PDict (preflight_report_pv r)) (PDict (source_info demo_run demo_args))
      (PDict (environment_info demo_run)) (PDict (input_manifest demo_run demo_args)))"
    unfolding set_up_def demo_copies by (simp add: demo_args_def run_folders_def demo_inputs_def)
  then show ?thesis by blast
qed

definition demo_results :: "pv \<Rightarrow> pv \<Rightarrow> pv \<Rightarrow> pv \<Rightarrow> pv \<Rightarrow> store" where
  "demo_results a b c d e = demo_inputs a b c d @ demo_pipeline_files @
     [([''results-summary.json''], Sealed e), ([''evidence-dag'', ''a.edn''], Raw (Some ''A'')), ([''evidence-dag'', ''b.edn''], Raw (Some ''B'')),
      ([''evidence-dag'', ''broken.edn''], Raw (Some ''('')), ([''claims'', ''c.json''], Raw (Some ''claim'')),
      ([''attestations'', ''t.json''], Raw (Some ''attestation''))]"

lemma demo_pipeline: "run_pipeline demo_run demo_args info (demo_inputs a b c d) = Inr (0, demo_inputs a b c d @ demo_pipeline_files)"
proof -
  have "suite_key_of (pipeline_request demo_run (ra_request demo_args)) = Inr PNone" by code_simp
  moreover have "foldl (\<lambda>s kv. dset (fst kv) (snd kv) s) (demo_inputs a b c d) demo_pipeline_files = demo_inputs a b c d @ demo_pipeline_files"
    by (simp add: demo_inputs_def run_folders_def demo_pipeline_files_def)
  ultimately show ?thesis by (simp add: run_pipeline_def)
qed

lemma demo_folders:
  "copy_folder is_evidence_name [''workspace'', ''evidence-nodes''] [''evidence-dag'']
     (dset [''results-summary.json''] (Sealed e) (demo_inputs a b c d @ demo_pipeline_files))
   = Inr (demo_inputs a b c d @ demo_pipeline_files @ [([''results-summary.json''], Sealed e), ([''evidence-dag'', ''a.edn''], Raw (Some ''A'')),
       ([''evidence-dag'', ''b.edn''], Raw (Some ''B'')), ([''evidence-dag'', ''broken.edn''], Raw (Some ''(''))])"
  "copy_folder has_json_suffix [''workspace'', ''claims''] [''claims'']
     (demo_inputs a b c d @ demo_pipeline_files @ [([''results-summary.json''], Sealed e), ([''evidence-dag'', ''a.edn''], Raw (Some ''A'')),
       ([''evidence-dag'', ''b.edn''], Raw (Some ''B'')), ([''evidence-dag'', ''broken.edn''], Raw (Some ''(''))])
   = Inr (demo_inputs a b c d @ demo_pipeline_files @ [([''results-summary.json''], Sealed e), ([''evidence-dag'', ''a.edn''], Raw (Some ''A'')),
       ([''evidence-dag'', ''b.edn''], Raw (Some ''B'')), ([''evidence-dag'', ''broken.edn''], Raw (Some ''('')),
       ([''claims'', ''c.json''], Raw (Some ''claim''))])"
  "copy_folder has_json_suffix [''workspace'', ''attestations''] [''attestations'']
     (demo_inputs a b c d @ demo_pipeline_files @ [([''results-summary.json''], Sealed e), ([''evidence-dag'', ''a.edn''], Raw (Some ''A'')),
       ([''evidence-dag'', ''b.edn''], Raw (Some ''B'')), ([''evidence-dag'', ''broken.edn''], Raw (Some ''('')),
       ([''claims'', ''c.json''], Raw (Some ''claim''))])
   = Inr (demo_results a b c d e)"
  by (code_simp, code_simp, code_simp)

definition demo_collected :: "pv \<Rightarrow> pv \<Rightarrow> pv \<Rightarrow> pv \<Rightarrow> pv \<Rightarrow> pv \<Rightarrow> store" where
  "demo_collected a b c d e f = demo_results a b c d e @ [([''evidence-dag-inventory.json''], Sealed f)]"

lemma demo_collect: "\<exists>e f. collect_results demo_run demo_args 0 (demo_inputs a b c d @ demo_pipeline_files) = Inr (demo_collected a b c d e f)"
proof -
  have "suite_key_of (bundled_request demo_run (ra_request demo_args)) = Inr PNone" by code_simp
  moreover have "bundle_deps demo_run st = st" for st by (simp add: bundle_deps_def demo_run_def)
  moreover have "dset [''evidence-dag-inventory.json''] (Sealed f) (demo_results a b c d e) = demo_collected a b c d e f" for e f
    by (simp add: demo_results_def demo_inputs_def run_folders_def demo_pipeline_files_def demo_collected_def)
  ultimately have "collect_results demo_run demo_args 0 (demo_inputs a b c d @ demo_pipeline_files)
      = Inr (demo_collected a b c d (PDict (results_summary 0 PNone)) (PDict (run_inventory demo_run (demo_results a b c d (PDict (results_summary 0 PNone))))))"
    unfolding collect_results_def by (simp add: demo_folders)
  then show ?thesis by blast
qed

definition demo_final :: "pv \<Rightarrow> pv \<Rightarrow> pv \<Rightarrow> pv \<Rightarrow> pv \<Rightarrow> pv \<Rightarrow> pv \<Rightarrow> pv \<Rightarrow> pv \<Rightarrow> store" where
  "demo_final a b c d e f g h i = demo_collected a b c d e f @
     [([''run-overview.json''], Sealed g), ([''run-bundle-root.json''], Sealed h), ([''anchors'', ''anchor-cursor.json''], Sealed i)]"

definition demo_cursor :: obj where
  "demo_cursor =
     [(''anchor/schema-version'', PStr ''anchor-cursor.v1''), (''anchor/type'', PStr ''local-proof''),
      (''anchor/target'', PStr (''file://'' @ run_place demo_run demo_args)), (''anchor/timestamp'', PStr ''now''),
      (''anchor/note'', PStr (anchor_note ''local-proof''))]"

lemma demo_stored:
  "copy_anchors (demo_collected a b c d e f) = Inr (demo_collected a b c d e f)"
  "execution_node_hash demo_run (demo_collected a b c d e f) = PStr ''n2''"
  "anchor_cursor demo_run demo_args (demo_collected a b c d e f) = demo_cursor"
  by (code_simp, code_simp, code_simp)

lemma demo_seal_run:
  "\<exists>g root dag_hash. seal_run demo_run demo_args r 0 (demo_collected a b c d e f) = Inr (demo_final a b c d e f g (PDict root) (PDict demo_cursor))
     \<and> sealed_root demo_run demo_args (bundle_root demo_run demo_args r 0 dag_hash (PStr ''n2'')) = Inr root"
proof -
  let ?r = "bundle_root demo_run demo_args r 0 (inventory_hash demo_run (demo_collected a b c d e f)) (PStr ''n2'')"
  have root: "sealed_root demo_run demo_args ?r = Inr (stamped_root demo_run ?r)"
    by (simp add: sealed_root_def demo_args_def)
  have "dset [''anchors'', ''anchor-cursor.json''] (Sealed i) (dset [''run-bundle-root.json''] (Sealed h)
      (dset [''run-overview.json''] (Sealed g) (demo_collected a b c d e f))) = demo_final a b c d e f g h i" for g h i
    by (simp add: demo_final_def demo_collected_def demo_results_def demo_inputs_def run_folders_def demo_pipeline_files_def)
  with root have "seal_run demo_run demo_args r 0 (demo_collected a b c d e f)
      = Inr (demo_final a b c d e f (PDict (sealed_overview demo_run demo_args 0)) (PDict (stamped_root demo_run ?r)) (PDict demo_cursor))"
    by (simp add: seal_run_def demo_stored Let_def)
  with root show ?thesis by blast
qed

lemma demo_completes:
  obtains out a b c d e f g root dag_hash r where "run_forensic demo_run demo_args = Inr out" "ro_status out \<in> {''pass'', ''failed''}"
    "ro_store out = demo_final a b c d e f g (PDict root) (PDict demo_cursor)"
    "sealed_root demo_run demo_args (bundle_root demo_run demo_args r 0 dag_hash (PStr ''n2'')) = Inr root"
proof -
  obtain r where r: "run_preflight demo_outside (ra_request demo_args) (ra_registry demo_args) (ra_policy demo_args)
    (run_place demo_run demo_args) (repo_root demo_run demo_args) = Inr r" "pr_status r = ''pass''" by (rule demo_preflight_report)
  obtain a b c d where set_up: "set_up demo_run demo_args r = Inr (demo_inputs a b c d)" using demo_set_up by blast
  obtain e f where collect_results: "collect_results demo_run demo_args 0 (demo_inputs a b c d @ demo_pipeline_files) = Inr (demo_collected a b c d e f)"
    using demo_collect by blast
  obtain g root dag_hash where sealing: "seal_run demo_run demo_args r 0 (demo_collected a b c d e f)
      = Inr (demo_final a b c d e f g (PDict root) (PDict demo_cursor))"
    "sealed_root demo_run demo_args (bundle_root demo_run demo_args r 0 dag_hash (PStr ''n2'')) = Inr root" using demo_seal_run by blast
  have "\<not> ra_dry_run demo_args" by (simp add: demo_args_def)
  then have "\<exists>out. run_forensic demo_run demo_args = Inr out \<and> ro_status out \<in> {''pass'', ''failed''}
      \<and> ro_store out = demo_final a b c d e f g (PDict root) (PDict demo_cursor)"
    by (simp add: run_forensic_def r execute_run_def set_up demo_pipeline collect_results sealing Let_def)
  with that sealing(2) show thesis by blast
qed

section \<open>The finished directory\<close>

lemma demo_confined: "pipeline_confined demo_run"
  by (simp add: pipeline_confined_def demo_pipeline_files_def pipeline_area_def)

lemma demo_digest: "sha256_text (run_crypto demo_run) t \<noteq> []"
  by (simp add: sample_crypto_def)

lemma demo_dag: "dag_of (re_reader demo_run) (dag_folder (demo_final a b c d e f g h i))
    = (sample_parsed, [\<lparr>pe_file = ''broken.edn'', pe_message = Some ''EOF''\<rparr>], [(''n1'', ''n2'')])"
  "store_files (demo_final a b c d e f g h i) [''evidence-dag''] = [''a.edn'', ''b.edn'', ''broken.edn'']"
  by (code_simp, code_simp)

lemma demo_contents:
  "\<exists>cs. check_claims_content sample_crypto (run_bundle demo_run demo_args (demo_final a b c d e f g h i)) = Inr cs \<and> clean_checks cs"
  "\<exists>cs. check_attestations_content sample_crypto (run_bundle demo_run demo_args (demo_final a b c d e f g h i)) = Inr cs \<and> clean_checks cs"
  "\<exists>chk. check_anchor_content (run_bundle demo_run demo_args (demo_final a b c d e f g h (PDict demo_cursor))) = Inr chk \<and> \<not> bad chk"
  by (rule returns, code_simp)+

lemma demo_first_root:
  "truthy_at (run_bundle demo_run demo_args (demo_final a b c d e f g h i)) [''clojure-bundle-root.json''] = Some (demo_root)"
  by code_simp

lemma demo_rooted:
  assumes "sealed_root demo_run demo_args (bundle_root demo_run demo_args r 0 dag_hash (PStr ''n2'')) = Inr root"
  shows "rooted_in sample_parsed (bundle_roots (run_bundle demo_run demo_args (demo_final a b c d e f g (PDict root) i)))"
proof -
  let ?D = "run_bundle demo_run demo_args (demo_final a b c d e f g (PDict root) i)"
  note stamps = sealed_root_stamps [OF bundle_root_fields(1) assms]
  have wf: "dict_wf root" using stamps by (simp add: stamps_def)
  have keys: "map_of root ''dag/root-node-hash'' = None" "map_of root ''execution/node-hash'' = Some (PStr ''n2'')"
    using stamps by (simp_all add: stamps_def bundle_sign_exclude_keys_def bundle_root_fields(5,6))
  have "root \<noteq> []" using keys(2) by auto
  have "map_of (demo_final a b c d e f g (PDict root) i) [''run-bundle-root.json''] = Some (Sealed (PDict root))"
    by (simp add: demo_final_def demo_collected_def demo_results_def demo_inputs_def run_folders_def demo_pipeline_files_def)
  from run_bundle_reads(1) [OF this] \<open>root \<noteq> []\<close> have "truthy_at ?D [''run-bundle-root.json''] = Some (canon (PDict root))"
    by (simp add: truthy_at_def del: canon.simps)
  with demo_first_root have roots: "bundle_roots ?D = [demo_root, canon (PDict root)]"
    by (simp add: bundle_roots_def del: canon.simps)
  have "get_none (canon (PDict root)) ''dag/root-node-hash'' = Inr PNone" "get_none (canon (PDict root)) ''execution/node-hash'' = Inr (PStr ''n2'')"
    using keys by (subst get_in_canon [OF wf]; simp add: get_or_def)+
  then have "bundle_root_reference (canon (PDict root)) = Inr (PStr ''n2'')"
    by (simp add: bundle_root_reference_def del: canon.simps)
  moreover have "bundle_root_reference (demo_root) = Inr (PStr ''n2'')" by code_simp
  moreover have "''n2'' \<in> set (node_ids sample_parsed)" by code_simp
  ultimately show ?thesis
    unfolding rooted_in_def roots by (intro exI [of _ "[Some ''n2'', Some ''n2'']"] conjI bexI [of _ "''n2''"]) (simp_all del: canon.simps)
qed

section \<open>The properties at this run\<close>

abbreviation demo_run_bundle :: "run_outcome \<Rightarrow> bundle_dir option" where
  "demo_run_bundle out \<equiv> Some (run_bundle demo_run demo_args (ro_store out))"

lemma demo_good:
  obtains out where "run_forensic demo_run demo_args = Inr out" "ro_status out \<in> {''pass'', ''failed''}"
    "dag_of (re_reader demo_run) (dag_folder (ro_store out))
      = (sample_parsed, [\<lparr>pe_file = ''broken.edn'', pe_message = Some ''EOF''\<rparr>], [(''n1'', ''n2'')])"
    "rooted_in sample_parsed (bundle_roots (run_bundle demo_run demo_args (ro_store out)))"
    "distinct (store_files (ro_store out) [''evidence-dag''])" "list_all has_edn_suffix (store_files (ro_store out) [''evidence-dag''])"
    "\<exists>cs. check_claims_content (run_crypto demo_run) (run_bundle demo_run demo_args (ro_store out)) = Inr cs \<and> clean_checks cs"
    "\<exists>cs. check_attestations_content (run_crypto demo_run) (run_bundle demo_run demo_args (ro_store out)) = Inr cs \<and> clean_checks cs"
    "\<exists>c. check_anchor_content (run_bundle demo_run demo_args (ro_store out)) = Inr c \<and> \<not> bad c"
proof -
  obtain out a b c d e f g root dag_hash r where out: "run_forensic demo_run demo_args = Inr out" "ro_status out \<in> {''pass'', ''failed''}"
    and st: "ro_store out = demo_final a b c d e f g (PDict root) (PDict demo_cursor)"
    and root: "sealed_root demo_run demo_args (bundle_root demo_run demo_args r 0 dag_hash (PStr ''n2'')) = Inr root" by (rule demo_completes)
  show thesis
  proof (rule that [OF out])
    show "dag_of (re_reader demo_run) (dag_folder (ro_store out))
      = (sample_parsed, [\<lparr>pe_file = ''broken.edn'', pe_message = Some ''EOF''\<rparr>], [(''n1'', ''n2'')])" unfolding st by (rule demo_dag)
    show "distinct (store_files (ro_store out) [''evidence-dag''])" "list_all has_edn_suffix (store_files (ro_store out) [''evidence-dag''])"
      unfolding st demo_dag by (simp_all add: has_edn_suffix_def ends_with_def)
    show "rooted_in sample_parsed (bundle_roots (run_bundle demo_run demo_args (ro_store out)))" unfolding st by (rule demo_rooted [OF root])
    show "\<exists>cs. check_claims_content (run_crypto demo_run) (run_bundle demo_run demo_args (ro_store out)) = Inr cs \<and> clean_checks cs"
      "\<exists>cs. check_attestations_content (run_crypto demo_run) (run_bundle demo_run demo_args (ro_store out)) = Inr cs \<and> clean_checks cs"
      "\<exists>c. check_anchor_content (run_bundle demo_run demo_args (ro_store out)) = Inr c \<and> \<not> bad c"
      unfolding st demo_fields by (rule demo_contents)+
  qed
qed

lemma demo_ready:
  "re_pipeline demo_run cmd env = Inr (code, fs) \<Longrightarrow> code = 0" "sample_parsed \<noteq> []" "honest_order (ve_interpreter (re_verify demo_run))"
  "length (set_order (ve_interpreter (re_verify demo_run)) (map PStr (node_ids sample_parsed))) \<le> recursion_limit (ve_interpreter (re_verify demo_run))"
  by (simp_all add: sample_parsed_def node_ids_def honest_order_def sample_env_def)

lemma good_run_succeeds_witness: "\<exists>out. run_forensic demo_run demo_args = Inr out \<and> ro_exit out = 0"
proof (rule demo_good, goal_cases)
  case (1 out)
  have "ro_exit out = 0"
    by (rule good_run_succeeds [OF 1(1,2) demo_confined demo_digest _ 1(3) sample_sound demo_ready(2) 1(4-6) demo_ready(3,4) 1(7-9)], rule demo_ready(1))
  with 1(1) show ?case by blast
qed

lemma demo_succeeds:
  obtains out where "run_forensic demo_run demo_args = Inr out" "ro_status out \<in> {''pass'', ''failed''}" "ro_exit out = 0"
    "\<not> ra_dry_run demo_args"
proof (rule demo_good, goal_cases)
  case (1 out)
  have "ro_exit out = 0"
    by (rule good_run [OF 1(2,3) demo_confined demo_digest _ 1(4) sample_sound demo_ready(2) 1(5-7) demo_ready(3,4) 1(8-10)], rule demo_ready(1))
  moreover have "\<not> ra_dry_run demo_args" by (simp add: demo_args_def)
  ultimately show ?case using 1(1) [OF 1(2,3)] by blast
qed

lemma run_documents_accepted_witness:
  "\<exists>out. run_forensic demo_run demo_args = Inr out
     \<and> (\<exists>c. check_bundle_root_hash (run_crypto demo_run) (run_bundle demo_run demo_args (ro_store out)) = Inr c \<and> ck_status c = ''pass'')"
proof -
  obtain out where out: "run_forensic demo_run demo_args = Inr out" "ro_status out \<in> {''pass'', ''failed''}" by (rule demo_succeeds)
  from run_documents_accepted [OF out demo_confined demo_digest] out(1) show ?thesis by blast
qed

lemma run_exit_zero_witness:
  "\<exists>out r. run_forensic demo_run demo_args = Inr out
     \<and> verify_run (run_verifier demo_run) (run_place demo_run demo_args) (demo_run_bundle out) None False = Inr r \<and> verify_exit_code r = 0"
proof -
  obtain out where out: "run_forensic demo_run demo_args = Inr out" "ro_exit out = 0" "\<not> ra_dry_run demo_args" by (rule demo_succeeds)
  from run_exit_zero [OF out] out(1) show ?thesis by blast
qed

lemma run_never_semantic_witness:
  "\<exists>out r. run_forensic demo_run demo_args = Inr out
     \<and> verify_run (run_verifier demo_run) (run_place demo_run demo_args) (demo_run_bundle out) None True = Inr r \<and> verify_exit_code r = 1"
proof -
  obtain out where out: "run_forensic demo_run demo_args = Inr out" "ro_status out \<in> {''pass'', ''failed''}" "ro_exit out = 0"
    "\<not> ra_dry_run demo_args" by (rule demo_succeeds)
  from zero_exit_verified [OF out(1,3,4)] obtain r where
    "verify_run (run_verifier demo_run) (run_place demo_run demo_args) (demo_run_bundle out) None False = Inr r" by blast
  from semantic_run_returns [OF out(1,2) demo_confined this] obtain r' where
    r': "verify_run (run_verifier demo_run) (run_place demo_run demo_args) (demo_run_bundle out) None True = Inr r'" by blast
  from run_never_semantic [OF out(1,2) demo_confined r'] out(1) r' show ?thesis by blast
qed

lemma retention_bounded_witness:
  "length (filter run_entry (enforce_retention (\<lambda>_. True) 1
     [(''2024-01-02T03-04-05Z'', True), (''notes'', True), (''2024-01-03T03-04-05Z-x'', True)])) \<le> 1"
  using retention_bounded [of 1 "[(''2024-01-02T03-04-05Z'', True), (''notes'', True), (''2024-01-03T03-04-05Z-x'', True)]" "\<lambda>_. True"]
  by simp

end
