(* ===== verification/Reproduce.thy ===== *)
theory Reproduce
  imports Forensic_Run
begin

text \<open>
  Repeating a forensic run from its directory and comparing the two bundle roots of the Clojure pipeline
  (\<^verbatim>\<open>scripts/forensic/reproduce.py\<close>): the classes of fields, the reasons of a difference, the verdict, and
  the repetition with its report.  The directory is the one the verifier reads; the pipeline is the parameter
  \<open>rp_pipeline\<close>, the exit code and the JSON value of its output file, \<^const>\<open>PNone\<close> where that is missing or not JSON.
\<close>

section \<open>Classes and reasons\<close>

definition core_fields :: "string list" where
  "core_fields =
     [''bundle/hash'', ''overview/overview-hash'', ''execution/summary/status'', ''execution/summary/totals/total'',
      ''execution/summary/totals/passed'', ''execution/summary/totals/failed'', ''execution/summary/totals/expected-failed'',
      ''execution/summary/totals/unexpected-failed'', ''source/tree-hash'',
      ''protocol/state-hashes/force-authorisations/hash'', ''protocol/state-hashes/force-authorisations/consumed-hash'']"

definition classify_field :: "string \<Rightarrow> string" where
  "classify_field label = (if label \<in> set core_fields then ''core'' else ''diagnostic'')"

record precheck =
  pc_match :: "bool option"
  pc_reason :: string

definition classify_source_precheck :: "pv \<Rightarrow> pv \<Rightarrow> string \<Rightarrow> string \<Rightarrow> precheck" where
  "classify_source_precheck bundle_hash bundle_algorithm current_hash current_algorithm =
     (if \<not> truthy bundle_hash then \<lparr>pc_match = None, pc_reason = ''missing/original-field''\<rparr>
      else if \<not> truthy bundle_algorithm then \<lparr>pc_match = None, pc_reason = ''missing/algorithm-field''\<rparr>
      else if \<not> py_eq bundle_algorithm (PStr current_algorithm) then \<lparr>pc_match = None, pc_reason = ''algorithm-mismatch''\<rparr>
      else if py_eq (PStr current_hash) bundle_hash then \<lparr>pc_match = Some True, pc_reason = ''matched''\<rparr>
      else \<lparr>pc_match = Some False, pc_reason = ''expected-drift/source-changed''\<rparr>)"

definition limited_by_algorithm :: "precheck option \<Rightarrow> bool" where
  "limited_by_algorithm s \<longleftrightarrow>
     (case s of None \<Rightarrow> False | Some p \<Rightarrow> pc_reason p \<in> {''missing/algorithm-field'', ''algorithm-mismatch''})"

definition classify_mismatch :: "string \<Rightarrow> pv \<Rightarrow> pv \<Rightarrow> precheck option \<Rightarrow> string" where
  "classify_mismatch label old new s =
     (let source_matches = (case s of None \<Rightarrow> None | Some p \<Rightarrow> pc_match p) in
      if py_eq old new \<and> old \<noteq> PNone then ''matched''
      else if old = PNone \<and> new = PNone then ''matched''
      else if old = PNone then ''missing/original-field''
      else if new = PNone then ''missing/reproduced-field''
      else if label = ''source/tree-hash'' then
        (if limited_by_algorithm s then ''legacy-algorithm''
         else if source_matches = Some False then ''expected-drift/source-changed''
         else if source_matches = Some True then ''mismatch/non-deterministic''
         else ''mismatch/unexplained'')
      else if label = ''source/tree-hash-algorithm'' then
        (if limited_by_algorithm s then ''legacy-algorithm'' else ''mismatch/unexplained'')
      else if source_matches = Some False then ''expected-drift/source-changed''
      else ''mismatch/unexplained'')"

section \<open>Comparing two bundle roots\<close>

record field_check =
  fc_field :: string
  fc_class :: string
  fc_original :: pv
  fc_new :: pv
  fc_match :: "bool option"
  fc_reason :: string

definition compare_field :: "precheck option \<Rightarrow> string \<Rightarrow> pv \<Rightarrow> pv \<Rightarrow> field_check" where
  "compare_field s label old new =
     \<lparr>fc_field = label, fc_class = classify_field label, fc_original = old, fc_new = new,
      fc_match = (if old \<noteq> PNone \<and> new \<noteq> PNone then Some (py_eq old new) else None),
      fc_reason = classify_mismatch label old new s\<rparr>"

text \<open>\<^verbatim>\<open>add_check(label, a.get(key), b.get(key))\<close>.\<close>

definition add_check :: "precheck option \<Rightarrow> string \<Rightarrow> pv \<Rightarrow> pv \<Rightarrow> string \<Rightarrow> ev_error + field_check" where
  "add_check s label a b key =
     bindE (get_none a key) (\<lambda>x. bindE (get_none b key) (\<lambda>y. Inr (compare_field s label x y)))"

definition or_empty :: "pv \<Rightarrow> pv" where
  "or_empty v = (if truthy v then v else PDict [])"

definition total_names :: "string list" where
  "total_names = [''total'', ''passed'', ''failed'', ''expected-failed'', ''unexpected-failed'']"

fun keys_of :: "pv \<Rightarrow> ev_error + string list" where
  "keys_of (PDict d) = Inr (map fst d)"
| "keys_of v = Inl (Builtin AttributeError)"

definition totals_checks :: "precheck option \<Rightarrow> pv \<Rightarrow> pv \<Rightarrow> ev_error + field_check list" where
  "totals_checks s ta tb =
     foldE (\<lambda>cs k.
       bindE (anyE [has_item ta k, has_item tb k]) (\<lambda>present.
       if present then bindE (add_check s (''execution/summary/totals/'' @ k) ta tb k) (\<lambda>c. Inr (cs @ [c])) else Inr cs)) [] total_names"

text \<open>The fields below a key, in the order of their names.\<close>

definition table_checks :: "precheck option \<Rightarrow> string \<Rightarrow> pv \<Rightarrow> pv \<Rightarrow> ev_error + field_check list" where
  "table_checks s key old new =
     bindE (get_in old key (PDict [])) (\<lambda>a. bindE (get_in new key (PDict [])) (\<lambda>b.
     bindE (keys_of (or_empty a)) (\<lambda>ka. bindE (keys_of (or_empty b)) (\<lambda>kb.
       mapE (\<lambda>k. add_check s (key @ ''/'' @ k) (or_empty a) (or_empty b) k) (sort (remdups (ka @ kb)))))))"

definition provenance_checks :: "precheck option \<Rightarrow> pv \<Rightarrow> pv \<Rightarrow> ev_error + field_check list" where
  "provenance_checks s old new =
     foldE (\<lambda>cs k.
       bindE (get_none old k) (\<lambda>x. bindE (get_none new k) (\<lambda>y.
         Inr (if x \<noteq> PNone \<or> y \<noteq> PNone then cs @ [compare_field s k x y] else cs)))) []
       [''source/tree-hash'', ''source/tree-hash-algorithm'']"

definition compare_bundle_fields :: "pv \<Rightarrow> pv \<Rightarrow> precheck option \<Rightarrow> ev_error + field_check list" where
  "compare_bundle_fields old new s =
     bindE (add_check s ''bundle/hash'' old new ''bundle/hash'') (\<lambda>c1.
     bindE (add_check s ''bundle/schema-version'' old new ''bundle/schema-version'') (\<lambda>c2.
     bindE (add_check s ''overview/overview-hash'' old new ''overview/hash'') (\<lambda>c3.
     bindE (get_in old ''execution/summary'' (PDict [])) (\<lambda>a.
     bindE (get_in new ''execution/summary'' (PDict [])) (\<lambda>b.
     bindE (add_check s ''execution/summary/status'' a b ''status'') (\<lambda>c4.
     bindE (get_none a ''totals'') (\<lambda>ta.
     bindE (get_none b ''totals'') (\<lambda>tb.
     bindE (totals_checks s (or_empty ta) (or_empty tb)) (\<lambda>totals.
     bindE (table_checks s ''registry/snapshot'' old new) (\<lambda>snapshot.
     bindE (table_checks s ''protocol/state-hashes'' old new) (\<lambda>protocol.
     bindE (provenance_checks s old new) (\<lambda>source.
       Inr ([c1, c2, c3, c4] @ totals @ snapshot @ protocol @ source)))))))))))))"

section \<open>The verdict\<close>

definition is_core :: "field_check \<Rightarrow> bool" where
  "is_core c \<longleftrightarrow> fc_class c = ''core''"

definition expected_drift :: "field_check \<Rightarrow> bool" where
  "expected_drift c \<longleftrightarrow> starts_with ''expected-drift/'' (fc_reason c)"

definition legacy_algorithm :: "field_check \<Rightarrow> bool" where
  "legacy_algorithm c \<longleftrightarrow> fc_reason c = ''legacy-algorithm''"

definition field_names :: "field_check list \<Rightarrow> string" where
  "field_names cs = join '', '' (map fc_field cs)"

definition reproduction_verdict :: "field_check list \<Rightarrow> bool \<Rightarrow> bool \<Rightarrow> string \<times> string list" where
  "reproduction_verdict cs a_ok b_ok =
     (let core = filter is_core cs;
          core_mismatch = filter (\<lambda>c. fc_match c = Some False) core;
          core_unknown = filter (\<lambda>c. fc_match c = None) core;
          diag_mismatch = filter (\<lambda>c. fc_class c = ''diagnostic'' \<and> fc_match c = Some False) cs;
          expected = filter expected_drift core_mismatch;
          legacy = filter legacy_algorithm core_mismatch;
          unexpected = filter (\<lambda>c. \<not> expected_drift c \<and> \<not> legacy_algorithm c) core_mismatch;
          explained = (if expected = [] then []
            else [''Core divergence explained: '' @ field_names expected @ '' ('' @ fc_reason (hd expected) @ '')'']) in
      if \<not> a_ok \<and> \<not> b_ok then (''reproduce-failed'', [''Both original and reproduce produced no bundle''])
      else if \<not> b_ok then (''reproduce-failed'', [''Reproduce run produced no bundle''])
      else if cs \<noteq> [] \<and> list_all (\<lambda>c. fc_match c = None) cs
      then (''invalid-original-bundle'', [''All fields returned None -- bundle predates comparison schema''])
      else if core = [] then (''inconclusive'', [''No core fields available for comparison''])
      else if unexpected \<noteq> []
      then (''diverged'', [nat_str (length unexpected) @ '' core field(s) diverged: '' @ field_names unexpected])
      else if legacy \<noteq> [] \<and> expected = []
      then (''reproduced-with-legacy-gaps'',
        explained @ [''Core comparison limited by legacy source hash algorithm: '' @ field_names legacy])
      else if core_unknown \<noteq> [] \<and> expected = [] \<and> unexpected = []
      then (''reproduced-with-legacy-gaps'',
        explained @ [''Core fields unknown (original bundle format): '' @ field_names core_unknown])
      else if expected \<noteq> [] then (''reproduced-with-explained-drift'', explained)
      else (''verified'',
        if diag_mismatch = [] then [] else [''Diagnostic fields differ (non-essential): '' @ field_names diag_mismatch]))"

section \<open>The repetition\<close>

record repro_env =
  rp_stamp :: string
  rp_now :: string
  rp_hash :: "string \<Rightarrow> string"
  rp_tree :: "source_tree option"
  rp_roots :: "string list"
  rp_environ :: "(string \<times> string) list"
  rp_exists :: "string \<Rightarrow> bool"
  rp_pipeline :: "string list \<Rightarrow> (string \<times> string) list \<Rightarrow> ev_error + (int \<times> pv)"
  rp_elapsed :: int

definition loaded_json :: "bundle_dir \<Rightarrow> string \<Rightarrow> pv" where
  "loaded_json W name = (case load_at W [name] of None \<Rightarrow> PNone | Some v \<Rightarrow> v)"

definition current_code_hash :: "repro_env \<Rightarrow> string" where
  "current_code_hash E =
     (case rp_tree E of None \<Rightarrow> ''unknown'' | Some T \<Rightarrow> fst (compute_source_tree_hash (rp_hash E) T (ListedRoots (rp_roots E))))"

text \<open>\<^verbatim>\<open>src.get(k1)\<close>, and \<^verbatim>\<open>src.get(k2)\<close> where that is false.\<close>

definition get_either :: "pv \<Rightarrow> string \<Rightarrow> string \<Rightarrow> ev_error + pv" where
  "get_either v k1 k2 = bindE (get_none v k1) (\<lambda>x. if truthy x then Inr x else get_none v k2)"

text \<open>
  The messages of the source check slice the hash and join the roots, which raises on other types.
\<close>

fun sliceable :: "pv \<Rightarrow> ev_error + unit" where
  "sliceable (PStr t) = Inr ()"
| "sliceable (PList xs) = Inr ()"
| "sliceable v = (if truthy v then Inl (Builtin TypeError) else Inr ())"

definition joinable :: "pv \<Rightarrow> ev_error + unit" where
  "joinable v =
     (if \<not> truthy v then Inr ()
      else bindE (iter_of v) (\<lambda>xs. if list_all is_str xs then Inr () else Inl (Builtin TypeError)))"

record source_claim =
  sc_hash :: pv
  sc_algorithm :: pv
  sc_roots :: pv

definition claimed_source :: "bundle_dir \<Rightarrow> ev_error + source_claim" where
  "claimed_source W =
     bindE (get_in (or_empty (loaded_json W ''run-overview.json'')) ''source'' (PDict [])) (\<lambda>src.
     bindE (get_either src ''source-hash'' ''code-hash'') (\<lambda>h.
     bindE (get_either src ''source-hash-algorithm'' ''code-hash-algorithm'') (\<lambda>a.
     bindE (get_either src ''source-hash-roots'' ''included-roots'') (\<lambda>roots.
     thenE (sliceable h) (thenE (joinable roots) (Inr \<lparr>sc_hash = h, sc_algorithm = a, sc_roots = roots\<rparr>))))))"

definition source_status :: "repro_env \<Rightarrow> source_claim \<Rightarrow> precheck" where
  "source_status E c = classify_source_precheck (sc_hash c) (sc_algorithm c) (current_code_hash E) source_hash_algorithm"

definition reproduced_suite :: "bundle_dir \<Rightarrow> ev_error + pv" where
  "reproduced_suite W =
     (let request = loaded_json W ''run-request.json'' in
      if truthy request then get_either request ''suite/key'' ''key'' else Inr PNone)"

definition repro_id :: "repro_env \<Rightarrow> bundle_dir \<Rightarrow> string" where
  "repro_id E W = rp_stamp E @ ''-reproduce-'' @ take 30 (key_file_name (place W))"

definition repro_process_env :: "repro_env \<Rightarrow> string \<Rightarrow> string \<Rightarrow> (string \<times> string) list" where
  "repro_process_env E bundle dir =
     foldl (\<lambda>env kv. dset (fst kv) (snd kv) env) (rp_environ E)
       [(''PRF_SOURCE_TREE_HASH'', current_code_hash E), (''PRF_SOURCE_TREE_HASH_ALGORITHM'', source_hash_algorithm),
        (''PRF_ORCHESTRATION_RUNNER_ID'', ''forensic-reproduce.py''), (''PRF_BUNDLE_ID'', bundle),
        (''PRF_ARTIFACT_DIR'', dir @ ''/workspace''), (''PRF_RESULTS_ROOT'', dir @ ''/results''), (''PRF_RUNS_ROOT'', dir @ ''/runs'')]"

definition match_pv :: "bool option \<Rightarrow> pv" where
  "match_pv m = (case m of None \<Rightarrow> PNone | Some b \<Rightarrow> PBool b)"

definition field_check_pv :: "field_check \<Rightarrow> pv" where
  "field_check_pv c = PDict
     [(''field'', PStr (fc_field c)), (''classification'', PStr (fc_class c)), (''original'', fc_original c), (''new'', fc_new c),
      (''match'', match_pv (fc_match c)), (''reason'', PStr (fc_reason c))]"

definition count_matches :: "(field_check \<Rightarrow> bool) \<Rightarrow> bool option \<Rightarrow> field_check list \<Rightarrow> pv" where
  "count_matches sel m cs = nat_pv (length (filter (\<lambda>c. sel c \<and> fc_match c = m) cs))"

definition precheck_pv :: "repro_env \<Rightarrow> source_claim \<Rightarrow> pv" where
  "precheck_pv E c = PDict
     [(''bundle-source-hash'', if truthy (sc_hash c) then sc_hash c else PNone),
      (''bundle-source-hash-algorithm'', sc_algorithm c), (''bundle-source-hash-roots'', sc_roots c),
      (''current-source-hash'', PStr (current_code_hash E)), (''current-source-hash-algorithm'', PStr source_hash_algorithm),
      (''current-source-hash-roots'', names_pv (rp_roots E)), (''match'', match_pv (pc_match (source_status E c))),
      (''reason'', PStr (pc_reason (source_status E c)))]"

definition comparison_pv :: "field_check list \<Rightarrow> pv" where
  "comparison_pv cs = PDict
     [(''checks'', PList (map field_check_pv cs)), (''match-count'', count_matches (\<lambda>_. True) (Some True) cs),
      (''mismatch-count'', count_matches (\<lambda>_. True) (Some False) cs), (''unknown-count'', count_matches (\<lambda>_. True) None cs),
      (''core'', PDict [(''matched'', count_matches is_core (Some True) cs), (''mismatched'', count_matches is_core (Some False) cs),
         (''unknown'', count_matches is_core None cs)]),
      (''diagnostic'', PDict [(''matched'', count_matches (Not \<circ> is_core) (Some True) cs),
         (''mismatched'', count_matches (Not \<circ> is_core) (Some False) cs)])]"

definition final_verdict :: "field_check list \<Rightarrow> bool \<Rightarrow> int \<Rightarrow> string \<times> string list" where
  "final_verdict cs b_ok code =
     (let (verdict, notes) = reproduction_verdict cs True b_ok in
      if code \<noteq> 0 then (''reproduce-failed'', (''Reproduce execution exited '' @ int_str code) # notes) else (verdict, notes))"

definition repro_summary :: "repro_env \<Rightarrow> bundle_dir \<Rightarrow> source_claim \<Rightarrow> field_check list \<Rightarrow> pv \<Rightarrow> int \<Rightarrow> obj" where
  "repro_summary E W c cs new code =
     (let (verdict, notes) = final_verdict cs (new \<noteq> PNone) code in
      [(''reproduce/schema-version'', PStr ''forensic-reproduce.v2''), (''reproduce/verdict'', PStr verdict),
       (''reproduce/original-run'', PStr (place W)), (''reproduce/reproduce-run'', PStr (repro_id E W)),
       (''reproduce/timestamp'', PStr (rp_now E)), (''reproduce/elapsed-ms'', PInt (rp_elapsed E)),
       (''reproduce/exit-code'', if new \<noteq> PNone then PInt code else PNone), (''reproduce/source-pre-check'', precheck_pv E c),
       (''reproduce/comparison'', comparison_pv cs),
       (''reproduce/verdict-notes'', if notes = [] then PNone else names_pv notes)])"

definition good_verdicts :: "string list" where
  "good_verdicts = [''verified'', ''reproduced-with-explained-drift'', ''reproduced-with-legacy-gaps'']"

text \<open>The exit code, and the report where one is written.\<close>

definition reproduce_run :: "repro_env \<Rightarrow> string \<Rightarrow> bundle_dir option \<Rightarrow> ev_error + (int \<times> obj option)" where
  "reproduce_run E base directory =
     (case directory of
        None \<Rightarrow> Inr (1, None)
      | Some W \<Rightarrow>
          bindE (claimed_source W) (\<lambda>c.
          let old = loaded_json W ''clojure-bundle-root.json''; bundle = repro_id E W; dir = base @ ''/'' @ bundle in
          if \<not> truthy old then Inr (1, None)
          else bindE (reproduced_suite W) (\<lambda>suite.
          if rp_exists E dir then Inl (Builtin (FileExistsError dir))
          else bindE (rp_pipeline E (pipeline_command suite (dir @ ''/clojure-bundle-root.json'')) (repro_process_env E bundle dir)) (\<lambda>(code, new).
          bindE (if truthy new then compare_bundle_fields old new (Some (source_status E c)) else Inr []) (\<lambda>cs.
            Inr (if fst (final_verdict cs (new \<noteq> PNone) code) \<in> set good_verdicts then 0 else 1,
                 Some (repro_summary E W c cs new code)))))))"

end
