(* ===== verification/Reproduce_Theorems.thy ===== *)
theory Reproduce_Theorems
  imports Reproduce Run_Theorems
begin

text \<open>
  What the verdict of a repetition says: the fields it compares are those of a reference reading of the bundle
  roots, exit code 0 on unchanged sources means that no core field differs, and a fresh run repeats.
\<close>

section \<open>The verdict\<close>

definition some_check :: "(field_check \<Rightarrow> bool) \<Rightarrow> field_check list \<Rightarrow> bool" where
  "some_check P cs \<longleftrightarrow> (\<exists>c \<in> set cs. P c)"

definition core_differs :: "(field_check \<Rightarrow> bool) \<Rightarrow> field_check list \<Rightarrow> bool" where
  "core_differs P cs \<longleftrightarrow> some_check (\<lambda>c. is_core c \<and> fc_match c = Some False \<and> P c) cs"

lemma verdict_name:
  "fst (reproduction_verdict cs True True) =
     (if cs \<noteq> [] \<and> \<not> some_check (\<lambda>c. fc_match c \<noteq> None) cs then ''invalid-original-bundle''
      else if \<not> some_check is_core cs then ''inconclusive''
      else if core_differs (\<lambda>c. \<not> expected_drift c \<and> \<not> legacy_algorithm c) cs then ''diverged''
      else if core_differs legacy_algorithm cs \<and> \<not> core_differs expected_drift cs then ''reproduced-with-legacy-gaps''
      else if some_check (\<lambda>c. is_core c \<and> fc_match c = None) cs \<and> \<not> core_differs expected_drift cs then ''reproduced-with-legacy-gaps''
      else if core_differs expected_drift cs then ''reproduced-with-explained-drift'' else ''verified'')"
proof -
  have empty: "filter P cs = [] \<longleftrightarrow> \<not> some_check P cs" for P by (simp add: some_check_def filter_empty_conv)
  have "list_all (\<lambda>c. fc_match c = None) cs \<longleftrightarrow> \<not> some_check (\<lambda>c. fc_match c \<noteq> None) cs" by (simp add: some_check_def list_all_iff)
  then show ?thesis
    by (simp only: reproduction_verdict_def Let_def filter_filter empty core_differs_def not_not simp_thms conj_assoc) (simp add: conj_ac)
qed

lemma good_verdict_iff:
  "fst (reproduction_verdict cs True True) \<in> set good_verdicts \<longleftrightarrow>
     some_check (\<lambda>c. fc_match c \<noteq> None) cs \<and> some_check is_core cs
     \<and> \<not> core_differs (\<lambda>c. \<not> expected_drift c \<and> \<not> legacy_algorithm c) cs"
proof -
  have "\<not> some_check P []" for P by (simp add: some_check_def)
  then show ?thesis unfolding verdict_name good_verdicts_def by (cases "cs = []") simp_all
qed

lemma verified_iff:
  "fst (reproduction_verdict cs True True) = ''verified'' \<longleftrightarrow>
     some_check is_core cs \<and> (\<forall>c \<in> set cs. is_core c \<longrightarrow> fc_match c = Some True)"
proof -
  have matches: "(\<forall>c \<in> set cs. is_core c \<longrightarrow> fc_match c = Some True) \<longleftrightarrow>
      \<not> core_differs (\<lambda>_. True) cs \<and> \<not> some_check (\<lambda>c. is_core c \<and> fc_match c = None) cs"
    unfolding core_differs_def some_check_def by (metis (full_types) option.distinct(1) option.exhaust option.inject)
  have split: "core_differs (\<lambda>_. True) cs \<longleftrightarrow> core_differs (\<lambda>c. \<not> expected_drift c \<and> \<not> legacy_algorithm c) cs
      \<or> core_differs expected_drift cs \<or> core_differs legacy_algorithm cs"
    by (auto simp: core_differs_def some_check_def)
  have "some_check is_core cs \<Longrightarrow> cs \<noteq> []"
    "some_check is_core cs \<Longrightarrow> \<not> some_check (\<lambda>c. is_core c \<and> fc_match c = None) cs \<Longrightarrow> some_check (\<lambda>c. fc_match c \<noteq> None) cs"
    by (force simp: some_check_def)+
  then show ?thesis unfolding verdict_name matches split by simp
qed


section \<open>Which fields are compared\<close>

text \<open>A reference reading: the value a bundle root has for a label, \<^const>\<open>PNone\<close> where it has none.\<close>

fun field_at :: "pv \<Rightarrow> string \<Rightarrow> pv" where
  "field_at (PDict d) k = py_get d k"
| "field_at v k = PNone"

definition field_value :: "pv \<Rightarrow> string \<Rightarrow> pv" where
  "field_value v l =
     (if l = ''overview/overview-hash'' then field_at v ''overview/hash''
      else if l = ''execution/summary/status'' then field_at (field_at v ''execution/summary'') ''status''
      else if starts_with ''execution/summary/totals/'' l
      then field_at (field_at (field_at v ''execution/summary'') ''totals'') (drop 25 l)
      else if starts_with ''registry/snapshot/'' l then field_at (field_at v ''registry/snapshot'') (drop 18 l)
      else if starts_with ''protocol/state-hashes/'' l then field_at (field_at v ''protocol/state-hashes'') (drop 22 l)
      else field_at v l)"

definition compared :: "precheck option \<Rightarrow> pv \<Rightarrow> pv \<Rightarrow> string \<Rightarrow> field_check" where
  "compared s old new l = compare_field s l (field_value old l) (field_value new l)"

lemma compared_label [simp]: "fc_field (compared s old new l) = l"
  by (simp add: compared_def compare_field_def)

lemma get_none_field: "get_none v k = Inr x \<Longrightarrow> x = field_at v k"
  by (cases v) auto

lemma get_in_field: "get_in v k (PDict []) = Inr x \<Longrightarrow> field_at x j = field_at (field_at v k) j"
  by (cases v) (auto simp: get_or_def split: option.splits)

lemma field_or_empty: "field_at (or_empty v) k = field_at v k"
  by (cases v) (simp_all add: or_empty_def get_or_def)

lemma add_check_Inr: "add_check s l a b k = Inr c \<Longrightarrow> c = compare_field s l (field_at a k) (field_at b k)"
  by (auto simp: add_check_def bindE_Inr_iff dest!: get_none_field)

lemma totals_value: "field_value v (''execution/summary/totals/'' @ k) = field_at (field_at (field_at v ''execution/summary'') ''totals'') k"
  by (simp add: field_value_def starts_with_def)

lemma table_value:
  "field_value v (''registry/snapshot'' @ ''/'' @ k) = field_at (field_at v ''registry/snapshot'') k"
  "field_value v (''protocol/state-hashes'' @ ''/'' @ k) = field_at (field_at v ''protocol/state-hashes'') k"
  by (simp_all add: field_value_def starts_with_def)

lemma absent_field_none: "has_item v k = Inr False \<Longrightarrow> field_at v k = PNone"
  by (cases v) (simp_all add: has_key_map_of get_or_def)

lemma totals_step:
  assumes "foldE (\<lambda>cs k.
       bindE (anyE [has_item ta k, has_item tb k]) (\<lambda>present.
       if present then bindE (add_check s (''execution/summary/totals/'' @ k) ta tb k) (\<lambda>c. Inr (cs @ [c])) else Inr cs)) cs0 ks = Inr cs"
  shows "set cs0 \<subseteq> set cs
    \<and> (\<forall>c \<in> set cs - set cs0. \<exists>k \<in> set ks. c = compare_field s (''execution/summary/totals/'' @ k) (field_at ta k) (field_at tb k))
    \<and> (\<forall>k \<in> set ks. compare_field s (''execution/summary/totals/'' @ k) (field_at ta k) (field_at tb k) \<in> set cs
         \<or> field_at ta k = PNone \<and> field_at tb k = PNone)"
  using assms
proof (induction ks arbitrary: cs0)
  case (Cons k ks)
  from Cons.prems obtain cs1 where step: "bindE (anyE [has_item ta k, has_item tb k]) (\<lambda>present.
       if present then bindE (add_check s (''execution/summary/totals/'' @ k) ta tb k) (\<lambda>c. Inr (cs0 @ [c])) else Inr cs0) = Inr cs1"
    and rest: "foldE (\<lambda>cs k.
       bindE (anyE [has_item ta k, has_item tb k]) (\<lambda>present.
       if present then bindE (add_check s (''execution/summary/totals/'' @ k) ta tb k) (\<lambda>c. Inr (cs @ [c])) else Inr cs)) cs1 ks = Inr cs"
    by (auto simp: bindE_Inr_iff)
  let ?c = "compare_field s (''execution/summary/totals/'' @ k) (field_at ta k) (field_at tb k)"
  from step have "cs1 = cs0 @ [?c] \<or> cs1 = cs0 \<and> anyE [has_item ta k, has_item tb k] = Inr False"
    by (auto simp: bindE_Inr_iff dest!: add_check_Inr split: if_splits)
  then have "cs1 = cs0 @ [?c] \<or> cs1 = cs0 \<and> field_at ta k = PNone \<and> field_at tb k = PNone"
    by (auto simp: anyE_False_iff absent_field_none)
  with Cons.IH [OF rest] show ?case by auto
qed simp

lemma totals_compared:
  assumes "totals_checks s (or_empty (field_at (field_at old ''execution/summary'') ''totals''))
     (or_empty (field_at (field_at new ''execution/summary'') ''totals'')) = Inr cs"
  shows "\<forall>c \<in> set cs. c = compared s old new (fc_field c)"
    "\<forall>k \<in> set total_names. compared s old new (''execution/summary/totals/'' @ k) \<in> set cs
       \<or> field_value old (''execution/summary/totals/'' @ k) = PNone \<and> field_value new (''execution/summary/totals/'' @ k) = PNone"
proof -
  note steps = totals_step [OF assms [unfolded totals_checks_def], unfolded field_or_empty]
  have same: "compare_field s (''execution/summary/totals/'' @ k) (field_at (field_at (field_at old ''execution/summary'') ''totals'') k)
      (field_at (field_at (field_at new ''execution/summary'') ''totals'') k) = compared s old new (''execution/summary/totals/'' @ k)" for k
    unfolding compared_def totals_value ..
  from steps show "\<forall>c \<in> set cs. c = compared s old new (fc_field c)"
    unfolding same by (metis Diff_empty compared_label empty_set)
  from steps show "\<forall>k \<in> set total_names. compared s old new (''execution/summary/totals/'' @ k) \<in> set cs
       \<or> field_value old (''execution/summary/totals/'' @ k) = PNone \<and> field_value new (''execution/summary/totals/'' @ k) = PNone"
    unfolding same totals_value by blast
qed

lemma keys_of_absent: "keys_of v = Inr ks \<Longrightarrow> k \<notin> set ks \<Longrightarrow> field_at v k = PNone"
  by (cases v) (auto simp: get_or_def map_of_eq_None_iff [THEN iffD2])

lemma table_step:
  assumes "table_checks s key old new = Inr cs"
  shows "(\<forall>c \<in> set cs. \<exists>k. c = compare_field s (key @ ''/'' @ k) (field_at (field_at old key) k) (field_at (field_at new key) k))
    \<and> (\<forall>k. compare_field s (key @ ''/'' @ k) (field_at (field_at old key) k) (field_at (field_at new key) k) \<in> set cs
         \<or> field_at (field_at old key) k = PNone \<and> field_at (field_at new key) k = PNone)"
proof -
  from assms obtain a b ka kb where reads: "get_in old key (PDict []) = Inr a" "get_in new key (PDict []) = Inr b"
    "keys_of (or_empty a) = Inr ka" "keys_of (or_empty b) = Inr kb"
    and checks: "mapE (\<lambda>k. add_check s (key @ ''/'' @ k) (or_empty a) (or_empty b) k) (sort (remdups (ka @ kb))) = Inr cs"
    by (auto simp: table_checks_def bindE_Inr_iff)
  have fields: "field_at (or_empty a) k = field_at (field_at old key) k" "field_at (or_empty b) k = field_at (field_at new key) k" for k
    using get_in_field [OF reads(1)] get_in_field [OF reads(2)] by (simp_all add: field_or_empty)
  have "\<exists>k. c = compare_field s (key @ ''/'' @ k) (field_at (field_at old key) k) (field_at (field_at new key) k)" if "c \<in> set cs" for c
    using mapE_result_in [OF checks that] by (auto simp: fields dest!: add_check_Inr)
  moreover have "compare_field s (key @ ''/'' @ k) (field_at (field_at old key) k) (field_at (field_at new key) k) \<in> set cs"
    if "k \<in> set (ka @ kb)" for k
    using mapE_source_in [OF checks, of k] that by (auto simp: fields dest!: add_check_Inr)
  moreover have "field_at (field_at old key) k = PNone \<and> field_at (field_at new key) k = PNone" if "k \<notin> set (ka @ kb)" for k
    using keys_of_absent [OF reads(3), of k] keys_of_absent [OF reads(4), of k] that by (simp add: fields)
  ultimately show ?thesis by blast
qed

lemma table_compared:
  assumes "table_checks s key old new = Inr cs" "key \<in> {''registry/snapshot'', ''protocol/state-hashes''}"
  shows "\<forall>c \<in> set cs. c = compared s old new (fc_field c)"
    "compared s old new (key @ ''/'' @ k) \<in> set cs \<or> field_value old (key @ ''/'' @ k) = PNone \<and> field_value new (key @ ''/'' @ k) = PNone"
proof -
  have named: "field_at (field_at v key) k = field_value v (key @ ''/'' @ k)" for v k
    using assms(2) table_value by auto
  note steps = table_step [OF assms(1), unfolded named, folded compared_def]
  from steps show "\<forall>c \<in> set cs. c = compared s old new (fc_field c)" by (metis compared_label)
  from steps show "compared s old new (key @ ''/'' @ k) \<in> set cs \<or> field_value old (key @ ''/'' @ k) = PNone \<and> field_value new (key @ ''/'' @ k) = PNone"
    by blast
qed

lemma plain_value:
  "field_value v ''bundle/hash'' = field_at v ''bundle/hash''" "field_value v ''bundle/schema-version'' = field_at v ''bundle/schema-version''"
  "field_value v ''overview/overview-hash'' = field_at v ''overview/hash''"
  "field_value v ''execution/summary/status'' = field_at (field_at v ''execution/summary'') ''status''"
  "field_value v ''source/tree-hash'' = field_at v ''source/tree-hash''"
  "field_value v ''source/tree-hash-algorithm'' = field_at v ''source/tree-hash-algorithm''"
  by (simp_all add: field_value_def starts_with_def)

lemma provenance_compared:
  assumes "provenance_checks s old new = Inr cs"
  shows "\<forall>c \<in> set cs. c = compared s old new (fc_field c)"
    "compared s old new ''source/tree-hash'' \<in> set cs \<or> field_value old ''source/tree-hash'' = PNone \<and> field_value new ''source/tree-hash'' = PNone"
proof -
  let ?both = "\<lambda>k. if field_at old k \<noteq> PNone \<or> field_at new k \<noteq> PNone then [compare_field s k (field_at old k) (field_at new k)] else []"
  from assms have cs: "cs = ?both ''source/tree-hash'' @ ?both ''source/tree-hash-algorithm''"
    unfolding provenance_checks_def by (auto simp: bindE_Inr_iff dest!: get_none_field)
  have "compare_field s k (field_at old k) (field_at new k) = compared s old new k"
    if "k \<in> {''source/tree-hash'', ''source/tree-hash-algorithm''}" for k
    using that plain_value by (auto simp: compared_def)
  with cs show "\<forall>c \<in> set cs. c = compared s old new (fc_field c)"
    "compared s old new ''source/tree-hash'' \<in> set cs \<or> field_value old ''source/tree-hash'' = PNone \<and> field_value new ''source/tree-hash'' = PNone"
    unfolding plain_value by (simp_all split: if_splits)
qed

text \<open>The core fields that are compared even when neither bundle root has them.\<close>

definition always_compared :: "string list" where
  "always_compared = [''bundle/hash'', ''overview/overview-hash'', ''execution/summary/status'']"

lemma all_compared:
  assumes "compare_bundle_fields old new s = Inr cs"
  shows "\<forall>c \<in> set cs. c = compared s old new (fc_field c)"
    "compared s old new ''bundle/hash'' \<in> set cs" "compared s old new ''bundle/schema-version'' \<in> set cs"
    "\<forall>l \<in> set core_fields. compared s old new l \<in> set cs \<or> field_value old l = PNone \<and> field_value new l = PNone"
    "\<forall>l \<in> set always_compared. compared s old new l \<in> set cs"
proof -
  from assms obtain c1 c2 c3 a b c4 ta tb totals snapshot protocol source where reads:
    "add_check s ''bundle/hash'' old new ''bundle/hash'' = Inr c1"
    "add_check s ''bundle/schema-version'' old new ''bundle/schema-version'' = Inr c2"
    "add_check s ''overview/overview-hash'' old new ''overview/hash'' = Inr c3"
    "get_in old ''execution/summary'' (PDict []) = Inr a" "get_in new ''execution/summary'' (PDict []) = Inr b"
    "add_check s ''execution/summary/status'' a b ''status'' = Inr c4"
    "get_none a ''totals'' = Inr ta" "get_none b ''totals'' = Inr tb"
    and lists: "totals_checks s (or_empty ta) (or_empty tb) = Inr totals" "table_checks s ''registry/snapshot'' old new = Inr snapshot"
    "table_checks s ''protocol/state-hashes'' old new = Inr protocol" "provenance_checks s old new = Inr source"
    and cs: "cs = [c1, c2, c3, c4] @ totals @ snapshot @ protocol @ source"
    unfolding compare_bundle_fields_def bindE_Inr_iff by blast
  have ta: "ta = field_at (field_at old ''execution/summary'') ''totals''" "tb = field_at (field_at new ''execution/summary'') ''totals''"
    using get_none_field [OF reads(7)] get_none_field [OF reads(8)] get_in_field [OF reads(4)] get_in_field [OF reads(5)] by simp_all
  have single: "c1 = compared s old new ''bundle/hash''" "c2 = compared s old new ''bundle/schema-version''"
    "c3 = compared s old new ''overview/overview-hash''" "c4 = compared s old new ''execution/summary/status''"
    using add_check_Inr [OF reads(1)] add_check_Inr [OF reads(2)] add_check_Inr [OF reads(3)] add_check_Inr [OF reads(6)]
      get_in_field [OF reads(4)] get_in_field [OF reads(5)] by (simp_all add: compared_def plain_value)
  note totals = totals_compared [OF lists(1) [unfolded ta]]
  have tables: "''registry/snapshot'' \<in> {''registry/snapshot'', ''protocol/state-hashes''}"
    "''protocol/state-hashes'' \<in> {''registry/snapshot'', ''protocol/state-hashes''}" by (rule insertI1) (rule insertI2, rule insertI1)
  note snapshot = table_compared [OF lists(2) tables(1)] and protocol = table_compared [OF lists(3) tables(2)] and source = provenance_compared [OF lists(4)]
  show "\<forall>c \<in> set cs. c = compared s old new (fc_field c)"
    using totals(1) snapshot(1) protocol(1) source(1) unfolding cs single by (simp add: ball_Un)
  show "compared s old new ''bundle/hash'' \<in> set cs" "compared s old new ''bundle/schema-version'' \<in> set cs"
    unfolding cs single by simp_all
  show "\<forall>l \<in> set always_compared. compared s old new l \<in> set cs"
    unfolding cs single always_compared_def by simp
  have known: "core_fields = [''bundle/hash'', ''overview/overview-hash'', ''execution/summary/status'']
      @ map ((@) ''execution/summary/totals/'') total_names @ [''source/tree-hash'']
      @ map (\<lambda>k. ''protocol/state-hashes'' @ ''/'' @ k) [''force-authorisations/hash'', ''force-authorisations/consumed-hash'']"
    by (simp add: core_fields_def total_names_def)
  have here: "set totals \<subseteq> set cs" "set protocol \<subseteq> set cs" "set source \<subseteq> set cs" unfolding cs by auto
  define Q where "Q l \<longleftrightarrow> compared s old new l \<in> set cs \<or> field_value old l = PNone \<and> field_value new l = PNone" for l
  have tops: "Q ''bundle/hash''" "Q ''overview/overview-hash''" "Q ''execution/summary/status''" unfolding Q_def cs single by simp_all
  have rows: "\<forall>k \<in> set total_names. Q (''execution/summary/totals/'' @ k)" unfolding Q_def using totals(2) here(1) by (meson subsetD)
  have hashes: "Q (''protocol/state-hashes'' @ ''/'' @ k)" for k unfolding Q_def using protocol(2) [of k] here(2) by (meson subsetD)
  have tree: "Q ''source/tree-hash''" unfolding Q_def using source(2) here(3) by (meson subsetD)
  have "list_all Q core_fields"
    unfolding known list_all_append list.pred_map list.pred_inject comp_def using tops rows hashes tree by (simp only: list_all_iff list.set ball_empty simp_thms)
  then show "\<forall>l \<in> set core_fields. compared s old new l \<in> set cs \<or> field_value old l = PNone \<and> field_value new l = PNone"
    unfolding list_all_iff Q_def .
qed

section \<open>Unchanged sources\<close>

text \<open>
  A field differs when both bundle roots have a value for it and the values are not equal; it is the same
  when both have it with equal values.  A field that only one of them has is neither.
\<close>

definition differs_on :: "pv \<Rightarrow> pv \<Rightarrow> string \<Rightarrow> bool" where
  "differs_on old new l \<longleftrightarrow> field_value old l \<noteq> PNone \<and> field_value new l \<noteq> PNone \<and> \<not> py_eq (field_value old l) (field_value new l)"

definition same_on :: "pv \<Rightarrow> pv \<Rightarrow> string \<Rightarrow> bool" where
  "same_on old new l \<longleftrightarrow> field_value old l \<noteq> PNone \<and> field_value new l \<noteq> PNone \<and> py_eq (field_value old l) (field_value new l)"

definition absent_on :: "pv \<Rightarrow> pv \<Rightarrow> string \<Rightarrow> bool" where
  "absent_on old new l \<longleftrightarrow> field_value old l = PNone \<and> field_value new l = PNone"

lemma compared_match:
  "fc_match (compared s old new l) = Some False \<longleftrightarrow> differs_on old new l"
  "fc_match (compared s old new l) = Some True \<longleftrightarrow> same_on old new l"
  by (simp_all add: compared_def compare_field_def differs_on_def same_on_def)

lemma compared_core: "is_core (compared s old new l) \<longleftrightarrow> l \<in> set core_fields"
  by (simp add: is_core_def compared_def compare_field_def classify_field_def)

lemma unchanged_unexplained:
  assumes "pc_match p = Some True" "pc_reason p = ''matched''" "differs_on old new l"
  shows "\<not> expected_drift (compared (Some p) old new l)" "\<not> legacy_algorithm (compared (Some p) old new l)"
  using assms
  by (simp_all add: expected_drift_def legacy_algorithm_def compared_def compare_field_def classify_mismatch_def Let_def
      differs_on_def limited_by_algorithm_def starts_with_def)

lemma good_on_unchanged:
  assumes "compare_bundle_fields old new (Some p) = Inr cs" "pc_match p = Some True" "pc_reason p = ''matched''"
  shows "fst (reproduction_verdict cs True True) \<in> set good_verdicts \<longleftrightarrow>
     some_check (\<lambda>c. fc_match c \<noteq> None) cs \<and> (\<forall>l \<in> set core_fields. \<not> differs_on old new l)"
proof -
  note all = all_compared [OF assms(1)]
  have core: "some_check is_core cs"
    unfolding some_check_def using all(2) compared_core by (metis core_fields_def list.set_intros(1))
  have "core_differs (\<lambda>c. \<not> expected_drift c \<and> \<not> legacy_algorithm c) cs \<longleftrightarrow> (\<exists>l \<in> set core_fields. differs_on old new l)"
  proof
    assume "core_differs (\<lambda>c. \<not> expected_drift c \<and> \<not> legacy_algorithm c) cs"
    then obtain c where c: "c \<in> set cs" "is_core c" "fc_match c = Some False" by (auto simp: core_differs_def some_check_def)
    with all(1) have "c = compared (Some p) old new (fc_field c)" by blast
    with c show "\<exists>l \<in> set core_fields. differs_on old new l" by (metis compared_core compared_match)
  next
    assume "\<exists>l \<in> set core_fields. differs_on old new l"
    then obtain l where l: "l \<in> set core_fields" "differs_on old new l" by blast
    then have "compared (Some p) old new l \<in> set cs" using all(4) by (auto simp: differs_on_def)
    with l unchanged_unexplained [OF assms(2,3) l(2)] show "core_differs (\<lambda>c. \<not> expected_drift c \<and> \<not> legacy_algorithm c) cs"
      unfolding core_differs_def some_check_def by (metis compared_core compared_match)
  qed
  with core show ?thesis by (simp add: good_verdict_iff)
qed

lemma source_status_matched: "pc_match (source_status E c) = Some True \<Longrightarrow> pc_reason (source_status E c) = ''matched''"
  by (auto simp: source_status_def classify_source_precheck_def split: if_splits)

lemma final_verdict_good:
  "fst (final_verdict cs b_ok code) \<in> set good_verdicts \<longleftrightarrow> code = 0 \<and> fst (reproduction_verdict cs True b_ok) \<in> set good_verdicts"
  by (simp add: final_verdict_def case_prod_beta good_verdicts_def)

lemma no_bundle_fails: "fst (reproduction_verdict cs True False) \<notin> set good_verdicts"
  by (simp add: reproduction_verdict_def good_verdicts_def)

lemma nothing_compared_fails: "fst (reproduction_verdict [] True True) \<notin> set good_verdicts"
  by (simp add: reproduction_verdict_def good_verdicts_def)

lemma verified_same:
  assumes "compare_bundle_fields old new s = Inr cs" "fst (reproduction_verdict cs True True) = ''verified''" "l \<in> set core_fields"
  shows "same_on old new l \<or> absent_on old new l \<and> l \<notin> set always_compared"
proof -
  note all = all_compared [OF assms(1)]
  from assms(2) have matched: "\<forall>c \<in> set cs. is_core c \<longrightarrow> fc_match c = Some True" by (simp add: verified_iff)
  show ?thesis
  proof (cases "compared s old new l \<in> set cs")
    case True
    with matched assms(3) have "fc_match (compared s old new l) = Some True" by (simp add: compared_core)
    then show ?thesis by (simp add: compared_match)
  next
    case False
    with all(4) assms(3) have "field_value old l = PNone \<and> field_value new l = PNone" by blast
    moreover from False all(5) have "l \<notin> set always_compared" by blast
    ultimately show ?thesis by (simp add: absent_on_def)
  qed
qed

lemma verified_outcome:
  "fst (final_verdict cs True code) = ''verified'' \<Longrightarrow> code = 0 \<and> fst (reproduction_verdict cs True True) = ''verified''"
  by (simp add: final_verdict_def case_prod_beta split: if_splits)

lemma reproduction_core:
  assumes "reproduce_run R base (Some W) = Inr (x, Some report)"
    and "claimed_source W = Inr c" "pc_match (source_status R c) = Some True"
    and "\<And>cmd env. rp_pipeline R cmd env = Inr (code, new)"
    and "loaded_json W ''clojure-bundle-root.json'' = old"
    and "field_value old ''bundle/schema-version'' \<noteq> PNone" "field_value new ''bundle/schema-version'' \<noteq> PNone"
  shows "(x = 0 \<longleftrightarrow> code = 0 \<and> (\<forall>l \<in> set core_fields. \<not> differs_on old new l))
    \<and> (py_get report ''reproduce/verdict'' = PStr ''verified'' \<longrightarrow>
         code = 0 \<and> (\<forall>l \<in> set core_fields. same_on old new l \<or> absent_on old new l \<and> l \<notin> set always_compared))"
proof -
  let ?s = "source_status R c"
  have new: "truthy new" "new \<noteq> PNone"
    using assms(7) by (cases new; auto simp: plain_value get_or_def split: if_splits)+
  from assms(1,2,5) new assms(4) obtain cs where cs: "compare_bundle_fields old new (Some ?s) = Inr cs"
    and x: "x = (if fst (final_verdict cs True code) \<in> set good_verdicts then 0 else 1)"
    and report: "report = repro_summary R W c cs new code"
    by (auto simp: reproduce_run_def Let_def bindE_Inr_iff split: if_splits)
  have "compared (Some ?s) old new ''bundle/schema-version'' \<in> set cs" by (rule all_compared(3) [OF cs])
  moreover have "fc_match (compared (Some ?s) old new ''bundle/schema-version'') \<noteq> None"
    using assms(6,7) by (simp add: compared_def compare_field_def)
  ultimately have "some_check (\<lambda>c. fc_match c \<noteq> None) cs" by (auto simp: some_check_def)
  with good_on_unchanged [OF cs assms(3) source_status_matched [OF assms(3)]]
  have "x = 0 \<longleftrightarrow> code = 0 \<and> (\<forall>l \<in> set core_fields. \<not> differs_on old new l)" unfolding x final_verdict_good by simp
  moreover have "py_get report ''reproduce/verdict'' = PStr (fst (final_verdict cs True code))"
    using new(2) by (simp add: report repro_summary_def case_prod_beta get_or_def)
  ultimately show ?thesis using verified_outcome [of cs code] verified_same [OF cs] by auto
qed

text \<open>
  C19: the two outcomes of a repetition on the source tree the run was made from, for bundle roots that both
  have a schema version.  \<^verbatim>\<open>reproduce.py\<close> ends with exit code 0 exactly when the repeated pipeline ended with
  code 0 and no core field that both bundle roots have differs -- a field that only one of them has does not
  count.  The verdict \<open>verified\<close> says more: every core field is the same in both, or absent from both, and
  hash, overview hash and status are present and the same.
\<close>

theorem reproduction_exact:
  assumes "reproduce_run R base (Some W) = Inr (x, Some report)"
    and "claimed_source W = Inr c" "pc_match (source_status R c) = Some True"
    and "\<And>cmd env. rp_pipeline R cmd env = Inr (code, new)"
    and "loaded_json W ''clojure-bundle-root.json'' = old"
    and "field_value old ''bundle/schema-version'' \<noteq> PNone" "field_value new ''bundle/schema-version'' \<noteq> PNone"
  shows "(x = 0 \<longleftrightarrow> code = 0 \<and> (\<forall>l \<in> set core_fields. \<not> differs_on old new l))
    \<and> (py_get report ''reproduce/verdict'' = PStr ''verified'' \<longrightarrow>
         code = 0 \<and> (\<forall>l \<in> set core_fields. same_on old new l \<or> absent_on old new l \<and> l \<notin> set always_compared))"
  by (rule reproduction_core [OF assms])

text \<open>A core field that only the original has: the repetition without it ends with a good verdict.\<close>

lemma lost_field_reproduces:
  "\<exists>cs. compare_bundle_fields
      (PDict (map (\<lambda>l. (l, PStr ''a'')) [''bundle/hash'', ''bundle/schema-version'', ''overview/hash'', ''source/tree-hash'']))
      (PDict (map (\<lambda>l. (l, PStr ''a'')) [''bundle/schema-version'', ''overview/hash'', ''source/tree-hash'']))
      (Some \<lparr>pc_match = Some True, pc_reason = ''matched''\<rparr>) = Inr cs
     \<and> fst (reproduction_verdict cs True True) = ''reproduced-with-legacy-gaps''"
  by (rule returns) code_simp

section \<open>Repeating a run\<close>

lemma loaded_sealed: "map_of st [n] = Some (Sealed v) \<Longrightarrow> loaded_json (run_bundle E a st) n = canon v"
  by (simp add: loaded_json_def run_bundle_reads(1))

lemma joinable_names: "joinable (names_pv xs) = Inr ()"
  by (simp add: joinable_def names_pv_def list_all_iff)

lemma canon_names_list: "canon (names_pv xs) = names_pv xs"
  by (simp add: names_pv_def)

lemma source_info_fields:
  assumes "re_tree E = Some T" "compute_source_tree_hash (sha256_text (run_crypto E)) T (ListedRoots (re_roots E)) = (h, included)"
  shows "dict_wf (source_info E a)" "py_get (source_info E a) ''source-hash'' = PStr h"
    "py_get (source_info E a) ''source-hash-algorithm'' = PStr source_hash_algorithm"
    "py_get (source_info E a) ''source-hash-roots'' = names_pv (re_roots E)" "py_get (source_info E a) ''included-roots'' = names_pv included"
  using assms by (simp_all add: source_info_def snapshot_source_def dict_wf_def get_or_def)

lemma run_claims_its_source:
  assumes "execute_run E a report = Inr out" "pipeline_confined E" "re_tree E = Some T"
    and "compute_source_tree_hash (sha256_text (run_crypto E)) T (ListedRoots (re_roots E)) = (h, included)" "h \<noteq> []"
  shows "\<exists>roots. claimed_source (run_bundle E a (ro_store out)) = Inr \<lparr>sc_hash = PStr h, sc_algorithm = PStr source_hash_algorithm, sc_roots = roots\<rparr>"
proof -
  obtain code root dag_hash node_hash where
    "map_of (ro_store out) [''run-overview.json''] = Some (Sealed (PDict (sealed_overview E a code)))" by (rule run_files [OF assms(1,2)])
  then have doc: "loaded_json (run_bundle E a (ro_store out)) ''run-overview.json'' = canon (PDict (sealed_overview E a code))" by (rule loaded_sealed)
  have "sealed_overview E a code \<noteq> []" using overview_fields(2) [of E a code] by auto
  then have some: "or_empty (canon (PDict (sealed_overview E a code))) = canon (PDict (sealed_overview E a code))"
    unfolding or_empty_def truthy_canon_dict by simp
  have "get_or (sealed_overview E a code) ''source'' (PDict []) = PDict (source_info E a)"
    by (simp add: sealed_overview_def run_overview_def get_or_def)
  then have src: "get_in (canon (PDict (sealed_overview E a code))) ''source'' (PDict []) = Inr (canon (PDict (source_info E a)))"
    using get_in_canon [OF overview_fields(1), of "PDict []"] by simp
  note fields = source_info_fields [OF assms(3,4), of a]
  have get: "get_none (canon (PDict (source_info E a))) k = Inr (canon (py_get (source_info E a) k))" for k
    by (rule get_in_canon [OF fields(1)]) simp
  have "source_hash_algorithm \<noteq> []" by (simp add: source_hash_algorithm_def)
  with assms(5) show ?thesis
    unfolding claimed_source_def doc some src bindE_simps get_either_def get fields canon_names_list
    by (simp add: thenE_def joinable_names canon_names_list del: canon.simps(6))
qed

lemma fresh_run_repeats:
  assumes "run_forensic E a = Inr out" "ro_status out \<in> {''pass'', ''failed''}" "pipeline_confined E"
    and "re_tree E = Some T" "rp_tree R = Some T" "rp_roots R = re_roots E" "rp_hash R = sha256_text (run_crypto E)"
    and "\<And>t. sha256_text (run_crypto E) t \<noteq> []"
    and "loaded_json (run_bundle E a (ro_store out)) ''clojure-bundle-root.json'' = old"
    and "\<And>dir. \<not> rp_exists R dir" "\<And>cmd env. rp_pipeline R cmd env = Inr (0, new)"
    and "reproduced_suite (run_bundle E a (ro_store out)) = Inr suite"
    and "\<And>p. \<exists>cs. compare_bundle_fields old new p = Inr cs"
    and "field_value old ''bundle/schema-version'' \<noteq> PNone" "field_value new ''bundle/schema-version'' \<noteq> PNone"
    and "\<forall>l \<in> set core_fields. \<not> differs_on old new l"
  shows "\<exists>report c. claimed_source (run_bundle E a (ro_store out)) = Inr c \<and> pc_match (source_status R c) = Some True
    \<and> reproduce_run R base (Some (run_bundle E a (ro_store out))) = Inr (0, Some report)"
proof -
  let ?D = "run_bundle E a (ro_store out)"
  obtain report where run: "execute_run E a report = Inr out" by (rule executed_forensic [OF assms(1,2)])
  obtain h included where hash: "compute_source_tree_hash (sha256_text (run_crypto E)) T (ListedRoots (re_roots E)) = (h, included)"
    by (cases "compute_source_tree_hash (sha256_text (run_crypto E)) T (ListedRoots (re_roots E))")
  then have "h \<noteq> []" using assms(8) by (auto simp: compute_source_tree_hash_def Let_def)
  then obtain c where c: "claimed_source ?D = Inr c" "sc_hash c = PStr h" "sc_algorithm c = PStr source_hash_algorithm"
    using run_claims_its_source [OF run assms(3,4) hash] by auto
  have "current_code_hash R = h" using assms(5-7) hash by (simp add: current_code_hash_def)
  with c \<open>h \<noteq> []\<close> have match: "pc_match (source_status R c) = Some True"
    by (simp add: source_status_def classify_source_precheck_def source_hash_algorithm_def py_eq_def)
  obtain cs where cs: "compare_bundle_fields old new (Some (source_status R c)) = Inr cs" using assms(13) by blast
  have "truthy old" "truthy new" "new \<noteq> PNone"
    using assms(14,15) by (cases old; cases new; auto simp: plain_value get_or_def split: if_splits)+
  with c(1) cs assms(9-12) have run: "reproduce_run R base (Some ?D) =
     Inr (if fst (final_verdict cs True 0) \<in> set good_verdicts then 0 else 1, Some (repro_summary R ?D c cs new 0))"
    by (simp add: reproduce_run_def Let_def)
  from reproduction_core [OF run c(1) match assms(11,9,14,15)] assms(16) c(1) match
  show ?thesis unfolding run by auto
qed

text \<open>
  C23: a run can be repeated.  When the tree has not changed since a run whose pipeline wrote only where it
  should, the directory's own bundle root of the pipeline and the repeated one have a schema version and can be
  compared, the suite of the run request can be read, the new directory is free, and the repeated pipeline ends
  with code 0 and a bundle root in which no core field that both have differs, then \<^verbatim>\<open>reproduce.py\<close> ends with exit code 0.
\<close>

theorem fresh_run_reproduces:
  assumes "run_forensic E a = Inr out" "ro_status out \<in> {''pass'', ''failed''}" "pipeline_confined E"
    and "re_tree E = Some T" "rp_tree R = Some T" "rp_roots R = re_roots E" "rp_hash R = sha256_text (run_crypto E)"
    and "\<And>t. sha256_text (run_crypto E) t \<noteq> []"
    and "loaded_json (run_bundle E a (ro_store out)) ''clojure-bundle-root.json'' = old"
    and "\<And>dir. \<not> rp_exists R dir" "\<And>cmd env. rp_pipeline R cmd env = Inr (0, new)"
    and "reproduced_suite (run_bundle E a (ro_store out)) = Inr suite"
    and "\<And>p. \<exists>cs. compare_bundle_fields old new p = Inr cs"
    and "field_value old ''bundle/schema-version'' \<noteq> PNone" "field_value new ''bundle/schema-version'' \<noteq> PNone"
    and "\<forall>l \<in> set core_fields. \<not> differs_on old new l"
  shows "\<exists>report. reproduce_run R base (Some (run_bundle E a (ro_store out))) = Inr (0, Some report)"
  using fresh_run_repeats [OF assms] by blast

section \<open>What a repetition does not see\<close>

text \<open>
  The comment of the field table says that the hashes of the registry snapshot and of the protocol state are core fields;
  none of the first and only two of the second are in the table, so other differences there leave the verdict alone.
\<close>

lemma snapshot_is_diagnostic: "classify_field (''registry/snapshot'' @ ''/'' @ k) = ''diagnostic''"
proof -
  have "list_all (\<lambda>l. \<not> starts_with ''registry/'' l) core_fields" by code_simp
  moreover have "starts_with ''registry/'' (''registry/snapshot'' @ ''/'' @ k)" by (simp add: starts_with_def)
  ultimately show ?thesis by (auto simp: classify_field_def list_all_iff)
qed

lemma snapshot_divergence_verified:
  "\<exists>cs. compare_bundle_fields
      (PDict (map (\<lambda>l. (l, PStr ''a'')) [''bundle/hash'', ''overview/hash''] @ [(''execution/summary'', PDict [(''status'', PStr ''pass'')]),
         (''registry/snapshot'', PDict [(''policy/hash'', PStr ''one'')])]))
      (PDict (map (\<lambda>l. (l, PStr ''a'')) [''bundle/hash'', ''overview/hash''] @ [(''execution/summary'', PDict [(''status'', PStr ''pass'')]),
         (''registry/snapshot'', PDict [(''policy/hash'', PStr ''two'')])])) None = Inr cs
     \<and> fst (reproduction_verdict cs True True) = ''verified''"
  by (rule returns) code_simp

text \<open>
  The run reads its request as EDN or JSON, the repetition only as JSON: the copy of an EDN request is not
  read, and the repeated pipeline runs the default suite.
\<close>

lemma request_kept:
  assumes "execute_run E a report = Inr out" "pipeline_confined E" "ra_request a \<noteq> []"
  shows "\<exists>t. re_bytes E (ra_request a) = Some t \<and> map_of (ro_store out) [''run-request.json''] = Some (Raw (Some t))"
proof -
  obtain st0 st1 st2 code where steps: "set_up E a report = Inr st0" "run_pipeline E a (source_info E a) st0 = Inr (code, st1)"
    "collect_results E a code st1 = Inr st2" "seal_run E a report code st2 = Inr (ro_store out)" by (rule executed_run [OF assms(1)])
  from steps(1) obtain s3 s4 s5 s6 where
    "(if ra_request a = [] then Inr s3 else copy_in (re_bytes E) (ra_request a) [''run-request.json''] s3) = Inr s4"
    "copy_if_present E (ra_registry a) [''registry-snapshot.json''] s4 = Inr s5"
    "copy_if_present E (ra_policy a) [''evidence-policy.edn''] s5 = Inr s6"
    "seal E [''input-manifest.json''] (PDict (input_manifest E a)) s6 = Inr st0"
    unfolding set_up_def if_Inl_Inr_iff bindE_Inr_iff by blast
  then obtain t where t: "re_bytes E (ra_request a) = Some t" "map_of st0 [''run-request.json''] = Some (Raw (Some t))"
    using assms(3) by (auto simp: copy_if_present_def copy_in_def Let_def dest!: seal_Inr split: if_splits option.splits)
  have "map_of (ro_store out) [''run-request.json''] = map_of st2 [''run-request.json'']"
    by (rule seal_run_files [OF steps(4)]) simp
  also have "\<dots> = map_of st1 [''run-request.json'']" by (rule collect_keeps [OF steps(3)]) simp
  also have "\<dots> = map_of st0 [''run-request.json'']" by (rule run_pipeline_keeps [OF steps(2) assms(2)]) (simp add: pipeline_area_def)
  finally show ?thesis using t by simp
qed

lemma edn_request_loses_suite:
  assumes "execute_run E a report = Inr out" "pipeline_confined E" "ra_request a \<noteq> []"
    and "\<And>t. re_bytes E (ra_request a) = Some t \<Longrightarrow> pf_json (re_preflight E) t = None"
  shows "reproduced_suite (run_bundle E a (ro_store out)) = Inr PNone"
proof -
  obtain t where "re_bytes E (ra_request a) = Some t" "map_of (ro_store out) [''run-request.json''] = Some (Raw (Some t))"
    using request_kept [OF assms(1-3)] by blast
  with assms(4) have "loaded_json (run_bundle E a (ro_store out)) ''run-request.json'' = PNone"
    by (simp add: loaded_json_def load_at_def run_bundle_at bundle_entry_def)
  then show ?thesis by (simp add: reproduced_suite_def)
qed

end
