(* ===== verification/Reproduce_Sample.thy ===== *)
theory Reproduce_Sample
  imports Run_Sample Reproduce_Theorems
begin

text \<open>The run of \<open>Run_Sample\<close> repeated: the properties of a repetition at concrete inputs.\<close>

definition demo_repro :: repro_env where
  "demo_repro = \<lparr>rp_stamp = ''2024-01-03T00-00-00Z'', rp_now = ''now'', rp_hash = sha256_text sample_crypto, rp_tree = Some demo_tree,
     rp_roots = [''src''], rp_environ = [], rp_exists = (\<lambda>_. False), rp_pipeline = (\<lambda>_ _. Inr (0, demo_root)), rp_elapsed = 3\<rparr>"

lemma demo_documents:
  "loaded_json (run_bundle demo_run demo_args (demo_final a b c d e f g h i)) ''clojure-bundle-root.json'' = demo_root"
  "(case reproduced_suite (run_bundle demo_run demo_args (demo_final a b c d e f g h i)) of Inl _ \<Rightarrow> False | Inr x \<Rightarrow> True)"
  by (code_simp, code_simp)

lemma demo_agrees: "list_all (\<lambda>l. \<not> differs_on demo_root demo_root l) core_fields"
  by code_simp

lemma demo_compares: "\<exists>cs. compare_bundle_fields demo_root demo_root p = Inr cs"
proof -
  have "\<exists>cs. compare_bundle_fields demo_root demo_root p = Inr cs \<and> True" by (rule returns) code_simp
  then show ?thesis by blast
qed

lemma demo_schema: "field_value demo_root ''bundle/schema-version'' \<noteq> PNone"
  by code_simp

lemma demo_env:
  "re_tree demo_run = Some demo_tree" "rp_tree demo_repro = Some demo_tree" "rp_roots demo_repro = re_roots demo_run"
  "rp_hash demo_repro = sha256_text (run_crypto demo_run)" "\<not> rp_exists demo_repro dir" "rp_pipeline demo_repro cmd env = Inr (0, demo_root)"
  by (simp_all add: demo_repro_def) (simp_all add: demo_run_def)

lemma demo_ran:
  obtains out suite where "run_forensic demo_run demo_args = Inr out" "ro_status out \<in> {''pass'', ''failed''}"
    "loaded_json (run_bundle demo_run demo_args (ro_store out)) ''clojure-bundle-root.json'' = demo_root"
    "reproduced_suite (run_bundle demo_run demo_args (ro_store out)) = Inr suite"
proof (rule demo_completes)
  fix out a b c d e f g root dag_hash r
  assume "run_forensic demo_run demo_args = Inr out" "ro_status out \<in> {''pass'', ''failed''}"
    "ro_store out = demo_final a b c d e f g (PDict root) (PDict demo_cursor)"
  with that demo_documents(1) returns [OF demo_documents(2)] show thesis by (metis (no_types, lifting))
qed

lemma fresh_run_reproduces_witness:
  "\<exists>out report. run_forensic demo_run demo_args = Inr out
     \<and> reproduce_run demo_repro ''/out'' (Some (run_bundle demo_run demo_args (ro_store out))) = Inr (0, Some report)"
proof (rule demo_ran, goal_cases)
  case (1 out suite)
  from fresh_run_reproduces [OF 1(1,2) demo_confined demo_env(1-4) demo_digest 1(3) demo_env(5,6) 1(4) demo_compares demo_schema demo_schema, of "''/out''"]
    demo_agrees 1(1) show ?case by (auto simp: list_all_iff)
qed

lemma reproduction_exact_witness:
  "\<exists>out report. run_forensic demo_run demo_args = Inr out \<and> reproduce_run demo_repro ''/out'' (Some (run_bundle demo_run demo_args (ro_store out))) = Inr (0, Some report)
     \<and> list_all (\<lambda>l. \<not> differs_on demo_root demo_root l) core_fields"
proof (rule demo_ran, goal_cases)
  case (1 out suite)
  from fresh_run_repeats [OF 1(1,2) demo_confined demo_env(1-4) demo_digest 1(3) demo_env(5,6) 1(4) demo_compares demo_schema demo_schema, of "''/out''"]
    demo_agrees obtain report c where c: "claimed_source (run_bundle demo_run demo_args (ro_store out)) = Inr c"
    "pc_match (source_status demo_repro c) = Some True"
    and run: "reproduce_run demo_repro ''/out'' (Some (run_bundle demo_run demo_args (ro_store out))) = Inr (0, Some report)"
    by (auto simp: list_all_iff)
  from reproduction_exact [OF run c demo_env(6) 1(3) demo_schema demo_schema]
  have "list_all (\<lambda>l. \<not> differs_on demo_root demo_root l) core_fields" unfolding list_all_iff by blast
  with 1(1) run show ?case by blast
qed

end
