(* ===== verification/Spec2Isabelle.thy ===== *)
theory Spec2Isabelle
  imports Receipt_Theorems Mailbox_Theorems Quorum Execution_Loading Call_Data_Proofs Verdict_Theorems Live_Chain_Theorems
    Token_Theorems Allocator_Recheck Edn_Theorems Trace_Theorems Mechanism_Theorems Verify_Theorems Key_Theorems Publisher_Theorems Conformance_Theorems
    Preflight_Theorems Isolation_Checks Source_Hash Reproduce_Sample
begin

text \<open>
  A verification library for the forensic Python tools of the repository (\<^verbatim>\<open>src/scripts\<close>): the programs
  that run scenario suites, seal what they leave behind, and check -- in another process, on another machine,
  against an Ethereum node -- that the evidence is what it claims to be.  Everything is a shallow embedding:
  a Python function is a HOL function with the same branches, an exception is the left side of a sum.

  \<^bold>\<open>How the program is put together.\<close>  A forensic run (\<^verbatim>\<open>forensic/run.py\<close>) checks its inputs
  (\<^verbatim>\<open>preflight.py\<close>), hashes the source tree (\<^verbatim>\<open>source_hash.py\<close>), starts the Clojure pipeline, collects evidence
  nodes, claims and attestations, seals them under a bundle root and calls the verifier (\<^verbatim>\<open>verify.py\<close>), which
  hands protocol semantics to the dispatcher (\<^verbatim>\<open>validate.py\<close>) and its only validator (\<^verbatim>\<open>validate_sew.py\<close>).
  Runs are repeated (\<^verbatim>\<open>reproduce.py\<close>, \<^verbatim>\<open>quorum.py\<close>) or compared between runners (\<^verbatim>\<open>consensus.py\<close>), who
  exchange signed messages through a mailbox (\<^verbatim>\<open>mailbox.py\<close>, \<^verbatim>\<open>signatures.py\<close>, \<^verbatim>\<open>identity.py\<close>).  Evidence
  about contracts on a chain is checked by \<^verbatim>\<open>ethereum_receipt_inclusion.py\<close> (Merkle-Patricia proofs),
  \<^verbatim>\<open>pro28_receipts.py\<close> (a withdrawal reconstructed from its receipts), \<^verbatim>\<open>pro29_token_accounting.py\<close> (token
  flows), \<^verbatim>\<open>pro30_allocator_state.py\<close> (reserve ledger) and \<^verbatim>\<open>mechanism_persistence.py\<close> (episodes over the
  evidence graph).  \<^verbatim>\<open>bundle_verify.py\<close>, \<^verbatim>\<open>publisher_commitment.py\<close>, \<^verbatim>\<open>edn.py\<close>, \<^verbatim>\<open>trace_compare.py\<close> and
  \<^verbatim>\<open>json_diff_report.py\<close> stand beside them.

  \<^bold>\<open>The Python level.\<close>  \<open>Py_Prelude\<close> has JSON values \<open>pv\<close> (objects as association lists in
  insertion order, integers unbounded), exceptions (\<open>py_error\<close>, \<open>ev_error\<close>), \<open>bindE\<close>, \<open>foldE\<close>,
  \<open>mapE\<close> for code that may raise, and dictionaries with \<open>dset\<close>; \<open>Py_Bytes\<close> byte strings and numerals;
  \<open>Json_Text\<close> and \<open>Json_Compact\<close> the printers \<^verbatim>\<open>str\<close>, \<^verbatim>\<open>repr\<close> and canonical JSON, which determines a value
  up to the order of keys (\<open>canon\<close>); \<open>Py_Read\<close> subscripts, \<^verbatim>\<open>.get\<close> and \<^verbatim>\<open>==\<close> with the exceptions of wrong
  types.  Strings are lists of \<open>char\<close>, so characters above code point 255 are outside the model: the long
  dash of messages is written \<open>--\<close> and other such characters are parameters.  Floating-point numbers are
  not modelled.

  \<^bold>\<open>Chain evidence.\<close>  \<open>Receipt_Inclusion\<close> and \<open>Receipt_Case\<close> are \<^verbatim>\<open>verify_case\<close>; \<open>Trie_Proofs\<close> and
  \<open>Receipt_Theorems\<close> show that an accepted case fixes block, transaction and receipt.
  \<open>Execution_Receipts\<close>, \<open>Execution_Bindings\<close>, \<open>Terminal_State\<close>, \<open>Execution_Reconstruction\<close>,
  \<open>Execution_Report\<close> and \<open>Live_Chain\<close> are \<^verbatim>\<open>pro28_receipts.py\<close>, with \<open>Execution_Loading\<close>,
  \<open>Call_Data_Proofs\<close>, \<open>Verdict_Theorems\<close> and \<open>Live_Chain_Theorems\<close>; \<open>Token_Accounting\<close> with
  \<open>Token_Theorems\<close> (conservation of the supply) and \<open>Allocator_State\<close>, \<open>Allocator_Capture\<close> with
  \<open>Allocator_Theorems\<close> (the timeline refines a ledger) and \<open>Allocator_Recheck\<close> (a recheck accepts what is
  equal to a capture) are the two capture tools.

  \<^bold>\<open>Mailbox and rounds.\<close>  \<open>Runner_Identity\<close>, \<open>Runner_Signatures\<close>, \<open>Mailbox_Store\<close>, \<open>Submissions\<close>,
  \<open>Mailbox_Validate\<close>, \<open>Consensus\<close> and \<open>Quorum\<close> follow the modules of the same names; \<open>Content_Store\<close>
  is the contract of a content-addressed store, a locale that \<open>Object_Store\<close> interprets on the mailbox;
  \<open>Mailbox_Theorems\<close> and \<open>Consensus_Theorems\<close> hold what validation and agreement guarantee.

  \<^bold>\<open>Runs and their verification.\<close>  \<open>Preflight\<close>, \<open>Isolation_Checks\<close>, \<open>Source_Hash\<close>,
  \<open>Dag_Inventory\<close>, \<open>Run_Store\<close> and \<open>Forensic_Run\<close> are the run, a chain of state transformers on the files
  of its directory; \<open>Run_Directory\<close>, \<open>Cycle_Search\<close>, \<open>Evidence_Inventory\<close>, \<open>Public_Key\<close>,
  \<open>Protocol_Dispatch\<close>, \<open>Sew_Validation\<close>, \<open>Sew_Lifecycle\<close> and \<open>Bundle_Verify\<close> are the verifier.
  \<open>Inventory_Theorems\<close>, \<open>Sew_Theorems\<close>, \<open>Key_Theorems\<close> and \<open>Verify_Theorems\<close> say what exit code 0 of
  the verifier means; \<open>Dag_Theorems\<close>, \<open>Run_Theorems\<close> and \<open>Run_Outcome\<close> that the verifier accepts what a
  good run writes, and \<open>Run_Sample\<close> follows one run in full.  \<open>Reproduce\<close> and \<open>Reproduce_Theorems\<close>
  compare a run with its repetition.

  \<^bold>\<open>Around them.\<close>  \<open>Ancestor_Path\<close>, \<open>Mechanism_Map\<close>, \<open>Mechanism_Theorems\<close> (episodes over the
  evidence graph); \<open>Edn_Reader\<close>, \<open>Edn_Theorems\<close>; \<open>Json_Compare\<close>, \<open>Trace_Compare\<close>, \<open>Trace_Theorems\<close>;
  \<open>Publisher\<close>, \<open>Publisher_Theorems\<close>; \<open>Conformance_Bundle\<close>, \<open>Conformance_Theorems\<close>.  This theory
  relates the verifier's search for cycles to the search for ancestors.

  \<^bold>\<open>Bounds and fuel.\<close>  A trie proof is followed for at most 128 nodes, as in the code.  The EDN reader has
  fuel \<open>2 * length + 1\<close> for a text, and returns with it (\<open>edn_reader_terminates\<close>); its integers have the 4300
  digits that \<^verbatim>\<open>int\<close> converts.  The EDN reader and the recursive searches take the interpreter's recursion
  limit as an argument, counted in nested calls, and raise \<open>RecursionError\<close> beyond it; the theorems say which
  limit is enough (the nesting of the value, the number of nodes of the graph).  Every other loop is structural recursion or
  a fold over a list.

  \<^bold>\<open>Parameters.\<close>  Outside the repository, and so arguments of the definitions that use them: hash functions
  and signatures (\<open>crypto\<close>, \<open>eth_lib\<close>, \<open>evidence_lib\<close>, \<open>publisher_lib\<close>, \<open>signature_env\<close>), the node of
  a chain, the Clojure processes, the file system, clock and operating system (\<open>preflight_env\<close>,
  \<open>isolation_env\<close>, \<open>run_env\<close>), the order in which the interpreter visits a set (\<open>interpreter\<close>, \<open>enum\<close>) and
  the texts of its exceptions.  Theorems that need something of them say so: that a hash never returns the
  empty text, or that two equal digests come from equal texts -- the latter always as the alternative that
  two different texts with one hash exist, for the source hash among the texts that were hashed.

  \<^bold>\<open>The Clojure pipeline\<close>, which a run starts and a repetition starts again, is a function to an exit code and
  files.  Theorems about a run assume that it writes only in its workspace, its result folders and its own
  bundle root (\<open>pipeline_confined\<close>); this is a condition on the pipeline that the Python code does not check.

  \<^bold>\<open>Not modelled.\<close>  Argument parsing, progress messages and printed tables of the command lines; the file
  lock, the disk-space warning and the chmod and chattr of \<^verbatim>\<open>run.py\<close>; the Groth16 reference verification of
  \<^verbatim>\<open>pro28_receipts.py\<close> (it starts a local chain and a Solidity contract), the deployment replay
  \<^verbatim>\<open>replay_pro28_local_capture.py\<close> and the generators of golden bundles; packing and unpacking of archives
  (\<^verbatim>\<open>export.py\<close>, \<^verbatim>\<open>import_archive.py\<close>: calls of \<^verbatim>\<open>tarfile\<close>); notebook screenshots, figures and floating-point
  reports (\<^verbatim>\<open>notebook_shots_util.py\<close>, \<^verbatim>\<open>export_notebook_shots.py\<close>, demos and examples); the Clojure
  framework and the Solidity contracts.
\<close>

section \<open>From verification to the persistence report\<close>

text \<open>
  \<^verbatim>\<open>mechanism_persistence.py\<close> reads the inventory that \<^verbatim>\<open>verify.py\<close> accepted, after normalising the
  hashes.  When no hash starts with the colon of a keyword, normalising keeps them apart, and the parent
  relation of the search is the one the verifier found free of cycles.
\<close>

definition unmarked :: "pv \<Rightarrow> bool" where
  "unmarked v = (case v of PStr s \<Rightarrow> \<not> starts_with '':'' s | _ \<Rightarrow> False)"

definition unmarked_node :: "pv \<Rightarrow> bool" where
  "unmarked_node node \<longleftrightarrow>
     (case get_none node ''node-hash'' of Inl e \<Rightarrow> False | Inr c \<Rightarrow> c = PNone \<or> unmarked c) \<and>
     (case parents_of node of Inl e \<Rightarrow> False | Inr ps \<Rightarrow> list_all unmarked ps)"

lemma norm_unmarked: "unmarked v \<Longrightarrow> v = PStr (norm_name v)"
  by (cases v) (simp_all add: unmarked_def norm_name_def)

lemma parents_of_list_at: "parents_of node = bindE (list_at node ''parent-hashes'') (\<lambda>ps. Inr (filter truthy ps))"
  by (simp add: parents_of_def list_at_def)

lemma parent_edges_source:
  assumes "parent_edges inventory = Inr E" "(h, ps) \<in> set E"
  shows "\<exists>nodes node raw. list_at inventory ''dag/nodes'' = Inr nodes \<and> node \<in> set nodes \<and> h \<noteq> []
    \<and> node_hash node = Inr h \<and> parents_of node = Inr raw \<and> ps = map norm_name raw"
proof -
  define step where "step d node = bindE (node_hash node) (\<lambda>child.
       if child = [] then Inr d
       else bindE (list_at node ''parent-hashes'') (\<lambda>ps. Inr (dset child (map norm_name (filter truthy ps)) d)))" for d node
  obtain nodes where nodes: "list_at inventory ''dag/nodes'' = Inr nodes" and run: "foldE step [] nodes = Inr E"
    using assms(1) by (auto simp: parent_edges_def bindE_Inr_iff step_def [abs_def])
  let ?from = "\<lambda>node. \<exists>raw. h \<noteq> [] \<and> node_hash node = Inr h \<and> parents_of node = Inr raw \<and> ps = map norm_name raw"
  have one: "(h, ps) \<in> set d \<or> ?from n" if "step d n = Inr d'" "(h, ps) \<in> set d'" for d d' n
  proof -
    from that(1) consider "d' = d"
      | child qs where "node_hash n = Inr child" "child \<noteq> []" "list_at n ''parent-hashes'' = Inr qs"
          "d' = dset child (map norm_name (filter truthy qs)) d"
      by (auto simp: step_def bindE_Inr_iff split: if_splits)
    then show ?thesis
    proof cases
      case 2
      from that(2) 2(4) have "(h, ps) = (child, map norm_name (filter truthy qs)) \<or> (h, ps) \<in> set d"
        using set_dset_subset [THEN subsetD] by fastforce
      with 2 show ?thesis by (auto simp: parents_of_list_at)
    qed (use that in simp)
  qed
  have "(h, ps) \<in> set d \<or> (\<exists>n \<in> set ns. ?from n)" if "foldE step d ns = Inr E" for d ns
    using that
  proof (induction ns arbitrary: d)
    case (Cons n ns)
    from Cons.prems obtain d' where d': "step d n = Inr d'" "foldE step d' ns = Inr E" by (auto simp: bindE_Inr_iff)
    from Cons.IH [OF d'(2)] one [OF d'(1)] show ?case by auto
  qed (use assms(2) in simp)
  from this [OF run] nodes show ?thesis by auto
qed

lemma par_parent_rel:
  assumes E: "parent_edges inventory = Inr E" and nodes: "list_at inventory ''dag/nodes'' = Inr nodes"
    and marks: "list_all unmarked_node nodes" and edge: "(p, h) \<in> par E"
  shows "(PStr p, PStr h) \<in> parent_rel nodes"
proof -
  from edge have inner: "p \<in> set (get_or E h [])" "h \<noteq> []" by (simp_all add: par_def)
  then obtain ps where ps: "map_of E h = Some ps" "p \<in> set ps" "h \<noteq> []"
    by (cases "map_of E h") (auto simp: get_or_def)
  from parent_edges_source [OF E map_of_SomeD [OF ps(1)]] nodes obtain node raw
    where node: "node \<in> set nodes" "node_hash node = Inr h" "parents_of node = Inr raw" "ps = map norm_name raw" by auto
  from marks node(1) have mark: "unmarked_node node" by (simp add: list_all_iff)
  from node(2) obtain c where c: "get_none node ''node-hash'' = Inr c" "h = norm_name c"
    by (auto simp: node_hash_def norm_of_def bindE_Inr_iff)
  with mark ps(3) have "c = PStr h" using norm_unmarked [of c] by (auto simp: unmarked_node_def norm_name_def)
  moreover from ps(2) node(4) obtain q where q: "q \<in> set raw" "p = norm_name q" by auto
  with mark node(3) have "q = PStr p" using norm_unmarked [of q] by (auto simp: unmarked_node_def list_all_iff)
  ultimately have "\<exists>node \<in> set nodes. \<exists>ps. get_none node ''node-hash'' = Inr (PStr h) \<and> parents_of node = Inr ps \<and> PStr p \<in> set ps"
    using node(1,3) c(1) q(1) by blast
  then show ?thesis by (force simp: parent_rel_def)
qed

lemma trancl_par_parent_rel:
  assumes "parent_edges inventory = Inr E" "list_at inventory ''dag/nodes'' = Inr nodes" "list_all unmarked_node nodes"
  shows "(p, h) \<in> (par E)\<^sup>+ \<Longrightarrow> (PStr p, PStr h) \<in> (parent_rel nodes)\<^sup>+"
  by (induction rule: trancl_induct) (auto dest: par_parent_rel [OF assms] intro: trancl_into_trancl)

text \<open>
  C13: what the verifier accepts the persistence report can read.  After an exit code 0 on a run with an
  inventory whose hashes are strings without a leading colon, the search for ancestors returns from every
  set of nodes, as soon as the recursion limit exceeds the number of entries.
\<close>

theorem verified_inventory_searchable:
  assumes "verify_run V dir (Some D) e rs = Inr r" "verify_exit_code r = 0"
    and "truthy_at D [''evidence-dag-inventory.json''] = Some inventory" "honest_order (ve_interpreter V)"
    and "list_at inventory ''dag/nodes'' = Inr nodes" "list_all unmarked_node nodes"
    and "parent_edges inventory = Inr E" "length E < limit"
  shows "\<exists>path. ancestor_path limit E hs = Inr path"
proof -
  from verified_evidence [OF assms(1-4)] obtain P where P: "read_inventory inventory = Inr P" "acyclic (parent_rel (pi_nodes P))"
    by blast
  from P(1) assms(5) have "pi_nodes P = nodes" by (auto simp: read_inventory_def bindE_Inr_iff Let_def list_at_def)
  with P(2) trancl_par_parent_rel [OF assms(7,5,6)] have "(x, x) \<notin> (par E)\<^sup>+" for x by (auto simp: acyclic_def)
  then have "\<not> reaches_cycle E h" for h by (simp add: reaches_cycle_def)
  with ancestor_path_returns [of hs E "limit - Suc (length E)"] assms(8) show ?thesis by simp
qed

lemma verified_inventory_searchable_witness:
  "\<exists>path. ancestor_path 3 [(''n1'', []), (''n2'', [''n1''])] [''n2''] = Inr path"
proof -
  have "honest_order (ve_interpreter sample_env)" by (simp add: honest_order_def sample_env_def)
  moreover have "case list_at sample_inventory ''dag/nodes'' of Inl _ \<Rightarrow> False | Inr nodes \<Rightarrow> list_all unmarked_node nodes"
    by code_simp
  then obtain nodes where "list_at sample_inventory ''dag/nodes'' = Inr nodes" "list_all unmarked_node nodes"
    by (auto split: sum.splits)
  moreover have "parent_edges sample_inventory = Inr [(''n1'', []), (''n2'', [''n1''])]" by code_simp
  moreover obtain r where "verify_run sample_env ''run'' (Some (sample_dir ''00'')) (Some (''sew'', ''1'')) True = Inr r"
    "verify_exit_code r = 0" using sample_accepted by blast
  ultimately show ?thesis using sample_inventory_read by (intro verified_inventory_searchable) simp_all
qed

end
